(* ===== verification/Py_Prelude.thy ===== *)
theory Py_Prelude
  imports Complex_Main "HOL-Library.Word" "HOL-Library.Multiset" "HOL-Library.Char_ord" "HOL-Library.List_Lexorder"
begin

text \<open>
  Shared vocabulary of the development: the Python values, strings and JSON text the
  sources use, the result types of fallible code, the run-time services a definition takes
  as an argument, and the two generic interfaces (inductive invariants, bounded counters)
  that the components interpret.

  Strings are lists of characters read as code points 0--255. Finite floats are their
  rational values. Instants and durations on the wall clock are integers counting
  microseconds, the resolution of Python's \<open>datetime\<close>, so an ISO-8601 round trip is exact.
\<close>

section \<open>Collections\<close>

named_theorems decision_simps \<open>unfolding rules of the decision procedures\<close>
named_theorems store_simps \<open>effect of the store operations on lookups\<close>
named_theorems splits_all \<open>case splits used on results of fallible code\<close>

declare option.splits [splits_all] sum.splits [splits_all] if_splits [splits_all]
  prod.splits [splits_all] list.splits [splits_all]

section \<open>Python values\<close>

datatype pyval =
    PNone
  | PBool bool
  | PInt int
  | PFloat rat
  | PStr string
  | PList "pyval list"
  | PDict "(string \<times> pyval) list"

type_synonym pydict = "(string \<times> pyval) list"

text \<open>Exceptions of the language and of SQLite that the sources raise or let escape.\<close>

datatype py_error =
    AttributeError
  | TypeError
  | ValueError string
  | AssertionError
  | IndexError
  | IntegrityError
  | OverflowError

text \<open>
  Services of the run time that are no part of the sources: SHA-256 (as the 256-bit digest
  of a text) and the decimal text of a float.
\<close>

record runtime =
  sha256 :: "string \<Rightarrow> 256 word"
  float_repr :: "rat \<Rightarrow> string"

text \<open>A concrete instance, for evaluating the definitions on examples.\<close>

definition sample_runtime :: runtime where
  "sample_runtime = \<lparr>sha256 = (\<lambda>s. of_nat (length s)), float_repr = (\<lambda>x. ''0.5'')\<rparr>"

subsection \<open>Lookup, truth, equality, hashing\<close>

text \<open>\<open>d.get(k)\<close>: the value, or \<open>None\<close>.\<close>

definition py_get :: "pydict \<Rightarrow> string \<Rightarrow> pyval" where
  "py_get d k = (case map_of d k of None \<Rightarrow> PNone | Some v \<Rightarrow> v)"

text \<open>\<open>d.get(k, default)\<close>.\<close>

definition py_get_default :: "pydict \<Rightarrow> string \<Rightarrow> pyval \<Rightarrow> pyval" where
  "py_get_default d k v0 = (case map_of d k of None \<Rightarrow> v0 | Some v \<Rightarrow> v)"

definition py_has :: "pydict \<Rightarrow> string \<Rightarrow> bool" where
  "py_has d k \<longleftrightarrow> map_of d k \<noteq> None"

fun truthy :: "pyval \<Rightarrow> bool" where
  "truthy PNone = False"
| "truthy (PBool b) = b"
| "truthy (PInt n) = (n \<noteq> 0)"
| "truthy (PFloat x) = (x \<noteq> 0)"
| "truthy (PStr s) = (s \<noteq> [])"
| "truthy (PList xs) = (xs \<noteq> [])"
| "truthy (PDict d) = (d \<noteq> [])"

text \<open>Booleans, integers and floats compare by value.\<close>

fun as_number :: "pyval \<Rightarrow> rat option" where
  "as_number (PBool b) = Some (if b then 1 else 0)"
| "as_number (PInt n) = Some (of_int n)"
| "as_number (PFloat x) = Some x"
| "as_number _ = None"

fun py_eq :: "pyval \<Rightarrow> pyval \<Rightarrow> bool"
  and py_eqs :: "pyval list \<Rightarrow> pyval list \<Rightarrow> bool"
  and py_dict_in :: "pydict \<Rightarrow> pydict \<Rightarrow> bool"
  and py_entry_in :: "string \<Rightarrow> pyval \<Rightarrow> pydict \<Rightarrow> bool" where
  "py_eq PNone b = (b = PNone)"
| "py_eq (PStr s) b = (b = PStr s)"
| "py_eq (PList xs) b = (case b of PList ys \<Rightarrow> py_eqs xs ys | _ \<Rightarrow> False)"
| "py_eq (PDict d) b =
     (case b of PDict d' \<Rightarrow> length d = length d' \<and> py_dict_in d d' | _ \<Rightarrow> False)"
| "py_eq a b = (as_number b \<noteq> None \<and> as_number a = as_number b)"
| "py_eqs [] ys = (ys = [])"
| "py_eqs (x # xs) ys = (case ys of [] \<Rightarrow> False | y # ys' \<Rightarrow> py_eq x y \<and> py_eqs xs ys')"
| "py_dict_in [] d' = True"
| "py_dict_in ((k, v) # d) d' = (py_entry_in k v d' \<and> py_dict_in d d')"
| "py_entry_in k v [] = False"
| "py_entry_in k v ((k', v') # d') = (if k = k' then py_eq v v' else py_entry_in k v d')"

text \<open>Lists and dictionaries cannot be members of a set: the test raises \<open>TypeError\<close>.\<close>

fun hashable :: "pyval \<Rightarrow> bool" where
  "hashable (PList _) = False"
| "hashable (PDict _) = False"
| "hashable _ = True"

text \<open>The values an iteration visits; \<open>None\<close> stands for the raised \<open>TypeError\<close>.\<close>

definition py_iter :: "pyval \<Rightarrow> pyval list option" where
  "py_iter v = (case v of PList xs \<Rightarrow> Some xs | PStr s \<Rightarrow> Some (map (\<lambda>c. PStr [c]) s)
     | PDict d \<Rightarrow> Some (map (\<lambda>(k, _). PStr k) d) | _ \<Rightarrow> None)"

text \<open>\<open>v in {c1, c2, ...}\<close>; \<open>None\<close> stands for the raised \<open>TypeError\<close>.\<close>

definition py_in_set :: "pyval \<Rightarrow> pyval list \<Rightarrow> bool option" where
  "py_in_set v cs = (if hashable v then Some (list_ex (py_eq v) cs) else None)"

text \<open>\<open>a or b\<close> and \<open>a and b\<close> over tests that may raise: the second operand is evaluated
  only when the first does not decide.\<close>

definition py_or :: "bool option \<Rightarrow> bool option \<Rightarrow> bool option" where
  "py_or a b = (case a of None \<Rightarrow> None | Some True \<Rightarrow> Some True | Some False \<Rightarrow> b)"

definition py_and :: "bool option \<Rightarrow> bool option \<Rightarrow> bool option" where
  "py_and a b = (case a of None \<Rightarrow> None | Some False \<Rightarrow> Some False | Some True \<Rightarrow> b)"

lemma py_or_simps [simp]:
  "py_or (Some True) b = Some True" "py_or (Some False) b = b" "py_or None b = None"
  by (simp_all add: py_or_def)

lemma py_and_simps [simp]:
  "py_and (Some False) b = Some False" "py_and (Some True) b = b" "py_and None b = None"
  by (simp_all add: py_and_def)

lemma py_or_True_iff:
  "py_or a b = Some True \<longleftrightarrow> a = Some True \<or> (a = Some False \<and> b = Some True)"
  by (cases a) (auto simp: py_or_def split: bool.splits)

lemma py_and_True_iff:
  "py_and a b = Some True \<longleftrightarrow> a = Some True \<and> b = Some True"
  by (cases a) (auto simp: py_and_def split: bool.splits)

lemma py_eq_str [simp]: "py_eq v (PStr s) \<longleftrightarrow> v = PStr s"
  by (cases v) auto

lemma py_get_None_iff: "py_get d k = PNone \<longleftrightarrow> map_of d k = None \<or> map_of d k = Some PNone"
  by (auto simp: py_get_def split: option.splits)

section \<open>Text\<close>

fun nat_str :: "nat \<Rightarrow> string" where
  "nat_str n =
     (if n < 10 then [char_of (48 + n)] else nat_str (n div 10) @ [char_of (48 + n mod 10)])"

declare nat_str.simps [simp del]

definition int_str :: "int \<Rightarrow> string" where
  "int_str n = (if n < 0 then CHR ''-'' # nat_str (nat (- n)) else nat_str (nat n))"

definition code :: "char \<Rightarrow> nat" where
  "code c = of_char c"

definition hex_char :: "nat \<Rightarrow> char" where
  "hex_char n = char_of (if n < 10 then 48 + n else 87 + n)"

text \<open>\<open>hashlib.sha256(...).hexdigest()\<close>: 64 lower-case hexadecimal digits.\<close>

definition hexdigest :: "256 word \<Rightarrow> string" where
  "hexdigest w = map (\<lambda>i. hex_char (nat (uint (drop_bit (4 * i) w) mod 16))) (rev [0..<64])"

text \<open>\<open>str.lower\<close> and \<open>str.upper\<close> on code points up to 255. Upper-casing the sharp s gives
  two letters; the micro sign and y with diaeresis leave the range and are kept.\<close>

definition lower_char :: "char \<Rightarrow> char" where
  "lower_char c = (let n = code c in
     if 65 \<le> n \<and> n \<le> 90 \<or> 192 \<le> n \<and> n \<le> 222 \<and> n \<noteq> 215 then char_of (n + 32) else c)"

definition lower :: "string \<Rightarrow> string" where
  "lower s = map lower_char s"

definition upper_char :: "char \<Rightarrow> string" where
  "upper_char c = (let n = code c in
     if 97 \<le> n \<and> n \<le> 122 \<or> 224 \<le> n \<and> n \<le> 254 \<and> n \<noteq> 247 then [char_of (n - 32)]
     else if n = 223 then ''SS'' else [c])"

definition upper :: "string \<Rightarrow> string" where
  "upper s = concat (map upper_char s)"

definition starts_with :: "string \<Rightarrow> string \<Rightarrow> bool" where
  "starts_with p s \<longleftrightarrow> take (length p) s = p"

fun contains :: "string \<Rightarrow> string \<Rightarrow> bool" where
  "contains p [] = (p = [])"
| "contains p (c # cs) = (starts_with p (c # cs) \<or> contains p cs)"

definition is_space :: "char \<Rightarrow> bool" where
  "is_space c \<longleftrightarrow> (let n = code c in 9 \<le> n \<and> n \<le> 13 \<or> 28 \<le> n \<and> n \<le> 32 \<or> n = 133 \<or> n = 160)"

definition strip :: "string \<Rightarrow> string" where
  "strip s = rev (dropWhile is_space (rev (dropWhile is_space s)))"

text \<open>\<open>" ".join(s.split())[:256]\<close>; the first argument of \<open>split_ws\<close> is the word being read.\<close>

fun split_ws :: "string \<Rightarrow> string \<Rightarrow> string list" where
  "split_ws w [] = (if w = [] then [] else [w])"
| "split_ws w (c # cs) = (if \<not> is_space c then split_ws (w @ [c]) cs
     else if w = [] then split_ws [] cs else w # split_ws [] cs)"

definition rstrip_char :: "char \<Rightarrow> string \<Rightarrow> string" where
  "rstrip_char c s = rev (dropWhile (\<lambda>x. x = c) (rev s))"

definition replace_char :: "char \<Rightarrow> char \<Rightarrow> string \<Rightarrow> string" where
  "replace_char a b s = map (\<lambda>x. if x = a then b else x) s"

text \<open>An optional text inside an f-string.\<close>

definition opt_str :: "string option \<Rightarrow> string" where
  "opt_str x = (case x of None \<Rightarrow> ''None'' | Some s \<Rightarrow> s)"

text \<open>An optional text as a value.\<close>

definition opt_pyval :: "string option \<Rightarrow> pyval" where
  "opt_pyval x = (case x of None \<Rightarrow> PNone | Some s \<Rightarrow> PStr s)"

text \<open>Truth of an optional text (\<open>None\<close> and the empty text are false) and \<open>a or b\<close> on it.\<close>

definition opt_true :: "string option \<Rightarrow> bool" where
  "opt_true x \<longleftrightarrow> (case x of None \<Rightarrow> False | Some s \<Rightarrow> s \<noteq> [])"

definition opt_or :: "string option \<Rightarrow> string option \<Rightarrow> string option" where
  "opt_or a b = (if opt_true a then a else b)"

definition opt_default :: "string option \<Rightarrow> string \<Rightarrow> string" where
  "opt_default x y = (if opt_true x then the x else y)"

lemma opt_true_simps [simp]: "\<not> opt_true None" "opt_true (Some s) \<longleftrightarrow> s \<noteq> []"
  by (simp_all add: opt_true_def)

lemma opt_true_Some: "opt_true x \<Longrightarrow> \<exists>s. x = Some s \<and> s \<noteq> []"
  by (cases x) auto

subsection \<open>\<open>str\<close> and \<open>repr\<close>\<close>

definition hex2 :: "nat \<Rightarrow> string" where
  "hex2 n = [hex_char (n div 16), hex_char (n mod 16)]"

definition repr_char :: "char \<Rightarrow> char \<Rightarrow> string" where
  "repr_char q c = (let n = code c in
     if n = 92 then [c, c] else if c = q then [char_of (92::nat), c]
     else if n = 10 then [char_of (92::nat), CHR ''n'']
     else if n = 13 then [char_of (92::nat), CHR ''r'']
     else if n = 9 then [char_of (92::nat), CHR ''t'']
     else if n < 32 \<or> 127 \<le> n \<and> n \<le> 160 \<or> n = 173 then [char_of (92::nat), CHR ''x''] @ hex2 n
     else [c])"

definition repr_str :: "string \<Rightarrow> string" where
  "repr_str s = (let q = (if char_of (39::nat) \<in> set s \<and> char_of (34::nat) \<notin> set s
                          then char_of (34::nat) else char_of (39::nat))
     in [q] @ concat (map (repr_char q) s) @ [q])"

fun join :: "string \<Rightarrow> string list \<Rightarrow> string" where
  "join sep [] = []"
| "join sep [x] = x"
| "join sep (x # y # zs) = x @ sep @ join sep (y # zs)"

definition bounded_reason :: "string \<Rightarrow> string" where
  "bounded_reason s = take 256 (join '' '' (split_ws [] s))"

fun py_repr :: "runtime \<Rightarrow> pyval \<Rightarrow> string" where
  "py_repr rt PNone = ''None''"
| "py_repr rt (PBool b) = (if b then ''True'' else ''False'')"
| "py_repr rt (PInt n) = int_str n"
| "py_repr rt (PFloat x) = float_repr rt x"
| "py_repr rt (PStr s) = repr_str s"
| "py_repr rt (PList xs) = ''['' @ join '', '' (map (py_repr rt) xs) @ '']''"
| "py_repr rt (PDict d) =
     ''{'' @ join '', '' (map (\<lambda>(k, v). repr_str k @ '': '' @ py_repr rt v) d) @ ''}''"

definition py_str :: "runtime \<Rightarrow> pyval \<Rightarrow> string" where
  "py_str rt v = (case v of PStr s \<Rightarrow> s | _ \<Rightarrow> py_repr rt v)"

subsection \<open>JSON text\<close>

definition json_char :: "bool \<Rightarrow> char \<Rightarrow> string" where
  "json_char ascii c = (let n = code c; bs = char_of (92::nat) in
     if n = 34 \<or> n = 92 then [bs, c]
     else if n = 10 then [bs, CHR ''n''] else if n = 13 then [bs, CHR ''r'']
     else if n = 9 then [bs, CHR ''t''] else if n = 8 then [bs, CHR ''b'']
     else if n = 12 then [bs, CHR ''f'']
     else if n < 32 \<or> ascii \<and> n > 126 then [bs] @ ''u00'' @ hex2 n
     else [c])"

definition json_str :: "bool \<Rightarrow> string \<Rightarrow> string" where
  "json_str ascii s = [char_of (34::nat)] @ concat (map (json_char ascii) s) @ [char_of (34::nat)]"

text \<open>
  \<open>json.dumps(v, sort_keys=..., separators=(item, key), ensure_ascii=...)\<close>. Python sorts
  the entries of every nested dictionary by key; the sort is stable.
\<close>

record json_style =
  sort_keys :: bool
  item_sep :: string
  key_sep :: string
  ensure_ascii :: bool

definition compact_json :: json_style where
  "compact_json = \<lparr>sort_keys = True, item_sep = '','', key_sep = '':'', ensure_ascii = False\<rparr>"

definition default_json :: json_style where
  "default_json = \<lparr>sort_keys = False, item_sep = '', '', key_sep = '': '', ensure_ascii = True\<rparr>"

fun json_dumps :: "runtime \<Rightarrow> json_style \<Rightarrow> pyval \<Rightarrow> string" where
  "json_dumps rt st PNone = ''null''"
| "json_dumps rt st (PBool b) = (if b then ''true'' else ''false'')"
| "json_dumps rt st (PInt n) = int_str n"
| "json_dumps rt st (PFloat x) = float_repr rt x"
| "json_dumps rt st (PStr s) = json_str (ensure_ascii st) s"
| "json_dumps rt st (PList xs) =
     ''['' @ join (item_sep st) (map (json_dumps rt st) xs) @ '']''"
| "json_dumps rt st (PDict d) =
     (let es = map (\<lambda>(k, v). (k, json_dumps rt st v)) d;
          os = (if sort_keys st then sort_key fst es else es)
      in ''{'' @ join (item_sep st)
            (map (\<lambda>(k, t). json_str (ensure_ascii st) k @ key_sep st @ t) os) @ ''}'')"

text \<open>Entries in any order give one sorted text, as long as no key occurs twice.\<close>

lemma filter_eq_single: "distinct zs \<Longrightarrow> k \<in> set zs \<Longrightarrow> filter (\<lambda>x. x = k) zs = [k]"
  by (induction zs) (auto simp: filter_empty_conv)

lemma sort_key_mset_distinct:
  assumes "mset xs = mset ys" and "distinct (map f xs)"
  shows "sort_key f xs = sort_key f ys"
proof (rule properties_for_sort_key)
  show "mset (sort_key f ys) = mset xs" using assms(1) by simp
next
  fix k assume "k \<in> set (sort_key f ys)"
  have inj: "inj_on f (set xs)" using assms(2) by (simp add: distinct_map)
  have set_eq: "set ys = set xs" using assms(1) by (metis mset_eq_setD)
  have d: "distinct xs" using assms(2) by (simp add: distinct_map)
  then have dy: "distinct ys" using assms(1) by (metis mset_eq_imp_distinct_iff)
  have kin: "k \<in> set xs" using \<open>k \<in> set (sort_key f ys)\<close> set_eq by simp
  have one: "filter (\<lambda>x. f k = f x) zs = [k]" if "distinct zs" "set zs = set xs" for zs
  proof -
    have "filter (\<lambda>x. f k = f x) zs = filter (\<lambda>x. x = k) zs"
      using inj kin that(2) by (intro filter_cong) (auto simp: inj_on_def)
    also have "\<dots> = [k]" using that kin by (intro filter_eq_single) auto
    finally show ?thesis .
  qed
  show "filter (\<lambda>x. f k = f x) (sort_key f ys) = filter (\<lambda>x. f k = f x) xs"
    using one[of xs] one[of "sort_key f ys"] d dy set_eq by simp
next
  show "sorted (map f (sort_key f ys))" by simp
qed

lemma json_dumps_dict_perm:
  assumes "mset d = mset d'" and "distinct (map fst d)" and "sort_keys st"
  shows "json_dumps rt st (PDict d) = json_dumps rt st (PDict d')"
proof -
  let ?g = "\<lambda>(k, v). (k, json_dumps rt st v)"
  have "mset (map ?g d) = mset (map ?g d')" using assms(1) by simp
  moreover have keys: "map fst (map ?g d) = map fst d" by (simp add: case_prod_beta)
  have "distinct (map fst (map ?g d))" unfolding keys by (rule assms(2))
  ultimately have "sort_key fst (map ?g d) = sort_key fst (map ?g d')"
    by (rule sort_key_mset_distinct)
  then show ?thesis using assms(3) by simp
qed

section \<open>Fallible code\<close>

text \<open>Sequencing of steps that may raise.\<close>

definition ebind :: "'e + 'a \<Rightarrow> ('a \<Rightarrow> 'e + 'b) \<Rightarrow> 'e + 'b" where
  "ebind x f = (case x of Inl err \<Rightarrow> Inl err | Inr v \<Rightarrow> f v)"

lemma ebind_simps [simp]: "ebind (Inl err) f = Inl err" "ebind (Inr v) f = f v"
  by (simp_all add: ebind_def)

lemma ebind_Inr_iff: "ebind x f = Inr w \<longleftrightarrow> (\<exists>v. x = Inr v \<and> f v = Inr w)"
  by (cases x) simp_all

section \<open>Tables\<close>

text \<open>Lookups in a table kept as a list of rows, after an insert and after an update of the
  rows that satisfy a condition.\<close>

lemma find_append:
  "find P (xs @ ys) = (case find P xs of None \<Rightarrow> find P ys | Some x \<Rightarrow> Some x)"
  by (induction xs) auto

lemma find_map_other:
  "(\<And>x. Q x \<Longrightarrow> \<not> P x) \<Longrightarrow> (\<And>x. Q x \<Longrightarrow> \<not> P (f x)) \<Longrightarrow>
     find P (map (\<lambda>x. if Q x then f x else x) xs) = find P xs"
  by (induction xs) auto

lemma find_map_same:
  "(\<And>x. P x \<Longrightarrow> P (f x)) \<Longrightarrow> find P (map (\<lambda>x. if P x then f x else x) xs) = map_option f (find P xs)"
  by (induction xs) auto

lemma find_SomeD: "find P xs = Some x \<Longrightarrow> P x \<and> x \<in> set xs"
  by (induction xs) (auto split: if_splits)

text \<open>\<open>d[k] = v\<close> on a dictionary kept as the list of its entries.\<close>

definition dict_put :: "('k \<times> 'v) list \<Rightarrow> 'k \<Rightarrow> 'v \<Rightarrow> ('k \<times> 'v) list" where
  "dict_put d k v = (if k \<in> fst ` set d then map (\<lambda>(k', v'). (k', if k' = k then v else v')) d
     else d @ [(k, v)])"

lemma map_fst_replace: "map fst (map (\<lambda>(k', v'). (k', if k' = k then v else v')) d) = map fst d"
  by (auto simp: case_prod_beta)

lemma map_of_replace:
  "map_of (map (\<lambda>(k', v'). (k', if k' = k then v else v')) d) j =
     (if j = k then map_option (\<lambda>_. v) (map_of d k) else map_of d j)"
  by (induction d) auto

lemma dict_put_distinct:
  assumes "distinct (map fst d)"
  shows "distinct (map fst (dict_put d k v))"
proof (cases "k \<in> fst ` set d")
  case True
  with assms show ?thesis by (simp add: dict_put_def map_fst_replace del: map_map)
next
  case False
  with assms show ?thesis by (simp add: dict_put_def)
qed

lemma map_of_dict_put: "map_of (dict_put d k v) = (map_of d)(k \<mapsto> v)"
proof (cases "k \<in> fst ` set d")
  case True
  then obtain w where "map_of d k = Some w" by (metis map_of_eq_None_iff not_Some_eq)
  with True show ?thesis by (simp add: dict_put_def map_of_replace fun_eq_iff)
next
  case False
  then have "map_of d k = None" by (simp add: map_of_eq_None_iff)
  with False show ?thesis by (auto simp: dict_put_def fun_eq_iff map_add_def split: option.splits)
qed

lemma map_of_sort_key:
  fixes d :: "(('k :: linorder) \<times> 'v) list"
  shows "distinct (map fst d) \<Longrightarrow> map_of (sort_key fst d) = map_of d"
proof -
  assume d: "distinct (map fst d)"
  have "mset (map fst (sort_key fst d)) = mset (map fst d)" by simp
  then have "distinct (map fst (sort_key fst d))" using d mset_eq_imp_distinct_iff by blast
  with d show ?thesis by (intro ext) (metis map_of_eq_Some_iff not_Some_eq set_sort)
qed

section \<open>Rounding\<close>

text \<open>\<open>round(x, n)\<close> on exact values: ties go to the even neighbour.\<close>

definition round_half_even :: "rat \<Rightarrow> int" where
  "round_half_even x =
     (let f = \<lfloor>x\<rfloor>; d = x - of_int f in
      if d < 1/2 then f else if d > 1/2 then f + 1 else if even f then f else f + 1)"

definition py_round :: "nat \<Rightarrow> rat \<Rightarrow> rat" where
  "py_round n x = of_int (round_half_even (x * 10 ^ n)) / 10 ^ n"

lemma round_half_even_close: "\<bar>of_int (round_half_even x) - x\<bar> \<le> 1/2"
proof -
  have "of_int \<lfloor>x\<rfloor> \<le> x" "x < of_int \<lfloor>x\<rfloor> + 1" by linarith+
  then show ?thesis
    by (auto simp: round_half_even_def Let_def abs_le_iff)
qed

lemma py_round_close: "\<bar>py_round n x - x\<bar> \<le> 1 / (2 * 10 ^ n)"
proof -
  have "py_round n x - x = (of_int (round_half_even (x * 10 ^ n)) - x * 10 ^ n) / 10 ^ n"
    by (simp add: py_round_def diff_divide_distrib)
  then have "\<bar>py_round n x - x\<bar> = \<bar>of_int (round_half_even (x * 10 ^ n)) - x * 10 ^ n\<bar> / 10 ^ n"
    by (simp add: abs_divide)
  also have "\<dots> \<le> (1/2) / 10 ^ n"
    by (intro divide_right_mono round_half_even_close) simp
  finally show ?thesis by simp
qed

section \<open>Numbers and instants as text\<close>

text \<open>\<open>xs[i]\<close>: negative indices count from the end, anything else out of range raises.\<close>

definition py_index :: "'a list \<Rightarrow> int \<Rightarrow> py_error + 'a" where
  "py_index xs i = (let j = (if i < 0 then i + int (length xs) else i) in
     if 0 \<le> j \<and> j < int (length xs) then Inr (xs ! nat j) else Inl IndexError)"

text \<open>\<open>int(text, 16)\<close> on hexadecimal digits.\<close>

definition hex_digit :: "char \<Rightarrow> nat" where
  "hex_digit c = (let n = code c in if n < 58 then n - 48 else n - 87)"

definition hex_value :: "string \<Rightarrow> nat" where
  "hex_value s = foldl (\<lambda>a c. 16 * a + hex_digit c) 0 s"

lemma hex_digit_hex_char: "n < 16 \<Longrightarrow> hex_digit (hex_char n) = n"
  by (auto simp: hex_digit_def hex_char_def code_def Let_def)

lemma foldl_hex_less:
  "list_all (\<lambda>c. hex_digit c < 16) s \<Longrightarrow>
     foldl (\<lambda>a c. 16 * a + hex_digit c) a s < (a + 1) * 16 ^ length s"
proof (induction s arbitrary: a)
  case (Cons c s)
  then have "foldl (\<lambda>a c. 16 * a + hex_digit c) (16 * a + hex_digit c) s
      < (16 * a + hex_digit c + 1) * 16 ^ length s" by simp
  also have "\<dots> \<le> (16 * a + 16) * 16 ^ length s" using Cons.prems by (intro mult_right_mono) auto
  also have "\<dots> = (a + 1) * 16 ^ length (c # s)" by (simp add: algebra_simps)
  finally show ?case by simp
qed simp

lemma hexdigest_digits: "list_all (\<lambda>c. hex_digit c < 16) (hexdigest w)"
proof -
  have "hex_digit (hex_char (nat (uint v mod 16))) < 16" for v :: "256 word"
  proof -
    have "nat (uint v mod 16) < 16" by (simp add: nat_less_iff)
    then show ?thesis by (simp add: hex_digit_hex_char)
  qed
  then show ?thesis by (simp add: hexdigest_def list_all_iff)
qed

lemma length_hexdigest [simp]: "length (hexdigest w) = 64"
  by (simp add: hexdigest_def)

lemma hexdigest_prefix_value: "n \<le> 64 \<Longrightarrow> hex_value (take n (hexdigest w)) < 16 ^ n"
proof -
  assume "n \<le> 64"
  have "list_all (\<lambda>c. hex_digit c < 16) (take n (hexdigest w))"
    using hexdigest_digits[of w] by (auto simp: list_all_iff dest: in_set_takeD)
  from foldl_hex_less[OF this, of 0] \<open>n \<le> 64\<close> show ?thesis by (simp add: hex_value_def)
qed

text \<open>\<open>int(text)\<close>: surrounding space, one sign, digits with single underscores between them.\<close>

fun digits_value :: "nat \<Rightarrow> string \<Rightarrow> nat option" where
  "digits_value a [] = Some a"
| "digits_value a (c # cs) =
     (if 48 \<le> code c \<and> code c \<le> 57 then digits_value (10 * a + (code c - 48)) cs
      else if c = CHR ''_'' then
        (case cs of d # _ \<Rightarrow> if 48 \<le> code d \<and> code d \<le> 57 then digits_value a cs else None
         | [] \<Rightarrow> None)
      else None)"

definition int_of_text :: "string \<Rightarrow> int option" where
  "int_of_text s =
     (let t = strip s;
          neg = (t \<noteq> [] \<and> hd t = CHR ''-'');
          u = (if t \<noteq> [] \<and> hd t \<in> {CHR ''-'', CHR ''+''} then tl t else t)
      in if u = [] \<or> hd u = CHR ''_'' then None
         else map_option (\<lambda>n. if neg then - int n else int n) (digits_value 0 u))"

text \<open>\<open>int(v)\<close>: floats are cut towards zero.\<close>

fun py_int :: "pyval \<Rightarrow> py_error + int" where
  "py_int (PBool b) = Inr (if b then 1 else 0)"
| "py_int (PInt n) = Inr n"
| "py_int (PFloat x) = Inr (if x < 0 then - \<lfloor>- x\<rfloor> else \<lfloor>x\<rfloor>)"
| "py_int (PStr s) = (case int_of_text s of
     Some n \<Rightarrow> Inr n
   | None \<Rightarrow> Inl (ValueError (''invalid literal for int() with base 10: '' @ repr_str s)))"
| "py_int _ = Inl TypeError"

definition sqlite_int :: "int \<Rightarrow> bool" where
  "sqlite_int n \<longleftrightarrow> - (2 ^ 63) \<le> n \<and> n < 2 ^ 63"

text \<open>The text \<open>datetime.isoformat()\<close> of an instant in UTC, in the proleptic Gregorian
  calendar (eras of 146097 days counted from 1 March of year 0).\<close>

definition pad :: "nat \<Rightarrow> nat \<Rightarrow> string" where
  "pad w n = (let s = nat_str n in replicate (w - length s) (CHR ''0'') @ s)"

definition civil_date :: "int \<Rightarrow> int \<times> nat \<times> nat" where
  "civil_date days =
     (let z = days + 719468; era = z div 146097; doe = z mod 146097;
          yoe = (doe - doe div 1460 + doe div 36524 - doe div 146096) div 365;
          doy = doe - (365 * yoe + yoe div 4 - yoe div 100);
          mp = (5 * doy + 2) div 153; d = doy - (153 * mp + 2) div 5 + 1;
          m = (if mp < 10 then mp + 3 else mp - 9);
          y = yoe + era * 400 + (if m \<le> 2 then 1 else 0)
      in (y, nat m, nat d))"

definition isoformat :: "int \<Rightarrow> string" where
  "isoformat us =
     (let (y, m, d) = civil_date (us div 86400000000); r = us mod 86400000000;
          s = r div 1000000; f = r mod 1000000
      in pad 4 (nat y) @ ''-'' @ pad 2 m @ ''-'' @ pad 2 d @ ''T'' @ pad 2 (nat (s div 3600)) @ '':''
         @ pad 2 (nat (s div 60 mod 60)) @ '':'' @ pad 2 (nat (s mod 60))
         @ (if f = 0 then [] else ''.'' @ pad 6 (nat f)) @ ''+00:00'')"

text \<open>\<open>isoformat(timespec="microseconds")\<close> of an instant in UTC, with the zone written \<open>Z\<close>.\<close>

definition iso_body :: "int \<Rightarrow> string" where
  "iso_body us =
     (let (y, m, d) = civil_date (us div 86400000000); r = us mod 86400000000;
          s = r div 1000000; f = r mod 1000000
      in pad 4 (nat y) @ ''-'' @ pad 2 m @ ''-'' @ pad 2 d @ ''T'' @ pad 2 (nat (s div 3600)) @ '':''
         @ pad 2 (nat (s div 60 mod 60)) @ '':'' @ pad 2 (nat (s mod 60)) @ ''.'' @ pad 6 (nat f))"

definition canonical_time :: "int \<Rightarrow> string" where
  "canonical_time us = iso_body us @ ''Z''"

text \<open>\<open>f"{x:.1f}"\<close>.\<close>

definition fixed1 :: "rat \<Rightarrow> string" where
  "fixed1 x = (let n = nat (round_half_even (\<bar>x\<bar> * 10)) in
     (if x < 0 then ''-'' else []) @ nat_str (n div 10) @ ''.'' @ nat_str (n mod 10))"

section \<open>Generic interfaces\<close>

text \<open>States reachable from an initial predicate under a step relation.\<close>

inductive reachable :: "('s \<Rightarrow> bool) \<Rightarrow> ('s \<Rightarrow> 's \<Rightarrow> bool) \<Rightarrow> 's \<Rightarrow> bool"
  for init :: "'s \<Rightarrow> bool" and step :: "'s \<Rightarrow> 's \<Rightarrow> bool" where
  reach_init: "init s \<Longrightarrow> reachable init step s"
| reach_step: "reachable init step s \<Longrightarrow> step s t \<Longrightarrow> reachable init step t"

text \<open>An invariant that every step keeps holds in every reachable state.\<close>

locale inductive_invariant =
  fixes init :: "'s \<Rightarrow> bool"
    and step :: "'s \<Rightarrow> 's \<Rightarrow> bool"
    and inv :: "'s \<Rightarrow> bool"
  assumes inv_init: "init s \<Longrightarrow> inv s"
    and inv_step: "inv s \<Longrightarrow> step s t \<Longrightarrow> inv t"
begin

lemma inv_reachable: "reachable init step s \<Longrightarrow> inv s"
  by (induction rule: reachable.induct) (auto intro: inv_init inv_step)

end

text \<open>
  A counter that a grant advances by one and that refuses every request once it has reached
  its cap; other requests leave it alone. Whatever the requests, at most \<open>cap - spent s\<close>
  of them are granted.
\<close>

fun run_requests :: "('s \<Rightarrow> 'r \<Rightarrow> 's \<times> bool) \<Rightarrow> 's \<Rightarrow> 'r list \<Rightarrow> 's \<times> nat" where
  "run_requests f s [] = (s, 0)"
| "run_requests f s (r # rs) =
     (case f s r of (s', ok) \<Rightarrow>
        (case run_requests f s' rs of (s'', n) \<Rightarrow> (s'', if ok then Suc n else n)))"

locale bounded_grants =
  fixes request :: "'s \<Rightarrow> 'r \<Rightarrow> 's \<times> bool"
    and inv :: "'s \<Rightarrow> bool"
    and spent :: "'s \<Rightarrow> nat"
    and cap :: nat
  assumes kept: "inv s \<Longrightarrow> inv (fst (request s r))"
    and granted: "inv s \<Longrightarrow> snd (request s r) \<Longrightarrow>
          spent s < cap \<and> spent (fst (request s r)) = Suc (spent s)"
    and refused: "inv s \<Longrightarrow> \<not> snd (request s r) \<Longrightarrow> spent (fst (request s r)) = spent s"
begin

lemma run_spent:
  "inv s \<Longrightarrow> spent (fst (run_requests request s rs)) = spent s + snd (run_requests request s rs)"
proof (induction rs arbitrary: s)
  case (Cons r rs)
  show ?case
    using Cons.IH[OF kept[OF Cons.prems, of r]] granted[OF Cons.prems, of r] refused[OF Cons.prems, of r]
    by (cases "snd (request s r)") (simp_all add: case_prod_beta)
qed simp

lemma run_within_cap:
  "inv s \<Longrightarrow> spent s \<le> cap \<Longrightarrow> spent (fst (run_requests request s rs)) \<le> cap"
proof (induction rs arbitrary: s)
  case (Cons r rs)
  have "spent (fst (request s r)) \<le> cap"
    using granted[OF Cons.prems(1), of r] refused[OF Cons.prems(1), of r] Cons.prems(2)
    by (cases "snd (request s r)") simp_all
  with Cons.IH[OF kept[OF Cons.prems(1)]] show ?case by (simp add: case_prod_beta)
qed simp

lemma grants_bounded:
  "inv s \<Longrightarrow> spent s \<le> cap \<Longrightarrow> snd (run_requests request s rs) \<le> cap - spent s"
  using run_spent[of s rs] run_within_cap[of s rs] by simp

end

end
