(* ===== verification/Failure_Taxonomy.thy ===== *)
theory Failure_Taxonomy
  imports Py_Prelude
begin

text \<open>
  The failure taxonomy of \<^verbatim>\<open>src/bdb_vnext/failure_taxonomy.py\<close>: semantic kinds, failure
  classes, automatic actions, the transition matrix, the precedence order, the transition
  validator and the inventory of existing error states. The lemmas show that the matrix is
  coherent, that the inventory agrees with it and what the validator refuses.
\<close>

section \<open>Enumerations\<close>

datatype SemanticKind = FAILURE | WAITING | POLICY_PAUSE | HUMAN_CHECKPOINT

datatype FailureClass =
    PROJECT_REPAIRABLE
  | TRANSIENT_INFRASTRUCTURE
  | CI_WAITING
  | TEST_INFRA_FAILURE
  | TRANSPORT_UNCERTAIN
  | ENVIRONMENT_REPAIRABLE
  | SOURCE_DIVERGENCE
  | POLICY_VIOLATION
  | SECURITY_VIOLATION
  | DATA_CORRUPTION
  | EXTERNAL_ACTION_REQUIRED
  | AMBIGUOUS_FAILURE
  | PHASE_SCOPE_VIOLATION
  | EARLY_IMPLEMENTATION

text \<open>The members in declaration order, and their \<open>.value\<close>.\<close>

definition failure_classes :: "FailureClass list" where
  "failure_classes = [
     PROJECT_REPAIRABLE,
     TRANSIENT_INFRASTRUCTURE,
     CI_WAITING,
     TEST_INFRA_FAILURE,
     TRANSPORT_UNCERTAIN,
     ENVIRONMENT_REPAIRABLE,
     SOURCE_DIVERGENCE,
     POLICY_VIOLATION,
     SECURITY_VIOLATION,
     DATA_CORRUPTION,
     EXTERNAL_ACTION_REQUIRED,
     AMBIGUOUS_FAILURE,
     PHASE_SCOPE_VIOLATION,
     EARLY_IMPLEMENTATION]"

fun failure_class_value :: "FailureClass \<Rightarrow> string" where
  "failure_class_value PROJECT_REPAIRABLE = ''PROJECT_REPAIRABLE''"
| "failure_class_value TRANSIENT_INFRASTRUCTURE = ''TRANSIENT_INFRASTRUCTURE''"
| "failure_class_value CI_WAITING = ''CI_WAITING''"
| "failure_class_value TEST_INFRA_FAILURE = ''TEST_INFRA_FAILURE''"
| "failure_class_value TRANSPORT_UNCERTAIN = ''TRANSPORT_UNCERTAIN''"
| "failure_class_value ENVIRONMENT_REPAIRABLE = ''ENVIRONMENT_REPAIRABLE''"
| "failure_class_value SOURCE_DIVERGENCE = ''SOURCE_DIVERGENCE''"
| "failure_class_value POLICY_VIOLATION = ''POLICY_VIOLATION''"
| "failure_class_value SECURITY_VIOLATION = ''SECURITY_VIOLATION''"
| "failure_class_value DATA_CORRUPTION = ''DATA_CORRUPTION''"
| "failure_class_value EXTERNAL_ACTION_REQUIRED = ''EXTERNAL_ACTION_REQUIRED''"
| "failure_class_value AMBIGUOUS_FAILURE = ''AMBIGUOUS_FAILURE''"
| "failure_class_value PHASE_SCOPE_VIOLATION = ''PHASE_SCOPE_VIOLATION''"
| "failure_class_value EARLY_IMPLEMENTATION = ''EARLY_IMPLEMENTATION''"

definition REQUIRED_FAILURE_CLASSES :: "string list" where
  "REQUIRED_FAILURE_CLASSES = map failure_class_value failure_classes"

datatype AutoAction =
    AUTO_REPAIR_PROJECT
  | AUTO_REPAIR_BOUNDED_PROJECT
  | AUTO_RETRY_BACKOFF
  | AUTO_POLL
  | AUTO_REPAIR_TEST_INFRA
  | AUTO_RECONCILE
  | AUTO_REPAIR_ENVIRONMENT
  | AUTO_STOP_FAIL_CLOSED
  | AUTO_PAUSE_POLICY
  | AUTO_FREEZE_FAIL_CLOSED
  | AUTO_WAIT_FOR_OPERATOR
  | AUTO_FAIL_CLOSED

section \<open>Transition matrix\<close>

record transition_spec =
  failure_class :: FailureClass
  semantic_kind :: SemanticKind
  description :: string
  required_evidence :: "string list"
  auto_action :: AutoAction
  retry_allowed :: bool
  repair_allowed :: bool
  reconciliation_required :: bool
  operator_required :: bool
  terminal :: bool
  resume_condition :: string
  escalation_target :: "FailureClass option"

definition spec_PROJECT_REPAIRABLE :: transition_spec where
  "spec_PROJECT_REPAIRABLE = \<lparr>
     failure_class = PROJECT_REPAIRABLE,
     semantic_kind = FAILURE,
     description = ''Code, syntax, logic error or missing artifact repairable within task boundary.'',
     required_evidence = [''failure_code'', ''diagnostic_message'', ''test_or_artifact_ref''],
     auto_action = AUTO_REPAIR_PROJECT,
     retry_allowed = True, repair_allowed = True,
     reconciliation_required = False, operator_required = False,
     terminal = False,
     resume_condition = ''passing test rerun or verified artifact creation'',
     escalation_target = Some EXTERNAL_ACTION_REQUIRED\<rparr>"

definition spec_TRANSIENT_INFRASTRUCTURE :: transition_spec where
  "spec_TRANSIENT_INFRASTRUCTURE = \<lparr>
     failure_class = TRANSIENT_INFRASTRUCTURE,
     semantic_kind = FAILURE,
     description = ''Transient network blip, connector connect timeout, or temporary queue lock contention.'',
     required_evidence = [''error_code'', ''retryable_error_pattern'', ''resource_target''],
     auto_action = AUTO_RETRY_BACKOFF,
     retry_allowed = True, repair_allowed = False,
     reconciliation_required = False, operator_required = False,
     terminal = False,
     resume_condition = ''backoff timer expiry and connection re-established'',
     escalation_target = Some EXTERNAL_ACTION_REQUIRED\<rparr>"

definition spec_CI_WAITING :: transition_spec where
  "spec_CI_WAITING = \<lparr>
     failure_class = CI_WAITING,
     semantic_kind = WAITING,
     description = ''External CI workflow run currently in progress or queued for target commit.'',
     required_evidence = [''ci_provider'', ''run_id'', ''target_head_sha'', ''run_status''],
     auto_action = AUTO_POLL,
     retry_allowed = False, repair_allowed = False,
     reconciliation_required = False, operator_required = False,
     terminal = False,
     resume_condition = ''CI run terminal status observed (success/failure) via poll or webhook'',
     escalation_target = Some EXTERNAL_ACTION_REQUIRED\<rparr>"

definition spec_TEST_INFRA_FAILURE :: transition_spec where
  "spec_TEST_INFRA_FAILURE = \<lparr>
     failure_class = TEST_INFRA_FAILURE,
     semantic_kind = FAILURE,
     description = ''Test framework crash, test runner timeout, or faulty test oracle (e.g. precision bug).'',
     required_evidence = [''test_runner_exit_code'', ''harness_crash_trace'', ''test_id''],
     auto_action = AUTO_REPAIR_TEST_INFRA,
     retry_allowed = True, repair_allowed = True,
     reconciliation_required = False, operator_required = False,
     terminal = False,
     resume_condition = ''test harness restored or oracle fixed'',
     escalation_target = Some EXTERNAL_ACTION_REQUIRED\<rparr>"

definition spec_TRANSPORT_UNCERTAIN :: transition_spec where
  "spec_TRANSPORT_UNCERTAIN = \<lparr>
     failure_class = TRANSPORT_UNCERTAIN,
     semantic_kind = FAILURE,
     description = ''Command/message delivery state unconfirmed (missing ack, socket drop mid-send).'',
     required_evidence = [''correlation_id'', ''command_id'', ''last_known_delivery_state''],
     auto_action = AUTO_RECONCILE,
     retry_allowed = False, repair_allowed = False,
     reconciliation_required = True, operator_required = False,
     terminal = False,
     resume_condition = ''recipient state queried and delivery status confirmed or re-enqueued'',
     escalation_target = Some EXTERNAL_ACTION_REQUIRED\<rparr>"

definition spec_ENVIRONMENT_REPAIRABLE :: transition_spec where
  "spec_ENVIRONMENT_REPAIRABLE = \<lparr>
     failure_class = ENVIRONMENT_REPAIRABLE,
     semantic_kind = FAILURE,
     description = ''Missing environment dependency, tool binary not found in PATH, missing SDK.'',
     required_evidence = [''missing_binary_or_package'', ''resolved_path'', ''exit_code''],
     auto_action = AUTO_REPAIR_ENVIRONMENT,
     retry_allowed = True, repair_allowed = True,
     reconciliation_required = False, operator_required = False,
     terminal = False,
     resume_condition = ''dependency installed or environment variable activated'',
     escalation_target = Some EXTERNAL_ACTION_REQUIRED\<rparr>"

definition spec_SOURCE_DIVERGENCE :: transition_spec where
  "spec_SOURCE_DIVERGENCE = \<lparr>
     failure_class = SOURCE_DIVERGENCE,
     semantic_kind = FAILURE,
     description = ''Git repository HEAD or tree does not match expected baseline / accepted candidate.'',
     required_evidence = [''expected_head'', ''observed_head'', ''expected_tree'', ''observed_tree''],
     auto_action = AUTO_STOP_FAIL_CLOSED,
     retry_allowed = False, repair_allowed = False,
     reconciliation_required = True, operator_required = True,
     terminal = True,
     resume_condition = ''operator aligns source or checks out canonical baseline'',
     escalation_target = Some EXTERNAL_ACTION_REQUIRED\<rparr>"

definition spec_POLICY_VIOLATION :: transition_spec where
  "spec_POLICY_VIOLATION = \<lparr>
     failure_class = POLICY_VIOLATION,
     semantic_kind = POLICY_PAUSE,
     description = ''Action violates active project policy, rate ceiling, or scope boundary.'',
     required_evidence = [''policy_rule_id'', ''attempted_action'', ''resource_target''],
     auto_action = AUTO_PAUSE_POLICY,
     retry_allowed = False, repair_allowed = False,
     reconciliation_required = True, operator_required = True,
     terminal = False,
     resume_condition = ''policy relaxation or scope boundary adjustment by operator'',
     escalation_target = Some EXTERNAL_ACTION_REQUIRED\<rparr>"

definition spec_SECURITY_VIOLATION :: transition_spec where
  "spec_SECURITY_VIOLATION = \<lparr>
     failure_class = SECURITY_VIOLATION,
     semantic_kind = FAILURE,
     description = ''Path traversal, symlink escape outside canonical root, or unauthorized write.'',
     required_evidence = [''violation_type'', ''offending_path_or_token'', ''canonical_root''],
     auto_action = AUTO_FREEZE_FAIL_CLOSED,
     retry_allowed = False, repair_allowed = False,
     reconciliation_required = False, operator_required = True,
     terminal = True,
     resume_condition = ''manual security audit and operator unfreeze'',
     escalation_target = Some EXTERNAL_ACTION_REQUIRED\<rparr>"

definition spec_DATA_CORRUPTION :: transition_spec where
  "spec_DATA_CORRUPTION = \<lparr>
     failure_class = DATA_CORRUPTION,
     semantic_kind = FAILURE,
     description = ''Database integrity check failure, malformed JSON, or unreadable state storage.'',
     required_evidence = [''corrupted_file_path'', ''integrity_check_output'', ''expected_format''],
     auto_action = AUTO_FREEZE_FAIL_CLOSED,
     retry_allowed = False, repair_allowed = False,
     reconciliation_required = True, operator_required = True,
     terminal = True,
     resume_condition = ''point-in-time restore from verified backup'',
     escalation_target = Some EXTERNAL_ACTION_REQUIRED\<rparr>"

definition spec_EXTERNAL_ACTION_REQUIRED :: transition_spec where
  "spec_EXTERNAL_ACTION_REQUIRED = \<lparr>
     failure_class = EXTERNAL_ACTION_REQUIRED,
     semantic_kind = HUMAN_CHECKPOINT,
     description = ''Human review required: open question decision, manual gate approval, external credentials.'',
     required_evidence = [''checkpoint_id'', ''decision_or_question_id'', ''reason''],
     auto_action = AUTO_WAIT_FOR_OPERATOR,
     retry_allowed = False, repair_allowed = False,
     reconciliation_required = False, operator_required = True,
     terminal = False,
     resume_condition = ''operator records decision or signs off on checkpoint'',
     escalation_target = None\<rparr>"

definition spec_AMBIGUOUS_FAILURE :: transition_spec where
  "spec_AMBIGUOUS_FAILURE = \<lparr>
     failure_class = AMBIGUOUS_FAILURE,
     semantic_kind = FAILURE,
     description = ''Conflicting, incomplete, or unknown failure signals that cannot be deterministically resolved.'',
     required_evidence = [''conflicting_rule_ids_or_missing_fields'', ''raw_observation''],
     auto_action = AUTO_FAIL_CLOSED,
     retry_allowed = False, repair_allowed = False,
     reconciliation_required = True, operator_required = True,
     terminal = True,
     resume_condition = ''diagnostic clarification or manual failure classification by operator'',
     escalation_target = Some EXTERNAL_ACTION_REQUIRED\<rparr>"

definition spec_PHASE_SCOPE_VIOLATION :: transition_spec where
  "spec_PHASE_SCOPE_VIOLATION = \<lparr>
     failure_class = PHASE_SCOPE_VIOLATION,
     semantic_kind = FAILURE,
     description = ''Code changes touched files or milestones outside current task scope.'',
     required_evidence = [''out_of_scope_files'', ''allowed_task_scope'', ''current_milestone_id''],
     auto_action = AUTO_REPAIR_BOUNDED_PROJECT,
     retry_allowed = True, repair_allowed = True,
     reconciliation_required = True, operator_required = False,
     terminal = False,
     resume_condition = ''out-of-boundary changes reverted and task boundary verified'',
     escalation_target = Some EXTERNAL_ACTION_REQUIRED\<rparr>"

definition spec_EARLY_IMPLEMENTATION :: transition_spec where
  "spec_EARLY_IMPLEMENTATION = \<lparr>
     failure_class = EARLY_IMPLEMENTATION,
     semantic_kind = FAILURE,
     description = ''Premature implementation of future task/feature before prerequisite milestone is committed.'',
     required_evidence = [''uncommitted_prerequisite_id'', ''premature_symbols_or_files''],
     auto_action = AUTO_REPAIR_BOUNDED_PROJECT,
     retry_allowed = True, repair_allowed = True,
     reconciliation_required = True, operator_required = False,
     terminal = False,
     resume_condition = ''premature code isolated and prerequisite focus restored'',
     escalation_target = Some EXTERNAL_ACTION_REQUIRED\<rparr>"

text \<open>
  The dictionary has one entry per member of the enumeration, so it is a total function and
  the \<open>unknown_failure_class\<close> branch of its readers cannot be taken.
\<close>

fun TRANSITION_MATRIX :: "FailureClass \<Rightarrow> transition_spec" where
  "TRANSITION_MATRIX PROJECT_REPAIRABLE = spec_PROJECT_REPAIRABLE"
| "TRANSITION_MATRIX TRANSIENT_INFRASTRUCTURE = spec_TRANSIENT_INFRASTRUCTURE"
| "TRANSITION_MATRIX CI_WAITING = spec_CI_WAITING"
| "TRANSITION_MATRIX TEST_INFRA_FAILURE = spec_TEST_INFRA_FAILURE"
| "TRANSITION_MATRIX TRANSPORT_UNCERTAIN = spec_TRANSPORT_UNCERTAIN"
| "TRANSITION_MATRIX ENVIRONMENT_REPAIRABLE = spec_ENVIRONMENT_REPAIRABLE"
| "TRANSITION_MATRIX SOURCE_DIVERGENCE = spec_SOURCE_DIVERGENCE"
| "TRANSITION_MATRIX POLICY_VIOLATION = spec_POLICY_VIOLATION"
| "TRANSITION_MATRIX SECURITY_VIOLATION = spec_SECURITY_VIOLATION"
| "TRANSITION_MATRIX DATA_CORRUPTION = spec_DATA_CORRUPTION"
| "TRANSITION_MATRIX EXTERNAL_ACTION_REQUIRED = spec_EXTERNAL_ACTION_REQUIRED"
| "TRANSITION_MATRIX AMBIGUOUS_FAILURE = spec_AMBIGUOUS_FAILURE"
| "TRANSITION_MATRIX PHASE_SCOPE_VIOLATION = spec_PHASE_SCOPE_VIOLATION"
| "TRANSITION_MATRIX EARLY_IMPLEMENTATION = spec_EARLY_IMPLEMENTATION"

lemmas spec_defs =
  spec_PROJECT_REPAIRABLE_def
  spec_TRANSIENT_INFRASTRUCTURE_def
  spec_CI_WAITING_def
  spec_TEST_INFRA_FAILURE_def
  spec_TRANSPORT_UNCERTAIN_def
  spec_ENVIRONMENT_REPAIRABLE_def
  spec_SOURCE_DIVERGENCE_def
  spec_POLICY_VIOLATION_def
  spec_SECURITY_VIOLATION_def
  spec_DATA_CORRUPTION_def
  spec_EXTERNAL_ACTION_REQUIRED_def
  spec_AMBIGUOUS_FAILURE_def
  spec_PHASE_SCOPE_VIOLATION_def
  spec_EARLY_IMPLEMENTATION_def

definition PRECEDENCE_ORDER :: "FailureClass list" where
  "PRECEDENCE_ORDER = [
     SECURITY_VIOLATION, DATA_CORRUPTION, SOURCE_DIVERGENCE, POLICY_VIOLATION, CI_WAITING,
     TRANSIENT_INFRASTRUCTURE, TRANSPORT_UNCERTAIN, ENVIRONMENT_REPAIRABLE,
     TEST_INFRA_FAILURE, PHASE_SCOPE_VIOLATION, EARLY_IMPLEMENTATION, PROJECT_REPAIRABLE,
     EXTERNAL_ACTION_REQUIRED, AMBIGUOUS_FAILURE]"

section \<open>Transition validator\<close>

text \<open>\<open>validate_transition\<close>; an absent context is the empty dictionary.\<close>

definition validate_transition ::
  "FailureClass \<Rightarrow> string \<Rightarrow> pydict \<Rightarrow> bool \<times> string" where
  "validate_transition current_class target_action ctx =
     (let spec = TRANSITION_MATRIX current_class; action = upper target_action in
      if current_class = AMBIGUOUS_FAILURE \<and> action \<in> {''PASS'', ''ACCEPT'', ''PROMOTE''}
      then (False, ''ambiguous_failure_cannot_accept_pass'')
      else if current_class = CI_WAITING \<and> action \<in> {''FAILED'', ''FAIL'', ''MARK_FAILED''}
        \<and> truthy (py_get_default ctx ''poll_pending'' (PBool True))
      then (False, ''ci_waiting_cannot_fail_while_pending'')
      else if current_class = CI_WAITING
        \<and> action \<in> {''AUTO_REPAIR_PROJECT'', ''CREATE_REPAIR_ATTEMPT''}
      then (False, ''ci_waiting_cannot_create_project_repair'')
      else if current_class = SECURITY_VIOLATION
        \<and> action \<in> {''AUTO_RETRY'', ''RETRY'', ''AUTO_RETRY_BACKOFF''}
      then (False, ''security_violation_auto_retry_prohibited'')
      else if current_class = SECURITY_VIOLATION
        \<and> action \<in> {''ESCALATE_PRIVILEGE'', ''AUTO_BYPASS''}
      then (False, ''security_violation_bypass_prohibited'')
      else if current_class = DATA_CORRUPTION
        \<and> action \<in> {''AUTO_REPAIR_PROJECT'', ''RETRY'', ''AUTO_RETRY''}
      then (False, ''data_corruption_blind_repair_prohibited'')
      else if current_class = TRANSPORT_UNCERTAIN \<and> action \<in> {''RESEND'', ''RETRY'', ''AUTO_RETRY''}
        \<and> \<not> truthy (py_get_default ctx ''reconciled'' (PBool False))
      then (False, ''transport_uncertain_blind_resend_prohibited'')
      else if current_class = POLICY_VIOLATION
        \<and> action \<in> {''AUTO_ESCALATE_PRIVILEGE'', ''AUTO_BYPASS'', ''RETRY''}
      then (False, ''policy_violation_auto_escalation_prohibited'')
      else if current_class \<in> {PHASE_SCOPE_VIOLATION, EARLY_IMPLEMENTATION}
        \<and> action \<in> {''BROADEN_SCOPE'', ''MODIFY_OUT_OF_SCOPE_FILES''}
      then (False, ''repair_cannot_escape_task_boundary'')
      else if current_class \<in> {PHASE_SCOPE_VIOLATION, EARLY_IMPLEMENTATION}
        \<and> action \<in> {''ABORT_PROJECT'', ''TERMINATE_PROJECT''}
        \<and> \<not> truthy (py_get_default ctx ''budget_exhausted'' (PBool False))
      then (False, ''scope_violation_must_attempt_bounded_repair_first'')
      else if terminal spec \<and> action \<in> {''AUTO_RETRY'', ''RETRY''}
      then (False, ''terminal_state_auto_retry_prohibited: '' @ failure_class_value current_class)
      else (True, ''legal_transition''))"

section \<open>Inventory of existing error states\<close>

record existing_state_mapping =
  existing_state_or_error :: string
  current_owner :: string
  current_meaning :: string
  current_auto_behavior :: string
  canonical_nx012_class :: FailureClass
  mapped_evidence :: "string list"

definition EXISTING_STATE_MAPPINGS :: "existing_state_mapping list" where
  "EXISTING_STATE_MAPPINGS = [
  \<lparr>existing_state_or_error = ''COMPILATION_ERROR / SyntaxError'',
    current_owner = ''ProjectExecution / Task Attempt Validator'',
    current_meaning = ''Code failed to compile or parse syntactically'',
    current_auto_behavior = ''Blocked / failure attempt recorded'',
    canonical_nx012_class = PROJECT_REPAIRABLE,
    mapped_evidence = [''failure_code'', ''diagnostic_message'', ''test_or_artifact_ref'']\<rparr>,
  \<lparr>existing_state_or_error = ''ConnectTimeout / GITHUB_CONNECTOR_TIMEOUT'',
    current_owner = ''GitHub Connector / External Client'',
    current_meaning = ''Network connection timed out reaching external GitHub API'',
    current_auto_behavior = ''Transient exception raised'',
    canonical_nx012_class = TRANSIENT_INFRASTRUCTURE,
    mapped_evidence = [''error_code'', ''retryable_error_pattern'', ''resource_target'']\<rparr>,
  \<lparr>existing_state_or_error = ''CI_IN_PROGRESS / GITHUB_ACTIONS_PENDING'',
    current_owner = ''Project Workflow / CI Monitor'',
    current_meaning = ''External CI run is currently executing or queued'',
    current_auto_behavior = ''Premature WAITING_EXTERNAL (v1 flaw to be repaired)'',
    canonical_nx012_class = CI_WAITING,
    mapped_evidence = [''ci_provider'', ''run_id'', ''target_head_sha'', ''run_status'']\<rparr>,
  \<lparr>existing_state_or_error = ''IEEE_754_PRECISION_ORACLE / TestRunnerCrash'',
    current_owner = ''Test Runner / Oracle Evaluator'',
    current_meaning = ''Test failure caused by overly strict oracle or runner crash'',
    current_auto_behavior = ''Task blocked as failure'',
    canonical_nx012_class = TEST_INFRA_FAILURE,
    mapped_evidence = [''test_runner_exit_code'', ''harness_crash_trace'', ''test_id'']\<rparr>,
  \<lparr>existing_state_or_error = ''unacked_launch_message / dropped_rpc'',
    current_owner = ''ProjectLaunchQueueAdapter'',
    current_meaning = ''Dispatch status unconfirmed by consumer'',
    current_auto_behavior = ''Pending outbox without confirmation'',
    canonical_nx012_class = TRANSPORT_UNCERTAIN,
    mapped_evidence = [''correlation_id'', ''command_id'', ''last_known_delivery_state'']\<rparr>,
  \<lparr>existing_state_or_error = ''dotnet_not_found / python_module_missing'',
    current_owner = ''Execution Environment / Tool Runner'',
    current_meaning = ''Required toolchain or interpreter missing in execution environment'',
    current_auto_behavior = ''Tool execution error'',
    canonical_nx012_class = ENVIRONMENT_REPAIRABLE,
    mapped_evidence = [''missing_binary_or_package'', ''resolved_path'', ''exit_code'']\<rparr>,
  \<lparr>existing_state_or_error = ''expected_repo_head_before mismatch / tree diverged'',
    current_owner = ''ProjectExecution / Task Dispatch'',
    current_meaning = ''Local repository HEAD/tree diverged from expected task binding baseline'',
    current_auto_behavior = ''Stale result / binding rejected'',
    canonical_nx012_class = SOURCE_DIVERGENCE,
    mapped_evidence = [''expected_head'', ''observed_head'', ''expected_tree'', ''observed_tree'']\<rparr>,
  \<lparr>existing_state_or_error = ''unauthorized_file_touch / milestone_scope_breach'',
    current_owner = ''Project Scope Enforcement / Orchestrator'',
    current_meaning = ''Attempted modification of protected files outside current task'',
    current_auto_behavior = ''Policy rejection'',
    canonical_nx012_class = POLICY_VIOLATION,
    mapped_evidence = [''policy_rule_id'', ''attempted_action'', ''resource_target'']\<rparr>,
  \<lparr>existing_state_or_error = ''path_traversal_detected / store_root_symlink'',
    current_owner = ''ProjectMemoryStoreV2 / Storage Confinement'',
    current_meaning = ''Storage path attempts to escape canonical root via traversal or symlink'',
    current_auto_behavior = ''ProjectMemoryV2Error fail closed'',
    canonical_nx012_class = SECURITY_VIOLATION,
    mapped_evidence = [''violation_type'', ''offending_path_or_token'', ''canonical_root'']\<rparr>,
  \<lparr>existing_state_or_error = ''sqlite_integrity_check_failed / corrupted_state_json'',
    current_owner = ''ProjectMemoryStore / SQLite DB'',
    current_meaning = ''Persistent state storage corrupted or unreadable'',
    current_auto_behavior = ''Fail closed exception'',
    canonical_nx012_class = DATA_CORRUPTION,
    mapped_evidence = [''corrupted_file_path'', ''integrity_check_output'', ''expected_format'']\<rparr>,
  \<lparr>existing_state_or_error = ''decision_required / manual_gate_signoff'',
    current_owner = ''ProjectMemory (attention items) / Human Review'',
    current_meaning = ''Execution paused waiting for operator decision or gate signoff'',
    current_auto_behavior = ''Attention item open, requires user intervention'',
    canonical_nx012_class = EXTERNAL_ACTION_REQUIRED,
    mapped_evidence = [''checkpoint_id'', ''decision_or_question_id'', ''reason'']\<rparr>,
  \<lparr>existing_state_or_error = ''unknown_failure_code / conflicting_diagnostics'',
    current_owner = ''Failure Classifier / Observer'',
    current_meaning = ''Failure observation does not match any deterministic rule or has contradictory evidence'',
    current_auto_behavior = ''Fail closed review required'',
    canonical_nx012_class = AMBIGUOUS_FAILURE,
    mapped_evidence = [''conflicting_rule_ids_or_missing_fields'', ''raw_observation'']\<rparr>,
  \<lparr>existing_state_or_error = ''PHASE_SCOPE_VIOLATION in G1'',
    current_owner = ''Milestone Scope Gate / Audit Incident'',
    current_meaning = ''Changes touched code of later milestone'',
    current_auto_behavior = ''Scope rejection requiring bounded repair'',
    canonical_nx012_class = PHASE_SCOPE_VIOLATION,
    mapped_evidence = [''out_of_scope_files'', ''allowed_task_scope'', ''current_milestone_id'']\<rparr>,
  \<lparr>existing_state_or_error = ''EARLY_IMPLEMENTATION in G1'',
    current_owner = ''Milestone Scope Gate / Audit Incident'',
    current_meaning = ''Implemented ahead of plan before prerequisite commits'',
    current_auto_behavior = ''Scope rejection requiring isolation'',
    canonical_nx012_class = EARLY_IMPLEMENTATION,
    mapped_evidence = [''uncommitted_prerequisite_id'', ''premature_symbols_or_files'']\<rparr>]"

section \<open>Lemmas\<close>

lemma TRANSITION_MATRIX_class [simp]: "failure_class (TRANSITION_MATRIX c) = c"
  by (cases c) (simp_all add: spec_defs)

lemma failure_classes_all: "set failure_classes = UNIV"
  by (auto simp: failure_classes_def intro: FailureClass.exhaust)

lemma failure_class_value_inj: "failure_class_value c = failure_class_value d \<Longrightarrow> c = d"
  by (cases c; cases d) simp_all

lemma retry_or_repair_classes:
  "\<not> retry_allowed (TRANSITION_MATRIX c) \<and> \<not> repair_allowed (TRANSITION_MATRIX c) \<longleftrightarrow>
     c \<in> {CI_WAITING, TRANSPORT_UNCERTAIN, SOURCE_DIVERGENCE, POLICY_VIOLATION,
          SECURITY_VIOLATION, DATA_CORRUPTION, EXTERNAL_ACTION_REQUIRED, AMBIGUOUS_FAILURE}"
  by (cases c) (simp_all add: spec_defs)

lemmas validate_simps = validate_transition_def Let_def spec_defs

section \<open>Properties\<close>

text \<open>The matrix is coherent. A class that needs an operator, and every terminal class,
  permits neither automatic retry nor repair; repair is only permitted where retry is; and
  every class but \<open>EXTERNAL_ACTION_REQUIRED\<close> escalates to that class, which escalates no
  further.\<close>

lemma transition_matrix_coherent:
  "(operator_required (TRANSITION_MATRIX c) \<longrightarrow>
      \<not> retry_allowed (TRANSITION_MATRIX c) \<and> \<not> repair_allowed (TRANSITION_MATRIX c))
   \<and> (terminal (TRANSITION_MATRIX c) \<longrightarrow> operator_required (TRANSITION_MATRIX c))
   \<and> (repair_allowed (TRANSITION_MATRIX c) \<longrightarrow> retry_allowed (TRANSITION_MATRIX c))
   \<and> escalation_target (TRANSITION_MATRIX c) =
       (if c = EXTERNAL_ACTION_REQUIRED then None else Some EXTERNAL_ACTION_REQUIRED)"
  by (cases c) (simp_all add: spec_defs)

text \<open>The validator accepts a plain \<open>RETRY\<close>, in any letter case and under any context,
  exactly for the classes that are neither terminal nor a policy violation, and for an
  unconfirmed delivery only once the context says it was reconciled.\<close>

lemma validate_retry_iff:
  assumes "upper a = ''RETRY''"
  shows "fst (validate_transition c a ctx) \<longleftrightarrow>
    \<not> terminal (TRANSITION_MATRIX c) \<and> c \<noteq> POLICY_VIOLATION
    \<and> (c = TRANSPORT_UNCERTAIN \<longrightarrow> truthy (py_get_default ctx ''reconciled'' (PBool False)))"
  using assms by (cases c) (simp_all add: validate_simps)

text \<open>The validator's terminal-state check knows the names \<open>RETRY\<close> and \<open>AUTO_RETRY\<close> only:
  asked for \<open>AUTO_RETRY_BACKOFF\<close>, the retry action of the matrix itself, it calls the
  transition legal for three terminal classes.\<close>

lemma validate_backoff_gap:
  "map (\<lambda>c. (terminal (TRANSITION_MATRIX c), fst (validate_transition c ''AUTO_RETRY_BACKOFF'' ctx)))
     [SOURCE_DIVERGENCE, DATA_CORRUPTION, AMBIGUOUS_FAILURE, SECURITY_VIOLATION]
   = [(True, True), (True, True), (True, True), (True, False)]"
proof -
  have "upper ''AUTO_RETRY_BACKOFF'' = ''AUTO_RETRY_BACKOFF''" by code_simp
  then show ?thesis by (simp add: validate_simps)
qed

text \<open>The inventory of existing error states covers every failure class and asks, for each
  entry, for exactly the evidence the matrix requires of its class.\<close>

lemma inventory_matches_matrix:
  "map (\<lambda>m. mapped_evidence m) EXISTING_STATE_MAPPINGS
     = map (\<lambda>m. required_evidence (TRANSITION_MATRIX (canonical_nx012_class m))) EXISTING_STATE_MAPPINGS
   \<and> set (map canonical_nx012_class EXISTING_STATE_MAPPINGS) = UNIV"
proof
  show "map (\<lambda>m. mapped_evidence m) EXISTING_STATE_MAPPINGS
     = map (\<lambda>m. required_evidence (TRANSITION_MATRIX (canonical_nx012_class m))) EXISTING_STATE_MAPPINGS"
    by (simp add: EXISTING_STATE_MAPPINGS_def spec_defs)
  show "set (map canonical_nx012_class EXISTING_STATE_MAPPINGS) = UNIV"
    unfolding failure_classes_all[symmetric]
    by (auto simp: EXISTING_STATE_MAPPINGS_def failure_classes_def)
qed

end
