(* ===== verification/Failure_Classifier.thy ===== *)
theory Failure_Classifier
  imports Failure_Taxonomy "HOL-Library.Product_Lexorder"
begin

text \<open>
  The deterministic classifier of \<^verbatim>\<open>src/bdb_vnext/failure_classifier.py\<close>. Evidence is a
  JSON dictionary; a rule's predicate is evaluated under \<open>try ... except\<close>, so its value is
  \<open>None\<close> when a test raises. \<open>classify\<close> is total on dictionaries and raises on anything
  else, because the digest reads \<open>evidence.items()\<close> before the malformed-evidence check.
\<close>

section \<open>Evidence digest\<close>

definition stable_entries :: "pydict \<Rightarrow> pydict" where
  "stable_entries e = filter (\<lambda>(k, v). \<not> starts_with ''_'' k) e"

definition compute_evidence_digest :: "runtime \<Rightarrow> pydict \<Rightarrow> string" where
  "compute_evidence_digest rt e =
     ''sha256:'' @ hexdigest (sha256 rt (json_dumps rt compact_json (PDict (stable_entries e))))"

section \<open>Rules and results\<close>

record classifier_rule =
  rule_id :: string
  priority :: int
  output_class :: FailureClass
  required_fields :: "string list"
  predicate :: "pydict \<Rightarrow> bool option"
  source_confidence :: string
  rule_description :: string

record classification_result =
  result_class :: FailureClass
  result_kind :: SemanticKind
  result_rule_id :: string
  result_action :: AutoAction
  evidence_digest :: string
  matched_rules :: "string list"
  details :: pydict

text \<open>The tests the predicates are built from: \<open>e.get(k) in {...}\<close>, \<open>e.get(k) == c\<close>,
  \<open>bool(e.get(k))\<close> and \<open>t in str(e.get(k, "")).lower()\<close>.\<close>

definition get_in :: "pydict \<Rightarrow> string \<Rightarrow> string list \<Rightarrow> bool option" where
  "get_in e k cs = py_in_set (py_get e k) (map PStr cs)"

definition get_eq :: "pydict \<Rightarrow> string \<Rightarrow> pyval \<Rightarrow> bool option" where
  "get_eq e k c = Some (py_eq (py_get e k) c)"

definition get_true :: "pydict \<Rightarrow> string \<Rightarrow> bool option" where
  "get_true e k = Some (truthy (py_get e k))"

definition text_has :: "runtime \<Rightarrow> pydict \<Rightarrow> string \<Rightarrow> string \<Rightarrow> bool option" where
  "text_has rt e k t = Some (contains t (lower (py_str rt (py_get_default e k (PStr [])))))"

lemmas test_defs = get_in_def get_eq_def get_true_def text_has_def

section \<open>Rule definitions\<close>

definition rule_SEC_001 :: "runtime \<Rightarrow> classifier_rule" where
  "rule_SEC_001 rt = \<lparr>rule_id = ''RULE_SEC_001_PATH_TRAVERSAL'', priority = 100,
     output_class = SECURITY_VIOLATION,
     required_fields = [''violation_type'', ''offending_path_or_token''],
     predicate = (\<lambda>e.
       py_or (get_in e ''violation_type'' [''path_traversal'', ''symlink_escape'', ''security_violation''])
      (py_or (Some (contains ''..'' (py_str rt (py_get_default e ''offending_path_or_token'' (PStr [])))))
      (py_or (get_eq e ''code'' (PStr ''path_traversal_detected''))
             (get_eq e ''code'' (PStr ''store_root_symlink''))))),
     source_confidence = ''STRUCTURED_DETERMINISTIC'',
     rule_description = ''Path traversal or symlink escape outside canonical runtime root''\<rparr>"

definition rule_CORRUPT_001 :: "runtime \<Rightarrow> classifier_rule" where
  "rule_CORRUPT_001 rt = \<lparr>rule_id = ''RULE_CORRUPT_001_STORAGE_INTEGRITY'', priority = 200,
     output_class = DATA_CORRUPTION,
     required_fields = [''integrity_check_output''],
     predicate = (\<lambda>e.
       py_or (map_option Not (py_in_set (py_get e ''integrity_check_output'')
                [PNone, PStr ''ok'', PStr ''PASS'']))
      (py_or (get_in e ''code'' [''database_corrupted'', ''sqlite_integrity_failed'', ''malformed_state_json''])
      (py_or (text_has rt e ''error_message'' ''database disk image is malformed'')
             (text_has rt e ''error_message'' ''file is not a database'')))),
     source_confidence = ''STRUCTURED_DETERMINISTIC'',
     rule_description = ''Database integrity check failure or unreadable/corrupted persistent storage''\<rparr>"

definition rule_SRC_001 :: "classifier_rule" where
  "rule_SRC_001 = \<lparr>rule_id = ''RULE_SRC_001_HEAD_MISMATCH'', priority = 300,
     output_class = SOURCE_DIVERGENCE,
     required_fields = [''expected_head'', ''observed_head''],
     predicate = (\<lambda>e.
       py_or (py_and (get_true e ''expected_head'')
             (py_and (get_true e ''observed_head'')
                     (Some (\<not> py_eq (py_get e ''expected_head'') (py_get e ''observed_head'')))))
             (get_in e ''code'' [''source_diverged'', ''head_mismatch'', ''tree_mismatch''])),
     source_confidence = ''STRUCTURED_DETERMINISTIC'',
     rule_description = ''Local repository HEAD or tree does not match expected baseline''\<rparr>"

definition rule_POL_001 :: "classifier_rule" where
  "rule_POL_001 = \<lparr>rule_id = ''RULE_POL_001_SCOPE_BREACH'', priority = 400,
     output_class = POLICY_VIOLATION,
     required_fields = [''policy_rule_id''],
     predicate = (\<lambda>e.
       py_and (get_true e ''policy_rule_id'')
      (py_or (get_eq e ''violation_class'' (PStr ''POLICY_VIOLATION''))
             (get_in e ''code'' [''unauthorized_file_touch'', ''milestone_scope_breach'', ''policy_forbidden'']))),
     source_confidence = ''STRUCTURED_DETERMINISTIC'',
     rule_description = ''Action violates active project execution policy or touches forbidden resources''\<rparr>"

definition rule_CI_001 :: "runtime \<Rightarrow> classifier_rule" where
  "rule_CI_001 rt = \<lparr>rule_id = ''RULE_CI_001_IN_PROGRESS'', priority = 500,
     output_class = CI_WAITING,
     required_fields = [''ci_provider'', ''run_status''],
     predicate = (\<lambda>e.
       py_and (get_true e ''ci_provider'')
      (py_and (Some (lower (py_str rt (py_get e ''run_status''))
                 \<in> {''in_progress'', ''pending'', ''queued'', ''waiting''}))
              (Some (lower (py_str rt (py_get_default e ''conclusion'' (PStr [])))
                 \<notin> {''failure'', ''timed_out'', ''action_required''})))),
     source_confidence = ''STRUCTURED_DETERMINISTIC'',
     rule_description = ''External CI workflow run currently in progress or queued for target commit''\<rparr>"

definition rule_INFRA_001 :: "runtime \<Rightarrow> classifier_rule" where
  "rule_INFRA_001 rt = \<lparr>rule_id = ''RULE_INFRA_001_TIMEOUT_AND_LOCK'', priority = 600,
     output_class = TRANSIENT_INFRASTRUCTURE,
     required_fields = [],
     predicate = (\<lambda>e.
       py_or (get_in e ''error_code'' [''ConnectTimeout'', ''ReadTimeout'', ''EBUSY'', ''ETIMEDOUT'', ''GITHUB_CONNECTOR_TIMEOUT''])
      (py_or (get_in e ''code'' [''store_busy'', ''queue_locked'', ''lock_contention'', ''lock_busy''])
      (py_or (text_has rt e ''error_message'' ''database is locked'')
      (py_or (text_has rt e ''error_message'' ''database is busy'')
             (text_has rt e ''error_message'' ''timed out''))))),
     source_confidence = ''STRUCTURED_DETERMINISTIC'',
     rule_description = ''Transient network timeout, connector failure, or temporary lock contention''\<rparr>"

definition rule_TRANS_001 :: "classifier_rule" where
  "rule_TRANS_001 = \<lparr>rule_id = ''RULE_TRANS_001_UNACKED_DISPATCH'', priority = 700,
     output_class = TRANSPORT_UNCERTAIN,
     required_fields = [],
     predicate = (\<lambda>e.
       py_or (get_in e ''last_known_delivery_state'' [''DISPATCHED_NO_ACK'', ''UNKNOWN_DELIVERY'', ''UNCONFIRMED''])
             (get_in e ''code'' [''transport_uncertain'', ''unacked_launch_message'', ''dropped_rpc''])),
     source_confidence = ''STRUCTURED_DETERMINISTIC'',
     rule_description = ''Command or message dispatched but delivery status unacknowledged''\<rparr>"

definition rule_ENV_001 :: "runtime \<Rightarrow> classifier_rule" where
  "rule_ENV_001 rt = \<lparr>rule_id = ''RULE_ENV_001_MISSING_TOOLCHAIN'', priority = 800,
     output_class = ENVIRONMENT_REPAIRABLE,
     required_fields = [],
     predicate = (\<lambda>e.
       py_or (get_true e ''missing_binary_or_package'')
      (py_or (get_in e ''code'' [''dotnet_not_found'', ''python_module_missing'', ''tool_not_in_path''])
      (py_or (text_has rt e ''error_message'' ''not recognized as an internal or external command'')
      (py_and (text_has rt e ''error_message'' ''no such file or directory'')
              (get_eq e ''exit_code'' (PInt 127)))))),
     source_confidence = ''STRUCTURED_DETERMINISTIC'',
     rule_description = ''Required tool binary, SDK, or package missing from execution environment''\<rparr>"

definition rule_TEST_001 :: "classifier_rule" where
  "rule_TEST_001 = \<lparr>rule_id = ''RULE_TEST_001_HARNESS_OR_ORACLE'', priority = 900,
     output_class = TEST_INFRA_FAILURE,
     required_fields = [],
     predicate = (\<lambda>e.
       py_or (py_in_set (py_get e ''test_runner_exit_code'') [PInt 139, PInt 134, PInt (-11), PInt 255])
      (py_or (get_in e ''code'' [''IEEE_754_PRECISION_ORACLE'', ''test_runner_crash'', ''oracle_precision_defect''])
             (Some (py_get e ''oracle_defect'' = PBool True)))),
     source_confidence = ''STRUCTURED_DETERMINISTIC'',
     rule_description = ''Test runner crash, harness abort, or faulty/over-strict test oracle''\<rparr>"

definition rule_SCOPE_001 :: "classifier_rule" where
  "rule_SCOPE_001 = \<lparr>rule_id = ''RULE_SCOPE_001_PHASE_VIOLATION'', priority = 1000,
     output_class = PHASE_SCOPE_VIOLATION,
     required_fields = [],
     predicate = (\<lambda>e.
       py_or (get_true e ''out_of_scope_files'')
      (py_or (get_eq e ''failure_code'' (PStr ''PHASE_SCOPE_VIOLATION''))
             (get_eq e ''code'' (PStr ''PHASE_SCOPE_VIOLATION'')))),
     source_confidence = ''STRUCTURED_DETERMINISTIC'',
     rule_description = ''Changes touched files or subsystems belonging to a later milestone/phase''\<rparr>"

definition rule_SCOPE_002 :: "classifier_rule" where
  "rule_SCOPE_002 = \<lparr>rule_id = ''RULE_SCOPE_002_EARLY_IMPLEMENTATION'', priority = 1100,
     output_class = EARLY_IMPLEMENTATION,
     required_fields = [],
     predicate = (\<lambda>e.
       py_or (get_true e ''uncommitted_prerequisite_id'')
      (py_or (get_eq e ''failure_code'' (PStr ''EARLY_IMPLEMENTATION''))
             (get_eq e ''code'' (PStr ''EARLY_IMPLEMENTATION'')))),
     source_confidence = ''STRUCTURED_DETERMINISTIC'',
     rule_description = ''Premature implementation of future feature ahead of committed prerequisites''\<rparr>"

definition rule_PROJ_001 :: "classifier_rule" where
  "rule_PROJ_001 = \<lparr>rule_id = ''RULE_PROJ_001_CODE_OR_TEST_FAILURE'', priority = 1200,
     output_class = PROJECT_REPAIRABLE,
     required_fields = [],
     predicate = (\<lambda>e.
       py_or (get_in e ''failure_code'' [''COMPILATION_ERROR'', ''SYNTAX_ERROR'', ''TEST_FAILURE'',
                ''ASSERTION_FAILED'', ''MISSING_ARTIFACT'', ''VALIDATION_FAILED''])
      (py_or (get_in e ''code'' [''compilation_failed'', ''syntax_error'', ''test_assertion_failed''])
      (py_or (py_and (get_eq e ''execution_status'' (PStr ''FAIL''))
                     (Some (\<not> truthy (py_get e ''code''))))
             (get_true e ''missing_project_artifact'')))),
     source_confidence = ''STRUCTURED_DETERMINISTIC'',
     rule_description = ''Code defect, compilation error, failing test assertion, or missing task artifact''\<rparr>"

definition rule_EXT_001 :: "classifier_rule" where
  "rule_EXT_001 = \<lparr>rule_id = ''RULE_EXT_001_HUMAN_CHECKPOINT'', priority = 1300,
     output_class = EXTERNAL_ACTION_REQUIRED,
     required_fields = [],
     predicate = (\<lambda>e.
       py_or (get_true e ''checkpoint_id'')
      (py_or (get_true e ''decision_or_question_id'')
      (py_or (get_in e ''code'' [''decision_required'', ''operator_checkpoint'', ''manual_gate_signoff''])
             (Some (py_get e ''requires_human'' = PBool True))))),
     source_confidence = ''STRUCTURED_DETERMINISTIC'',
     rule_description = ''Human/operator decision required, manual gate signoff, or external credential''\<rparr>"

lemmas rule_defs =
  rule_SEC_001_def rule_CORRUPT_001_def rule_SRC_001_def rule_POL_001_def rule_CI_001_def
  rule_INFRA_001_def rule_TRANS_001_def rule_ENV_001_def rule_TEST_001_def
  rule_SCOPE_001_def rule_SCOPE_002_def rule_PROJ_001_def rule_EXT_001_def

definition RULES_LIST :: "runtime \<Rightarrow> classifier_rule list" where
  "RULES_LIST rt = [rule_SEC_001 rt, rule_CORRUPT_001 rt, rule_SRC_001, rule_POL_001,
     rule_CI_001 rt, rule_INFRA_001 rt, rule_TRANS_001, rule_ENV_001 rt, rule_TEST_001,
     rule_SCOPE_001, rule_SCOPE_002, rule_PROJ_001, rule_EXT_001]"

definition rule_key :: "classifier_rule \<Rightarrow> int \<times> string" where
  "rule_key r = (priority r, rule_id r)"

definition RULE_REGISTRY :: "runtime \<Rightarrow> classifier_rule list" where
  "RULE_REGISTRY rt = sort_key rule_key (RULES_LIST rt)"

section \<open>The engine\<close>

text \<open>\<open>DeterministicFailureClassifier.__init__\<close>: the rules, or \<open>ValueError\<close> on a duplicate id.\<close>

definition make_classifier :: "classifier_rule list \<Rightarrow> py_error + classifier_rule list" where
  "make_classifier rules =
     (if distinct (map rule_id rules) then Inr rules
      else Inl (ValueError ''Duplicate rule IDs detected in classifier registry''))"

text \<open>One iteration of the matching loop: required fields present and predicate true; an
  exception in the predicate skips the rule.\<close>

definition rule_matches :: "pydict \<Rightarrow> classifier_rule \<Rightarrow> bool" where
  "rule_matches e r \<longleftrightarrow> list_all (py_has e) (required_fields r) \<and> predicate r e = Some True"

definition ambiguous_result :: "string \<Rightarrow> string \<Rightarrow> string list \<Rightarrow> pydict \<Rightarrow> classification_result" where
  "ambiguous_result rid digest matched det =
     (let spec = TRANSITION_MATRIX AMBIGUOUS_FAILURE in
      \<lparr>result_class = AMBIGUOUS_FAILURE, result_kind = semantic_kind spec,
       result_rule_id = rid, result_action = auto_action spec, evidence_digest = digest,
       matched_rules = matched, details = det\<rparr>)"

text \<open>
  \<open>classify\<close>. A value that is not a dictionary has no \<open>items\<close> attribute, so computing the
  digest raises before the check. The classes listed under \<open>conflicting_classes\<close> come from
  a Python set; they are given in order of first occurrence.
\<close>

definition classify :: "runtime \<Rightarrow> classifier_rule list \<Rightarrow> pyval \<Rightarrow> py_error + classification_result" where
  "classify rt rules evidence =
     (case evidence of
        PDict e \<Rightarrow>
          (let digest = compute_evidence_digest rt e in
           if e = [] then
             Inr (ambiguous_result ''RULE_FALLBACK_MALFORMED_EVIDENCE'' digest []
                    [(''reason'', PStr ''malformed_or_empty_evidence'')])
           else
             (let matched = filter (rule_matches e) rules in
              case sort_key rule_key matched of
                [] \<Rightarrow> Inr (ambiguous_result ''RULE_FALLBACK_NO_MATCH'' digest []
                        [(''reason'', PStr ''no_deterministic_rule_matched'')])
              | best # rest \<Rightarrow>
                  (let tier = filter (\<lambda>r. priority r = priority best) (best # rest);
                       classes = remdups (map output_class tier)
                   in if length classes > 1 then
                        Inr (ambiguous_result ''RULE_FALLBACK_CONFLICT'' digest (map rule_id matched)
                          [(''reason'', PStr ''unresolved_rule_conflict''),
                           (''conflicting_rules'', PList (map (PStr \<circ> rule_id) tier)),
                           (''conflicting_classes'', PList (map (PStr \<circ> failure_class_value) classes))])
                      else
                        (let winner = hd tier; spec = TRANSITION_MATRIX (output_class winner) in
                         Inr \<lparr>result_class = output_class winner, result_kind = semantic_kind spec,
                              result_rule_id = rule_id winner, result_action = auto_action spec,
                              evidence_digest = digest, matched_rules = map rule_id matched,
                              details = [(''description'', PStr (rule_description winner))]\<rparr>))))
      | _ \<Rightarrow> Inl AttributeError)"


section \<open>Lemmas\<close>

subsection \<open>The registry is the list, in strictly increasing priority\<close>

lemma RULES_LIST_priorities:
  "map priority (RULES_LIST rt) = [100, 200, 300, 400, 500, 600, 700, 800, 900, 1000, 1100, 1200, 1300]"
  by (simp add: RULES_LIST_def rule_defs)

lemma sorted_wrt_priority: "sorted_wrt (\<lambda>r s. priority r < priority s) (RULES_LIST rt)"
proof -
  have "sorted_wrt (<) (map priority (RULES_LIST rt))"
    unfolding RULES_LIST_priorities by simp
  then show ?thesis by (simp add: sorted_wrt_map)
qed

lemma sort_key_rule_id:
  assumes "sorted_wrt (\<lambda>r s. priority r < priority s) rs"
  shows "sort_key rule_key rs = rs"
proof (rule sort_key_id_if_sorted)
  have "sorted_wrt (\<lambda>r s. rule_key r \<le> rule_key s) rs"
    by (rule sorted_wrt_mono_rel[OF _ assms]) (simp add: rule_key_def less_eq_prod_def)
  then show "sorted (map rule_key rs)" by (simp add: sorted_wrt_map)
qed

lemma RULE_REGISTRY_eq: "RULE_REGISTRY rt = RULES_LIST rt"
  by (simp add: RULE_REGISTRY_def sort_key_rule_id sorted_wrt_priority)

lemma sort_key_matches:
  "sort_key rule_key (filter (rule_matches e) (RULES_LIST rt)) = filter (rule_matches e) (RULES_LIST rt)"
  by (intro sort_key_rule_id sorted_wrt_filter sorted_wrt_priority)

lemma tier_singleton:
  assumes "filter P (RULES_LIST rt) = r # rs"
  shows "filter (\<lambda>x. priority x = priority r) (r # rs) = [r]"
proof -
  have "sorted_wrt (\<lambda>r s. priority r < priority s) (r # rs)"
    unfolding assms[symmetric] by (intro sorted_wrt_filter sorted_wrt_priority)
  then have "\<forall>x\<in>set rs. priority x \<noteq> priority r" by auto
  then show ?thesis by (simp add: filter_empty_conv)
qed

lemma find_filter_Cons: "filter P xs = y # ys \<Longrightarrow> find P xs = Some y"
  by (induction xs) (auto split: if_splits)

lemma find_cong_set: "(\<And>x. x \<in> set xs \<Longrightarrow> P x = Q x) \<Longrightarrow> find P xs = find Q xs"
  by (induction xs) auto

lemma find_filter_Nil: "filter P xs = [] \<Longrightarrow> find P xs = None"
  by (simp add: filter_empty_conv find_None_iff)

subsection \<open>Reference semantics: the first matching rule decides\<close>

definition winner_result :: "string \<Rightarrow> string list \<Rightarrow> classifier_rule \<Rightarrow> classification_result" where
  "winner_result digest matched r =
     (let spec = TRANSITION_MATRIX (output_class r) in
      \<lparr>result_class = output_class r, result_kind = semantic_kind spec,
       result_rule_id = rule_id r, result_action = auto_action spec,
       evidence_digest = digest, matched_rules = matched,
       details = [(''description'', PStr (rule_description r))]\<rparr>)"

lemma classify_cases:
  assumes "e \<noteq> []"
  shows "classify rt (RULE_REGISTRY rt) (PDict e) =
    Inr (case find (rule_matches e) (RULES_LIST rt) of
           None \<Rightarrow> ambiguous_result ''RULE_FALLBACK_NO_MATCH'' (compute_evidence_digest rt e) []
                     [(''reason'', PStr ''no_deterministic_rule_matched'')]
         | Some r \<Rightarrow> winner_result (compute_evidence_digest rt e)
                      (map rule_id (filter (rule_matches e) (RULES_LIST rt))) r)"
proof (cases "filter (rule_matches e) (RULES_LIST rt)")
  case Nil
  then show ?thesis using assms
    by (simp add: classify_def Let_def RULE_REGISTRY_eq find_filter_Nil)
next
  case (Cons r rs)
  have m: "sort_key rule_key (filter (rule_matches e) (RULES_LIST rt)) = r # rs"
    using sort_key_matches[of e rt] Cons by simp
  show ?thesis using assms find_filter_Cons[OF Cons] tier_singleton[OF Cons]
    by (simp add: classify_def Let_def RULE_REGISTRY_eq m winner_result_def del: filter.simps)
qed

lemma classify_eqI:
  assumes "e \<noteq> []" "e' \<noteq> []" "compute_evidence_digest rt e = compute_evidence_digest rt e'"
    and "\<And>r. r \<in> set (RULES_LIST rt) \<Longrightarrow> rule_matches e r = rule_matches e' r"
  shows "classify rt (RULE_REGISTRY rt) (PDict e) = classify rt (RULE_REGISTRY rt) (PDict e')"
proof -
  have "find (rule_matches e) (RULES_LIST rt) = find (rule_matches e') (RULES_LIST rt)"
    using assms(4) by (intro find_cong_set)
  moreover have "filter (rule_matches e) (RULES_LIST rt) = filter (rule_matches e') (RULES_LIST rt)"
    using assms(4) by (intro filter_cong) auto
  ultimately show ?thesis
    by (simp only: classify_cases[OF assms(1)] classify_cases[OF assms(2)] assms(3))
qed

subsection \<open>What a predicate can see\<close>

text \<open>Rules read the evidence through lookups only.\<close>

lemma rules_read_lookups:
  assumes "r \<in> set (RULES_LIST rt)" and "py_get e = py_get e'"
    and "py_get_default e = py_get_default e'"
  shows "predicate r e = predicate r e'"
  using assms unfolding RULES_LIST_def
  by (auto simp: rule_defs test_defs)

lemma lookups_of_map:
  assumes "map_of e = map_of e'"
  shows "py_get e = py_get e'" "py_get_default e = py_get_default e'" "py_has e = py_has e'"
  using assms by (auto simp: fun_eq_iff py_get_def py_get_default_def py_has_def)

lemma rule_matches_map:
  assumes "map_of e = map_of e'" and "r \<in> set (RULES_LIST rt)"
  shows "rule_matches e r = rule_matches e' r"
  using rules_read_lookups[OF assms(2) lookups_of_map(1,2)[OF assms(1)]]
  by (simp add: rule_matches_def lookups_of_map(3)[OF assms(1)])

lemma stable_entries_mset: "mset e = mset e' \<Longrightarrow> mset (stable_entries e) = mset (stable_entries e')"
  by (simp add: stable_entries_def)

lemma digest_perm:
  assumes "mset e = mset e'" and "distinct (map fst e)"
  shows "compute_evidence_digest rt e = compute_evidence_digest rt e'"
proof -
  have "distinct (map fst (stable_entries e))"
    unfolding stable_entries_def by (rule distinct_map_filter[OF assms(2)])
  then have "json_dumps rt compact_json (PDict (stable_entries e))
           = json_dumps rt compact_json (PDict (stable_entries e'))"
    by (intro json_dumps_dict_perm stable_entries_mset assms(1)) (auto simp: compact_json_def)
  then show ?thesis by (simp only: compute_evidence_digest_def)
qed


text \<open>Rules never mention a key that starts with an underscore.\<close>

lemma lookup_skip:
  assumes "c \<noteq> CHR ''_''"
  shows "py_get ((CHR ''_'' # w, v) # e) (c # cs) = py_get e (c # cs)"
    "py_get_default ((CHR ''_'' # w, v) # e) (c # cs) d = py_get_default e (c # cs) d"
    "py_has ((CHR ''_'' # w, v) # e) (c # cs) = py_has e (c # cs)"
  using assms by (auto simp: py_get_def py_get_default_def py_has_def)

lemma rules_skip_ephemeral:
  "list_all (\<lambda>r. rule_matches ((CHR ''_'' # w, v) # e) r = rule_matches e r) (RULES_LIST rt)"
  by (simp add: RULES_LIST_def rule_defs test_defs rule_matches_def lookup_skip)

lemma rule_matches_ephemeral:
  assumes "starts_with ''_'' u" and "r \<in> set (RULES_LIST rt)"
  shows "rule_matches ((u, v) # e) r = rule_matches e r"
proof -
  obtain w where "u = CHR ''_'' # w"
    using assms(1) by (cases u) (auto simp: starts_with_def)
  then show ?thesis
    using rules_skip_ephemeral[of w v e rt] assms(2) by (simp add: list_all_iff)
qed

section \<open>Properties\<close>

text \<open>With the built-in registry, a non-empty evidence dictionary is classified by the
  first rule, in priority order, whose required fields are present and whose predicate holds
  without raising; with no such rule the result is \<open>AMBIGUOUS_FAILURE\<close>. The conflict branch
  is never taken.\<close>

lemma classify_first_match:
  assumes "e \<noteq> []"
  shows "\<exists>r. classify rt (RULE_REGISTRY rt) (PDict e) = Inr r
    \<and> result_rule_id r \<noteq> ''RULE_FALLBACK_CONFLICT''
    \<and> (case find (rule_matches e) (RULES_LIST rt) of
         None \<Rightarrow> result_class r = AMBIGUOUS_FAILURE \<and> result_rule_id r = ''RULE_FALLBACK_NO_MATCH''
       | Some rule \<Rightarrow> result_class r = output_class rule \<and> result_rule_id r = rule_id rule
           \<and> result_action r = auto_action (TRANSITION_MATRIX (output_class rule)))"
proof (cases "find (rule_matches e) (RULES_LIST rt)")
  case None
  then show ?thesis by (simp add: classify_cases[OF assms] ambiguous_result_def Let_def)
next
  case (Some rule)
  then have "rule \<in> set (RULES_LIST rt)" by (auto simp: find_Some_iff)
  then have "rule_id rule \<noteq> ''RULE_FALLBACK_CONFLICT''"
    by (auto simp: RULES_LIST_def rule_defs)
  with Some show ?thesis by (simp add: classify_cases[OF assms] winner_result_def Let_def)
qed

text \<open>The order in which the evidence lists its keys changes neither the classification
  nor the digest it is bound to.\<close>

lemma classify_key_order:
  assumes "mset e = mset e'" and "distinct (map fst e)"
  shows "classify rt (RULE_REGISTRY rt) (PDict e) = classify rt (RULE_REGISTRY rt) (PDict e')"
proof (cases "e = []")
  case True
  then show ?thesis using assms(1) by simp
next
  case False
  then have "e' \<noteq> []" using assms(1) by auto
  have d': "distinct (map fst e')"
    using assms by (metis mset_eq_imp_distinct_iff mset_map)
  have m: "map_of e = map_of e'"
    using assms d' by (intro map_of_eqI) (auto simp: map_of_eq_Some_iff dest: mset_eq_setD)
  show ?thesis
    by (rule classify_eqI[OF False \<open>e' \<noteq> []\<close> digest_perm[OF assms] rule_matches_map[OF m]])
qed

text \<open>A security violation that the evidence shows outranks every other signal in it: the
  result is \<open>SECURITY_VIOLATION\<close>, whatever else the evidence says.\<close>

lemma classify_security_first:
  assumes "rule_matches e (rule_SEC_001 rt)"
  shows "\<exists>r. classify rt (RULE_REGISTRY rt) (PDict e) = Inr r
    \<and> result_class r = SECURITY_VIOLATION \<and> result_action r = AUTO_FREEZE_FAIL_CLOSED"
proof -
  have "e \<noteq> []" using assms by (auto simp: rule_matches_def rule_SEC_001_def py_has_def)
  moreover have "find (rule_matches e) (RULES_LIST rt) = Some (rule_SEC_001 rt)"
    using assms by (simp add: RULES_LIST_def)
  ultimately show ?thesis
    by (simp add: classify_cases winner_result_def rule_SEC_001_def spec_defs Let_def)
qed

text \<open>A key that starts with an underscore is inert: adding it to non-empty evidence
  changes neither the classification nor the digest.\<close>

lemma classify_ephemeral_inert:
  assumes "starts_with ''_'' u" and "e \<noteq> []"
  shows "classify rt (RULE_REGISTRY rt) (PDict ((u, v) # e)) = classify rt (RULE_REGISTRY rt) (PDict e)"
proof -
  have d: "compute_evidence_digest rt ((u, v) # e) = compute_evidence_digest rt e"
    using assms(1) by (simp add: compute_evidence_digest_def stable_entries_def)
  show ?thesis
    by (rule classify_eqI[OF _ assms(2) d rule_matches_ephemeral[OF assms(1)]]) simp
qed

text \<open>Evidence that is not a dictionary raises \<open>AttributeError\<close>; it does not resolve to
  \<open>AMBIGUOUS_FAILURE\<close>, although the malformed-evidence check is written for that case.\<close>

lemma classify_non_mapping_raises:
  "classify rt rules PNone = Inl AttributeError
   \<and> classify rt rules (PList vs) = Inl AttributeError
   \<and> classify rt rules (PStr s) = Inl AttributeError"
  by (simp add: classify_def)

end
