(* ===== verification/Failure_Budget.thy ===== *)
theory Failure_Budget
  imports Failure_Classifier
begin

text \<open>
  Failure fingerprints and the persisted retry/repair budgets of
  \<^verbatim>\<open>src/bdb_vnext/failure_budget.py\<close>. The SQLite connection is the record
  \<open>budget_store\<close> (tables \<open>budget_ledgers\<close> and \<open>budget_overrides\<close>, with their primary keys and
  the unique index); a method that may raise returns the store together with an error or a
  value, because statements executed before the raise stay in the connection. The JSON column
  \<open>fingerprint_counts_json\<close> is the dictionary it denotes. Each method is one step, although the code
  reads the counters and writes them back without an enclosing transaction: what is shown holds
  for calls one after another, not for two processes that consume at the same time.
\<close>

section \<open>Fingerprints\<close>

definition FINGERPRINT_VERSION :: string where
  "FINGERPRINT_VERSION = ''1.0.0''"

definition VOLATILE_FIELDS :: "string list" where
  "VOLATILE_FIELDS = [''timestamp'', ''created_at'', ''updated_at'', ''time'', ''date'', ''random_id'',
     ''attempt_id'', ''execution_binding_id'', ''run_id'', ''launch_id'', ''retry_generation'',
     ''generation'', ''nonce'', ''uuid'', ''guid'', ''pid'', ''process_id'', ''thread_id'', ''session_id'']"

record failure_fingerprint =
  fingerprint_version :: string
  fingerprint_digest :: string
  fingerprint_class :: FailureClass
  fingerprint_rule_id :: string
  semantic_features :: pyval

definition semantic_key :: "string \<Rightarrow> bool" where
  "semantic_key k \<longleftrightarrow> \<not> starts_with ''_'' k \<and> lower k \<notin> set VOLATILE_FIELDS"

lemma size_dict_entry: "(k, v) \<in> set d \<Longrightarrow> size v < Suc (size_list (size_prod (\<lambda>x. 0) size) d)"
proof -
  assume "(k, v) \<in> set d"
  then have "size_prod (\<lambda>x. 0) size (k, v) \<le> size_list (size_prod (\<lambda>x. 0) size) d"
    by (intro size_list_estimation') auto
  then show ?thesis by simp
qed

function normalize_semantic_value :: "pyval \<Rightarrow> pyval" where
  "normalize_semantic_value (PDict d) =
     PDict (map (\<lambda>(k, v). (k, normalize_semantic_value v))
       (filter (\<lambda>(k, v). semantic_key k) (sort_key fst d)))"
| "normalize_semantic_value (PList xs) = PList (map normalize_semantic_value xs)"
| "normalize_semantic_value (PFloat x) = PFloat (py_round 6 x)"
| "normalize_semantic_value PNone = PNone"
| "normalize_semantic_value (PBool b) = PBool b"
| "normalize_semantic_value (PInt n) = PInt n"
| "normalize_semantic_value (PStr s) = PStr s"
  by pat_completeness auto
termination
  by (relation "measure size") (auto intro: size_dict_entry simp: less_Suc_eq_le size_list_estimation')

text \<open>The first argument of \<open>compute_failure_fingerprint\<close>: a classification, an explicit class,
  or something else (with its printed form).\<close>

datatype classification_arg =
    Classified classification_result
  | Explicit FailureClass
  | Other_Value string

definition fingerprint_payload :: "FailureClass \<Rightarrow> string \<Rightarrow> pyval \<Rightarrow> pyval" where
  "fingerprint_payload c rid features = PDict [(''version'', PStr FINGERPRINT_VERSION),
     (''class'', PStr (failure_class_value c)), (''rule_id'', PStr rid), (''semantic_data'', features)]"

definition compute_failure_fingerprint ::
    "runtime \<Rightarrow> classification_arg \<Rightarrow> pydict \<Rightarrow> string option \<Rightarrow> py_error + failure_fingerprint" where
  "compute_failure_fingerprint rt arg e rid =
     (let make = (\<lambda>c dflt.
            let r = (case rid of Some r \<Rightarrow> if r \<noteq> [] then r else dflt | None \<Rightarrow> dflt);
                features = normalize_semantic_value (PDict e)
            in Inr \<lparr>fingerprint_version = FINGERPRINT_VERSION,
                 fingerprint_digest = ''fp1:'' @ hexdigest (sha256 rt
                   (json_dumps rt compact_json (fingerprint_payload c r features))),
                 fingerprint_class = c, fingerprint_rule_id = r, semantic_features = features\<rparr>)
      in case arg of
           Classified cr \<Rightarrow> make (result_class cr) (result_rule_id cr)
         | Explicit c \<Rightarrow> make c ''RULE_EXPLICIT''
         | Other_Value t \<Rightarrow> Inl (ValueError (''Invalid classification: '' @ t)))"

section \<open>Policies and jitter\<close>

record transient_retry_policy =
  max_attempts :: int
  initial_schedule_seconds :: "rat list"
  jitter_factor :: rat
  backoff_multiplier :: rat

record repair_budget_policy =
  max_same_fingerprint_repairs :: int
  max_total_repair_attempts :: int
  max_total_repair_wall_time_seconds :: rat

record ci_polling_policy =
  poll_interval_seconds :: rat
  max_poll_wall_time_seconds :: rat
  ci_provider :: string

record failure_budget_policy =
  transient :: transient_retry_policy
  repair :: repair_budget_policy
  ci :: ci_polling_policy

definition DEFAULT_FAILURE_BUDGET_POLICY :: failure_budget_policy where
  "DEFAULT_FAILURE_BUDGET_POLICY = \<lparr>
     transient = \<lparr>max_attempts = 3, initial_schedule_seconds = [2, 10, 30],
       jitter_factor = 1/10, backoff_multiplier = 2\<rparr>,
     repair = \<lparr>max_same_fingerprint_repairs = 2, max_total_repair_attempts = 4,
       max_total_repair_wall_time_seconds = 1800\<rparr>,
     ci = \<lparr>poll_interval_seconds = 15, max_poll_wall_time_seconds = 3600, ci_provider = ''default''\<rparr>\<rparr>"

text \<open>The arithmetic is over exact rationals; the source's is in double precision.\<close>

definition jitter_fraction :: "runtime \<Rightarrow> int \<Rightarrow> int \<Rightarrow> int \<Rightarrow> rat" where
  "jitter_fraction rt seed gen idx =
     of_nat (hex_value (take 8 (hexdigest (sha256 rt
       (int_str seed @ '':'' @ int_str gen @ '':'' @ int_str idx))))) / 4294967295"

definition compute_deterministic_jitter ::
    "runtime \<Rightarrow> int \<Rightarrow> int \<Rightarrow> int \<Rightarrow> rat \<Rightarrow> rat \<Rightarrow> rat" where
  "compute_deterministic_jitter rt seed gen idx base factor =
     (let offset = base * factor * (2 * jitter_fraction rt seed gen idx - 1)
      in max 0 (py_round 4 (base + offset)))"

section \<open>The ledger\<close>

datatype ExhaustionState =
    NOT_EXHAUSTED
  | SAME_FINGERPRINT_EXHAUSTED
  | TOTAL_REPAIR_EXHAUSTED
  | WALL_TIME_EXHAUSTED
  | TRANSIENT_RETRY_EXHAUSTED
  | REPAIR_LOOP_EXHAUSTED

record budget_evaluation =
  allowed :: bool
  exhaustion_state :: ExhaustionState
  disposition :: string
  retry_delay_seconds :: "rat option"
  remaining_transient_attempts :: int
  remaining_same_fingerprint_repairs :: rat
  remaining_total_repairs :: int
  remaining_wall_time_seconds :: rat
  reason :: string

text \<open>A refusal: nothing remains of any budget.\<close>

definition refusal :: "ExhaustionState \<Rightarrow> string \<Rightarrow> string \<Rightarrow> budget_evaluation" where
  "refusal st disp why = \<lparr>allowed = False, exhaustion_state = st, disposition = disp,
     retry_delay_seconds = None, remaining_transient_attempts = 0,
     remaining_same_fingerprint_repairs = 0, remaining_total_repairs = 0,
     remaining_wall_time_seconds = 0, reason = why\<rparr>"

record manual_override_audit =
  override_id :: string
  override_project :: string
  override_task :: string
  actor_class :: string
  affected_budget :: string
  previous_value :: pyval
  new_value :: pyval
  override_reason :: string
  override_created_at :: int

record ledger_row =
  ledger_id :: string
  ledger_project :: string
  ledger_task :: string
  ledger_run_id :: "string option"
  total_repair_count :: int
  transient_retry_count :: int
  repair_generation :: int
  wall_time_start :: "int option"
  jitter_seed :: int
  exhausted_status :: string
  last_fingerprint :: "string option"
  fingerprint_counts :: pydict
  ledger_created_at :: int
  ledger_updated_at :: int

record budget_store =
  budget_ledgers :: "ledger_row list"
  budget_overrides :: "manual_override_audit list"

definition empty_budget_store :: budget_store where
  "empty_budget_store = \<lparr>budget_ledgers = [], budget_overrides = []\<rparr>"

text \<open>The clocks a call reads: the argument \<open>current_time\<close>, the ledger's \<open>clock\<close> (seconds) and
  the system clock behind \<open>_now_iso\<close> (microseconds).\<close>

record call_time =
  current_time :: "rat option"
  clock :: rat
  system_now :: int

definition now_ts :: "call_time \<Rightarrow> rat" where
  "now_ts ct = (case current_time ct of Some t \<Rightarrow> t | None \<Rightarrow> clock ct)"

definition now_iso :: "call_time \<Rightarrow> int" where
  "now_iso ct = (case current_time ct of Some t \<Rightarrow> round_half_even (t * 1000000) | None \<Rightarrow> system_now ct)"

definition load_ledger_row :: "budget_store \<Rightarrow> string \<Rightarrow> string \<Rightarrow> ledger_row option" where
  "load_ledger_row db p t =
     find (\<lambda>r. ledger_project r = p \<and> ledger_task r = t) (budget_ledgers db)"

definition update_ledger ::
    "budget_store \<Rightarrow> string \<Rightarrow> string \<Rightarrow> (ledger_row \<Rightarrow> ledger_row) \<Rightarrow> budget_store" where
  "update_ledger db p t f = db\<lparr>budget_ledgers :=
     map (\<lambda>r. if ledger_project r = p \<and> ledger_task r = t then f r else r) (budget_ledgers db)\<rparr>"

definition new_ledger_row ::
    "runtime \<Rightarrow> string \<Rightarrow> string \<Rightarrow> string option \<Rightarrow> int \<Rightarrow> int \<Rightarrow> ledger_row" where
  "new_ledger_row rt p t run seed now = \<lparr>
     ledger_id = ''bl-'' @ take 16 (hexdigest (sha256 rt (p @ '':'' @ t))),
     ledger_project = p, ledger_task = t, ledger_run_id = run, total_repair_count = 0,
     transient_retry_count = 0, repair_generation = 0, wall_time_start = None,
     jitter_seed = seed, exhausted_status = ''ACTIVE'', last_fingerprint = None,
     fingerprint_counts = [], ledger_created_at = now, ledger_updated_at = now\<rparr>"

text \<open>Two tasks whose ledger ids collide (for instance because a colon sits in a project id)
  cannot both have a ledger: the insert violates the primary key.\<close>

definition get_or_create_ledger ::
    "runtime \<Rightarrow> string \<Rightarrow> budget_store \<Rightarrow> string \<Rightarrow> string option \<Rightarrow> int \<Rightarrow> int
      \<Rightarrow> budget_store \<times> (py_error + ledger_row)" where
  "get_or_create_ledger rt p db t run seed now =
     (case load_ledger_row db p t of
        Some r \<Rightarrow> (db, Inr r)
      | None \<Rightarrow>
          (let r = new_ledger_row rt p t run seed now in
           if list_ex (\<lambda>q. ledger_id q = ledger_id r) (budget_ledgers db) then (db, Inl IntegrityError)
           else (db\<lparr>budget_ledgers := budget_ledgers db @ [r]\<rparr>, Inr r)))"

subsection \<open>Evaluation\<close>

definition ci_polling_result :: "failure_budget_policy \<Rightarrow> ledger_row \<Rightarrow> budget_evaluation" where
  "ci_polling_result pol r = \<lparr>allowed = True, exhaustion_state = NOT_EXHAUSTED,
     disposition = ''AUTO_POLL'', retry_delay_seconds = Some (poll_interval_seconds (ci pol)),
     remaining_transient_attempts = max_attempts (transient pol) - transient_retry_count r,
     remaining_same_fingerprint_repairs = of_int (max_same_fingerprint_repairs (repair pol)),
     remaining_total_repairs = max_total_repair_attempts (repair pol),
     remaining_wall_time_seconds = max_poll_wall_time_seconds (ci pol),
     reason = ''CI_WAITING monitored under independent CI polling policy''\<rparr>"

definition transient_evaluation ::
    "runtime \<Rightarrow> failure_budget_policy \<Rightarrow> ledger_row \<Rightarrow> py_error + budget_evaluation" where
  "transient_evaluation rt pol r =
     (let made = transient_retry_count r; cap = max_attempts (transient pol);
          sched = initial_schedule_seconds (transient pol) in
      if made \<ge> cap then
        Inr (refusal TRANSIENT_RETRY_EXHAUSTED ''PAUSED''
          (''Transient retry limit exhausted ('' @ int_str made @ ''/'' @ int_str cap @ '')''))
      else case py_index sched (min made (int (length sched) - 1)) of
        Inl err \<Rightarrow> Inl err
      | Inr base \<Rightarrow>
          Inr \<lparr>allowed = True, exhaustion_state = NOT_EXHAUSTED, disposition = ''AUTO_RETRY_BACKOFF'',
            retry_delay_seconds = Some (compute_deterministic_jitter rt (jitter_seed r)
              (repair_generation r) made base (jitter_factor (transient pol))),
            remaining_transient_attempts = cap - made - 1, remaining_same_fingerprint_repairs = 0,
            remaining_total_repairs = 0, remaining_wall_time_seconds = 0,
            reason = ''Transient retry allowed ('' @ int_str (made + 1) @ ''/'' @ int_str cap @ '')''\<rparr>)"

text \<open>Elapsed time on the repair wall clock, and what is left of it.\<close>

definition elapsed_wall :: "ledger_row \<Rightarrow> rat \<Rightarrow> rat option" where
  "elapsed_wall r now = map_option (\<lambda>s. now - of_int s / 1000000) (wall_time_start r)"

definition remaining_wall :: "failure_budget_policy \<Rightarrow> ledger_row \<Rightarrow> rat \<Rightarrow> rat" where
  "remaining_wall pol r now = (let m = max_total_repair_wall_time_seconds (repair pol) in
     case elapsed_wall r now of None \<Rightarrow> m | Some el \<Rightarrow> max 0 (m - el))"

definition wall_exceeded :: "failure_budget_policy \<Rightarrow> ledger_row \<Rightarrow> rat \<Rightarrow> bool" where
  "wall_exceeded pol r now = (case elapsed_wall r now of None \<Rightarrow> False
     | Some el \<Rightarrow> el > max_total_repair_wall_time_seconds (repair pol))"

text \<open>A count read from the JSON column is any JSON value; comparing a non-number with an
  integer raises \<open>TypeError\<close>.\<close>

definition same_fp_value :: "ledger_row \<Rightarrow> string \<Rightarrow> pyval" where
  "same_fp_value r digest = py_get_default (fingerprint_counts r) digest (PInt 0)"

definition repair_evaluation ::
    "runtime \<Rightarrow> failure_budget_policy \<Rightarrow> ledger_row \<Rightarrow> string \<Rightarrow> rat \<Rightarrow> py_error + budget_evaluation" where
  "repair_evaluation rt pol r digest now =
     (let total = total_repair_count r; max_total = max_total_repair_attempts (repair pol);
          max_same = max_same_fingerprint_repairs (repair pol); wall = remaining_wall pol r now in
      if wall_exceeded pol r now then
        Inr (refusal WALL_TIME_EXHAUSTED ''REPAIR_LOOP_EXHAUSTED''
          (''Total repair wall time exceeded ('' @ fixed1 (the (elapsed_wall r now)) @ ''s > ''
            @ float_repr rt (max_total_repair_wall_time_seconds (repair pol)) @ ''s)''))
      else if total \<ge> max_total then
        Inr ((refusal TOTAL_REPAIR_EXHAUSTED ''REPAIR_LOOP_EXHAUSTED''
          (''Total repair attempt budget exhausted ('' @ int_str total @ ''/'' @ int_str max_total @ '')''))
          \<lparr>remaining_wall_time_seconds := wall\<rparr>)
      else case as_number (same_fp_value r digest) of
        None \<Rightarrow> Inl TypeError
      | Some same \<Rightarrow>
          if same \<ge> of_int max_same then
            Inr ((refusal SAME_FINGERPRINT_EXHAUSTED ''REPAIR_LOOP_EXHAUSTED''
              (''Same-fingerprint repair limit exhausted ('' @ py_str rt (same_fp_value r digest)
                @ ''/'' @ int_str max_same @ '')''))
              \<lparr>remaining_total_repairs := max_total - total, remaining_wall_time_seconds := wall\<rparr>)
          else
            Inr \<lparr>allowed = True, exhaustion_state = NOT_EXHAUSTED, disposition = ''PROCEED_REPAIR'',
              retry_delay_seconds = None, remaining_transient_attempts = 0,
              remaining_same_fingerprint_repairs = of_int max_same - same - 1,
              remaining_total_repairs = max_total - total - 1, remaining_wall_time_seconds = wall,
              reason = ''Repair attempt permitted within budget limits''\<rparr>)"

definition class_evaluation ::
    "runtime \<Rightarrow> failure_budget_policy \<Rightarrow> ledger_row \<Rightarrow> failure_fingerprint \<Rightarrow> rat
      \<Rightarrow> py_error + budget_evaluation" where
  "class_evaluation rt pol r fp now =
     (let c = fingerprint_class fp; spec = TRANSITION_MATRIX c in
      if c = CI_WAITING then Inr (ci_polling_result pol r)
      else if \<not> retry_allowed spec \<and> \<not> repair_allowed spec then
        Inr (refusal NOT_EXHAUSTED ''FAIL_CLOSED'' (''Failure class '' @ failure_class_value c
          @ '' does not permit automatic retry or repair''))
      else if c = TRANSIENT_INFRASTRUCTURE then transient_evaluation rt pol r
      else repair_evaluation rt pol r (fingerprint_digest fp) now)"

definition evaluate_failure ::
    "runtime \<Rightarrow> string \<Rightarrow> failure_budget_policy \<Rightarrow> budget_store \<Rightarrow> string \<Rightarrow> classification_arg \<Rightarrow> pydict
      \<Rightarrow> string option \<Rightarrow> string option \<Rightarrow> call_time
      \<Rightarrow> budget_store \<times> (py_error + failure_fingerprint \<times> budget_evaluation)" where
  "evaluate_failure rt p pol db t arg e rid run ct =
     (case compute_failure_fingerprint rt arg e rid of
        Inl err \<Rightarrow> (db, Inl err)
      | Inr fp \<Rightarrow>
          (case get_or_create_ledger rt p db t run 42 (system_now ct) of
             (db', Inl err) \<Rightarrow> (db', Inl err)
           | (db', Inr r) \<Rightarrow>
               (db', case class_evaluation rt pol r fp (now_ts ct) of
                       Inl err \<Rightarrow> Inl err
                     | Inr res \<Rightarrow> Inr (fp, res))))"

subsection \<open>Observations and consumption\<close>

definition record_failure_observation ::
    "runtime \<Rightarrow> string \<Rightarrow> budget_store \<Rightarrow> string \<Rightarrow> failure_fingerprint \<Rightarrow> call_time
      \<Rightarrow> budget_store \<times> (py_error + bool)" where
  "record_failure_observation rt p db t fp ct =
     (case get_or_create_ledger rt p db t None 42 (system_now ct) of
        (db', Inl err) \<Rightarrow> (db', Inl err)
      | (db', Inr r) \<Rightarrow>
          (let now = now_iso ct; fresh_wall = (wall_time_start r = None);
               touch = (\<lambda>q. q\<lparr>ledger_updated_at := now,
                 wall_time_start := (if fresh_wall then Some now else wall_time_start q)\<rparr>)
           in if last_fingerprint r = Some (fingerprint_digest fp) then
                (if fresh_wall then update_ledger db' p t touch else db', Inr False)
              else
                (update_ledger db' p t (\<lambda>q. (touch q)\<lparr>last_fingerprint := Some (fingerprint_digest fp)\<rparr>),
                 Inr True)))"

definition consume_transient_retry ::
    "runtime \<Rightarrow> string \<Rightarrow> failure_budget_policy \<Rightarrow> budget_store \<Rightarrow> string \<Rightarrow> call_time
      \<Rightarrow> budget_store \<times> (py_error + budget_evaluation)" where
  "consume_transient_retry rt p pol db t ct =
     (case get_or_create_ledger rt p db t None 42 (system_now ct) of
        (db', Inl err) \<Rightarrow> (db', Inl err)
      | (db', Inr r) \<Rightarrow>
          (let cap = max_attempts (transient pol); n = transient_retry_count r + 1 in
           if transient_retry_count r \<ge> cap then
             (db', Inr (refusal TRANSIENT_RETRY_EXHAUSTED ''PAUSED'' ''Transient retry budget already exhausted''))
           else
             (update_ledger db' p t (\<lambda>q. q\<lparr>transient_retry_count := n,
                exhausted_status := (if n \<ge> cap then ''EXHAUSTED'' else ''ACTIVE''),
                ledger_updated_at := now_iso ct\<rparr>),
              Inr \<lparr>allowed = True,
                exhaustion_state = (if n < cap then NOT_EXHAUSTED else TRANSIENT_RETRY_EXHAUSTED),
                disposition = ''AUTO_RETRY_BACKOFF'', retry_delay_seconds = None,
                remaining_transient_attempts = cap - n, remaining_same_fingerprint_repairs = 0,
                remaining_total_repairs = 0, remaining_wall_time_seconds = 0,
                reason = ''Transient attempt '' @ int_str n @ '' recorded''\<rparr>)))"

text \<open>\<open>v + 1\<close> on a number.\<close>

fun py_add1 :: "pyval \<Rightarrow> pyval" where
  "py_add1 (PInt n) = PInt (n + 1)"
| "py_add1 (PBool b) = PInt (if b then 2 else 1)"
| "py_add1 (PFloat x) = PFloat (x + 1)"
| "py_add1 v = v"

text \<open>The granted branch of \<open>consume_repair_attempt\<close>: the row after it and the answer.\<close>

definition spend_repair ::
    "runtime \<Rightarrow> failure_budget_policy \<Rightarrow> ledger_row \<Rightarrow> string \<Rightarrow> rat \<Rightarrow> int
      \<Rightarrow> (ledger_row \<Rightarrow> ledger_row) \<times> budget_evaluation" where
  "spend_repair rt pol r digest same now =
     (let max_same = max_same_fingerprint_repairs (repair pol);
          max_total = max_total_repair_attempts (repair pol);
          v = py_add1 (same_fp_value r digest); total = total_repair_count r + 1;
          exhausted = (same + 1 \<ge> of_int max_same \<or> total \<ge> max_total)
      in (\<lambda>q. q\<lparr>total_repair_count := total, repair_generation := repair_generation r + 1,
            wall_time_start := (case wall_time_start r of None \<Rightarrow> Some now | Some w \<Rightarrow> Some w),
            exhausted_status := (if exhausted then ''REPAIR_LOOP_EXHAUSTED'' else ''ACTIVE''),
            last_fingerprint := Some digest,
            fingerprint_counts := sort_key fst (dict_put (fingerprint_counts r) digest v),
            ledger_updated_at := now\<rparr>,
          \<lparr>allowed = True,
            exhaustion_state = (if exhausted then REPAIR_LOOP_EXHAUSTED else NOT_EXHAUSTED),
            disposition = ''PROCEED_REPAIR'', retry_delay_seconds = None,
            remaining_transient_attempts = 0,
            remaining_same_fingerprint_repairs = of_int max_same - (same + 1),
            remaining_total_repairs = max_total - total,
            remaining_wall_time_seconds = max 0 (max_total_repair_wall_time_seconds (repair pol)),
            reason = ''Repair attempt '' @ int_str total @ '' consumed (same_fp='' @ py_str rt v @ '')''\<rparr>))"

definition consume_repair_attempt ::
    "runtime \<Rightarrow> string \<Rightarrow> failure_budget_policy \<Rightarrow> budget_store \<Rightarrow> string \<Rightarrow> failure_fingerprint \<Rightarrow> call_time
      \<Rightarrow> budget_store \<times> (py_error + budget_evaluation)" where
  "consume_repair_attempt rt p pol db t fp ct =
     (case get_or_create_ledger rt p db t None 42 (system_now ct) of
        (db', Inl err) \<Rightarrow> (db', Inl err)
      | (db', Inr r) \<Rightarrow>
          (let digest = fingerprint_digest fp; max_total = max_total_repair_attempts (repair pol) in
           case as_number (same_fp_value r digest) of
             None \<Rightarrow> (db', Inl TypeError)
           | Some same \<Rightarrow>
               if same \<ge> of_int (max_same_fingerprint_repairs (repair pol)) then
                 (db', Inr ((refusal SAME_FINGERPRINT_EXHAUSTED ''REPAIR_LOOP_EXHAUSTED''
                    ''Same fingerprint repair budget exhausted'')
                    \<lparr>remaining_total_repairs := max 0 (max_total - total_repair_count r)\<rparr>))
               else if total_repair_count r \<ge> max_total then
                 (db', Inr (refusal TOTAL_REPAIR_EXHAUSTED ''REPAIR_LOOP_EXHAUSTED''
                    ''Total repair budget exhausted''))
               else
                 (update_ledger db' p t (fst (spend_repair rt pol r digest same (now_iso ct))),
                  Inr (snd (spend_repair rt pol r digest same (now_iso ct))))))"

subsection \<open>Manual overrides\<close>

text \<open>\<open>int(new_value)\<close> bound to an INTEGER column.\<close>

definition count_argument :: "pyval \<Rightarrow> py_error + int" where
  "count_argument v = (case py_int v of Inl err \<Rightarrow> Inl err
     | Inr n \<Rightarrow> if sqlite_int n then Inr n else Inl OverflowError)"

text \<open>The branch on \<open>affected_budget\<close>: the update of the row and the previous value.\<close>

definition override_effect ::
    "ledger_row \<Rightarrow> string \<Rightarrow> pyval \<Rightarrow> int \<Rightarrow> py_error + (ledger_row \<Rightarrow> ledger_row) \<times> pyval" where
  "override_effect r budget v now =
     (if budget = ''transient_retry_count'' then
        (case count_argument v of Inl err \<Rightarrow> Inl err
         | Inr n \<Rightarrow> Inr (\<lambda>q. q\<lparr>transient_retry_count := n, ledger_updated_at := now\<rparr>,
                         PInt (transient_retry_count r)))
      else if budget = ''total_repair_count'' then
        (case count_argument v of Inl err \<Rightarrow> Inl err
         | Inr n \<Rightarrow> Inr (\<lambda>q. q\<lparr>total_repair_count := n, ledger_updated_at := now\<rparr>,
                         PInt (total_repair_count r)))
      else if budget = ''same_fingerprint_count'' then
        Inr (\<lambda>q. q\<lparr>fingerprint_counts := (case v of PDict d \<Rightarrow> sort_key fst d | _ \<Rightarrow> []),
                 ledger_updated_at := now\<rparr>,
             PDict (fingerprint_counts r))
      else if budget = ''all'' then
        Inr (\<lambda>q. q\<lparr>transient_retry_count := 0, total_repair_count := 0, fingerprint_counts := [],
                 exhausted_status := ''ACTIVE'', ledger_updated_at := now\<rparr>,
             PDict [(''transient_retry_count'', PInt (transient_retry_count r)),
                    (''total_repair_count'', PInt (total_repair_count r)),
                    (''fingerprint_counts'', PDict (fingerprint_counts r)),
                    (''exhausted_status'', PStr (exhausted_status r))])
      else Inl (ValueError (''Unknown affected_budget: '' @ budget)))"

definition override_record ::
    "runtime \<Rightarrow> string \<Rightarrow> string \<Rightarrow> string \<Rightarrow> string \<Rightarrow> pyval \<Rightarrow> pyval \<Rightarrow> string \<Rightarrow> int \<Rightarrow> manual_override_audit" where
  "override_record rt p t actor budget old v why now = \<lparr>
     override_id = ''ovr-'' @ take 16 (hexdigest (sha256 rt
       (p @ '':'' @ t @ '':'' @ isoformat now @ '':'' @ budget))),
     override_project = p, override_task = t, actor_class = actor, affected_budget = budget,
     previous_value = old, new_value = v, override_reason = why, override_created_at = now\<rparr>"

text \<open>When the audit row collides with an earlier one (same task, budget and instant), the
  update of the counters has already been executed on the connection.\<close>

definition record_manual_override ::
    "runtime \<Rightarrow> string \<Rightarrow> budget_store \<Rightarrow> string \<Rightarrow> string \<Rightarrow> string \<Rightarrow> pyval \<Rightarrow> string \<Rightarrow> call_time
      \<Rightarrow> budget_store \<times> (py_error + manual_override_audit)" where
  "record_manual_override rt p db t actor budget v why ct =
     (if strip actor = [] then (db, Inl (ValueError ''actor_class is required and cannot be empty''))
      else if budget = [] then (db, Inl (ValueError ''affected_budget is required''))
      else if strip why = [] then (db, Inl (ValueError ''reason is required and cannot be empty''))
      else case get_or_create_ledger rt p db t None 42 (system_now ct) of
        (db', Inl err) \<Rightarrow> (db', Inl err)
      | (db', Inr r) \<Rightarrow>
          (case override_effect r budget v (now_iso ct) of
             Inl err \<Rightarrow> (db', Inl err)
           | Inr (f, old) \<Rightarrow>
               (let rec = override_record rt p t actor budget old v why (now_iso ct);
                    db'' = update_ledger db' p t f
                in if list_ex (\<lambda>a. override_id a = override_id rec) (budget_overrides db'')
                   then (db'', Inl IntegrityError)
                   else (db''\<lparr>budget_overrides := budget_overrides db'' @ [rec]\<rparr>, Inr rec))))"

section \<open>The bounded model checker\<close>

record model_graph_node =
  node_class :: string
  node_fingerprint :: string
  node_same_fp_count :: int
  node_total_repair_count :: int
  node_transient_retry_count :: int
  node_wall_time_exhausted :: bool
  node_paused :: bool
  node_repair_generation :: int
  node_disposition :: string

definition root_node :: "FailureClass \<Rightarrow> string \<Rightarrow> model_graph_node" where
  "root_node c fp = \<lparr>node_class = failure_class_value c, node_fingerprint = fp,
     node_same_fp_count = 0, node_total_repair_count = 0, node_transient_retry_count = 0,
     node_wall_time_exhausted = False, node_paused = False, node_repair_generation = 0,
     node_disposition = ''ACTIVE''\<rparr>"

definition initial_nodes :: "model_graph_node list" where
  "initial_nodes = [root_node TRANSIENT_INFRASTRUCTURE ''fp1:transient'',
     root_node PROJECT_REPAIRABLE ''fp1:repair_A'', root_node CI_WAITING ''fp1:ci'',
     root_node SECURITY_VIOLATION ''fp1:sec'']"

text \<open>The pausing copy of a node that ends an automatic path.\<close>

definition paused_node :: "string \<Rightarrow> model_graph_node \<Rightarrow> model_graph_node" where
  "paused_node disp n = n\<lparr>node_paused := True, node_disposition := disp\<rparr>"

definition successors :: "failure_budget_policy \<Rightarrow> model_graph_node \<Rightarrow> model_graph_node list" where
  "successors pol n =
     (if node_class n = failure_class_value TRANSIENT_INFRASTRUCTURE then
        (if node_transient_retry_count n < max_attempts (transient pol) then
           [n\<lparr>node_transient_retry_count := node_transient_retry_count n + 1, node_paused := False,
              node_repair_generation := node_repair_generation n + 1,
              node_disposition := ''AUTO_RETRY_BACKOFF''\<rparr>]
         else [paused_node ''PAUSED'' n])
      else if node_class n = failure_class_value PROJECT_REPAIRABLE then
        (if node_wall_time_exhausted n
            \<or> node_same_fp_count n \<ge> max_same_fingerprint_repairs (repair pol)
            \<or> node_total_repair_count n \<ge> max_total_repair_attempts (repair pol) then
           [paused_node ''REPAIR_LOOP_EXHAUSTED'' n]
         else
           [n\<lparr>node_same_fp_count := node_same_fp_count n + 1,
              node_total_repair_count := node_total_repair_count n + 1, node_paused := False,
              node_repair_generation := node_repair_generation n + 1,
              node_disposition := ''PROCEED_REPAIR''\<rparr>,
            n\<lparr>node_fingerprint := ''fp1:repair_B'', node_same_fp_count := 1,
              node_total_repair_count := node_total_repair_count n + 1, node_paused := False,
              node_repair_generation := node_repair_generation n + 1,
              node_disposition := ''PROCEED_REPAIR''\<rparr>,
            paused_node ''TERMINAL_PASS'' n])
      else if node_class n = failure_class_value CI_WAITING then [paused_node ''TERMINAL_PASS'' n]
      else if node_class n = failure_class_value SECURITY_VIOLATION then
        [paused_node ''AUTO_FREEZE_FAIL_CLOSED'' n]
      else [])"

definition node_stops :: "model_graph_node \<Rightarrow> bool" where
  "node_stops n \<longleftrightarrow> node_paused n \<or> node_disposition n \<in>
     {''TERMINAL_PASS'', ''TERMINAL_FAIL'', ''REPAIR_LOOP_EXHAUSTED'', ''PAUSED'', ''AUTO_FREEZE_FAIL_CLOSED''}"

definition idle_cycle :: "model_graph_node list \<Rightarrow> model_graph_node \<Rightarrow> model_graph_node \<Rightarrow> bool" where
  "idle_cycle path n m \<longleftrightarrow> m \<in> set path
     \<and> node_same_fp_count m = node_same_fp_count n
     \<and> node_total_repair_count m = node_total_repair_count n
     \<and> node_transient_retry_count m = node_transient_retry_count n"

record exploration =
  visited :: "model_graph_node list"
  terminal_states :: "model_graph_node list"
  cycles_without_budget_decrease :: nat
  unbounded_paths :: nat

type_synonym queue_entry = "model_graph_node \<times> nat \<times> model_graph_node list"

text \<open>The breadth-first loop. It ends on every queue: an entry of depth \<open>d\<close> weighs
  \<open>4 ^ (max_depth + 1 - d)\<close>, and the at most three successors of an entry weigh less than it.
  A negative \<open>max_depth\<close> behaves as 0.\<close>

definition queue_weight :: "nat \<Rightarrow> queue_entry list \<Rightarrow> nat" where
  "queue_weight max_depth q = (\<Sum>(n, d, path)\<leftarrow>q. 4 ^ (Suc max_depth - d))"

lemma successors_length: "length (successors pol n) \<le> 3"
  by (simp add: successors_def)

lemma queue_weight_successors:
  assumes "d < max_depth"
  shows "queue_weight max_depth (map (\<lambda>m. (m, Suc d, path @ [m])) (successors pol n)) < 4 ^ (Suc max_depth - d)"
proof -
  have w: "queue_weight max_depth (map (\<lambda>m. (m, Suc d, path @ [m])) ms) = length ms * 4 ^ (max_depth - d)" for ms
    by (induction ms) (simp_all add: queue_weight_def)
  have "length (successors pol n) * 4 ^ (max_depth - d) \<le> 3 * 4 ^ (max_depth - d)"
    by (intro mult_right_mono successors_length) simp
  moreover have "(4::nat) ^ (Suc max_depth - d) = 4 * 4 ^ (max_depth - d)"
    using assms by (simp add: Suc_diff_le)
  moreover have "(0::nat) < 4 ^ (max_depth - d)" by simp
  ultimately show ?thesis unfolding w by linarith
qed

function explore_loop ::
    "failure_budget_policy \<Rightarrow> nat \<Rightarrow> queue_entry list \<Rightarrow> exploration \<Rightarrow> exploration" where
  "explore_loop pol max_depth [] x = x"
| "explore_loop pol max_depth ((n, d, path) # q) x =
     (if n \<in> set (visited x) then explore_loop pol max_depth q x
      else let x1 = x\<lparr>visited := n # visited x\<rparr> in
        if d \<ge> max_depth then
          explore_loop pol max_depth q (x1\<lparr>unbounded_paths := unbounded_paths x1 + 1\<rparr>)
        else if node_stops n then
          explore_loop pol max_depth q (x1\<lparr>terminal_states := List.insert n (terminal_states x1)\<rparr>)
        else explore_loop pol max_depth
          (q @ map (\<lambda>m. (m, Suc d, path @ [m])) (successors pol n))
          (x1\<lparr>cycles_without_budget_decrease := cycles_without_budget_decrease x1
                + length (filter (idle_cycle path n) (successors pol n))\<rparr>))"
  by pat_completeness auto
termination
proof (relation "measure (\<lambda>(pol, max_depth, q, x). queue_weight max_depth q)", goal_cases)
  case (5 pol max_depth n d path q x x1)
  then show ?case using queue_weight_successors[of d max_depth path pol n]
    by (simp add: queue_weight_def)
qed (simp_all add: queue_weight_def)

definition explore :: "failure_budget_policy \<Rightarrow> nat \<Rightarrow> exploration" where
  "explore pol max_depth = explore_loop pol max_depth (map (\<lambda>n. (n, 0, [n])) initial_nodes)
     \<lparr>visited = [], terminal_states = [], cycles_without_budget_decrease = 0, unbounded_paths = 0\<rparr>"

section \<open>What the operations do to the counters\<close>

lemma load_get_or_create:
  assumes "get_or_create_ledger rt p db t run seed now = (db', Inr r)"
  shows "load_ledger_row db' p t = Some r" "t' \<noteq> t \<Longrightarrow> load_ledger_row db' p t' = load_ledger_row db p t'"
  using assms
  by (auto simp: get_or_create_ledger_def load_ledger_row_def new_ledger_row_def Let_def find_append
      split: option.splits if_splits)

lemma get_or_create_error:
  "get_or_create_ledger rt p db t run seed now = (db', Inl err) \<Longrightarrow> db' = db \<and> err = IntegrityError"
  by (auto simp: get_or_create_ledger_def Let_def split: option.splits if_splits)

lemma get_or_create_row:
  "get_or_create_ledger rt p db t run seed now = (db', Inr r) \<Longrightarrow>
     load_ledger_row db p t = Some r \<and> db' = db
     \<or> load_ledger_row db p t = None \<and> r = new_ledger_row rt p t run seed now"
  by (auto simp: get_or_create_ledger_def Let_def split: option.splits if_splits)

definition keeps_key :: "(ledger_row \<Rightarrow> ledger_row) \<Rightarrow> bool" where
  "keeps_key f \<longleftrightarrow> (\<forall>q. ledger_project (f q) = ledger_project q \<and> ledger_task (f q) = ledger_task q)"

lemma load_update:
  assumes "keeps_key f"
  shows "load_ledger_row (update_ledger db p t f) p t' =
    (if t' = t then map_option f (load_ledger_row db p t) else load_ledger_row db p t')"
proof -
  have "find (\<lambda>r. ledger_project r = p \<and> ledger_task r = t')
          (map (\<lambda>r. if ledger_project r = p \<and> ledger_task r = t then f r else r) rs) =
        (if t' = t then map_option f (find (\<lambda>r. ledger_project r = p \<and> ledger_task r = t) rs)
         else find (\<lambda>r. ledger_project r = p \<and> ledger_task r = t') rs)" for rs
    using assms by (induction rs) (auto simp: keeps_key_def)
  then show ?thesis by (simp add: update_ledger_def load_ledger_row_def)
qed

text \<open>The counters of a task; a task without a ledger has spent nothing.\<close>

definition counters :: "budget_store \<Rightarrow> string \<Rightarrow> string \<Rightarrow> int \<times> int \<times> pydict" where
  "counters db p t = (case load_ledger_row db p t of None \<Rightarrow> (0, 0, [])
     | Some r \<Rightarrow> (transient_retry_count r, total_repair_count r, fingerprint_counts r))"

definition count_of :: "pydict \<Rightarrow> string \<Rightarrow> pyval" where
  "count_of cs digest = py_get_default cs digest (PInt 0)"

lemma counters_get_or_create:
  assumes "get_or_create_ledger rt p db t run seed now = (db', Inr r)"
  shows "counters db' p t' = counters db p t'"
    and "counters db p t = (transient_retry_count r, total_repair_count r, fingerprint_counts r)"
  using load_get_or_create[OF assms] get_or_create_row[OF assms]
  by (cases "t' = t"; auto simp: counters_def new_ledger_row_def)+

lemma counters_update:
  assumes "keeps_key f" and "load_ledger_row db p t = Some r"
  shows "counters (update_ledger db p t f) p t' = (if t' = t
    then (transient_retry_count (f r), total_repair_count (f r), fingerprint_counts (f r))
    else counters db p t')"
  using assms by (simp add: counters_def load_update)

lemma keeps_key_simps [simp]:
  "keeps_key (\<lambda>q. q\<lparr>ledger_updated_at := u, wall_time_start := w q\<rparr>)"
  "keeps_key (\<lambda>q. q\<lparr>ledger_updated_at := u, wall_time_start := w q, last_fingerprint := l\<rparr>)"
  "keeps_key (\<lambda>q. q\<lparr>transient_retry_count := n, exhausted_status := x, ledger_updated_at := u\<rparr>)"
  by (simp_all add: keeps_key_def)

lemma spend_repair_keeps: "keeps_key (fst (spend_repair rt pol r digest same now))"
  by (simp add: keeps_key_def spend_repair_def Let_def)

lemma evaluate_failure_counters:
  "counters (fst (evaluate_failure rt p pol db t arg e rid run ct)) p t' = counters db p t'"
  by (auto simp: evaluate_failure_def counters_get_or_create split: sum.splits prod.splits
      dest: get_or_create_error)

lemma record_failure_observation_counters:
  "counters (fst (record_failure_observation rt p db t fp ct)) p t' = counters db p t'"
  by (auto simp: record_failure_observation_def Let_def counters_update[OF _ load_get_or_create(1)]
      counters_get_or_create split: sum.splits prod.splits dest: get_or_create_error)

definition granted :: "py_error + budget_evaluation \<Rightarrow> bool" where
  "granted res = (case res of Inl err \<Rightarrow> False | Inr r \<Rightarrow> allowed r)"

lemma consume_transient_retry_counters:
  assumes "consume_transient_retry rt p pol db t ct = (db', res)" and "counters db p t = (n, tot, cs)"
  shows "counters db' p t' =
      (if t' = t \<and> granted res then (n + 1, tot, cs) else counters db p t')"
    and "granted res \<Longrightarrow> n < max_attempts (transient pol)"
  using assms
  by (auto simp: consume_transient_retry_def Let_def granted_def refusal_def
      counters_update[OF _ load_get_or_create(1)] counters_get_or_create
      split: sum.splits prod.splits if_splits dest: get_or_create_error)

lemma spend_repair_simps:
  "transient_retry_count (fst (spend_repair rt pol r digest same now) q) = transient_retry_count q"
  "total_repair_count (fst (spend_repair rt pol r digest same now) q) = total_repair_count r + 1"
  "fingerprint_counts (fst (spend_repair rt pol r digest same now) q) =
     sort_key fst (dict_put (fingerprint_counts r) digest (py_add1 (same_fp_value r digest)))"
  "allowed (snd (spend_repair rt pol r digest same now))"
  by (simp_all add: spend_repair_def Let_def)

text \<open>The counters after a granted repair.\<close>

definition spent_counters :: "int \<times> int \<times> pydict \<Rightarrow> string \<Rightarrow> int \<times> int \<times> pydict" where
  "spent_counters c digest = (case c of (n, tot, cs) \<Rightarrow>
     (n, tot + 1, sort_key fst (dict_put cs digest (py_add1 (count_of cs digest)))))"

lemma consume_repair_attempt_counters:
  assumes "consume_repair_attempt rt p pol db t fp ct = (db', res)" and "counters db p t = (n, tot, cs)"
  shows "counters db' p t' = (if t' = t \<and> granted res
      then spent_counters (n, tot, cs) (fingerprint_digest fp) else counters db p t')"
    and "granted res \<Longrightarrow> tot < max_total_repair_attempts (repair pol)"
    and "granted res \<Longrightarrow> \<exists>x. as_number (count_of cs (fingerprint_digest fp)) = Some x
           \<and> x < of_int (max_same_fingerprint_repairs (repair pol))"
  using assms
  by (auto simp: consume_repair_attempt_def Let_def granted_def refusal_def
      counters_update[OF spend_repair_keeps load_get_or_create(1)] counters_get_or_create
      spent_counters_def spend_repair_simps count_of_def same_fp_value_def
      split: sum.splits prod.splits option.splits if_splits dest: get_or_create_error)

subsection \<open>Interleaved runs\<close>

text \<open>The automatic operations, in any order, on any tasks of one project. (A manual override is
  not automatic.) The flag says whether the call granted an attempt.\<close>

datatype budget_op =
    Evaluate classification_arg pydict "string option" "string option"
  | Observe failure_fingerprint
  | Consume_Transient
  | Consume_Repair failure_fingerprint

type_synonym budget_request = "string \<times> budget_op \<times> call_time"

fun budget_step ::
    "runtime \<Rightarrow> string \<Rightarrow> failure_budget_policy \<Rightarrow> budget_store \<Rightarrow> budget_request \<Rightarrow> budget_store \<times> bool" where
  "budget_step rt p pol db (t, Evaluate arg e rid run, ct) =
     (fst (evaluate_failure rt p pol db t arg e rid run ct), False)"
| "budget_step rt p pol db (t, Observe fp, ct) =
     (fst (record_failure_observation rt p db t fp ct), False)"
| "budget_step rt p pol db (t, Consume_Transient, ct) =
     (fst (consume_transient_retry rt p pol db t ct), granted (snd (consume_transient_retry rt p pol db t ct)))"
| "budget_step rt p pol db (t, Consume_Repair fp, ct) =
     (fst (consume_repair_attempt rt p pol db t fp ct),
      granted (snd (consume_repair_attempt rt p pol db t fp ct)))"

text \<open>A step counted as a grant of one kind to one task.\<close>

definition counted_step ::
    "(budget_op \<Rightarrow> bool) \<Rightarrow> runtime \<Rightarrow> string \<Rightarrow> failure_budget_policy \<Rightarrow> string
      \<Rightarrow> budget_store \<Rightarrow> budget_request \<Rightarrow> budget_store \<times> bool" where
  "counted_step kind rt p pol task db req =
     (case budget_step rt p pol db req of
        (db', ok) \<Rightarrow> (db', ok \<and> fst req = task \<and> kind (fst (snd req))))"

definition is_transient_op :: "budget_op \<Rightarrow> bool" where
  "is_transient_op op \<longleftrightarrow> op = Consume_Transient"

definition is_repair_op :: "budget_op \<Rightarrow> bool" where
  "is_repair_op op = (case op of Consume_Repair fp \<Rightarrow> True | _ \<Rightarrow> False)"

definition is_repair_of :: "string \<Rightarrow> budget_op \<Rightarrow> bool" where
  "is_repair_of digest op = (case op of Consume_Repair fp \<Rightarrow> fingerprint_digest fp = digest | _ \<Rightarrow> False)"

text \<open>Counters as the code itself leaves them: no override has written anything else.\<close>

definition count_ok :: "pyval \<Rightarrow> bool" where
  "count_ok v = (case v of PInt n \<Rightarrow> 0 \<le> n | _ \<Rightarrow> False)"

definition counters_ok :: "budget_store \<Rightarrow> string \<Rightarrow> string \<Rightarrow> bool" where
  "counters_ok db p t = (case counters db p t of (n, tot, cs) \<Rightarrow>
     0 \<le> n \<and> 0 \<le> tot \<and> distinct (map fst cs) \<and> list_all (\<lambda>(k, v). count_ok v) cs)"

definition spent_transient :: "budget_store \<Rightarrow> string \<Rightarrow> string \<Rightarrow> nat" where
  "spent_transient db p t = nat (fst (counters db p t))"

definition spent_repairs :: "budget_store \<Rightarrow> string \<Rightarrow> string \<Rightarrow> nat" where
  "spent_repairs db p t = nat (fst (snd (counters db p t)))"

definition spent_same :: "budget_store \<Rightarrow> string \<Rightarrow> string \<Rightarrow> string \<Rightarrow> nat" where
  "spent_same db p t digest = (case count_of (snd (snd (counters db p t))) digest of PInt n \<Rightarrow> nat n | _ \<Rightarrow> 0)"

definition step_effect :: "budget_op \<Rightarrow> int \<times> int \<times> pydict \<Rightarrow> int \<times> int \<times> pydict" where
  "step_effect op c = (case op of
     Consume_Transient \<Rightarrow> (fst c + 1, snd c)
   | Consume_Repair fp \<Rightarrow> spent_counters c (fingerprint_digest fp)
   | _ \<Rightarrow> c)"

lemma budget_step_counters:
  "counters (fst (budget_step rt p pol db (t', op, ct))) p t =
     (if t' = t \<and> snd (budget_step rt p pol db (t', op, ct)) then step_effect op (counters db p t)
      else counters db p t)"
proof (cases op)
  case Consume_Transient
  then show ?thesis
    by (cases "counters db p t'", cases "t' = t")
      (auto simp: step_effect_def consume_transient_retry_counters(1)[OF prod.collapse[symmetric]])
next
  case (Consume_Repair fp)
  then show ?thesis
    by (cases "counters db p t'", cases "t' = t")
      (auto simp: step_effect_def consume_repair_attempt_counters(1)[OF prod.collapse[symmetric]])
qed (simp_all add: evaluate_failure_counters record_failure_observation_counters)

lemma granted_transient_below:
  "snd (budget_step rt p pol db (t, Consume_Transient, ct)) \<Longrightarrow>
     fst (counters db p t) < max_attempts (transient pol)"
  by (cases "counters db p t")
    (auto dest: consume_transient_retry_counters(2)[OF prod.collapse[symmetric], rotated])

lemma granted_repair_below:
  assumes "snd (budget_step rt p pol db (t, Consume_Repair fp, ct))"
  shows "fst (snd (counters db p t)) < max_total_repair_attempts (repair pol)"
    and "\<exists>x. as_number (count_of (snd (snd (counters db p t))) (fingerprint_digest fp)) = Some x
           \<and> x < of_int (max_same_fingerprint_repairs (repair pol))"
  using assms
  by (cases "counters db p t",
      auto dest: consume_repair_attempt_counters(2,3)[OF prod.collapse[symmetric], rotated])+

lemma count_ok_count_of:
  "list_all (\<lambda>(k, v). count_ok v) cs \<Longrightarrow> \<exists>n. count_of cs digest = PInt n \<and> 0 \<le> n"
  by (auto simp: count_of_def py_get_default_def count_ok_def list_all_iff
      dest!: map_of_SomeD split: option.splits pyval.splits)

lemma count_of_spent:
  assumes "distinct (map fst cs)"
  shows "count_of (snd (snd (spent_counters (n, tot, cs) digest))) k =
    (if k = digest then py_add1 (count_of cs digest) else count_of cs k)"
  using assms
  by (simp add: spent_counters_def count_of_def py_get_default_def map_of_sort_key dict_put_distinct
      map_of_dict_put)

lemma spent_counters_ok:
  assumes "distinct (map fst cs)" and "list_all (\<lambda>(k, v). count_ok v) cs"
  shows "distinct (map fst (snd (snd (spent_counters (n, tot, cs) digest))))"
    and "list_all (\<lambda>(k, v). count_ok v) (snd (snd (spent_counters (n, tot, cs) digest)))"
proof -
  let ?d = "dict_put cs digest (py_add1 (count_of cs digest))"
  have d: "distinct (map fst ?d)" using assms(1) by (rule dict_put_distinct)
  have "mset (map fst (sort_key fst ?d)) = mset (map fst ?d)" by simp
  with d show "distinct (map fst (snd (snd (spent_counters (n, tot, cs) digest))))"
    unfolding spent_counters_def by (simp add: mset_eq_imp_distinct_iff[OF \<open>mset _ = mset _\<close>])
  obtain m where "count_of cs digest = PInt m" "0 \<le> m" using count_ok_count_of[OF assms(2)] by blast
  then have "list_all (\<lambda>(k, v). count_ok v) ?d"
    using assms(2) by (auto simp: dict_put_def list_all_iff count_ok_def)
  then show "list_all (\<lambda>(k, v). count_ok v) (snd (snd (spent_counters (n, tot, cs) digest)))"
    by (simp add: spent_counters_def list_all_iff)
qed

lemma counters_ok_step:
  assumes "counters_ok db p task"
  shows "counters_ok (fst (counted_step kind rt p pol task db req)) p task"
proof -
  obtain t op ct where req: "req = (t, op, ct)" by (cases req)
  obtain n tot cs where c: "counters db p task = (n, tot, cs)" by (cases "counters db p task")
  have ok: "0 \<le> n" "0 \<le> tot" "distinct (map fst cs)" "list_all (\<lambda>(k, v). count_ok v) cs"
    using assms c by (simp_all add: counters_ok_def)
  have "counters (fst (counted_step kind rt p pol task db req)) p task \<in> {(n, tot, cs), step_effect op (n, tot, cs)}"
    unfolding counted_step_def req by (simp add: case_prod_beta budget_step_counters c)
  moreover have "step_effect op (n, tot, cs) = (n', tot', cs') \<Longrightarrow>
      0 \<le> n' \<and> 0 \<le> tot' \<and> distinct (map fst cs') \<and> list_all (\<lambda>(k, v). count_ok v) cs'" for n' tot' cs'
    using ok spent_counters_ok[OF ok(3,4), of n tot]
    by (cases op) (auto simp: step_effect_def spent_counters_def)
  ultimately show ?thesis using ok by (auto simp: counters_ok_def)
qed

lemma counted_step_granted:
  "snd (counted_step kind rt p pol task db (t, op, ct)) \<longleftrightarrow>
     snd (budget_step rt p pol db (t, op, ct)) \<and> t = task \<and> kind op"
  by (auto simp: counted_step_def case_prod_beta)

lemma counted_step_counters:
  "counters (fst (counted_step kind rt p pol task db (t, op, ct))) p task =
     (if t = task \<and> snd (budget_step rt p pol db (t, op, ct)) then step_effect op (counters db p task)
      else counters db p task)"
  by (simp add: counted_step_def case_prod_beta budget_step_counters)

interpretation transient_budget: bounded_grants
  "counted_step is_transient_op rt p pol task" "\<lambda>db. counters_ok db p task"
  "\<lambda>db. spent_transient db p task" "nat (max_attempts (transient pol))" for rt p pol task
proof (unfold_locales, goal_cases)
  case (1 db req)
  then show ?case by (rule counters_ok_step)
next
  case (2 db req)
  obtain t op ct where req: "req = (t, op, ct)" by (cases req)
  have g: "op = Consume_Transient" "t = task" "snd (budget_step rt p pol db (task, Consume_Transient, ct))"
    using 2(2) by (auto simp: req counted_step_granted is_transient_op_def)
  have "0 \<le> fst (counters db p task)" using 2(1) by (auto simp: counters_ok_def split: prod.splits)
  with granted_transient_below[OF g(3)] g show ?case
    by (simp add: req spent_transient_def counted_step_counters step_effect_def nat_add_distrib)
next
  case (3 db req)
  obtain t op ct where req: "req = (t, op, ct)" by (cases req)
  show ?case using 3(2)
    by (cases op) (auto simp: req spent_transient_def counted_step_counters counted_step_granted
        step_effect_def is_transient_op_def spent_counters_def split: prod.splits)
qed

interpretation repair_budget: bounded_grants
  "counted_step is_repair_op rt p pol task" "\<lambda>db. counters_ok db p task"
  "\<lambda>db. spent_repairs db p task" "nat (max_total_repair_attempts (repair pol))" for rt p pol task
proof (unfold_locales, goal_cases)
  case (1 db req)
  then show ?case by (rule counters_ok_step)
next
  case (2 db req)
  obtain t op ct where req: "req = (t, op, ct)" by (cases req)
  obtain fp where g: "op = Consume_Repair fp" "t = task" "snd (budget_step rt p pol db (task, Consume_Repair fp, ct))"
    using 2(2) by (auto simp: req counted_step_granted is_repair_op_def split: budget_op.splits)
  have "0 \<le> fst (snd (counters db p task))" using 2(1) by (auto simp: counters_ok_def split: prod.splits)
  with granted_repair_below(1)[OF g(3)] g show ?case
    by (auto simp: req spent_repairs_def counted_step_counters step_effect_def spent_counters_def
        nat_add_distrib split: prod.splits)
next
  case (3 db req)
  obtain t op ct where req: "req = (t, op, ct)" by (cases req)
  show ?case using 3(2)
    by (cases op) (auto simp: req spent_repairs_def counted_step_counters counted_step_granted
        step_effect_def is_repair_op_def)
qed

interpretation same_fingerprint_budget: bounded_grants
  "counted_step (is_repair_of digest) rt p pol task" "\<lambda>db. counters_ok db p task"
  "\<lambda>db. spent_same db p task digest" "nat (max_same_fingerprint_repairs (repair pol))" for digest rt p pol task
proof (unfold_locales, goal_cases)
  case (1 db req)
  then show ?case by (rule counters_ok_step)
next
  case (2 db req)
  obtain t op ct where req: "req = (t, op, ct)" by (cases req)
  obtain fp where g: "op = Consume_Repair fp" "t = task" "fingerprint_digest fp = digest"
      "snd (budget_step rt p pol db (task, Consume_Repair fp, ct))"
    using 2(2) by (auto simp: req counted_step_granted is_repair_of_def split: budget_op.splits)
  obtain n tot cs where c: "counters db p task = (n, tot, cs)" by (cases "counters db p task")
  have cs: "distinct (map fst cs)" "list_all (\<lambda>(k, v). count_ok v) cs"
    using 2(1) c by (simp_all add: counters_ok_def)
  then obtain m where m: "count_of cs digest = PInt m" "0 \<le> m" using count_ok_count_of by blast
  have "m < max_same_fingerprint_repairs (repair pol)"
    using granted_repair_below(2)[OF g(4)] m c g(3) by simp
  with g m c show ?case
    by (simp add: req spent_same_def counted_step_counters step_effect_def count_of_spent[OF cs(1)]
        nat_add_distrib)
next
  case (3 db req)
  obtain t op ct where req: "req = (t, op, ct)" by (cases req)
  obtain n tot cs where c: "counters db p task = (n, tot, cs)" by (cases "counters db p task")
  then have "distinct (map fst cs)" using 3(1) by (simp add: counters_ok_def)
  with 3(2) c show ?case
    by (cases op) (auto simp: req spent_same_def counted_step_counters counted_step_granted
        step_effect_def is_repair_of_def count_of_spent)
qed

section \<open>Fingerprint normal forms\<close>

text \<open>Evidence with every volatile or private entry removed, at every depth.\<close>

fun drop_volatile :: "pyval \<Rightarrow> pyval" where
  "drop_volatile (PDict d) =
     PDict (filter (\<lambda>(k, v). semantic_key k) (map (\<lambda>(k, v). (k, drop_volatile v)) d))"
| "drop_volatile (PList xs) = PList (map drop_volatile xs)"
| "drop_volatile v = v"

definition drop_volatile_entries :: "pydict \<Rightarrow> pydict" where
  "drop_volatile_entries d =
     filter (\<lambda>(k, v). semantic_key k) (map (\<lambda>(k, v). (k, drop_volatile v)) d)"

lemma insort_key_map_snd:
  "insort_key fst (k, h v) (map (\<lambda>(k, v). (k, h v)) d) = map (\<lambda>(k, v). (k, h v)) (insort_key fst (k, v) d)"
  by (induction d) auto

lemma sort_key_map_snd:
  "sort_key fst (map (\<lambda>(k, v). (k, h v)) d) = map (\<lambda>(k, v). (k, h v)) (sort_key fst d)"
  by (induction d) (auto simp: insort_key_map_snd)

lemma filter_map_snd:
  "filter (\<lambda>(k, v). P k) (map (\<lambda>(k, v). (k, h v)) d) = map (\<lambda>(k, v). (k, h v)) (filter (\<lambda>(k, v). P k) d)"
  by (induction d) auto

lemma map_fst_map_snd: "map fst (map (\<lambda>(k, v). (k, h v)) d) = map fst d"
  by (induction d) auto

lemma normalize_drop_volatile: "normalize_semantic_value (drop_volatile v) = normalize_semantic_value v"
proof (induction v rule: drop_volatile.induct)
  case (1 d)
  have "map (\<lambda>(k, v). (k, normalize_semantic_value (drop_volatile v))) (filter (\<lambda>(k, v). semantic_key k) (sort_key fst d))
      = map (\<lambda>(k, v). (k, normalize_semantic_value v)) (filter (\<lambda>(k, v). semantic_key k) (sort_key fst d))"
    using 1 by (intro map_cong) auto
  moreover have "filter (\<lambda>(k, v). semantic_key k) (sort_key fst
        (filter (\<lambda>(k, v). semantic_key k) (map (\<lambda>(k, v). (k, drop_volatile v)) d)))
      = map (\<lambda>(k, v). (k, drop_volatile v)) (filter (\<lambda>(k, v). semantic_key k) (sort_key fst d))"
    by (simp only: filter_map_snd sort_key_map_snd filter_sort filter_filter conj_absorb)
  ultimately show ?case by (simp add: comp_def case_prod_beta')
qed simp_all

lemma normalize_entries:
  assumes "mset (drop_volatile_entries d) = mset (drop_volatile_entries d')" and "distinct (map fst d)"
  shows "normalize_semantic_value (PDict d) = normalize_semantic_value (PDict d')"
proof -
  have "distinct (map fst (filter (\<lambda>(k, v). semantic_key k) d))"
    using assms(2) by (rule distinct_map_filter)
  then have "distinct (map fst (drop_volatile_entries d))"
    by (simp only: drop_volatile_entries_def filter_map_snd map_fst_map_snd)
  with assms(1) have "sort_key fst (drop_volatile_entries d) = sort_key fst (drop_volatile_entries d')"
    by (rule sort_key_mset_distinct)
  then have "normalize_semantic_value (PDict (drop_volatile_entries d))
      = normalize_semantic_value (PDict (drop_volatile_entries d'))"
    by simp
  then show ?thesis
    using normalize_drop_volatile[of "PDict d"] normalize_drop_volatile[of "PDict d'"]
    by (simp add: drop_volatile_entries_def del: normalize_semantic_value.simps)
qed

section \<open>Jitter arithmetic\<close>

lemma jitter_fraction_bounds: "0 \<le> jitter_fraction rt seed gen idx" "jitter_fraction rt seed gen idx \<le> 1"
proof -
  have "hex_value (take 8 (hexdigest w)) \<le> 4294967295" for w
    using hexdigest_prefix_value[of 8 w] by simp
  then have "(of_nat (hex_value (take 8 (hexdigest w))) :: rat) \<le> of_nat 4294967295" for w
    by (intro of_nat_mono)
  then show "jitter_fraction rt seed gen idx \<le> 1" by (simp add: jitter_fraction_def)
  show "0 \<le> jitter_fraction rt seed gen idx" by (simp add: jitter_fraction_def)
qed

lemma jitter_offset_bound:
  assumes "0 \<le> base" "0 \<le> factor"
  shows "\<bar>base * factor * (2 * jitter_fraction rt seed gen idx - 1)\<bar> \<le> base * factor"
proof -
  have "\<bar>2 * jitter_fraction rt seed gen idx - 1\<bar> \<le> 1"
    using jitter_fraction_bounds[of rt seed gen idx] by (simp add: abs_le_iff)
  then have "(base * factor) * \<bar>2 * jitter_fraction rt seed gen idx - 1\<bar> \<le> (base * factor) * 1"
    using assms by (intro mult_left_mono) simp_all
  then show ?thesis using assms by (simp add: abs_mult)
qed

section \<open>The model checker's verdict\<close>

definition budget_height :: "failure_budget_policy \<Rightarrow> int" where
  "budget_height pol = max 0 (max (max_attempts (transient pol)) (max_total_repair_attempts (repair pol)))"

definition entry_ok :: "failure_budget_policy \<Rightarrow> queue_entry \<Rightarrow> bool" where
  "entry_ok pol e = (case e of (n, d, path) \<Rightarrow>
     (\<forall>m\<in>set path. m = n \<or> \<not> node_paused m)
     \<and> int d = node_transient_retry_count n + node_total_repair_count n + (if node_paused n then 1 else 0)
     \<and> (node_class n = failure_class_value TRANSIENT_INFRASTRUCTURE \<longrightarrow>
          node_total_repair_count n = 0 \<and> node_transient_retry_count n \<le> budget_height pol)
     \<and> (node_class n = failure_class_value PROJECT_REPAIRABLE \<longrightarrow>
          node_transient_retry_count n = 0 \<and> node_total_repair_count n \<le> budget_height pol)
     \<and> (node_class n \<notin> {failure_class_value TRANSIENT_INFRASTRUCTURE, failure_class_value PROJECT_REPAIRABLE} \<longrightarrow>
          node_transient_retry_count n = 0 \<and> node_total_repair_count n = 0))"

lemma entry_ok_depth: "entry_ok pol (n, d, path) \<Longrightarrow> int d \<le> budget_height pol + 1"
  by (auto simp: entry_ok_def budget_height_def split: if_splits)

lemma successors_progress:
  "m \<in> set (successors pol n) \<Longrightarrow> \<not> node_paused m \<Longrightarrow>
     node_total_repair_count m \<noteq> node_total_repair_count n
     \<or> node_transient_retry_count m \<noteq> node_transient_retry_count n"
  by (auto simp: successors_def paused_node_def split: if_splits)

lemma no_idle_cycle:
  assumes "entry_ok pol (n, d, path)" "\<not> node_stops n" "m \<in> set (successors pol n)"
  shows "\<not> idle_cycle path n m"
  using assms successors_progress[OF assms(3)]
  by (auto simp: idle_cycle_def entry_ok_def node_stops_def)

lemma entry_ok_successor:
  assumes "entry_ok pol (n, d, path)" "\<not> node_stops n" "m \<in> set (successors pol n)"
  shows "entry_ok pol (m, Suc d, path @ [m])"
  using assms
  by (auto simp: entry_ok_def node_stops_def successors_def paused_node_def budget_height_def
      split: if_splits)

lemma entries_ok_successors:
  assumes "entry_ok pol (n, d, path)" "\<not> node_stops n" "\<forall>e\<in>set q. entry_ok pol e"
  shows "\<forall>e\<in>set q \<union> (\<lambda>m. (m, Suc d, path @ [m])) ` set (successors pol n). entry_ok pol e"
  using assms(3) entry_ok_successor[OF assms(1,2)] by blast

lemma explore_loop_verdict:
  assumes "\<forall>e\<in>set q. entry_ok pol e"
  shows "cycles_without_budget_decrease (explore_loop pol max_depth q x) = cycles_without_budget_decrease x"
    and "int max_depth > budget_height pol + 1 \<Longrightarrow>
      unbounded_paths (explore_loop pol max_depth q x) = unbounded_paths x"
  using assms
proof (induction pol max_depth q x rule: explore_loop.induct)
  case (2 pol max_depth n d path q x)
  {
    case 1
    then have ok: "entry_ok pol (n, d, path)" "\<forall>e\<in>set q. entry_ok pol e" by simp_all
    have "\<not> node_stops n \<Longrightarrow> filter (idle_cycle path n) (successors pol n) = []"
      using no_idle_cycle[OF ok(1)] by (simp add: filter_empty_conv)
    with 2 ok entries_ok_successors[OF ok(1) _ ok(2)] show ?case by (auto simp: Let_def)
  next
    case 2
    then have ok: "entry_ok pol (n, d, path)" "\<forall>e\<in>set q. entry_ok pol e" by simp_all
    have "\<not> max_depth \<le> d" using entry_ok_depth[OF ok(1)] 2(1) by linarith
    with "2.IH" ok entries_ok_successors[OF ok(1) _ ok(2)] 2(1) show ?case by (auto simp: Let_def)
  }
qed simp_all

lemma initial_entries_ok: "\<forall>e\<in>set (map (\<lambda>n. (n, 0, [n])) initial_nodes). entry_ok pol e"
  by (simp add: initial_nodes_def root_node_def entry_ok_def budget_height_def)

section \<open>Evaluation against consumption, overrides\<close>

lemma get_or_create_existing:
  "load_ledger_row db p t = Some r \<Longrightarrow> get_or_create_ledger rt p db t run seed now = (db, Inr r)"
  by (simp add: get_or_create_ledger_def)

lemma evaluate_failureE:
  assumes "evaluate_failure rt p pol db t arg e rid run ct = (db', Inr (fp, res))"
  obtains r where "load_ledger_row db' p t = Some r"
    "class_evaluation rt pol r fp (now_ts ct) = Inr res"
  using assms load_get_or_create(1)[of rt p db t run 42 "system_now ct"]
  by (auto simp: evaluate_failure_def split: sum.splits prod.splits)

lemma granted_transient_iff:
  "load_ledger_row db p t = Some r \<Longrightarrow>
     granted (snd (consume_transient_retry rt p pol db t ct)) \<longleftrightarrow>
       transient_retry_count r < max_attempts (transient pol)"
  by (simp add: consume_transient_retry_def get_or_create_existing Let_def granted_def refusal_def)

lemma granted_repair_iff:
  "load_ledger_row db p t = Some r \<Longrightarrow>
     granted (snd (consume_repair_attempt rt p pol db t fp ct)) \<longleftrightarrow>
       total_repair_count r < max_total_repair_attempts (repair pol)
       \<and> (\<exists>x. as_number (same_fp_value r (fingerprint_digest fp)) = Some x
              \<and> x < of_int (max_same_fingerprint_repairs (repair pol)))"
  by (auto simp: consume_repair_attempt_def get_or_create_existing Let_def granted_def refusal_def
      spend_repair_simps split: option.splits)

definition overridable :: "string list" where
  "overridable = [''transient_retry_count'', ''total_repair_count'', ''same_fingerprint_count'', ''all'']"

lemma override_effect_keeps:
  "override_effect r budget v now = Inr (f, old) \<Longrightarrow> keeps_key f \<and> budget \<in> set overridable"
  by (auto simp: override_effect_def overridable_def keeps_key_def split: if_splits sum.splits)

lemma get_or_create_overrides:
  "get_or_create_ledger rt p db t run seed now = (db', res) \<Longrightarrow> budget_overrides db' = budget_overrides db"
  by (auto simp: get_or_create_ledger_def Let_def split: option.splits if_splits)

lemma record_manual_overrideE:
  assumes "record_manual_override rt p db t actor budget v why ct = (db', res)"
  obtains (invalid) err where "res = Inl err" "\<forall>t'. counters db' p t' = counters db p t'"
      "budget_overrides db' = budget_overrides db"
    | (collision) db1 r f old where "res = Inl IntegrityError"
      "strip actor \<noteq> []" "strip why \<noteq> []" "budget \<noteq> []"
      "get_or_create_ledger rt p db t None 42 (system_now ct) = (db1, Inr r)"
      "override_effect r budget v (now_iso ct) = Inr (f, old)" "db' = update_ledger db1 p t f"
    | (recorded) db1 r f old where "strip actor \<noteq> []" "strip why \<noteq> []" "budget \<noteq> []"
      "get_or_create_ledger rt p db t None 42 (system_now ct) = (db1, Inr r)"
      "override_effect r budget v (now_iso ct) = Inr (f, old)"
      "res = Inr (override_record rt p t actor budget old v why (now_iso ct))"
      "db' = (update_ledger db1 p t f)\<lparr>budget_overrides := budget_overrides db1
          @ [override_record rt p t actor budget old v why (now_iso ct)]\<rparr>"
proof (cases "strip actor = [] \<or> budget = [] \<or> strip why = []")
  case True
  with assms have "db' = db \<and> (\<exists>err. res = Inl err)"
    by (auto simp: record_manual_override_def split: if_splits)
  then show thesis using invalid by blast
next
  case False
  obtain db1 x where g: "get_or_create_ledger rt p db t None 42 (system_now ct) = (db1, x)" by fastforce
  note step = assms[unfolded record_manual_override_def g] False
  show thesis
  proof (cases x)
    case (Inl err)
    with step g get_or_create_error have "db' = db \<and> res = Inl err" by auto
    then show thesis using invalid by blast
  next
    case (Inr r)
    note g = g[unfolded Inr]
    show thesis
    proof (cases "override_effect r budget v (now_iso ct)")
      case (Inl err)
      with step \<open>x = Inr r\<close> have "db' = db1 \<and> res = Inl err" by auto
      then show thesis using invalid counters_get_or_create(1)[OF g] get_or_create_overrides[OF g] by blast
    next
      case (Inr fo)
      obtain f old where fo: "fo = (f, old)" by fastforce
      let ?rec = "override_record rt p t actor budget old v why (now_iso ct)"
      show thesis
      proof (cases "list_ex (\<lambda>a. override_id a = override_id ?rec) (budget_overrides (update_ledger db1 p t f))")
        case True
        with step \<open>x = Inr r\<close> Inr fo g show thesis by (intro collision) (auto simp: Let_def)
      next
        case False
        with step \<open>x = Inr r\<close> Inr fo g show thesis
          by (intro recorded) (auto simp: Let_def update_ledger_def)
      qed
    qed
  qed
qed

lemma counters_overrides [simp]: "counters (db\<lparr>budget_overrides := xs\<rparr>) p t = counters db p t"
  by (simp add: counters_def load_ledger_row_def)

lemma load_overrides [simp]: "load_ledger_row (db\<lparr>budget_overrides := xs\<rparr>) p t = load_ledger_row db p t"
  by (simp add: load_ledger_row_def)

section \<open>Properties\<close>

lemma counters_ok_empty [simp]: "counters_ok empty_budget_store p t"
  by (simp add: counters_ok_def counters_def empty_budget_store_def load_ledger_row_def)

text \<open>C1: In whatever order evaluations, observations, retries and repairs on the tasks of a project are
  called, one call after another, a task whose counters only the ledger has written gets at most the rest of its
  \<open>max_attempts\<close> transient retries, and its counter records exactly the grants.\<close>

theorem transient_retries_bounded:
  assumes "counters_ok db p task"
    and "spent_transient db p task \<le> nat (max_attempts (transient pol))"
  shows "snd (run_requests (counted_step is_transient_op rt p pol task) db reqs)
      \<le> nat (max_attempts (transient pol)) - spent_transient db p task
    \<and> spent_transient (fst (run_requests (counted_step is_transient_op rt p pol task) db reqs)) p task
      = spent_transient db p task + snd (run_requests (counted_step is_transient_op rt p pol task) db reqs)"
  using transient_budget.grants_bounded[OF assms] transient_budget.run_spent[OF assms(1)] by blast

text \<open>C1 applied to a new ledger under the default policy: at most three retries.\<close>

theorem transient_retries_bounded_witness:
  "\<forall>reqs. snd (run_requests (counted_step is_transient_op sample_runtime ''p'' DEFAULT_FAILURE_BUDGET_POLICY ''t'')
     empty_budget_store reqs) \<le> 3"
proof -
  have "spent_transient empty_budget_store ''p'' ''t'' = 0"
    by (simp add: spent_transient_def counters_def empty_budget_store_def load_ledger_row_def)
  with transient_retries_bounded[OF counters_ok_empty, of "''p''" "''t''" DEFAULT_FAILURE_BUDGET_POLICY sample_runtime]
  show ?thesis by (simp add: DEFAULT_FAILURE_BUDGET_POLICY_def)
qed

text \<open>C18: Likewise at most \<open>max_total_repair_attempts\<close> repairs are granted to a task in all, and at
  most \<open>max_same_fingerprint_repairs\<close> of them for any one failure fingerprint, again over calls one
  after another.\<close>

theorem repair_attempts_bounded:
  assumes "counters_ok db p task"
    and "spent_repairs db p task \<le> nat (max_total_repair_attempts (repair pol))"
    and "spent_same db p task digest \<le> nat (max_same_fingerprint_repairs (repair pol))"
  shows "snd (run_requests (counted_step is_repair_op rt p pol task) db reqs)
      \<le> nat (max_total_repair_attempts (repair pol)) - spent_repairs db p task
    \<and> snd (run_requests (counted_step (is_repair_of digest) rt p pol task) db reqs)
      \<le> nat (max_same_fingerprint_repairs (repair pol)) - spent_same db p task digest"
  using repair_budget.grants_bounded[OF assms(1,2)] same_fingerprint_budget.grants_bounded[OF assms(1,3)]
  by blast

text \<open>C18 applied to a new ledger under the default policy: four repairs, two per fingerprint.\<close>

theorem repair_attempts_bounded_witness:
  "\<forall>reqs. snd (run_requests (counted_step is_repair_op sample_runtime ''p'' DEFAULT_FAILURE_BUDGET_POLICY ''t'')
     empty_budget_store reqs) \<le> 4
   \<and> snd (run_requests (counted_step (is_repair_of ''fp1:a'') sample_runtime ''p'' DEFAULT_FAILURE_BUDGET_POLICY ''t'')
     empty_budget_store reqs) \<le> 2"
proof -
  have "spent_repairs empty_budget_store ''p'' ''t'' = 0" "spent_same empty_budget_store ''p'' ''t'' ''fp1:a'' = 0"
    by (simp_all add: spent_repairs_def spent_same_def counters_def empty_budget_store_def
        load_ledger_row_def count_of_def py_get_default_def)
  with repair_attempts_bounded[OF counters_ok_empty, of "''p''" "''t''" DEFAULT_FAILURE_BUDGET_POLICY "''fp1:a''" sample_runtime]
  show ?thesis by (simp add: DEFAULT_FAILURE_BUDGET_POLICY_def)
qed

text \<open>The fingerprint depends only on the semantic entries of the evidence: the order of keys
  and any volatile or private entry, at any depth, make no difference.\<close>

lemma fingerprint_stable:
  assumes "mset (drop_volatile_entries e) = mset (drop_volatile_entries e')"
    and "distinct (map fst e)"
  shows "compute_failure_fingerprint rt arg e rid = compute_failure_fingerprint rt arg e' rid"
  using normalize_entries[OF assms] by (simp add: compute_failure_fingerprint_def Let_def)

text \<open>A jittered delay is never negative and differs from its base by at most the jitter
  factor, up to the rounding to four decimals.\<close>

lemma jitter_bounds:
  assumes "0 \<le> base" and "0 \<le> factor"
  shows "0 \<le> compute_deterministic_jitter rt seed gen idx base factor
    \<and> \<bar>compute_deterministic_jitter rt seed gen idx base factor - base\<bar> \<le> base * factor + 1 / 20000"
proof -
  let ?x = "base + base * factor * (2 * jitter_fraction rt seed gen idx - 1)"
  have "\<bar>py_round 4 ?x - ?x\<bar> \<le> 1 / 20000" using py_round_close[of 4 ?x] by simp
  moreover have "\<bar>?x - base\<bar> \<le> base * factor" using jitter_offset_bound[OF assms] by simp
  ultimately have "\<bar>py_round 4 ?x - base\<bar> \<le> base * factor + 1 / 20000" by linarith
  then show ?thesis
    using assms(1) by (auto simp: compute_deterministic_jitter_def Let_def max_def abs_le_iff)
qed

text \<open>Under every policy the exploration of the retry and repair graph finds no cycle that
  spends no budget, and no path reaches a depth limit of at least two more than the larger of
  the retry and repair budgets.\<close>

lemma model_checker_verdict:
  assumes "int max_depth \<ge> budget_height pol + 2"
  shows "cycles_without_budget_decrease (explore pol max_depth) = 0
    \<and> unbounded_paths (explore pol max_depth) = 0"
  using explore_loop_verdict[OF initial_entries_ok, of pol max_depth] assms
  by (simp add: explore_def)

text \<open>What \<open>evaluate_failure\<close> allows, the following consume call grants, and what it refuses
  for a spent retry or repair budget, the consume call refuses too. Only a wall-clock refusal
  has no counterpart there: \<open>consume_repair_attempt\<close> does not read the clock limit.\<close>

lemma evaluation_predicts_consumption:
  assumes "evaluate_failure rt p pol db t arg e rid run ct = (db', Inr (fp, res))"
  shows "(fingerprint_class fp = TRANSIENT_INFRASTRUCTURE \<longrightarrow>
       (allowed res \<longleftrightarrow> granted (snd (consume_transient_retry rt p pol db' t ct'))))
    \<and> (fingerprint_class fp \<in> {PROJECT_REPAIRABLE, PHASE_SCOPE_VIOLATION, EARLY_IMPLEMENTATION}
         \<and> exhaustion_state res \<noteq> WALL_TIME_EXHAUSTED \<longrightarrow>
       (allowed res \<longleftrightarrow> granted (snd (consume_repair_attempt rt p pol db' t fp ct'))))"
proof -
  from assms obtain r where r: "load_ledger_row db' p t = Some r"
    and c: "class_evaluation rt pol r fp (now_ts ct) = Inr res" by (rule evaluate_failureE)
  have "fingerprint_class fp = TRANSIENT_INFRASTRUCTURE \<Longrightarrow>
      allowed res \<longleftrightarrow> transient_retry_count r < max_attempts (transient pol)"
    using c by (auto simp: class_evaluation_def transient_evaluation_def Let_def refusal_def
        spec_TRANSIENT_INFRASTRUCTURE_def split: if_splits sum.splits)
  moreover have "fingerprint_class fp \<in> {PROJECT_REPAIRABLE, PHASE_SCOPE_VIOLATION, EARLY_IMPLEMENTATION} \<Longrightarrow>
      repair_evaluation rt pol r (fingerprint_digest fp) (now_ts ct) = Inr res"
    using c by (auto simp: class_evaluation_def Let_def spec_PROJECT_REPAIRABLE_def
        spec_PHASE_SCOPE_VIOLATION_def spec_EARLY_IMPLEMENTATION_def)
  moreover have "repair_evaluation rt pol r (fingerprint_digest fp) (now_ts ct) = Inr res \<Longrightarrow>
      exhaustion_state res \<noteq> WALL_TIME_EXHAUSTED \<Longrightarrow>
      allowed res \<longleftrightarrow> total_repair_count r < max_total_repair_attempts (repair pol)
       \<and> (\<exists>x. as_number (same_fp_value r (fingerprint_digest fp)) = Some x
              \<and> x < of_int (max_same_fingerprint_repairs (repair pol)))"
    by (auto simp: repair_evaluation_def Let_def refusal_def split: if_splits option.splits)
  ultimately show ?thesis using r by (simp add: granted_transient_iff granted_repair_iff)
qed

text \<open>No automatic path resets a budget: a manual override that changes a task's counters names
  an actor, a reason and a known budget; a recorded one appends exactly its audit row; and
  \<open>all\<close> clears the three counters.\<close>

lemma override_has_provenance:
  assumes "record_manual_override rt p db t actor budget v why ct = (db', res)"
  shows "(counters db' p t' \<noteq> counters db p t' \<longrightarrow>
        t' = t \<and> strip actor \<noteq> [] \<and> strip why \<noteq> [] \<and> budget \<in> set overridable)
    \<and> (\<forall>a. res = Inr a \<longrightarrow> budget_overrides db' = budget_overrides db @ [a]
        \<and> actor_class a = actor \<and> override_reason a = why \<and> override_task a = t
        \<and> (budget = ''all'' \<longrightarrow> counters db' p t = (0, 0, [])))"
  using assms
proof (cases rule: record_manual_overrideE)
  case (collision db1 r f old)
  then show ?thesis
    using override_effect_keeps[OF collision(6)] load_get_or_create(1)[OF collision(5)]
      counters_get_or_create(1)[OF collision(5)]
    by (auto simp: counters_update)
next
  case (recorded db1 r f old)
  then show ?thesis
    using override_effect_keeps[OF recorded(5)] load_get_or_create(1)[OF recorded(4)]
      counters_get_or_create(1)[OF recorded(4)] get_or_create_overrides[OF recorded(4)]
    by (auto simp: counters_update override_record_def override_effect_def)
qed simp

text \<open>Two overrides of one counter at the same instant: the second raises \<open>IntegrityError\<close> on
  its audit row, but the connection already holds the new count, with no audit row of its own.\<close>

lemma override_collision_unaudited:
  assumes "record_manual_override rt p db t actor ''transient_retry_count'' v why ct = (db1, Inr a)"
    and "strip actor' \<noteq> []" and "strip why' \<noteq> []" and "count_argument v' = Inr n"
  shows "\<exists>db2. record_manual_override rt p db1 t actor' ''transient_retry_count'' v' why' ct
      = (db2, Inl IntegrityError)
    \<and> fst (counters db2 p t) = n \<and> budget_overrides db2 = budget_overrides db1"
  using assms(1)
proof (cases rule: record_manual_overrideE)
  case (recorded db0 r f old)
  let ?g = "\<lambda>q. q\<lparr>transient_retry_count := n, ledger_updated_at := now_iso ct\<rparr>"
  have kf: "keeps_key f" using override_effect_keeps[OF recorded(5)] by simp
  have kg: "keeps_key ?g" by (simp add: keeps_key_def)
  have l1: "load_ledger_row db1 p t = Some (f r)"
    using load_get_or_create(1)[OF recorded(4)] by (simp add: recorded(7) load_update[OF kf])
  have clash: "list_ex (\<lambda>b. override_id b = override_id (override_record rt p t actor' ''transient_retry_count'' old' v' why'
      (now_iso ct))) (budget_overrides (update_ledger db1 p t h))" for old' h
    by (simp add: recorded(7) override_record_def update_ledger_def)
  have "record_manual_override rt p db1 t actor' ''transient_retry_count'' v' why' ct
      = (update_ledger db1 p t ?g, Inl IntegrityError)"
    using assms(2,3,4) clash
    by (simp add: record_manual_override_def get_or_create_existing[OF l1] override_effect_def Let_def)
  moreover have "fst (counters (update_ledger db1 p t ?g) p t) = n"
    by (simp add: counters_update[OF kg l1])
  ultimately show ?thesis by (auto simp: update_ledger_def)
qed simp_all

end
