(* ===== verification/Repair_Loop.thy ===== *)
theory Repair_Loop
  imports Failure_Budget
begin

text \<open>
  The repair loop of \<^verbatim>\<open>src/bdb_vnext/repair_loop.py\<close>: scope envelope, idempotent repair requests
  that spend the repair budget, the persisted stages and the exact retest. The connection is the
  record \<open>repair_db\<close>: the three tables of the controller and the budget ledger it shares. The
  verifier is an argument, a function of the selector: the retest reads the record, asks the
  verifier and writes, and in the model nothing else happens in between, whereas in the code the
  record may change while the verifier runs. JSON columns are the values they denote.
\<close>

section \<open>Envelope and selector\<close>

record retest_selector =
  selector_type :: string
  selector_target :: string
  expected_verifier_id :: string
  selector_parameters :: pydict

record repair_scope_envelope =
  allowed_paths :: "string list"
  disallowed_paths :: "string list"
  max_changed_files :: int

definition normalize_path :: "string \<Rightarrow> string" where
  "normalize_path p = strip (replace_char (char_of (92::nat)) (CHR ''/'') p)"

definition escapes :: "string \<Rightarrow> bool" where
  "escapes q \<longleftrightarrow> contains ''..'' q \<or> starts_with ''/'' q \<or> contains '':'' q"

definition under :: "string \<Rightarrow> string \<Rightarrow> bool" where
  "under dir q \<longleftrightarrow> q = normalize_path dir
     \<or> starts_with (rstrip_char (CHR ''/'') (normalize_path dir) @ ''/'') q"

definition path_violation :: "repair_scope_envelope \<Rightarrow> string \<Rightarrow> string option" where
  "path_violation env p =
     (let q = normalize_path p in
      if escapes q then Some (''path traversal or absolute path escape detected: '' @ p)
      else case find (\<lambda>d. under d q) (disallowed_paths env) of
        Some d \<Rightarrow> Some (''path '' @ p @ '' violates disallowed boundary '' @ d)
      | None \<Rightarrow>
          if list_ex (\<lambda>a. normalize_path a = ''*'' \<or> under a q) (allowed_paths env) then None
          else Some (''path '' @ p @ '' escapes allowed repair envelope ''
            @ ''['' @ join '', '' (map repr_str (allowed_paths env)) @ '']''))"

fun first_violation :: "repair_scope_envelope \<Rightarrow> string list \<Rightarrow> string option" where
  "first_violation env [] = None"
| "first_violation env (p # ps) =
     (case path_violation env p of Some msg \<Rightarrow> Some msg | None \<Rightarrow> first_violation env ps)"

text \<open>The paths are lists: the controller validates an envelope read back from JSON.\<close>

definition validate_mutation :: "repair_scope_envelope \<Rightarrow> string list \<Rightarrow> bool \<times> string" where
  "validate_mutation env ps =
     (if int (length ps) > max_changed_files env then
        (False, ''changed file count '' @ nat_str (length ps) @ '' exceeds max '' @ int_str (max_changed_files env))
      else case first_violation env ps of
        Some msg \<Rightarrow> (False, msg)
      | None \<Rightarrow> (True, ''scope_valid''))"

section \<open>Requests, records, tables\<close>

datatype RepairStage =
    INTENT_RECORDED
  | EFFECT_APPLIED
  | READY_FOR_RETEST
  | RETEST_RUNNING
  | STAGE_ACCEPTED
  | REPAIR_FAILED

fun stage_value :: "RepairStage \<Rightarrow> string" where
  "stage_value INTENT_RECORDED = ''INTENT_RECORDED''"
| "stage_value EFFECT_APPLIED = ''EFFECT_APPLIED''"
| "stage_value READY_FOR_RETEST = ''READY_FOR_RETEST''"
| "stage_value RETEST_RUNNING = ''RETEST_RUNNING''"
| "stage_value STAGE_ACCEPTED = ''ACCEPTED''"
| "stage_value REPAIR_FAILED = ''REPAIR_FAILED''"

record repair_request =
  repair_request_id :: string
  request_project :: string
  request_run :: string
  request_task :: string
  failed_binding_id :: string
  failed_attempt_id :: "string option"
  request_fingerprint :: failure_fingerprint
  request_classification :: FailureClass
  request_evidence_digest :: string
  request_generation :: int
  scope_envelope :: repair_scope_envelope
  expected_source_head :: string
  expected_source_tree :: string
  request_selector :: retest_selector
  request_created_at :: int

record verifier_result =
  verifier_id :: string
  verified_target :: string
  verifier_status :: string
  verifier_evidence :: string
  verifier_diagnostic :: string

record repair_record =
  record_request_id :: string
  record_project :: string
  record_task :: string
  record_run :: string
  record_binding :: string
  record_attempt :: string
  record_generation :: int
  record_fingerprint :: string
  record_evidence :: string
  source_before :: string
  source_after :: "string option"
  changed_paths :: "string list"
  record_selector :: retest_selector
  record_stage :: RepairStage
  retest_status :: "string option"
  retest_evidence :: "string option"
  record_created_at :: int
  record_updated_at :: int

record accepted_repair =
  acceptance_id :: string
  accepted_project :: string
  accepted_task :: string
  accepted_run :: string
  accepted_binding :: string
  accepted_attempt :: string
  result_digest :: string
  accepted_at :: int

record repair_db =
  repair_requests :: "repair_request list"
  repair_records :: "repair_record list"
  accepted_repairs :: "accepted_repair list"
  ledger :: budget_store

text \<open>The controller: its project, its ledger's project and policy.\<close>

record repair_controller =
  rc_project :: string
  rc_ledger_project :: string
  rc_policy :: failure_budget_policy

text \<open>A request read back from its row: the fingerprint keeps its digest and class only.\<close>

definition load_repair_request :: "repair_db \<Rightarrow> string \<Rightarrow> repair_request option" where
  "load_repair_request db rid = map_option
     (\<lambda>r. r\<lparr>request_fingerprint := \<lparr>fingerprint_version = ''1.0.0'',
        fingerprint_digest = fingerprint_digest (request_fingerprint r),
        fingerprint_class = request_classification r, fingerprint_rule_id = ''RULE_PERSISTED'',
        semantic_features = PDict []\<rparr>\<rparr>)
     (find (\<lambda>r. repair_request_id r = rid) (repair_requests db))"

definition find_record :: "repair_db \<Rightarrow> string \<Rightarrow> repair_record option" where
  "find_record db rid = find (\<lambda>r. record_request_id r = rid) (repair_records db)"

definition update_record :: "repair_db \<Rightarrow> string \<Rightarrow> (repair_record \<Rightarrow> repair_record) \<Rightarrow> repair_db" where
  "update_record db rid f = db\<lparr>repair_records :=
     map (\<lambda>r. if record_request_id r = rid then f r else r) (repair_records db)\<rparr>"

section \<open>Operations\<close>

record repair_args =
  arg_run :: string
  arg_task :: string
  arg_failed_binding :: string
  arg_failed_attempt :: "string option"
  arg_fingerprint :: failure_fingerprint
  arg_classification :: FailureClass
  arg_evidence_digest :: string
  arg_envelope :: repair_scope_envelope
  arg_head :: string
  arg_tree :: string
  arg_selector :: retest_selector
  arg_binding_generation :: int

definition short_digest :: "runtime \<Rightarrow> string \<Rightarrow> string" where
  "short_digest rt s = take 16 (hexdigest (sha256 rt s))"

definition repair_request_key :: "runtime \<Rightarrow> repair_controller \<Rightarrow> repair_args \<Rightarrow> string" where
  "repair_request_key rt rc a = ''rep-'' @ short_digest rt (rc_project rc @ '':'' @ arg_run a @ '':'' @ arg_task a
     @ '':'' @ arg_failed_binding a @ '':'' @ fingerprint_digest (arg_fingerprint a)
     @ '':'' @ int_str (arg_binding_generation a + 1))"

definition new_repair_request :: "repair_controller \<Rightarrow> repair_args \<Rightarrow> string \<Rightarrow> int \<Rightarrow> repair_request" where
  "new_repair_request rc a rid now = \<lparr>repair_request_id = rid, request_project = rc_project rc,
     request_run = arg_run a, request_task = arg_task a, failed_binding_id = arg_failed_binding a,
     failed_attempt_id = arg_failed_attempt a, request_fingerprint = arg_fingerprint a,
     request_classification = arg_classification a, request_evidence_digest = arg_evidence_digest a,
     request_generation = arg_binding_generation a + 1, scope_envelope = arg_envelope a,
     expected_source_head = arg_head a, expected_source_tree = arg_tree a,
     request_selector = arg_selector a, request_created_at = now\<rparr>"

definition new_repair_record :: "runtime \<Rightarrow> repair_request \<Rightarrow> int \<Rightarrow> repair_record" where
  "new_repair_record rt r now =
     (let gen = request_generation r;
          bnd = ''bnd-'' @ short_digest rt (request_project r @ '':'' @ request_task r @ '':'' @ int_str gen);
          att = ''att-'' @ short_digest rt (bnd @ '':repair:'' @ int_str gen)
      in \<lparr>record_request_id = repair_request_id r, record_project = request_project r,
          record_task = request_task r, record_run = request_run r, record_binding = bnd,
          record_attempt = att, record_generation = gen,
          record_fingerprint = fingerprint_digest (request_fingerprint r),
          record_evidence = request_evidence_digest r, source_before = expected_source_head r,
          source_after = None, changed_paths = [], record_selector = request_selector r,
          record_stage = INTENT_RECORDED, retest_status = None, retest_evidence = None,
          record_created_at = now, record_updated_at = now\<rparr>)"

definition feature_entries :: "failure_fingerprint \<Rightarrow> pydict" where
  "feature_entries fp = (case semantic_features fp of PDict d \<Rightarrow> d | _ \<Rightarrow> [])"

definition create_repair_request ::
    "runtime \<Rightarrow> repair_controller \<Rightarrow> repair_db \<Rightarrow> repair_args \<Rightarrow> call_time
      \<Rightarrow> repair_db \<times> (py_error + bool \<times> repair_request option \<times> string)" where
  "create_repair_request rt rc db a ct =
     (case evaluate_failure rt (rc_ledger_project rc) (rc_policy rc) (ledger db) (arg_task a)
             (Explicit (arg_classification a)) (feature_entries (arg_fingerprint a))
             (Some (fingerprint_rule_id (arg_fingerprint a))) (Some (arg_run a)) ct of
        (l1, Inl err) \<Rightarrow> (db\<lparr>ledger := l1\<rparr>, Inl err)
      | (l1, Inr (fp, ev)) \<Rightarrow>
          (let db1 = db\<lparr>ledger := l1\<rparr>; rid = repair_request_key rt rc a in
           if \<not> allowed ev then (db1, Inr (False, None, ''budget_exhausted: '' @ reason ev))
           else case load_repair_request db1 rid of
             Some r \<Rightarrow> (db1, Inr (True, Some r, ''duplicate_repair_request_idempotent''))
           | None \<Rightarrow>
               (case consume_repair_attempt rt (rc_ledger_project rc) (rc_policy rc) (ledger db1) (arg_task a)
                       (arg_fingerprint a) ct of
                  (l2, Inl err) \<Rightarrow> (db1\<lparr>ledger := l2\<rparr>, Inl err)
                | (l2, Inr res) \<Rightarrow>
                    (let db2 = db1\<lparr>ledger := l2\<rparr>;
                         r = new_repair_request rc a rid (system_now ct) in
                     if \<not> allowed res then
                       (db2, Inr (False, None, ''budget_exhaustion_during_consumption: '' @ reason res))
                     else
                       (db2\<lparr>repair_requests := repair_requests db2 @ [r],
                            repair_records := repair_records db2 @ [new_repair_record rt r (system_now ct)]\<rparr>,
                        Inr (True, Some r, ''repair_request_created''))))))"

definition apply_repair_effect ::
    "repair_db \<Rightarrow> string \<Rightarrow> string list \<Rightarrow> string \<Rightarrow> int \<Rightarrow> repair_db \<times> bool \<times> string" where
  "apply_repair_effect db rid paths head now =
     (case load_repair_request db rid of
        None \<Rightarrow> (db, False, ''repair_request_not_found'')
      | Some r \<Rightarrow>
          (case validate_mutation (scope_envelope r) paths of
             (False, why) \<Rightarrow> (db, False, ''scope_violation: '' @ why)
           | (True, why) \<Rightarrow>
               (update_record db rid (\<lambda>q. q\<lparr>source_after := Some head, changed_paths := paths,
                  record_stage := EFFECT_APPLIED, record_updated_at := now\<rparr>),
                True, ''effect_applied_within_boundary'')))"

definition mark_ready_for_retest :: "repair_db \<Rightarrow> string \<Rightarrow> int \<Rightarrow> repair_db \<times> bool \<times> string" where
  "mark_ready_for_retest db rid now =
     (case find_record db rid of
        None \<Rightarrow> (db, False, ''repair_record_not_found'')
      | Some q \<Rightarrow>
          if record_stage q \<noteq> EFFECT_APPLIED then
            (db, False, ''cannot_transition_to_retest_from_'' @ stage_value (record_stage q))
          else
            (update_record db rid (\<lambda>q. q\<lparr>record_stage := READY_FOR_RETEST, record_updated_at := now\<rparr>),
             True, ''ready_for_retest''))"

definition new_acceptance ::
    "runtime \<Rightarrow> repair_controller \<Rightarrow> repair_request \<Rightarrow> repair_record \<Rightarrow> verifier_result \<Rightarrow> int \<Rightarrow> accepted_repair" where
  "new_acceptance rt rc r q v now = \<lparr>
     acceptance_id = ''acc-'' @ short_digest rt (rc_project rc @ '':'' @ request_task r),
     accepted_project = rc_project rc, accepted_task = request_task r, accepted_run = request_run r,
     accepted_binding = record_binding q, accepted_attempt = record_attempt q,
     result_digest = verifier_evidence v, accepted_at = now\<rparr>"

definition record_verdict ::
    "runtime \<Rightarrow> repair_controller \<Rightarrow> repair_db \<Rightarrow> repair_request \<Rightarrow> repair_record \<Rightarrow> verifier_result \<Rightarrow> int
      \<Rightarrow> repair_db \<times> bool \<times> string" where
  "record_verdict rt rc db r q v now =
     (let rid = record_request_id q; acc = new_acceptance rt rc r q v now in
      if verifier_status v = ''PASS'' then
        (if list_ex (\<lambda>x. acceptance_id x = acceptance_id acc
             \<or> accepted_project x = accepted_project acc \<and> accepted_task x = accepted_task acc) (accepted_repairs db)
         then (db, False, ''duplicate_acceptance_rejected'')
         else (update_record (db\<lparr>accepted_repairs := accepted_repairs db @ [acc]\<rparr>) rid
                 (\<lambda>x. x\<lparr>record_stage := STAGE_ACCEPTED, retest_status := Some ''PASS'',
                    retest_evidence := Some (verifier_evidence v), record_updated_at := now\<rparr>),
               True, ''accepted''))
      else (update_record db rid
              (\<lambda>x. x\<lparr>record_stage := REPAIR_FAILED, retest_status := Some ''FAIL'',
                 retest_evidence := Some (verifier_evidence v), record_updated_at := now\<rparr>),
            False, ''retest_failed''))"

definition execute_exact_retest ::
    "runtime \<Rightarrow> repair_controller \<Rightarrow> repair_db \<Rightarrow> string \<Rightarrow> (retest_selector \<Rightarrow> verifier_result) \<Rightarrow> int
      \<Rightarrow> repair_db \<times> bool \<times> string" where
  "execute_exact_retest rt rc db rid verifier now =
     (case load_repair_request db rid of
        None \<Rightarrow> (db, False, ''repair_request_not_found'')
      | Some r \<Rightarrow>
          (case find_record db rid of
             None \<Rightarrow> (db, False, ''repair_record_not_found'')
           | Some q \<Rightarrow>
               if record_stage q \<noteq> READY_FOR_RETEST then
                 (db, False, ''invalid_retest_stage: '' @ stage_value (record_stage q))
               else
                 (let sel = request_selector r; v = verifier sel in
                  if verified_target v \<noteq> selector_target sel then
                    (db, False, ''wrong_retest_target: expected '' @ selector_target sel @ '', got '' @ verified_target v)
                  else if verifier_id v \<noteq> expected_verifier_id sel then
                    (db, False, ''wrong_verifier_id: expected '' @ expected_verifier_id sel @ '', got '' @ verifier_id v)
                  else record_verdict rt rc db r q v now)))"

definition reconcile_crash_boundary :: "repair_db \<Rightarrow> string \<Rightarrow> string" where
  "reconcile_crash_boundary db rid =
     (case find_record db rid of None \<Rightarrow> ''UNKNOWN'' | Some q \<Rightarrow> stage_value (record_stage q))"

definition get_repair_history :: "repair_controller \<Rightarrow> repair_db \<Rightarrow> string \<Rightarrow> repair_record list" where
  "get_repair_history rc db t = sort_key record_generation
     (filter (\<lambda>q. record_project q = rc_project rc \<and> record_task q = t) (repair_records db))"

definition count_accepted_results :: "repair_controller \<Rightarrow> repair_db \<Rightarrow> string \<Rightarrow> nat" where
  "count_accepted_results rc db t =
     length (filter (\<lambda>x. accepted_project x = rc_project rc \<and> accepted_task x = t) (accepted_repairs db))"

section \<open>Effects of the operations\<close>

lemma update_record_others [simp]:
  "repair_requests (update_record db rid f) = repair_requests db"
  "accepted_repairs (update_record db rid f) = accepted_repairs db"
  "ledger (update_record db rid f) = ledger db"
  by (simp_all add: update_record_def)

lemma find_record_update:
  assumes "\<And>q. record_request_id (f q) = record_request_id q"
  shows "find_record (update_record db rid f) rid' =
    (if rid' = rid then map_option f (find_record db rid) else find_record db rid')"
proof -
  have "find (\<lambda>r. record_request_id r = rid') (map (\<lambda>r. if record_request_id r = rid then f r else r) rs) =
      (if rid' = rid then map_option f (find (\<lambda>r. record_request_id r = rid) rs)
       else find (\<lambda>r. record_request_id r = rid') rs)" for rs
    using assms by (induction rs) auto
  then show ?thesis by (simp add: update_record_def find_record_def)
qed

lemma create_repair_requestE:
  assumes "create_repair_request rt rc db a ct = (db', res)"
  defines "l1 \<equiv> fst (evaluate_failure rt (rc_ledger_project rc) (rc_policy rc) (ledger db) (arg_task a)
    (Explicit (arg_classification a)) (feature_entries (arg_fingerprint a))
    (Some (fingerprint_rule_id (arg_fingerprint a))) (Some (arg_run a)) ct)"
  defines "l2 \<equiv> consume_repair_attempt rt (rc_ledger_project rc) (rc_policy rc) l1 (arg_task a) (arg_fingerprint a) ct"
  obtains (evaluated) "db' = db\<lparr>ledger := l1\<rparr>"
  | (refused) "db' = db\<lparr>ledger := fst l2\<rparr>" "\<not> granted (snd l2)"
  | (created) "granted (snd l2)" "db' = db\<lparr>ledger := fst l2,
      repair_requests := repair_requests db @ [new_repair_request rc a (repair_request_key rt rc a) (system_now ct)],
      repair_records := repair_records db @ [new_repair_record rt
        (new_repair_request rc a (repair_request_key rt rc a) (system_now ct)) (system_now ct)]\<rparr>"
proof -
  obtain x where ev: "evaluate_failure rt (rc_ledger_project rc) (rc_policy rc) (ledger db) (arg_task a)
    (Explicit (arg_classification a)) (feature_entries (arg_fingerprint a))
    (Some (fingerprint_rule_id (arg_fingerprint a))) (Some (arg_run a)) ct = (l1, x)"
    unfolding l1_def by (metis prod.collapse)
  obtain b y where co: "l2 = (b, y)" by fastforce
  note run = assms(1)[unfolded create_repair_request_def ev]
  show thesis
  proof (cases x)
    case (Inl err)
    then show thesis using run evaluated by simp
  next
    case (Inr fe)
    obtain fp e where fe: "fe = (fp, e)" by fastforce
    show thesis
    proof (cases "allowed e \<and> load_repair_request (db\<lparr>ledger := l1\<rparr>) (repair_request_key rt rc a) = None")
      case False
      then have "db' = db\<lparr>ledger := l1\<rparr>"
        using run Inr fe by (auto simp: Let_def split: if_splits option.splits)
      then show thesis by (rule evaluated)
    next
      case True
      have co': "consume_repair_attempt rt (rc_ledger_project rc) (rc_policy rc) l1
          (arg_task a) (arg_fingerprint a) ct = (b, y)"
        using co by (simp add: l2_def)
      show thesis
      proof (cases "granted y")
        case False
        then show thesis using run Inr fe True co refused
          by (auto simp: co' Let_def granted_def split: sum.splits)
      next
        case g: True
        then show thesis using run Inr fe True co created
          by (auto simp: co' Let_def granted_def split: sum.splits)
      qed
    qed
  qed
qed

lemma apply_repair_effect_store:
  assumes "apply_repair_effect db rid paths head now = (db', ok, msg)"
  shows "repair_requests db' = repair_requests db" "accepted_repairs db' = accepted_repairs db" "ledger db' = ledger db"
  using assms by (auto simp: apply_repair_effect_def split: option.splits prod.splits bool.splits)

lemma mark_ready_store:
  assumes "mark_ready_for_retest db rid now = (db', ok, msg)"
  shows "repair_requests db' = repair_requests db" "accepted_repairs db' = accepted_repairs db" "ledger db' = ledger db"
  using assms by (auto simp: mark_ready_for_retest_def split: option.splits if_splits)

lemma find_record_id: "find_record db rid = Some q \<Longrightarrow> record_request_id q = rid"
  by (auto simp: find_record_def dest: find_SomeD)

lemma record_verdict_store:
  assumes "record_verdict rt rc db r q v now = (db', ok, msg)"
  shows "repair_requests db' = repair_requests db" "ledger db' = ledger db"
    "accepted_repairs db' = accepted_repairs db \<or>
       (verifier_status v = ''PASS'' \<and> ok \<and> accepted_repairs db' = accepted_repairs db @ [new_acceptance rt rc r q v now]
        \<and> \<not> list_ex (\<lambda>x. accepted_project x = rc_project rc \<and> accepted_task x = request_task r) (accepted_repairs db)
        \<and> repair_records db' = repair_records (update_record db (record_request_id q)
             (\<lambda>x. x\<lparr>record_stage := STAGE_ACCEPTED, retest_status := Some ''PASS'',
                    retest_evidence := Some (verifier_evidence v), record_updated_at := now\<rparr>)))"
  using assms
  by (auto simp: record_verdict_def Let_def new_acceptance_def list_ex_iff update_record_def split: if_splits)

lemma execute_exact_retestE:
  assumes "execute_exact_retest rt rc db rid verifier now = (db', ok, msg)"
  obtains (unchanged) "db' = db"
  | (judged) r q where "load_repair_request db rid = Some r" "find_record db rid = Some q"
      "record_stage q = READY_FOR_RETEST"
      "verified_target (verifier (request_selector r)) = selector_target (request_selector r)"
      "verifier_id (verifier (request_selector r)) = expected_verifier_id (request_selector r)"
      "record_verdict rt rc db r q (verifier (request_selector r)) now = (db', ok, msg)"
  using assms by (auto simp: execute_exact_retest_def Let_def split: option.splits if_splits)

section \<open>The machine\<close>

text \<open>Whole calls of the controller, one after another, with automatic ledger calls of other
  components of the project between them. Operators' manual overrides, which reset the counters,
  are not among the steps, and a call runs to its end before the next one begins: in the code
  \<open>create_repair_request\<close> commits after the evaluation, after the consumption and after the inserts,
  and another process may use the ledger in between.\<close>

inductive repair_step :: "runtime \<Rightarrow> repair_controller \<Rightarrow> repair_db \<Rightarrow> repair_db \<Rightarrow> bool"
  for rt :: runtime and rc :: repair_controller where
  create: "create_repair_request rt rc db a ct = (db', res) \<Longrightarrow> repair_step rt rc db db'"
| apply_effect: "apply_repair_effect db rid paths head now = (db', ok, msg) \<Longrightarrow> repair_step rt rc db db'"
| ready: "mark_ready_for_retest db rid now = (db', ok, msg) \<Longrightarrow> repair_step rt rc db db'"
| retest: "execute_exact_retest rt rc db rid verifier now = (db', ok, msg) \<Longrightarrow> repair_step rt rc db db'"
| other: "budget_step rt (rc_ledger_project rc) (rc_policy rc) (ledger db) req = (l, ok) \<Longrightarrow>
    repair_step rt rc db (db\<lparr>ledger := l\<rparr>)"

definition repair_init :: "repair_db \<Rightarrow> bool" where
  "repair_init db \<longleftrightarrow> repair_requests db = [] \<and> repair_records db = [] \<and> accepted_repairs db = []
     \<and> budget_ledgers (ledger db) = []"

definition requests_for :: "repair_db \<Rightarrow> string \<Rightarrow> nat" where
  "requests_for db t = length (filter (\<lambda>r. request_task r = t) (repair_requests db))"

definition repair_inv :: "repair_controller \<Rightarrow> repair_db \<Rightarrow> bool" where
  "repair_inv rc db \<longleftrightarrow>
     distinct (map (\<lambda>x. (accepted_project x, accepted_task x)) (accepted_repairs db))
     \<and> (\<forall>t. counters_ok (ledger db) (rc_ledger_project rc) t
          \<and> requests_for db t \<le> spent_repairs (ledger db) (rc_ledger_project rc) t
          \<and> spent_repairs (ledger db) (rc_ledger_project rc) t \<le> nat (max_total_repair_attempts (repair (rc_policy rc))))"

lemma budget_step_repairs:
  assumes "counters_ok l p t" and "budget_step rt p pol l req = (l', ok)"
    and "spent_repairs l p t \<le> nat (max_total_repair_attempts (repair pol))"
  shows "counters_ok l' p t" "spent_repairs l p t \<le> spent_repairs l' p t"
    "spent_repairs l' p t \<le> nat (max_total_repair_attempts (repair pol))"
    "ok \<Longrightarrow> fst req = t \<Longrightarrow> is_repair_op (fst (snd req)) \<Longrightarrow> spent_repairs l' p t = Suc (spent_repairs l p t)"
proof -
  let ?f = "counted_step is_repair_op rt p pol t"
  have f: "?f l req = (l', ok \<and> fst req = t \<and> is_repair_op (fst (snd req)))"
    using assms(2) by (simp add: counted_step_def)
  show "counters_ok l' p t" using repair_budget.kept[OF assms(1), of rt pol req] f by simp
  show "ok \<Longrightarrow> fst req = t \<Longrightarrow> is_repair_op (fst (snd req)) \<Longrightarrow> spent_repairs l' p t = Suc (spent_repairs l p t)"
    using repair_budget.granted[OF assms(1), of rt pol req] f by simp
  show "spent_repairs l p t \<le> spent_repairs l' p t"
    "spent_repairs l' p t \<le> nat (max_total_repair_attempts (repair pol))"
    using repair_budget.granted[OF assms(1), of rt pol req] repair_budget.refused[OF assms(1), of rt pol req] f assms(3)
    by (cases "ok \<and> fst req = t \<and> is_repair_op (fst (snd req))"; simp)+
qed

text \<open>The ledger part of the invariant, and that it survives ledger operations.\<close>

definition ledger_inv :: "repair_controller \<Rightarrow> budget_store \<Rightarrow> (string \<Rightarrow> nat) \<Rightarrow> bool" where
  "ledger_inv rc l n \<longleftrightarrow> (\<forall>t. counters_ok l (rc_ledger_project rc) t
     \<and> n t \<le> spent_repairs l (rc_ledger_project rc) t
     \<and> spent_repairs l (rc_ledger_project rc) t \<le> nat (max_total_repair_attempts (repair (rc_policy rc))))"

lemma ledger_inv_step:
  assumes "ledger_inv rc l n" and "budget_step rt (rc_ledger_project rc) (rc_policy rc) l (t, opn, ct) = (l', ok)"
  shows "ledger_inv rc l' n"
    and "ok \<Longrightarrow> is_repair_op opn \<Longrightarrow> ledger_inv rc l' (n(t := Suc (n t)))"
  using assms(1) budget_step_repairs[OF _ assms(2)] unfolding ledger_inv_def
  by (auto intro: order_trans)

lemma repair_inv_iff:
  "repair_inv rc db \<longleftrightarrow>
     distinct (map (\<lambda>x. (accepted_project x, accepted_task x)) (accepted_repairs db))
     \<and> ledger_inv rc (ledger db) (requests_for db)"
  by (simp add: repair_inv_def ledger_inv_def)

lemma requests_for_cong: "repair_requests db' = repair_requests db \<Longrightarrow> requests_for db' = requests_for db"
  by (simp add: fun_eq_iff requests_for_def)

lemma requests_for_ledger [simp]: "requests_for (db\<lparr>ledger := l\<rparr>) = requests_for db"
  by (rule requests_for_cong) simp

lemma create_inv:
  assumes "create_repair_request rt rc db a ct = (db', res)" and "ledger_inv rc (ledger db) (requests_for db)"
  shows "ledger_inv rc (ledger db') (requests_for db') \<and> accepted_repairs db' = accepted_repairs db"
proof -
  let ?p = "rc_ledger_project rc"
  let ?ev = "Evaluate (Explicit (arg_classification a)) (feature_entries (arg_fingerprint a))
    (Some (fingerprint_rule_id (arg_fingerprint a))) (Some (arg_run a))"
  let ?l1 = "fst (evaluate_failure rt ?p (rc_policy rc) (ledger db) (arg_task a)
    (Explicit (arg_classification a)) (feature_entries (arg_fingerprint a))
    (Some (fingerprint_rule_id (arg_fingerprint a))) (Some (arg_run a)) ct)"
  let ?l2 = "consume_repair_attempt rt ?p (rc_policy rc) ?l1 (arg_task a) (arg_fingerprint a) ct"
  have "budget_step rt ?p (rc_policy rc) (ledger db) (arg_task a, ?ev, ct) = (?l1, False)" by simp
  from ledger_inv_step(1)[OF assms(2) this] have i1: "ledger_inv rc ?l1 (requests_for db)" .
  have s2: "budget_step rt ?p (rc_policy rc) ?l1 (arg_task a, Consume_Repair (arg_fingerprint a), ct)
      = (fst ?l2, granted (snd ?l2))" by simp
  note i2 = ledger_inv_step[OF i1 s2]
  show ?thesis using assms(1)
  proof (cases rule: create_repair_requestE)
    case evaluated
    then show ?thesis using i1 by simp
  next
    case refused
    then show ?thesis using i2(1) by simp
  next
    case created
    have "requests_for db' = (requests_for db)(arg_task a := Suc (requests_for db (arg_task a)))"
      by (auto simp: created(2) requests_for_def new_repair_request_def)
    then show ?thesis using i2(2)[OF created(1)] by (simp add: created(2) is_repair_op_def)
  qed
qed

lemma not_accepted:
  "\<not> list_ex (\<lambda>x. accepted_project x = p \<and> accepted_task x = t) xs \<Longrightarrow>
     (p, t) \<notin> set (map (\<lambda>x. (accepted_project x, accepted_task x)) xs)"
  by (induction xs) auto

lemma verdict_distinct:
  assumes "record_verdict rt rc db r q v now = (db', ok, msg)"
    and "distinct (map (\<lambda>x. (accepted_project x, accepted_task x)) (accepted_repairs db))"
  shows "distinct (map (\<lambda>x. (accepted_project x, accepted_task x)) (accepted_repairs db'))"
  using record_verdict_store(3)[OF assms(1)] assms(2) not_accepted[of "rc_project rc" "request_task r" "accepted_repairs db"]
  by (auto simp: new_acceptance_def simp del: set_map)

interpretation repair_machine: inductive_invariant repair_init "repair_step rt rc" "repair_inv rc" for rt rc
proof
  fix db assume "repair_init db"
  then have "counters (ledger db) p t = (0, 0, [])" for p t
    by (simp add: repair_init_def counters_def load_ledger_row_def)
  with \<open>repair_init db\<close> show "repair_inv rc db"
    by (simp add: repair_inv_def repair_init_def requests_for_def spent_repairs_def counters_ok_def)
next
  fix db db' assume inv: "repair_inv rc db" and "repair_step rt rc db db'"
  from this(2) show "repair_inv rc db'"
  proof cases
    case (create a ct res)
    then show ?thesis using create_inv inv by (simp add: repair_inv_iff)
  next
    case (apply_effect rid paths head now ok msg)
    note st = apply_repair_effect_store[OF apply_effect]
    then show ?thesis using inv requests_for_cong[OF st(1)] by (simp add: repair_inv_iff)
  next
    case (ready rid now ok msg)
    note st = mark_ready_store[OF ready]
    then show ?thesis using inv requests_for_cong[OF st(1)] by (simp add: repair_inv_iff)
  next
    case (retest rid verifier now ok msg)
    then show ?thesis
    proof (cases rule: execute_exact_retestE)
      case (judged r q)
      note st = record_verdict_store[OF judged(6)]
      show ?thesis using inv st requests_for_cong[OF st(1)] verdict_distinct[OF judged(6)]
        by (simp add: repair_inv_iff)
    qed (use inv in simp)
  next
    case (other req l ok)
    obtain t opn ct where req: "req = (t, opn, ct)" by (cases req)
    then show ?thesis
      using inv ledger_inv_step(1)[of rc "ledger db" "requests_for db" rt t opn ct l ok] other
      by (simp add: repair_inv_iff)
  qed
qed

text \<open>The segments of a path.\<close>

fun segments :: "string \<Rightarrow> string list" where
  "segments [] = [[]]"
| "segments (c # cs) = (if c = CHR ''/'' then [] # segments cs
     else (case segments cs of [] \<Rightarrow> [[c]] | x # xs \<Rightarrow> (c # x) # xs))"

lemma segments_nonempty: "segments s \<noteq> []"
  by (induction s) (auto split: list.splits)

lemma starts_with_append [simp]: "starts_with p (p @ s)"
  by (simp add: starts_with_def)

lemma contains_append: "contains p t \<Longrightarrow> contains p (s @ t)"
  by (induction s) auto

lemma contains_starts: "starts_with p s \<Longrightarrow> contains p s"
  by (cases s) (auto simp: starts_with_def)

lemma contains_prefix: "contains p (p @ s)"
  by (rule contains_starts) simp

lemma segments_contains:
  assumes "x \<in> set (segments s)"
  shows "contains x s"
proof -
  have "\<exists>a b. s = a @ x @ b" "x = hd (segments s) \<Longrightarrow> \<exists>b. s = x @ b"
    using assms
  proof (induction s arbitrary: x)
    case (Cons c cs)
    {
      case 1
      then show ?case
      proof (cases "c = CHR ''/''")
        case True
        with 1 Cons(1) show ?thesis by (auto intro: exI[of _ "[]"]) (metis append_Cons)
      next
        case False
        obtain y ys where ys: "segments cs = y # ys" using segments_nonempty by (metis list.exhaust)
        then consider "x = c # y" | "x \<in> set ys" using 1 False by auto
        then show ?thesis
        proof cases
          case 1
          then show ?thesis using Cons(2)[of y] ys by (metis append_Cons append_Nil list.sel(1) list.set_intros(1))
        next
          case 2
          then show ?thesis using Cons(1)[of x] ys by (metis append_Cons list.set_intros(2))
        qed
      qed
    next
      case 2
      obtain y ys where ys: "segments cs = y # ys" using segments_nonempty by (metis list.exhaust)
      then show ?case using 2 Cons(2)[of y] by (cases "c = CHR ''/''") auto
    }
  qed simp_all
  then show ?thesis using contains_append contains_prefix by metis
qed

lemma path_violation_None:
  "path_violation env p = None \<longleftrightarrow> \<not> escapes (normalize_path p)
     \<and> (\<forall>d\<in>set (disallowed_paths env). \<not> under d (normalize_path p))
     \<and> (\<exists>a\<in>set (allowed_paths env). normalize_path a = ''*'' \<or> under a (normalize_path p))"
  by (auto simp: path_violation_def Let_def find_None_iff list_ex_iff split: option.splits)
     (auto dest: find_SomeD)

lemma first_violation_None: "first_violation env ps = None \<longleftrightarrow> (\<forall>p\<in>set ps. path_violation env p = None)"
  by (induction ps) (auto split: option.splits)

section \<open>Properties\<close>

text \<open>A mutation passes the envelope exactly when it has no more than the permitted number of
  files and each normalized path has no parent reference, is neither absolute nor drive
  qualified, lies under no disallowed path and lies under an allowed one; in particular no
  segment of a passed path is the parent directory.\<close>

lemma envelope_exact:
  "(fst (validate_mutation env ps) \<longleftrightarrow> int (length ps) \<le> max_changed_files env
     \<and> list_all (\<lambda>p. \<not> escapes (normalize_path p)
         \<and> \<not> list_ex (\<lambda>d. under d (normalize_path p)) (disallowed_paths env)
         \<and> list_ex (\<lambda>a. normalize_path a = ''*'' \<or> under a (normalize_path p)) (allowed_paths env)) ps)
   \<and> \<not> (fst (validate_mutation env ps) \<and> list_ex (\<lambda>p. ''..'' \<in> set (segments (normalize_path p))) ps)"
proof -
  have iff: "fst (validate_mutation env ps) \<longleftrightarrow> int (length ps) \<le> max_changed_files env
      \<and> (\<forall>p\<in>set ps. path_violation env p = None)"
    using first_violation_None[of env ps] by (auto simp: validate_mutation_def split: option.splits)
  have "\<not> escapes q \<Longrightarrow> ''..'' \<notin> set (segments q)" for q
    using segments_contains unfolding escapes_def by blast
  then show ?thesis
    unfolding iff path_violation_None by (auto simp: list_all_iff list_ex_iff)
qed

text \<open>C34: A repair is accepted only by its exact verifier: whenever the retest adds an accepted
  result, the record stood at READY_FOR_RETEST, the verifier's result names the bound target
  and verifier and says PASS, the task had no accepted result before, and the record's stage
  is ACCEPTED afterwards.\<close>

theorem acceptance_requires_exact_pass:
  assumes "execute_exact_retest rt rc db rid verifier now = (db', ok, msg)"
    and "accepted_repairs db' \<noteq> accepted_repairs db"
  shows "\<exists>r q. load_repair_request db rid = Some r \<and> find_record db rid = Some q
    \<and> record_stage q = READY_FOR_RETEST
    \<and> verified_target (verifier (request_selector r)) = selector_target (request_selector r)
    \<and> verifier_id (verifier (request_selector r)) = expected_verifier_id (request_selector r)
    \<and> verifier_status (verifier (request_selector r)) = ''PASS''
    \<and> count_accepted_results rc db (request_task r) = 0
    \<and> map_option record_stage (find_record db' rid) = Some STAGE_ACCEPTED"
  using assms(1)
proof (cases rule: execute_exact_retestE)
  case unchanged
  then show ?thesis using assms(2) by simp
next
  case (judged r q)
  note st = record_verdict_store(3)[OF judged(6)]
  have id: "record_request_id q = rid" using find_record_id[OF judged(2)] .
  have none: "count_accepted_results rc db (request_task r) = 0"
    using st assms(2) by (auto simp: count_accepted_results_def filter_empty_conv list_ex_iff)
  have "find_record db' rid = find_record (update_record db rid
      (\<lambda>x. x\<lparr>record_stage := STAGE_ACCEPTED, retest_status := Some ''PASS'',
         retest_evidence := Some (verifier_evidence (verifier (request_selector r))), record_updated_at := now\<rparr>)) rid"
    using st assms(2) id by (simp add: find_record_def)
  then have "map_option record_stage (find_record db' rid) = Some STAGE_ACCEPTED"
    using judged(2) by (simp add: find_record_update)
  with judged st none assms(2) show ?thesis by blast
qed

text \<open>Over calls one after another and without manual overrides, a task has at most one accepted
  result, and at most \<open>max_total_repair_attempts\<close> repair requests are created for it.\<close>

lemma repairs_bounded_and_accepted_once:
  assumes "reachable repair_init (repair_step rt rc) db"
  shows "count_accepted_results rc db t \<le> 1
    \<and> requests_for db t \<le> nat (max_total_repair_attempts (repair (rc_policy rc)))"
proof -
  have inv: "repair_inv rc db" using repair_machine.inv_reachable[OF assms] .
  have one: "distinct (map (\<lambda>x. (accepted_project x, accepted_task x)) xs) \<Longrightarrow>
      length (filter (\<lambda>x. accepted_project x = p \<and> accepted_task x = t) xs) \<le> 1" for xs p
  proof (induction xs)
    case (Cons x xs)
    then show ?case by (auto simp: filter_empty_conv image_iff)
  qed simp
  have "count_accepted_results rc db t \<le> 1"
    using inv one[of "accepted_repairs db" "rc_project rc"]
    unfolding repair_inv_def count_accepted_results_def by blast
  moreover have "requests_for db t \<le> nat (max_total_repair_attempts (repair (rc_policy rc)))"
    using inv by (auto simp: repair_inv_def intro: order_trans)
  ultimately show ?thesis ..
qed

text \<open>A controller, an empty store and a request, for the examples.\<close>

definition sample_controller :: repair_controller where
  "sample_controller = \<lparr>rc_project = ''p'', rc_ledger_project = ''p'', rc_policy = DEFAULT_FAILURE_BUDGET_POLICY\<rparr>"

definition empty_repair_db :: repair_db where
  "empty_repair_db = \<lparr>repair_requests = [], repair_records = [], accepted_repairs = [], ledger = empty_budget_store\<rparr>"

definition sample_selector :: retest_selector where
  "sample_selector = \<lparr>selector_type = ''EXACT_TEST'', selector_target = ''t1'', expected_verifier_id = ''v1'',
     selector_parameters = []\<rparr>"

definition sample_request :: "RepairStage \<Rightarrow> repair_db" where
  "sample_request st =
     (let env = \<lparr>allowed_paths = [''src''], disallowed_paths = [], max_changed_files = 10\<rparr>;
          fp = \<lparr>fingerprint_version = ''1.0.0'', fingerprint_digest = ''fp1:a'', fingerprint_class = PROJECT_REPAIRABLE,
                fingerprint_rule_id = ''RULE_PERSISTED'', semantic_features = PDict []\<rparr>;
          r = \<lparr>repair_request_id = ''rep-1'', request_project = ''p'', request_run = ''r1'', request_task = ''T'',
               failed_binding_id = ''b0'', failed_attempt_id = None, request_fingerprint = fp,
               request_classification = PROJECT_REPAIRABLE, request_evidence_digest = ''e'',
               request_generation = 2, scope_envelope = env, expected_source_head = ''h0'',
               expected_source_tree = ''t0'', request_selector = sample_selector, request_created_at = 0\<rparr>
      in empty_repair_db\<lparr>repair_requests := [r],
           repair_records := [(new_repair_record sample_runtime r 0)\<lparr>record_stage := st\<rparr>]\<rparr>)"

text \<open>C34 applied to a repair that its verifier passes.\<close>

theorem acceptance_requires_exact_pass_witness:
  "\<exists>db' ok msg. execute_exact_retest sample_runtime sample_controller (sample_request READY_FOR_RETEST) ''rep-1''
       (\<lambda>s. \<lparr>verifier_id = ''v1'', verified_target = ''t1'', verifier_status = ''PASS'', verifier_evidence = ''d'',
             verifier_diagnostic = []\<rparr>) 5 = (db', ok, msg)
     \<and> map_option record_stage (find_record db' ''rep-1'') = Some STAGE_ACCEPTED"
proof -
  let ?v = "\<lambda>s. \<lparr>verifier_id = ''v1'', verified_target = ''t1'', verifier_status = ''PASS'', verifier_evidence = ''d'',
             verifier_diagnostic = []\<rparr>"
  obtain db' ok msg where e: "execute_exact_retest sample_runtime sample_controller (sample_request READY_FOR_RETEST)
      ''rep-1'' ?v 5 = (db', ok, msg)" and a: "accepted_repairs db' \<noteq> accepted_repairs (sample_request READY_FOR_RETEST)"
    by (simp add: execute_exact_retest_def sample_request_def empty_repair_db_def load_repair_request_def
        find_record_def new_repair_record_def sample_selector_def record_verdict_def Let_def)
  from acceptance_requires_exact_pass[OF e a] e show ?thesis by blast
qed

text \<open>The stage is not guarded when an effect is applied: for every request with a record, whatever
  its stage, accepted and failed included, a mutation within the envelope sets it back to
  EFFECT_APPLIED, from which it can be retested again without any further budget.\<close>

lemma effect_reopens_finished_repair:
  assumes "load_repair_request db rid = Some r" and "find_record db rid = Some q"
    and "fst (validate_mutation (scope_envelope r) paths)"
  shows "\<exists>db1 db2 msg. apply_repair_effect db rid paths head now = (db1, True, msg)
    \<and> mark_ready_for_retest db1 rid now' = (db2, True, ''ready_for_retest'')
    \<and> map_option record_stage (find_record db2 rid) = Some READY_FOR_RETEST
    \<and> ledger db2 = ledger db"
proof -
  let ?f = "\<lambda>q. q\<lparr>source_after := Some head, changed_paths := paths, record_stage := EFFECT_APPLIED, record_updated_at := now\<rparr>"
  let ?g = "\<lambda>q. q\<lparr>record_stage := READY_FOR_RETEST, record_updated_at := now'\<rparr>"
  have a: "apply_repair_effect db rid paths head now = (update_record db rid ?f, True, ''effect_applied_within_boundary'')"
    using assms(1,3) by (auto simp: apply_repair_effect_def split: prod.splits bool.splits)
  have f: "find_record (update_record db rid ?f) rid = Some (?f q)"
    using assms(2) by (simp add: find_record_update)
  have m: "mark_ready_for_retest (update_record db rid ?f) rid now'
      = (update_record (update_record db rid ?f) rid ?g, True, ''ready_for_retest'')"
    by (simp add: mark_ready_for_retest_def f)
  have g: "find_record (update_record (update_record db rid ?f) rid ?g) rid = Some (?g (?f q))"
    using assms(2) by (simp add: find_record_update)
  have "map_option record_stage (find_record (update_record (update_record db rid ?f) rid ?g) rid)
      = Some READY_FOR_RETEST"
    unfolding g by simp
  moreover have "ledger (update_record (update_record db rid ?f) rid ?g) = ledger db"
    by (simp add: update_record_def)
  ultimately show ?thesis using a m by blast
qed

end
