(* ===== verification/Transient_Recovery.thy ===== *)
theory Transient_Recovery
  imports Failure_Budget
begin

text \<open>
  Bounded recovery from transient infrastructure failures,
  \<^verbatim>\<open>src/bdb_vnext/transient_recovery.py\<close>: scheduling a retry under the policy's backoff and
  executing it at most once, on the table \<open>transient_retry_records\<close>, the measured counters of
  the controller object and the shared budget ledger. The operation that is retried is code of
  the caller: its outcome is an argument.
\<close>

section \<open>Operations, requests, tables\<close>

record transient_operation =
  operation_id :: string
  op_task :: string
  operation_type :: string
  is_idempotent :: bool
  idempotency_key :: "string option"
  op_parameters :: pydict

datatype RetryStatus =
    SCHEDULED
  | EXECUTING
  | SUCCEEDED
  | RETRY_FAILED
  | RETRY_EXHAUSTED

record transient_retry_request =
  retry_request_id :: string
  retry_project :: string
  retry_run :: string
  retry_task :: string
  retry_operation :: string
  retry_key :: "string option"
  retry_fingerprint :: failure_fingerprint
  retry_evidence_digest :: string
  retry_generation :: int
  scheduled_at :: int
  eligible_at :: int
  delay_seconds :: rat
  retry_status :: RetryStatus

text \<open>A row of the table; it keeps the digest of the fingerprint only.\<close>

record transient_retry_record =
  row_id :: string
  row_project :: string
  row_run :: string
  row_task :: string
  row_operation :: string
  row_key :: "string option"
  row_fingerprint_digest :: string
  row_evidence_digest :: string
  row_generation :: int
  row_delay :: rat
  row_scheduled_at :: int
  row_eligible_at :: int
  row_status :: RetryStatus
  execution_count :: int
  result_digest :: "string option"
  row_created_at :: int
  row_updated_at :: int

record transient_controller =
  tc_project :: string
  tc_ledger_project :: string
  tc_policy :: failure_budget_policy

text \<open>The database and the counters the controller keeps in memory.\<close>

record transient_state =
  retry_records :: "transient_retry_record list"
  retry_ledger :: budget_store
  scheduled_retries :: nat
  executed_retries :: nat
  suppressed_duplicates :: nat
  budget_rejections :: nat
  exhaustion_pause_count :: nat

text \<open>Seconds since the epoch as \<open>fromtimestamp\<close> reads them, in microseconds.\<close>

definition from_timestamp :: "rat \<Rightarrow> int" where
  "from_timestamp x = round_half_even (x * 1000000)"

definition to_timestamp :: "int \<Rightarrow> rat" where
  "to_timestamp us = of_int us / 1000000"

definition find_retry :: "transient_state \<Rightarrow> string \<Rightarrow> transient_retry_record option" where
  "find_retry s rid = find (\<lambda>r. row_id r = rid) (retry_records s)"

definition update_retry ::
    "transient_state \<Rightarrow> string \<Rightarrow> (transient_retry_record \<Rightarrow> transient_retry_record) \<Rightarrow> transient_state" where
  "update_retry s rid f = s\<lparr>retry_records := map (\<lambda>r. if row_id r = rid then f r else r) (retry_records s)\<rparr>"

text \<open>\<open>_load_retry_request\<close> rebuilds a request from its row.\<close>

definition request_of_row :: "transient_retry_record \<Rightarrow> transient_retry_request" where
  "request_of_row r = \<lparr>retry_request_id = row_id r, retry_project = row_project r, retry_run = row_run r,
     retry_task = row_task r, retry_operation = row_operation r, retry_key = row_key r,
     retry_fingerprint = \<lparr>fingerprint_version = ''1.0.0'', fingerprint_digest = row_fingerprint_digest r,
       fingerprint_class = TRANSIENT_INFRASTRUCTURE, fingerprint_rule_id = ''RULE_TRANSIENT'',
       semantic_features = PDict []\<rparr>,
     retry_evidence_digest = row_evidence_digest r, retry_generation = row_generation r,
     scheduled_at = row_scheduled_at r, eligible_at = row_eligible_at r, delay_seconds = row_delay r,
     retry_status = row_status r\<rparr>"

definition load_retry_request :: "transient_state \<Rightarrow> string \<Rightarrow> transient_retry_request option" where
  "load_retry_request s rid = map_option request_of_row (find_retry s rid)"

definition reconcile_crash_during_backoff :: "transient_state \<Rightarrow> string \<Rightarrow> transient_retry_request option" where
  "reconcile_crash_during_backoff s rid = load_retry_request s rid"

section \<open>Scheduling\<close>

definition retry_request_key ::
    "runtime \<Rightarrow> transient_controller \<Rightarrow> string \<Rightarrow> transient_operation \<Rightarrow> int \<Rightarrow> string \<Rightarrow> string" where
  "retry_request_key rt tc run op gen digest = ''ret-'' @ take 16 (hexdigest (sha256 rt
     (tc_project tc @ '':'' @ run @ '':'' @ op_task op @ '':'' @ operation_id op @ '':'' @ int_str gen
      @ '':'' @ digest)))"

text \<open>The backoff before attempt \<open>made + 1\<close>: the scheduled base delay with its deterministic jitter.\<close>

definition retry_delay :: "runtime \<Rightarrow> transient_retry_policy \<Rightarrow> ledger_row \<Rightarrow> py_error + rat" where
  "retry_delay rt pol l =
     (let made = transient_retry_count l; sched = initial_schedule_seconds pol in
      case py_index sched (min made (int (length sched) - 1)) of
        Inl err \<Rightarrow> Inl err
      | Inr base \<Rightarrow> Inr (compute_deterministic_jitter rt (jitter_seed l) (repair_generation l) (made + 1)
          base (jitter_factor pol)))"

definition new_retry_request ::
    "transient_controller \<Rightarrow> string \<Rightarrow> transient_operation \<Rightarrow> failure_fingerprint \<Rightarrow> string \<Rightarrow> string
      \<Rightarrow> int \<Rightarrow> rat \<Rightarrow> rat \<Rightarrow> transient_retry_request" where
  "new_retry_request tc run op fp digest rid gen now delay = \<lparr>
     retry_request_id = rid, retry_project = tc_project tc, retry_run = run, retry_task = op_task op,
     retry_operation = operation_id op, retry_key = idempotency_key op, retry_fingerprint = fp,
     retry_evidence_digest = digest, retry_generation = gen, scheduled_at = from_timestamp now,
     eligible_at = from_timestamp (now + delay), delay_seconds = delay, retry_status = SCHEDULED\<rparr>"

definition new_retry_row :: "transient_retry_request \<Rightarrow> int \<Rightarrow> transient_retry_record" where
  "new_retry_row q now = \<lparr>row_id = retry_request_id q, row_project = retry_project q, row_run = retry_run q,
     row_task = retry_task q, row_operation = retry_operation q, row_key = retry_key q,
     row_fingerprint_digest = fingerprint_digest (retry_fingerprint q),
     row_evidence_digest = retry_evidence_digest q, row_generation = retry_generation q,
     row_delay = delay_seconds q, row_scheduled_at = scheduled_at q, row_eligible_at = eligible_at q,
     row_status = retry_status q, execution_count = 0, result_digest = None,
     row_created_at = now, row_updated_at = now\<rparr>"

definition schedule_retry ::
    "runtime \<Rightarrow> transient_controller \<Rightarrow> transient_state \<Rightarrow> string \<Rightarrow> transient_operation \<Rightarrow> FailureClass \<Rightarrow> pydict
      \<Rightarrow> call_time \<Rightarrow> transient_state \<times> (py_error + bool \<times> transient_retry_request option \<times> string)" where
  "schedule_retry rt tc s run op fc e ct =
     (let now = now_ts ct in
      if fc = CI_WAITING then (s, Inr (False, None, ''ci_waiting_cannot_schedule_transient_retry''))
      else if fc \<noteq> TRANSIENT_INFRASTRUCTURE then
        (s, Inr (False, None, ''ineligible_failure_class_'' @ failure_class_value fc))
      else if \<not> is_idempotent op \<and> \<not> opt_true (idempotency_key op) then
        (s, Inr (False, None, ''non_idempotent_operation_cannot_retry''))
      else case compute_failure_fingerprint rt (Explicit fc) e None of
        Inl err \<Rightarrow> (s, Inl err)
      | Inr fp \<Rightarrow>
          (case get_or_create_ledger rt (tc_ledger_project tc) (retry_ledger s) (op_task op) (Some run) 42
                  (system_now ct) of
             (l, Inl err) \<Rightarrow> (s\<lparr>retry_ledger := l\<rparr>, Inl err)
           | (l, Inr row) \<Rightarrow>
               (let s1 = s\<lparr>retry_ledger := l\<rparr>; made = transient_retry_count row;
                    rid = retry_request_key rt tc run op (made + 1) (fingerprint_digest fp) in
                if made \<ge> max_attempts (transient (tc_policy tc)) then
                  (s1\<lparr>budget_rejections := Suc (budget_rejections s1),
                      exhaustion_pause_count := Suc (exhaustion_pause_count s1)\<rparr>,
                   Inr (False, None, ''budget_exhausted_transient_retry_limit_reached''))
                else case retry_delay rt (transient (tc_policy tc)) row of
                  Inl err \<Rightarrow> (s1, Inl err)
                | Inr delay \<Rightarrow>
                    (if find_retry s1 rid \<noteq> None then
                       (s1\<lparr>suppressed_duplicates := Suc (suppressed_duplicates s1)\<rparr>,
                        Inr (True, load_retry_request s1 rid, ''duplicate_retry_request_suppressed''))
                     else
                       (let q = new_retry_request tc run op fp (compute_evidence_digest rt e) rid (made + 1) now delay in
                        (s1\<lparr>retry_records := retry_records s1 @ [new_retry_row q (from_timestamp now)],
                            scheduled_retries := Suc (scheduled_retries s1)\<rparr>,
                         Inr (True, Some q, ''retry_scheduled'')))))))"

section \<open>Execution\<close>

text \<open>What the retried operation does: it returns a value or raises with a message.\<close>

datatype operation_outcome = Returns pyval | Raises string

definition record_outcome ::
    "transient_state \<Rightarrow> string \<Rightarrow> operation_outcome \<Rightarrow> int \<Rightarrow> transient_state \<times> bool \<times> pyval option \<times> string" where
  "record_outcome s rid out now = (case out of
     Returns v \<Rightarrow> (update_retry s rid (\<lambda>r. r\<lparr>row_status := SUCCEEDED, execution_count := execution_count r + 1,
         result_digest := Some ''sha256:success'', row_updated_at := now\<rparr>), True, Some v, ''retry_succeeded'')
   | Raises msg \<Rightarrow> (update_retry s rid (\<lambda>r. r\<lparr>row_status := RETRY_FAILED, execution_count := execution_count r + 1,
         row_updated_at := now\<rparr>), False, None, ''retry_failed: '' @ msg))"

definition execute_retry ::
    "runtime \<Rightarrow> transient_controller \<Rightarrow> transient_state \<Rightarrow> string \<Rightarrow> operation_outcome \<Rightarrow> call_time
      \<Rightarrow> transient_state \<times> (py_error + bool \<times> pyval option \<times> string)" where
  "execute_retry rt tc s rid out ct =
     (case find_retry s rid of
        None \<Rightarrow> (s, Inr (False, None, ''retry_request_not_found''))
      | Some r \<Rightarrow>
          (let now = now_ts ct; due = to_timestamp (row_eligible_at r) in
           if row_status r = SUCCEEDED \<or> execution_count r > 0 then
             (s\<lparr>suppressed_duplicates := Suc (suppressed_duplicates s)\<rparr>,
              Inr (False, None, ''duplicate_retry_execution_suppressed''))
           else if now < due then
             (s, Inr (False, None, ''retry_not_eligible_yet ('' @ fixed1 (due - now) @ ''s remaining)''))
           else case consume_transient_retry rt (tc_ledger_project tc) (tc_policy tc) (retry_ledger s) (row_task r)
                       (ct\<lparr>current_time := Some now\<rparr>) of
             (l, Inl err) \<Rightarrow> (s\<lparr>retry_ledger := l\<rparr>, Inl err)
           | (l, Inr ev) \<Rightarrow>
               (let s1 = s\<lparr>retry_ledger := l\<rparr> in
                if \<not> allowed ev then
                  (update_retry (s1\<lparr>budget_rejections := Suc (budget_rejections s1),
                       exhaustion_pause_count := Suc (exhaustion_pause_count s1)\<rparr>) rid
                     (\<lambda>q. q\<lparr>row_status := RETRY_EXHAUSTED, row_updated_at := system_now ct\<rparr>),
                   Inr (False, None, ''transient_budget_exhausted: '' @ reason ev))
                else
                  (let (s2, res) = record_outcome (s1\<lparr>executed_retries := Suc (executed_retries s1)\<rparr>) rid out
                         (system_now ct)
                   in (s2, Inr res)))))"

section \<open>Effects of the operations\<close>

text \<open>How many times operations of a task have been run for a retry.\<close>

definition executions :: "transient_retry_record list \<Rightarrow> string \<Rightarrow> int" where
  "executions rs t = sum_list (map execution_count (filter (\<lambda>r. row_task r = t) rs))"

lemma executions_simps [simp]:
  "executions [] t = 0"
  "executions (r # rs) t = (if row_task r = t then execution_count r else 0) + executions rs t"
  "executions (rs @ rs') t = executions rs t + executions rs' t"
  by (simp_all add: executions_def)

lemma executions_update:
  assumes "distinct (map row_id rs)" and "find (\<lambda>r. row_id r = rid) rs = Some r"
    and "\<And>q. row_task (f q) = row_task q"
  shows "executions (map (\<lambda>q. if row_id q = rid then f q else q) rs) t
    = executions rs t + (if row_task r = t then execution_count (f r) - execution_count r else 0)"
  using assms(1,2)
proof (induction rs)
  case (Cons q rs)
  show ?case
  proof (cases "row_id q = rid")
    case True
    then have "map (\<lambda>q. if row_id q = rid then f q else q) rs = rs"
      using Cons.prems(1) by (intro map_idI) (fastforce simp: image_iff)
    with True Cons.prems(2) show ?thesis by (simp add: assms(3))
  next
    case False
    with Cons show ?thesis by simp
  qed
qed simp

lemma find_retry_state [simp]:
  "find_retry (s\<lparr>retry_ledger := l\<rparr>) = find_retry s"
  "find_retry (s\<lparr>suppressed_duplicates := n\<rparr>) = find_retry s"
  by (simp_all add: fun_eq_iff find_retry_def)

lemma update_retry_simps [simp]:
  "retry_ledger (update_retry s rid f) = retry_ledger s"
  "retry_records (update_retry s rid f) = map (\<lambda>r. if row_id r = rid then f r else r) (retry_records s)"
  "executed_retries (update_retry s rid f) = executed_retries s"
  by (simp_all add: update_retry_def)

lemma schedule_retryE:
  assumes "schedule_retry rt tc s run op fc e ct = (s', res)"
  obtains (kept) "retry_records s' = retry_records s" "executed_retries s' = executed_retries s"
      "retry_ledger s' = retry_ledger s \<or> retry_ledger s' = fst (get_or_create_ledger rt (tc_ledger_project tc)
         (retry_ledger s) (op_task op) (Some run) 42 (system_now ct))"
  | (added) fp row delay q where "fc = TRANSIENT_INFRASTRUCTURE" "is_idempotent op \<or> opt_true (idempotency_key op)"
      "get_or_create_ledger rt (tc_ledger_project tc) (retry_ledger s) (op_task op) (Some run) 42 (system_now ct)
         = (retry_ledger s', Inr row)"
      "transient_retry_count row < max_attempts (transient (tc_policy tc))"
      "retry_delay rt (transient (tc_policy tc)) row = Inr delay"
      "q = new_retry_request tc run op fp (compute_evidence_digest rt e)
         (retry_request_key rt tc run op (transient_retry_count row + 1) (fingerprint_digest fp))
         (transient_retry_count row + 1) (now_ts ct) delay"
      "find_retry s (retry_request_id q) = None" "executed_retries s' = executed_retries s"
      "retry_records s' = retry_records s @ [new_retry_row q (from_timestamp (now_ts ct))]"
      "res = Inr (True, Some q, ''retry_scheduled'')"
proof (cases "fc = CI_WAITING \<or> fc \<noteq> TRANSIENT_INFRASTRUCTURE
    \<or> (\<not> is_idempotent op \<and> \<not> opt_true (idempotency_key op))")
  case True
  then show thesis using assms by (intro kept) (auto simp: schedule_retry_def Let_def split: if_splits)
next
  case ok: False
  obtain fp where fp: "compute_failure_fingerprint rt (Explicit fc) e None = Inr fp"
    by (simp add: compute_failure_fingerprint_def Let_def)
  obtain l x where g: "get_or_create_ledger rt (tc_ledger_project tc) (retry_ledger s) (op_task op) (Some run) 42
      (system_now ct) = (l, x)" by fastforce
  note step = assms[unfolded schedule_retry_def Let_def fp g]
  show thesis
  proof (cases x)
    case (Inl err)
    with step ok g show thesis by (intro kept) auto
  next
    case (Inr row)
    show thesis
    proof (cases "transient_retry_count row \<ge> max_attempts (transient (tc_policy tc))
        \<or> (\<exists>err. retry_delay rt (transient (tc_policy tc)) row = Inl err)
        \<or> find_retry s (retry_request_key rt tc run op (transient_retry_count row + 1) (fingerprint_digest fp)) \<noteq> None")
      case True
      with step ok g Inr show thesis by (intro kept) (auto split: if_splits sum.splits)
    next
      case False
      then obtain delay where d: "retry_delay rt (transient (tc_policy tc)) row = Inr delay"
        by (cases "retry_delay rt (transient (tc_policy tc)) row") auto
      show thesis
        by (rule added[of row delay _ fp]) (insert step ok g Inr False d,
          auto simp: new_retry_request_def)
    qed
  qed
qed

lemma record_outcome_store:
  assumes "record_outcome s rid out now = (s', res)"
  shows "\<exists>f. retry_records s' = map (\<lambda>r. if row_id r = rid then f r else r) (retry_records s)
      \<and> (\<forall>q. row_id (f q) = row_id q \<and> row_task (f q) = row_task q \<and> row_eligible_at (f q) = row_eligible_at q
           \<and> execution_count (f q) = execution_count q + 1)"
    "retry_ledger s' = retry_ledger s" "executed_retries s' = executed_retries s"
  using assms
  by (cases out; fastforce simp: record_outcome_def)+

lemma execute_retryE:
  assumes "execute_retry rt tc s rid out ct = (s', res)"
  obtains (kept) f where "retry_records s' = map (\<lambda>r. if row_id r = rid then f r else r) (retry_records s)"
      "\<And>q. row_id (f q) = row_id q \<and> row_task (f q) = row_task q \<and> execution_count (f q) = execution_count q"
      "executed_retries s' = executed_retries s"
      "retry_ledger s' = retry_ledger s \<or> (\<exists>t ct' res. consume_transient_retry rt (tc_ledger_project tc) (tc_policy tc)
          (retry_ledger s) t ct' = (retry_ledger s', res) \<and> \<not> granted res)"
  | (ran) r ev f where "find_retry s rid = Some r" "row_status r \<noteq> SUCCEEDED" "execution_count r \<le> 0"
      "to_timestamp (row_eligible_at r) \<le> now_ts ct"
      "consume_transient_retry rt (tc_ledger_project tc) (tc_policy tc) (retry_ledger s) (row_task r)
         (ct\<lparr>current_time := Some (now_ts ct)\<rparr>) = (retry_ledger s', Inr ev)" "allowed ev"
      "retry_records s' = map (\<lambda>r. if row_id r = rid then f r else r) (retry_records s)"
      "\<And>q. row_id (f q) = row_id q \<and> row_task (f q) = row_task q \<and> execution_count (f q) = execution_count q + 1"
      "executed_retries s' = Suc (executed_retries s)"
proof (cases "find_retry s rid")
  case None
  then show thesis using assms by (intro kept[of "\<lambda>q. q"]) (auto simp: execute_retry_def)
next
  case (Some r)
  let ?cons = "consume_transient_retry rt (tc_ledger_project tc) (tc_policy tc) (retry_ledger s) (row_task r)
      (ct\<lparr>current_time := Some (now_ts ct)\<rparr>)"
  note step = assms[unfolded execute_retry_def Let_def Some, simplified]
  show thesis
  proof (cases "row_status r = SUCCEEDED \<or> execution_count r > 0 \<or> now_ts ct < to_timestamp (row_eligible_at r)")
    case True
    then show thesis using step by (intro kept[of "\<lambda>q. q"]) (auto split: if_splits)
  next
    case guards: False
    obtain l x where c: "?cons = (l, x)" by fastforce
    then have refused: "\<not> granted x \<Longrightarrow> \<exists>t ct' res. consume_transient_retry rt (tc_ledger_project tc) (tc_policy tc)
        (retry_ledger s) t ct' = (l, res) \<and> \<not> granted res" by blast
    show thesis
    proof (cases x)
      case (Inl err)
      have e: "s' = s\<lparr>retry_ledger := l\<rparr>" using step guards c Inl by simp
      have "\<not> granted x" using Inl by (simp add: granted_def)
      from refused[OF this] show thesis by (intro kept[of "\<lambda>q. q"]) (simp_all add: e)
    next
      case (Inr ev)
      show thesis
      proof (cases "allowed ev")
        case False
        let ?f = "\<lambda>q. q\<lparr>row_status := RETRY_EXHAUSTED, row_updated_at := system_now ct\<rparr>"
        have e: "s' = update_retry (s\<lparr>retry_ledger := l, budget_rejections := Suc (budget_rejections s),
            exhaustion_pause_count := Suc (exhaustion_pause_count s)\<rparr>) rid ?f"
          using step guards c Inr False by simp
        have "\<not> granted x" using Inr False by (simp add: granted_def)
        from refused[OF this] show thesis by (intro kept[of ?f]) (simp_all add: e)
      next
        case True
        let ?s1 = "s\<lparr>retry_ledger := l, executed_retries := Suc (executed_retries s)\<rparr>"
        obtain s2 y where o: "record_outcome ?s1 rid out (system_now ct) = (s2, y)"
          by (cases "record_outcome ?s1 rid out (system_now ct)")
        from record_outcome_store[OF o] obtain f where
          "retry_records s2 = map (\<lambda>r. if row_id r = rid then f r else r) (retry_records s)"
          "\<And>q. row_id (f q) = row_id q \<and> row_task (f q) = row_task q \<and> execution_count (f q) = execution_count q + 1"
          "retry_ledger s2 = l" "executed_retries s2 = Suc (executed_retries s)" by auto
        moreover have "s' = s2" using step guards c Inr True o by simp
        ultimately show thesis using guards c Inr True by (intro ran[OF Some]) auto
      qed
    qed
  qed
qed

section \<open>The machine\<close>

text \<open>Any interleaving of the controller's operations with automatic ledger operations of other
  components of the project.\<close>

inductive transient_step :: "runtime \<Rightarrow> transient_controller \<Rightarrow> transient_state \<Rightarrow> transient_state \<Rightarrow> bool"
  for rt :: runtime and tc :: transient_controller where
  schedule: "schedule_retry rt tc s run op fc e ct = (s', res) \<Longrightarrow> transient_step rt tc s s'"
| execute: "execute_retry rt tc s rid out ct = (s', res) \<Longrightarrow> transient_step rt tc s s'"
| other: "budget_step rt (tc_ledger_project tc) (tc_policy tc) (retry_ledger s) req = (l, ok) \<Longrightarrow>
    transient_step rt tc s (s\<lparr>retry_ledger := l\<rparr>)"

definition transient_init :: "transient_state \<Rightarrow> bool" where
  "transient_init s \<longleftrightarrow> retry_records s = [] \<and> budget_ledgers (retry_ledger s) = []"

text \<open>The ledger covers a number of executions per task, and never exceeds its cap.\<close>

definition covers :: "transient_controller \<Rightarrow> budget_store \<Rightarrow> (string \<Rightarrow> int) \<Rightarrow> bool" where
  "covers tc l n \<longleftrightarrow> (\<forall>t. counters_ok l (tc_ledger_project tc) t
     \<and> n t \<le> int (spent_transient l (tc_ledger_project tc) t)
     \<and> spent_transient l (tc_ledger_project tc) t \<le> nat (max_attempts (transient (tc_policy tc))))"

definition transient_inv :: "transient_controller \<Rightarrow> transient_state \<Rightarrow> bool" where
  "transient_inv tc s \<longleftrightarrow> distinct (map row_id (retry_records s))
     \<and> (\<forall>r\<in>set (retry_records s). 0 \<le> execution_count r \<and> execution_count r \<le> 1)
     \<and> covers tc (retry_ledger s) (executions (retry_records s))"

lemma covers_counters:
  "(\<And>t. counters l' (tc_ledger_project tc) t = counters l (tc_ledger_project tc) t) \<Longrightarrow>
     covers tc l' n \<longleftrightarrow> covers tc l n"
  by (simp add: covers_def counters_ok_def spent_transient_def)

lemma covers_step:
  assumes "covers tc l n" and "budget_step rt (tc_ledger_project tc) (tc_policy tc) l (t, opn, ct) = (l', ok)"
  shows "covers tc l' n"
    and "ok \<Longrightarrow> opn = Consume_Transient \<Longrightarrow> covers tc l' (n(t := n t + 1))"
proof -
  let ?p = "tc_ledger_project tc" and ?cap = "nat (max_attempts (transient (tc_policy tc)))"
  have per: "counters_ok l' ?p u \<and> spent_transient l' ?p u \<le> ?cap
      \<and> (if ok \<and> t = u \<and> opn = Consume_Transient then spent_transient l' ?p u = Suc (spent_transient l ?p u)
         else spent_transient l' ?p u = spent_transient l ?p u)" for u
  proof -
    let ?f = "counted_step is_transient_op rt ?p (tc_policy tc) u"
    have f: "?f l (t, opn, ct) = (l', ok \<and> t = u \<and> opn = Consume_Transient)"
      using assms(2) by (simp add: counted_step_def is_transient_op_def)
    have c: "counters_ok l ?p u" "spent_transient l ?p u \<le> ?cap" using assms(1) by (simp_all add: covers_def)
    show ?thesis
      using transient_budget.kept[OF c(1), of rt "tc_policy tc" "(t, opn, ct)"]
        transient_budget.granted[OF c(1), of rt "tc_policy tc" "(t, opn, ct)"]
        transient_budget.refused[OF c(1), of rt "tc_policy tc" "(t, opn, ct)"] c(2) f
      by (cases "ok \<and> t = u \<and> opn = Consume_Transient") simp_all
  qed
  have old: "n u \<le> int (spent_transient l ?p u)" for u using assms(1) by (simp add: covers_def)
  have "n u \<le> int (spent_transient l' ?p u)" for u
    using per[of u] old[of u] by (simp split: if_splits)
  with per show "covers tc l' n" unfolding covers_def by blast
  assume "ok" "opn = Consume_Transient"
  then have "(n(t := n t + 1)) u \<le> int (spent_transient l' ?p u)" for u
    using per[of u] old[of u] by (simp split: if_splits)
  with per show "covers tc l' (n(t := n t + 1))" unfolding covers_def by blast
qed

lemma covers_consume:
  assumes "covers tc l n"
    and "consume_transient_retry rt (tc_ledger_project tc) (tc_policy tc) l t ct = (l', res)"
  shows "covers tc l' n" and "granted res \<Longrightarrow> covers tc l' (n(t := n t + 1))"
proof -
  have b: "budget_step rt (tc_ledger_project tc) (tc_policy tc) l (t, Consume_Transient, ct) = (l', granted res)"
    using assms(2) by simp
  show "covers tc l' n" by (rule covers_step(1)[OF assms(1) b])
  show "granted res \<Longrightarrow> covers tc l' (n(t := n t + 1))" using covers_step(2)[OF assms(1) b] by blast
qed

lemma covers_get_or_create:
  assumes "covers tc l n"
  shows "covers tc (fst (get_or_create_ledger rt (tc_ledger_project tc) l t run seed now)) n"
proof -
  obtain l' x where g: "get_or_create_ledger rt (tc_ledger_project tc) l t run seed now = (l', x)" by fastforce
  show ?thesis
  proof (cases x)
    case (Inl err)
    then show ?thesis using get_or_create_error g assms by fastforce
  next
    case (Inr r)
    then have "covers tc l' n \<longleftrightarrow> covers tc l n"
      by (intro covers_counters) (use counters_get_or_create(1) g in auto)
    then show ?thesis using g assms by simp
  qed
qed

lemma map_same_id: "(\<And>q. row_id (f q) = row_id q) \<Longrightarrow>
    map row_id (map (\<lambda>r. if row_id r = rid then f r else r) rs) = map row_id rs"
  by auto

lemma executions_kept:
  "(\<And>q. row_task (f q) = row_task q \<and> execution_count (f q) = execution_count q) \<Longrightarrow>
     executions (map (\<lambda>r. if row_id r = rid then f r else r) rs) = executions rs"
proof (rule ext)
  fix t assume "\<And>q. row_task (f q) = row_task q \<and> execution_count (f q) = execution_count q"
  then show "executions (map (\<lambda>r. if row_id r = rid then f r else r) rs) t = executions rs t"
    by (induction rs) auto
qed

lemma schedule_inv:
  assumes "schedule_retry rt tc s run op fc e ct = (s', res)" and "transient_inv tc s"
  shows "transient_inv tc s'"
  using assms(1)
proof (cases rule: schedule_retryE)
  case kept
  then show ?thesis using assms(2) covers_get_or_create by (auto simp: transient_inv_def)
next
  case (added fp row delay q)
  have new: "row_id (new_retry_row q n) = retry_request_id q" "execution_count (new_retry_row q n) = 0" for n
    by (simp_all add: new_retry_row_def)
  have "retry_request_id q \<notin> set (map row_id (retry_records s))"
    using added(7) by (auto simp: find_retry_def find_None_iff)
  moreover have "covers tc (retry_ledger s') (executions (retry_records s))"
    using assms(2) covers_get_or_create[of tc "retry_ledger s" "executions (retry_records s)" rt "op_task op"
        "Some run" 42 "system_now ct"] added(3) by (simp add: transient_inv_def)
  moreover have "executions (retry_records s') = executions (retry_records s)"
    by (rule ext) (simp add: added(9) new)
  ultimately show ?thesis using assms(2) by (auto simp: transient_inv_def added(9) new)
qed

lemma execute_inv:
  assumes "execute_retry rt tc s rid out ct = (s', res)" and "transient_inv tc s"
  shows "transient_inv tc s'"
  using assms(1)
proof (cases rule: execute_retryE)
  case (kept f)
  have "executions (retry_records s') = executions (retry_records s)"
    unfolding kept(1) using kept(2) by (intro executions_kept) blast
  moreover have "map row_id (retry_records s') = map row_id (retry_records s)"
    unfolding kept(1) using kept(2) by (intro map_same_id) blast
  moreover have "\<forall>r\<in>set (retry_records s'). 0 \<le> execution_count r \<and> execution_count r \<le> 1"
    using assms(2) kept(2) by (auto simp: transient_inv_def kept(1))
  moreover have "covers tc (retry_ledger s') (executions (retry_records s))"
    using kept(4) covers_consume(1) assms(2) unfolding transient_inv_def by metis
  ultimately show ?thesis using assms(2) by (simp add: transient_inv_def)
next
  case (ran r ev f)
  have d: "distinct (map row_id (retry_records s))" and c: "covers tc (retry_ledger s) (executions (retry_records s))"
    using assms(2) by (simp_all add: transient_inv_def)
  have fr: "find (\<lambda>r. row_id r = rid) (retry_records s) = Some r" using ran(1) by (simp add: find_retry_def)
  have "executions (retry_records s') t = executions (retry_records s) t + (if row_task r = t then 1 else 0)" for t
    unfolding ran(7) using executions_update[OF d fr, of f t] ran(8) by simp
  then have "executions (retry_records s')
      = (executions (retry_records s))(row_task r := executions (retry_records s) (row_task r) + 1)" by auto
  then have "covers tc (retry_ledger s') (executions (retry_records s'))"
    using covers_consume(2)[OF c ran(5)] ran(6) by (simp add: granted_def)
  moreover have "map row_id (retry_records s') = map row_id (retry_records s)"
    unfolding ran(7) using ran(8) by (intro map_same_id) blast
  moreover have "0 \<le> execution_count q \<and> execution_count q \<le> 1" if qs: "q \<in> set (retry_records s')" for q
  proof -
    obtain q0 where q0: "q0 \<in> set (retry_records s)" "q = (if row_id q0 = rid then f q0 else q0)"
      using qs unfolding ran(7) set_map by blast
    have "row_id q0 = rid \<Longrightarrow> q0 = r"
      using d find_SomeD[OF fr] q0(1) by (auto simp: distinct_map inj_on_def)
    then show ?thesis using q0 ran(3,8) assms(2) by (auto simp: transient_inv_def)
  qed
  ultimately show ?thesis using d by (simp add: transient_inv_def)
qed

interpretation transient_machine: inductive_invariant transient_init "transient_step rt tc" "transient_inv tc" for rt tc
proof
  fix s assume "transient_init s"
  then have "counters (retry_ledger s) p t = (0, 0, [])" for p t
    by (simp add: transient_init_def counters_def load_ledger_row_def)
  with \<open>transient_init s\<close> show "transient_inv tc s"
    by (simp add: transient_inv_def transient_init_def covers_def spent_transient_def counters_ok_def)
next
  fix s s' assume inv: "transient_inv tc s" and "transient_step rt tc s s'"
  from this(2) show "transient_inv tc s'"
  proof cases
    case (other req l ok)
    obtain t opn ct where "req = (t, opn, ct)" by (cases req)
    then show ?thesis using inv covers_step(1)[of tc "retry_ledger s" _ rt t opn ct l ok] other
      by (simp add: transient_inv_def)
  qed (use inv schedule_inv execute_inv in blast)+
qed

section \<open>Properties\<close>

text \<open>A controller, an empty state, an operation and two clocks, for the examples.\<close>

definition sample_transient_controller :: transient_controller where
  "sample_transient_controller = \<lparr>tc_project = ''p'', tc_ledger_project = ''p'', tc_policy = DEFAULT_FAILURE_BUDGET_POLICY\<rparr>"

definition empty_transient_state :: transient_state where
  "empty_transient_state = \<lparr>retry_records = [], retry_ledger = empty_budget_store, scheduled_retries = 0,
     executed_retries = 0, suppressed_duplicates = 0, budget_rejections = 0, exhaustion_pause_count = 0\<rparr>"

definition sample_operation :: transient_operation where
  "sample_operation = \<lparr>operation_id = ''o1'', op_task = ''T'', operation_type = ''CONNECTOR_QUERY'',
     is_idempotent = True, idempotency_key = None, op_parameters = []\<rparr>"

definition at_second :: "rat \<Rightarrow> call_time" where
  "at_second x = \<lparr>current_time = Some x, clock = x, system_now = 0\<rparr>"

text \<open>However scheduling, execution and the other users of the ledger interleave, a scheduled
  retry is executed at most once, and all retries of a task together run at most \<open>max_attempts\<close>
  times.\<close>

lemma retries_run_once_within_budget:
  assumes "reachable transient_init (transient_step rt tc) s"
  shows "list_all (\<lambda>r. execution_count r \<le> 1) (retry_records s)
    \<and> executions (retry_records s) t \<le> int (nat (max_attempts (transient (tc_policy tc))))"
proof -
  have inv: "transient_inv tc s" using transient_machine.inv_reachable[OF assms] .
  have "executions (retry_records s) t \<le> int (spent_transient (retry_ledger s) (tc_ledger_project tc) t)"
    "spent_transient (retry_ledger s) (tc_ledger_project tc) t \<le> nat (max_attempts (transient (tc_policy tc)))"
    using inv by (simp_all add: transient_inv_def covers_def)
  with inv show ?thesis by (auto simp: transient_inv_def list_all_iff)
qed

text \<open>A retry is scheduled only for a transient infrastructure failure of an operation that is
  idempotent or carries a key, and a scheduled retry does run: executed at or after the instant
  \<open>now + delay\<close> (to the microsecond), the operation is called, one attempt is spent, and what it returns
  is returned; before that instant it is not called and nothing changes.\<close>

lemma scheduled_retry_runs:
  assumes "schedule_retry rt tc s run op fc e ct = (s1, Inr (True, Some q, ''retry_scheduled''))"
  shows "fc = TRANSIENT_INFRASTRUCTURE \<and> (is_idempotent op \<or> opt_true (idempotency_key op))
    \<and> eligible_at q = from_timestamp (now_ts ct + delay_seconds q)
    \<and> (if to_timestamp (eligible_at q) \<le> now_ts ct'
       then \<exists>s2. execute_retry rt tc s1 (retry_request_id q) (Returns v) ct' = (s2, Inr (True, Some v, ''retry_succeeded''))
          \<and> executed_retries s2 = Suc (executed_retries s1)
          \<and> fst (counters (retry_ledger s2) (tc_ledger_project tc) (op_task op))
              = fst (counters (retry_ledger s1) (tc_ledger_project tc) (op_task op)) + 1
       else \<exists>msg. execute_retry rt tc s1 (retry_request_id q) (Returns v) ct' = (s1, Inr (False, None, msg)))"
  using assms
proof (cases rule: schedule_retryE)
  case kept
  have "retry_records s1 = retry_records s @ [x] \<Longrightarrow> False" for x using kept(1) by simp
  then show ?thesis using assms
    by (auto simp: schedule_retry_def Let_def compute_failure_fingerprint_def split: if_splits sum.splits prod.splits)
next
  case (added fp row delay q')
  have q: "q' = q" using added(10) by simp
  let ?row = "new_retry_row q (from_timestamp (now_ts ct))"
  have id: "row_id ?row = retry_request_id q" "row_status ?row = SCHEDULED" "execution_count ?row = 0"
    "row_eligible_at ?row = eligible_at q" "row_task ?row = op_task op"
    using added(6) q by (simp_all add: new_retry_row_def new_retry_request_def)
  have fr: "find_retry s1 (retry_request_id q) = Some ?row"
    using added(7) q by (simp add: find_retry_def added(9) find_append id)
  have el: "eligible_at q = from_timestamp (now_ts ct + delay_seconds q)"
    using added(6) q by (simp add: new_retry_request_def)
  show ?thesis
  proof (cases "to_timestamp (eligible_at q) \<le> now_ts ct'")
    case True
    let ?c = "consume_transient_retry rt (tc_ledger_project tc) (tc_policy tc) (retry_ledger s1) (op_task op)
        (ct'\<lparr>current_time := Some (now_ts ct')\<rparr>)"
    have l: "load_ledger_row (retry_ledger s1) (tc_ledger_project tc) (op_task op) = Some row"
      using load_get_or_create(1)[OF added(3)] .
    obtain l2 ev where c: "?c = (l2, Inr ev)" "allowed ev"
      using added(4) by (simp add: consume_transient_retry_def get_or_create_ledger_def l Let_def)
    have "fst (counters l2 (tc_ledger_project tc) (op_task op))
        = fst (counters (retry_ledger s1) (tc_ledger_project tc) (op_task op)) + 1"
      using consume_transient_retry_counters(1)[OF c(1)] c(2)
      by (cases "counters (retry_ledger s1) (tc_ledger_project tc) (op_task op)") (simp add: granted_def)
    then show ?thesis using True added(1,2) el c
      by (simp add: execute_retry_def fr id record_outcome_def Let_def)
  next
    case False
    then show ?thesis using added(1,2) el by (simp add: execute_retry_def fr id Let_def)
  qed
qed

end
