(* ===== verification/CI_Waiting.thy ===== *)
theory CI_Waiting
  imports Transient_Recovery
begin

text \<open>
  Waiting for an external CI run, \<^verbatim>\<open>src/bdb_vnext/ci_waiting.py\<close>: a durable wait record per task, polled
  under a bounded backoff until a deadline, and a continuation only on a success of exactly the awaited run. The
  store is the connection's view of the two tables; a statement that is not committed yet is
  part of it. A poll reads the row, asks the provider and writes without looking at the row again;
  the model keeps these parts apart, so that the machine of registrations and polls interleaves them. The provider is an argument over states of its own, of which \<open>FakeCIProvider\<close> is one instance.
  Instants are microseconds and floats exact rationals; of an \<open>INSERT ... ON CONFLICT(project_id, task_id)\<close> the named
  constraint is the first one checked.
\<close>

section \<open>Observations\<close>

datatype CIStatus = QUEUED | IN_PROGRESS | CI_SUCCESS | CI_FAILURE | CI_CANCELLED | CI_TIMED_OUT | CI_UNKNOWN

fun ci_status_value :: "CIStatus \<Rightarrow> string" where
  "ci_status_value QUEUED = ''QUEUED''"
| "ci_status_value IN_PROGRESS = ''IN_PROGRESS''"
| "ci_status_value CI_SUCCESS = ''SUCCESS''"
| "ci_status_value CI_FAILURE = ''FAILURE''"
| "ci_status_value CI_CANCELLED = ''CANCELLED''"
| "ci_status_value CI_TIMED_OUT = ''TIMED_OUT''"
| "ci_status_value CI_UNKNOWN = ''UNKNOWN''"

definition is_pending :: "CIStatus \<Rightarrow> bool" where
  "is_pending st \<longleftrightarrow> st = QUEUED \<or> st = IN_PROGRESS"

definition is_terminal_status :: "CIStatus \<Rightarrow> bool" where
  "is_terminal_status st \<longleftrightarrow> st = CI_SUCCESS \<or> st = CI_FAILURE \<or> st = CI_CANCELLED \<or> st = CI_TIMED_OUT"

definition CI_OBSERVATION_VERSION :: string where
  "CI_OBSERVATION_VERSION = ''1.0.0''"

record ci_observation =
  ob_version :: string
  ob_project :: string
  ob_run :: string
  ob_task :: string
  ob_provider :: string
  ob_workflow :: string
  ob_ci_run :: string
  ob_url :: "string option"
  ob_expected :: string
  ob_head :: string
  ob_status :: CIStatus
  ob_at :: string
  ob_poll :: string
  ob_digest :: string
  ob_details :: pydict

text \<open>What a fetch asks for.\<close>

record ci_request =
  rq_project :: string
  rq_run :: string
  rq_task :: string
  rq_provider :: string
  rq_workflow :: string
  rq_ci_run :: string
  rq_expected :: string
  rq_count :: int
  rq_now :: string

definition poll_id_for :: "runtime \<Rightarrow> ci_request \<Rightarrow> string \<Rightarrow> string" where
  "poll_id_for rt q tm = ''poll-'' @ take 16 (hexdigest (sha256 rt
     (rq_project q @ '':'' @ rq_task q @ '':'' @ rq_ci_run q @ '':'' @ int_str (rq_count q) @ '':'' @ tm)))"

text \<open>\<open>create_ci_observation\<close>; \<open>now_text\<close> is what \<open>_now_iso()\<close> gives when no time is passed.\<close>

definition create_ci_observation ::
    "runtime \<Rightarrow> ci_request \<Rightarrow> string option \<Rightarrow> string \<Rightarrow> CIStatus \<Rightarrow> string option \<Rightarrow> pydict \<Rightarrow> string \<Rightarrow> ci_observation" where
  "create_ci_observation rt q url head st observed_at raw now_text =
     (let tm = (if opt_true observed_at then the observed_at else now_text);
          pid = poll_id_for rt q tm;
          payload = PDict [(''version'', PStr CI_OBSERVATION_VERSION), (''project_id'', PStr (rq_project q)),
            (''run_id'', PStr (rq_run q)), (''task_id'', PStr (rq_task q)), (''provider'', PStr (rq_provider q)),
            (''workflow'', PStr (rq_workflow q)), (''ci_run_id'', PStr (rq_ci_run q)), (''ci_run_url'', opt_pyval url),
            (''expected_head'', PStr (rq_expected q)), (''observed_head'', PStr head),
            (''status'', PStr (ci_status_value st)), (''poll_id'', PStr pid), (''raw_details'', PDict raw)]
      in \<lparr>ob_version = CI_OBSERVATION_VERSION, ob_project = rq_project q, ob_run = rq_run q, ob_task = rq_task q,
          ob_provider = rq_provider q, ob_workflow = rq_workflow q, ob_ci_run = rq_ci_run q, ob_url = url,
          ob_expected = rq_expected q, ob_head = head, ob_status = st, ob_at = tm, ob_poll = pid,
          ob_digest = ''sha256:'' @ hexdigest (sha256 rt (json_dumps rt compact_json payload)), ob_details = raw\<rparr>)"

section \<open>Providers\<close>

text \<open>A fetch answers, times out (\<open>TimeoutError\<close>, with its text) or raises something else.\<close>

datatype fetch_outcome = Fetched ci_observation | Fetch_Timeout string | Fetch_Raises string

type_synonym 'b ci_provider = "'b \<Rightarrow> ci_request \<Rightarrow> 'b \<times> fetch_outcome"

record fake_provider =
  fp_sequence :: "(CIStatus \<times> string) list"
  fp_calls :: nat
  fp_timeout :: bool

definition fake_fetch :: "runtime \<Rightarrow> fake_provider ci_provider" where
  "fake_fetch rt b q =
     (let b' = b\<lparr>fp_calls := fp_calls b + 1\<rparr> in
      if fp_timeout b then (b', Fetch_Timeout ''Simulated provider API ConnectTimeout reaching CI platform'')
      else
        (let (st, head) = (if fp_sequence b \<noteq> [] then fp_sequence b ! min (fp_calls b) (length (fp_sequence b) - 1)
               else (IN_PROGRESS, rq_expected q))
         in (b', Fetched (create_ci_observation rt q
           (Some (''https://ci.example.com/'' @ rq_provider q @ ''/'' @ rq_workflow q @ ''/'' @ rq_ci_run q))
           head st (Some (rq_now q)) [] (rq_now q)))))"

section \<open>Tables\<close>

record ci_wait_record =
  cw_id :: string
  cw_project :: string
  cw_run :: string
  cw_task :: string
  cw_provider :: string
  cw_workflow :: string
  cw_ci_run :: string
  cw_url :: "string option"
  cw_expected :: string
  cw_status :: string
  cw_last_status :: string
  cw_last_head :: "string option"
  cw_last_at :: "string option"
  cw_next_poll :: "int option"
  cw_poll_count :: int
  cw_unchanged :: int
  cw_interval :: rat
  cw_deadline :: int
  cw_digest :: "string option"
  cw_emitted :: int
  cw_created_at :: int
  cw_updated_at :: int

record ci_history_row =
  ch_poll :: string
  ch_wait :: string
  ch_project :: string
  ch_task :: string
  ch_provider :: string
  ch_workflow :: string
  ch_ci_run :: string
  ch_head :: string
  ch_status :: string
  ch_digest :: string
  ch_at :: string

record ci_store =
  ci_waits :: "ci_wait_record list"
  ci_history :: "ci_history_row list"

record ci_controller =
  cc_project :: string
  cc_base :: rat
  cc_max :: rat
  cc_multiplier :: rat
  cc_timeout :: rat

record ci_disposition =
  dp_action :: string
  dp_observation :: "ci_observation option"
  dp_kind :: SemanticKind
  dp_class :: "FailureClass option"
  dp_next :: "rat option"
  dp_reason :: string

definition get_wait_record :: "ci_controller \<Rightarrow> ci_store \<Rightarrow> string \<Rightarrow> ci_wait_record option" where
  "get_wait_record cc db task = find (\<lambda>w. cw_project w = cc_project cc \<and> cw_task w = task) (ci_waits db)"

definition update_wait :: "ci_store \<Rightarrow> string \<Rightarrow> (ci_wait_record \<Rightarrow> ci_wait_record) \<Rightarrow> ci_store" where
  "update_wait db wid f = db\<lparr>ci_waits := map (\<lambda>w. if cw_id w = wid then f w else w) (ci_waits db)\<rparr>"

definition get_observation_history :: "ci_controller \<Rightarrow> ci_store \<Rightarrow> string \<Rightarrow> ci_history_row list" where
  "get_observation_history cc db task =
     sort_key ch_at (filter (\<lambda>h. ch_project h = cc_project cc \<and> ch_task h = task) (ci_history db))"

section \<open>Registration\<close>

record ci_target =
  tg_run :: string
  tg_task :: string
  tg_provider :: string
  tg_workflow :: string
  tg_ci_run :: string
  tg_expected :: string
  tg_url :: "string option"

definition wait_id_for :: "runtime \<Rightarrow> ci_controller \<Rightarrow> ci_target \<Rightarrow> string" where
  "wait_id_for rt cc tg = ''ciw-'' @ take 16 (hexdigest (sha256 rt (cc_project cc @ '':'' @ tg_task tg @ '':'' @ tg_ci_run tg)))"

definition new_wait :: "runtime \<Rightarrow> ci_controller \<Rightarrow> ci_target \<Rightarrow> int \<Rightarrow> int \<Rightarrow> ci_wait_record" where
  "new_wait rt cc tg now deadline = \<lparr>cw_id = wait_id_for rt cc tg, cw_project = cc_project cc, cw_run = tg_run tg,
     cw_task = tg_task tg, cw_provider = tg_provider tg, cw_workflow = tg_workflow tg, cw_ci_run = tg_ci_run tg,
     cw_url = tg_url tg, cw_expected = tg_expected tg, cw_status = ''QUEUED'', cw_last_status = ''NOT_OBSERVED'',
     cw_last_head = None, cw_last_at = None, cw_next_poll = Some now, cw_poll_count = 0, cw_unchanged = 0,
     cw_interval = cc_base cc, cw_deadline = deadline, cw_digest = None, cw_emitted = 0, cw_created_at = now,
     cw_updated_at = now\<rparr>"

text \<open>The \<open>DO UPDATE\<close> of the upsert: the identifier, the last observation and the interval stay.\<close>

definition reopen_wait :: "ci_wait_record \<Rightarrow> ci_wait_record \<Rightarrow> ci_wait_record" where
  "reopen_wait x w = w\<lparr>cw_run := cw_run x, cw_provider := cw_provider x, cw_workflow := cw_workflow x,
     cw_ci_run := cw_ci_run x, cw_url := cw_url x, cw_expected := cw_expected x, cw_status := ''QUEUED'',
     cw_last_status := ''NOT_OBSERVED'', cw_next_poll := cw_next_poll x, cw_poll_count := 0, cw_unchanged := 0,
     cw_deadline := cw_deadline x, cw_emitted := 0, cw_updated_at := cw_updated_at x\<rparr>"

datatype ci_error = CI_Integrity | CI_Assertion | CI_Raised string

text \<open>The upsert of a registration, on the store as it is then.\<close>

definition upsert_wait ::
    "runtime \<Rightarrow> ci_controller \<Rightarrow> ci_store \<Rightarrow> ci_target \<Rightarrow> rat option \<Rightarrow> call_time \<Rightarrow> ci_store \<times> (ci_error + ci_wait_record)" where
  "upsert_wait rt cc db tg timeout ct =
     (let now = now_ts ct; t = (case timeout of None \<Rightarrow> cc_timeout cc | Some t \<Rightarrow> if t = 0 then cc_timeout cc else t);
          x = new_wait rt cc tg (from_timestamp now) (from_timestamp (now + t));
          loaded = (\<lambda>db1. (db1, case get_wait_record cc db1 (tg_task tg) of Some w \<Rightarrow> Inr w | None \<Rightarrow> Inl CI_Assertion))
      in case get_wait_record cc db (tg_task tg) of
           Some w \<Rightarrow> loaded (db\<lparr>ci_waits := map (\<lambda>w. if cw_project w = cc_project cc \<and> cw_task w = tg_task tg
             then reopen_wait x w else w) (ci_waits db)\<rparr>)
         | None \<Rightarrow>
             if list_ex (\<lambda>w. cw_id w = cw_id x) (ci_waits db) then (db, Inl CI_Integrity)
             else loaded (db\<lparr>ci_waits := ci_waits db @ [x]\<rparr>))"

definition wait_open :: "ci_wait_record \<Rightarrow> bool" where
  "wait_open w \<longleftrightarrow> cw_status w \<in> {''QUEUED'', ''IN_PROGRESS''}"

definition register_ci_wait ::
    "runtime \<Rightarrow> ci_controller \<Rightarrow> ci_store \<Rightarrow> ci_target \<Rightarrow> rat option \<Rightarrow> call_time \<Rightarrow> ci_store \<times> (ci_error + ci_wait_record)" where
  "register_ci_wait rt cc db tg timeout ct =
     (case get_wait_record cc db (tg_task tg) of
        Some w \<Rightarrow> if wait_open w then (db, Inr w) else upsert_wait rt cc db tg timeout ct
      | None \<Rightarrow> upsert_wait rt cc db tg timeout ct)"

section \<open>Polling\<close>

definition disposition ::
    "string \<Rightarrow> ci_observation option \<Rightarrow> SemanticKind \<Rightarrow> FailureClass option \<Rightarrow> rat option \<Rightarrow> string \<Rightarrow> ci_disposition" where
  "disposition act ob k c nxt msg = \<lparr>dp_action = act, dp_observation = ob, dp_kind = k, dp_class = c, dp_next = nxt,
     dp_reason = msg\<rparr>"

definition request_for :: "ci_wait_record \<Rightarrow> int \<Rightarrow> ci_request" where
  "request_for w now = \<lparr>rq_project = cw_project w, rq_run = cw_run w, rq_task = cw_task w, rq_provider = cw_provider w,
     rq_workflow = cw_workflow w, rq_ci_run = cw_ci_run w, rq_expected = cw_expected w, rq_count = cw_poll_count w + 1,
     rq_now = isoformat now\<rparr>"

definition history_row :: "ci_controller \<Rightarrow> ci_wait_record \<Rightarrow> string \<Rightarrow> ci_observation \<Rightarrow> ci_history_row" where
  "history_row cc w task ob = \<lparr>ch_poll = ob_poll ob, ch_wait = cw_id w, ch_project = cc_project cc, ch_task = task,
     ch_provider = ob_provider ob, ch_workflow = ob_workflow ob, ch_ci_run = ob_ci_run ob, ch_head = ob_head ob,
     ch_status = ci_status_value (ob_status ob), ch_digest = ob_digest ob, ch_at = ob_at ob\<rparr>"

definition next_unchanged :: "ci_wait_record \<Rightarrow> ci_observation \<Rightarrow> int" where
  "next_unchanged w ob = (if cw_poll_count w > 0 \<and> ci_status_value (ob_status ob) = cw_last_status w then cw_unchanged w + 1 else 0)"

text \<open>The count of unchanged observations is never negative.\<close>

definition poll_interval :: "ci_controller \<Rightarrow> int \<Rightarrow> rat" where
  "poll_interval cc unchanged = min (cc_max cc) (cc_base cc * cc_multiplier cc ^ nat (min unchanged 3))"

definition record_pending :: "ci_controller \<Rightarrow> ci_store \<Rightarrow> ci_wait_record \<Rightarrow> ci_observation \<Rightarrow> rat \<Rightarrow> ci_store \<times> ci_disposition" where
  "record_pending cc db w ob now =
     (let n = next_unchanged w ob; interval = poll_interval cc n; st = ci_status_value (ob_status ob) in
      (update_wait db (cw_id w) (\<lambda>x. x\<lparr>cw_status := st, cw_last_status := st, cw_last_head := Some (ob_head ob),
         cw_last_at := Some (ob_at ob), cw_next_poll := Some (from_timestamp (now + interval)),
         cw_poll_count := cw_poll_count w + 1, cw_unchanged := n, cw_interval := interval, cw_digest := Some (ob_digest ob),
         cw_updated_at := from_timestamp now\<rparr>),
       disposition ''WAITING'' (Some ob) WAITING (Some CI_WAITING) (Some interval)
         (''CI run is '' @ st @ ''; waiting for next poll in '' @ fixed1 interval @ ''s'')))"

definition record_success :: "ci_store \<Rightarrow> ci_wait_record \<Rightarrow> ci_observation \<Rightarrow> rat \<Rightarrow> ci_store \<times> ci_disposition" where
  "record_success db w ob now =
     (let reject = (\<lambda>act c msg. (db, disposition act (Some ob) FAILURE (Some c) None (''SUCCESS reported for '' @ msg)))
      in if ob_head ob \<noteq> cw_expected w then
           reject ''WRONG_HEAD_REJECTED'' SOURCE_DIVERGENCE
             (''mismatched HEAD ('' @ ob_head ob @ '' != expected '' @ cw_expected w @ '')'')
         else if ob_provider ob \<noteq> cw_provider w then
           reject ''WRONG_PROVIDER_REJECTED'' POLICY_VIOLATION
             (''unexpected provider ('' @ ob_provider ob @ '' != expected '' @ cw_provider w @ '')'')
         else if ob_workflow ob \<noteq> cw_workflow w then
           reject ''WRONG_WORKFLOW_REJECTED'' POLICY_VIOLATION
             (''unexpected workflow ('' @ ob_workflow ob @ '' != expected '' @ cw_workflow w @ '')'')
         else if ob_ci_run ob \<noteq> cw_ci_run w then
           reject ''STALE_RUN_REJECTED'' SOURCE_DIVERGENCE
             (''stale run ID ('' @ ob_ci_run ob @ '' != expected '' @ cw_ci_run w @ '')'')
         else
           (update_wait db (cw_id w) (\<lambda>x. x\<lparr>cw_status := ''SUCCESS'', cw_last_status := ''SUCCESS'',
              cw_last_head := Some (ob_head ob), cw_last_at := Some (ob_at ob), cw_next_poll := None,
              cw_poll_count := cw_poll_count w + 1, cw_emitted := 1, cw_digest := Some (ob_digest ob),
              cw_updated_at := from_timestamp now\<rparr>),
            disposition ''CONTINUE'' (Some ob) WAITING None None
              ''CI run succeeded matching exact provider, workflow, run ID, and expected HEAD''))"

definition record_failure :: "ci_store \<Rightarrow> ci_wait_record \<Rightarrow> ci_observation \<Rightarrow> rat \<Rightarrow> ci_store \<times> ci_disposition" where
  "record_failure db w ob now =
     (let st = ci_status_value (ob_status ob) in
      (update_wait db (cw_id w) (\<lambda>x. x\<lparr>cw_status := st, cw_last_status := st, cw_last_head := Some (ob_head ob),
         cw_last_at := Some (ob_at ob), cw_next_poll := None, cw_poll_count := cw_poll_count w + 1,
         cw_digest := Some (ob_digest ob), cw_updated_at := from_timestamp now\<rparr>),
       disposition ''CLASSIFY_FAILURE'' (Some ob) FAILURE (Some PROJECT_REPAIRABLE) None
         (''CI run ended in terminal failure: '' @ st)))"

text \<open>A fetched observation: its history row, whose poll identifier must be new, and the three kinds of status.\<close>

definition record_observation ::
    "ci_controller \<Rightarrow> ci_store \<Rightarrow> ci_wait_record \<Rightarrow> string \<Rightarrow> ci_observation \<Rightarrow> rat \<Rightarrow> ci_store \<times> (ci_error + ci_disposition)" where
  "record_observation cc db w task ob now =
     (if list_ex (\<lambda>h. ch_poll h = ob_poll ob) (ci_history db) then (db, Inl CI_Integrity)
      else
        (let db1 = db\<lparr>ci_history := ci_history db @ [history_row cc w task ob]\<rparr>;
             (db2, d) = (if is_pending (ob_status ob) then record_pending cc db1 w ob now
               else if ob_status ob = CI_SUCCESS then record_success db1 w ob now
               else record_failure db1 w ob now)
         in (db2, Inr d)))"

text \<open>\<open>poll_ci\<close> in the parts between which other processes can act: reading the row and deciding what to
  do, closing an overdue wait, and, after the provider was asked, committing its answer. Both
  updates are by the identifier of the row read and do not look at its status again.\<close>

datatype poll_plan = Poll_Answer ci_disposition | Poll_Expire ci_wait_record | Poll_Fetch ci_wait_record

definition begin_poll :: "ci_controller \<Rightarrow> ci_store \<Rightarrow> string \<Rightarrow> call_time \<Rightarrow> bool \<Rightarrow> poll_plan" where
  "begin_poll cc db task ct force =
     (case get_wait_record cc db task of
        None \<Rightarrow> Poll_Answer (disposition ''UNKNOWN'' None FAILURE (Some AMBIGUOUS_FAILURE) None
          ''No active CI wait record found for task'')
      | Some w \<Rightarrow>
          (let now = now_ts ct in
           if cw_status w = ''SUCCESS'' then
             Poll_Answer (disposition ''ALREADY_COMPLETED'' None WAITING None None
               ''CI run previously completed successfully; duplicate continuation suppressed'')
           else if cw_status w \<in> {''FAILURE'', ''CANCELLED'', ''TIMED_OUT''} then
             Poll_Answer (disposition ''ALREADY_FAILED'' None FAILURE (Some PROJECT_REPAIRABLE) None
               (''CI run previously ended in terminal failure: '' @ cw_status w))
           else if now > to_timestamp (cw_deadline w) then Poll_Expire w
           else if \<not> force \<and> (case cw_next_poll w of None \<Rightarrow> False | Some t \<Rightarrow> now < to_timestamp t) then
             (let remaining = max 0 (to_timestamp (the (cw_next_poll w)) - now) in
              Poll_Answer (disposition ''POLL_DUE_LATER'' None WAITING (Some CI_WAITING) (Some remaining)
                (''Poll not due yet ('' @ fixed1 remaining @ ''s remaining in schedule)'')))
           else Poll_Fetch w))"

definition expire_wait :: "ci_store \<Rightarrow> ci_wait_record \<Rightarrow> rat \<Rightarrow> ci_store \<times> ci_disposition" where
  "expire_wait db w now =
     (update_wait db (cw_id w) (\<lambda>x. x\<lparr>cw_status := ''TIMED_OUT'', cw_updated_at := from_timestamp now\<rparr>),
      disposition ''TIMEOUT'' None FAILURE (Some PROJECT_REPAIRABLE) None
        (''CI wait deadline exceeded ('' @ fixed1 (now - to_timestamp (cw_deadline w)) @ ''s past deadline)''))"

definition commit_poll ::
    "ci_controller \<Rightarrow> ci_store \<Rightarrow> ci_wait_record \<Rightarrow> string \<Rightarrow> rat \<Rightarrow> fetch_outcome \<Rightarrow> ci_store \<times> (ci_error + ci_disposition)" where
  "commit_poll cc db w task now out =
     (case out of
        Fetch_Raises msg \<Rightarrow> (db, Inl (CI_Raised msg))
      | Fetch_Timeout msg \<Rightarrow>
          (update_wait db (cw_id w) (\<lambda>x. x\<lparr>cw_next_poll := Some (from_timestamp (now + cc_base cc)),
             cw_updated_at := from_timestamp now\<rparr>),
           Inr (disposition ''PROVIDER_TIMEOUT'' None FAILURE (Some TRANSIENT_INFRASTRUCTURE) (Some (cc_base cc))
             (''Provider API transient timeout: '' @ msg)))
      | Fetched ob \<Rightarrow> record_observation cc db w task ob now)"

definition poll_ci ::
    "ci_controller \<Rightarrow> 'b ci_provider \<Rightarrow> ci_store \<Rightarrow> 'b \<Rightarrow> string \<Rightarrow> call_time \<Rightarrow> bool
      \<Rightarrow> ci_store \<times> 'b \<times> (ci_error + ci_disposition)" where
  "poll_ci cc fetch db b task ct force =
     (case begin_poll cc db task ct force of
        Poll_Answer d \<Rightarrow> (db, b, Inr d)
      | Poll_Expire w \<Rightarrow> (case expire_wait db w (now_ts ct) of (db', d) \<Rightarrow> (db', b, Inr d))
      | Poll_Fetch w \<Rightarrow>
          (case fetch b (request_for w (from_timestamp (now_ts ct))) of (b', out) \<Rightarrow>
             (case commit_poll cc db w task (now_ts ct) out of (db', res) \<Rightarrow> (db', b', res))))"

lemmas poll_ci_simps = poll_ci_def begin_poll_def expire_wait_def commit_poll_def

section \<open>Lookups under update\<close>

abbreviation key_of :: "ci_wait_record \<Rightarrow> string \<times> string" where
  "key_of w \<equiv> (cw_project w, cw_task w)"

definition wait_of :: "ci_store \<Rightarrow> string \<times> string \<Rightarrow> ci_wait_record option" where
  "wait_of db k = find (\<lambda>w. key_of w = k) (ci_waits db)"

definition waits_ok :: "ci_store \<Rightarrow> bool" where
  "waits_ok db \<longleftrightarrow> distinct (map cw_id (ci_waits db)) \<and> distinct (map key_of (ci_waits db))"

lemma get_wait_record_eq: "get_wait_record cc db t = wait_of db (cc_project cc, t)"
  by (simp add: get_wait_record_def wait_of_def)

lemma wait_ofD: "wait_of db k = Some w \<Longrightarrow> w \<in> set (ci_waits db) \<and> key_of w = k"
  unfolding wait_of_def by (drule find_SomeD) simp

lemma find_keyed:
  assumes "\<And>x. key_of (f x) = key_of x"
  shows "find (\<lambda>w. key_of w = k) (map f xs) = map_option f (find (\<lambda>w. key_of w = k) xs)"
  using assms by (induction xs) auto

lemma wait_of_history [simp]: "wait_of (db\<lparr>ci_history := h\<rparr>) = wait_of db" "waits_ok (db\<lparr>ci_history := h\<rparr>) = waits_ok db"
  by (simp_all add: fun_eq_iff wait_of_def waits_ok_def)

lemma waits_ok_map:
  assumes "\<And>x. key_of (f x) = key_of x" and "\<And>x. cw_id (f x) = cw_id x" and "ci_waits db' = map f (ci_waits db)"
  shows "waits_ok db' = waits_ok db"
proof -
  have "map cw_id (ci_waits db') = map cw_id (ci_waits db)" "map key_of (ci_waits db') = map key_of (ci_waits db)"
    using assms by auto
  then show ?thesis unfolding waits_ok_def by (simp only:)
qed

lemma update_wait_ok:
  assumes "waits_ok db" and "\<And>x. key_of (f x) = key_of x" and "\<And>x. cw_id (f x) = cw_id x"
  shows "waits_ok (update_wait db i f)"
proof -
  have "waits_ok (update_wait db i f) = waits_ok db"
    by (rule waits_ok_map[of "\<lambda>x. if cw_id x = i then f x else x"]) (use assms(2,3) in \<open>simp_all add: update_wait_def\<close>)
  then show ?thesis using assms(1) by simp
qed

lemma update_wait_lookup:
  assumes "waits_ok db" and "wait_of db k = Some w" and "\<And>x. key_of (f x) = key_of x"
  shows "wait_of (update_wait db (cw_id w) f) j = (if j = k then Some (f w) else wait_of db j)"
proof -
  let ?g = "\<lambda>x. if cw_id x = cw_id w then f x else x"
  note w = wait_ofD[OF assms(2)]
  have "key_of (?g x) = key_of x" for x using assms(3)[of x] by simp
  then have m: "wait_of (update_wait db (cw_id w) f) j = map_option ?g (wait_of db j)"
    unfolding wait_of_def update_wait_def by (simp add: find_keyed)
  show ?thesis
  proof (cases "j = k")
    case True
    then show ?thesis using m assms(2) by simp
  next
    case False
    have "?g x = x" if "wait_of db j = Some x" for x
    proof -
      note x = wait_ofD[OF that]
      have "cw_id x \<noteq> cw_id w" using False x w assms(1) by (auto simp: waits_ok_def distinct_map inj_on_def)
      then show ?thesis by simp
    qed
    then show ?thesis using m False by (cases "wait_of db j") auto
  qed
qed

section \<open>What the operations do to a wait\<close>

text \<open>One wait set, or changed.\<close>

definition wait_set :: "ci_store \<Rightarrow> string \<times> string \<Rightarrow> ci_wait_record \<Rightarrow> ci_store \<Rightarrow> bool" where
  "wait_set db k w db' \<longleftrightarrow> waits_ok db' \<and> wait_of db' = (wait_of db)(k \<mapsto> w)"

definition wait_changed :: "ci_store \<Rightarrow> string \<times> string \<Rightarrow> (ci_wait_record \<Rightarrow> ci_wait_record) \<Rightarrow> ci_store \<Rightarrow> bool" where
  "wait_changed db k f db' \<longleftrightarrow> (\<exists>w. wait_of db k = Some w \<and> wait_set db k (f w) db')"

lemma wait_changedD: "wait_changed db k f db' \<Longrightarrow> wait_of db k = Some w \<Longrightarrow> wait_set db k (f w) db'"
  by (simp add: wait_changed_def)

lemma update_changed:
  assumes "waits_ok db" and "wait_of db k = Some w" and "\<And>x. key_of (f x) = key_of x" and "\<And>x. cw_id (f x) = cw_id x"
  shows "wait_changed db k f (update_wait (db\<lparr>ci_history := h\<rparr>) (cw_id w) f)"
proof -
  have "wait_of (update_wait (db\<lparr>ci_history := h\<rparr>) (cw_id w) f) j = ((wait_of db)(k \<mapsto> f w)) j" for j
    by (subst update_wait_lookup[of _ k]) (use assms in simp_all)
  moreover have "waits_ok (update_wait (db\<lparr>ci_history := h\<rparr>) (cw_id w) f)"
    by (rule update_wait_ok) (use assms in simp_all)
  ultimately show ?thesis using assms(2) by (auto simp: wait_changed_def wait_set_def)
qed

text \<open>The effect of recording an observation, by its status.\<close>

definition exact_success :: "ci_wait_record \<Rightarrow> ci_observation \<Rightarrow> bool" where
  "exact_success w ob \<longleftrightarrow> ob_status ob = CI_SUCCESS \<and> ob_head ob = cw_expected w \<and> ob_provider ob = cw_provider w
     \<and> ob_workflow ob = cw_workflow w \<and> ob_ci_run ob = cw_ci_run w"

text \<open>Recording an observation appends to the history at most, or changes the row the poll has read, of
  which it keeps the key and the identifier.\<close>

definition row_update :: "ci_wait_record \<Rightarrow> (ci_wait_record \<Rightarrow> ci_wait_record) \<Rightarrow> ci_store \<Rightarrow> ci_store \<Rightarrow> bool" where
  "row_update w f db db' \<longleftrightarrow> (\<forall>x. key_of (f x) = key_of x \<and> cw_id (f x) = cw_id x)
     \<and> (\<exists>h. db' = update_wait (db\<lparr>ci_history := h\<rparr>) (cw_id w) f)"

lemma record_observationE:
  assumes "record_observation cc db w t ob now = (db', res)"
  obtains (kept) h where "db' = db\<lparr>ci_history := h\<rparr>" "\<And>d. res = Inr d \<Longrightarrow> dp_action d \<noteq> ''CONTINUE''"
  | (continued) d f where "res = Inr d" "dp_action d = ''CONTINUE''" "exact_success w ob"
      "row_update w f db db'" "\<And>x. cw_status (f x) = ''SUCCESS''"
  | (changed) d f where "res = Inr d" "dp_action d \<noteq> ''CONTINUE''" "row_update w f db db'"
proof (cases "list_ex (\<lambda>h. ch_poll h = ob_poll ob) (ci_history db)")
  case True
  then show thesis using assms by (intro kept[of "ci_history db"]) (simp_all add: record_observation_def)
next
  case fresh: False
  let ?st = "ci_status_value (ob_status ob)"
  note run = assms[unfolded record_observation_def if_not_P[OF fresh] Let_def]
  consider (pending) "is_pending (ob_status ob)" | (success) "ob_status ob = CI_SUCCESS"
    | (failure) "\<not> is_pending (ob_status ob)" "ob_status ob \<noteq> CI_SUCCESS" by blast
  then show thesis
  proof cases
    case pending
    let ?f = "\<lambda>x. x\<lparr>cw_status := ?st, cw_last_status := ?st, cw_last_head := Some (ob_head ob),
         cw_last_at := Some (ob_at ob), cw_next_poll := Some (from_timestamp (now + poll_interval cc (next_unchanged w ob))),
         cw_poll_count := cw_poll_count w + 1, cw_unchanged := next_unchanged w ob, cw_interval := poll_interval cc (next_unchanged w ob),
         cw_digest := Some (ob_digest ob), cw_updated_at := from_timestamp now\<rparr>"
    show thesis using run pending
      by (intro changed[of _ ?f]) (auto simp: record_pending_def disposition_def row_update_def Let_def)
  next
    case success
    then have np: "\<not> is_pending (ob_status ob)" by (simp add: is_pending_def)
    let ?f = "\<lambda>x. x\<lparr>cw_status := ''SUCCESS'', cw_last_status := ''SUCCESS'',
              cw_last_head := Some (ob_head ob), cw_last_at := Some (ob_at ob), cw_next_poll := None,
              cw_poll_count := cw_poll_count w + 1, cw_emitted := 1, cw_digest := Some (ob_digest ob),
              cw_updated_at := from_timestamp now\<rparr>"
    show thesis
    proof (cases "exact_success w ob")
      case True
      show thesis using run success np True
        by (intro continued[of _ ?f]) (auto simp: record_success_def exact_success_def disposition_def row_update_def Let_def)
    next
      case False
      show thesis using run success np False
        by (intro kept) (auto simp: record_success_def exact_success_def disposition_def Let_def split: if_splits)
    qed
  next
    case failure
    let ?f = "\<lambda>x. x\<lparr>cw_status := ?st, cw_last_status := ?st, cw_last_head := Some (ob_head ob),
         cw_last_at := Some (ob_at ob), cw_next_poll := None, cw_poll_count := cw_poll_count w + 1,
         cw_digest := Some (ob_digest ob), cw_updated_at := from_timestamp now\<rparr>"
    show thesis using run failure
      by (intro changed[of _ ?f]) (auto simp: record_failure_def disposition_def row_update_def Let_def)
  qed
qed

lemma row_update_changed:
  assumes "row_update w f db db'" and "waits_ok db" and "wait_of db k = Some v" and "cw_id v = cw_id w"
  shows "wait_set db k (f v) db'"
  using assms(1,4) update_changed[OF assms(2,3), of f] wait_changedD[OF _ assms(3)]
  by (auto simp: row_update_def)

definition answered :: "(ci_error + 'r) \<Rightarrow> bool" where
  "answered res \<longleftrightarrow> (case res of Inl _ \<Rightarrow> False | Inr _ \<Rightarrow> True)"

lemma reopened_lookup:
  assumes "wait_of db k = Some w" and "\<And>x. key_of (f x) = key_of x"
  shows "wait_of (db\<lparr>ci_waits := map (\<lambda>x. if key_of x = k then f x else x) (ci_waits db)\<rparr>) = (wait_of db)(k \<mapsto> f w)"
proof
  fix j
  let ?g = "\<lambda>x. if key_of x = k then f x else x"
  have "key_of (?g x) = key_of x" for x using assms(2)[of x] by simp
  then have "wait_of (db\<lparr>ci_waits := map ?g (ci_waits db)\<rparr>) j = map_option ?g (wait_of db j)" by (simp add: wait_of_def find_keyed)
  moreover have "map_option ?g (wait_of db j) = ((wait_of db)(k \<mapsto> f w)) j"
    using assms(1) wait_ofD[of db j] by (cases "wait_of db j") auto
  ultimately show "wait_of (db\<lparr>ci_waits := map ?g (ci_waits db)\<rparr>) j = ((wait_of db)(k \<mapsto> f w)) j" by simp
qed

lemma appended_lookup:
  assumes "wait_of db (key_of x) = None"
  shows "wait_of (db\<lparr>ci_waits := ci_waits db @ [x]\<rparr>) = (wait_of db)(key_of x \<mapsto> x)"
proof
  fix j
  show "wait_of (db\<lparr>ci_waits := ci_waits db @ [x]\<rparr>) j = ((wait_of db)(key_of x \<mapsto> x)) j"
    using assms by (cases "j = key_of x"; cases "wait_of db j") (auto simp: wait_of_def find_append)
qed

section \<open>The machine of registrations and polls\<close>

text \<open>Calls in flight between their read and their write: a registration that saw no open wait, a
  poll that read an overdue wait, and a poll that read a wait in progress and is asking its
  provider. Each of the writes is one transaction of the code.\<close>

datatype ci_call =
    Registering ci_controller ci_target "rat option" call_time
  | Expiring ci_controller string ci_wait_record rat
  | Polling ci_controller string ci_wait_record rat

text \<open>A run: the store, the calls in flight and, for the record, the keys whose wait was opened,
  those for which a poll began to ask while another one was asking, and those that were
  continued.\<close>

record ci_run =
  cr_db :: ci_store
  cr_calls :: "ci_call list"
  cr_opened :: "(string \<times> string) list"
  cr_overlaps :: "(string \<times> string) list"
  cr_continued :: "(string \<times> string) list"

fun polls_key :: "string \<times> string \<Rightarrow> ci_call \<Rightarrow> bool" where
  "polls_key k (Polling cc t w now) \<longleftrightarrow> (cc_project cc, t) = k"
| "polls_key k (Registering cc tg timeout ct) \<longleftrightarrow> False"
| "polls_key k (Expiring cc t w now) \<longleftrightarrow> False"

definition asking :: "string \<times> string \<Rightarrow> ci_call list \<Rightarrow> nat" where
  "asking k cs = length (filter (polls_key k) cs)"

definition continues :: "(ci_error + ci_disposition) \<Rightarrow> bool" where
  "continues res \<longleftrightarrow> (case res of Inl _ \<Rightarrow> False | Inr d \<Rightarrow> dp_action d = ''CONTINUE'')"

definition noted :: "bool \<Rightarrow> 'k \<Rightarrow> 'k list \<Rightarrow> 'k list" where
  "noted c k ks = (if c then k # ks else ks)"

text \<open>The steps of any number of processes; a provider may give any outcome, and a process may die in the middle of
  a call.\<close>

inductive ci_step :: "runtime \<Rightarrow> ci_run \<Rightarrow> ci_run \<Rightarrow> bool" for rt :: runtime where
  begin_register: "(\<And>w. get_wait_record cc (cr_db s) (tg_task tg) = Some w \<Longrightarrow> \<not> wait_open w)
    \<Longrightarrow> ci_step rt s (s\<lparr>cr_calls := Registering cc tg timeout ct # cr_calls s\<rparr>)"
| upsert: "Registering cc tg timeout ct \<in> set (cr_calls s) \<Longrightarrow> upsert_wait rt cc (cr_db s) tg timeout ct = (db', res)
    \<Longrightarrow> ci_step rt s (s\<lparr>cr_db := db', cr_calls := remove1 (Registering cc tg timeout ct) (cr_calls s),
          cr_opened := noted (answered res) (cc_project cc, tg_task tg) (cr_opened s)\<rparr>)"
| begin_expire: "begin_poll cc (cr_db s) t ct force = Poll_Expire w
    \<Longrightarrow> ci_step rt s (s\<lparr>cr_calls := Expiring cc t w (now_ts ct) # cr_calls s\<rparr>)"
| expire: "Expiring cc t w now \<in> set (cr_calls s) \<Longrightarrow> expire_wait (cr_db s) w now = (db', d)
    \<Longrightarrow> ci_step rt s (s\<lparr>cr_db := db', cr_calls := remove1 (Expiring cc t w now) (cr_calls s)\<rparr>)"
| begin_ask: "begin_poll cc (cr_db s) t ct force = Poll_Fetch w
    \<Longrightarrow> ci_step rt s (s\<lparr>cr_calls := Polling cc t w (now_ts ct) # cr_calls s,
          cr_overlaps := noted (asking (cc_project cc, t) (cr_calls s) > 0) (cc_project cc, t) (cr_overlaps s)\<rparr>)"
| commit_ask: "Polling cc t w now \<in> set (cr_calls s) \<Longrightarrow> commit_poll cc (cr_db s) w t now out = (db', res)
    \<Longrightarrow> ci_step rt s (s\<lparr>cr_db := db', cr_calls := remove1 (Polling cc t w now) (cr_calls s),
          cr_continued := noted (continues res) (cc_project cc, t) (cr_continued s)\<rparr>)"
| crash: "ci_step rt s (s\<lparr>cr_calls := remove1 c (cr_calls s)\<rparr>)"

definition ci_init :: "ci_run \<Rightarrow> bool" where
  "ci_init s \<longleftrightarrow> ci_waits (cr_db s) = [] \<and> cr_calls s = [] \<and> cr_opened s = [] \<and> cr_overlaps s = [] \<and> cr_continued s = []"

text \<open>A wait that a poll may still ask about.\<close>

definition in_progress :: "ci_wait_record option \<Rightarrow> nat" where
  "in_progress wo = (case wo of None \<Rightarrow> 0
     | Some w \<Rightarrow> if cw_status w \<in> {''SUCCESS'', ''FAILURE'', ''CANCELLED'', ''TIMED_OUT''} then 0 else 1)"

text \<open>The row a call has read is still in the table under its key.\<close>

fun row_kept :: "ci_store \<Rightarrow> ci_call \<Rightarrow> bool" where
  "row_kept db (Registering cc tg timeout ct) \<longleftrightarrow> True"
| "row_kept db (Expiring cc t w now) \<longleftrightarrow> map_option cw_id (wait_of db (cc_project cc, t)) = Some (cw_id w)"
| "row_kept db (Polling cc t w now) \<longleftrightarrow> map_option cw_id (wait_of db (cc_project cc, t)) = Some (cw_id w)"

definition ci_ok :: "string \<times> string \<Rightarrow> ci_run \<Rightarrow> bool" where
  "ci_ok k s \<longleftrightarrow> count_list (cr_continued s) k + max (asking k (cr_calls s)) (in_progress (wait_of (cr_db s) k))
     \<le> count_list (cr_opened s) k + count_list (cr_overlaps s) k"

definition ci_inv :: "ci_run \<Rightarrow> bool" where
  "ci_inv s \<longleftrightarrow> waits_ok (cr_db s) \<and> (\<forall>c\<in>set (cr_calls s). row_kept (cr_db s) c) \<and> (\<forall>k. ci_ok k s)"

lemma count_noted: "count_list (noted c k ks) j = (if c \<and> j = k then Suc (count_list ks j) else count_list ks j)"
  by (simp add: noted_def)

lemma asking_Cons: "asking k (c # cs) = (if polls_key k c then Suc (asking k cs) else asking k cs)"
  by (simp add: asking_def)

lemma asking_remove1: "asking k (remove1 c cs) = (if c \<in> set cs \<and> polls_key k c then asking k cs - 1 else asking k cs)"
  by (simp add: asking_def filter_remove1 length_remove1)

lemma asking_pos: "c \<in> set cs \<Longrightarrow> polls_key k c \<Longrightarrow> 0 < asking k cs"
  by (auto simp: asking_def filter_empty_conv)

lemmas asking_simps = count_noted asking_Cons asking_remove1

lemma in_progress_le: "in_progress wo \<le> 1"
  by (simp add: in_progress_def split: option.split)

text \<open>A write that keeps the identifiers of all rows keeps what the calls in flight have read.\<close>

lemma wait_set_rows:
  assumes "wait_set db k w db'" and "\<And>v. wait_of db k = Some v \<Longrightarrow> cw_id w = cw_id v"
  shows "row_kept db c \<Longrightarrow> row_kept db' c"
  using assms by (cases c) (auto simp: wait_set_def)

lemma upsertE:
  assumes "upsert_wait rt cc db tg timeout ct = (db', res)" and "waits_ok db" and "k = (cc_project cc, tg_task tg)"
  obtains (failed) "db' = db" "\<not> answered res"
  | (opened) w where "res = Inr w" "wait_set db k w db'" "cw_status w = ''QUEUED''"
      "\<And>v. wait_of db k = Some v \<Longrightarrow> cw_id w = cw_id v"
proof -
  let ?t = "case timeout of None \<Rightarrow> cc_timeout cc | Some t \<Rightarrow> if t = 0 then cc_timeout cc else t"
  let ?x = "new_wait rt cc tg (from_timestamp (now_ts ct)) (from_timestamp (now_ts ct + ?t))"
  note run = assms(1)[unfolded upsert_wait_def get_wait_record_eq Let_def, folded assms(3)]
  show thesis
  proof (cases "wait_of db k")
    case (Some w)
    let ?db = "db\<lparr>ci_waits := map (\<lambda>w. if key_of w = k then reopen_wait ?x w else w) (ci_waits db)\<rparr>"
    have at: "wait_of ?db = (wait_of db)(k \<mapsto> reopen_wait ?x w)" by (rule reopened_lookup[OF Some]) (simp add: reopen_wait_def)
    have "waits_ok ?db = waits_ok db"
      by (rule waits_ok_map[of "\<lambda>w. if key_of w = k then reopen_wait ?x w else w"]) (simp_all add: reopen_wait_def)
    then have set: "wait_set db k (reopen_wait ?x w) ?db" using at assms(2) by (simp add: wait_set_def)
    have r: "db' = ?db" "res = Inr (reopen_wait ?x w)" using run Some at by (auto simp: assms(3))
    show thesis using Some set unfolding r(1)[symmetric] by (intro opened[OF r(2)]) (simp_all add: reopen_wait_def)
  next
    case None
    let ?db = "db\<lparr>ci_waits := ci_waits db @ [?x]\<rparr>"
    have key: "key_of ?x = k" by (simp add: new_wait_def assms(3))
    have at: "wait_of ?db = (wait_of db)(k \<mapsto> ?x)" using appended_lookup[of db ?x] None unfolding key by blast
    show thesis
    proof (cases "list_ex (\<lambda>w. cw_id w = cw_id ?x) (ci_waits db)")
      case True
      then show thesis using run None by (intro failed) (auto simp: answered_def)
    next
      case False
      then have "cw_id ?x \<notin> cw_id ` set (ci_waits db)" by (auto simp: list_ex_iff)
      moreover have "key_of ?x \<notin> key_of ` set (ci_waits db)" using None key by (auto simp: wait_of_def find_None_iff image_iff)
      ultimately have set: "wait_set db k ?x ?db" using assms(2) at by (auto simp: waits_ok_def wait_set_def)
      have r: "db' = ?db" "res = Inr ?x" using run False None at by auto
      show thesis using None set unfolding r(1)[symmetric] by (intro opened[OF r(2)]) (simp_all add: new_wait_def)
    qed
  qed
qed

text \<open>Whatever the provider answered, the commit changes at most the row the poll has read; when it
  continues, the row is successful.\<close>

lemma commit_pollE:
  assumes "commit_poll cc db w t now out = (db', res)"
  obtains (kept) h where "db' = db\<lparr>ci_history := h\<rparr>" "\<not> continues res"
  | (continued) f where "continues res" "row_update w f db db'" "\<And>x. cw_status (f x) = ''SUCCESS''"
  | (changed) f where "\<not> continues res" "row_update w f db db'"
proof (cases out)
  case (Fetch_Raises msg)
  then show thesis using assms by (intro kept[of "ci_history db"]) (auto simp: commit_poll_def continues_def)
next
  case (Fetch_Timeout msg)
  let ?f = "\<lambda>x. x\<lparr>cw_next_poll := Some (from_timestamp (now + cc_base cc)), cw_updated_at := from_timestamp now\<rparr>"
  show thesis using assms Fetch_Timeout
    by (intro changed[of ?f]) (auto simp: commit_poll_def continues_def disposition_def row_update_def intro: exI[of _ "ci_history db"])
next
  case (Fetched ob)
  then have "record_observation cc db w t ob now = (db', res)" using assms by (simp add: commit_poll_def)
  then show thesis
  proof (cases rule: record_observationE)
    case (kept h)
    then show thesis by (intro that(1)) (auto simp: continues_def split: sum.split)
  next
    case (continued d f)
    then show thesis by (intro that(2)) (auto simp: continues_def)
  next
    case (changed d f)
    then show thesis by (intro that(3)) (auto simp: continues_def)
  qed
qed

lemma expire_wait_update:
  assumes "expire_wait db w now = (db', d)"
  obtains f where "row_update w f db db'" "\<forall>x. cw_status (f x) = ''TIMED_OUT''"
  using assms
  by (intro that[of "\<lambda>x. x\<lparr>cw_status := ''TIMED_OUT'', cw_updated_at := from_timestamp now\<rparr>"])
    (auto simp: expire_wait_def row_update_def intro: exI[of _ "ci_history db"])

lemma begin_pollD:
  assumes "begin_poll cc db t ct force = Poll_Fetch w \<or> begin_poll cc db t ct force = Poll_Expire w"
  shows "wait_of db (cc_project cc, t) = Some w" "in_progress (Some w) = 1"
  using assms by (auto simp: begin_poll_def get_wait_record_eq in_progress_def Let_def split: option.splits if_splits)

text \<open>One write of a row a call in flight has read.\<close>

lemma write_inv:
  assumes "ci_inv s" and "row_update w f (cr_db s) db'" and "map_option cw_id (wait_of (cr_db s) k) = Some (cw_id w)"
  obtains v where "wait_of (cr_db s) k = Some v" "waits_ok db'" "wait_of db' = (wait_of (cr_db s))(k \<mapsto> f v)"
    "\<forall>c\<in>set (cr_calls s). row_kept db' c"
proof -
  obtain v where v: "wait_of (cr_db s) k = Some v" "cw_id v = cw_id w" using assms(3) by auto
  have ok: "waits_ok (cr_db s)" "\<And>c. c \<in> set (cr_calls s) \<Longrightarrow> row_kept (cr_db s) c"
    using assms(1) by (auto simp: ci_inv_def)
  have set: "wait_set (cr_db s) k (f v) db'" by (rule row_update_changed[OF assms(2) ok(1) v])
  have "cw_id (f v) = cw_id u" if "wait_of (cr_db s) k = Some u" for u
    using that v assms(2) by (simp add: row_update_def)
  from wait_set_rows[OF set this] ok(2) have "\<forall>c\<in>set (cr_calls s). row_kept db' c" by blast
  with v(1) set show thesis by (intro that) (auto simp: wait_set_def)
qed

lemma ci_invD:
  assumes "ci_inv s"
  shows "waits_ok (cr_db s)" "\<forall>c\<in>set (cr_calls s). row_kept (cr_db s) c" "ci_ok j s"
  using assms unfolding ci_inv_def by blast+

lemma upsert_inv:
  assumes "ci_inv s" and "upsert_wait rt cc (cr_db s) tg timeout ct = (db', res)" and "k = (cc_project cc, tg_task tg)"
  shows "ci_inv (s\<lparr>cr_db := db', cr_calls := remove1 (Registering cc tg timeout ct) (cr_calls s),
    cr_opened := noted (answered res) k (cr_opened s)\<rparr>)"
proof -
  have ok: "waits_ok (cr_db s)" "\<forall>c\<in>set (cr_calls s). row_kept (cr_db s) c" "\<And>j. ci_ok j s"
    by (rule ci_invD[OF assms(1)])+
  from assms(2) ok(1) assms(3) show ?thesis
  proof (cases rule: upsertE)
    case failed
    then show ?thesis using ok by (auto simp: ci_inv_def ci_ok_def asking_simps dest: notin_set_remove1)
  next
    case (opened w)
    have "\<forall>c\<in>set (cr_calls s). row_kept db' c" using ok(2) wait_set_rows[OF opened(2,4)] by blast
    moreover have "ci_ok j (s\<lparr>cr_db := db', cr_calls := remove1 (Registering cc tg timeout ct) (cr_calls s),
        cr_opened := noted (answered res) k (cr_opened s)\<rparr>)" for j
      using ok(3)[of j] opened(1-3)
      by (auto simp: ci_ok_def asking_simps answered_def wait_set_def in_progress_def)
    ultimately show ?thesis using opened(2) by (auto simp: ci_inv_def wait_set_def dest: notin_set_remove1)
  qed
qed

lemma expire_inv:
  assumes "ci_inv s" and "Expiring cc t w now \<in> set (cr_calls s)" and "expire_wait (cr_db s) w now = (db', d)"
  shows "ci_inv (s\<lparr>cr_db := db', cr_calls := remove1 (Expiring cc t w now) (cr_calls s)\<rparr>)"
proof -
  have ok: "\<forall>c\<in>set (cr_calls s). row_kept (cr_db s) c" "\<And>j. ci_ok j s" by (rule ci_invD[OF assms(1)])+
  obtain f where f: "row_update w f (cr_db s) db'" "\<forall>x. cw_status (f x) = ''TIMED_OUT''"
    by (rule expire_wait_update[OF assms(3)])
  from ok(1) assms(2) have k: "map_option cw_id (wait_of (cr_db s) (cc_project cc, t)) = Some (cw_id w)" by fastforce
  obtain v where v: "waits_ok db'" "wait_of db' = (wait_of (cr_db s))((cc_project cc, t) \<mapsto> f v)"
    "\<forall>c\<in>set (cr_calls s). row_kept db' c"
    by (rule write_inv[OF assms(1) f(1) k])
  have "ci_ok j (s\<lparr>cr_db := db', cr_calls := remove1 (Expiring cc t w now) (cr_calls s)\<rparr>)" for j
    using ok(2)[of j] v(2) f(2) by (auto simp: ci_ok_def asking_simps in_progress_def)
  with v(1,3) show ?thesis by (auto simp: ci_inv_def dest: notin_set_remove1)
qed

lemma begin_ask_inv:
  assumes "ci_inv s" and "begin_poll cc (cr_db s) t ct force = Poll_Fetch w" and "k = (cc_project cc, t)"
  shows "ci_inv (s\<lparr>cr_calls := Polling cc t w (now_ts ct) # cr_calls s, cr_overlaps := noted (asking k (cr_calls s) > 0) k (cr_overlaps s)\<rparr>)"
proof -
  have w: "wait_of (cr_db s) k = Some w" "in_progress (Some w) = 1" using begin_pollD[OF disjI1[OF assms(2)]] assms(3) by simp_all
  have "ci_ok j (s\<lparr>cr_calls := Polling cc t w (now_ts ct) # cr_calls s,
      cr_overlaps := noted (asking k (cr_calls s) > 0) k (cr_overlaps s)\<rparr>)" for j
  proof -
    have "ci_ok j s" by (rule ci_invD[OF assms(1)])
    then show ?thesis using w assms(3) by (cases "j = k") (auto simp: ci_ok_def asking_simps)
  qed
  with assms(1,3) w(1) show ?thesis by (simp add: ci_inv_def)
qed

lemma commit_inv:
  assumes "ci_inv s" and "Polling cc t w now \<in> set (cr_calls s)" and "commit_poll cc (cr_db s) w t now out = (db', res)"
    and "k = (cc_project cc, t)"
  shows "ci_inv (s\<lparr>cr_db := db', cr_calls := remove1 (Polling cc t w now) (cr_calls s),
    cr_continued := noted (continues res) k (cr_continued s)\<rparr>)"
    (is "ci_inv (?u db')")
proof -
  have ok: "waits_ok (cr_db s)" "\<forall>c\<in>set (cr_calls s). row_kept (cr_db s) c" "\<And>j. ci_ok j s"
    by (rule ci_invD[OF assms(1)])+
  from ok(2) assms(2,4) have row: "map_option cw_id (wait_of (cr_db s) k) = Some (cw_id w)" by fastforce
  have one: "0 < asking k (cr_calls s)" using asking_pos[OF assms(2)] assms(4) by simp
  have upd: "ci_inv (?u db')" if u: "row_update w f (cr_db s) db'" "\<And>x. continues res \<Longrightarrow> cw_status (f x) = ''SUCCESS''" for f
  proof -
    obtain v where v: "waits_ok db'" "wait_of db' = (wait_of (cr_db s))(k \<mapsto> f v)" "\<forall>c\<in>set (cr_calls s). row_kept db' c"
      by (rule write_inv[OF assms(1) u(1) row])
    have "continues res \<Longrightarrow> in_progress (Some (f v)) = 0" using u(2)[of v] by (simp add: in_progress_def)
    then have "ci_ok j (?u db')" for j
      using ok(3)[of j] one v(2) in_progress_le[of "Some (f v)"] assms(2,4)
      by (cases "j = k") (auto simp: ci_ok_def asking_simps)
    with v(1,3) show ?thesis by (auto simp: ci_inv_def dest: notin_set_remove1)
  qed
  from assms(3) show ?thesis
  proof (cases rule: commit_pollE)
    case (kept h)
    then have "wait_of db' = wait_of (cr_db s)" "waits_ok db'" using ok(1) by simp_all
    moreover from this(1) have "row_kept db' c = row_kept (cr_db s) c" for c by (cases c) simp_all
    moreover have "ci_ok j (?u db')" for j
      using ok(3)[of j] kept(2) calculation(1) by (auto simp: ci_ok_def asking_simps)
    ultimately show ?thesis using ok(2) by (auto simp: ci_inv_def dest: notin_set_remove1)
  qed (use upd in auto)
qed

interpretation ci_machine: inductive_invariant ci_init "ci_step rt" ci_inv for rt
proof
  show "ci_inv s" if "ci_init s" for s
    using that by (simp add: ci_init_def ci_inv_def ci_ok_def waits_ok_def wait_of_def asking_def in_progress_def)
  show "ci_inv u" if "ci_inv s" "ci_step rt s u" for s u
    using that(2)
  proof cases
    case (upsert cc tg timeout ct db' res)
    then show ?thesis using upsert_inv[OF that(1) upsert(3) refl] by simp
  next
    case (expire cc t w now db' d)
    then show ?thesis using expire_inv[OF that(1) expire(2,3)] by simp
  next
    case (begin_ask cc t ct force w)
    then show ?thesis using begin_ask_inv[OF that(1) begin_ask(2) refl] by simp
  next
    case (commit_ask cc t w now out db' res)
    then show ?thesis using commit_inv[OF that(1) commit_ask(2,3) refl] by simp
  next
    case (begin_expire cc t ct force w)
    then show ?thesis using that(1) begin_pollD(1)[of cc "cr_db s" t ct force w]
      by (auto simp: ci_inv_def ci_ok_def asking_simps)
  next
    case (crash c)
    have "ci_ok j (s\<lparr>cr_calls := remove1 c (cr_calls s)\<rparr>)" for j
    proof -
      have "ci_ok j s" by (rule ci_invD[OF that(1)])
      then show ?thesis by (auto simp: ci_ok_def asking_simps)
    qed
    then show ?thesis using crash that(1) by (auto simp: ci_inv_def dest: notin_set_remove1)
  qed (use that(1) in \<open>auto simp: ci_inv_def ci_ok_def asking_simps\<close>)
qed

section \<open>Schedules\<close>

lemma poll_interval_bounds:
  assumes "0 < cc_base cc" and "1 \<le> cc_multiplier cc"
  shows "min (cc_base cc) (cc_max cc) \<le> poll_interval cc n" "poll_interval cc n \<le> cc_max cc"
proof -
  have "1 \<le> cc_multiplier cc ^ nat (min n 3)" using assms(2) by (rule one_le_power)
  then have "cc_base cc * 1 \<le> cc_base cc * cc_multiplier cc ^ nat (min n 3)" using assms(1) by (intro mult_left_mono) simp_all
  then show "min (cc_base cc) (cc_max cc) \<le> poll_interval cc n" by (auto simp: poll_interval_def)
qed (simp add: poll_interval_def)

text \<open>A poll that asks to wait schedules the next one.\<close>

lemma poll_schedules:
  assumes "waits_ok db" and "poll_ci cc fetch db b t ct force = (db', b', Inr d)" and "dp_action d \<in> {''WAITING'', ''PROVIDER_TIMEOUT''}"
  obtains w i where "wait_of db' (cc_project cc, t) = Some w" "cw_next_poll w = Some (from_timestamp (now_ts ct + i))" "dp_next d = Some i"
    "i = cc_base cc \<or> (\<exists>n. i = poll_interval cc n)"
proof -
  let ?k = "(cc_project cc, t)"
  let ?now = "now_ts ct"
  obtain w where w: "wait_of db ?k = Some w"
    using assms(2,3) by (cases "wait_of db ?k") (auto simp: poll_ci_simps get_wait_record_eq disposition_def)
  then have got: "get_wait_record cc db t = Some w" by (simp add: get_wait_record_eq)
  obtain bb out where f: "fetch b (request_for w (from_timestamp ?now)) = (bb, out)" by fastforce
  note step = assms(2)[unfolded poll_ci_simps got option.case Let_def f prod.case]
  have out: "(case out of Fetched ob \<Rightarrow> record_observation cc db w t ob ?now = (db', Inr d) | Fetch_Raises msg \<Rightarrow> False
      | Fetch_Timeout msg \<Rightarrow> db' = update_wait db (cw_id w) (\<lambda>x. x\<lparr>cw_next_poll := Some (from_timestamp (?now + cc_base cc)),
                  cw_updated_at := from_timestamp ?now\<rparr>) \<and> dp_next d = Some (cc_base cc))"
    using step f assms(3) by (auto simp: disposition_def split: if_splits fetch_outcome.splits prod.splits)
  show ?thesis
  proof (cases out)
    case (Fetch_Timeout msg)
    let ?f = "\<lambda>x. x\<lparr>cw_next_poll := Some (from_timestamp (?now + cc_base cc)), cw_updated_at := from_timestamp ?now\<rparr>"
    have "wait_of db' ?k = Some (?f w)"
      using out update_wait_lookup[OF assms(1) w, of ?f ?k] by (simp add: Fetch_Timeout)
    then show ?thesis using out by (intro that[of "?f w" "cc_base cc"]) (simp_all add: Fetch_Timeout)
  next
    case (Fetched ob)
    let ?i = "poll_interval cc (next_unchanged w ob)"
    let ?db = "db\<lparr>ci_history := ci_history db @ [history_row cc w t ob]\<rparr>"
    have pend: "is_pending (ob_status ob)" "record_pending cc ?db w ob ?now = (db', d)"
      using out assms(3) by (auto simp: Fetched record_observation_def record_success_def record_failure_def disposition_def Let_def
          split: if_splits prod.splits)
    let ?st = "ci_status_value (ob_status ob)"
    let ?f = "\<lambda>x. x\<lparr>cw_status := ?st, cw_last_status := ?st, cw_last_head := Some (ob_head ob),
         cw_last_at := Some (ob_at ob), cw_next_poll := Some (from_timestamp (?now + ?i)),
         cw_poll_count := cw_poll_count w + 1, cw_unchanged := next_unchanged w ob, cw_interval := ?i,
         cw_digest := Some (ob_digest ob), cw_updated_at := from_timestamp ?now\<rparr>"
    have d: "db' = update_wait ?db (cw_id w) ?f" "dp_next d = Some ?i"
      using pend(2) by (auto simp: record_pending_def disposition_def Let_def)
    have "wait_of db' ?k = Some (?f w)"
      unfolding d(1) by (subst update_wait_lookup[of _ ?k w]) (use assms(1) w in simp_all)
    then show ?thesis using d(2) by (intro that[of "?f w" ?i]) auto
  next
    case (Fetch_Raises msg)
    then show ?thesis using out by simp
  qed
qed

lemma poll_not_due:
  assumes "wait_of db (cc_project cc, t) = Some w" and "cw_next_poll w = Some u" and "now_ts ct < to_timestamp u"
    and "poll_ci cc fetch db b t ct False = (db', b', res)"
  shows "b' = b"
  using assms by (auto simp: poll_ci_simps get_wait_record_eq Let_def split: if_splits)

section \<open>An example wait\<close>

definition sample_ci :: ci_controller where
  "sample_ci = \<lparr>cc_project = ''p'', cc_base = 15, cc_max = 120, cc_multiplier = 2, cc_timeout = 3600\<rparr>"

definition sample_target :: ci_target where
  "sample_target = \<lparr>tg_run = ''r'', tg_task = ''T1'', tg_provider = ''github'', tg_workflow = ''ci'', tg_ci_run = ''7'',
     tg_expected = ''abc'', tg_url = None\<rparr>"

definition time_at :: "rat \<Rightarrow> call_time" where
  "time_at t = \<lparr>current_time = Some t, clock = 0, system_now = 0\<rparr>"

definition sample_waiting :: ci_store where
  "sample_waiting = \<lparr>ci_waits = [new_wait sample_runtime sample_ci sample_target 0 3600000000], ci_history = []\<rparr>"

definition answering :: "(CIStatus \<times> string) list \<Rightarrow> fake_provider" where
  "answering xs = \<lparr>fp_sequence = xs, fp_calls = 0, fp_timeout = False\<rparr>"

lemma time_at_simps [simp]: "now_ts (time_at t) = t" "from_timestamp 0 = 0" "from_timestamp 3600 = 3600000000"
  "to_timestamp 0 = 0" "to_timestamp 3600000000 = 3600"
  by (simp_all add: now_ts_def time_at_def from_timestamp_def to_timestamp_def round_half_even_def)

lemma sample_upsert:
  "upsert_wait sample_runtime sample_ci \<lparr>ci_waits = [], ci_history = []\<rparr> sample_target None (time_at 0)
     = (sample_waiting, Inr (new_wait sample_runtime sample_ci sample_target 0 3600000000))"
  by (simp add: upsert_wait_def get_wait_record_def sample_waiting_def sample_ci_def sample_target_def new_wait_def Let_def)

lemma sample_wait:
  "waits_ok sample_waiting" "wait_of sample_waiting (''p'', ''T1'') = Some (new_wait sample_runtime sample_ci sample_target 0 3600000000)"
  by (simp_all add: waits_ok_def wait_of_def sample_waiting_def) (simp add: new_wait_def sample_ci_def sample_target_def)

lemma due_poll:
  assumes "wait_of db (cc_project cc, t) = Some w" and "cw_status w \<notin> {''SUCCESS'', ''FAILURE'', ''CANCELLED'', ''TIMED_OUT''}"
    and "now_ts ct \<le> to_timestamp (cw_deadline w)" and "\<And>u. cw_next_poll w = Some u \<Longrightarrow> to_timestamp u \<le> now_ts ct"
    and "fetch b (request_for w (from_timestamp (now_ts ct))) = (b', Fetched ob)"
    and "record_observation cc db w t ob (now_ts ct) = (db', res)"
  shows "poll_ci cc fetch db b t ct force = (db', b', res)"
proof -
  have "\<not> (case cw_next_poll w of None \<Rightarrow> False | Some u \<Rightarrow> now_ts ct < to_timestamp u)"
    using assms(4) by (auto split: option.splits)
  then show ?thesis using assms(1-3,5,6) by (simp add: poll_ci_simps get_wait_record_eq Let_def)
qed

lemma observation_simps [simp]:
  "ob_status (create_ci_observation rt q url h st tm raw n) = st" "ob_head (create_ci_observation rt q url h st tm raw n) = h"
  "ob_provider (create_ci_observation rt q url h st tm raw n) = rq_provider q"
  "ob_workflow (create_ci_observation rt q url h st tm raw n) = rq_workflow q"
  "ob_ci_run (create_ci_observation rt q url h st tm raw n) = rq_ci_run q"
  by (simp_all add: create_ci_observation_def Let_def)

lemma request_simps [simp]:
  "rq_provider (request_for w n) = cw_provider w" "rq_workflow (request_for w n) = cw_workflow w"
  "rq_ci_run (request_for w n) = cw_ci_run w" "rq_expected (request_for w n) = cw_expected w"
  by (simp_all add: request_for_def)

abbreviation sample_wait_row :: ci_wait_record where
  "sample_wait_row \<equiv> new_wait sample_runtime sample_ci sample_target 0 3600000000"

lemma sample_row [simp]:
  "cw_status sample_wait_row = ''QUEUED''" "cw_deadline sample_wait_row = 3600000000" "cw_next_poll sample_wait_row = Some 0"
  "cw_expected sample_wait_row = ''abc''" "cc_project sample_ci = ''p''" "ci_history sample_waiting = []"
  "cw_poll_count sample_wait_row = 0"
  by (simp_all add: new_wait_def sample_target_def sample_ci_def sample_waiting_def)

lemma sample_continue:
  obtains db' b' d where "poll_ci sample_ci (fake_fetch sample_runtime) sample_waiting (answering [(CI_SUCCESS, ''abc'')]) ''T1'' (time_at 0) False
     = (db', b', Inr d)" "dp_action d = ''CONTINUE''"
proof -
  obtain b' ob where f: "fake_fetch sample_runtime (answering [(CI_SUCCESS, ''abc'')]) (request_for sample_wait_row 0) = (b', Fetched ob)"
      "ob_status ob = CI_SUCCESS" "exact_success sample_wait_row ob"
    by (simp add: fake_fetch_def answering_def exact_success_def)
  obtain db' d where r: "record_observation sample_ci sample_waiting sample_wait_row ''T1'' ob 0 = (db', Inr d)" "dp_action d = ''CONTINUE''"
    using f(2,3) by (simp add: record_observation_def is_pending_def record_success_def exact_success_def disposition_def)
  have "poll_ci sample_ci (fake_fetch sample_runtime) sample_waiting (answering [(CI_SUCCESS, ''abc'')]) ''T1'' (time_at 0) False = (db', b', Inr d)"
    by (rule due_poll[of _ _ _ sample_wait_row]) (use f(1) r(1) in \<open>simp_all add: sample_wait\<close>)
  then show ?thesis using r(2) by (rule that)
qed

lemma sample_pending:
  obtains db' b' d where "poll_ci sample_ci (fake_fetch sample_runtime) sample_waiting (answering []) ''T1'' (time_at 0) False
     = (db', b', Inr d)" "dp_action d = ''WAITING''" "dp_next d = Some 15"
proof -
  obtain b' ob where f: "fake_fetch sample_runtime (answering []) (request_for sample_wait_row 0) = (b', Fetched ob)"
      "ob_status ob = IN_PROGRESS"
    by (simp add: fake_fetch_def answering_def)
  obtain db' d where r: "record_observation sample_ci sample_waiting sample_wait_row ''T1'' ob 0 = (db', Inr d)" "dp_action d = ''WAITING''"
      "dp_next d = Some 15"
    using f(2) by (simp add: record_observation_def is_pending_def record_pending_def disposition_def Let_def next_unchanged_def
        poll_interval_def) (simp add: sample_ci_def)
  have "poll_ci sample_ci (fake_fetch sample_runtime) sample_waiting (answering []) ''T1'' (time_at 0) False = (db', b', Inr d)"
    by (rule due_poll[of _ _ _ sample_wait_row]) (use f(1) r(1) in \<open>simp_all add: sample_wait\<close>)
  then show ?thesis using r(2,3) by (rule that)
qed

text \<open>A poll commits what it saw although the row has changed since it was read: of two overlapping
  polls that both see the exact success both continue, and a poll that saw a run in progress
  reopens a wait that is finished by now.\<close>

lemma exact_success_continues:
  assumes "exact_success w ob" and "\<forall>h\<in>set (ci_history db). ch_poll h \<noteq> ob_poll ob"
  obtains db' d where "commit_poll cc db w t now (Fetched ob) = (db', Inr d)" "dp_action d = ''CONTINUE''"
    "ci_history db' = ci_history db @ [history_row cc w t ob]"
  using assms
  by (auto simp: commit_poll_def record_observation_def record_success_def exact_success_def is_pending_def disposition_def
      update_wait_def list_ex_iff Let_def)

lemma overlapping_polls_both_continue:
  assumes "exact_success w ob" and "exact_success w ob'" and "ob_poll ob' \<noteq> ob_poll ob"
    and "\<forall>h\<in>set (ci_history db). ch_poll h \<notin> {ob_poll ob, ob_poll ob'}"
  obtains db1 db2 d d' where "commit_poll cc db w t now (Fetched ob) = (db1, Inr d)" "dp_action d = ''CONTINUE''"
    "commit_poll cc db1 w t now' (Fetched ob') = (db2, Inr d')" "dp_action d' = ''CONTINUE''"
proof -
  obtain db1 d where 1: "commit_poll cc db w t now (Fetched ob) = (db1, Inr d)" "dp_action d = ''CONTINUE''"
      "ci_history db1 = ci_history db @ [history_row cc w t ob]"
    using exact_success_continues[OF assms(1), of db cc t now] assms(4) by auto
  have "\<forall>h\<in>set (ci_history db1). ch_poll h \<noteq> ob_poll ob'" using 1(3) assms(3,4) by (auto simp: history_row_def)
  from exact_success_continues[OF assms(2) this, of cc t now'] obtain db2 d' where
    "commit_poll cc db1 w t now' (Fetched ob') = (db2, Inr d')" "dp_action d' = ''CONTINUE''" .
  with 1(1,2) show thesis by (rule that)
qed

lemma stale_pending_poll_reopens:
  assumes "waits_ok db" and "wait_of db k = Some v" and "cw_id v = cw_id w" and "is_pending (ob_status ob)"
    and "\<forall>h\<in>set (ci_history db). ch_poll h \<noteq> ob_poll ob" and "commit_poll cc db w t now (Fetched ob) = (db', res)"
  shows "map_option wait_open (wait_of db' k) = Some True \<and> map_option cw_emitted (wait_of db' k) = Some (cw_emitted v)"
proof -
  let ?st = "ci_status_value (ob_status ob)"
  let ?f = "\<lambda>x. x\<lparr>cw_status := ?st, cw_last_status := ?st, cw_last_head := Some (ob_head ob),
         cw_last_at := Some (ob_at ob), cw_next_poll := Some (from_timestamp (now + poll_interval cc (next_unchanged w ob))),
         cw_poll_count := cw_poll_count w + 1, cw_unchanged := next_unchanged w ob, cw_interval := poll_interval cc (next_unchanged w ob),
         cw_digest := Some (ob_digest ob), cw_updated_at := from_timestamp now\<rparr>"
  have "row_update w ?f db db'"
    using assms(4-6) by (auto simp: commit_poll_def record_observation_def record_pending_def row_update_def list_ex_iff Let_def)
  from row_update_changed[OF this assms(1-3)] assms(4) show ?thesis
    by (auto simp: wait_set_def wait_open_def is_pending_def)
qed

text \<open>The observation of the example run's success under a poll identifier.\<close>

definition seen_success :: "string \<Rightarrow> ci_observation" where
  "seen_success pid = \<lparr>ob_version = CI_OBSERVATION_VERSION, ob_project = ''p'', ob_run = ''r'', ob_task = ''T1'',
     ob_provider = ''github'', ob_workflow = ''ci'', ob_ci_run = ''7'', ob_url = None, ob_expected = ''abc'', ob_head = ''abc'',
     ob_status = CI_SUCCESS, ob_at = ''t'', ob_poll = pid, ob_digest = ''d'', ob_details = []\<rparr>"

lemma seen_success_exact: "exact_success sample_wait_row (seen_success pid)"
  by (simp add: exact_success_def seen_success_def new_wait_def sample_target_def)

lemma sample_begin: "0 \<le> u \<Longrightarrow> u \<le> 3600 \<Longrightarrow> begin_poll sample_ci sample_waiting ''T1'' (time_at u) False = Poll_Fetch sample_wait_row"
  by (simp add: begin_poll_def get_wait_record_eq sample_wait Let_def)

lemma ci_reach:
  "reachable ci_init (ci_step rt) s \<Longrightarrow> ci_step rt s u \<Longrightarrow> reachable ci_init (ci_step rt) u"
  by (rule reach_step)

lemma sample_overlap:
  obtains s where "reachable ci_init (ci_step sample_runtime) s" "cr_opened s = [(''p'', ''T1'')]"
    "cr_overlaps s = [(''p'', ''T1'')]" "cr_continued s = [(''p'', ''T1''), (''p'', ''T1'')]"
proof -
  let ?k = "(''p'', ''T1'')"
  let ?r = "Registering sample_ci sample_target None (time_at 0)"
  let ?a = "Polling sample_ci ''T1'' sample_wait_row 0"
  let ?b = "Polling sample_ci ''T1'' sample_wait_row 1"
  let ?run = "\<lambda>db cs n ov m. \<lparr>cr_db = db, cr_calls = cs, cr_opened = n, cr_overlaps = ov, cr_continued = m\<rparr>"
  let ?e = "\<lparr>ci_waits = [], ci_history = []\<rparr>"
  obtain db1 db2 d d' where c: "commit_poll sample_ci sample_waiting sample_wait_row ''T1'' 0 (Fetched (seen_success ''1'')) = (db1, Inr d)"
      "dp_action d = ''CONTINUE''"
      "commit_poll sample_ci db1 sample_wait_row ''T1'' 1 (Fetched (seen_success ''2'')) = (db2, Inr d')" "dp_action d' = ''CONTINUE''"
    by (rule overlapping_polls_both_continue[of sample_wait_row "seen_success ''1''" "seen_success ''2''" sample_waiting sample_ci "''T1''" 0 1])
      (simp_all add: seen_success_exact, simp add: seen_success_def)
  have tgt: "tg_task sample_target = ''T1''" by (simp add: sample_target_def)
  have r0: "reachable ci_init (ci_step sample_runtime) (?run ?e [] [] [] [])"
    by (rule reach_init) (simp add: ci_init_def)
  have "ci_step sample_runtime (?run ?e [] [] [] []) (?run ?e [?r] [] [] [])"
    using begin_register[of sample_ci "?run ?e [] [] [] []" sample_target] by (simp add: get_wait_record_def)
  from ci_reach[OF r0 this] have r1: "reachable ci_init (ci_step sample_runtime) (?run ?e [?r] [] [] [])" .
  have "ci_step sample_runtime (?run ?e [?r] [] [] []) (?run sample_waiting [] [?k] [] [])"
    using upsert[of sample_ci sample_target None "time_at 0" "?run ?e [?r] [] [] []" sample_runtime sample_waiting "Inr sample_wait_row"] sample_upsert
    by (simp add: noted_def answered_def tgt)
  from ci_reach[OF r1 this] have r2: "reachable ci_init (ci_step sample_runtime) (?run sample_waiting [] [?k] [] [])" .
  have "ci_step sample_runtime (?run sample_waiting [] [?k] [] []) (?run sample_waiting [?a] [?k] [] [])"
    using begin_ask[of sample_ci "?run sample_waiting [] [?k] [] []" "''T1''" "time_at 0" False] sample_begin[of 0]
    by (simp add: noted_def asking_def)
  from ci_reach[OF r2 this] have r3: "reachable ci_init (ci_step sample_runtime) (?run sample_waiting [?a] [?k] [] [])" .
  have "ci_step sample_runtime (?run sample_waiting [?a] [?k] [] []) (?run sample_waiting [?b, ?a] [?k] [?k] [])"
    using begin_ask[of sample_ci "?run sample_waiting [?a] [?k] [] []" "''T1''" "time_at 1" False] sample_begin[of 1]
    by (simp add: noted_def asking_def)
  from ci_reach[OF r3 this] have r4: "reachable ci_init (ci_step sample_runtime) (?run sample_waiting [?b, ?a] [?k] [?k] [])" .
  have "ci_step sample_runtime (?run sample_waiting [?b, ?a] [?k] [?k] []) (?run db1 [?b] [?k] [?k] [?k])"
    using commit_ask[of sample_ci "''T1''" sample_wait_row 0 "?run sample_waiting [?b, ?a] [?k] [?k] []" "Fetched (seen_success ''1'')" db1 "Inr d"
      sample_runtime] c(1,2)
    by (simp add: noted_def continues_def)
  from ci_reach[OF r4 this] have r5: "reachable ci_init (ci_step sample_runtime) (?run db1 [?b] [?k] [?k] [?k])" .
  have "ci_step sample_runtime (?run db1 [?b] [?k] [?k] [?k]) (?run db2 [] [?k] [?k] [?k, ?k])"
    using commit_ask[of sample_ci "''T1''" sample_wait_row 1 "?run db1 [?b] [?k] [?k] [?k]" "Fetched (seen_success ''2'')" db2 "Inr d'"
      sample_runtime] c(3,4)
    by (simp add: noted_def continues_def)
  from ci_reach[OF r5 this] have r6: "reachable ci_init (ci_step sample_runtime) (?run db2 [] [?k] [?k] [?k, ?k])" .
  show thesis by (rule that[OF r6]) simp_all
qed

section \<open>Properties\<close>

text \<open>C24: A success of CI continues the work once per opening, but for polls that overlap. Registrations and polls of any number of
  processes interleave between their reads, the provider's answers and their writes, with any providers, clocks and forced
  polls, and processes may die in the middle. A task is continued, counting the polls still asking, at most as often as its
  wait was opened plus the number of polls that began to ask while another poll of the task was asking; strictly less often
  while the wait is open. So without overlapping polls each opening continues at most once.\<close>

theorem continuations_bounded:
  assumes "reachable ci_init (ci_step rt) s"
  shows "count_list (cr_continued s) k + asking k (cr_calls s) \<le> count_list (cr_opened s) k + count_list (cr_overlaps s) k
    \<and> (\<forall>w. wait_of (cr_db s) k = Some w \<and> wait_open w \<longrightarrow>
         count_list (cr_continued s) k < count_list (cr_opened s) k + count_list (cr_overlaps s) k)"
proof -
  have "ci_ok k s" by (rule ci_invD[OF ci_machine.inv_reachable[OF assms]])
  then show ?thesis by (auto simp: ci_ok_def in_progress_def wait_open_def)
qed

text \<open>C24 applied to the run that registers the example wait and lets two polls overlap, both of which see the success: the
  task is continued twice, the bound.\<close>

theorem continuations_bounded_witness:
  "\<exists>s. reachable ci_init (ci_step sample_runtime) s \<and> count_list (cr_continued s) (''p'', ''T1'') = 2
     \<and> count_list (cr_opened s) (''p'', ''T1'') = 1 \<and> count_list (cr_overlaps s) (''p'', ''T1'') = 1
     \<and> count_list (cr_continued s) (''p'', ''T1'') \<le> count_list (cr_opened s) (''p'', ''T1'') + count_list (cr_overlaps s) (''p'', ''T1'')"
proof -
  obtain s where s: "reachable ci_init (ci_step sample_runtime) s" "cr_opened s = [(''p'', ''T1'')]"
    "cr_overlaps s = [(''p'', ''T1'')]" "cr_continued s = [(''p'', ''T1''), (''p'', ''T1'')]"
    by (rule sample_overlap)
  from continuations_bounded[OF s(1), of "(''p'', ''T1'')"] s show ?thesis by (intro exI[of _ s]) simp
qed

text \<open>C11: A poll continues only on the awaited run: before the deadline, from an open wait, on an observation of success whose HEAD,
  provider, workflow and run identifier are those of the wait record. The record then stays successful: whatever the next poll
  of the task asks for, it reports completion, calls no provider and changes nothing.\<close>

theorem continues_on_exact_success:
  assumes "waits_ok db" and "poll_ci cc fetch db b t ct force = (db', b', Inr d)" and "dp_action d = ''CONTINUE''"
    and "poll_ci cc fetch' db' c t ct' force' = (db2, c2, res)"
  shows "\<exists>w ob. wait_of db (cc_project cc, t) = Some w \<and> cw_status w \<notin> {''SUCCESS'', ''FAILURE'', ''CANCELLED'', ''TIMED_OUT''}
      \<and> now_ts ct \<le> to_timestamp (cw_deadline w) \<and> fetch b (request_for w (from_timestamp (now_ts ct))) = (b', Fetched ob) \<and> exact_success w ob
    \<and> db2 = db' \<and> c2 = c \<and> (\<exists>d'. res = Inr d' \<and> dp_action d' = ''ALREADY_COMPLETED'')"
proof -
  let ?k = "(cc_project cc, t)"
  obtain w where w: "wait_of db ?k = Some w"
    using assms(2,3) by (cases "wait_of db ?k") (auto simp: poll_ci_simps get_wait_record_eq disposition_def)
  obtain bb out where f: "fetch b (request_for w (from_timestamp (now_ts ct))) = (bb, out)" by fastforce
  have got: "get_wait_record cc db t = Some w" using w by (simp add: get_wait_record_eq)
  note step = assms(2)[unfolded poll_ci_simps got option.case Let_def f prod.case]
  have pass: "cw_status w \<notin> {''SUCCESS'', ''FAILURE'', ''CANCELLED'', ''TIMED_OUT''}" "now_ts ct \<le> to_timestamp (cw_deadline w)"
    using step assms(3) by (auto simp: disposition_def split: if_splits)
  obtain ob where ob: "out = Fetched ob" "bb = b'" "record_observation cc db w t ob (now_ts ct) = (db', Inr d)"
    using step f assms(3) by (auto simp: disposition_def split: if_splits fetch_outcome.splits prod.splits)
  have e: "exact_success w ob \<and> (\<exists>w'. wait_of db' ?k = Some w' \<and> cw_status w' = ''SUCCESS'')"
    using ob(3)
  proof (cases rule: record_observationE)
    case (continued d f')
    then show ?thesis using row_update_changed[OF continued(4) assms(1) w refl] by (auto simp: wait_set_def)
  qed (use assms(3) in auto)
  then have "db2 = db' \<and> c2 = c \<and> (\<exists>d'. res = Inr d' \<and> dp_action d' = ''ALREADY_COMPLETED'')"
    using assms(4) by (auto simp: poll_ci_simps get_wait_record_eq disposition_def)
  then show ?thesis using w pass f ob(1,2) e by blast
qed

text \<open>C11 applied to the success of the example wait.\<close>

theorem continues_on_exact_success_witness:
  "\<exists>db' b' d d'. poll_ci sample_ci (fake_fetch sample_runtime) sample_waiting (answering [(CI_SUCCESS, ''abc'')]) ''T1'' (time_at 0) False
       = (db', b', Inr d) \<and> poll_ci sample_ci (fake_fetch sample_runtime) db' b' ''T1'' (time_at 99999) True = (db', b', Inr d')
     \<and> dp_action d' = ''ALREADY_COMPLETED''"
proof (rule sample_continue)
  fix db' b' d assume c: "poll_ci sample_ci (fake_fetch sample_runtime) sample_waiting (answering [(CI_SUCCESS, ''abc'')]) ''T1'' (time_at 0) False
     = (db', b', Inr d)" "dp_action d = ''CONTINUE''"
  obtain db2 c2 res where p: "poll_ci sample_ci (fake_fetch sample_runtime) db' b' ''T1'' (time_at 99999) True = (db2, c2, res)"
    by (metis prod_cases3)
  from continues_on_exact_success[OF sample_wait(1) c p] show ?thesis using c(1) p by auto
qed

text \<open>Polls are rate-limited: a poll that ends with the run still pending or the provider timing out schedules the next one after at
  least the smaller and at most the larger of base and maximal interval, and until then no unforced poll of the task, by any
  controller of the project, calls its provider.\<close>

lemma polls_rate_limited:
  assumes "waits_ok db" and "poll_ci cc fetch db b t ct force = (db1, b1, Inr d)" and "dp_action d \<in> {''WAITING'', ''PROVIDER_TIMEOUT''}"
    and "0 < cc_base cc" and "1 \<le> cc_multiplier cc"
    and "poll_ci cc' fetch' db1 c t ct' False = (db2, c', res)" and "cc_project cc' = cc_project cc"
  shows "\<exists>i. dp_next d = Some i \<and> min (cc_base cc) (cc_max cc) \<le> i \<and> i \<le> max (cc_base cc) (cc_max cc)
    \<and> (now_ts ct' < to_timestamp (from_timestamp (now_ts ct + i)) \<longrightarrow> c' = c)"
proof -
  obtain w i where w: "wait_of db1 (cc_project cc, t) = Some w" "cw_next_poll w = Some (from_timestamp (now_ts ct + i))" "dp_next d = Some i"
      "i = cc_base cc \<or> (\<exists>n. i = poll_interval cc n)"
    by (rule poll_schedules[OF assms(1-3)])
  have "min (cc_base cc) (cc_max cc) \<le> i" "i \<le> max (cc_base cc) (cc_max cc)"
    using w(4) poll_interval_bounds[OF assms(4,5)] by (auto simp: le_max_iff_disj)
  moreover have "c' = c" if "now_ts ct' < to_timestamp (from_timestamp (now_ts ct + i))"
    using poll_not_due[of db1 cc' t w, OF _ w(2) that assms(6)] w(1) assms(7) by simp
  ultimately show ?thesis using w(3) by blast
qed

end
