(* ===== verification/Auto_Scope.thy ===== *)
theory Auto_Scope
  imports Py_Prelude
begin

text \<open>
  The AUTO scope contract of \<^verbatim>\<open>src/bdb_vnext/auto_scope_contract.py\<close>: four scopes, the
  snapshot of canonical authority, the decision and \<open>evaluate_scope_transition\<close>, split at
  the section comments of the source into the gates and waits every scope shares, the
  current-task block and one block per scope; and the table of boundary fixtures.
\<close>

section \<open>Enumerations\<close>

datatype AutoScope = TASK | MILESTONE | PROJECT | UNTIL_STOPPED

definition DEFAULT_AUTO_SCOPE :: AutoScope where
  "DEFAULT_AUTO_SCOPE = MILESTONE"

datatype CanonicalWorkState =
    WS_COMPLETED
  | WS_WAITING
  | WS_PAUSED
  | WS_BLOCKED
  | WS_NO_RUNNABLE_WORK
  | WS_WAITING_FOR_PLAN
  | WS_RUNNABLE

datatype ScopeAction =
    LAUNCH_TASK
  | CONTINUE_TASK_RETRY
  | CONTINUE_TASK_REPAIR
  | STOP_SCOPE_COMPLETE
  | STOP_PROJECT_COMPLETE
  | STOP_EXTERNAL_STOP_REQUESTED
  | PAUSE_MANUAL_GATE_REQUIRED
  | PAUSE_POLICY_APPROVAL_REQUIRED
  | WAIT_DEPENDENCY_PENDING
  | WAIT_MILESTONE_GATE_PENDING
  | WAIT_CI_WAITING
  | WAIT_TRANSIENT_BACKOFF
  | HALT_NO_RUNNABLE_WORK
  | HALT_WAITING_FOR_PLAN
  | HALT_BLOCKED

text \<open>The \<open>.value\<close> of the members.\<close>

fun scope_value :: "AutoScope \<Rightarrow> string" where
  "scope_value TASK = ''TASK''"
| "scope_value MILESTONE = ''MILESTONE''"
| "scope_value PROJECT = ''PROJECT''"
| "scope_value UNTIL_STOPPED = ''UNTIL_STOPPED''"

fun work_state_value :: "CanonicalWorkState \<Rightarrow> string" where
  "work_state_value WS_COMPLETED = ''COMPLETED''"
| "work_state_value WS_WAITING = ''WAITING''"
| "work_state_value WS_PAUSED = ''PAUSED''"
| "work_state_value WS_BLOCKED = ''BLOCKED''"
| "work_state_value WS_NO_RUNNABLE_WORK = ''NO_RUNNABLE_WORK''"
| "work_state_value WS_WAITING_FOR_PLAN = ''WAITING_FOR_PLAN''"
| "work_state_value WS_RUNNABLE = ''RUNNABLE''"

fun action_value :: "ScopeAction \<Rightarrow> string" where
  "action_value LAUNCH_TASK = ''LAUNCH_TASK''"
| "action_value CONTINUE_TASK_RETRY = ''CONTINUE_TASK_RETRY''"
| "action_value CONTINUE_TASK_REPAIR = ''CONTINUE_TASK_REPAIR''"
| "action_value STOP_SCOPE_COMPLETE = ''STOP_SCOPE_COMPLETE''"
| "action_value STOP_PROJECT_COMPLETE = ''STOP_PROJECT_COMPLETE''"
| "action_value STOP_EXTERNAL_STOP_REQUESTED = ''STOP_EXTERNAL_STOP_REQUESTED''"
| "action_value PAUSE_MANUAL_GATE_REQUIRED = ''PAUSE_MANUAL_GATE_REQUIRED''"
| "action_value PAUSE_POLICY_APPROVAL_REQUIRED = ''PAUSE_POLICY_APPROVAL_REQUIRED''"
| "action_value WAIT_DEPENDENCY_PENDING = ''WAIT_DEPENDENCY_PENDING''"
| "action_value WAIT_MILESTONE_GATE_PENDING = ''WAIT_MILESTONE_GATE_PENDING''"
| "action_value WAIT_CI_WAITING = ''WAIT_CI_WAITING''"
| "action_value WAIT_TRANSIENT_BACKOFF = ''WAIT_TRANSIENT_BACKOFF''"
| "action_value HALT_NO_RUNNABLE_WORK = ''HALT_NO_RUNNABLE_WORK''"
| "action_value HALT_WAITING_FOR_PLAN = ''HALT_WAITING_FOR_PLAN''"
| "action_value HALT_BLOCKED = ''HALT_BLOCKED''"

text \<open>\<open>AutoScope(text)\<close>; \<open>None\<close> stands for the \<open>ValueError\<close>.\<close>

definition scope_of_value :: "string \<Rightarrow> AutoScope option" where
  "scope_of_value s = find (\<lambda>c. scope_value c = s) [TASK, MILESTONE, PROJECT, UNTIL_STOPPED]"

section \<open>Snapshot and decision\<close>

record scope_snapshot =
  current_scope :: AutoScope
  current_task_id :: "string option"
  current_task_status :: "string option"
  task_needs_retry :: bool
  task_needs_repair :: bool
  task_attempts_exhausted :: bool
  accepted_tasks_in_current_scope :: int
  current_milestone_id :: "string option"
  all_milestone_tasks_accepted :: bool
  current_milestone_gate_status :: "string option"
  next_task_in_milestone_id :: "string option"
  next_task_dependencies_satisfied :: bool
  next_milestone_id :: "string option"
  first_task_in_next_milestone_id :: "string option"
  next_milestone_dependencies_satisfied :: bool
  all_project_milestones_completed :: bool
  manual_gate_required :: bool
  manual_gate_approved :: bool
  policy_gate_required :: bool
  policy_gate_approved :: bool
  stop_requested :: bool
  ci_waiting :: bool
  transient_backoff :: bool
  approved_plan_exhausted :: bool

text \<open>The field defaults of the data class.\<close>

definition default_snapshot :: "AutoScope \<Rightarrow> scope_snapshot" where
  "default_snapshot scope = \<lparr>
     current_scope = scope, current_task_id = None, current_task_status = None,
     task_needs_retry = False, task_needs_repair = False, task_attempts_exhausted = False,
     accepted_tasks_in_current_scope = 0, current_milestone_id = None,
     all_milestone_tasks_accepted = False, current_milestone_gate_status = None,
     next_task_in_milestone_id = None, next_task_dependencies_satisfied = True,
     next_milestone_id = None, first_task_in_next_milestone_id = None,
     next_milestone_dependencies_satisfied = True, all_project_milestones_completed = False,
     manual_gate_required = False, manual_gate_approved = False,
     policy_gate_required = False, policy_gate_approved = False, stop_requested = False,
     ci_waiting = False, transient_backoff = False, approved_plan_exhausted = False\<rparr>"

record scope_decision =
  action :: ScopeAction
  canonical_work_state :: CanonicalWorkState
  selected_task_id :: "string option"
  selected_milestone_id :: "string option"
  reason_code :: string
  explanation :: string
  crosses_task_boundary :: bool
  crosses_milestone_boundary :: bool
  bypasses_gate :: bool
  bypasses_dependency :: bool
  bypasses_policy :: bool
  is_terminal :: bool

text \<open>A decision with the given action, state, reason and text and every other field at its
  default.\<close>

definition decision :: "ScopeAction \<Rightarrow> CanonicalWorkState \<Rightarrow> string \<Rightarrow> string \<Rightarrow> scope_decision" where
  "decision a w rc text = \<lparr>action = a, canonical_work_state = w, selected_task_id = None,
     selected_milestone_id = None, reason_code = rc, explanation = text,
     crosses_task_boundary = False, crosses_milestone_boundary = False, bypasses_gate = False,
     bypasses_dependency = False, bypasses_policy = False, is_terminal = False\<rparr>"

section \<open>The evaluator\<close>

text \<open>Sections 1 to 5 of the source: STOP, exhausted plan, completed project, manual and policy
  gates, durable waits. \<open>None\<close>: none of them applies.\<close>

definition gate_and_wait_decision :: "scope_snapshot \<Rightarrow> scope_decision option" where
  "gate_and_wait_decision s =
     (if stop_requested s then
        Some ((decision STOP_EXTERNAL_STOP_REQUESTED WS_PAUSED ''STOP_REQUESTED''
          ''Execution halted because external STOP was explicitly requested.'')\<lparr>is_terminal := True\<rparr>)
      else if approved_plan_exhausted s then
        Some ((decision HALT_WAITING_FOR_PLAN WS_WAITING_FOR_PLAN ''WAITING_FOR_PLAN''
          ''Approved project plan exhausted; waiting for plan extension. Never fabricating tasks.'')
          \<lparr>is_terminal := True\<rparr>)
      else if all_project_milestones_completed s \<and> current_scope s \<in> {PROJECT, UNTIL_STOPPED} then
        Some ((decision STOP_PROJECT_COMPLETE WS_COMPLETED ''PROJECT_COMPLETED''
          ''All milestones and milestone gates in project are accepted. Project is complete.'')
          \<lparr>is_terminal := True\<rparr>)
      else if manual_gate_required s \<and> \<not> manual_gate_approved s then
        Some (decision PAUSE_MANUAL_GATE_REQUIRED WS_PAUSED ''MANUAL_APPROVAL_REQUIRED''
          ''A manual operator checkpoint is required before proceeding.'')
      else if policy_gate_required s \<and> \<not> policy_gate_approved s then
        Some (decision PAUSE_POLICY_APPROVAL_REQUIRED WS_PAUSED ''POLICY_APPROVAL_REQUIRED''
          ''A policy gate approval is required before proceeding.'')
      else if ci_waiting s then
        Some ((decision WAIT_CI_WAITING WS_WAITING ''CI_WAITING_DURABLE''
          ''Task is durably waiting for CI pipeline completion.'')
          \<lparr>selected_task_id := current_task_id s\<rparr>)
      else if transient_backoff s then
        Some ((decision WAIT_TRANSIENT_BACKOFF WS_WAITING ''TRANSIENT_BACKOFF''
          ''Transient recovery is in exponential backoff before next attempt.'')
          \<lparr>selected_task_id := current_task_id s\<rparr>)
      else None)"

text \<open>Section 6: the current task is in progress or failed.\<close>

definition current_task_decision :: "scope_snapshot \<Rightarrow> scope_decision" where
  "current_task_decision s =
     (if task_attempts_exhausted s then
        (decision HALT_BLOCKED WS_BLOCKED ''BUDGET_EXHAUSTED''
          (''Task '' @ opt_str (current_task_id s) @ '' exhausted its failure/repair budget.''))
          \<lparr>selected_task_id := current_task_id s, is_terminal := True\<rparr>
      else if task_needs_repair s then
        (decision CONTINUE_TASK_REPAIR WS_RUNNABLE ''TASK_REPAIR_LOOP''
          (''Continuing repair loop attempt for task '' @ opt_str (current_task_id s) @ ''.''))
          \<lparr>selected_task_id := current_task_id s\<rparr>
      else if task_needs_retry s then
        (decision CONTINUE_TASK_RETRY WS_RUNNABLE ''TASK_TRANSIENT_RETRY''
          (''Continuing transient retry attempt for task '' @ opt_str (current_task_id s) @ ''.''))
          \<lparr>selected_task_id := current_task_id s\<rparr>
      else
        (decision LAUNCH_TASK WS_RUNNABLE ''TASK_IN_PROGRESS''
          (''Current task '' @ opt_str (current_task_id s) @ '' is in progress.''))
          \<lparr>selected_task_id := current_task_id s, selected_milestone_id := current_milestone_id s\<rparr>)"

definition no_work :: "string \<Rightarrow> scope_decision" where
  "no_work text = (decision HALT_NO_RUNNABLE_WORK WS_NO_RUNNABLE_WORK ''NO_RUNNABLE_WORK'' text)
     \<lparr>is_terminal := True\<rparr>"

definition task_scope_decision :: "scope_snapshot \<Rightarrow> scope_decision" where
  "task_scope_decision s =
     (if current_task_status s = Some ''ACCEPTED'' \<or> accepted_tasks_in_current_scope s \<ge> 1 then
        (decision STOP_SCOPE_COMPLETE WS_COMPLETED ''TASK_SCOPE_COMPLETED''
          ''TASK scope stops after exactly 1 accepted task. Will not launch next task.'')
          \<lparr>is_terminal := True\<rparr>
      else if opt_true (next_task_in_milestone_id s) then
        (if \<not> next_task_dependencies_satisfied s then
           (decision WAIT_DEPENDENCY_PENDING WS_WAITING ''TASK_DEPENDENCY_PENDING''
             (''Task '' @ opt_str (next_task_in_milestone_id s) @ '' dependencies are not yet satisfied.''))
             \<lparr>selected_task_id := next_task_in_milestone_id s\<rparr>
         else
           (decision LAUNCH_TASK WS_RUNNABLE ''TASK_SCOPE_START''
             (''Starting task '' @ opt_str (next_task_in_milestone_id s) @ '' under TASK scope.''))
             \<lparr>selected_task_id := next_task_in_milestone_id s,
              selected_milestone_id := current_milestone_id s\<rparr>)
      else no_work ''No runnable task found in TASK scope.'')"

definition milestone_scope_decision :: "scope_snapshot \<Rightarrow> scope_decision" where
  "milestone_scope_decision s =
     (if opt_true (next_task_in_milestone_id s) then
        (if \<not> next_task_dependencies_satisfied s then
           (decision WAIT_DEPENDENCY_PENDING WS_WAITING ''MILESTONE_TASK_DEPENDENCY_PENDING''
             (''Task '' @ opt_str (next_task_in_milestone_id s) @ '' dependencies not yet satisfied.''))
             \<lparr>selected_task_id := next_task_in_milestone_id s\<rparr>
         else
           (decision LAUNCH_TASK WS_RUNNABLE ''MILESTONE_NEXT_TASK''
             (''Advancing to next task '' @ opt_str (next_task_in_milestone_id s) @ '' within milestone.''))
             \<lparr>selected_task_id := next_task_in_milestone_id s,
              selected_milestone_id := current_milestone_id s, crosses_task_boundary := True\<rparr>)
      else if all_milestone_tasks_accepted s then
        (if current_milestone_gate_status s \<noteq> Some ''ACCEPTED'' then
           (decision WAIT_MILESTONE_GATE_PENDING WS_WAITING ''MILESTONE_GATE_PENDING''
             (''All tasks accepted; milestone gate for '' @ opt_str (current_milestone_id s) @ '' is pending.''))
             \<lparr>selected_milestone_id := current_milestone_id s\<rparr>
         else
           (decision STOP_SCOPE_COMPLETE WS_COMPLETED ''MILESTONE_SCOPE_COMPLETED''
             (''Milestone '' @ opt_str (current_milestone_id s)
               @ '' gate accepted. MILESTONE scope complete; will not cross to next milestone.''))
             \<lparr>selected_milestone_id := current_milestone_id s, is_terminal := True\<rparr>)
      else no_work ''No runnable task found within current milestone.'')"

definition project_scope_decision :: "scope_snapshot \<Rightarrow> scope_decision" where
  "project_scope_decision s =
     (if opt_true (next_task_in_milestone_id s) then
        (if \<not> next_task_dependencies_satisfied s then
           (decision WAIT_DEPENDENCY_PENDING WS_WAITING ''TASK_DEPENDENCY_PENDING''
             (''Task '' @ opt_str (next_task_in_milestone_id s) @ '' dependencies not yet satisfied.''))
             \<lparr>selected_task_id := next_task_in_milestone_id s\<rparr>
         else
           (decision LAUNCH_TASK WS_RUNNABLE ''PROJECT_NEXT_TASK''
             (''Launching task '' @ opt_str (next_task_in_milestone_id s) @ ''.''))
             \<lparr>selected_task_id := next_task_in_milestone_id s,
              selected_milestone_id := current_milestone_id s, crosses_task_boundary := True\<rparr>)
      else if all_milestone_tasks_accepted s then
        (if current_milestone_gate_status s \<noteq> Some ''ACCEPTED'' then
           (decision WAIT_MILESTONE_GATE_PENDING WS_WAITING ''MILESTONE_GATE_REQUIRED_BEFORE_ADVANCING''
             (''Milestone '' @ opt_str (current_milestone_id s)
               @ '' gate must be accepted before advancing to next milestone.''))
             \<lparr>selected_milestone_id := current_milestone_id s\<rparr>
         else if opt_true (next_milestone_id s) then
           (if \<not> next_milestone_dependencies_satisfied s then
              (decision WAIT_DEPENDENCY_PENDING WS_WAITING ''NEXT_MILESTONE_DEPENDENCY_PENDING''
                (''Next milestone '' @ opt_str (next_milestone_id s) @ '' dependencies are pending.''))
                \<lparr>selected_milestone_id := next_milestone_id s\<rparr>
            else
              (decision LAUNCH_TASK WS_RUNNABLE ''ADVANCE_TO_NEXT_MILESTONE''
                (''Previous milestone gate passed. Advancing to next milestone ''
                  @ opt_str (next_milestone_id s) @ ''.''))
                \<lparr>selected_task_id := opt_or (first_task_in_next_milestone_id s) (next_task_in_milestone_id s),
                 selected_milestone_id := next_milestone_id s,
                 crosses_task_boundary := True, crosses_milestone_boundary := True\<rparr>)
         else
           (decision STOP_PROJECT_COMPLETE WS_COMPLETED ''PROJECT_COMPLETED''
             ''All milestones and gates completed.'')\<lparr>is_terminal := True\<rparr>)
      else no_work ''No runnable work available in project.'')"

text \<open>The scopes are exhausted by the four cases, so the trailing \<open>UNKNOWN_SCOPE\<close> branch of the
  source has no counterpart.\<close>

definition scope_boundary_decision :: "scope_snapshot \<Rightarrow> scope_decision" where
  "scope_boundary_decision s =
     (case current_scope s of
        TASK \<Rightarrow> task_scope_decision s
      | MILESTONE \<Rightarrow> milestone_scope_decision s
      | PROJECT \<Rightarrow> project_scope_decision s
      | UNTIL_STOPPED \<Rightarrow> project_scope_decision s)"

definition evaluate_scope_transition :: "scope_snapshot \<Rightarrow> scope_decision" where
  "evaluate_scope_transition s =
     (case gate_and_wait_decision s of
        Some d \<Rightarrow> d
      | None \<Rightarrow>
          if current_task_status s \<in> {Some ''IN_PROGRESS'', Some ''FAILED''}
          then current_task_decision s
          else scope_boundary_decision s)"

section \<open>Boundary fixtures\<close>

record scope_boundary_fixture =
  fixture_id :: string
  fixture_description :: string
  snapshot :: scope_snapshot
  expected_action :: ScopeAction
  expected_state :: CanonicalWorkState
  expected_terminal :: bool

definition task_fixtures :: "scope_boundary_fixture list" where
  "task_fixtures = [
  \<lparr>fixture_id = ''F01_TASK_START'',
   fixture_description = ''TASK scope initial task ready'',
   snapshot = (default_snapshot TASK)\<lparr>current_milestone_id := Some ''M1'', next_task_in_milestone_id := Some ''T1'', next_task_dependencies_satisfied := True\<rparr>,
   expected_action = LAUNCH_TASK, expected_state = WS_RUNNABLE, expected_terminal = False\<rparr>,
  \<lparr>fixture_id = ''F02_TASK_IN_PROGRESS'',
   fixture_description = ''TASK scope current task in progress'',
   snapshot = (default_snapshot TASK)\<lparr>current_milestone_id := Some ''M1'', current_task_id := Some ''T1'', current_task_status := Some ''IN_PROGRESS''\<rparr>,
   expected_action = LAUNCH_TASK, expected_state = WS_RUNNABLE, expected_terminal = False\<rparr>,
  \<lparr>fixture_id = ''F03_TASK_RETRY'',
   fixture_description = ''TASK scope current task needs transient retry'',
   snapshot = (default_snapshot TASK)\<lparr>current_milestone_id := Some ''M1'', current_task_id := Some ''T1'', current_task_status := Some ''FAILED'', task_needs_retry := True\<rparr>,
   expected_action = CONTINUE_TASK_RETRY, expected_state = WS_RUNNABLE, expected_terminal = False\<rparr>,
  \<lparr>fixture_id = ''F04_TASK_REPAIR'',
   fixture_description = ''TASK scope current task needs repair loop'',
   snapshot = (default_snapshot TASK)\<lparr>current_milestone_id := Some ''M1'', current_task_id := Some ''T1'', current_task_status := Some ''FAILED'', task_needs_repair := True\<rparr>,
   expected_action = CONTINUE_TASK_REPAIR, expected_state = WS_RUNNABLE, expected_terminal = False\<rparr>,
  \<lparr>fixture_id = ''F05_TASK_EXHAUSTED'',
   fixture_description = ''TASK scope task budget exhausted'',
   snapshot = (default_snapshot TASK)\<lparr>current_milestone_id := Some ''M1'', current_task_id := Some ''T1'', current_task_status := Some ''FAILED'', task_attempts_exhausted := True\<rparr>,
   expected_action = HALT_BLOCKED, expected_state = WS_BLOCKED, expected_terminal = True\<rparr>,
  \<lparr>fixture_id = ''F06_TASK_ACCEPTED_STOPS'',
   fixture_description = ''TASK scope stops immediately after 1 accepted task'',
   snapshot = (default_snapshot TASK)\<lparr>current_milestone_id := Some ''M1'', current_task_id := Some ''T1'', current_task_status := Some ''ACCEPTED'', accepted_tasks_in_current_scope := 1, next_task_in_milestone_id := Some ''T2''\<rparr>,
   expected_action = STOP_SCOPE_COMPLETE, expected_state = WS_COMPLETED, expected_terminal = True\<rparr>,
  \<lparr>fixture_id = ''F07_TASK_DEP_PENDING'',
   fixture_description = ''TASK scope initial task dependencies pending'',
   snapshot = (default_snapshot TASK)\<lparr>current_milestone_id := Some ''M1'', next_task_in_milestone_id := Some ''T2'', next_task_dependencies_satisfied := False\<rparr>,
   expected_action = WAIT_DEPENDENCY_PENDING, expected_state = WS_WAITING, expected_terminal = False\<rparr>]"

definition milestone_fixtures :: "scope_boundary_fixture list" where
  "milestone_fixtures = [
  \<lparr>fixture_id = ''F08_MILESTONE_START'',
   fixture_description = ''MILESTONE scope launches first task'',
   snapshot = (default_snapshot MILESTONE)\<lparr>current_milestone_id := Some ''M1'', next_task_in_milestone_id := Some ''T1'', next_task_dependencies_satisfied := True\<rparr>,
   expected_action = LAUNCH_TASK, expected_state = WS_RUNNABLE, expected_terminal = False\<rparr>,
  \<lparr>fixture_id = ''F09_MILESTONE_ADVANCE_TASK'',
   fixture_description = ''MILESTONE scope advances to next task in same milestone'',
   snapshot = (default_snapshot MILESTONE)\<lparr>current_milestone_id := Some ''M1'', current_task_id := Some ''T1'', current_task_status := Some ''ACCEPTED'', accepted_tasks_in_current_scope := 1, next_task_in_milestone_id := Some ''T2'', next_task_dependencies_satisfied := True\<rparr>,
   expected_action = LAUNCH_TASK, expected_state = WS_RUNNABLE, expected_terminal = False\<rparr>,
  \<lparr>fixture_id = ''F10_MILESTONE_TASK_DEP_PENDING'',
   fixture_description = ''MILESTONE scope next task dependency pending'',
   snapshot = (default_snapshot MILESTONE)\<lparr>current_milestone_id := Some ''M1'', current_task_id := Some ''T1'', current_task_status := Some ''ACCEPTED'', accepted_tasks_in_current_scope := 1, next_task_in_milestone_id := Some ''T2'', next_task_dependencies_satisfied := False\<rparr>,
   expected_action = WAIT_DEPENDENCY_PENDING, expected_state = WS_WAITING, expected_terminal = False\<rparr>,
  \<lparr>fixture_id = ''F11_MILESTONE_GATE_PENDING'',
   fixture_description = ''MILESTONE scope all tasks done, gate pending'',
   snapshot = (default_snapshot MILESTONE)\<lparr>current_milestone_id := Some ''M1'', all_milestone_tasks_accepted := True, current_milestone_gate_status := Some ''NOT_REACHED'', next_milestone_id := Some ''M2''\<rparr>,
   expected_action = WAIT_MILESTONE_GATE_PENDING, expected_state = WS_WAITING, expected_terminal = False\<rparr>,
  \<lparr>fixture_id = ''F12_MILESTONE_GATE_ACCEPTED_STOPS'',
   fixture_description = ''MILESTONE scope gate accepted -> stops, does not enter M2'',
   snapshot = (default_snapshot MILESTONE)\<lparr>current_milestone_id := Some ''M1'', all_milestone_tasks_accepted := True, current_milestone_gate_status := Some ''ACCEPTED'', next_milestone_id := Some ''M2''\<rparr>,
   expected_action = STOP_SCOPE_COMPLETE, expected_state = WS_COMPLETED, expected_terminal = True\<rparr>]"

definition project_fixtures :: "scope_boundary_fixture list" where
  "project_fixtures = [
  \<lparr>fixture_id = ''F13_PROJECT_NEXT_TASK'',
   fixture_description = ''PROJECT scope advances task in milestone'',
   snapshot = (default_snapshot PROJECT)\<lparr>current_milestone_id := Some ''M1'', current_task_id := Some ''T1'', current_task_status := Some ''ACCEPTED'', next_task_in_milestone_id := Some ''T2'', next_task_dependencies_satisfied := True\<rparr>,
   expected_action = LAUNCH_TASK, expected_state = WS_RUNNABLE, expected_terminal = False\<rparr>,
  \<lparr>fixture_id = ''F14_PROJECT_GATE_PENDING'',
   fixture_description = ''PROJECT scope waits for milestone gate before crossing'',
   snapshot = (default_snapshot PROJECT)\<lparr>current_milestone_id := Some ''M1'', all_milestone_tasks_accepted := True, current_milestone_gate_status := Some ''IN_PROGRESS'', next_milestone_id := Some ''M2''\<rparr>,
   expected_action = WAIT_MILESTONE_GATE_PENDING, expected_state = WS_WAITING, expected_terminal = False\<rparr>,
  \<lparr>fixture_id = ''F15_PROJECT_CROSSES_MILESTONE'',
   fixture_description = ''PROJECT scope gate accepted -> crosses into next milestone'',
   snapshot = (default_snapshot PROJECT)\<lparr>current_milestone_id := Some ''M1'', all_milestone_tasks_accepted := True, current_milestone_gate_status := Some ''ACCEPTED'', next_milestone_id := Some ''M2'', next_milestone_dependencies_satisfied := True\<rparr>,
   expected_action = LAUNCH_TASK, expected_state = WS_RUNNABLE, expected_terminal = False\<rparr>,
  \<lparr>fixture_id = ''F16_PROJECT_NEXT_MILESTONE_DEP_PENDING'',
   fixture_description = ''PROJECT scope gate accepted but next milestone deps pending'',
   snapshot = (default_snapshot PROJECT)\<lparr>current_milestone_id := Some ''M1'', all_milestone_tasks_accepted := True, current_milestone_gate_status := Some ''ACCEPTED'', next_milestone_id := Some ''M2'', next_milestone_dependencies_satisfied := False\<rparr>,
   expected_action = WAIT_DEPENDENCY_PENDING, expected_state = WS_WAITING, expected_terminal = False\<rparr>,
  \<lparr>fixture_id = ''F17_PROJECT_COMPLETE'',
   fixture_description = ''PROJECT scope all milestones complete -> stops project'',
   snapshot = (default_snapshot PROJECT)\<lparr>current_milestone_id := Some ''M4'', all_milestone_tasks_accepted := True, current_milestone_gate_status := Some ''ACCEPTED'', all_project_milestones_completed := True\<rparr>,
   expected_action = STOP_PROJECT_COMPLETE, expected_state = WS_COMPLETED, expected_terminal = True\<rparr>]"

definition until_stopped_fixtures :: "scope_boundary_fixture list" where
  "until_stopped_fixtures = [
  \<lparr>fixture_id = ''F18_UNTIL_STOPPED_GATE_PENDING'',
   fixture_description = ''UNTIL_STOPPED scope waits for gate like PROJECT'',
   snapshot = (default_snapshot UNTIL_STOPPED)\<lparr>current_milestone_id := Some ''M1'', all_milestone_tasks_accepted := True, current_milestone_gate_status := Some ''NOT_REACHED'', next_milestone_id := Some ''M2''\<rparr>,
   expected_action = WAIT_MILESTONE_GATE_PENDING, expected_state = WS_WAITING, expected_terminal = False\<rparr>,
  \<lparr>fixture_id = ''F19_UNTIL_STOPPED_ADVANCES'',
   fixture_description = ''UNTIL_STOPPED advances to M2 after gate accepted'',
   snapshot = (default_snapshot UNTIL_STOPPED)\<lparr>current_milestone_id := Some ''M1'', all_milestone_tasks_accepted := True, current_milestone_gate_status := Some ''ACCEPTED'', next_milestone_id := Some ''M2'', next_milestone_dependencies_satisfied := True\<rparr>,
   expected_action = LAUNCH_TASK, expected_state = WS_RUNNABLE, expected_terminal = False\<rparr>]"

definition gate_fixtures :: "scope_boundary_fixture list" where
  "gate_fixtures = [
  \<lparr>fixture_id = ''F20_MANUAL_GATE_REQUIRED'',
   fixture_description = ''Manual checkpoint blocks automatic launch across any scope'',
   snapshot = (default_snapshot PROJECT)\<lparr>current_milestone_id := Some ''M1'', next_task_in_milestone_id := Some ''T1'', manual_gate_required := True, manual_gate_approved := False\<rparr>,
   expected_action = PAUSE_MANUAL_GATE_REQUIRED, expected_state = WS_PAUSED, expected_terminal = False\<rparr>,
  \<lparr>fixture_id = ''F21_POLICY_GATE_REQUIRED'',
   fixture_description = ''Policy approval required blocks automatic launch'',
   snapshot = (default_snapshot UNTIL_STOPPED)\<lparr>current_milestone_id := Some ''M1'', next_task_in_milestone_id := Some ''T1'', policy_gate_required := True, policy_gate_approved := False\<rparr>,
   expected_action = PAUSE_POLICY_APPROVAL_REQUIRED, expected_state = WS_PAUSED, expected_terminal = False\<rparr>]"

definition stop_and_wait_fixtures :: "scope_boundary_fixture list" where
  "stop_and_wait_fixtures = [
  \<lparr>fixture_id = ''F22_STOP_REQUESTED'',
   fixture_description = ''Explicit STOP halts execution immediately'',
   snapshot = (default_snapshot PROJECT)\<lparr>current_milestone_id := Some ''M1'', next_task_in_milestone_id := Some ''T1'', stop_requested := True\<rparr>,
   expected_action = STOP_EXTERNAL_STOP_REQUESTED, expected_state = WS_PAUSED, expected_terminal = True\<rparr>,
  \<lparr>fixture_id = ''F23_CI_WAITING'',
   fixture_description = ''Durable CI wait blocks launch and reports WAITING'',
   snapshot = (default_snapshot MILESTONE)\<lparr>current_milestone_id := Some ''M1'', current_task_id := Some ''T1'', ci_waiting := True\<rparr>,
   expected_action = WAIT_CI_WAITING, expected_state = WS_WAITING, expected_terminal = False\<rparr>,
  \<lparr>fixture_id = ''F24_TRANSIENT_BACKOFF'',
   fixture_description = ''Transient recovery backoff blocks launch and reports WAITING'',
   snapshot = (default_snapshot TASK)\<lparr>current_milestone_id := Some ''M1'', current_task_id := Some ''T1'', transient_backoff := True\<rparr>,
   expected_action = WAIT_TRANSIENT_BACKOFF, expected_state = WS_WAITING, expected_terminal = False\<rparr>,
  \<lparr>fixture_id = ''F25_WAITING_FOR_PLAN'',
   fixture_description = ''Approved plan exhausted halts and never fabricates tasks'',
   snapshot = (default_snapshot PROJECT)\<lparr>current_milestone_id := Some ''M1'', approved_plan_exhausted := True\<rparr>,
   expected_action = HALT_WAITING_FOR_PLAN, expected_state = WS_WAITING_FOR_PLAN, expected_terminal = True\<rparr>,
  \<lparr>fixture_id = ''F26_NO_RUNNABLE_WORK'',
   fixture_description = ''No runnable work halts without fabricating task'',
   snapshot = (default_snapshot MILESTONE)\<lparr>current_milestone_id := Some ''M1'', next_task_in_milestone_id := None, all_milestone_tasks_accepted := False\<rparr>,
   expected_action = HALT_NO_RUNNABLE_WORK, expected_state = WS_NO_RUNNABLE_WORK, expected_terminal = True\<rparr>]"

definition CANONICAL_BOUNDARY_FIXTURES :: "scope_boundary_fixture list" where
  "CANONICAL_BOUNDARY_FIXTURES =
     task_fixtures @ milestone_fixtures @ project_fixtures @ until_stopped_fixtures
       @ gate_fixtures @ stop_and_wait_fixtures"

definition fixture_holds :: "scope_boundary_fixture \<Rightarrow> bool" where
  "fixture_holds f \<longleftrightarrow>
     (let d = evaluate_scope_transition (snapshot f) in
      action d = expected_action f \<and> canonical_work_state d = expected_state f
      \<and> is_terminal d = expected_terminal f)"

section \<open>Lemmas\<close>

lemma scope_of_value_scope_value [simp]: "scope_of_value (scope_value c) = Some c"
  by (cases c) (simp_all add: scope_of_value_def)

lemma action_value_inj: "action_value a = action_value b \<Longrightarrow> a = b"
  by (cases a; cases b) simp_all

lemma action_value_not_STOPPED [simp]: "action_value a \<noteq> ''STOPPED''"
  by (cases a) simp_all

lemmas scope_block_defs = decision_def no_work_def gate_and_wait_decision_def
  current_task_decision_def task_scope_decision_def milestone_scope_decision_def
  project_scope_decision_def

declare scope_block_defs [decision_simps]

lemma evaluate_cases:
  obtains (gate) d where "gate_and_wait_decision s = Some d" "evaluate_scope_transition s = d"
  | (current) "gate_and_wait_decision s = None" "current_task_status s \<in> {Some ''IN_PROGRESS'', Some ''FAILED''}"
      "evaluate_scope_transition s = current_task_decision s"
  | (boundary) "gate_and_wait_decision s = None" "current_task_status s \<notin> {Some ''IN_PROGRESS'', Some ''FAILED''}"
      "evaluate_scope_transition s = scope_boundary_decision s"
  by (cases "gate_and_wait_decision s") (auto simp: evaluate_scope_transition_def split: if_splits)

lemma gate_none_iff:
  "gate_and_wait_decision s = None \<longleftrightarrow>
     \<not> stop_requested s \<and> \<not> approved_plan_exhausted s
     \<and> \<not> (all_project_milestones_completed s \<and> current_scope s \<in> {PROJECT, UNTIL_STOPPED})
     \<and> (manual_gate_required s \<longrightarrow> manual_gate_approved s)
     \<and> (policy_gate_required s \<longrightarrow> policy_gate_approved s)
     \<and> \<not> ci_waiting s \<and> \<not> transient_backoff s"
  by (auto simp: gate_and_wait_decision_def)

lemma gate_stays:
  "gate_and_wait_decision s = Some d \<Longrightarrow>
     \<not> crosses_milestone_boundary d \<and> selected_milestone_id d = None \<and> action d \<noteq> LAUNCH_TASK"
  by (auto simp: decision_simps split: if_splits)

lemma narrow_blocks:
  "\<not> crosses_milestone_boundary (task_scope_decision s)"
  "\<not> crosses_milestone_boundary (milestone_scope_decision s)"
  "selected_milestone_id (task_scope_decision s) \<in> {None, current_milestone_id s}"
  "selected_milestone_id (milestone_scope_decision s) \<in> {None, current_milestone_id s}"
  "current_task_status s = Some ''ACCEPTED'' \<Longrightarrow> action (task_scope_decision s) \<noteq> LAUNCH_TASK"
  by (simp_all add: decision_simps)

lemma scope_irrelevant:
  "project_scope_decision (s\<lparr>current_scope := c\<rparr>) = project_scope_decision s"
  "current_task_decision (s\<lparr>current_scope := c\<rparr>) = current_task_decision s"
  by (cases s, simp only: project_scope_decision_def current_task_decision_def
      scope_snapshot.select_convs scope_snapshot.update_convs)+

lemma gate_scope_irrelevant:
  "gate_and_wait_decision (s\<lparr>current_scope := UNTIL_STOPPED\<rparr>)
   = gate_and_wait_decision (s\<lparr>current_scope := PROJECT\<rparr>)"
  by (cases s) (simp only: gate_and_wait_decision_def scope_snapshot.select_convs
      scope_snapshot.update_convs insert_iff simp_thms)

text \<open>The two ways a scope block launches a task.\<close>

definition launches_next :: "scope_snapshot \<Rightarrow> scope_decision \<Rightarrow> bool" where
  "launches_next s d \<longleftrightarrow> selected_task_id d = next_task_in_milestone_id s
     \<and> opt_true (next_task_in_milestone_id s) \<and> next_task_dependencies_satisfied s
     \<and> selected_milestone_id d = current_milestone_id s \<and> \<not> crosses_milestone_boundary d"

definition launches_across :: "scope_snapshot \<Rightarrow> scope_decision \<Rightarrow> bool" where
  "launches_across s d \<longleftrightarrow> current_scope s \<in> {PROJECT, UNTIL_STOPPED}
     \<and> \<not> opt_true (next_task_in_milestone_id s) \<and> all_milestone_tasks_accepted s
     \<and> current_milestone_gate_status s = Some ''ACCEPTED''
     \<and> opt_true (next_milestone_id s) \<and> next_milestone_dependencies_satisfied s
     \<and> selected_milestone_id d = next_milestone_id s \<and> crosses_milestone_boundary d
     \<and> selected_task_id d = opt_or (first_task_in_next_milestone_id s) (next_task_in_milestone_id s)"

lemma boundary_launch:
  assumes "action (scope_boundary_decision s) = LAUNCH_TASK"
  shows "launches_next s (scope_boundary_decision s) \<or> launches_across s (scope_boundary_decision s)"
  using assms
  by (cases "current_scope s")
    (auto simp: scope_boundary_decision_def launches_next_def launches_across_def decision_simps
      split: if_splits)

lemma launch_cases:
  assumes "action (evaluate_scope_transition s) = LAUNCH_TASK"
  shows "\<not> stop_requested s \<and> \<not> approved_plan_exhausted s
    \<and> (manual_gate_required s \<longrightarrow> manual_gate_approved s)
    \<and> (policy_gate_required s \<longrightarrow> policy_gate_approved s)
    \<and> \<not> ci_waiting s \<and> \<not> transient_backoff s
    \<and> (current_task_status s \<in> {Some ''IN_PROGRESS'', Some ''FAILED''}
          \<and> selected_task_id (evaluate_scope_transition s) = current_task_id s
          \<and> \<not> task_attempts_exhausted s
       \<or> launches_next s (evaluate_scope_transition s)
       \<or> launches_across s (evaluate_scope_transition s))"
proof (cases s rule: evaluate_cases)
  case (gate d)
  then show ?thesis using assms gate_stays by simp
next
  case current
  then show ?thesis using assms unfolding gate_none_iff
    by (auto simp: decision_simps split: if_splits)
next
  case boundary
  then show ?thesis using assms boundary_launch[of s] unfolding gate_none_iff by auto
qed

section \<open>Properties\<close>

text \<open>The evaluator gives, for each of the 26 canonical boundary fixtures, the expected
  action, work state and finality.\<close>

lemma boundary_fixtures_hold:
  "list_all fixture_holds CANONICAL_BOUNDARY_FIXTURES"
  by (simp add: CANONICAL_BOUNDARY_FIXTURES_def task_fixtures_def milestone_fixtures_def
      project_fixtures_def until_stopped_fixtures_def gate_fixtures_def stop_and_wait_fixtures_def
      fixture_holds_def Let_def evaluate_scope_transition_def scope_boundary_decision_def
      default_snapshot_def decision_simps)

text \<open>A task is launched only when no STOP is requested, the plan is not exhausted, every
  required manual and policy gate is approved and nothing is being waited for; and then it is
  the current unfinished task, or the next task of the current milestone with its
  dependencies satisfied, or the first task across a milestone boundary whose gate is
  accepted.\<close>

lemma scope_launch_conditions:
  assumes "action (evaluate_scope_transition s) = LAUNCH_TASK"
  shows "\<not> stop_requested s \<and> \<not> approved_plan_exhausted s
    \<and> (manual_gate_required s \<longrightarrow> manual_gate_approved s)
    \<and> (policy_gate_required s \<longrightarrow> policy_gate_approved s)
    \<and> \<not> ci_waiting s \<and> \<not> transient_backoff s
    \<and> (current_task_status s \<in> {Some ''IN_PROGRESS'', Some ''FAILED''}
          \<and> selected_task_id (evaluate_scope_transition s) = current_task_id s
          \<and> \<not> task_attempts_exhausted s
       \<or> launches_next s (evaluate_scope_transition s)
       \<or> launches_across s (evaluate_scope_transition s))"
  using assms by (rule launch_cases)

text \<open>TASK and MILESTONE scopes never cross a milestone boundary: they select no milestone
  but the current one; and TASK scope never launches a task once one is accepted.\<close>

lemma narrow_scopes_stay:
  assumes "current_scope s \<in> {TASK, MILESTONE}"
  shows "\<not> crosses_milestone_boundary (evaluate_scope_transition s)
    \<and> selected_milestone_id (evaluate_scope_transition s) \<in> {None, current_milestone_id s}
    \<and> (current_scope s = TASK \<and> current_task_status s = Some ''ACCEPTED'' \<longrightarrow>
         action (evaluate_scope_transition s) \<noteq> LAUNCH_TASK)"
proof (cases s rule: evaluate_cases)
  case (gate d)
  then show ?thesis using gate_stays by simp
next
  case current
  then show ?thesis by (auto simp: decision_simps)
next
  case boundary
  then show ?thesis using assms narrow_blocks[of s]
    by (auto simp: scope_boundary_decision_def)
qed

text \<open>When the evaluator may launch, written without the order of its branches: nothing holds the
  scope back; the current task is to be continued; the next task of the milestone can start;
  the next milestone can be entered.\<close>

definition nothing_holds :: "scope_snapshot \<Rightarrow> bool" where
  "nothing_holds s \<longleftrightarrow> \<not> stop_requested s \<and> \<not> approved_plan_exhausted s
     \<and> \<not> (all_project_milestones_completed s \<and> current_scope s \<in> {PROJECT, UNTIL_STOPPED})
     \<and> (manual_gate_required s \<longrightarrow> manual_gate_approved s)
     \<and> (policy_gate_required s \<longrightarrow> policy_gate_approved s)
     \<and> \<not> ci_waiting s \<and> \<not> transient_backoff s"

definition unfinished :: "scope_snapshot \<Rightarrow> bool" where
  "unfinished s \<longleftrightarrow> current_task_status s \<in> {Some ''IN_PROGRESS'', Some ''FAILED''}"

definition continue_allowed :: "scope_snapshot \<Rightarrow> bool" where
  "continue_allowed s \<longleftrightarrow> unfinished s
     \<and> \<not> task_attempts_exhausted s \<and> \<not> task_needs_repair s \<and> \<not> task_needs_retry s"

definition next_task_allowed :: "scope_snapshot \<Rightarrow> bool" where
  "next_task_allowed s \<longleftrightarrow> \<not> unfinished s
     \<and> opt_true (next_task_in_milestone_id s) \<and> next_task_dependencies_satisfied s
     \<and> (current_scope s = TASK \<longrightarrow>
          current_task_status s \<noteq> Some ''ACCEPTED'' \<and> accepted_tasks_in_current_scope s < 1)"

definition next_milestone_allowed :: "scope_snapshot \<Rightarrow> bool" where
  "next_milestone_allowed s \<longleftrightarrow> \<not> unfinished s \<and> current_scope s \<in> {PROJECT, UNTIL_STOPPED}
     \<and> \<not> opt_true (next_task_in_milestone_id s) \<and> all_milestone_tasks_accepted s
     \<and> current_milestone_gate_status s = Some ''ACCEPTED''
     \<and> opt_true (next_milestone_id s) \<and> next_milestone_dependencies_satisfied s"

definition launches :: "scope_decision \<Rightarrow> string option \<Rightarrow> string option \<Rightarrow> bool" where
  "launches d t m \<longleftrightarrow> action d = LAUNCH_TASK \<and> selected_task_id d = t \<and> selected_milestone_id d = m"

lemma current_task_launches:
  "unfinished s \<Longrightarrow> launches (current_task_decision s) t m \<longleftrightarrow>
     continue_allowed s \<and> t = current_task_id s \<and> m = current_milestone_id s"
  by (auto simp: launches_def continue_allowed_def decision_simps)

lemma boundary_launches:
  assumes "\<not> unfinished s"
  shows "launches (scope_boundary_decision s) t m \<longleftrightarrow>
     next_task_allowed s \<and> t = next_task_in_milestone_id s \<and> m = current_milestone_id s
     \<or> next_milestone_allowed s \<and> m = next_milestone_id s
        \<and> t = opt_or (first_task_in_next_milestone_id s) (next_task_in_milestone_id s)"
  using assms
  by (cases "current_scope s")
    (auto simp: launches_def scope_boundary_decision_def next_task_allowed_def next_milestone_allowed_def
      decision_simps)

text \<open>C40: The evaluator launches a task in a milestone exactly when no STOP, exhausted or completed
  plan, unapproved gate, CI wait or backoff holds the scope back, and either an unfinished current
  task is continued (its budget is not exhausted and it needs neither repair nor retry), or no task
  is unfinished and the next task of the milestone has its dependencies satisfied (in TASK scope,
  provided none was accepted yet), or no task is unfinished or left, the milestone and its gate are
  accepted, the scope is PROJECT or UNTIL_STOPPED and the next milestone's dependencies are
  satisfied. Each case fixes the task and the milestone that are launched.\<close>

theorem launches_exactly:
  "launches (evaluate_scope_transition s) t m \<longleftrightarrow> nothing_holds s
     \<and> (continue_allowed s \<and> t = current_task_id s \<and> m = current_milestone_id s
        \<or> next_task_allowed s \<and> t = next_task_in_milestone_id s \<and> m = current_milestone_id s
        \<or> next_milestone_allowed s \<and> m = next_milestone_id s
           \<and> t = opt_or (first_task_in_next_milestone_id s) (next_task_in_milestone_id s))"
proof (cases s rule: evaluate_cases)
  case (gate d)
  then have "\<not> nothing_holds s" using gate_none_iff[of s] by (simp add: nothing_holds_def)
  with gate show ?thesis using gate_stays by (simp add: launches_def)
next
  case current
  then have "nothing_holds s" "unfinished s" by (simp_all add: nothing_holds_def gate_none_iff unfinished_def)
  with current show ?thesis
    by (simp add: current_task_launches next_task_allowed_def next_milestone_allowed_def)
next
  case boundary
  then have "nothing_holds s" "\<not> unfinished s" by (simp_all add: nothing_holds_def gate_none_iff unfinished_def)
  with boundary show ?thesis by (simp add: boundary_launches continue_allowed_def)
qed

text \<open>UNTIL_STOPPED decides exactly as PROJECT does on the same snapshot.\<close>

lemma until_stopped_as_project:
  "evaluate_scope_transition (s\<lparr>current_scope := UNTIL_STOPPED\<rparr>)
   = evaluate_scope_transition (s\<lparr>current_scope := PROJECT\<rparr>)"
  by (simp add: evaluate_scope_transition_def scope_boundary_decision_def scope_irrelevant
      gate_scope_irrelevant split: option.split)

end
