(* ===== verification/Stop_Fence.thy ===== *)
theory Stop_Fence
  imports Auto_Scope
begin

text \<open>
  The durable STOP fence and scope epoch of \<^verbatim>\<open>src/bdb_vnext/stop_fence.py\<close>, over the tables
  it reads and writes (\<^verbatim>\<open>src/bdb_vnext/project_memory_v2_contract.py\<close>): one cursor per project,
  append-only fences with one fence per project and epoch, and the optional tables
  \<open>launch_outbox\<close>, \<open>send_intents\<close> and \<open>audit_events\<close> (\<open>None\<close>: the table does not exist). Columns no
  operation here reads or writes are left out. The clock and the random identifiers are
  arguments; a call that raises returns the store its connection is left with.
\<close>

section \<open>Tables\<close>

record scope_cursor =
  cur_id :: string
  cur_project :: string
  cur_run :: string
  cur_scope :: AutoScope
  cur_epoch :: int
  cur_milestone :: "string option"
  cur_task :: "string option"
  cur_last_task :: "string option"
  cur_last_gate :: "string option"
  cur_plan :: string
  cur_plan_version :: int
  cur_revision :: int
  cur_disposition :: string
  cur_status :: string
  cur_stop_at :: "int option"
  cur_stop_reason :: "string option"
  cur_explanation :: pydict
  cur_updated_at :: int
  cur_explicit :: bool

record stop_fence_record =
  fence_id :: string
  fence_project :: string
  fence_run :: string
  fence_scope :: AutoScope
  fence_epoch :: int
  fence_cursor :: string
  fence_stop_at :: int
  fence_reason :: string
  fence_actor :: string
  fence_prior_disposition :: string
  fence_source_revision :: int
  fence_committed_revision :: int
  cancelled_work_ids :: "string list"
  fence_created_at :: int

record launch_row =
  launch_id :: string
  launch_project :: string
  launch_status :: string
  launch_updated_at :: int

text \<open>The outbox table with the statuses its CHECK constraint admits, if it has one.\<close>

record outbox_table =
  outbox_check :: "string list option"
  outbox_rows :: "launch_row list"

text \<open>The constraint of the canonical schema.\<close>

definition CANONICAL_OUTBOX_STATUSES :: "string list" where
  "CANONICAL_OUTBOX_STATUSES = [''PENDING'', ''PUBLISHED'', ''ACKNOWLEDGED'']"

record send_intent_row =
  intent_id :: string
  intent_key :: string
  intent_project :: string
  intent_continuation :: string
  intent_digest :: string
  intent_lease :: string
  intent_owner_hash :: string
  intent_lease_generation :: int
  intent_epoch :: int
  intent_run :: string
  intent_task :: string
  intent_binding :: string
  intent_head :: string
  intent_conversation :: "string option"
  intent_proof :: "string option"
  intent_message :: string
  intent_payload :: string
  intent_generation :: int
  intent_revision :: int
  intent_status :: string
  intent_prepared_at :: int
  intent_updated_at :: int
  intent_attempted_at :: "int option"
  intent_confirmed_at :: "int option"
  intent_acknowledged_at :: "int option"
  intent_evidence :: pydict
  uncertainty_reason :: "string option"

record audit_event =
  event_id :: string
  event_project :: string
  event_revision :: int
  logical_tx_id :: string
  event_type :: string
  human_summary :: string
  event_task :: "string option"
  event_milestone :: "string option"
  event_plan_version :: "int option"
  event_payload :: pydict
  event_time :: int

record scope_store =
  scope_cursors :: "scope_cursor list"
  stop_fences :: "stop_fence_record list"
  launch_outbox :: "outbox_table option"
  send_intents :: "send_intent_row list option"
  audit_events :: "audit_event list option"

datatype stop_error =
    StopFenceViolation string string
  | Stop_Db py_error

definition find_cursor :: "scope_store \<Rightarrow> string \<Rightarrow> scope_cursor option" where
  "find_cursor db p = find (\<lambda>c. cur_project c = p) (scope_cursors db)"

definition find_fence :: "scope_store \<Rightarrow> string \<Rightarrow> int \<Rightarrow> stop_fence_record option" where
  "find_fence db p e = find (\<lambda>f. fence_project f = p \<and> fence_epoch f = e) (stop_fences db)"

text \<open>\<open>UPDATE scope_cursors ... WHERE project_id = ? AND state_revision = ?\<close>.\<close>

definition update_cursor ::
    "scope_store \<Rightarrow> string \<Rightarrow> int \<Rightarrow> (scope_cursor \<Rightarrow> scope_cursor) \<Rightarrow> scope_store" where
  "update_cursor db p r0 f = db\<lparr>scope_cursors :=
     map (\<lambda>c. if cur_project c = p \<and> cur_revision c = r0 then f c else c) (scope_cursors db)\<rparr>"

section \<open>The boundary guard\<close>

datatype EffectBoundary =
    ORCHESTRATOR_TICK_LAUNCH
  | LAUNCH_PREPARE
  | OUTBOX_PUBLISH
  | QUEUE_CLAIM
  | DISPATCH_SEND
  | COMMAND_EXECUTE

fun boundary_value :: "EffectBoundary \<Rightarrow> string" where
  "boundary_value ORCHESTRATOR_TICK_LAUNCH = ''ORCHESTRATOR_TICK_LAUNCH''"
| "boundary_value LAUNCH_PREPARE = ''LAUNCH_PREPARE''"
| "boundary_value OUTBOX_PUBLISH = ''OUTBOX_PUBLISH''"
| "boundary_value QUEUE_CLAIM = ''QUEUE_CLAIM''"
| "boundary_value DISPATCH_SEND = ''DISPATCH_SEND''"
| "boundary_value COMMAND_EXECUTE = ''COMMAND_EXECUTE''"

record boundary_check =
  check_allowed :: bool
  check_code :: string
  check_message :: string
  check_project :: string
  check_request_epoch :: int
  check_canonical_epoch :: int
  check_boundary :: EffectBoundary

definition is_stopped :: "scope_cursor \<Rightarrow> bool" where
  "is_stopped c \<longleftrightarrow> cur_status c = ''STOPPED'' \<or> cur_disposition c = ''STOPPED''"

definition check :: "scope_store \<Rightarrow> string \<Rightarrow> int \<Rightarrow> EffectBoundary \<Rightarrow> boundary_check" where
  "check db p req b =
     (let res = (\<lambda>ok rc msg epoch. \<lparr>check_allowed = ok, check_code = rc, check_message = msg,
            check_project = p, check_request_epoch = req, check_canonical_epoch = epoch,
            check_boundary = b\<rparr>);
          blocked = ''Effect boundary '' @ [char_of (39::nat)] @ boundary_value b @ [char_of (39::nat)] @ '' blocked: ''
      in case find_cursor db p of
           None \<Rightarrow> res False ''CURSOR_NOT_FOUND''
             (''No canonical cursor found for project '' @ [char_of (39::nat)] @ p @ [char_of (39::nat)]) 0
         | Some c \<Rightarrow>
             if is_stopped c then
               res False ''STOP_FENCE_ACTIVE'' (blocked @ ''project '' @ [char_of (39::nat)] @ p @ [char_of (39::nat)]
                 @ '' is durably STOPPED (epoch '' @ int_str (cur_epoch c) @ '')'') (cur_epoch c)
             else if req \<noteq> cur_epoch c then
               res False ''STALE_SCOPE_EPOCH'' (blocked @ ''request epoch '' @ int_str req
                 @ '' does not match canonical epoch '' @ int_str (cur_epoch c)) (cur_epoch c)
             else if find_fence db p req \<noteq> None then
               res False ''STOP_FENCE_RECORDED'' (blocked @ ''fence record exists for epoch '' @ int_str req) (cur_epoch c)
             else res True ''ALLOWED'' ''Boundary check passed'' (cur_epoch c))"

text \<open>The default form of the call, which raises instead of returning a refusal.\<close>

definition check_raising ::
    "scope_store \<Rightarrow> string \<Rightarrow> int \<Rightarrow> EffectBoundary \<Rightarrow> stop_error + boundary_check" where
  "check_raising db p req b = (let res = check db p req b in
     if check_allowed res then Inr res else Inl (StopFenceViolation (check_code res) (check_message res)))"

section \<open>STOP\<close>

definition pending_launches :: "scope_store \<Rightarrow> string \<Rightarrow> launch_row list" where
  "pending_launches db p = (case launch_outbox db of None \<Rightarrow> []
     | Some tab \<Rightarrow> filter (\<lambda>r. launch_project r = p \<and> launch_status r = ''PENDING'') (outbox_rows tab))"

text \<open>Cancelling the pending launches; the update violates a CHECK constraint that does not admit
  \<open>CANCELLED\<close>.\<close>

definition cancel_launches :: "scope_store \<Rightarrow> string \<Rightarrow> int \<Rightarrow> stop_error + scope_store \<times> string list" where
  "cancel_launches db p now =
     (case launch_outbox db of
        None \<Rightarrow> Inr (db, [])
      | Some tab \<Rightarrow>
          (let ids = map launch_id (pending_launches db p) in
           if ids = [] then Inr (db, [])
           else if (case outbox_check tab of None \<Rightarrow> False | Some sts \<Rightarrow> ''CANCELLED'' \<notin> set sts) then
             Inl (Stop_Db IntegrityError)
           else Inr (db\<lparr>launch_outbox := Some (tab\<lparr>outbox_rows :=
               map (\<lambda>r. if launch_project r = p \<and> launch_status r = ''PENDING''
                        then r\<lparr>launch_status := ''CANCELLED'', launch_updated_at := now\<rparr> else r) (outbox_rows tab)\<rparr>)\<rparr>,
             ids)))"

definition unsent :: "string \<Rightarrow> send_intent_row \<Rightarrow> bool" where
  "unsent p r \<longleftrightarrow> intent_project r = p \<and> intent_status r \<in> {''PREPARED'', ''SEND_ALLOWED''}"

definition fence_intents :: "scope_store \<Rightarrow> string \<Rightarrow> int \<Rightarrow> scope_store \<times> string list" where
  "fence_intents db p now =
     (case send_intents db of
        None \<Rightarrow> (db, [])
      | Some rows \<Rightarrow>
          (db\<lparr>send_intents := Some (map (\<lambda>r. if unsent p r
              then r\<lparr>intent_status := ''FENCED'', intent_revision := intent_revision r + 1,
                     intent_updated_at := now, uncertainty_reason := Some ''STOP_FENCE''\<rparr> else r) rows)\<rparr>,
           map (\<lambda>r. ''send-intent:'' @ intent_id r) (filter (unsent p) rows)))"

definition insert_audit :: "scope_store \<Rightarrow> audit_event \<Rightarrow> scope_store \<times> stop_error option" where
  "insert_audit db ev =
     (case audit_events db of
        None \<Rightarrow> (db, None)
      | Some evs \<Rightarrow>
          if list_ex (\<lambda>x. event_id x = event_id ev) evs \<or> event_revision ev < 1
          then (db, Some (Stop_Db IntegrityError))
          else (db\<lparr>audit_events := Some (evs @ [ev])\<rparr>, None))"

definition new_fence ::
    "scope_cursor \<Rightarrow> string \<Rightarrow> string \<Rightarrow> string \<Rightarrow> string list \<Rightarrow> int \<Rightarrow> string \<Rightarrow> stop_fence_record" where
  "new_fence c p reason actor ids now uuid = \<lparr>
     fence_id = ''fence-'' @ p @ ''-ep'' @ int_str (cur_epoch c) @ ''-'' @ uuid,
     fence_project = p, fence_run = cur_run c, fence_scope = cur_scope c, fence_epoch = cur_epoch c,
     fence_cursor = cur_id c, fence_stop_at = now, fence_reason = reason, fence_actor = actor,
     fence_prior_disposition = cur_disposition c, fence_source_revision = cur_revision c,
     fence_committed_revision = cur_revision c + 1, cancelled_work_ids = ids, fence_created_at = now\<rparr>"

definition stop_event :: "scope_cursor \<Rightarrow> stop_fence_record \<Rightarrow> string \<Rightarrow> audit_event" where
  "stop_event c f uuid = \<lparr>
     event_id = ''ev-stop-'' @ uuid, event_project = fence_project f,
     event_revision = fence_committed_revision f, logical_tx_id = ''tx-stop-'' @ fence_id f,
     event_type = ''SCOPE_STOPPED'',
     human_summary = ''Scope stopped at epoch '' @ int_str (fence_epoch f) @ '': '' @ fence_reason f,
     event_task = cur_task c, event_milestone = cur_milestone c, event_plan_version = Some (cur_plan_version c),
     event_payload = [(''project_id'', PStr (fence_project f)), (''run_id'', PStr (fence_run f)),
       (''scope'', PStr (scope_value (fence_scope f))), (''epoch'', PInt (fence_epoch f)),
       (''prior_disposition'', PStr (fence_prior_disposition f)),
       (''source_state_revision'', PInt (fence_source_revision f)),
       (''committed_revision'', PInt (fence_committed_revision f)),
       (''actor_class'', PStr (fence_actor f)), (''reason'', PStr (fence_reason f)),
       (''requested_timestamp'', PStr (canonical_time (fence_stop_at f))),
       (''cancelled_work_ids'', PList (map PStr (cancelled_work_ids f)))],
     event_time = fence_stop_at f\<rparr>"

text \<open>The value returned: the fence and whether this is an idempotent replay (the two duplicate
  counts of the source are always 0).\<close>

type_synonym stop_result = "scope_store \<times> (stop_error + stop_fence_record \<times> bool)"

definition apply_stop ::
    "scope_store \<Rightarrow> string \<Rightarrow> scope_cursor \<Rightarrow> string \<Rightarrow> string \<Rightarrow> int \<Rightarrow> string \<Rightarrow> string \<Rightarrow> stop_result" where
  "apply_stop db p c reason actor now uuid1 uuid2 =
     (case cancel_launches db p now of
        Inl err \<Rightarrow> (db, Inl err)
      | Inr (db1, ids1) \<Rightarrow>
          (let (db2, ids2) = fence_intents db1 p now;
               f = new_fence c p reason actor (ids1 @ ids2) now uuid1
           in if list_ex (\<lambda>g. fence_id g = fence_id f) (stop_fences db) \<or> find_fence db p (cur_epoch c) \<noteq> None then
                (case find_fence db p (cur_epoch c) of
                   Some g \<Rightarrow> (db, Inr (g, True))
                 | None \<Rightarrow> (db, Inl (Stop_Db IntegrityError)))
              else
                (let db3 = db2\<lparr>stop_fences := stop_fences db2 @ [f]\<rparr>;
                     db4 = update_cursor db3 p (cur_revision c) (\<lambda>q. q\<lparr>cur_revision := cur_revision c + 1,
                       cur_disposition := ''STOPPED'', cur_status := ''STOPPED'', cur_stop_at := Some now,
                       cur_stop_reason := Some reason, cur_updated_at := now\<rparr>)
                 in case insert_audit db4 (stop_event c f uuid2) of
                      (db5, Some err) \<Rightarrow> (db5, Inl err)
                    | (db5, None) \<Rightarrow> (db5, Inr (f, False)))))"

definition execute_stop_transaction ::
    "scope_store \<Rightarrow> string \<Rightarrow> int option \<Rightarrow> string \<Rightarrow> string \<Rightarrow> int \<Rightarrow> string \<Rightarrow> string \<Rightarrow> stop_result" where
  "execute_stop_transaction db p expected reason actor now uuid1 uuid2 =
     (case find_cursor db p of
        None \<Rightarrow> (db, Inl (StopFenceViolation ''CURSOR_NOT_FOUND''
          (''Cannot stop project '' @ [char_of (39::nat)] @ p @ [char_of (39::nat)] @ '': cursor not found'')))
      | Some c \<Rightarrow>
          (let go = (if expected \<noteq> None \<and> expected \<noteq> Some (cur_epoch c) then
                 (db, Inl (StopFenceViolation ''STALE_STOP_EPOCH'' (''Cannot stop epoch ''
                   @ int_str (the expected) @ '': canonical active epoch is '' @ int_str (cur_epoch c))))
               else apply_stop db p c reason actor now uuid1 uuid2)
           in if is_stopped c then
                (case find_fence db p (cur_epoch c) of
                   Some g \<Rightarrow> (db, Inr (g, True))
                 | None \<Rightarrow> go)
              else go))"

section \<open>Resume\<close>

record scope_epoch_record =
  epoch_project :: string
  epoch_run :: string
  epoch_scope :: AutoScope
  epoch_number :: int
  epoch_cursor :: string
  epoch_actor :: string
  epoch_revision :: int
  epoch_status :: string

definition resume_event :: "scope_cursor \<Rightarrow> string \<Rightarrow> string \<Rightarrow> string \<Rightarrow> int \<Rightarrow> string \<Rightarrow> audit_event" where
  "resume_event c p run actor now uuid = \<lparr>
     event_id = ''ev-resume-'' @ uuid, event_project = p, event_revision = cur_revision c + 1,
     logical_tx_id = ''tx-resume-ep'' @ int_str (cur_epoch c + 1), event_type = ''SCOPE_RESUMED'',
     human_summary = ''Scope resumed into new epoch '' @ int_str (cur_epoch c + 1)
       @ '' (from epoch '' @ int_str (cur_epoch c) @ '')'',
     event_task = cur_task c, event_milestone = cur_milestone c, event_plan_version = Some (cur_plan_version c),
     event_payload = [(''project_id'', PStr p), (''run_id'', PStr run), (''prior_epoch'', PInt (cur_epoch c)),
       (''new_epoch'', PInt (cur_epoch c + 1)), (''source_state_revision'', PInt (cur_revision c)),
       (''committed_revision'', PInt (cur_revision c + 1)), (''actor_class'', PStr actor),
       (''resumed_timestamp'', PStr (canonical_time now))],
     event_time = now\<rparr>"

definition resumed_cursor :: "scope_cursor \<Rightarrow> string \<Rightarrow> int \<Rightarrow> scope_cursor" where
  "resumed_cursor c run now = c\<lparr>cur_run := run, cur_epoch := cur_epoch c + 1,
     cur_revision := cur_revision c + 1,
     cur_disposition := (if cur_disposition c = ''WAITING_FOR_PLAN'' then ''WAITING_FOR_PLAN'' else ''INITIALIZED''),
     cur_status := ''ACTIVE'', cur_stop_at := None, cur_stop_reason := None, cur_updated_at := now\<rparr>"

definition execute_resume_transaction ::
    "scope_store \<Rightarrow> string \<Rightarrow> int option \<Rightarrow> string option \<Rightarrow> string \<Rightarrow> int \<Rightarrow> string
      \<Rightarrow> scope_store \<times> (stop_error + scope_epoch_record)" where
  "execute_resume_transaction db p expected new_run actor now uuid =
     (case find_cursor db p of
        None \<Rightarrow> (db, Inl (StopFenceViolation ''CURSOR_NOT_FOUND''
          (''Cannot resume project '' @ [char_of (39::nat)] @ p @ [char_of (39::nat)] @ '': cursor not found'')))
      | Some c \<Rightarrow>
          if expected \<noteq> None \<and> expected \<noteq> Some (cur_epoch c) then
            (db, Inl (StopFenceViolation ''STALE_RESUME_EPOCH'' (''Cannot resume from epoch ''
              @ int_str (the expected) @ '': current epoch is '' @ int_str (cur_epoch c))))
          else
            (let run = (case new_run of Some r \<Rightarrow> if r \<noteq> [] then r else cur_run c | None \<Rightarrow> cur_run c);
                 db1 = update_cursor db p (cur_revision c) (\<lambda>q. resumed_cursor q run now)
             in case insert_audit db1 (resume_event c p run actor now uuid) of
                  (db2, Some err) \<Rightarrow> (db2, Inl err)
                | (db2, None) \<Rightarrow> (db2, Inr \<lparr>epoch_project = p, epoch_run = run, epoch_scope = cur_scope c,
                    epoch_number = cur_epoch c + 1, epoch_cursor = cur_id c, epoch_actor = actor,
                    epoch_revision = cur_revision c + 1, epoch_status = ''ACTIVE''\<rparr>)))"

section \<open>Effects on lookups\<close>

lemma find_cursor_update [store_simps]:
  assumes "find_cursor db p = Some c" and "\<And>q. cur_project (f q) = cur_project q"
  shows "find_cursor (update_cursor db p (cur_revision c) f) p' =
    (if p' = p then Some (f c) else find_cursor db p')"
proof -
  have other: "p' \<noteq> p \<Longrightarrow> find (\<lambda>c. cur_project c = p')
      (map (\<lambda>c. if cur_project c = p \<and> cur_revision c = r0 then f c else c) cs) = find (\<lambda>c. cur_project c = p') cs" for cs r0
    using assms(2) by (intro find_map_other) auto
  have "find (\<lambda>c. cur_project c = p) cs = Some c \<Longrightarrow> find (\<lambda>c. cur_project c = p)
      (map (\<lambda>q. if cur_project q = p \<and> cur_revision q = cur_revision c then f q else q) cs) = Some (f c)" for cs
    using assms(2) by (induction cs) (auto split: if_splits)
  with other assms(1) show ?thesis by (simp add: update_cursor_def find_cursor_def)
qed

lemma update_cursor_others [simp]:
  "stop_fences (update_cursor db p r0 f) = stop_fences db"
  "launch_outbox (update_cursor db p r0 f) = launch_outbox db"
  "send_intents (update_cursor db p r0 f) = send_intents db"
  "audit_events (update_cursor db p r0 f) = audit_events db"
  by (simp_all add: update_cursor_def)

lemma find_fence_append:
  "find_fence (db\<lparr>stop_fences := stop_fences db @ [f]\<rparr>) p e = (case find_fence db p e of Some g \<Rightarrow> Some g
     | None \<Rightarrow> if fence_project f = p \<and> fence_epoch f = e then Some f else None)"
  by (simp add: find_fence_def find_append split: option.splits)

lemma insert_audit_others:
  assumes "insert_audit db ev = (db', err)"
  shows "scope_cursors db' = scope_cursors db" "stop_fences db' = stop_fences db"
    "launch_outbox db' = launch_outbox db" "send_intents db' = send_intents db"
  using assms by (auto simp: insert_audit_def split: option.splits if_splits)

lemma cancel_launches_others:
  assumes "cancel_launches db p now = Inr (db', ids)"
  shows "scope_cursors db' = scope_cursors db" "stop_fences db' = stop_fences db"
    "send_intents db' = send_intents db" "audit_events db' = audit_events db"
  using assms by (auto simp: cancel_launches_def Let_def split: option.splits if_splits)

lemma fence_intents_others:
  assumes "fence_intents db p now = (db', ids)"
  shows "scope_cursors db' = scope_cursors db" "stop_fences db' = stop_fences db"
    "launch_outbox db' = launch_outbox db" "audit_events db' = audit_events db"
  using assms by (auto simp: fence_intents_def split: option.splits)

lemma cancel_launches_none_pending:
  "cancel_launches db p now = Inr (db', ids) \<Longrightarrow> pending_launches db' p = []"
  by (auto simp: cancel_launches_def pending_launches_def Let_def filter_empty_conv
      split: option.splits if_splits)

definition no_unsent :: "scope_store \<Rightarrow> string \<Rightarrow> bool" where
  "no_unsent db p = (case send_intents db of None \<Rightarrow> True | Some rows \<Rightarrow> list_all (\<lambda>r. \<not> unsent p r) rows)"

lemma fence_intents_none_unsent: "fence_intents db p now = (db', ids) \<Longrightarrow> no_unsent db' p"
proof -
  have "\<not> unsent p (r\<lparr>intent_status := ''FENCED'', intent_revision := n, intent_updated_at := now,
      uncertainty_reason := u\<rparr>)" for r n u
    by (simp add: unsent_def)
  moreover assume "fence_intents db p now = (db', ids)"
  ultimately show ?thesis
    by (cases "send_intents db") (auto simp: fence_intents_def no_unsent_def list_all_iff)
qed

lemma check_allowed_iff:
  "check_allowed (check db p e b) \<longleftrightarrow>
     (\<exists>c. find_cursor db p = Some c \<and> \<not> is_stopped c \<and> e = cur_epoch c \<and> find_fence db p e = None)"
  by (auto simp: check_def Let_def split: option.splits)

lemma find_cursor_cong: "scope_cursors db' = scope_cursors db \<Longrightarrow> find_cursor db' p = find_cursor db p"
  by (simp add: find_cursor_def)

lemma find_fence_cong: "stop_fences db' = stop_fences db \<Longrightarrow> find_fence db' p e = find_fence db p e"
  by (simp add: find_fence_def)

lemma pending_cong: "launch_outbox db' = launch_outbox db \<Longrightarrow> pending_launches db' p = pending_launches db p"
  by (simp add: pending_launches_def)

lemma no_unsent_cong: "send_intents db' = send_intents db \<Longrightarrow> no_unsent db' p = no_unsent db p"
  by (simp add: no_unsent_def)

text \<open>The two ways a STOP succeeds.\<close>

definition stopped_cursor :: "scope_cursor \<Rightarrow> string \<Rightarrow> int \<Rightarrow> scope_cursor" where
  "stopped_cursor c reason now = c\<lparr>cur_revision := cur_revision c + 1,
     cur_disposition := ''STOPPED'', cur_status := ''STOPPED'', cur_stop_at := Some now,
     cur_stop_reason := Some reason, cur_updated_at := now\<rparr>"

lemma apply_stopE:
  assumes "apply_stop db p c reason actor now u1 u2 = (db', Inr (f, replay))"
    and "find_cursor db p = Some c"
  obtains (existing) "replay" "db' = db" "find_fence db p (cur_epoch c) = Some f"
  | (fresh) "\<not> replay" "find_fence db p (cur_epoch c) = None"
      "stop_fences db' = stop_fences db @ [f]" "fence_project f = p" "fence_epoch f = cur_epoch c"
      "pending_launches db' p = []" "no_unsent db' p"
      "\<forall>p'. find_cursor db' p' = (if p' = p then Some (stopped_cursor c reason now) else find_cursor db p')"
proof -
  obtain db1 ids1 where c1: "cancel_launches db p now = Inr (db1, ids1)"
    using assms(1) by (cases "cancel_launches db p now") (auto simp: apply_stop_def)
  obtain db2 ids2 where c2: "fence_intents db1 p now = (db2, ids2)" by fastforce
  let ?f = "new_fence c p reason actor (ids1 @ ids2) now u1"
  note run = assms(1)[unfolded apply_stop_def, simplified c1 c2 sum.case prod.case Let_def]
  show thesis
  proof (cases "list_ex (\<lambda>g. fence_id g = fence_id ?f) (stop_fences db) \<or> find_fence db p (cur_epoch c) \<noteq> None")
    case True
    then show thesis using run existing by (auto split: option.splits)
  next
    case False
    let ?db3 = "db2\<lparr>stop_fences := stop_fences db2 @ [?f]\<rparr>"
    let ?db4 = "update_cursor ?db3 p (cur_revision c) (\<lambda>q. q\<lparr>cur_revision := cur_revision c + 1,
       cur_disposition := ''STOPPED'', cur_status := ''STOPPED'', cur_stop_at := Some now,
       cur_stop_reason := Some reason, cur_updated_at := now\<rparr>)"
    have ia: "insert_audit ?db4 (stop_event c ?f u2) = (db', None)" and f: "f = ?f" and r: "\<not> replay"
      using run False by (auto split: prod.splits option.splits)
    note same = cancel_launches_others[OF c1] fence_intents_others[OF c2] insert_audit_others[OF ia]
    have "find_cursor ?db3 p' = find_cursor db p'" for p' by (simp add: find_cursor_def same)
    then have cur: "\<forall>p'. find_cursor db' p' = (if p' = p then Some (stopped_cursor c reason now) else find_cursor db p')"
      using assms(2) find_cursor_update[of ?db3 p c] find_cursor_cong[OF same(9)]
      by (simp add: stopped_cursor_def)
    have pend: "pending_launches db' p = []"
      using cancel_launches_none_pending[OF c1] by (simp add: pending_launches_def same)
    have uns: "no_unsent db' p"
      using fence_intents_none_unsent[OF c2] by (simp add: no_unsent_def same)
    show thesis
      using fresh[OF r] False cur pend uns by (simp add: same f new_fence_def)
  qed
qed

lemma execute_stopE:
  assumes "execute_stop_transaction db p expected reason actor now u1 u2 = (db', Inr (f, replay))"
  obtains (replayed) c where "find_cursor db p = Some c" "is_stopped c"
      "find_fence db p (cur_epoch c) = Some f" "replay" "db' = db"
    | (applied) c where "find_cursor db p = Some c"
      "apply_stop db p c reason actor now u1 u2 = (db', Inr (f, replay))"
      "expected = None \<or> expected = Some (cur_epoch c)"
  using assms by (auto simp: execute_stop_transaction_def Let_def split: option.splits if_splits)

lemma stopped_cursor_stopped [simp]: "is_stopped (stopped_cursor c reason now)"
  by (simp add: is_stopped_def stopped_cursor_def)

lemma resumed_cursor_simps [simp]:
  "\<not> is_stopped (resumed_cursor c run now)" "cur_epoch (resumed_cursor c run now) = cur_epoch c + 1"
  "cur_project (resumed_cursor c run now) = cur_project c"
  "cur_revision (resumed_cursor c run now) = cur_revision c + 1"
  by (simp_all add: is_stopped_def resumed_cursor_def)

lemma execute_resumeE:
  assumes "execute_resume_transaction db p expected new_run actor now u = (db', Inr er)"
  obtains c run where "find_cursor db p = Some c" "epoch_number er = cur_epoch c + 1"
    "epoch_run er = run" "expected = None \<or> expected = Some (cur_epoch c)"
    "\<forall>p'. find_cursor db' p' = (if p' = p then Some (resumed_cursor c run now) else find_cursor db p')"
    "stop_fences db' = stop_fences db"
proof -
  obtain c where c: "find_cursor db p = Some c"
    using assms by (auto simp: execute_resume_transaction_def split: option.splits)
  let ?run = "case new_run of Some r \<Rightarrow> if r \<noteq> [] then r else cur_run c | None \<Rightarrow> cur_run c"
  let ?db1 = "update_cursor db p (cur_revision c) (\<lambda>q. resumed_cursor q ?run now)"
  have ex: "expected = None \<or> expected = Some (cur_epoch c)"
    and ia: "insert_audit ?db1 (resume_event c p ?run actor now u) = (db', None)"
    and er: "epoch_number er = cur_epoch c + 1" "epoch_run er = ?run"
    using assms c by (auto simp: execute_resume_transaction_def Let_def split: if_splits prod.splits option.splits)
  have "\<forall>p'. find_cursor db' p' = (if p' = p then Some (resumed_cursor c ?run now) else find_cursor db p')"
    using find_cursor_update[OF c, of "\<lambda>q. resumed_cursor q ?run now"]
      find_cursor_cong[OF insert_audit_others(1)[OF ia]] by simp
  moreover have "stop_fences db' = stop_fences db" using insert_audit_others(2)[OF ia] by simp
  ultimately show thesis using that c er ex by blast
qed

text \<open>What a STOP or resume leaves in the connection, successful or not.\<close>

lemma update_cursor_projects:
  "(\<And>q. cur_project (f q) = cur_project q) \<Longrightarrow>
     map cur_project (scope_cursors (update_cursor db p r0 f)) = map cur_project (scope_cursors db)"
  by (simp add: update_cursor_def)

lemma apply_stop_store:
  assumes "apply_stop db p c reason actor now u1 u2 = (db', res)" and "find_cursor db p = Some c"
  shows "db' = db \<or> (\<exists>f. stop_fences db' = stop_fences db @ [f] \<and> fence_project f = p \<and> fence_epoch f = cur_epoch c
    \<and> (\<forall>p'. find_cursor db' p' = (if p' = p then Some (stopped_cursor c reason now) else find_cursor db p'))
    \<and> map cur_project (scope_cursors db') = map cur_project (scope_cursors db))"
proof (cases "cancel_launches db p now")
  case (Inl err)
  then show ?thesis using assms(1) by (simp add: apply_stop_def)
next
  case (Inr c1)
  obtain db1 ids1 where c1: "cancel_launches db p now = Inr (db1, ids1)" using Inr by (cases c1) simp
  obtain db2 ids2 where c2: "fence_intents db1 p now = (db2, ids2)" by fastforce
  let ?f = "new_fence c p reason actor (ids1 @ ids2) now u1"
  let ?db3 = "db2\<lparr>stop_fences := stop_fences db2 @ [?f]\<rparr>"
  let ?g = "\<lambda>q. q\<lparr>cur_revision := cur_revision c + 1,
     cur_disposition := ''STOPPED'', cur_status := ''STOPPED'', cur_stop_at := Some now,
     cur_stop_reason := Some reason, cur_updated_at := now\<rparr>"
  let ?db4 = "update_cursor ?db3 p (cur_revision c) ?g"
  note run = assms(1)[unfolded apply_stop_def, simplified c1 c2 sum.case prod.case Let_def]
  have "db' = db \<or> (\<exists>err. insert_audit ?db4 (stop_event c ?f u2) = (db', err))"
    using run by (auto split: if_splits option.splits prod.splits)
  moreover have "\<exists>f. stop_fences db' = stop_fences db @ [f] \<and> fence_project f = p \<and> fence_epoch f = cur_epoch c
      \<and> (\<forall>p'. find_cursor db' p' = (if p' = p then Some (stopped_cursor c reason now) else find_cursor db p'))
      \<and> map cur_project (scope_cursors db') = map cur_project (scope_cursors db)"
    if ia: "insert_audit ?db4 (stop_event c ?f u2) = (db', err)" for err
  proof -
    note same = cancel_launches_others[OF c1] fence_intents_others[OF c2] insert_audit_others[OF ia]
    have "find_cursor ?db3 p' = find_cursor db p'" for p' by (simp add: find_cursor_def same)
    then have "\<forall>p'. find_cursor db' p' = (if p' = p then Some (stopped_cursor c reason now) else find_cursor db p')"
      using assms(2) find_cursor_update[of ?db3 p c ?g] find_cursor_cong[OF same(9)]
      by (simp add: stopped_cursor_def)
    moreover have "map cur_project (scope_cursors db') = map cur_project (scope_cursors db)"
      using update_cursor_projects[of ?g ?db3 p "cur_revision c"] by (simp add: same)
    ultimately show ?thesis by (intro exI[of _ ?f]) (simp add: same new_fence_def)
  qed
  ultimately show ?thesis by blast
qed

lemma execute_stop_store:
  assumes "execute_stop_transaction db p expected reason actor now u1 u2 = (db', res)"
  shows "db' = db \<or> (\<exists>c f. find_cursor db p = Some c \<and> stop_fences db' = stop_fences db @ [f]
    \<and> fence_project f = p \<and> fence_epoch f = cur_epoch c
    \<and> (\<forall>p'. find_cursor db' p' = (if p' = p then Some (stopped_cursor c reason now) else find_cursor db p'))
    \<and> map cur_project (scope_cursors db') = map cur_project (scope_cursors db))"
proof (cases "find_cursor db p")
  case None
  then show ?thesis using assms by (simp add: execute_stop_transaction_def)
next
  case (Some c)
  then have "db' = db \<or> apply_stop db p c reason actor now u1 u2 = (db', res)"
    using assms by (auto simp: execute_stop_transaction_def Let_def split: if_splits option.splits)
  with apply_stop_store[OF _ Some] Some show ?thesis by blast
qed

lemma execute_resume_store:
  assumes "execute_resume_transaction db p expected new_run actor now u = (db', res)"
  shows "db' = db \<or> (\<exists>c run. find_cursor db p = Some c \<and> stop_fences db' = stop_fences db
    \<and> (\<forall>p'. find_cursor db' p' = (if p' = p then Some (resumed_cursor c run now) else find_cursor db p'))
    \<and> map cur_project (scope_cursors db') = map cur_project (scope_cursors db))"
proof (cases "find_cursor db p")
  case None
  then show ?thesis using assms by (simp add: execute_resume_transaction_def)
next
  case (Some c)
  let ?run = "case new_run of Some r \<Rightarrow> if r \<noteq> [] then r else cur_run c | None \<Rightarrow> cur_run c"
  let ?g = "\<lambda>q. resumed_cursor q ?run now"
  let ?db1 = "update_cursor db p (cur_revision c) ?g"
  have "db' = db \<or> (\<exists>err. insert_audit ?db1 (resume_event c p ?run actor now u) = (db', err))"
    using assms Some by (auto simp: execute_resume_transaction_def Let_def split: if_splits prod.splits option.splits)
  moreover have "stop_fences db' = stop_fences db
      \<and> (\<forall>p'. find_cursor db' p' = (if p' = p then Some (resumed_cursor c ?run now) else find_cursor db p'))
      \<and> map cur_project (scope_cursors db') = map cur_project (scope_cursors db)"
    if ia: "insert_audit ?db1 (resume_event c p ?run actor now u) = (db', err)" for err
    using find_cursor_update[OF Some, of ?g] find_cursor_cong[OF insert_audit_others(1)[OF ia]]
      insert_audit_others[OF ia] update_cursor_projects[of ?g db p "cur_revision c"]
    by simp
  ultimately show ?thesis using Some by blast
qed

section \<open>The contract of a fence\<close>

text \<open>
  What the clients of the fence rely on: a fenced epoch stays fenced whatever steps follow, and
  a fenced epoch is never allowed. So no effect of that epoch can be released later.
\<close>

locale fence_contract =
  fixes step :: "'s \<Rightarrow> 's \<Rightarrow> bool"
    and fenced :: "'s \<Rightarrow> int \<Rightarrow> bool"
    and permitted :: "'s \<Rightarrow> int \<Rightarrow> bool"
  assumes fence_kept: "step s t \<Longrightarrow> fenced s e \<Longrightarrow> fenced t e"
    and fence_blocks: "fenced s e \<Longrightarrow> \<not> permitted s e"
begin

lemma never_permitted_again: "step\<^sup>*\<^sup>* s t \<Longrightarrow> fenced s e \<Longrightarrow> \<not> permitted t e"
  by (induction rule: converse_rtranclp_induct) (auto dest: fence_kept fence_blocks)

end

lemma stop_blocks:
  assumes "execute_stop_transaction db p expected reason actor now u1 u2 = (db', Inr (f, replay))"
  shows "\<not> check_allowed (check db' p e b)"
  using assms
proof (cases rule: execute_stopE)
  case (replayed c)
  then show ?thesis by (auto simp: check_allowed_iff)
next
  case (applied c)
  from applied(2,1) show ?thesis
    by (cases rule: apply_stopE) (use applied(1) in \<open>auto simp: check_allowed_iff\<close>)
qed

section \<open>Properties\<close>

text \<open>Once a STOP has returned, no effect boundary of the project lets anything pass, whatever
  epoch the request carries, whether the STOP was new or a replay.\<close>

lemma stop_blocks_every_boundary:
  assumes "execute_stop_transaction db p expected reason actor now u1 u2 = (db', Inr (f, replay))"
  shows "\<not> check_allowed (check db' p e b)"
  using assms by (rule stop_blocks)

text \<open>A store with one active project, for the examples.\<close>

definition sample_cursor :: scope_cursor where
  "sample_cursor = \<lparr>cur_id = ''cur-p'', cur_project = ''p'', cur_run = ''run-1'', cur_scope = PROJECT,
     cur_epoch = 1, cur_milestone = Some ''M1'', cur_task = Some ''T1'', cur_last_task = None,
     cur_last_gate = None, cur_plan = ''plan:v1'', cur_plan_version = 1, cur_revision = 1,
     cur_disposition = ''INITIALIZED'', cur_status = ''ACTIVE'', cur_stop_at = None,
     cur_stop_reason = None, cur_explanation = [], cur_updated_at = 0, cur_explicit = False\<rparr>"

definition sample_intent :: send_intent_row where
  "sample_intent = \<lparr>intent_id = ''i1'', intent_key = ''k1'', intent_project = ''p'', intent_continuation = ''c1'',
     intent_digest = ''d1'', intent_lease = ''l1'', intent_owner_hash = ''h1'', intent_lease_generation = 1,
     intent_epoch = 1, intent_run = ''run-1'', intent_task = ''T1'', intent_binding = ''b1'', intent_head = ''abc'',
     intent_conversation = None, intent_proof = None, intent_message = ''m1'', intent_payload = ''go'',
     intent_generation = 1, intent_revision = 1, intent_status = ''PREPARED'', intent_prepared_at = 0,
     intent_updated_at = 0, intent_attempted_at = None, intent_confirmed_at = None, intent_acknowledged_at = None,
     intent_evidence = [], uncertainty_reason = None\<rparr>"

definition sample_store :: scope_store where
  "sample_store = \<lparr>scope_cursors = [sample_cursor], stop_fences = [], launch_outbox = None,
     send_intents = Some [sample_intent],
     audit_events = Some []\<rparr>"

lemma sample_stop:
  "\<exists>db' f. execute_stop_transaction sample_store ''p'' None ''halt'' ''operator'' 5 ''aa'' ''bb'' = (db', Inr (f, False))"
  by (simp add: execute_stop_transaction_def sample_store_def sample_cursor_def find_cursor_def
      is_stopped_def apply_stop_def cancel_launches_def fence_intents_def find_fence_def Let_def
      insert_audit_def stop_event_def new_fence_def update_cursor_def)

text \<open>A first STOP cancels every pending launch and fences every continuation intent that has
  not crossed the physical send boundary, appends exactly one fence for the cursor's epoch,
  and leaves the cursors of other projects alone.\<close>

lemma stop_is_complete:
  assumes "execute_stop_transaction db p expected reason actor now u1 u2 = (db', Inr (f, False))"
  shows "pending_launches db' p = [] \<and> no_unsent db' p
    \<and> stop_fences db' = stop_fences db @ [f] \<and> fence_project f = p
    \<and> map_option cur_epoch (find_cursor db' p) = Some (fence_epoch f)
    \<and> map_option cur_epoch (find_cursor db p) = Some (fence_epoch f)
    \<and> (p' \<noteq> p \<longrightarrow> find_cursor db' p' = find_cursor db p')"
  using assms
proof (cases rule: execute_stopE)
  case (applied c)
  from applied(2,1) show ?thesis
    by (cases rule: apply_stopE) (use applied(1) in \<open>auto simp: stopped_cursor_def\<close>)
qed simp

text \<open>STOP is idempotent: repeating a successful STOP changes nothing and returns the same
  fence, marked as a replay.\<close>

lemma stop_idempotent:
  assumes "execute_stop_transaction db p expected reason actor now u1 u2 = (db', Inr (f, replay))"
  shows "execute_stop_transaction db' p expected reason' actor' now' u1' u2' = (db', Inr (f, True))"
  using assms
proof (cases rule: execute_stopE)
  case (replayed c)
  then show ?thesis by (simp add: execute_stop_transaction_def)
next
  case (applied c)
  from applied(2,1) show ?thesis
  proof (cases rule: apply_stopE)
    case existing
    obtain db1 ids where "cancel_launches db p now = Inr (db1, ids)"
      using applied(2) by (cases "cancel_launches db p now") (auto simp: apply_stop_def)
    then obtain db1' ids' where "cancel_launches db p now' = Inr (db1', ids')"
      by (auto simp: cancel_launches_def Let_def split: option.splits if_splits)
    then have "apply_stop db p c reason' actor' now' u1' u2' = (db, Inr (f, True))"
      using existing by (simp add: apply_stop_def split: prod.split)
    then show ?thesis
      using applied existing by (auto simp: execute_stop_transaction_def Let_def)
  next
    case fresh
    have "find_fence db' p (cur_epoch c) = Some f"
      using fresh by (simp add: find_fence_def find_append)
    then show ?thesis using fresh(8)
      by (simp add: execute_stop_transaction_def Let_def) (simp add: stopped_cursor_def)
  qed
qed

text \<open>A resume opens exactly the next epoch: every other epoch is refused at every boundary, and
  the new one is let through unless it is already fenced. Nothing requires that the project
  was stopped.\<close>

lemma resume_opens_next_epoch:
  assumes "execute_resume_transaction db p expected new_run actor now u = (db', Inr er)"
  shows "map_option (\<lambda>c. cur_epoch c + 1) (find_cursor db p) = Some (epoch_number er)
    \<and> (e \<noteq> epoch_number er \<longrightarrow> \<not> check_allowed (check db' p e b))
    \<and> (check_allowed (check db' p (epoch_number er) b) \<longleftrightarrow> find_fence db p (epoch_number er) = None)"
  using assms
proof (cases rule: execute_resumeE)
  case (1 c run)
  have "find_fence db' p e' = find_fence db p e'" for e'
    by (rule find_fence_cong) (rule 1(6))
  with 1 show ?thesis by (auto simp: check_allowed_iff)
qed

text \<open>Under the canonical schema, whose constraint on \<open>launch_outbox.status\<close> does not admit
  \<open>CANCELLED\<close>, a STOP of an active project with a pending launch raises \<open>IntegrityError\<close> and
  changes nothing: the project is not stopped.\<close>

lemma stop_fails_with_pending_launch:
  assumes "find_cursor db p = Some c" and "\<not> is_stopped c"
    and "expected = None \<or> expected = Some (cur_epoch c)"
    and "launch_outbox db = Some tab" and "outbox_check tab = Some CANONICAL_OUTBOX_STATUSES"
    and "pending_launches db p \<noteq> []"
  shows "execute_stop_transaction db p expected reason actor now u1 u2 = (db, Inl (Stop_Db IntegrityError))"
  using assms
  by (auto simp: execute_stop_transaction_def apply_stop_def cancel_launches_def Let_def
      CANONICAL_OUTBOX_STATUSES_def)

end
