(* ===== verification/Continuation_Packet.thy ===== *)
theory Continuation_Packet
  imports Stop_Fence
begin

text \<open>
  The content-addressed continuation packet of \<^verbatim>\<open>src/bdb_vnext/continuation_packet.py\<close>: the
  bounded, secret-free document, its digest, building one from canonical state and validating
  one against the live authority. Documents are dictionaries of Python values; JSON bytes on
  the wire (\<open>deserialize_packet\<close>) are not modelled. \<open>datetime.fromisoformat\<close> is a service of the
  run time, an argument of the definitions that read a timestamp.
\<close>

section \<open>Errors and services\<close>

record packet_error =
  err_code :: string
  err_message :: string
  err_field :: "string option"

definition fail :: "string \<Rightarrow> string \<Rightarrow> string option \<Rightarrow> packet_error + 'a" where
  "fail c msg field = Inl \<lparr>err_code = c, err_message = msg, err_field = field\<rparr>"

lemma fail_not_Inr [simp]: "fail c msg field \<noteq> Inr v"
  by (simp add: fail_def)

text \<open>What \<open>datetime.fromisoformat\<close> makes of a text: it raises, or gives a time without a zone,
  or an instant (in microseconds).\<close>

datatype iso_result = Not_Iso | Naive_Time | Instant int

type_synonym iso_reader = "string \<Rightarrow> iso_result"

text \<open>\<open>value.replace("Z", "+00:00")\<close>.\<close>

definition zone_text :: "string \<Rightarrow> string" where
  "zone_text s = concat (map (\<lambda>c. if c = CHR ''Z'' then ''+00:00'' else [c]) s)"

text \<open>The documented law of \<open>fromisoformat\<close>: it reads back what \<open>isoformat\<close> writes of an instant it
  has itself read.\<close>

definition reads_iso :: "iso_reader \<Rightarrow> bool" where
  "reads_iso rd \<longleftrightarrow> (\<forall>s us. rd s = Instant us \<longrightarrow> rd (zone_text (canonical_time us)) = Instant us)"

section \<open>Secret-like material\<close>

text \<open>The regular expressions of the source, as patterns over case-folded text; \<open>residues\<close> gives
  the texts that remain after the ways a pattern can match at the beginning.\<close>

datatype pat =
    Lit string
  | One "char \<Rightarrow> bool"
  | Many "char \<Rightarrow> bool"
  | Maybe pat
  | Alts "pat list"
  | Seqs "pat list"

fun skip_all :: "(char \<Rightarrow> bool) \<Rightarrow> string \<Rightarrow> string list" where
  "skip_all P [] = [[]]"
| "skip_all P (c # cs) = (c # cs) # (if P c then skip_all P cs else [])"

fun residues :: "pat \<Rightarrow> string \<Rightarrow> string list" where
  "residues (Lit p) s = (if starts_with p s then [drop (length p) s] else [])"
| "residues (One P) s = (case s of [] \<Rightarrow> [] | c # cs \<Rightarrow> if P c then [cs] else [])"
| "residues (Many P) s = skip_all P s"
| "residues (Maybe p) s = s # residues p s"
| "residues (Alts ps) s = concat (map (\<lambda>p. residues p s) ps)"
| "residues (Seqs ps) s = foldl (\<lambda>ss f. concat (map f ss)) [s] (map residues ps)"

fun pat_search :: "pat \<Rightarrow> string \<Rightarrow> bool" where
  "pat_search p [] = (residues p [] \<noteq> [])"
| "pat_search p (c # cs) = (residues p (c # cs) \<noteq> [] \<or> pat_search p cs)"

definition dash :: pat where
  "dash = Maybe (One (\<lambda>c. c = CHR ''_'' \<or> c = CHR ''-''))"

definition SECRET_KEY :: pat where
  "SECRET_KEY = Alts [Seqs [Lit ''access'', dash, Lit ''token''], Seqs [Lit ''api'', dash, Lit ''key''],
     Lit ''authorization'', Lit ''bearer'', Lit ''cookie'', Lit ''credential'', Lit ''password'', Lit ''passwd'',
     Seqs [Lit ''private'', dash, Lit ''key''], Lit ''secret'',
     Seqs [Lit ''session'', Maybe (Seqs [dash, Lit ''token''])], Lit ''token'']"

definition bearer_pat :: pat where
  "bearer_pat = Seqs [Lit ''bearer'', One is_space, Many is_space, One (\<lambda>c. \<not> is_space c)]"

definition private_key_pat :: pat where
  "private_key_pat = Seqs [Lit ''-----begin'', Many (\<lambda>c. code c \<noteq> 10), Lit ''private key-----'']"

definition assignment_pat :: pat where
  "assignment_pat = Seqs [Alts [Seqs [Lit ''access'', dash, Lit ''token''], Seqs [Lit ''api'', dash, Lit ''key''],
       Lit ''authorization'', Lit ''cookie'', Lit ''password'', Lit ''passwd'',
       Seqs [Lit ''session'', Maybe (Seqs [dash, Lit ''token''])]],
     Many is_space, One (\<lambda>c. c = CHR '':'' \<or> c = CHR ''=''), Many is_space, One (\<lambda>c. \<not> is_space c)]"

definition secret_key :: "string \<Rightarrow> bool" where
  "secret_key k = pat_search SECRET_KEY (lower k)"

text \<open>An assignment counts at the start of the text or after a space, a semicolon or an ampersand.\<close>

definition secret_value :: "string \<Rightarrow> bool" where
  "secret_value v = (let s = lower v in pat_search bearer_pat s \<or> pat_search private_key_pat s
     \<or> residues assignment_pat s \<noteq> []
     \<or> pat_search (Seqs [One (\<lambda>c. is_space c \<or> c = CHR '';'' \<or> c = CHR ''&''), assignment_pat]) s)"

definition secret_like :: "string \<Rightarrow> string option \<Rightarrow> bool" where
  "secret_like v k \<longleftrightarrow> (opt_true k \<and> secret_key (the k)) \<or> secret_value v"

text \<open>\<open>redact_secrets\<close>: the diagnostic copy.\<close>

fun redact_secrets :: "string option \<Rightarrow> pyval \<Rightarrow> pyval" where
  "redact_secrets k (PDict d) = (if k \<noteq> None \<and> secret_key (the k) then PStr ''[REDACTED]''
     else PDict (map (\<lambda>(j, v). (j, redact_secrets (Some j) v)) d))"
| "redact_secrets k (PList xs) = (if k \<noteq> None \<and> secret_key (the k) then PStr ''[REDACTED]''
     else PList (map (redact_secrets k) xs))"
| "redact_secrets k (PStr s) = (if (k \<noteq> None \<and> secret_key (the k)) \<or> secret_value s then PStr ''[REDACTED]'' else PStr s)"
| "redact_secrets k v = (if k \<noteq> None \<and> secret_key (the k) then PStr ''[REDACTED]'' else v)"

section \<open>Field checks\<close>

definition bounded_text :: "string \<Rightarrow> nat \<Rightarrow> bool \<Rightarrow> bool \<Rightarrow> pyval \<Rightarrow> packet_error + pyval" where
  "bounded_text field maximum allow_none reject_secrets v =
     (if v = PNone \<and> allow_none then Inr PNone
      else case v of
        PStr s \<Rightarrow>
          if s = [] \<or> length s > maximum then
            fail ''MALFORMED_FIELD'' ''packet field has an invalid bounded text value'' (Some field)
          else if reject_secrets \<and> secret_like s (Some field) then
            fail ''SECRET_MATERIAL_REJECTED'' ''secret-like material is rejected before serialization'' (Some field)
          else Inr (PStr s)
      | _ \<Rightarrow> fail ''MALFORMED_FIELD'' ''packet field has an invalid bounded text value'' (Some field))"

definition bounded_int :: "string \<Rightarrow> int \<Rightarrow> pyval \<Rightarrow> packet_error + pyval" where
  "bounded_int field minimum v =
     (case v of PInt n \<Rightarrow> if n < minimum then
          fail ''MALFORMED_FIELD'' ''packet field has an invalid integer value'' (Some field) else Inr v
      | _ \<Rightarrow> fail ''MALFORMED_FIELD'' ''packet field has an invalid integer value'' (Some field))"

definition digest_text :: "string \<Rightarrow> bool" where
  "digest_text s \<longleftrightarrow> length s = 71 \<and> starts_with ''sha256:'' s
     \<and> list_all (\<lambda>c. 48 \<le> code c \<and> code c \<le> 57 \<or> 97 \<le> code c \<and> code c \<le> 102) (drop 7 s)"

definition check_digest :: "string \<Rightarrow> pyval \<Rightarrow> packet_error + pyval" where
  "check_digest field v =
     (case v of PStr s \<Rightarrow> if digest_text s then Inr v
          else fail ''MALFORMED_DIGEST'' ''packet digest field is not an exact sha256 reference'' (Some field)
      | _ \<Rightarrow> fail ''MALFORMED_DIGEST'' ''packet digest field is not an exact sha256 reference'' (Some field))"

definition SCOPE_VALUES :: "string list" where
  "SCOPE_VALUES = map scope_value [TASK, MILESTONE, PROJECT, UNTIL_STOPPED]"

definition ACTION_VALUES :: "string list" where
  "ACTION_VALUES = map action_value [LAUNCH_TASK, CONTINUE_TASK_RETRY, CONTINUE_TASK_REPAIR, STOP_SCOPE_COMPLETE,
     STOP_PROJECT_COMPLETE, STOP_EXTERNAL_STOP_REQUESTED, PAUSE_MANUAL_GATE_REQUIRED,
     PAUSE_POLICY_APPROVAL_REQUIRED, WAIT_DEPENDENCY_PENDING, WAIT_MILESTONE_GATE_PENDING, WAIT_CI_WAITING,
     WAIT_TRANSIENT_BACKOFF, HALT_NO_RUNNABLE_WORK, HALT_WAITING_FOR_PLAN, HALT_BLOCKED]"

definition check_scope :: "string \<Rightarrow> pyval \<Rightarrow> packet_error + pyval" where
  "check_scope field v =
     (case v of PStr s \<Rightarrow> if s \<in> set SCOPE_VALUES then Inr v
          else fail ''MALFORMED_SCOPE'' ''packet scope is not a canonical AUTO scope'' (Some field)
      | _ \<Rightarrow> fail ''MALFORMED_SCOPE'' ''packet scope is not a canonical AUTO scope'' (Some field))"

definition check_action :: "string \<Rightarrow> pyval \<Rightarrow> packet_error + pyval" where
  "check_action field v =
     (case v of PStr s \<Rightarrow> if s \<in> set ACTION_VALUES then Inr v
          else fail ''MALFORMED_ACTION'' ''packet allowed action is not a canonical scope action'' (Some field)
      | _ \<Rightarrow> fail ''MALFORMED_ACTION'' ''packet allowed action is not a canonical scope action'' (Some field))"

definition utc_datetime :: "iso_reader \<Rightarrow> string \<Rightarrow> pyval \<Rightarrow> packet_error + int" where
  "utc_datetime rd field v =
     (case v of
        PStr s \<Rightarrow> (case rd (zone_text s) of
            Not_Iso \<Rightarrow> fail ''MALFORMED_TIMESTAMP'' ''packet timestamp is not valid UTC ISO-8601'' (Some field)
          | Naive_Time \<Rightarrow> fail ''MALFORMED_TIMESTAMP'' ''packet timestamp must carry an explicit timezone'' (Some field)
          | Instant us \<Rightarrow> Inr us)
      | _ \<Rightarrow> fail ''MALFORMED_TIMESTAMP'' ''packet timestamp is not valid UTC ISO-8601'' (Some field))"

definition canonical_timestamp :: "iso_reader \<Rightarrow> string \<Rightarrow> pyval \<Rightarrow> packet_error + pyval" where
  "canonical_timestamp rd field v = ebind (utc_datetime rd field v) (\<lambda>us. Inr (PStr (canonical_time us)))"

subsection \<open>Metadata\<close>

definition MAX_METADATA_NODES :: nat where "MAX_METADATA_NODES = 96"

definition MAX_METADATA_DEPTH :: nat where "MAX_METADATA_DEPTH = 3"

definition MAX_EVIDENCE_REFS :: nat where "MAX_EVIDENCE_REFS = 16"

definition too_large :: "string \<Rightarrow> packet_error + 'a" where
  "too_large field = fail ''METADATA_TOO_LARGE'' ''packet metadata exceeds its bounded shape'' (Some field)"

text \<open>The loops over the entries of a dictionary and of a list, threading the node count; \<open>visit\<close>
  is the recursive call.\<close>

fun metadata_entries ::
    "(string \<Rightarrow> pyval \<Rightarrow> nat \<Rightarrow> packet_error + pyval \<times> nat) \<Rightarrow> string \<Rightarrow> pydict \<Rightarrow> pydict \<Rightarrow> nat
      \<Rightarrow> packet_error + pydict \<times> nat" where
  "metadata_entries visit field acc [] n = Inr (acc, n)"
| "metadata_entries visit field acc ((k, v) # d) n =
     ebind (bounded_text (field @ ''.key'') 64 False False (PStr k)) (\<lambda>_.
       if secret_key k then
         fail ''SECRET_MATERIAL_REJECTED'' ''secret-like material is rejected before serialization'' (Some (field @ ''.'' @ k))
       else if py_has acc k then
         fail ''MALFORMED_METADATA'' ''metadata contains duplicate canonical keys'' (Some field)
       else ebind (visit (field @ ''.'' @ k) v n) (\<lambda>(w, m).
         metadata_entries visit field (acc @ [(k, w)]) d m))"

fun metadata_items ::
    "(string \<Rightarrow> pyval \<Rightarrow> nat \<Rightarrow> packet_error + pyval \<times> nat) \<Rightarrow> string \<Rightarrow> nat \<Rightarrow> pyval list \<Rightarrow> nat
      \<Rightarrow> packet_error + pyval list \<times> nat" where
  "metadata_items visit field i [] n = Inr ([], n)"
| "metadata_items visit field i (v # vs) n =
     ebind (visit (field @ ''['' @ nat_str i @ '']'') v n) (\<lambda>(w, m).
       ebind (metadata_items visit field (Suc i) vs m) (\<lambda>(ws, m'). Inr (w # ws, m')))"

text \<open>\<open>_metadata_value\<close>; the first argument is the depth still allowed, plus one.\<close>

fun metadata_value :: "nat \<Rightarrow> string \<Rightarrow> pyval \<Rightarrow> nat \<Rightarrow> packet_error + pyval \<times> nat" where
  "metadata_value 0 field v n = too_large field"
| "metadata_value (Suc k) field v n =
     (let m = n + 1 in
      if m > MAX_METADATA_NODES then too_large field
      else case v of
        PDict d \<Rightarrow> ebind (metadata_entries (metadata_value k) field [] d m) (\<lambda>(d', m'). Inr (PDict d', m'))
      | PList xs \<Rightarrow>
          if length xs > MAX_EVIDENCE_REFS then
            fail ''METADATA_TOO_LARGE'' ''packet metadata list exceeds its bounded length'' (Some field)
          else ebind (metadata_items (metadata_value k) field 0 xs m) (\<lambda>(ws, m'). Inr (PList ws, m'))
      | PStr s \<Rightarrow>
          if length s > 256 then
            fail ''METADATA_TOO_LARGE'' ''packet metadata string exceeds its bounded length'' (Some field)
          else if secret_like s None then
            fail ''SECRET_MATERIAL_REJECTED'' ''secret-like material is rejected before serialization'' (Some field)
          else Inr (v, m)
      | _ \<Rightarrow> Inr (v, m))"

definition metadata :: "string \<Rightarrow> pyval \<Rightarrow> packet_error + pyval" where
  "metadata field v = ebind (metadata_value (Suc MAX_METADATA_DEPTH) field v 0) (\<lambda>(w, n). Inr w)"

subsection \<open>Evidence references\<close>

definition MAX_BUDGET_SUMMARY_BYTES :: nat where "MAX_BUDGET_SUMMARY_BYTES = 2 * 1024"

text \<open>\<open>canonical_json_bytes\<close> of \<^verbatim>\<open>src/bdb_shared/evidence.py\<close>, as the text that is encoded, and the
  length of its UTF-8 encoding.\<close>

definition canonical_json_bytes :: "runtime \<Rightarrow> pyval \<Rightarrow> string" where
  "canonical_json_bytes rt v = json_dumps rt compact_json v @ [char_of (10::nat)]"

definition utf8_length :: "string \<Rightarrow> nat" where
  "utf8_length s = sum_list (map (\<lambda>c. if code c < 128 then 1 else 2) s)"

definition EVIDENCE_KEYS :: "string list" where
  "EVIDENCE_KEYS = [''evidence_id'', ''digest'', ''semantic_digest'', ''raw_digest'', ''schema'', ''type'']"

fun evidence_entries :: "string \<Rightarrow> pydict \<Rightarrow> packet_error + pydict" where
  "evidence_entries field [] = Inr []"
| "evidence_entries field ((k, v) # d) =
     (let f = field @ ''.'' @ k; maximum = (if k \<in> {''evidence_id'', ''schema'', ''type''} then 128 else 71) in
      ebind (bounded_text f maximum False True v) (\<lambda>w.
        ebind (if k \<in> {''digest'', ''semantic_digest'', ''raw_digest''} then check_digest f w else Inr w) (\<lambda>_.
          ebind (evidence_entries field d) (\<lambda>ws. Inr ((k, w) # ws)))))"

definition raw_evidence :: "string \<Rightarrow> string \<Rightarrow> packet_error + 'a" where
  "raw_evidence msg field = fail ''UNBOUNDED_RAW_EVIDENCE'' msg (Some field)"

definition normalize_evidence_ref :: "string \<Rightarrow> pyval \<Rightarrow> packet_error + pyval" where
  "normalize_evidence_ref field v =
     (case v of
        PStr s \<Rightarrow> check_digest field v
      | PDict d \<Rightarrow>
          if length d > 6 then raw_evidence ''evidence reference contains too many fields'' field
          else if \<not> list_all (\<lambda>(k, w). k \<in> set EVIDENCE_KEYS) d then
            raw_evidence ''evidence reference contains an unsupported raw field'' field
          else ebind (evidence_entries field d) (\<lambda>d'.
            if py_has d' ''digest'' \<or> (py_has d' ''semantic_digest'' \<and> py_has d' ''raw_digest'') then Inr (PDict d')
            else raw_evidence ''evidence reference has no integrity digest'' field)
      | _ \<Rightarrow> raw_evidence ''evidence reference must be a digest or bounded content reference'' field)"

fun evidence_items :: "string \<Rightarrow> nat \<Rightarrow> pyval list \<Rightarrow> packet_error + pyval list" where
  "evidence_items field i [] = Inr []"
| "evidence_items field i (v # vs) =
     ebind (normalize_evidence_ref (field @ ''['' @ nat_str i @ '']'') v) (\<lambda>w.
       ebind (evidence_items field (Suc i) vs) (\<lambda>ws. Inr (w # ws)))"

definition normalize_evidence_refs :: "runtime \<Rightarrow> string \<Rightarrow> pyval \<Rightarrow> packet_error + pyval" where
  "normalize_evidence_refs rt field v =
     (case v of
        PList xs \<Rightarrow>
          if length xs > MAX_EVIDENCE_REFS then raw_evidence ''evidence references exceed the bounded count'' field
          else ebind (evidence_items field 0 xs) (\<lambda>ws.
            if utf8_length (canonical_json_bytes rt (PList ws)) > MAX_BUDGET_SUMMARY_BYTES then
              raw_evidence ''evidence references exceed the bounded byte budget'' field
            else Inr (PList ws))
      | _ \<Rightarrow> raw_evidence ''evidence references must be a bounded sequence'' field)"

section \<open>The document\<close>

definition CONTINUATION_PACKET_SCHEMA :: string where "CONTINUATION_PACKET_SCHEMA = ''bdb-continuation-packet-v1''"

definition CONTINUATION_PACKET_VERSION :: string where "CONTINUATION_PACKET_VERSION = ''v1''"

definition EXPIRY_POLICY_REJECT_AT_OR_AFTER :: string where
  "EXPIRY_POLICY_REJECT_AT_OR_AFTER = ''REJECT_AT_OR_AFTER_EXPIRY''"

definition DEFAULT_PACKET_MAX_BYTES :: nat where "DEFAULT_PACKET_MAX_BYTES = 16 * 1024"

definition TRANSCRIPT_FIELDS :: "string list" where
  "TRANSCRIPT_FIELDS = [''arbitrary_chat_history'', ''chat_history'', ''conversation_history'',
     ''conversation_transcript'', ''full_plan'', ''plan'', ''raw_ci_logs'', ''raw_test_logs'', ''test_logs'', ''transcript'']"

text \<open>The required fields in the order of the source, each with its check; then the optional ones.\<close>

type_synonym field_checks = "(string \<times> (pyval \<Rightarrow> packet_error + pyval)) list"

definition required_checks :: "runtime \<Rightarrow> iso_reader \<Rightarrow> field_checks" where
  "required_checks rt rd = [
     (''schema'', bounded_text ''schema'' 96 False True),
     (''packet_version'', bounded_text ''packet_version'' 16 False True),
     (''project_id'', bounded_text ''project_id'' 256 False True),
     (''plan_identity'', bounded_text ''plan_identity'' 256 False True),
     (''plan_version'', bounded_int ''plan_version'' 1),
     (''plan_digest'', check_digest ''plan_digest''),
     (''scope'', check_scope ''scope''),
     (''run_id'', bounded_text ''run_id'' 256 False True),
     (''scope_epoch'', bounded_int ''scope_epoch'' 1),
     (''current_milestone_id'', bounded_text ''current_milestone_id'' 256 False True),
     (''current_task_id'', bounded_text ''current_task_id'' 256 False True),
     (''execution_binding_id'', bounded_text ''execution_binding_id'' 256 False True),
     (''expected_repo_head_before'', bounded_text ''expected_repo_head_before'' 128 False True),
     (''state_revision'', bounded_int ''state_revision'' 1),
     (''state_digest'', check_digest ''state_digest''),
     (''allowed_next_action'', check_action ''allowed_next_action''),
     (''budget_summary'', metadata ''budget_summary''),
     (''evidence_refs'', normalize_evidence_refs rt ''evidence_refs''),
     (''issued_at'', canonical_timestamp rd ''issued_at''),
     (''expires_at'', canonical_timestamp rd ''expires_at''),
     (''expiry_policy'', bounded_text ''expiry_policy'' 64 False True),
     (''continuation_generation'', bounded_int ''continuation_generation'' 1),
     (''continuation_id'', check_digest ''continuation_id''),
     (''packet_digest'', check_digest ''packet_digest'')]"

definition optional_checks :: field_checks where
  "optional_checks = [
     (''attempt_id'', bounded_text ''attempt_id'' 128 True True),
     (''expected_tree'', bounded_text ''expected_tree'' 128 True True),
     (''conversation_binding_policy'', bounded_text ''conversation_binding_policy'' 96 False True)]"

definition REQUIRED_FIELDS :: "string list" where
  "REQUIRED_FIELDS = [''schema'', ''packet_version'', ''project_id'', ''plan_identity'', ''plan_version'',
     ''plan_digest'', ''scope'', ''run_id'', ''scope_epoch'', ''current_milestone_id'', ''current_task_id'',
     ''execution_binding_id'', ''expected_repo_head_before'', ''state_revision'', ''state_digest'',
     ''allowed_next_action'', ''budget_summary'', ''evidence_refs'', ''issued_at'', ''expires_at'',
     ''expiry_policy'', ''continuation_generation'', ''continuation_id'', ''packet_digest'']"

definition OPTIONAL_FIELDS :: "string list" where
  "OPTIONAL_FIELDS = [''attempt_id'', ''expected_tree'', ''conversation_binding_policy'']"

fun check_fields :: "field_checks \<Rightarrow> pydict \<Rightarrow> packet_error + pydict" where
  "check_fields [] raw = Inr []"
| "check_fields ((k, f) # cs) raw =
     ebind (f (py_get raw k)) (\<lambda>w. ebind (check_fields cs raw) (\<lambda>ws. Inr ((k, w) # ws)))"

text \<open>\<open>str.casefold\<close> on code points up to 255.\<close>

definition casefold :: "string \<Rightarrow> string" where
  "casefold s = concat (map (\<lambda>c. if code c = 223 then ''ss'' else [lower_char c]) s)"

definition unknown_field_error :: "string \<Rightarrow> packet_error + 'a" where
  "unknown_field_error k =
     (if k \<in> set TRANSCRIPT_FIELDS \<or> contains ''transcript'' (casefold k) \<or> contains ''history'' (casefold k)
         \<or> contains ''log'' (casefold k)
      then fail ''FULL_TRANSCRIPT_NOT_ALLOWED'' ''full conversation, plan, or raw log fields are not allowed'' (Some k)
      else fail ''UNKNOWN_PACKET_FIELD'' ''continuation packet contains an unsupported field'' (Some k))"

definition is_mapping :: "pyval \<Rightarrow> bool" where
  "is_mapping v = (case v of PDict d \<Rightarrow> True | _ \<Rightarrow> False)"

text \<open>The checks that relate fields, after each is normalized.\<close>

definition check_document :: "runtime \<Rightarrow> iso_reader \<Rightarrow> pydict \<Rightarrow> packet_error + unit" where
  "check_document rt rd doc =
     (if py_get doc ''schema'' \<noteq> PStr CONTINUATION_PACKET_SCHEMA then
        fail ''UNKNOWN_PACKET_SCHEMA'' ''continuation packet schema is unsupported'' (Some ''schema'')
      else if py_get doc ''packet_version'' \<noteq> PStr CONTINUATION_PACKET_VERSION then
        fail ''UNKNOWN_PACKET_VERSION'' ''continuation packet version is unsupported'' (Some ''packet_version'')
      else if py_get doc ''expiry_policy'' \<noteq> PStr EXPIRY_POLICY_REJECT_AT_OR_AFTER then
        fail ''UNKNOWN_EXPIRY_POLICY'' ''continuation packet expiry policy is unsupported'' (Some ''expiry_policy'')
      else ebind (utc_datetime rd ''expires_at'' (py_get doc ''expires_at'')) (\<lambda>e.
        ebind (utc_datetime rd ''issued_at'' (py_get doc ''issued_at'')) (\<lambda>i.
          if e \<le> i then
            fail ''MALFORMED_TIMESTAMP'' ''continuation packet expiry must be after issue time'' (Some ''expires_at'')
          else if \<not> is_mapping (py_get doc ''budget_summary'') then
            fail ''MALFORMED_METADATA'' ''budget summary must be a bounded mapping'' (Some ''budget_summary'')
          else if utf8_length (canonical_json_bytes rt (py_get doc ''budget_summary'')) > MAX_BUDGET_SUMMARY_BYTES then
            fail ''METADATA_TOO_LARGE'' ''budget summary exceeds its bounded byte budget'' (Some ''budget_summary'')
          else Inr ())))"

definition semantic_entries_of :: "pydict \<Rightarrow> pydict" where
  "semantic_entries_of doc = sort_key fst (filter (\<lambda>(k, v). k \<notin> {''continuation_id'', ''packet_digest''}) doc)"

definition packet_digest_of :: "runtime \<Rightarrow> pydict \<Rightarrow> string" where
  "packet_digest_of rt doc =
     ''sha256:'' @ hexdigest (sha256 rt (canonical_json_bytes rt (PDict (semantic_entries_of doc))))"

definition normalize_document :: "runtime \<Rightarrow> iso_reader \<Rightarrow> bool \<Rightarrow> pyval \<Rightarrow> packet_error + pydict" where
  "normalize_document rt rd verify_digest v =
     (case v of
        PDict raw \<Rightarrow>
          (case find (\<lambda>k. \<not> py_has raw k) (sort REQUIRED_FIELDS) of
             Some k \<Rightarrow> fail ''MISSING_REQUIRED_FIELD'' ''continuation packet is missing a required field'' (Some k)
           | None \<Rightarrow>
               (case sort (filter (\<lambda>k. k \<notin> set (REQUIRED_FIELDS @ OPTIONAL_FIELDS)) (map fst raw)) of
                  k # ks \<Rightarrow> unknown_field_error k
                | [] \<Rightarrow>
                    ebind (check_fields (required_checks rt rd
                        @ filter (\<lambda>(k, f). py_has raw k) optional_checks) raw) (\<lambda>doc.
                      ebind (check_document rt rd doc) (\<lambda>_.
                        if verify_digest \<and> (py_get doc ''continuation_id'' \<noteq> PStr (packet_digest_of rt doc)
                             \<or> py_get doc ''packet_digest'' \<noteq> PStr (packet_digest_of rt doc)) then
                          fail ''PACKET_DIGEST_MISMATCH'' ''continuation packet digest does not match canonical semantic bytes'' None
                        else Inr doc))))
      | _ \<Rightarrow> fail ''MALFORMED_PACKET'' ''continuation packet must be a JSON object'' None)"

definition compute_packet_digest :: "runtime \<Rightarrow> iso_reader \<Rightarrow> pyval \<Rightarrow> packet_error + string" where
  "compute_packet_digest rt rd v = ebind (normalize_document rt rd False v) (\<lambda>doc. Inr (packet_digest_of rt doc))"

text \<open>\<open>ContinuationPacket(document)\<close>: the document a packet object holds.\<close>

definition packet_from_mapping :: "runtime \<Rightarrow> iso_reader \<Rightarrow> pyval \<Rightarrow> packet_error + pydict" where
  "packet_from_mapping rt rd v = normalize_document rt rd True v"

definition enforce_size :: "runtime \<Rightarrow> pydict \<Rightarrow> nat \<Rightarrow> packet_error + string" where
  "enforce_size rt doc max_bytes =
     (let s = canonical_json_bytes rt (PDict doc) in
      if utf8_length s > max_bytes then
        fail ''PACKET_TOO_LARGE'' ''serialized continuation packet exceeds its byte-size limit'' None
      else Inr s)"

section \<open>Building a packet\<close>

text \<open>The arguments of \<open>build_packet\<close>; timestamps are texts, and \<open>None\<close> is an omitted argument.\<close>

record packet_args =
  arg_project :: pyval
  arg_plan_identity :: pyval
  arg_plan_version :: pyval
  arg_plan_digest :: pyval
  arg_scope :: pyval
  arg_run_id :: pyval
  arg_epoch :: pyval
  arg_milestone :: pyval
  arg_current_task :: pyval
  arg_binding :: pyval
  arg_head :: "pyval option"
  arg_revision :: "pyval option"
  arg_state_digest :: "pyval option"
  arg_action :: "pyval option"
  arg_budget :: "pyval option"
  arg_evidence :: pyval
  arg_issued :: "pyval option"
  arg_expires :: "pyval option"
  arg_expiry_policy :: pyval
  arg_generation :: pyval
  arg_attempt :: "pyval option"
  arg_tree :: "pyval option"
  arg_policy :: "pyval option"
  arg_expected_head :: "pyval option"
  arg_canonical_revision :: "pyval option"
  arg_canonical_digest :: "pyval option"
  arg_allowed_action :: "pyval option"

definition coalesce_alias :: "string \<Rightarrow> pyval option \<Rightarrow> pyval option \<Rightarrow> packet_error + pyval option" where
  "coalesce_alias field primary alias =
     (if primary \<noteq> None \<and> alias \<noteq> None \<and> \<not> py_eq (the primary) (the alias) then
        fail ''CONFLICTING_ALIASES'' ''packet input aliases disagree'' (Some field)
      else Inr (if primary \<noteq> None then primary else alias))"

definition copy_mapping :: "string \<Rightarrow> pyval option \<Rightarrow> packet_error + pyval" where
  "copy_mapping field v = (case v of None \<Rightarrow> Inr (PDict [])
     | Some w \<Rightarrow> if is_mapping w then Inr w
         else fail ''MALFORMED_METADATA'' ''packet metadata must be a mapping'' (Some field))"

definition copy_sequence :: "string \<Rightarrow> pyval \<Rightarrow> packet_error + pyval" where
  "copy_sequence field v = (case v of PList xs \<Rightarrow> Inr v
     | _ \<Rightarrow> raw_evidence ''evidence references must be a bounded sequence'' field)"

definition ZERO_DIGEST :: string where
  "ZERO_DIGEST = ''sha256:'' @ replicate 64 (CHR ''0'')"

definition opt_entry :: "string \<Rightarrow> pyval option \<Rightarrow> pydict" where
  "opt_entry k v = (case v of None \<Rightarrow> [] | Some w \<Rightarrow> [(k, w)])"

definition base_document :: "packet_args \<Rightarrow> pyval \<Rightarrow> pyval \<Rightarrow> pyval \<Rightarrow> pyval \<Rightarrow> pyval \<Rightarrow> pyval \<Rightarrow> pyval \<Rightarrow> pyval \<Rightarrow> pydict" where
  "base_document a head rv dig act budget evidence issued expires = [
     (''schema'', PStr CONTINUATION_PACKET_SCHEMA), (''packet_version'', PStr CONTINUATION_PACKET_VERSION),
     (''project_id'', arg_project a), (''plan_identity'', arg_plan_identity a),
     (''plan_version'', arg_plan_version a), (''plan_digest'', arg_plan_digest a), (''scope'', arg_scope a),
     (''run_id'', arg_run_id a), (''scope_epoch'', arg_epoch a), (''current_milestone_id'', arg_milestone a),
     (''current_task_id'', arg_current_task a), (''execution_binding_id'', arg_binding a),
     (''expected_repo_head_before'', head), (''state_revision'', rv), (''state_digest'', dig),
     (''allowed_next_action'', act), (''budget_summary'', budget), (''evidence_refs'', evidence),
     (''issued_at'', issued), (''expires_at'', expires), (''expiry_policy'', arg_expiry_policy a),
     (''continuation_generation'', arg_generation a), (''continuation_id'', PStr ZERO_DIGEST),
     (''packet_digest'', PStr ZERO_DIGEST)]
     @ opt_entry ''attempt_id'' (arg_attempt a) @ opt_entry ''expected_tree'' (arg_tree a)
     @ opt_entry ''conversation_binding_policy'' (arg_policy a)"

definition with_digest :: "pydict \<Rightarrow> string \<Rightarrow> pydict" where
  "with_digest doc d = dict_put (dict_put doc ''continuation_id'' (PStr d)) ''packet_digest'' (PStr d)"

definition build_packet :: "runtime \<Rightarrow> iso_reader \<Rightarrow> packet_args \<Rightarrow> int \<Rightarrow> nat \<Rightarrow> packet_error + pydict" where
  "build_packet rt rd a now max_bytes =
     ebind (coalesce_alias ''expected_repo_head_before'' (arg_head a) (arg_expected_head a)) (\<lambda>head.
     ebind (coalesce_alias ''state_revision'' (arg_revision a) (arg_canonical_revision a)) (\<lambda>rv.
     ebind (coalesce_alias ''state_digest'' (arg_state_digest a) (arg_canonical_digest a)) (\<lambda>dig.
     ebind (coalesce_alias ''allowed_next_action'' (arg_action a) (arg_allowed_action a)) (\<lambda>act.
       let issued = (case arg_issued a of None \<Rightarrow> PStr (canonical_time now) | Some v \<Rightarrow> v) in
       case arg_expires a of
         None \<Rightarrow> fail ''EXPIRY_REQUIRED'' ''continuation packet expiry must be explicit'' (Some ''expires_at'')
       | Some expires \<Rightarrow>
           if rv = None \<or> dig = None \<or> head = None \<or> act = None then
             fail ''MISSING_REQUIRED_FIELD'' ''continuation packet identity is incomplete'' None
           else
             ebind (copy_mapping ''budget_summary'' (arg_budget a)) (\<lambda>budget.
             ebind (copy_sequence ''evidence_refs'' (arg_evidence a)) (\<lambda>evidence.
             ebind (normalize_document rt rd False (PDict (base_document a (the head) (the rv) (the dig) (the act)
                 budget evidence issued expires))) (\<lambda>doc.
             ebind (packet_from_mapping rt rd (PDict (with_digest doc (packet_digest_of rt doc)))) (\<lambda>packet.
             ebind (enforce_size rt packet max_bytes) (\<lambda>_. Inr packet)))))))))"

section \<open>The live authority\<close>

definition authority_checks :: "runtime \<Rightarrow> field_checks" where
  "authority_checks rt = [
     (''project_id'', bounded_text ''authority.project_id'' 256 False True),
     (''plan_identity'', bounded_text ''authority.plan_identity'' 256 False True),
     (''plan_version'', bounded_int ''authority.plan_version'' 1),
     (''plan_digest'', check_digest ''authority.plan_digest''),
     (''scope'', check_scope ''authority.scope''),
     (''run_id'', bounded_text ''authority.run_id'' 256 False True),
     (''scope_epoch'', bounded_int ''authority.scope_epoch'' 1),
     (''current_milestone_id'', bounded_text ''authority.current_milestone_id'' 256 True True),
     (''current_task_id'', bounded_text ''authority.current_task_id'' 256 True True),
     (''execution_binding_id'', bounded_text ''authority.execution_binding_id'' 256 True True),
     (''expected_repo_head_before'', bounded_text ''authority.expected_repo_head_before'' 128 False True),
     (''state_revision'', bounded_int ''authority.state_revision'' 1),
     (''state_digest'', check_digest ''authority.state_digest''),
     (''allowed_next_action'', check_action ''authority.allowed_next_action''),
     (''budget_summary'', \<lambda>v. if is_mapping v then metadata ''authority.budget_summary'' v
        else fail ''MALFORMED_AUTHORITY_SNAPSHOT'' ''authority budget summary must be a mapping'' None),
     (''evidence_refs'', normalize_evidence_refs rt ''authority.evidence_refs''),
     (''status'', bounded_text ''authority.status'' 64 False True),
     (''task_status'', bounded_text ''authority.task_status'' 64 False True),
     (''stop_requested'', \<lambda>v. case v of PBool b \<Rightarrow> Inr v
        | _ \<Rightarrow> fail ''MALFORMED_AUTHORITY_SNAPSHOT'' ''authority boolean state is malformed'' None),
     (''plan_approved'', \<lambda>v. case v of PBool b \<Rightarrow> Inr v
        | _ \<Rightarrow> fail ''MALFORMED_AUTHORITY_SNAPSHOT'' ''authority boolean state is malformed'' None),
     (''attempt_id'', bounded_text ''authority.attempt_id'' 128 True True),
     (''expected_tree'', bounded_text ''authority.expected_tree'' 128 True True),
     (''conversation_binding_policy'', bounded_text ''authority.conversation_binding_policy'' 96 False True)]"

text \<open>\<open>ContinuationAuthoritySnapshot(...)\<close> on its keyword arguments.\<close>

definition authority_snapshot :: "runtime \<Rightarrow> pydict \<Rightarrow> packet_error + pydict" where
  "authority_snapshot rt args = check_fields (authority_checks rt) args"

definition get_alias :: "pydict \<Rightarrow> string \<Rightarrow> string \<Rightarrow> pyval" where
  "get_alias d k k' = py_get_default d k (py_get d k')"

definition IDENTITY_ARGUMENTS :: "(string \<times> string) list" where
  "IDENTITY_ARGUMENTS = [(''project_id'', ''project_id''), (''plan_identity'', ''plan_identity''),
     (''plan_version'', ''plan_version''), (''plan_digest'', ''plan_digest''), (''scope'', ''scope''),
     (''run_id'', ''run_id''), (''scope_epoch'', ''scope_epoch''), (''current_milestone_id'', ''current_milestone_id''),
     (''current_task_id'', ''current_task_id''), (''execution_binding_id'', ''execution_binding_id''),
     (''expected_repo_head_before'', ''expected_head''), (''state_revision'', ''canonical_state_revision''),
     (''state_digest'', ''canonical_state_digest''), (''allowed_next_action'', ''allowed_action'')]"

definition authority_from_mapping :: "runtime \<Rightarrow> pyval \<Rightarrow> packet_error + pydict" where
  "authority_from_mapping rt v =
     (case v of
        PDict d \<Rightarrow>
          (let required = map (\<lambda>(k, k'). (k, get_alias d k k')) IDENTITY_ARGUMENTS in
           if list_ex (\<lambda>(k, w). w = PNone) required then
             fail ''MALFORMED_AUTHORITY_SNAPSHOT'' ''live authority snapshot is incomplete'' None
           else authority_snapshot rt (required @ [
             (''budget_summary'', py_get_default d ''budget_summary'' (PDict [])),
             (''evidence_refs'', py_get_default d ''evidence_refs'' (PList [])),
             (''status'', py_get_default d ''status'' (PStr ''ACTIVE'')),
             (''task_status'', py_get_default d ''task_status'' (PStr ''IN_PROGRESS'')),
             (''stop_requested'', py_get_default d ''stop_requested'' (PBool False)),
             (''plan_approved'', py_get_default d ''plan_approved'' (PBool True)),
             (''attempt_id'', py_get d ''attempt_id''), (''expected_tree'', py_get d ''expected_tree''),
             (''conversation_binding_policy'', py_get_default d ''conversation_binding_policy'' (PStr ''EXISTING_CHAT_ONLY''))]))
      | _ \<Rightarrow> fail ''MALFORMED_AUTHORITY_SNAPSHOT'' ''live authority snapshot must be a mapping'' None)"

section \<open>Validation\<close>

record validation_result =
  val_valid :: bool
  val_code :: string
  val_message :: string
  val_digest :: "string option"

datatype packet_input = Typed_Packet pydict | Raw_Mapping pyval

datatype authority_input = Snapshot pydict | Authority_Mapping pyval

definition pk_str :: "pydict \<Rightarrow> string \<Rightarrow> string" where
  "pk_str doc k = (case py_get doc k of PStr s \<Rightarrow> s | _ \<Rightarrow> [])"

definition pk_int :: "pydict \<Rightarrow> string \<Rightarrow> int" where
  "pk_int doc k = (case py_get doc k of PInt n \<Rightarrow> n | _ \<Rightarrow> 0)"

definition comparisons :: "(string \<times> string) list" where
  "comparisons = [(''project_id'', ''PROJECT_MISMATCH''), (''plan_identity'', ''STALE_PLAN_IDENTITY''),
     (''plan_version'', ''STALE_PLAN_VERSION''), (''plan_digest'', ''STALE_PLAN_DIGEST''), (''scope'', ''STALE_SCOPE''),
     (''run_id'', ''STALE_RUN''), (''scope_epoch'', ''STALE_SCOPE_EPOCH''),
     (''current_milestone_id'', ''STALE_MILESTONE''), (''current_task_id'', ''STALE_TASK''),
     (''execution_binding_id'', ''STALE_BINDING''), (''expected_repo_head_before'', ''STALE_HEAD''),
     (''state_revision'', ''STALE_STATE_REVISION''), (''state_digest'', ''STALE_STATE_DIGEST''),
     (''allowed_next_action'', ''STALE_ALLOWED_ACTION'')]"

definition TERMINAL_TASK_STATUSES :: "string list" where
  "TERMINAL_TASK_STATUSES = [''ACCEPTED'', ''COMPLETED'', ''SKIPPED'']"

definition NON_CONTINUABLE_STATUSES :: "string list" where
  "NON_CONTINUABLE_STATUSES = [''BLOCKED'', ''COMPLETED'', ''PAUSED'', ''STOPPED'', ''WAITING_FOR_PLAN'']"

text \<open>The reason why a packet does not match the live authority, if any.\<close>

definition authority_refusal :: "pydict \<Rightarrow> (string \<times> string) option" where
  "authority_refusal live =
     (let status = upper (pk_str live ''status'') in
      if py_get live ''plan_approved'' = PBool False then Some (''PLAN_NOT_APPROVED'', ''live authority has no approved plan'')
      else if py_get live ''stop_requested'' = PBool True \<or> status \<in> {''STOPPED'', ''COMPLETED''} then
        Some (''STOP_CANONICAL'', ''canonical STOP or completion rejects continuation'')
      else if status \<in> set NON_CONTINUABLE_STATUSES then
        Some (''AUTHORITY_NOT_CONTINUABLE'', ''live authority state is not legally continuable'')
      else if upper (pk_str live ''task_status'') \<in> set TERMINAL_TASK_STATUSES then
        Some (''TASK_ALREADY_ACCEPTED'', ''current task is already terminal in live authority'')
      else None)"

definition identity_refusal :: "pydict \<Rightarrow> pydict \<Rightarrow> (string \<times> string) option" where
  "identity_refusal doc live =
     (case find (\<lambda>(k, c). \<not> py_eq (py_get doc k) (py_get live k)) comparisons of
        Some (k, c) \<Rightarrow> Some (c, ''packet identity differs from current canonical authority'')
      | None \<Rightarrow>
          if \<not> py_eq (py_get doc ''budget_summary'') (py_get live ''budget_summary'') then
            Some (''STALE_BUDGET'', ''packet budget summary differs from current authority'')
          else if \<not> py_eq (py_get doc ''evidence_refs'') (py_get live ''evidence_refs'') then
            Some (''STALE_EVIDENCE_REFS'', ''packet evidence references differ from current authority'')
          else if \<not> py_eq (py_get_default doc ''conversation_binding_policy'' (PStr ''EXISTING_CHAT_ONLY''))
                   (py_get live ''conversation_binding_policy'') then
            Some (''STALE_BINDING_POLICY'', ''packet conversation binding policy differs from current authority'')
          else if \<not> py_eq (py_get doc ''attempt_id'') (py_get live ''attempt_id'') then
            Some (''STALE_ATTEMPT'', ''packet attempt identity differs from current authority'')
          else if \<not> py_eq (py_get doc ''expected_tree'') (py_get live ''expected_tree'') then
            Some (''STALE_TREE'', ''packet expected tree differs from current authority'')
          else None)"

definition invalid :: "string \<Rightarrow> string \<Rightarrow> string option \<Rightarrow> validation_result" where
  "invalid c msg d = \<lparr>val_valid = False, val_code = c, val_message = msg, val_digest = d\<rparr>"

text \<open>The packet read by \<open>validate_packet\<close> (its first \<open>try\<close> block) and the authority.\<close>

definition read_packet :: "runtime \<Rightarrow> iso_reader \<Rightarrow> packet_input \<Rightarrow> nat \<Rightarrow> packet_error + pydict" where
  "read_packet rt rd p max_bytes =
     ebind (case p of Typed_Packet doc \<Rightarrow> Inr doc | Raw_Mapping v \<Rightarrow> packet_from_mapping rt rd v) (\<lambda>doc.
       ebind (enforce_size rt doc max_bytes) (\<lambda>_. Inr doc))"

definition read_authority :: "runtime \<Rightarrow> authority_input \<Rightarrow> packet_error + pydict" where
  "read_authority rt a = (case a of Snapshot live \<Rightarrow> Inr live | Authority_Mapping v \<Rightarrow> authority_from_mapping rt v)"

definition validate_packet ::
    "runtime \<Rightarrow> iso_reader \<Rightarrow> packet_input \<Rightarrow> authority_input \<Rightarrow> int \<Rightarrow> nat \<Rightarrow> validation_result" where
  "validate_packet rt rd p a now max_bytes =
     (case read_packet rt rd p max_bytes of
        Inl err \<Rightarrow> invalid (err_code err) (err_message err) None
      | Inr doc \<Rightarrow>
          (let digest = Some (pk_str doc ''packet_digest'') in
           case read_authority rt a of
             Inl err \<Rightarrow> invalid (err_code err) (err_message err) digest
           | Inr live \<Rightarrow>
               (case utc_datetime rd ''expires_at'' (py_get doc ''expires_at'') of
                  Inl err \<Rightarrow> invalid (err_code err) (err_message err) digest
                | Inr e \<Rightarrow>
                    if now \<ge> e then
                      invalid ''EXPIRED_PACKET'' ''continuation packet is expired at the supplied authority clock'' digest
                    else case authority_refusal live of
                      Some (c, msg) \<Rightarrow> invalid c msg digest
                    | None \<Rightarrow>
                        (case identity_refusal doc live of
                           Some (c, msg) \<Rightarrow> invalid c msg digest
                         | None \<Rightarrow> \<lparr>val_valid = True, val_code = ''VALID'',
                             val_message = ''packet matches current live authority'', val_digest = digest\<rparr>))))"

section \<open>What the checks keep\<close>

text \<open>Every check but the one for timestamps returns the value it was given.\<close>

definition keeps :: "(pyval \<Rightarrow> packet_error + pyval) \<Rightarrow> bool" where
  "keeps f \<longleftrightarrow> (\<forall>v w. f v = Inr w \<longrightarrow> w = v)"

definition stable :: "(pyval \<Rightarrow> packet_error + pyval) \<Rightarrow> bool" where
  "stable f \<longleftrightarrow> (\<forall>v w. f v = Inr w \<longrightarrow> f w = Inr w)"

lemma keeps_stable: "keeps f \<Longrightarrow> stable f"
  by (auto simp: keeps_def stable_def)

lemma keeps_simple:
  "keeps (bounded_text field maximum allow_none reject)" "keeps (bounded_int field minimum)"
  "keeps (check_digest field)" "keeps (check_scope field)" "keeps (check_action field)"
  by (auto simp: keeps_def bounded_text_def bounded_int_def check_digest_def check_scope_def check_action_def fail_def
      split: pyval.splits if_splits)

lemma metadata_entries_keeps:
  assumes "\<And>field v n w m. visit field v n = Inr (w, m) \<Longrightarrow> w = v"
  shows "metadata_entries visit field acc d n = Inr (d', m) \<Longrightarrow> d' = acc @ d"
proof (induction d arbitrary: acc n)
  case (Cons e d)
  obtain k v where e: "e = (k, v)" by (cases e)
  from Cons.prems e obtain w m' where "visit (field @ ''.'' @ k) v n = Inr (w, m')"
      "metadata_entries visit field (acc @ [(k, w)]) d m' = Inr (d', m)"
    by (auto simp: ebind_Inr_iff split: if_splits)
  with Cons.IH assms e show ?case by fastforce
qed simp

lemma metadata_items_keeps:
  assumes "\<And>field v n w m. visit field v n = Inr (w, m) \<Longrightarrow> w = v"
  shows "metadata_items visit field i vs n = Inr (ws, m) \<Longrightarrow> ws = vs"
proof (induction vs arbitrary: i n ws m)
  case (Cons v vs)
  from Cons.prems obtain w m' ws' m'' where "visit (field @ ''['' @ nat_str i @ '']'') v n = Inr (w, m')"
      "metadata_items visit field (Suc i) vs m' = Inr (ws', m'')" "ws = w # ws'"
    by (auto simp: ebind_Inr_iff)
  with Cons.IH assms show ?case by blast
qed simp

lemma metadata_value_keeps: "metadata_value k field v n = Inr (w, m) \<Longrightarrow> w = v"
proof (induction k arbitrary: field v n w m)
  case 0
  then show ?case by (simp add: too_large_def)
next
  case (Suc k)
  have keep: "metadata_entries (metadata_value k) field [] d n = Inr (d', m) \<Longrightarrow> d' = d"
    "metadata_items (metadata_value k) field 0 xs n = Inr (ws, m) \<Longrightarrow> ws = xs" for field d d' xs ws n m
    using metadata_entries_keeps[of "metadata_value k" field "[]" d n d' m]
      metadata_items_keeps[of "metadata_value k" field 0 xs n ws m] Suc.IH by auto
  show ?case
  proof (cases v)
    case (PList xs)
    with Suc.prems show ?thesis
      by (auto simp: Let_def too_large_def ebind_Inr_iff split: if_splits dest: keep(2))
  next
    case (PDict d)
    with Suc.prems show ?thesis
      by (auto simp: Let_def too_large_def ebind_Inr_iff split: if_splits dest: keep(1))
  qed (use Suc.prems in \<open>auto simp: Let_def too_large_def split: if_splits\<close>)
qed

lemma keeps_metadata: "keeps (metadata field)"
  by (auto simp: keeps_def metadata_def ebind_Inr_iff simp del: metadata_value.simps dest: metadata_value_keeps)

lemma evidence_entries_keeps: "evidence_entries field d = Inr d' \<Longrightarrow> d' = d"
proof (induction d arbitrary: d')
  case (Cons e d)
  obtain k v where e: "e = (k, v)" by (cases e)
  from Cons.prems e obtain n w ws where "bounded_text (field @ ''.'' @ k) n False True v = Inr w"
      "evidence_entries field d = Inr ws" "d' = (k, w) # ws"
    by (auto simp: Let_def ebind_Inr_iff simp del: append.simps)
  moreover from this(1) have "w = v" using keeps_simple(1) unfolding keeps_def by blast
  ultimately show ?case using Cons.IH e by simp
qed simp

lemma keeps_evidence_ref: "keeps (normalize_evidence_ref field)"
  using keeps_simple(3)[of field]
  by (auto simp: keeps_def normalize_evidence_ref_def ebind_Inr_iff raw_evidence_def
      split: pyval.splits if_splits dest: evidence_entries_keeps)

lemma evidence_items_keeps: "evidence_items field i vs = Inr ws \<Longrightarrow> ws = vs"
proof (induction vs arbitrary: i ws)
  case (Cons v vs)
  then show ?case using keeps_evidence_ref by (auto simp: ebind_Inr_iff keeps_def)
qed simp

lemma keeps_evidence_refs: "keeps (normalize_evidence_refs rt field)"
  by (auto simp: keeps_def normalize_evidence_refs_def ebind_Inr_iff raw_evidence_def
      split: pyval.splits if_splits dest: evidence_items_keeps)

lemma stable_timestamp: "reads_iso rd \<Longrightarrow> stable (canonical_timestamp rd field)"
  by (auto simp: stable_def canonical_timestamp_def ebind_Inr_iff utc_datetime_def reads_iso_def
      split: pyval.splits iso_result.splits)

lemmas stable_checks = keeps_simple[THEN keeps_stable] keeps_metadata[THEN keeps_stable]
  keeps_evidence_refs[THEN keeps_stable] stable_timestamp

lemma check_fields_iff:
  "check_fields cs raw = Inr doc \<longleftrightarrow>
     list_all2 (\<lambda>(k, f) (k', w). k' = k \<and> f (py_get raw k) = Inr w) cs doc"
proof (induction cs arbitrary: doc)
  case (Cons c cs)
  then show ?case
    by (cases c) (auto simp: ebind_Inr_iff list_all2_Cons1 eq_commute[of "(_ # _)" doc])
qed auto

lemma check_fields_keys: "check_fields cs raw = Inr doc \<Longrightarrow> map fst doc = map fst cs"
  unfolding check_fields_iff by (induction cs doc rule: list_all2_induct) auto

lemma check_fields_value:
  assumes "check_fields cs raw = Inr doc" and "(k, f) \<in> set cs" and "distinct (map fst cs)"
  shows "f (py_get raw k) = Inr (py_get doc k)"
proof -
  have d: "distinct (map fst doc)" using check_fields_keys[OF assms(1)] assms(3) by simp
  obtain i where i: "i < length cs" "cs ! i = (k, f)" using assms(2) by (auto simp: in_set_conv_nth)
  then have len: "i < length doc" and "f (py_get raw k) = Inr (snd (doc ! i))" and "fst (doc ! i) = k"
    using assms(1) unfolding check_fields_iff by (auto simp: list_all2_conv_all_nth case_prod_beta)
  moreover have "(k, snd (doc ! i)) \<in> set doc" using len \<open>fst (doc ! i) = k\<close> by (metis nth_mem prod.collapse)
  ultimately show ?thesis using d by (simp add: py_get_def)
qed

lemma check_fields_stable:
  assumes "check_fields cs raw = Inr doc" and "distinct (map fst cs)" and "\<forall>(k, f)\<in>set cs. stable f"
  shows "check_fields cs doc = Inr doc"
proof -
  have d: "distinct (map fst doc)" using check_fields_keys[OF assms(1)] assms(2) by simp
  have again: "f (py_get doc k) = Inr w" if "(k, f) \<in> set cs" "(k, w) \<in> set doc" "f (py_get raw k) = Inr w" for k f w
    using that d assms(3) by (auto simp: py_get_def stable_def)
  have old: "length cs = length doc"
    "\<And>i. i < length doc \<Longrightarrow> fst (doc ! i) = fst (cs ! i) \<and> snd (cs ! i) (py_get raw (fst (cs ! i))) = Inr (snd (doc ! i))"
    using assms(1) unfolding check_fields_iff by (simp_all add: list_all2_conv_all_nth case_prod_beta)
  have "snd (cs ! i) (py_get doc (fst (cs ! i))) = Inr (snd (doc ! i))" if "i < length doc" for i
    using again[of "fst (cs ! i)" "snd (cs ! i)" "snd (doc ! i)"] old(2)[OF that] that old(1)
    by (metis nth_mem prod.collapse)
  then show ?thesis
    unfolding check_fields_iff using old by (simp add: list_all2_conv_all_nth case_prod_beta)
qed

lemma required_keys: "map fst (required_checks rt rd) = REQUIRED_FIELDS"
  by (simp add: required_checks_def REQUIRED_FIELDS_def)

lemma optional_keys: "map fst optional_checks = OPTIONAL_FIELDS"
  by (simp add: optional_checks_def OPTIONAL_FIELDS_def)

lemma distinct_fields: "distinct (REQUIRED_FIELDS @ OPTIONAL_FIELDS)"
  by (simp add: REQUIRED_FIELDS_def OPTIONAL_FIELDS_def)

text \<open>The checks a raw document goes through.\<close>

definition checks_for :: "runtime \<Rightarrow> iso_reader \<Rightarrow> pydict \<Rightarrow> field_checks" where
  "checks_for rt rd raw = required_checks rt rd @ filter (\<lambda>(k, f). py_has raw k) optional_checks"

lemma checks_for_keys:
  "map fst (checks_for rt rd raw) = REQUIRED_FIELDS @ filter (py_has raw) OPTIONAL_FIELDS"
proof -
  have "map fst (filter (\<lambda>(k, f). py_has raw k) cs) = filter (py_has raw) (map fst cs)" for cs :: field_checks
    by (induction cs) auto
  then show ?thesis by (simp add: checks_for_def required_keys optional_keys)
qed

lemma checks_for_distinct: "distinct (map fst (checks_for rt rd raw))"
  using distinct_fields by (auto simp: checks_for_keys)

lemma checks_for_stable: "reads_iso rd \<Longrightarrow> \<forall>(k, f)\<in>set (checks_for rt rd raw). stable f"
  by (auto simp: checks_for_def required_checks_def optional_checks_def stable_checks)

lemma normalize_documentE:
  assumes "normalize_document rt rd verify v = Inr doc"
  obtains raw where "v = PDict raw" "check_fields (checks_for rt rd raw) raw = Inr doc"
    "check_document rt rd doc = Inr ()"
    "verify \<Longrightarrow> py_get doc ''continuation_id'' = PStr (packet_digest_of rt doc)
       \<and> py_get doc ''packet_digest'' = PStr (packet_digest_of rt doc)"
  using assms
  by (auto simp: normalize_document_def checks_for_def ebind_Inr_iff unknown_field_error_def
      split: pyval.splits option.splits list.splits if_splits)

text \<open>A document that went through the checks goes through them again unchanged.\<close>

lemma normalize_again:
  assumes "check_fields (checks_for rt rd raw) raw = Inr doc" and "check_document rt rd doc = Inr ()"
    and "reads_iso rd"
  shows "normalize_document rt rd verify (PDict doc) =
    (if verify \<and> (py_get doc ''continuation_id'' \<noteq> PStr (packet_digest_of rt doc)
         \<or> py_get doc ''packet_digest'' \<noteq> PStr (packet_digest_of rt doc))
     then fail ''PACKET_DIGEST_MISMATCH'' ''continuation packet digest does not match canonical semantic bytes'' None
     else Inr doc)"
proof -
  have keys: "map fst doc = REQUIRED_FIELDS @ filter (py_has raw) OPTIONAL_FIELDS"
    using check_fields_keys[OF assms(1)] by (simp add: checks_for_keys)
  have has: "py_has doc k \<longleftrightarrow> k \<in> set (map fst doc)" for k
    by (simp add: py_has_def map_of_eq_None_iff)
  have opt: "py_has doc k \<longleftrightarrow> py_has raw k" if "k \<in> set OPTIONAL_FIELDS" for k
    using that distinct_fields by (auto simp: has keys)
  have same: "checks_for rt rd doc = checks_for rt rd raw"
    by (simp add: checks_for_def optional_checks_def opt OPTIONAL_FIELDS_def)
  have "find (\<lambda>k. \<not> py_has doc k) (sort REQUIRED_FIELDS) = None"
    by (auto simp: find_None_iff has keys)
  moreover have "filter (\<lambda>k. k \<notin> set (REQUIRED_FIELDS @ OPTIONAL_FIELDS)) (map fst doc) = []"
    by (auto simp: keys filter_empty_conv)
  moreover have "check_fields (checks_for rt rd doc) doc = Inr doc"
    unfolding same by (rule check_fields_stable[OF assms(1) checks_for_distinct checks_for_stable[OF assms(3)]])
  ultimately show ?thesis
    using assms(2) by (simp add: normalize_document_def checks_for_def del: map_append)
qed

subsection \<open>The digest fields\<close>

lemma hexdigest_chars: "list_all (\<lambda>c. 48 \<le> code c \<and> code c \<le> 57 \<or> 97 \<le> code c \<and> code c \<le> 102) (hexdigest w)"
proof -
  have "let c = hex_char n in 48 \<le> code c \<and> code c \<le> 57 \<or> 97 \<le> code c \<and> code c \<le> 102" if "n < 16" for n
    using that by (auto simp: hex_char_def code_def Let_def)
  moreover have "nat (uint v mod 16) < 16" for v :: "256 word" by (simp add: nat_less_iff)
  ultimately show ?thesis unfolding hexdigest_def list_all_iff by (force simp: Let_def)
qed

lemma digest_text_sha: "digest_text (''sha256:'' @ hexdigest w)"
  using hexdigest_chars[of w] by (simp add: digest_text_def starts_with_def)

definition is_digest_field :: "string \<Rightarrow> bool" where
  "is_digest_field k \<longleftrightarrow> k \<in> {''continuation_id'', ''packet_digest''}"

lemma py_get_with_digest:
  "py_get (with_digest doc d) k = (if is_digest_field k then PStr d else py_get doc k)"
  by (simp add: with_digest_def py_get_def map_of_dict_put is_digest_field_def)

lemma with_digest_map:
  assumes "''continuation_id'' \<in> fst ` set doc" and "''packet_digest'' \<in> fst ` set doc"
  shows "with_digest doc d = map (\<lambda>(k, v). (k, if is_digest_field k then PStr d else v)) doc"
proof -
  have "''packet_digest'' \<in> fst ` set (map (\<lambda>(k, v). (k, if k = ''continuation_id'' then PStr d else v)) doc)"
    using assms(2) by force
  then show ?thesis using assms(1) by (auto simp: with_digest_def dict_put_def is_digest_field_def)
qed

lemma semantic_entries_with_digest:
  assumes "''continuation_id'' \<in> fst ` set doc" and "''packet_digest'' \<in> fst ` set doc"
  shows "semantic_entries_of (with_digest doc d) = semantic_entries_of doc"
proof -
  have "filter (\<lambda>(k, v). k \<notin> {''continuation_id'', ''packet_digest''})
      (map (\<lambda>(k, v). (k, if is_digest_field k then PStr d else v)) xs)
      = filter (\<lambda>(k, v). k \<notin> {''continuation_id'', ''packet_digest''}) xs" for xs
    by (induction xs) (auto simp: is_digest_field_def)
  then show ?thesis by (simp add: semantic_entries_of_def with_digest_map[OF assms])
qed

lemma digest_checks: "(k, f) \<in> set (checks_for rt rd raw) \<Longrightarrow> is_digest_field k \<Longrightarrow> f = check_digest k"
proof -
  assume "(k, f) \<in> set (checks_for rt rd raw)" and k: "is_digest_field k"
  then have "(k, f) \<in> set (required_checks rt rd @ optional_checks)" by (auto simp: checks_for_def)
  with k show ?thesis by (auto simp: required_checks_def optional_checks_def is_digest_field_def)
qed

text \<open>Filling in the right digest turns a normalized document into a packet.\<close>

lemma with_digest_accepted:
  assumes "normalize_document rt rd False v = Inr doc" and "reads_iso rd"
  shows "packet_from_mapping rt rd (PDict (with_digest doc (packet_digest_of rt doc)))
    = Inr (with_digest doc (packet_digest_of rt doc))"
proof -
  define d where "d = packet_digest_of rt doc"
  define doc' where "doc' = with_digest doc d"
  obtain raw where raw: "check_fields (checks_for rt rd raw) raw = Inr doc" "check_document rt rd doc = Inr ()"
    using normalize_documentE[OF assms(1)] by metis
  let ?cs = "checks_for rt rd raw"
  note keys = check_fields_keys[OF raw(1)]
  have present: "k \<in> fst ` set doc" if "k \<in> set REQUIRED_FIELDS" for k
  proof -
    have "k \<in> set (map fst doc)" using that unfolding keys by (simp add: checks_for_keys)
    then show ?thesis by simp
  qed
  have dig: "''continuation_id'' \<in> fst ` set doc" "''packet_digest'' \<in> fst ` set doc"
    by (rule present; simp add: REQUIRED_FIELDS_def)+
  have doc': "doc' = map (\<lambda>(k, v). (k, if is_digest_field k then PStr d else v)) doc"
    unfolding doc'_def by (rule with_digest_map[OF dig])
  have keys': "map fst doc' = map fst doc" by (simp add: doc' case_prod_beta)
  have get: "f (py_get doc' k) = Inr (py_get doc' k)" if kf: "(k, f) \<in> set ?cs" for k f
  proof (cases "is_digest_field k")
    case True
    then have "f = check_digest k" by (rule digest_checks[OF kf])
    then show ?thesis using True digest_text_sha
      by (simp add: doc'_def py_get_with_digest check_digest_def d_def packet_digest_of_def)
  next
    case False
    have "stable f" using checks_for_stable[OF assms(2)] kf by blast
    then show ?thesis using check_fields_value[OF raw(1) kf checks_for_distinct] False
      by (auto simp: doc'_def py_get_with_digest stable_def)
  qed
  have "check_fields ?cs doc' = Inr (map (\<lambda>(k, f). (k, py_get doc' k)) ?cs)"
    unfolding check_fields_iff using get by (auto simp: list_all2_conv_all_nth case_prod_beta)
  moreover have "map (\<lambda>(k, f). (k, py_get doc' k)) ?cs = doc'"
  proof -
    have "distinct (map fst doc')" using keys' keys checks_for_distinct by metis
    then have "map (\<lambda>k. (k, py_get doc' k)) (map fst doc') = doc'"
      by (auto simp: py_get_def intro!: map_idI)
    then show ?thesis unfolding keys' keys by (simp add: case_prod_unfold comp_def)
  qed
  ultimately have c: "check_fields ?cs doc' = Inr doc'" by simp
  have "py_has doc' k \<longleftrightarrow> k \<in> set (map fst doc')" for k by (simp add: py_has_def map_of_eq_None_iff)
  then have has: "py_has doc' k \<longleftrightarrow> k \<in> set (REQUIRED_FIELDS @ filter (py_has raw) OPTIONAL_FIELDS)" for k
    unfolding keys' keys checks_for_keys by simp
  have "py_has doc' k \<longleftrightarrow> py_has raw k" if "k \<in> set OPTIONAL_FIELDS" for k
    using that distinct_fields by (auto simp: has)
  then have same: "checks_for rt rd doc' = ?cs"
    by (simp add: checks_for_def optional_checks_def OPTIONAL_FIELDS_def)
  have cd: "check_document rt rd doc' = Inr ()"
  proof -
    have same: "py_get doc' k = py_get doc k" if "\<not> is_digest_field k" for k
      using that by (simp add: doc'_def py_get_with_digest)
    have "check_document rt rd doc' = check_document rt rd doc"
      unfolding check_document_def by (simp add: same is_digest_field_def cong: if_cong)
    then show ?thesis using raw(2) by simp
  qed
  have pd: "packet_digest_of rt doc' = d"
    by (simp add: packet_digest_of_def doc'_def semantic_entries_with_digest[OF dig] d_def)
  have "py_get doc' ''continuation_id'' = PStr d \<and> py_get doc' ''packet_digest'' = PStr d"
    by (simp add: doc'_def py_get_with_digest is_digest_field_def)
  then show ?thesis
    using normalize_again[OF c[folded same] cd assms(2), of True] pd
    unfolding packet_from_mapping_def doc'_def d_def by simp
qed

section \<open>Properties\<close>

text \<open>C38: A packet object survives the round trip through its dictionary: whatever document
  \<open>ContinuationPacket\<close> accepts, it holds the normalized document, and accepting that document again
  gives the same packet, with the same content address, which is the digest of its own semantic entries
  and both its \<open>continuation_id\<close> and its \<open>packet_digest\<close>. The hypothesis on \<open>fromisoformat\<close> is that it
  reads back the canonical text of every instant it has read.\<close>

theorem packet_roundtrip:
  assumes "reads_iso rd" and "packet_from_mapping rt rd v = Inr doc"
  shows "packet_from_mapping rt rd (PDict doc) = Inr doc
    \<and> compute_packet_digest rt rd (PDict doc) = Inr (pk_str doc ''packet_digest'')
    \<and> pk_str doc ''packet_digest'' = packet_digest_of rt doc
    \<and> pk_str doc ''continuation_id'' = packet_digest_of rt doc"
proof -
  obtain raw where 1: "check_fields (checks_for rt rd raw) raw = Inr doc" "check_document rt rd doc = Inr ()"
      "py_get doc ''continuation_id'' = PStr (packet_digest_of rt doc)
       \<and> py_get doc ''packet_digest'' = PStr (packet_digest_of rt doc)"
    using normalize_documentE[OF assms(2)[unfolded packet_from_mapping_def]] by metis
  note again = normalize_again[OF 1(1,2) assms(1)]
  show ?thesis using 1(3) again[of True] again[of False]
    by (simp add: packet_from_mapping_def compute_packet_digest_def pk_str_def)
qed

text \<open>A reader, a raw document and the packet it gives, for the examples.\<close>

definition sample_reader :: iso_reader where
  "sample_reader s = (if s = ''1970-01-01T00:00:00.000000+00:00'' then Instant 0
     else if s = ''1970-01-01T00:01:00.000000+00:00'' then Instant 60000000 else Not_Iso)"

definition sample_raw :: "string \<Rightarrow> pydict" where
  "sample_raw digest = [(''schema'', PStr CONTINUATION_PACKET_SCHEMA), (''packet_version'', PStr CONTINUATION_PACKET_VERSION),
     (''project_id'', PStr ''p''), (''plan_identity'', PStr ''plan:v1''), (''plan_version'', PInt 1),
     (''plan_digest'', PStr ZERO_DIGEST), (''scope'', PStr ''PROJECT''), (''run_id'', PStr ''r''), (''scope_epoch'', PInt 1),
     (''current_milestone_id'', PStr ''M1''), (''current_task_id'', PStr ''T1''), (''execution_binding_id'', PStr ''b1''),
     (''expected_repo_head_before'', PStr ''abc''), (''state_revision'', PInt 1), (''state_digest'', PStr ZERO_DIGEST),
     (''allowed_next_action'', PStr ''LAUNCH_TASK''), (''budget_summary'', PDict []), (''evidence_refs'', PList []),
     (''issued_at'', PStr ''1970-01-01T00:00:00.000000Z''), (''expires_at'', PStr ''1970-01-01T00:01:00.000000Z''),
     (''expiry_policy'', PStr EXPIRY_POLICY_REJECT_AT_OR_AFTER), (''continuation_generation'', PInt 1),
     (''continuation_id'', PStr digest), (''packet_digest'', PStr digest)]"

definition sample_packet :: pydict where
  "sample_packet = with_digest (sample_raw ZERO_DIGEST) (packet_digest_of sample_runtime (sample_raw ZERO_DIGEST))"

lemma sample_times:
  "canonical_time 0 = ''1970-01-01T00:00:00.000000Z''" "canonical_time 60000000 = ''1970-01-01T00:01:00.000000Z''"
  "zone_text ''1970-01-01T00:00:00.000000Z'' = ''1970-01-01T00:00:00.000000+00:00''"
  "zone_text ''1970-01-01T00:01:00.000000Z'' = ''1970-01-01T00:01:00.000000+00:00''"
  by code_simp+

lemma sample_texts:
  "bounded_text ''schema'' 96 False True (PStr CONTINUATION_PACKET_SCHEMA) = Inr (PStr CONTINUATION_PACKET_SCHEMA)"
  "bounded_text ''packet_version'' 16 False True (PStr CONTINUATION_PACKET_VERSION) = Inr (PStr CONTINUATION_PACKET_VERSION)"
  "bounded_text ''project_id'' 256 False True (PStr ''p'') = Inr (PStr ''p'')"
  "bounded_text ''plan_identity'' 256 False True (PStr ''plan:v1'') = Inr (PStr ''plan:v1'')"
  "bounded_text ''run_id'' 256 False True (PStr ''r'') = Inr (PStr ''r'')"
  "bounded_text ''current_milestone_id'' 256 False True (PStr ''M1'') = Inr (PStr ''M1'')"
  "bounded_text ''current_task_id'' 256 False True (PStr ''T1'') = Inr (PStr ''T1'')"
  "bounded_text ''execution_binding_id'' 256 False True (PStr ''b1'') = Inr (PStr ''b1'')"
  "bounded_text ''expected_repo_head_before'' 128 False True (PStr ''abc'') = Inr (PStr ''abc'')"
  "bounded_text ''expiry_policy'' 64 False True (PStr EXPIRY_POLICY_REJECT_AT_OR_AFTER) = Inr (PStr EXPIRY_POLICY_REJECT_AT_OR_AFTER)"
  "digest_text ZERO_DIGEST"
  by code_simp+

lemma sample_checks: "check_fields (required_checks sample_runtime sample_reader) (sample_raw ZERO_DIGEST) = Inr (sample_raw ZERO_DIGEST)"
  by (simp add: required_checks_def sample_raw_def py_get_def sample_texts check_digest_def check_scope_def check_action_def
      SCOPE_VALUES_def ACTION_VALUES_def bounded_int_def metadata_def MAX_METADATA_NODES_def normalize_evidence_refs_def
      MAX_EVIDENCE_REFS_def MAX_BUDGET_SUMMARY_BYTES_def canonical_json_bytes_def utf8_length_def compact_json_def
      canonical_timestamp_def utc_datetime_def sample_reader_def sample_times code_def)

lemma sample_raw_keys: "map fst (sample_raw digest) = REQUIRED_FIELDS"
  by (simp add: sample_raw_def REQUIRED_FIELDS_def)

lemma sample_raw_normalized:
  "normalize_document sample_runtime sample_reader False (PDict (sample_raw ZERO_DIGEST)) = Inr (sample_raw ZERO_DIGEST)"
proof -
  have has: "py_has (sample_raw ZERO_DIGEST) k \<longleftrightarrow> k \<in> set REQUIRED_FIELDS" for k
    by (simp add: py_has_def map_of_eq_None_iff flip: sample_raw_keys[of ZERO_DIGEST])
  have "filter (\<lambda>(k, f). py_has (sample_raw ZERO_DIGEST) k) optional_checks = []"
    by (simp add: has optional_checks_def REQUIRED_FIELDS_def)
  moreover have "check_document sample_runtime sample_reader (sample_raw ZERO_DIGEST) = Inr ()"
    by (simp add: check_document_def sample_raw_def py_get_def utc_datetime_def sample_times sample_reader_def is_mapping_def
        MAX_BUDGET_SUMMARY_BYTES_def canonical_json_bytes_def utf8_length_def compact_json_def code_def)
  moreover have "find (\<lambda>k. \<not> py_has (sample_raw ZERO_DIGEST) k) (sort REQUIRED_FIELDS) = None"
    by (auto simp: find_None_iff has)
  moreover have "filter (\<lambda>k. k \<notin> set (REQUIRED_FIELDS @ OPTIONAL_FIELDS)) (map fst (sample_raw ZERO_DIGEST)) = []"
    by (auto simp: sample_raw_keys filter_empty_conv)
  ultimately show ?thesis using sample_checks by (simp add: normalize_document_def del: set_append)
qed

lemma sample_reader_reads: "reads_iso sample_reader"
  by (simp add: reads_iso_def sample_reader_def sample_times)

lemmas sample_packet_accepted = with_digest_accepted[OF sample_raw_normalized sample_reader_reads, folded sample_packet_def]

text \<open>C38 applied to the example packet.\<close>

theorem packet_roundtrip_witness:
  "packet_from_mapping sample_runtime sample_reader (PDict sample_packet) = Inr sample_packet
   \<and> pk_str sample_packet ''continuation_id'' = packet_digest_of sample_runtime sample_packet"
  using packet_roundtrip[OF sample_reader_reads sample_packet_accepted] by blast

text \<open>\<open>build_packet\<close> returns a packet as soon as its arguments pass the field checks: filling in
  the digest never invalidates the document, so the only failure left is the size limit, and the packet it
  returns is one that \<open>ContinuationPacket\<close> accepts unchanged and that is within the limit.\<close>

lemma build_packet_total:
  assumes "reads_iso rd" and "arg_head a = Some head" and "arg_revision a = Some rv" and "arg_state_digest a = Some dig"
    and "arg_action a = Some act" and "arg_expires a = Some expires" and "arg_issued a = Some issued"
    and "arg_expected_head a = None" and "arg_canonical_revision a = None" and "arg_canonical_digest a = None"
    and "arg_allowed_action a = None" and "arg_budget a = Some (PDict b)" and "arg_evidence a = PList ev"
    and "normalize_document rt rd False (PDict (base_document a head rv dig act (PDict b) (PList ev) issued expires)) = Inr doc"
  shows "if utf8_length (canonical_json_bytes rt (PDict (with_digest doc (packet_digest_of rt doc)))) \<le> max_bytes
    then \<exists>p. build_packet rt rd a now max_bytes = Inr p \<and> packet_from_mapping rt rd (PDict p) = Inr p
       \<and> pk_str p ''packet_digest'' = packet_digest_of rt p
    else build_packet rt rd a now max_bytes
       = fail ''PACKET_TOO_LARGE'' ''serialized continuation packet exceeds its byte-size limit'' None"
proof -
  let ?p = "with_digest doc (packet_digest_of rt doc)"
  note acc = with_digest_accepted[OF assms(14,1)]
  have step: "build_packet rt rd a now max_bytes = ebind (enforce_size rt ?p max_bytes) (\<lambda>_. Inr ?p)"
    using assms(2-14) acc
    by (simp add: build_packet_def coalesce_alias_def copy_mapping_def copy_sequence_def is_mapping_def)
  have "pk_str ?p ''packet_digest'' = packet_digest_of rt ?p"
    using acc unfolding packet_from_mapping_def
    by (auto elim!: normalize_documentE simp: pk_str_def)
  then show ?thesis using acc step by (auto simp: enforce_size_def Let_def fail_def not_le)
qed

definition sample_args :: packet_args where
  "sample_args = \<lparr>arg_project = PStr ''p'', arg_plan_identity = PStr ''plan:v1'', arg_plan_version = PInt 1,
     arg_plan_digest = PStr ZERO_DIGEST, arg_scope = PStr ''PROJECT'', arg_run_id = PStr ''r'', arg_epoch = PInt 1,
     arg_milestone = PStr ''M1'', arg_current_task = PStr ''T1'', arg_binding = PStr ''b1'', arg_head = Some (PStr ''abc''),
     arg_revision = Some (PInt 1), arg_state_digest = Some (PStr ZERO_DIGEST), arg_action = Some (PStr ''LAUNCH_TASK''),
     arg_budget = Some (PDict []), arg_evidence = PList [], arg_issued = Some (PStr ''1970-01-01T00:00:00.000000Z''),
     arg_expires = Some (PStr ''1970-01-01T00:01:00.000000Z''), arg_expiry_policy = PStr EXPIRY_POLICY_REJECT_AT_OR_AFTER,
     arg_generation = PInt 1, arg_attempt = None, arg_tree = None, arg_policy = None, arg_expected_head = None,
     arg_canonical_revision = None, arg_canonical_digest = None, arg_allowed_action = None\<rparr>"

subsection \<open>Validation\<close>

lemma validate_packetD:
  assumes "val_valid (validate_packet rt rd p a now mb)"
  obtains doc live e where "read_packet rt rd p mb = Inr doc" "read_authority rt a = Inr live"
    "utc_datetime rd ''expires_at'' (py_get doc ''expires_at'') = Inr e" "now < e"
    "authority_refusal live = None" "identity_refusal doc live = None"
  using assms
  by (auto simp: validate_packet_def invalid_def Let_def split: sum.splits if_splits option.splits prod.splits)

lemma identity_refusal_None:
  "identity_refusal doc live = None \<Longrightarrow> (k, c) \<in> set comparisons \<Longrightarrow> py_eq (py_get doc k) (py_get live k)"
  by (auto simp: identity_refusal_def find_None_iff split: option.splits prod.splits if_splits)

lemma bounded_int_Inr: "bounded_int field n v = Inr w \<Longrightarrow> \<exists>m. w = PInt m \<and> n \<le> m"
  by (auto simp: bounded_int_def split: pyval.splits if_splits)

lemma authority_int_checks:
  "\<forall>(k, f)\<in>set (authority_checks rt). k \<in> {''plan_version'', ''scope_epoch'', ''state_revision''} \<longrightarrow>
     (\<forall>v w. f v = Inr w \<longrightarrow> (\<exists>n. w = PInt n))"
  using bounded_int_Inr by (simp add: authority_checks_def) blast

lemma authority_keys: "distinct (map fst (authority_checks rt))
    \<and> {''plan_version'', ''scope_epoch'', ''state_revision''} \<subseteq> set (map fst (authority_checks rt))"
  by (simp add: authority_checks_def)

lemma snapshot_int:
  assumes "authority_snapshot rt args = Inr live" and k: "k \<in> {''plan_version'', ''scope_epoch'', ''state_revision''}"
  shows "\<exists>n. py_get live k = PInt n"
proof -
  have "k \<in> set (map fst (authority_checks rt))" using k authority_keys by (rule rev_subsetD[OF _ conjunct2])
  then obtain f where f: "(k, f) \<in> set (authority_checks rt)" by (auto simp del: insert_iff)
  have "f (py_get args k) = Inr (py_get live k)"
    using check_fields_value[OF assms(1)[unfolded authority_snapshot_def] f] authority_keys by blast
  then show ?thesis using bspec[OF authority_int_checks f] k by (simp del: insert_iff)
qed

lemma text_check_Inr:
  "bounded_text field n False b v = Inr w \<Longrightarrow> \<exists>s. w = PStr s"
  "check_digest field v = Inr w \<Longrightarrow> \<exists>s. w = PStr s"
  "check_scope field v = Inr w \<Longrightarrow> \<exists>s. w = PStr s"
  "check_action field v = Inr w \<Longrightarrow> \<exists>s. w = PStr s"
  by (auto simp: bounded_text_def check_digest_def check_scope_def check_action_def split: pyval.splits if_splits)

lemma required_text_checks:
  "\<forall>(k, f)\<in>set (required_checks rt rd).
     k \<in> set [''plan_version'', ''scope_epoch'', ''state_revision'', ''budget_summary'', ''evidence_refs'', ''issued_at'',
       ''expires_at'', ''continuation_generation''] \<or> (\<forall>v w. f v = Inr w \<longrightarrow> (\<exists>s. w = PStr s))"
  by (simp add: required_checks_def text_check_Inr)

text \<open>The compared fields that are texts in every packet.\<close>

definition text_identity :: "string list" where
  "text_identity = [''project_id'', ''plan_identity'', ''plan_digest'', ''scope'', ''run_id'', ''current_milestone_id'',
     ''current_task_id'', ''execution_binding_id'', ''expected_repo_head_before'', ''state_digest'', ''allowed_next_action'']"

lemma text_identity_required:
  "list_all (\<lambda>k. k \<in> set REQUIRED_FIELDS \<and> k \<notin> set [''plan_version'', ''scope_epoch'', ''state_revision'',
     ''budget_summary'', ''evidence_refs'', ''issued_at'', ''expires_at'', ''continuation_generation'']) text_identity"
  by code_simp

lemma packet_text:
  assumes "packet_from_mapping rt rd v = Inr doc" and "k \<in> set text_identity"
  shows "\<exists>s. py_get doc k = PStr s"
proof -
  obtain raw where raw: "check_fields (checks_for rt rd raw) raw = Inr doc"
    using normalize_documentE[OF assms(1)[unfolded packet_from_mapping_def]] by metis
  have k: "k \<in> set REQUIRED_FIELDS" "k \<notin> set [''plan_version'', ''scope_epoch'', ''state_revision'',
     ''budget_summary'', ''evidence_refs'', ''issued_at'', ''expires_at'', ''continuation_generation'']"
    using text_identity_required assms(2) unfolding list_all_iff by blast+
  then obtain f where f: "(k, f) \<in> set (required_checks rt rd)"
    by (auto simp del: list.set simp flip: required_keys[of rt rd])
  then have "f (py_get raw k) = Inr (py_get doc k)"
    by (intro check_fields_value[OF raw _ checks_for_distinct]) (simp add: checks_for_def)
  then show ?thesis using bspec[OF required_text_checks f] k(2) by (simp del: list.set)
qed

lemma comparison_kinds:
  "(k, c) \<in> set comparisons \<Longrightarrow> k \<in> {''plan_version'', ''scope_epoch'', ''state_revision''} \<or> k \<in> set text_identity"
proof -
  have "list_all (\<lambda>(k, c). k \<in> set [''plan_version'', ''scope_epoch'', ''state_revision''] \<or> k \<in> set text_identity) comparisons"
    by code_simp
  then show "(k, c) \<in> set comparisons \<Longrightarrow> ?thesis" by (auto simp: list_all_iff simp del: insert_iff)
qed

lemma py_eq_same:
  assumes "py_eq x y" and "py_eq x z" and "(\<exists>s. x = PStr s) \<or> (\<exists>n m. y = PInt n \<and> z = PInt m)"
  shows "y = z"
  using assms by (cases x) (auto split: pyval.splits)

lemma authority_refusal_None:
  "authority_refusal live = None \<Longrightarrow>
     py_get live ''stop_requested'' \<noteq> PBool True \<and> py_get live ''plan_approved'' \<noteq> PBool False"
  unfolding authority_refusal_def Let_def by (simp only: split: if_splits) simp_all

text \<open>A packet is bound to one canonical state: two live authority snapshots against which the
  same packet is valid agree on the project, the plan identity, version and digest, the scope, the run and
  its epoch, the milestone, the task, the execution binding, the repository head, the state revision and
  digest and the allowed action. So once any of them has moved, a packet that was valid is refused. Both
  snapshots have an approved plan and no STOP request, and both validations happen before the packet's
  expiry.\<close>

lemma valid_packet_is_current:
  assumes "packet_from_mapping rt rd v = Inr doc"
    and "authority_snapshot rt a = Inr live" and "authority_snapshot rt a' = Inr live'"
    and "val_valid (validate_packet rt rd (Typed_Packet doc) (Snapshot live) now mb)"
    and "val_valid (validate_packet rt rd (Typed_Packet doc) (Snapshot live') now' mb')"
  shows "list_all (\<lambda>(k, c). py_get live k = py_get live' k) comparisons
    \<and> py_get live ''stop_requested'' \<noteq> PBool True \<and> py_get live' ''stop_requested'' \<noteq> PBool True
    \<and> py_get live ''plan_approved'' \<noteq> PBool False \<and> py_get live' ''plan_approved'' \<noteq> PBool False
    \<and> (\<exists>e. utc_datetime rd ''expires_at'' (py_get doc ''expires_at'') = Inr e \<and> max now now' < e)"
proof -
  obtain e where 1: "utc_datetime rd ''expires_at'' (py_get doc ''expires_at'') = Inr e" "now < e"
      "authority_refusal live = None" "identity_refusal doc live = None"
    using assms(4) by (rule validate_packetD) (auto simp: read_packet_def read_authority_def ebind_Inr_iff)
  obtain e' where 2: "utc_datetime rd ''expires_at'' (py_get doc ''expires_at'') = Inr e'" "now' < e'"
      "authority_refusal live' = None" "identity_refusal doc live' = None"
    using assms(5) by (rule validate_packetD) (auto simp: read_packet_def read_authority_def ebind_Inr_iff)
  have "py_get live k = py_get live' k" if k: "(k, c) \<in> set comparisons" for k c
    using identity_refusal_None[OF 1(4) k] identity_refusal_None[OF 2(4) k]
  proof (rule py_eq_same)
    show "(\<exists>s. py_get doc k = PStr s) \<or> (\<exists>n m. py_get live k = PInt n \<and> py_get live' k = PInt m)"
      using comparison_kinds[OF k]
    proof
      assume n: "k \<in> {''plan_version'', ''scope_epoch'', ''state_revision''}"
      show ?thesis using snapshot_int[OF assms(2) n] snapshot_int[OF assms(3) n] by simp
    next
      assume "k \<in> set text_identity"
      then show ?thesis using packet_text[OF assms(1)] by simp
    qed
  qed
  then have "list_all (\<lambda>(k, c). py_get live k = py_get live' k) comparisons" unfolding list_all_iff by blast
  moreover note authority_refusal_None[OF 1(3)] authority_refusal_None[OF 2(3)]
  moreover have "max now now' < e" using 1(1,2) 2(1,2) by simp
  ultimately show ?thesis using 1(1) by blast
qed

definition sample_authority :: pydict where
  "sample_authority = [(''project_id'', PStr ''p''), (''plan_identity'', PStr ''plan:v1''), (''plan_version'', PInt 1),
     (''plan_digest'', PStr ZERO_DIGEST), (''scope'', PStr ''PROJECT''), (''run_id'', PStr ''r''), (''scope_epoch'', PInt 1),
     (''current_milestone_id'', PStr ''M1''), (''current_task_id'', PStr ''T1''), (''execution_binding_id'', PStr ''b1''),
     (''expected_repo_head_before'', PStr ''abc''), (''state_revision'', PInt 1), (''state_digest'', PStr ZERO_DIGEST),
     (''allowed_next_action'', PStr ''LAUNCH_TASK''), (''budget_summary'', PDict []), (''evidence_refs'', PList []),
     (''status'', PStr ''ACTIVE''), (''task_status'', PStr ''IN_PROGRESS''), (''stop_requested'', PBool False),
     (''plan_approved'', PBool True), (''attempt_id'', PNone), (''expected_tree'', PNone),
     (''conversation_binding_policy'', PStr ''EXISTING_CHAT_ONLY'')]"

lemma sample_authority_texts:
  "bounded_text ''authority.project_id'' 256 False True (PStr ''p'') = Inr (PStr ''p'')"
  "bounded_text ''authority.plan_identity'' 256 False True (PStr ''plan:v1'') = Inr (PStr ''plan:v1'')"
  "bounded_text ''authority.run_id'' 256 False True (PStr ''r'') = Inr (PStr ''r'')"
  "bounded_text ''authority.current_milestone_id'' 256 True True (PStr ''M1'') = Inr (PStr ''M1'')"
  "bounded_text ''authority.current_task_id'' 256 True True (PStr ''T1'') = Inr (PStr ''T1'')"
  "bounded_text ''authority.execution_binding_id'' 256 True True (PStr ''b1'') = Inr (PStr ''b1'')"
  "bounded_text ''authority.expected_repo_head_before'' 128 False True (PStr ''abc'') = Inr (PStr ''abc'')"
  "bounded_text ''authority.status'' 64 False True (PStr ''ACTIVE'') = Inr (PStr ''ACTIVE'')"
  "bounded_text ''authority.task_status'' 64 False True (PStr ''IN_PROGRESS'') = Inr (PStr ''IN_PROGRESS'')"
  "bounded_text ''authority.attempt_id'' 128 True True PNone = Inr PNone"
  "bounded_text ''authority.expected_tree'' 128 True True PNone = Inr PNone"
  "bounded_text ''authority.conversation_binding_policy'' 96 False True (PStr ''EXISTING_CHAT_ONLY'') = Inr (PStr ''EXISTING_CHAT_ONLY'')"
  by code_simp+

lemma sample_authority_live: "authority_snapshot sample_runtime sample_authority = Inr sample_authority"
  by (simp add: authority_snapshot_def sample_authority_def authority_checks_def sample_raw_def py_get_def sample_authority_texts sample_texts
      check_digest_def check_scope_def check_action_def SCOPE_VALUES_def ACTION_VALUES_def bounded_int_def is_mapping_def
      metadata_def MAX_METADATA_NODES_def normalize_evidence_refs_def MAX_EVIDENCE_REFS_def MAX_BUDGET_SUMMARY_BYTES_def
      canonical_json_bytes_def utf8_length_def compact_json_def code_def)

lemma sample_packet_valid:
  assumes "now < 60000000" and "utf8_length (canonical_json_bytes sample_runtime (PDict sample_packet)) \<le> mb"
  shows "val_valid (validate_packet sample_runtime sample_reader (Typed_Packet sample_packet) (Snapshot sample_authority) now mb)"
proof -
  have "upper ''ACTIVE'' = ''ACTIVE''" "upper ''IN_PROGRESS'' = ''IN_PROGRESS''" by code_simp+
  then have live_ok: "authority_refusal sample_authority = None"
    by (simp add: authority_refusal_def sample_authority_def authority_checks_def sample_raw_def py_get_def pk_str_def
        NON_CONTINUABLE_STATUSES_def TERMINAL_TASK_STATUSES_def)
  have get: "py_get sample_packet k = py_get (sample_raw ZERO_DIGEST) k" if "\<not> is_digest_field k" for k
    using that by (simp add: sample_packet_def py_get_with_digest)
  have "list_all (\<lambda>(k, c). \<not> is_digest_field k \<and> py_eq (py_get (sample_raw ZERO_DIGEST) k) (py_get sample_authority k)) comparisons"
    by code_simp
  then have "find (\<lambda>(k, c). \<not> py_eq (py_get sample_packet k) (py_get sample_authority k)) comparisons = None"
    by (auto simp: find_None_iff list_all_iff get)
  moreover have "list_all (\<lambda>k. py_eq (py_get (sample_raw ZERO_DIGEST) k) (py_get sample_authority k))
      [''budget_summary'', ''evidence_refs'', ''attempt_id'', ''expected_tree'']"
    by code_simp
  moreover have "py_get_default sample_packet ''conversation_binding_policy'' (PStr ''EXISTING_CHAT_ONLY'') = PStr ''EXISTING_CHAT_ONLY''"
    by (simp add: py_get_default_def sample_packet_def with_digest_def dict_put_def sample_raw_def)
  moreover have "py_get sample_authority ''conversation_binding_policy'' = PStr ''EXISTING_CHAT_ONLY''" by code_simp
  ultimately have "identity_refusal sample_packet sample_authority = None"
    by (simp add: identity_refusal_def get is_digest_field_def)
  moreover have "utc_datetime sample_reader ''expires_at'' (py_get sample_packet ''expires_at'') = Inr 60000000"
    by (simp add: get is_digest_field_def) (simp add: sample_raw_def py_get_def utc_datetime_def sample_times sample_reader_def)
  ultimately show ?thesis using assms live_ok
    by (simp add: validate_packet_def read_packet_def read_authority_def enforce_size_def)
qed

text \<open>A bound on the length of a dictionary's text, for the size limit.\<close>

lemma length_json_str: "length (json_str b s) \<le> 6 * length s + 2"
proof -
  have "length (concat (map (json_char b) s)) \<le> 6 * length s"
    by (induction s) (auto simp: json_char_def Let_def hex2_def)
  then show ?thesis by (simp add: json_str_def)
qed

lemma length_join: "length (join sep ts) \<le> sum_list (map (\<lambda>t. length t + length sep) ts)"
  by (induction sep ts rule: join.induct) auto

lemma length_json_dict:
  "length (json_dumps rt compact_json (PDict d))
     \<le> 2 + sum_list (map (\<lambda>(k, v). 6 * length k + 4 + length (json_dumps rt compact_json v)) d)"
proof -
  let ?es = "map (\<lambda>(k, v). (k, json_dumps rt compact_json v)) d"
  let ?txt = "\<lambda>(k, t). json_str False k @ '':'' @ t"
  have "length (json_dumps rt compact_json (PDict d)) = 2 + length (join '','' (map ?txt (sort_key fst ?es)))"
    by (simp add: compact_json_def Let_def)
  also have "\<dots> \<le> 2 + sum_list (map (\<lambda>t. length t + 1) (map ?txt (sort_key fst ?es)))"
    using length_join[of "'',''" "map ?txt (sort_key fst ?es)"] by simp
  also have "sum_list (map (\<lambda>t. length t + 1) (map ?txt (sort_key fst ?es)))
      = sum_mset (image_mset (\<lambda>x. length (?txt x) + 1) (mset ?es))"
    by (simp only: map_map comp_def sum_mset_sum_list[symmetric] mset_map mset_sort)
  also have "\<dots> = sum_list (map (\<lambda>(k, v). length (?txt (k, json_dumps rt compact_json v)) + 1) d)"
    by (simp only: sum_mset_sum_list[symmetric] mset_map multiset.map_comp comp_def case_prod_unfold fst_conv snd_conv)
  also have "\<dots> \<le> sum_list (map (\<lambda>(k, v). 6 * length k + 4 + length (json_dumps rt compact_json v)) d)"
    using length_json_str[of False] by (intro sum_list_mono) (auto simp: case_prod_unfold)
  finally show ?thesis by simp
qed

lemma utf8_length_bound: "utf8_length s \<le> 2 * length s"
  by (induction s) (auto simp: utf8_length_def)

lemma sample_packet_size: "utf8_length (canonical_json_bytes sample_runtime (PDict sample_packet)) \<le> DEFAULT_PACKET_MAX_BYTES"
proof -
  define d where "d = packet_digest_of sample_runtime (sample_raw ZERO_DIGEST)"
  have dig: "length d = 71" "length ZERO_DIGEST = 71"
    using digest_text_sha sample_texts(11) by (simp_all add: d_def packet_digest_of_def digest_text_def)
  have p: "sample_packet = sample_raw d"
    by (simp add: sample_packet_def d_def[symmetric]) (simp add: with_digest_def dict_put_def sample_raw_def)
  have t: "length (json_dumps sample_runtime compact_json (PStr s)) \<le> 6 * length s + 2" for s
    using length_json_str by simp
  have n: "length (json_dumps sample_runtime compact_json (PInt 1)) = 1"
     "length (json_dumps sample_runtime compact_json (PDict [])) = 2"
     "length (json_dumps sample_runtime compact_json (PList [])) = 2"
    by (simp_all add: compact_json_def int_str_def) (subst nat_str.simps, simp)
  have "sum_list (map (\<lambda>(k, v). 6 * length k + 4 + length (json_dumps sample_runtime compact_json v)) (sample_raw d))
    \<le> sum_list (map (\<lambda>(k, v). 6 * length k + 4 + (case v of PStr s \<Rightarrow> 6 * length s + 2 | _ \<Rightarrow> 2)) (sample_raw d))"
  proof (rule sum_list_mono)
    fix x assume x: "x \<in> set (sample_raw d)"
    have "list_all (\<lambda>(k, v). (\<exists>s. v = PStr s) \<or> v = PInt 1 \<or> v = PDict [] \<or> v = PList []) (sample_raw d)"
      by (simp add: sample_raw_def)
    then have "(\<exists>s. snd x = PStr s) \<or> snd x = PInt 1 \<or> snd x = PDict [] \<or> snd x = PList []"
      using x unfolding list_all_iff by fastforce
    then show "(case x of (k, v) \<Rightarrow> 6 * length k + 4 + length (json_dumps sample_runtime compact_json v))
      \<le> (case x of (k, v) \<Rightarrow> 6 * length k + 4 + (case v of PStr s \<Rightarrow> 6 * length s + 2 | _ \<Rightarrow> 2))"
      using t n by (cases x) (auto simp del: json_dumps.simps)
  qed
  also have "\<dots> \<le> 8000" unfolding sample_raw_def
    by (simp add: dig CONTINUATION_PACKET_SCHEMA_def CONTINUATION_PACKET_VERSION_def EXPIRY_POLICY_REJECT_AT_OR_AFTER_def)
  finally show ?thesis
    using length_json_dict[of sample_runtime "sample_raw d"] utf8_length_bound[of "canonical_json_bytes sample_runtime (PDict sample_packet)"]
    unfolding p by (simp add: canonical_json_bytes_def DEFAULT_PACKET_MAX_BYTES_def del: json_dumps.simps)
qed
end
