(* ===== verification/Project_Store.thy ===== *)
theory Project_Store
  imports Continuation_Packet
begin

text \<open>
  The part of the Project Memory v2 database that continuation leases and send intents share
  (\<^verbatim>\<open>src/bdb_vnext/project_memory_v2_contract.py\<close>): the tables, one short writer transaction
  (\<open>BEGIN IMMEDIATE\<close> ... commit or rollback), the project revision and the audit log. Timestamp
  columns hold instants in microseconds: the texts the code writes (\<open>canonical_time\<close>) are read back by
  \<open>fromisoformat\<close> as the same instant. Of the table \<open>leases\<close> only the rows with resource
  type \<open>CONTINUATION\<close> are kept; no operation here reads or writes another.
\<close>

section \<open>Tables\<close>

text \<open>A lease as the diagnostic projection, the record and the row show it.\<close>

record lease_snapshot =
  ls_id :: string
  ls_project :: string
  ls_continuation :: string
  ls_digest :: string
  ls_run :: string
  ls_epoch :: int
  ls_task :: string
  ls_binding :: string
  ls_owner :: "string option"
  ls_generation :: int
  ls_acquired :: int
  ls_expires :: int
  ls_revision :: int
  ls_status :: string
  ls_reason :: "string option"
  ls_completed :: "int option"
  ls_abandoned :: "int option"

record lease_record = lease_snapshot +
  ls_token_hash :: "string option"
  ls_kind :: string

record lease_row = lease_record +
  ls_resource :: string
  ls_holder :: string
  ls_fence :: int

record project_row =
  pr_id :: string
  pr_revision :: int
  pr_updated_at :: int

record pm_store =
  pm_scope :: scope_store
  pm_projects :: "project_row list"
  pm_leases :: "lease_row list"
  pm_bindings :: "string list"

section \<open>Transactions\<close>

text \<open>A transaction body raises an error of its coordinator, violates a constraint of the
  database, or ends with a store to commit and a result.\<close>

datatype tx_fail = Tx_Raise string string | Tx_Integrity

type_synonym 'r tx = "tx_fail + pm_store \<times> 'r"

text \<open>What a call finds around it: the clock, a later reading of it, whether the database
  refuses the transaction (\<open>OperationalError\<close>), the text of a database error, a fresh token.\<close>

record call_env =
  env_now :: int
  env_later :: int
  env_busy :: bool
  env_text :: string
  env_token :: string

definition transaction ::
    "call_env \<Rightarrow> (string \<Rightarrow> 'r) \<Rightarrow> pm_store \<Rightarrow> 'r tx \<Rightarrow> pm_store \<times> (string \<times> string + 'r)" where
  "transaction env failed db body =
     (if env_busy env then (db, Inr (failed (env_text env)))
      else case body of
        Inr (db', r) \<Rightarrow> (db', Inr r)
      | Inl (Tx_Raise c msg) \<Rightarrow> (db, Inl (c, msg))
      | Inl Tx_Integrity \<Rightarrow> (db, Inr (failed (env_text env))))"

definition find_project :: "pm_store \<Rightarrow> string \<Rightarrow> project_row option" where
  "find_project db p = find (\<lambda>r. pr_id r = p) (pm_projects db)"

text \<open>The revision of the project, advanced by a compare-and-set.\<close>

definition bump_project_revision :: "string \<Rightarrow> pm_store \<Rightarrow> string \<Rightarrow> int \<Rightarrow> tx_fail + pm_store" where
  "bump_project_revision lost db p now =
     (case find_project db p of
        None \<Rightarrow> Inl (Tx_Raise ''PROJECT_NOT_FOUND'' (''project '' @ [char_of (39::nat)] @ p @ [char_of (39::nat)] @ '' does not exist''))
      | Some r \<Rightarrow>
          (let hit = (\<lambda>q. pr_id q = p \<and> pr_revision q = pr_revision r) in
           if length (filter hit (pm_projects db)) \<noteq> 1 then Inl (Tx_Raise ''PROJECT_REVISION_CAS_LOST'' lost)
           else Inr (db\<lparr>pm_projects := map (\<lambda>q. if hit q then q\<lparr>pr_revision := pr_revision r + 1, pr_updated_at := now\<rparr>
             else q) (pm_projects db)\<rparr>)))"

text \<open>\<open>SELECT COALESCE(MAX(revision), 0) + 1 FROM audit_events WHERE project_id = ?\<close>.\<close>

definition next_event_revision :: "audit_event list \<Rightarrow> string \<Rightarrow> int" where
  "next_event_revision evs p =
     (case map event_revision (filter (\<lambda>ev. event_project ev = p) evs) of
        [] \<Rightarrow> 1
      | r # rs \<Rightarrow> fold max rs r + 1)"

text \<open>An event with the next revision of its project, if the table exists; a known event
  identifier violates the primary key.\<close>

definition append_audit :: "pm_store \<Rightarrow> (int \<Rightarrow> audit_event) \<Rightarrow> string \<Rightarrow> tx_fail + pm_store" where
  "append_audit db mk p =
     (case audit_events (pm_scope db) of
        None \<Rightarrow> Inr db
      | Some evs \<Rightarrow>
          (case insert_audit (pm_scope db) (mk (next_event_revision evs p)) of
             (sc, None) \<Rightarrow> Inr (db\<lparr>pm_scope := sc\<rparr>)
           | (sc, Some _) \<Rightarrow> Inl Tx_Integrity))"

section \<open>Lookups\<close>

lemma transactionE:
  assumes "transaction env failed db body = (db', res)"
  obtains (committed) r where "\<not> env_busy env" "body = Inr (db', r)" "res = Inr r"
  | (raised) c msg where "db' = db" "res = Inl (c, msg)"
  | (failed) "db' = db" "res = Inr (failed (env_text env))"
  using assms by (auto simp: transaction_def split: if_splits sum.splits tx_fail.splits prod.splits)

lemma bump_project_others:
  assumes "bump_project_revision lost db p now = Inr db'"
  shows "pm_scope db' = pm_scope db" "pm_leases db' = pm_leases db" "pm_bindings db' = pm_bindings db"
  using assms by (auto simp: bump_project_revision_def Let_def split: option.splits if_splits)

lemma append_audit_others:
  assumes "append_audit db mk p = Inr db'"
  shows "pm_projects db' = pm_projects db" "pm_leases db' = pm_leases db" "pm_bindings db' = pm_bindings db"
    "scope_cursors (pm_scope db') = scope_cursors (pm_scope db)"
    "stop_fences (pm_scope db') = stop_fences (pm_scope db)"
    "launch_outbox (pm_scope db') = launch_outbox (pm_scope db)"
    "send_intents (pm_scope db') = send_intents (pm_scope db)"
  using assms by (auto simp: append_audit_def dest: insert_audit_others split: option.splits prod.splits)

lemma next_event_revision_greater:
  assumes "ev \<in> set evs" and "event_project ev = p"
  shows "event_revision ev < next_event_revision evs p"
proof -
  let ?rs = "map event_revision (filter (\<lambda>ev. event_project ev = p) evs)"
  have le: "x \<le> fold max rs r" if "x \<in> set (r # rs)" for x r :: int and rs
    using that by (metis Max.set_eq_fold Max_ge List.finite_set)
  have "event_revision ev \<in> set ?rs" using assms by auto
  then show ?thesis using le unfolding next_event_revision_def by (cases ?rs) fastforce+
qed

end
