(* ===== verification/Continuation_Lease.thy ===== *)
theory Continuation_Lease
  imports Project_Store
begin

text \<open>
  The continuation lease protocol of \<^verbatim>\<open>src/bdb_vnext/continuation_lease.py\<close>: a continuation packet
  is claimed by one owner, who holds an opaque token of which only the digest is stored; an
  expired claim is reclaimed with a new token, and the owner renews, releases, completes or
  abandons it. Each operation is one writer transaction over the tables of \<open>Project_Store\<close>; an operation
  that raises \<open>ContinuationLeaseError\<close> returns \<open>Inl\<close> and leaves the store alone. The table of scope cursors
  belongs to the canonical schema and is taken to exist. An instant past the last one a
  \<open>datetime\<close> can hold is not excluded.
\<close>

section \<open>Coordinator and results\<close>

record coordinator =
  co_project :: string
  co_lease_seconds :: int
  co_enforce :: bool

definition coordinator_init :: "string option \<Rightarrow> pyval \<Rightarrow> bool \<Rightarrow> string \<times> string + coordinator" where
  "coordinator_init project lease_seconds enforce =
     (case lease_seconds of
        PInt n \<Rightarrow>
          if n \<le> 0 then Inl (''INVALID_LEASE_DURATION'', ''lease_seconds must be a positive integer'')
          else if \<not> opt_true project then
            Inl (''PROJECT_ID_REQUIRED'', ''project_id is required for a continuation lease'')
          else Inr \<lparr>co_project = the project, co_lease_seconds = n, co_enforce = enforce\<rparr>
      | _ \<Rightarrow> Inl (''INVALID_LEASE_DURATION'', ''lease_seconds must be a positive integer''))"

record lease_result =
  res_accepted :: bool
  res_code :: string
  res_message :: string
  res_lease :: "lease_record option"
  res_token :: "string option"
  res_mutated :: bool
  res_idempotent :: bool

type_synonym lease_outcome = "pm_store \<times> (string \<times> string + lease_result)"

definition invalid_result :: "string \<Rightarrow> string \<Rightarrow> lease_result" where
  "invalid_result c msg = \<lparr>res_accepted = False, res_code = c, res_message = msg, res_lease = None,
     res_token = None, res_mutated = False, res_idempotent = False\<rparr>"

definition refused :: "string \<Rightarrow> string \<Rightarrow> lease_record \<Rightarrow> lease_result" where
  "refused c msg r = (invalid_result c msg)\<lparr>res_lease := Some r\<rparr>"

definition accepted :: "string \<Rightarrow> string \<Rightarrow> lease_record \<Rightarrow> string option \<Rightarrow> bool \<Rightarrow> bool \<Rightarrow> lease_result" where
  "accepted c msg r tok mutated idem = \<lparr>res_accepted = True, res_code = c, res_message = msg, res_lease = Some r,
     res_token = tok, res_mutated = mutated, res_idempotent = idem\<rparr>"

definition res_claimed :: "lease_result \<Rightarrow> bool" where
  "res_claimed r \<longleftrightarrow> res_accepted r \<and> (case res_lease r of None \<Rightarrow> False | Some l \<Rightarrow> ls_status l = ''CLAIMED'')"

section \<open>Identities\<close>

definition token_digest :: "runtime \<Rightarrow> pyval \<Rightarrow> string" where
  "token_digest rt v = (case v of PStr s \<Rightarrow> if length s < 20 then [] else hexdigest (sha256 rt s) | _ \<Rightarrow> [])"

definition canonical_packet :: "runtime \<Rightarrow> iso_reader \<Rightarrow> packet_input \<Rightarrow> string \<times> string + pydict" where
  "canonical_packet rt rd p =
     (case p of
        Typed_Packet doc \<Rightarrow> Inr doc
      | Raw_Mapping v \<Rightarrow>
          (case packet_from_mapping rt rd v of
             Inl err \<Rightarrow> Inl (err_code err, err_message err)
           | Inr doc \<Rightarrow> Inr doc))"

definition resource_id_for :: "pydict \<Rightarrow> string" where
  "resource_id_for doc = pk_str doc ''continuation_id'' @ ''|'' @ pk_str doc ''packet_digest''
     @ ''|epoch:'' @ int_str (pk_int doc ''scope_epoch'')"

definition lease_id_for :: "runtime \<Rightarrow> string \<Rightarrow> string \<Rightarrow> string" where
  "lease_id_for rt p resource =
     ''continuation-lease-'' @ take 40 (hexdigest (sha256 rt (p @ [char_of (0::nat)] @ resource)))"

section \<open>Rows\<close>

definition record_of :: "lease_row \<Rightarrow> lease_record" where
  "record_of r = lease_record.truncate r"

definition find_lease :: "string \<Rightarrow> pm_store \<Rightarrow> string \<Rightarrow> lease_row option" where
  "find_lease p db resource = find (\<lambda>r. ls_project r = p \<and> ls_resource r = resource) (pm_leases db)"

definition select_for_packet :: "coordinator \<Rightarrow> pm_store \<Rightarrow> pydict \<Rightarrow> lease_record option" where
  "select_for_packet lc db doc = map_option record_of (find_lease (co_project lc) db (resource_id_for doc))"

definition packet_matches_record :: "coordinator \<Rightarrow> pydict \<Rightarrow> lease_record \<Rightarrow> bool" where
  "packet_matches_record lc doc r \<longleftrightarrow>
     ls_project r = co_project lc \<and> ls_kind r = ''CONTINUATION''
     \<and> ls_continuation r = pk_str doc ''continuation_id'' \<and> ls_digest r = pk_str doc ''packet_digest''
     \<and> ls_run r = pk_str doc ''run_id'' \<and> ls_epoch r = pk_int doc ''scope_epoch''
     \<and> ls_task r = pk_str doc ''current_task_id'' \<and> ls_binding r = pk_str doc ''execution_binding_id''"

definition authority_value :: "authority_input \<Rightarrow> string \<Rightarrow> pyval \<Rightarrow> pyval" where
  "authority_value a k v0 =
     (case a of
        Snapshot live \<Rightarrow> py_get_default live k v0
      | Authority_Mapping v \<Rightarrow> (case v of PDict d \<Rightarrow> py_get_default d k v0 | _ \<Rightarrow> v0))"

definition stop_check ::
    "runtime \<Rightarrow> coordinator \<Rightarrow> pm_store \<Rightarrow> authority_input \<Rightarrow> int \<Rightarrow> EffectBoundary \<Rightarrow> bool \<times> string \<times> string" where
  "stop_check rt lc db a epoch b =
     (if truthy (authority_value a ''stop_requested'' (PBool False)) then
        (False, ''STOP_CANONICAL'', ''live authority reports a canonical STOP request'')
      else
        (let status = upper (py_str rt (authority_value a ''status'' (PStr ''ACTIVE''))) in
         if status \<in> {''STOPPED'', ''COMPLETED''} then
           (False, ''STOP_CANONICAL'', ''live authority status '' @ [char_of (39::nat)] @ status @ [char_of (39::nat)]
              @ '' blocks continuation'')
         else if \<not> co_enforce lc then
           (True, ''ALLOWED'', ''STOP-fence enforcement was explicitly disabled by the caller'')
         else
           (let c = check (pm_scope db) (co_project lc) epoch b in (check_allowed c, check_code c, check_message c))))"

text \<open>The packet and its validation, before the transaction.\<close>

definition validate ::
    "runtime \<Rightarrow> iso_reader \<Rightarrow> packet_input \<Rightarrow> authority_input \<Rightarrow> int \<Rightarrow> (string \<times> string) + pydict" where
  "validate rt rd p a now =
     ebind (canonical_packet rt rd p) (\<lambda>doc.
       let v = validate_packet rt rd (Typed_Packet doc) a now DEFAULT_PACKET_MAX_BYTES
       in if val_valid v then Inr doc else Inl (val_code v, val_message v))"

definition ensure_project :: "string \<Rightarrow> pm_store \<Rightarrow> tx_fail + unit" where
  "ensure_project p db =
     (if find_project db p = None then
        Inl (Tx_Raise ''PROJECT_NOT_FOUND''
          (''canonical PM v2 project '' @ [char_of (39::nat)] @ p @ [char_of (39::nat)] @ '' does not exist''))
      else Inr ())"

text \<open>The checks every guarded operation repeats inside its transaction: a refusal is a result
  to commit with an unchanged store, \<open>None\<close> lets the operation go on.\<close>

definition guard_checks ::
    "runtime \<Rightarrow> iso_reader \<Rightarrow> coordinator \<Rightarrow> pm_store \<Rightarrow> pydict \<Rightarrow> authority_input \<Rightarrow> int \<Rightarrow> EffectBoundary
      \<Rightarrow> lease_result option" where
  "guard_checks rt rd lc db doc a now b =
     (let v = validate_packet rt rd (Typed_Packet doc) a now DEFAULT_PACKET_MAX_BYTES in
      if \<not> val_valid v then Some (invalid_result (val_code v) (val_message v))
      else case stop_check rt lc db a (pk_int doc ''scope_epoch'') b of
        (ok, c, msg) \<Rightarrow> if ok then None else Some (invalid_result c msg))"

section \<open>Transitions\<close>

definition new_lease :: "runtime \<Rightarrow> coordinator \<Rightarrow> pydict \<Rightarrow> int \<Rightarrow> lease_row" where
  "new_lease rt lc doc now = \<lparr>ls_id = lease_id_for rt (co_project lc) (resource_id_for doc), ls_project = co_project lc,
     ls_continuation = pk_str doc ''continuation_id'', ls_digest = pk_str doc ''packet_digest'',
     ls_run = pk_str doc ''run_id'', ls_epoch = pk_int doc ''scope_epoch'', ls_task = pk_str doc ''current_task_id'',
     ls_binding = pk_str doc ''execution_binding_id'', ls_owner = None, ls_generation = 0, ls_acquired = now,
     ls_expires = now, ls_revision = 1, ls_status = ''AVAILABLE'', ls_reason = Some ''INITIALIZED'',
     ls_completed = None, ls_abandoned = None, ls_token_hash = None, ls_kind = ''CONTINUATION'',
     ls_resource = resource_id_for doc, ls_holder = [], ls_fence = 1\<rparr>"

text \<open>The row of the packet, inserted when it is missing.\<close>

definition open_lease :: "runtime \<Rightarrow> coordinator \<Rightarrow> pm_store \<Rightarrow> pydict \<Rightarrow> int \<Rightarrow> lease_record tx" where
  "open_lease rt lc db doc now =
     (case select_for_packet lc db doc of
        Some r \<Rightarrow> Inr (db, r)
      | None \<Rightarrow>
          (let row = new_lease rt lc doc now in
           if list_ex (\<lambda>r. ls_id r = ls_id row) (pm_leases db) then Inl Tx_Integrity
           else
             (let db' = db\<lparr>pm_leases := pm_leases db @ [row]\<rparr> in
              case select_for_packet lc db' doc of
                None \<Rightarrow> Inl (Tx_Raise ''LEASE_INSERT_READBACK_FAILED'' ''new continuation lease was not readable'')
              | Some r \<Rightarrow> Inr (db', r))))"

text \<open>\<open>UPDATE leases SET ... WHERE lease_id = ? AND project_id = ? AND state_revision = ?\<close> and a condition
  on the status and the owner, with the number of rows changed.\<close>

definition update_lease ::
    "pm_store \<Rightarrow> string \<Rightarrow> lease_record \<Rightarrow> (lease_row \<Rightarrow> bool) \<Rightarrow> (lease_row \<Rightarrow> lease_row) \<Rightarrow> pm_store \<times> nat" where
  "update_lease db p r cond f =
     (let hit = (\<lambda>q. ls_id q = ls_id r \<and> ls_project q = p \<and> ls_revision q = ls_revision r \<and> cond q)
      in (db\<lparr>pm_leases := map (\<lambda>q. if hit q then f q else q) (pm_leases db)\<rparr>,
          length (filter hit (pm_leases db))))"

text \<open>The unique index on claimed continuations, over all projects.\<close>

definition claimed_twice :: "pm_store \<Rightarrow> string \<Rightarrow> bool" where
  "claimed_twice db resource \<longleftrightarrow>
     length (filter (\<lambda>r. ls_resource r = resource \<and> ls_status r \<in> {''CLAIMED'', ''ACTIVE''}) (pm_leases db)) > 1"

definition lease_event :: "coordinator \<Rightarrow> lease_record \<Rightarrow> string \<Rightarrow> string \<Rightarrow> int \<Rightarrow> int \<Rightarrow> audit_event" where
  "lease_event lc r kind reason now n = \<lparr>
     event_id = co_project lc @ '':continuation-lease:'' @ ls_id r @ '':s'' @ int_str (ls_revision r),
     event_project = co_project lc, event_revision = n,
     logical_tx_id = ''tx-continuation-lease-'' @ ls_id r @ ''-s'' @ int_str (ls_revision r),
     event_type = kind, human_summary = ''Continuation lease '' @ ls_id r @ '': '' @ reason,
     event_task = Some (ls_task r), event_milestone = None, event_plan_version = None,
     event_payload = [(''lease_version'', PStr ''v1''), (''lease_id'', PStr (ls_id r)),
       (''continuation_id'', PStr (ls_continuation r)), (''packet_digest'', PStr (ls_digest r)),
       (''scope_epoch'', PInt (ls_epoch r)), (''generation'', PInt (ls_generation r)),
       (''status'', PStr (ls_status r)), (''reason'', PStr reason)],
     event_time = now\<rparr>"

text \<open>What follows every update that changed a row: the project revision, the row read back and
  its audit event.\<close>

definition record_transition ::
    "coordinator \<Rightarrow> pm_store \<Rightarrow> pydict \<Rightarrow> int \<Rightarrow> string \<Rightarrow> string \<Rightarrow> string \<times> string \<Rightarrow> (lease_record \<Rightarrow> lease_result)
      \<Rightarrow> lease_result tx" where
  "record_transition lc db doc now kind reason missing ok =
     ebind (bump_project_revision ''project revision CAS did not update'' db (co_project lc) now) (\<lambda>db2.
       case select_for_packet lc db2 doc of
         None \<Rightarrow> Inl (Tx_Raise (fst missing) (snd missing))
       | Some r \<Rightarrow>
           (case append_audit db2 (lease_event lc r kind reason now) (co_project lc) of
              Inl _ \<Rightarrow> Inl (Tx_Raise ''LEASE_AUDIT_CONFLICT'' ''continuation lease audit event identity conflicted'')
            | Inr db3 \<Rightarrow> Inr (db3, ok r)))"

definition grant ::
    "runtime \<Rightarrow> coordinator \<Rightarrow> call_env \<Rightarrow> pyval \<Rightarrow> int \<Rightarrow> int \<Rightarrow> string \<Rightarrow> lease_row \<Rightarrow> lease_row" where
  "grant rt lc env owner gen rv reason r =
     (let h = token_digest rt (PStr (env_token env))
      in r\<lparr>ls_holder := h, ls_status := ''CLAIMED'', ls_acquired := env_now env,
           ls_expires := env_now env + co_lease_seconds lc * 1000000, ls_fence := gen,
           ls_owner := (case owner of PStr s \<Rightarrow> Some s | _ \<Rightarrow> None), ls_token_hash := Some h,
           ls_generation := gen, ls_revision := rv, ls_reason := Some reason, ls_completed := None,
           ls_abandoned := None\<rparr>)"

text \<open>\<open>isinstance(v, str) and v.strip()\<close>.\<close>

definition nonblank :: "pyval \<Rightarrow> bool" where
  "nonblank v \<longleftrightarrow> (case v of PStr s \<Rightarrow> strip s \<noteq> [] | _ \<Rightarrow> False)"

section \<open>Operations\<close>

definition claim_body ::
    "runtime \<Rightarrow> iso_reader \<Rightarrow> coordinator \<Rightarrow> call_env \<Rightarrow> pydict \<Rightarrow> authority_input \<Rightarrow> pyval \<Rightarrow> pm_store \<Rightarrow> lease_result tx" where
  "claim_body rt rd lc env doc a owner db =
     ebind (ensure_project (co_project lc) db) (\<lambda>_.
       case guard_checks rt rd lc db doc a (env_now env) QUEUE_CLAIM of
         Some res \<Rightarrow> Inr (db, res)
       | None \<Rightarrow>
           ebind (open_lease rt lc db doc (env_now env)) (\<lambda>(db1, r).
             if \<not> packet_matches_record lc doc r then
               Inr (db1, invalid_result ''LEASE_IDENTITY_MISMATCH'' ''stored lease identity differs from packet'')
             else if ls_status r = ''COMPLETED'' then
               Inr (db1, refused ''COMPLETED_CONTINUATION'' ''completed continuation cannot be claimed'' r)
             else if ls_status r = ''ABANDONED'' then
               Inr (db1, refused ''ABANDONED_CONTINUATION'' ''abandoned continuation cannot be claimed'' r)
             else if ls_status r = ''CLAIMED'' then
               (if ls_expires r > env_now env then
                  Inr (db1, refused ''LEASE_HELD'' ''continuation is already claimed'' r)
                else Inr (db1, refused ''EXPIRED_RECLAIM_REQUIRED''
                  ''expired continuation requires explicit deterministic reclaim'' r))
             else if ls_status r \<notin> {''AVAILABLE'', ''RELEASED'', ''EXPIRED''} then
               Inr (db1, refused ''LEASE_NOT_CLAIMABLE'' (''lease status '' @ [char_of (39::nat)] @ ls_status r
                 @ [char_of (39::nat)] @ '' is not claimable'') r)
             else
               (case update_lease db1 (co_project lc) r (\<lambda>q. ls_status q \<in> {''AVAILABLE'', ''RELEASED'', ''EXPIRED''})
                   (grant rt lc env owner (max 1 (ls_generation r + 1)) (ls_revision r + 1) ''CLAIMED'') of
                  (db2, n) \<Rightarrow>
                    if claimed_twice db2 (resource_id_for doc) then Inl Tx_Integrity
                    else if n \<noteq> 1 then
                      Inr (db2, invalid_result ''CLAIM_CAS_LOST'' ''AVAILABLE -> CLAIMED compare-and-set lost'')
                    else record_transition lc db2 doc (env_now env) ''CONTINUATION_LEASE_CLAIMED'' ''CLAIMED''
                      (''LEASE_CLAIM_READBACK_FAILED'', ''claimed lease was not readable'')
                      (\<lambda>l. accepted ''CLAIMED'' ''continuation lease claimed'' l (Some (env_token env)) True False))))"

definition claim ::
    "runtime \<Rightarrow> iso_reader \<Rightarrow> coordinator \<Rightarrow> call_env \<Rightarrow> pm_store \<Rightarrow> packet_input \<Rightarrow> authority_input \<Rightarrow> pyval \<Rightarrow> lease_outcome" where
  "claim rt rd lc env db p a owner =
     (if \<not> nonblank owner then
        (db, Inr (invalid_result ''OWNER_ID_REQUIRED'' ''claim requires a non-empty owner id''))
      else case validate rt rd p a (env_now env) of
        Inl (c, msg) \<Rightarrow> (db, Inr (invalid_result c msg))
      | Inr doc \<Rightarrow>
          transaction env (\<lambda>t. invalid_result ''CLAIM_TRANSACTION_FAILED'' (''continuation claim failed closed: '' @ t))
            db (claim_body rt rd lc env doc a owner db))"

definition reclaim_body ::
    "runtime \<Rightarrow> iso_reader \<Rightarrow> coordinator \<Rightarrow> call_env \<Rightarrow> pydict \<Rightarrow> authority_input \<Rightarrow> pyval \<Rightarrow> string \<Rightarrow> pm_store
      \<Rightarrow> lease_result tx" where
  "reclaim_body rt rd lc env doc a owner reason db =
     ebind (ensure_project (co_project lc) db) (\<lambda>_.
       case guard_checks rt rd lc db doc a (env_now env) QUEUE_CLAIM of
         Some res \<Rightarrow> Inr (db, res)
       | None \<Rightarrow>
           (case select_for_packet lc db doc of
              None \<Rightarrow> Inr (db, invalid_result ''LEASE_NOT_FOUND'' ''no continuation lease exists to reclaim'')
            | Some r \<Rightarrow>
                if ls_status r = ''COMPLETED'' then
                  Inr (db, refused ''COMPLETED_CONTINUATION'' ''completed continuation cannot be reclaimed'' r)
                else if ls_status r = ''ABANDONED'' then
                  Inr (db, refused ''ABANDONED_CONTINUATION'' ''abandoned continuation cannot be reclaimed'' r)
                else if ls_status r \<noteq> ''CLAIMED'' then
                  Inr (db, refused ''LEASE_NOT_EXPIRED'' ''only a claimed lease can be reclaimed'' r)
                else if ls_expires r > env_now env then
                  Inr (db, refused ''PRE_EXPIRY_RECLAIM'' ''lease has not expired at the supplied virtual clock'' r)
                else
                  (case update_lease db (co_project lc) r (\<lambda>q. ls_status q = ''CLAIMED'' \<and> ls_expires q = ls_expires r)
                      (grant rt lc env owner (ls_generation r + 1) (ls_revision r + 1) (''RECLAIM:'' @ bounded_reason reason)) of
                     (db1, n) \<Rightarrow>
                       if claimed_twice db1 (resource_id_for doc) then Inl Tx_Integrity
                       else if n \<noteq> 1 then
                         Inr (db1, invalid_result ''RECLAIM_CAS_LOST'' ''expired lease reclaim compare-and-set lost'')
                       else record_transition lc db1 doc (env_now env) ''CONTINUATION_LEASE_RECLAIMED'' (bounded_reason reason)
                         (''LEASE_RECLAIM_READBACK_FAILED'', ''reclaimed lease was not readable'')
                         (\<lambda>l. accepted ''RECLAIMED'' ''expired continuation lease reclaimed'' l (Some (env_token env)) True False))))"

definition reclaim ::
    "runtime \<Rightarrow> iso_reader \<Rightarrow> coordinator \<Rightarrow> call_env \<Rightarrow> pm_store \<Rightarrow> packet_input \<Rightarrow> authority_input \<Rightarrow> pyval \<Rightarrow> pyval
      \<Rightarrow> lease_outcome" where
  "reclaim rt rd lc env db p a owner reason =
     (if \<not> nonblank owner then
        (db, Inr (invalid_result ''OWNER_ID_REQUIRED'' ''reclaim requires a non-empty owner id''))
      else if \<not> nonblank reason then
        (db, Inr (invalid_result ''RECLAIM_REASON_REQUIRED'' ''reclaim requires an explicit reason''))
      else case validate rt rd p a (env_now env) of
        Inl (c, msg) \<Rightarrow> (db, Inr (invalid_result c msg))
      | Inr doc \<Rightarrow>
          transaction env (\<lambda>t. invalid_result ''RECLAIM_TRANSACTION_FAILED'' (''continuation reclaim failed closed: '' @ t))
            db (reclaim_body rt rd lc env doc a owner (py_str rt reason) db))"

definition renew_body ::
    "runtime \<Rightarrow> iso_reader \<Rightarrow> coordinator \<Rightarrow> call_env \<Rightarrow> pydict \<Rightarrow> authority_input \<Rightarrow> string \<Rightarrow> pm_store \<Rightarrow> lease_result tx" where
  "renew_body rt rd lc env doc a h db =
     ebind (ensure_project (co_project lc) db) (\<lambda>_.
       case guard_checks rt rd lc db doc a (env_now env) QUEUE_CLAIM of
         Some res \<Rightarrow> Inr (db, res)
       | None \<Rightarrow>
           (case select_for_packet lc db doc of
              None \<Rightarrow> Inr (db, invalid_result ''LEASE_NOT_FOUND'' ''continuation lease does not exist'')
            | Some r \<Rightarrow>
                if ls_token_hash r \<noteq> Some h then
                  Inr (db, refused ''FOREIGN_OWNER_TOKEN'' ''renew rejected for a foreign owner token'' r)
                else if ls_status r \<noteq> ''CLAIMED'' then
                  Inr (db, refused ''LEASE_NOT_CLAIMED'' ''only a claimed lease can be renewed'' r)
                else if ls_expires r \<le> env_now env then
                  Inr (db, refused ''LATE_RENEW_AFTER_EXPIRY'' ''late renew cannot revive an expired lease'' r)
                else
                  (case update_lease db (co_project lc) r (\<lambda>q. ls_status q = ''CLAIMED'' \<and> ls_token_hash q = Some h)
                      (\<lambda>q. q\<lparr>ls_expires := env_now env + co_lease_seconds lc * 1000000, ls_revision := ls_revision r + 1,
                         ls_reason := Some ''RENEWED''\<rparr>) of
                     (db1, n) \<Rightarrow>
                       if n \<noteq> 1 then Inr (db1, invalid_result ''RENEW_CAS_LOST'' ''lease renew compare-and-set lost'')
                       else record_transition lc db1 doc (env_now env) ''CONTINUATION_LEASE_RENEWED'' ''RENEWED''
                         (''LEASE_RENEW_READBACK_FAILED'', ''renewed lease was not readable'')
                         (\<lambda>l. accepted ''RENEWED'' ''continuation lease renewed'' l None True False))))"

definition renew ::
    "runtime \<Rightarrow> iso_reader \<Rightarrow> coordinator \<Rightarrow> call_env \<Rightarrow> pm_store \<Rightarrow> packet_input \<Rightarrow> authority_input \<Rightarrow> pyval \<Rightarrow> lease_outcome" where
  "renew rt rd lc env db p a token =
     (case validate rt rd p a (env_now env) of
        Inl (c, msg) \<Rightarrow> (db, Inr (invalid_result c msg))
      | Inr doc \<Rightarrow>
          if token_digest rt token = [] then
            (db, Inr (invalid_result ''OWNER_TOKEN_INVALID'' ''renew requires the opaque owner token''))
          else
            transaction env (\<lambda>t. invalid_result ''RENEW_TRANSACTION_FAILED'' (''continuation renew failed closed: '' @ t))
              db (renew_body rt rd lc env doc a (token_digest rt token) db))"

definition release_body ::
    "runtime \<Rightarrow> coordinator \<Rightarrow> call_env \<Rightarrow> pydict \<Rightarrow> string \<Rightarrow> pyval \<Rightarrow> pm_store \<Rightarrow> lease_result tx" where
  "release_body rt lc env doc h reason db =
     ebind (ensure_project (co_project lc) db) (\<lambda>_.
       case select_for_packet lc db doc of
         None \<Rightarrow> Inr (db, invalid_result ''LEASE_NOT_FOUND'' ''continuation lease does not exist'')
       | Some r \<Rightarrow>
           if ls_token_hash r \<noteq> Some h then
             Inr (db, refused ''FOREIGN_OWNER_TOKEN'' ''release rejected for a foreign owner token'' r)
           else if ls_status r = ''AVAILABLE'' then
             Inr (db, accepted ''ALREADY_AVAILABLE'' ''continuation lease is already available'' r None False True)
           else if ls_status r \<in> {''COMPLETED'', ''ABANDONED''} then
             Inr (db, refused ''TERMINAL_LEASE'' (''terminal lease cannot be released from '' @ ls_status r) r)
           else if ls_status r \<noteq> ''CLAIMED'' then
             Inr (db, refused ''LEASE_NOT_CLAIMED'' ''only a claimed lease can be released'' r)
           else if ls_expires r \<le> env_later env then
             Inr (db, refused ''EXPIRED_LEASE'' ''expired owner cannot release a lease'' r)
           else
             (let reason' = (case bounded_reason (py_str rt reason) of [] \<Rightarrow> ''RELEASED'' | t \<Rightarrow> t) in
              case update_lease db (co_project lc) r (\<lambda>q. ls_status q = ''CLAIMED'' \<and> ls_token_hash q = Some h)
                  (\<lambda>q. q\<lparr>ls_holder := [], ls_status := ''AVAILABLE'', ls_owner := None, ls_token_hash := None,
                     ls_revision := ls_revision r + 1, ls_reason := Some (''RELEASE:'' @ reason'),
                     ls_expires := ls_acquired q\<rparr>) of
                (db1, n) \<Rightarrow>
                  if n \<noteq> 1 then Inr (db1, invalid_result ''RELEASE_CAS_LOST'' ''lease release compare-and-set lost'')
                  else record_transition lc db1 doc (env_now env) ''CONTINUATION_LEASE_RELEASED'' reason'
                    (''LEASE_RELEASE_READBACK_FAILED'', ''released lease was not readable'')
                    (\<lambda>l. accepted ''RELEASED'' ''continuation lease released'' l None True False)))"

text \<open>Release, complete and abandon start alike: the packet is read (an unreadable one raises) and
  the token must be one.\<close>

definition owner_operation ::
    "runtime \<Rightarrow> iso_reader \<Rightarrow> call_env \<Rightarrow> pm_store \<Rightarrow> packet_input \<Rightarrow> pyval \<Rightarrow> string \<Rightarrow> string \<Rightarrow> string
      \<Rightarrow> (pydict \<Rightarrow> string \<Rightarrow> lease_result tx) \<Rightarrow> lease_outcome" where
  "owner_operation rt rd env db p token no_token c prefix body =
     (case canonical_packet rt rd p of
        Inl err \<Rightarrow> (db, Inl err)
      | Inr doc \<Rightarrow>
          if token_digest rt token = [] then (db, Inr (invalid_result ''OWNER_TOKEN_INVALID'' no_token))
          else transaction env (\<lambda>t. invalid_result c (prefix @ t)) db (body doc (token_digest rt token)))"

definition release ::
    "runtime \<Rightarrow> iso_reader \<Rightarrow> coordinator \<Rightarrow> call_env \<Rightarrow> pm_store \<Rightarrow> packet_input \<Rightarrow> pyval \<Rightarrow> pyval \<Rightarrow> lease_outcome" where
  "release rt rd lc env db p token reason =
     owner_operation rt rd env db p token ''release requires the opaque owner token''
       ''RELEASE_TRANSACTION_FAILED'' ''continuation release failed closed: ''
       (\<lambda>doc h. release_body rt lc env doc h reason db)"

definition complete_body :: "coordinator \<Rightarrow> call_env \<Rightarrow> pydict \<Rightarrow> string \<Rightarrow> pm_store \<Rightarrow> lease_result tx" where
  "complete_body lc env doc h db =
     ebind (ensure_project (co_project lc) db) (\<lambda>_.
       case select_for_packet lc db doc of
         None \<Rightarrow> Inr (db, invalid_result ''LEASE_NOT_FOUND'' ''continuation lease does not exist'')
       | Some r \<Rightarrow>
           if ls_token_hash r \<noteq> Some h then
             Inr (db, refused ''FOREIGN_OWNER_TOKEN'' ''complete rejected for a foreign owner token'' r)
           else if ls_status r = ''COMPLETED'' then
             Inr (db, accepted ''ALREADY_COMPLETED'' ''continuation completion is idempotent'' r None False True)
           else if ls_status r \<noteq> ''CLAIMED'' then
             Inr (db, refused ''LEASE_NOT_CLAIMED'' ''only a claimed lease can be completed'' r)
           else if ls_expires r \<le> env_now env then
             Inr (db, refused ''EXPIRED_LEASE'' ''expired owner cannot complete a lease'' r)
           else
             (case update_lease db (co_project lc) r (\<lambda>q. ls_status q = ''CLAIMED'' \<and> ls_token_hash q = Some h)
                 (\<lambda>q. q\<lparr>ls_status := ''COMPLETED'', ls_revision := ls_revision r + 1, ls_reason := Some ''COMPLETED'',
                    ls_completed := Some (env_now env)\<rparr>) of
               (db1, n) \<Rightarrow>
                 if n \<noteq> 1 then Inr (db1, invalid_result ''COMPLETE_CAS_LOST'' ''lease completion compare-and-set lost'')
                 else record_transition lc db1 doc (env_now env) ''CONTINUATION_LEASE_COMPLETED'' ''COMPLETED''
                   (''LEASE_COMPLETE_READBACK_FAILED'', ''completed lease was not readable'')
                   (\<lambda>l. accepted ''COMPLETED'' ''continuation lease completed'' l None True False)))"

definition complete ::
    "runtime \<Rightarrow> iso_reader \<Rightarrow> coordinator \<Rightarrow> call_env \<Rightarrow> pm_store \<Rightarrow> packet_input \<Rightarrow> pyval \<Rightarrow> lease_outcome" where
  "complete rt rd lc env db p token =
     owner_operation rt rd env db p token ''complete requires the opaque owner token''
       ''COMPLETE_TRANSACTION_FAILED'' ''continuation completion failed closed: ''
       (\<lambda>doc h. complete_body lc env doc h db)"

definition abandon_body ::
    "runtime \<Rightarrow> coordinator \<Rightarrow> call_env \<Rightarrow> pydict \<Rightarrow> string \<Rightarrow> pyval \<Rightarrow> pm_store \<Rightarrow> lease_result tx" where
  "abandon_body rt lc env doc h reason db =
     ebind (ensure_project (co_project lc) db) (\<lambda>_.
       case select_for_packet lc db doc of
         None \<Rightarrow> Inr (db, invalid_result ''LEASE_NOT_FOUND'' ''continuation lease does not exist'')
       | Some r \<Rightarrow>
           if ls_token_hash r \<noteq> Some h then
             Inr (db, refused ''FOREIGN_OWNER_TOKEN'' ''abandon rejected for a foreign owner token'' r)
           else if ls_status r = ''ABANDONED'' then
             Inr (db, accepted ''ALREADY_ABANDONED'' ''continuation abandon is idempotent'' r None False True)
           else if ls_status r = ''COMPLETED'' then
             Inr (db, refused ''TERMINAL_LEASE'' ''completed lease cannot be abandoned'' r)
           else if ls_status r \<noteq> ''CLAIMED'' then
             Inr (db, refused ''LEASE_NOT_CLAIMED'' ''only a claimed lease can be abandoned'' r)
           else if ls_expires r \<le> env_now env then
             Inr (db, refused ''EXPIRED_LEASE'' ''expired owner cannot abandon a lease'' r)
           else
             (let reason' = (case bounded_reason (py_str rt reason) of [] \<Rightarrow> ''ABANDONED'' | t \<Rightarrow> t) in
              case update_lease db (co_project lc) r (\<lambda>q. ls_status q = ''CLAIMED'' \<and> ls_token_hash q = Some h)
                  (\<lambda>q. q\<lparr>ls_status := ''ABANDONED'', ls_revision := ls_revision r + 1,
                     ls_reason := Some (''ABANDON:'' @ reason'), ls_abandoned := Some (env_now env)\<rparr>) of
                (db1, n) \<Rightarrow>
                  if n \<noteq> 1 then Inr (db1, invalid_result ''ABANDON_CAS_LOST'' ''lease abandon compare-and-set lost'')
                  else record_transition lc db1 doc (env_now env) ''CONTINUATION_LEASE_ABANDONED'' reason'
                    (''LEASE_ABANDON_READBACK_FAILED'', ''abandoned lease was not readable'')
                    (\<lambda>l. accepted ''ABANDONED'' ''continuation lease abandoned'' l None True False)))"

definition abandon ::
    "runtime \<Rightarrow> iso_reader \<Rightarrow> coordinator \<Rightarrow> call_env \<Rightarrow> pm_store \<Rightarrow> packet_input \<Rightarrow> pyval \<Rightarrow> pyval \<Rightarrow> lease_outcome" where
  "abandon rt rd lc env db p token reason =
     owner_operation rt rd env db p token ''abandon requires the opaque owner token''
       ''ABANDON_TRANSACTION_FAILED'' ''continuation abandon failed closed: ''
       (\<lambda>doc h. abandon_body rt lc env doc h reason db)"

definition authorize_body ::
    "runtime \<Rightarrow> iso_reader \<Rightarrow> coordinator \<Rightarrow> call_env \<Rightarrow> pydict \<Rightarrow> authority_input \<Rightarrow> string \<Rightarrow> pm_store \<Rightarrow> lease_result tx" where
  "authorize_body rt rd lc env doc a h db =
     ebind (ensure_project (co_project lc) db) (\<lambda>_.
       Inr (db, case guard_checks rt rd lc db doc a (env_now env) DISPATCH_SEND of
         Some res \<Rightarrow> res
       | None \<Rightarrow>
           (case select_for_packet lc db doc of
              None \<Rightarrow> invalid_result ''LEASE_NOT_FOUND'' ''continuation lease does not exist''
            | Some r \<Rightarrow>
                if \<not> packet_matches_record lc doc r then
                  refused ''LEASE_IDENTITY_MISMATCH'' ''stored lease identity differs from packet'' r
                else if ls_token_hash r \<noteq> Some h then
                  refused ''FOREIGN_OWNER_TOKEN'' ''effect rejected for a foreign owner token'' r
                else if ls_status r \<noteq> ''CLAIMED'' then
                  refused ''LEASE_NOT_CLAIMED'' ''effect requires a live claimed lease'' r
                else if ls_expires r \<le> env_now env then
                  refused ''EXPIRED_LEASE'' ''effect rejected after lease expiry'' r
                else accepted ''EFFECT_ALLOWED'' ''continuation effect is authorized'' r None False False)))"

definition authorize_effect ::
    "runtime \<Rightarrow> iso_reader \<Rightarrow> coordinator \<Rightarrow> call_env \<Rightarrow> pm_store \<Rightarrow> packet_input \<Rightarrow> authority_input \<Rightarrow> pyval \<Rightarrow> lease_outcome" where
  "authorize_effect rt rd lc env db p a token =
     (case validate rt rd p a (env_now env) of
        Inl (c, msg) \<Rightarrow> (db, Inr (invalid_result c msg))
      | Inr doc \<Rightarrow>
          if token_digest rt token = [] then
            (db, Inr (invalid_result ''OWNER_TOKEN_INVALID'' ''effect authorization requires the opaque owner token''))
          else
            transaction env (\<lambda>t. invalid_result ''EFFECT_AUTHORIZATION_FAILED'' (''effect authorization failed closed: '' @ t))
              db (authorize_body rt rd lc env doc a (token_digest rt token) db))"

text \<open>Reading, and the projection shown to diagnostics.\<close>

definition read_lease :: "runtime \<Rightarrow> iso_reader \<Rightarrow> coordinator \<Rightarrow> pm_store \<Rightarrow> packet_input \<Rightarrow> string \<times> string + lease_record option" where
  "read_lease rt rd lc db p = ebind (canonical_packet rt rd p) (\<lambda>doc. Inr (select_for_packet lc db doc))"

definition diagnostic_snapshot ::
    "runtime \<Rightarrow> iso_reader \<Rightarrow> coordinator \<Rightarrow> pm_store \<Rightarrow> packet_input \<Rightarrow> string \<times> string + lease_snapshot option" where
  "diagnostic_snapshot rt rd lc db p =
     ebind (read_lease rt rd lc db p) (\<lambda>r. Inr (map_option lease_snapshot.truncate r))"

section \<open>Rows under update\<close>

lemma record_of_simps [simp]:
  "ls_id (record_of q) = ls_id q" "ls_project (record_of q) = ls_project q" "ls_status (record_of q) = ls_status q"
  "ls_expires (record_of q) = ls_expires q" "ls_revision (record_of q) = ls_revision q"
  "ls_generation (record_of q) = ls_generation q" "ls_token_hash (record_of q) = ls_token_hash q"
  "ls_continuation (record_of q) = ls_continuation q" "ls_digest (record_of q) = ls_digest q"
  by (simp_all add: record_of_def lease_record.truncate_def)

lemma find_replace_same:
  "find P xs = Some q \<Longrightarrow> P q' \<Longrightarrow> find P (map (\<lambda>x. if x = q then q' else x) xs) = Some q'"
  by (induction xs) (auto split: if_splits)

lemma find_replace_other:
  "\<not> P q \<Longrightarrow> \<not> P q' \<Longrightarrow> find P (map (\<lambda>x. if x = q then q' else x) xs) = find P xs"
  by (induction xs) auto

lemma filter_singleton: "distinct xs \<Longrightarrow> x \<in> set xs \<Longrightarrow> filter (\<lambda>y. y = x) xs = [x]"
  by (induction xs) (auto simp: filter_empty_conv)

text \<open>A found row is the only one its update can hit.\<close>

lemma update_lease_found:
  assumes "distinct (map ls_id (pm_leases db))" and "find_lease p db R = Some q" and "cond q"
  shows "update_lease db p (record_of q) cond f
    = (db\<lparr>pm_leases := map (\<lambda>x. if x = q then f q else x) (pm_leases db)\<rparr>, 1)"
proof -
  let ?hit = "\<lambda>x. ls_id x = ls_id q \<and> ls_project x = p \<and> ls_revision x = ls_revision q \<and> cond x"
  have q: "q \<in> set (pm_leases db)" "ls_project q = p"
    using find_SomeD[OF assms(2)[unfolded find_lease_def]] by simp_all
  have hit: "?hit x \<longleftrightarrow> x = q" if "x \<in> set (pm_leases db)" for x
    using that q assms(1,3) by (auto simp: distinct_map inj_on_def)
  then have "map (\<lambda>x. if ?hit x then f x else x) (pm_leases db) = map (\<lambda>x. if x = q then f q else x) (pm_leases db)"
    by (intro map_cong) auto
  moreover have "filter ?hit (pm_leases db) = filter (\<lambda>y. y = q) (pm_leases db)" using hit by (intro filter_cong) auto
  moreover have "distinct (pm_leases db)" using assms(1) by (simp add: distinct_map)
  ultimately show ?thesis using filter_singleton[OF _ q(1)] by (simp add: update_lease_def Let_def)
qed

lemma find_lease_replace:
  assumes "find_lease p db R = Some q" and "ls_project q' = ls_project q" and "ls_resource q' = ls_resource q"
  shows "find_lease p' (db\<lparr>pm_leases := map (\<lambda>x. if x = q then q' else x) (pm_leases db)\<rparr>) R'
    = (if p' = p \<and> R' = R then Some q' else find_lease p' db R')"
  using find_SomeD[OF assms(1)[unfolded find_lease_def]] assms
  by (auto simp: find_lease_def intro!: find_replace_same find_replace_other)

text \<open>\<open>record_transition\<close> touches no lease.\<close>

lemma record_transition_leases:
  assumes "record_transition lc db doc now kind reason missing ok = Inr (db', res)"
  shows "pm_leases db' = pm_leases db" and "\<exists>r. select_for_packet lc db doc = Some r \<and> res = ok r"
    and "send_intents (pm_scope db') = send_intents (pm_scope db)"
proof -
  obtain db2 where b1: "bump_project_revision ''project revision CAS did not update'' db (co_project lc) now = Inr db2"
    using assms by (auto simp: record_transition_def ebind_Inr_iff)
  then obtain r where b2: "select_for_packet lc db2 doc = Some r"
    using assms by (cases "select_for_packet lc db2 doc") (simp_all add: record_transition_def)
  have b3: "append_audit db2 (lease_event lc r kind reason now) (co_project lc) = Inr db'" "res = ok r"
    using assms b1 b2
    by (cases "append_audit db2 (lease_event lc r kind reason now) (co_project lc)"; simp add: record_transition_def)+
  note b = b1 b2 b3
  note others = bump_project_others[OF b(1)] append_audit_others[OF b(3)]
  show "pm_leases db' = pm_leases db" using others by simp
  have "select_for_packet lc db doc = Some r"
    using b(2) others by (simp add: select_for_packet_def find_lease_def)
  then show "\<exists>r. select_for_packet lc db doc = Some r \<and> res = ok r" using b(4) by blast
  show "send_intents (pm_scope db') = send_intents (pm_scope db)" using others by simp
qed

section \<open>The abstract lease\<close>

text \<open>What the lease of one continuation looks like to its clients: its generation, and who holds
  it until when.\<close>

datatype lease_view = Absent | Free int | Held int string int | Completed int string | Abandoned int string

fun view_generation :: "lease_view \<Rightarrow> int" where
  "view_generation Absent = 0"
| "view_generation (Free g) = g"
| "view_generation (Held g h e) = g"
| "view_generation (Completed g h) = g"
| "view_generation (Abandoned g h) = g"

fun view_holder :: "lease_view \<Rightarrow> string option" where
  "view_holder (Held g h e) = Some h"
| "view_holder (Completed g h) = Some h"
| "view_holder (Abandoned g h) = Some h"
| "view_holder _ = None"

text \<open>The moves: a grant to a new holder, and what the holder does at some instant.\<close>

datatype lease_move =
    Grant int string int
  | Renew int string int
  | Release int string
  | Complete int string
  | Abandon int string

inductive view_step :: "lease_move \<Rightarrow> lease_view \<Rightarrow> lease_view \<Rightarrow> bool" where
  grant_new: "view_step (Grant now h e) Absent (Held 1 h e)"
| grant_free: "view_step (Grant now h e) (Free g) (Held (g + 1) h e)"
| grant_expired: "e0 \<le> now \<Longrightarrow> view_step (Grant now h e) (Held g h0 e0) (Held (g + 1) h e)"
| renew: "now < e0 \<Longrightarrow> view_step (Renew now h e) (Held g h e0) (Held g h e)"
| release: "now < e0 \<Longrightarrow> view_step (Release now h) (Held g h e0) (Free g)"
| complete: "now < e0 \<Longrightarrow> view_step (Complete now h) (Held g h e0) (Completed g h)"
| abandon: "now < e0 \<Longrightarrow> view_step (Abandon now h) (Held g h e0) (Abandoned g h)"

inductive_cases view_stepE: "view_step mv v v'"

fun row_view :: "lease_row option \<Rightarrow> lease_view" where
  "row_view None = Absent"
| "row_view (Some r) =
     (if ls_status r = ''CLAIMED'' then Held (ls_generation r) (the (ls_token_hash r)) (ls_expires r)
      else if ls_status r = ''COMPLETED'' then Completed (ls_generation r) (the (ls_token_hash r))
      else if ls_status r = ''ABANDONED'' then Abandoned (ls_generation r) (the (ls_token_hash r))
      else Free (ls_generation r))"

definition lease_view :: "string \<Rightarrow> string \<Rightarrow> pm_store \<Rightarrow> lease_view" where
  "lease_view p R db = row_view (find_lease p db R)"

text \<open>The rows of the table: the primary key, the statuses the protocol uses, a token digest exactly
  on the rows that have or had a holder, and generations that count grants.\<close>

definition lease_ok :: "lease_row \<Rightarrow> bool" where
  "lease_ok r \<longleftrightarrow> ls_status r \<in> {''AVAILABLE'', ''CLAIMED'', ''COMPLETED'', ''ABANDONED''}
     \<and> (ls_status r = ''AVAILABLE'' \<longleftrightarrow> ls_token_hash r = None) \<and> 0 \<le> ls_generation r"

definition leases_ok :: "pm_store \<Rightarrow> bool" where
  "leases_ok db \<longleftrightarrow> distinct (map ls_id (pm_leases db)) \<and> list_all lease_ok (pm_leases db)"

lemma leases_ok_found: "leases_ok db \<Longrightarrow> find_lease p db R = Some q \<Longrightarrow> lease_ok q"
  using find_SomeD by (fastforce simp: leases_ok_def find_lease_def list_all_iff)

section \<open>Every operation makes a move of the abstract lease or none\<close>

definition moved :: "string \<Rightarrow> string \<Rightarrow> lease_move \<Rightarrow> pm_store \<Rightarrow> pm_store \<Rightarrow> bool" where
  "moved p R mv db db' \<longleftrightarrow> leases_ok db' \<and> view_step mv (lease_view p R db) (lease_view p R db')
     \<and> (\<forall>p' R'. p' \<noteq> p \<or> R' \<noteq> R \<longrightarrow> find_lease p' db' R' = find_lease p' db R')"

lemma leases_ok_replace:
  assumes "leases_ok db" and "lease_ok q'" and "ls_id q' = ls_id q"
  shows "leases_ok (db\<lparr>pm_leases := map (\<lambda>x. if x = q then q' else x) (pm_leases db)\<rparr>)"
proof -
  have "map ls_id (map (\<lambda>x. if x = q then q' else x) (pm_leases db)) = map ls_id (pm_leases db)"
    using assms(3) by simp
  then have "distinct (map ls_id (map (\<lambda>x. if x = q then q' else x) (pm_leases db)))"
    using assms(1) by (simp only: leases_ok_def)
  then show ?thesis using assms(1,2) by (auto simp: leases_ok_def list_all_iff simp del: map_map)
qed

lemma moved_replace:
  assumes "leases_ok db" and "find_lease p db R = Some q" and "lease_ok q'"
    and "ls_id q' = ls_id q" "ls_project q' = ls_project q" "ls_resource q' = ls_resource q"
    and "view_step mv (row_view (Some q)) (row_view (Some q'))"
    and "pm_leases db' = map (\<lambda>x. if x = q then q' else x) (pm_leases db)"
  shows "moved p R mv db db'"
proof -
  have f: "find_lease p' db' R' = (if p' = p \<and> R' = R then Some q' else find_lease p' db R')" for p' R'
    using find_lease_replace[OF assms(2,5,6), of p' R'] assms(8) by (simp add: find_lease_def)
  have "leases_ok db'" using leases_ok_replace[OF assms(1,3,4)] assms(8) by (simp add: leases_ok_def)
  then show ?thesis using assms(2,7) f by (simp add: moved_def lease_view_def)
qed

text \<open>The owner's operations: the update hits the found row, which is claimed by the owner.\<close>

lemma owner_update:
  assumes "leases_ok db" and "find_lease p db R = Some q" and "ls_token_hash q = Some h" and "ls_status q = ''CLAIMED''"
    and "update_lease db p (record_of q) (\<lambda>x. ls_status x = ''CLAIMED'' \<and> ls_token_hash x = Some h) f = (db1, n)"
  shows "n = 1 \<and> db1 = db\<lparr>pm_leases := map (\<lambda>x. if x = q then f q else x) (pm_leases db)\<rparr>"
  using update_lease_found[of db p R q "\<lambda>x. ls_status x = ''CLAIMED'' \<and> ls_token_hash x = Some h" f] assms
  by (simp add: leases_ok_def)

lemma select_found: "select_for_packet lc db doc = Some r \<Longrightarrow>
    \<exists>q. find_lease (co_project lc) db (resource_id_for doc) = Some q \<and> r = record_of q"
  by (auto simp: select_for_packet_def)

definition granted_move :: "runtime \<Rightarrow> coordinator \<Rightarrow> call_env \<Rightarrow> lease_move" where
  "granted_move rt lc env = Grant (env_now env) (token_digest rt (PStr (env_token env)))
     (env_now env + co_lease_seconds lc * 1000000)"

lemma grant_simps [simp]:
  "ls_id (grant rt lc env owner g rv reason r) = ls_id r"
  "ls_project (grant rt lc env owner g rv reason r) = ls_project r"
  "ls_resource (grant rt lc env owner g rv reason r) = ls_resource r"
  "ls_status (grant rt lc env owner g rv reason r) = ''CLAIMED''"
  "ls_generation (grant rt lc env owner g rv reason r) = g"
  "ls_token_hash (grant rt lc env owner g rv reason r) = Some (token_digest rt (PStr (env_token env)))"
  "ls_expires (grant rt lc env owner g rv reason r) = env_now env + co_lease_seconds lc * 1000000"
  by (simp_all add: grant_def Let_def)

lemma lease_ok_grant: "0 \<le> g \<Longrightarrow> lease_ok (grant rt lc env owner g rv reason r)"
  by (simp add: lease_ok_def)

lemma new_lease_simps [simp]:
  "ls_project (new_lease rt lc doc now) = co_project lc" "ls_resource (new_lease rt lc doc now) = resource_id_for doc"
  "ls_status (new_lease rt lc doc now) = ''AVAILABLE''" "ls_generation (new_lease rt lc doc now) = 0"
  "ls_token_hash (new_lease rt lc doc now) = None"
  by (simp_all add: new_lease_def)

text \<open>Opening a lease adds at most a free row of generation 0.\<close>

lemma open_leaseE:
  assumes "open_lease rt lc db doc now = Inr (db1, r)" and "leases_ok db"
  obtains (found) q where "db1 = db" "find_lease (co_project lc) db (resource_id_for doc) = Some q" "r = record_of q"
  | (fresh) "find_lease (co_project lc) db (resource_id_for doc) = None"
      "find_lease (co_project lc) db1 (resource_id_for doc) = Some (new_lease rt lc doc now)"
      "r = record_of (new_lease rt lc doc now)" "leases_ok db1" "pm_scope db1 = pm_scope db"
      "\<And>p' R'. p' \<noteq> co_project lc \<or> R' \<noteq> resource_id_for doc \<Longrightarrow> find_lease p' db1 R' = find_lease p' db R'"
proof (cases "select_for_packet lc db doc")
  case (Some r')
  then have "db1 = db" "r' = r" using assms(1) by (simp_all add: open_lease_def)
  then show thesis using found select_found[OF Some] by blast
next
  case None
  let ?row = "new_lease rt lc doc now"
  let ?db = "db\<lparr>pm_leases := pm_leases db @ [?row]\<rparr>"
  have none: "find_lease (co_project lc) db (resource_id_for doc) = None" using None by (simp add: select_for_packet_def)
  then have f: "find_lease (co_project lc) ?db (resource_id_for doc) = Some ?row"
    by (simp add: find_lease_def find_append)
  then have sel: "select_for_packet lc ?db doc = Some (record_of ?row)" by (simp add: select_for_packet_def)
  have new: "\<not> list_ex (\<lambda>r. ls_id r = ls_id ?row) (pm_leases db)" and db1: "db1 = ?db" "r = record_of ?row"
    using assms(1) None sel by (auto simp: open_lease_def Let_def split: if_splits)
  have "leases_ok ?db" using new assms(2) by (auto simp: leases_ok_def list_ex_iff lease_ok_def)
  moreover have "find_lease p' ?db R' = find_lease p' db R'" if "p' \<noteq> co_project lc \<or> R' \<noteq> resource_id_for doc" for p' R'
    using that by (auto simp: find_lease_def find_append split: option.splits)
  ultimately show thesis using fresh none f db1 by simp
qed

text \<open>A grant to a free or expired row that was found.\<close>

lemma grant_moves:
  assumes "leases_ok db" and "find_lease p db R = Some q" and "cond q"
    and "ls_status q = ''AVAILABLE'' \<or> ls_status q = ''CLAIMED'' \<and> ls_expires q \<le> env_now env"
    and "update_lease db p (record_of q) cond (grant rt lc env owner (ls_generation q + 1) rv reason) = (db1, n)"
    and "pm_leases db' = pm_leases db1"
  shows "n = 1" and "moved p R (granted_move rt lc env) db db'"
    and "find_lease p db' R = Some (grant rt lc env owner (ls_generation q + 1) rv reason q)"
proof -
  let ?q' = "grant rt lc env owner (ls_generation q + 1) rv reason q"
  have u: "n = 1" "pm_leases db' = map (\<lambda>x. if x = q then ?q' else x) (pm_leases db)"
    using update_lease_found[of db p R q cond "grant rt lc env owner (ls_generation q + 1) rv reason"] assms
    by (simp_all add: leases_ok_def)
  have "view_step (granted_move rt lc env) (row_view (Some q)) (row_view (Some ?q'))"
    using assms(4) by (auto simp: granted_move_def intro: view_step.intros)
  moreover have "lease_ok ?q'"
    using leases_ok_found[OF assms(1,2)] by (intro lease_ok_grant) (simp add: lease_ok_def)
  ultimately show "moved p R (granted_move rt lc env) db db'"
    using moved_replace[OF assms(1,2) _ _ _ _ _ u(2)] by simp
  show "n = 1" by (rule u(1))
  show "find_lease p db' R = Some ?q'"
    using find_lease_replace[OF assms(2), of ?q' p R] u(2) by (simp add: find_lease_def)
qed

lemma refused_simps [simp]:
  "\<not> res_accepted (invalid_result c msg)" "\<not> res_accepted (refused c msg r)"
  "res_accepted (accepted c msg r tok m i)" "res_token (accepted c msg r tok m i) = tok"
  "res_lease (accepted c msg r tok m i) = Some r" "res_mutated (accepted c msg r tok m i) = m"
  by (simp_all add: invalid_result_def refused_def accepted_def)

text \<open>What a committed grant leaves: either the store had no change of leases and the call was
  refused, or the new owner's row.\<close>

definition grant_effect ::
    "runtime \<Rightarrow> coordinator \<Rightarrow> call_env \<Rightarrow> pydict \<Rightarrow> pm_store \<Rightarrow> pm_store \<Rightarrow> lease_result \<Rightarrow> bool" where
  "grant_effect rt lc env doc db db' res \<longleftrightarrow>
     (if res_accepted res
      then moved (co_project lc) (resource_id_for doc) (granted_move rt lc env) db db'
        \<and> res_token res = Some (env_token env) \<and> res_lease res = select_for_packet lc db' doc
      else pm_leases db' = pm_leases db)"

lemma select_cong: "pm_leases db' = pm_leases db \<Longrightarrow> select_for_packet lc db' doc = select_for_packet lc db doc"
  by (simp add: select_for_packet_def find_lease_def)

lemma guard_refuses: "guard_checks rt rd lc db doc a now b = Some g \<Longrightarrow> \<not> res_accepted g"
  by (auto simp: guard_checks_def Let_def split: if_splits prod.splits)

lemma reclaim_body_effect:
  assumes "leases_ok db" and "reclaim_body rt rd lc env doc a owner reason db = Inr (db', res)"
  shows "grant_effect rt lc env doc db db' res"
proof (cases "guard_checks rt rd lc db doc a (env_now env) QUEUE_CLAIM")
  case (Some g)
  then show ?thesis using assms(2) guard_refuses[OF Some] by (auto simp: reclaim_body_def ebind_Inr_iff grant_effect_def)
next
  case None
  show ?thesis
  proof (cases "select_for_packet lc db doc")
    case n: None
    then show ?thesis using None assms(2) by (auto simp: reclaim_body_def ebind_Inr_iff grant_effect_def)
  next
    case (Some r)
    obtain q where q: "find_lease (co_project lc) db (resource_id_for doc) = Some q" "r = record_of q"
      using select_found[OF Some] by blast
    let ?cond = "\<lambda>x. ls_status x = ''CLAIMED'' \<and> ls_expires x = ls_expires q"
    let ?f = "grant rt lc env owner (ls_generation q + 1) (ls_revision q + 1) (''RECLAIM:'' @ bounded_reason reason)"
    show ?thesis
    proof (cases "ls_status q = ''CLAIMED'' \<and> ls_expires q \<le> env_now env")
      case False
      then show ?thesis using None Some q assms(2)
        by (auto simp: reclaim_body_def ebind_Inr_iff grant_effect_def split: if_splits)
    next
      case True
      obtain db1 n where u: "update_lease db (co_project lc) (record_of q) ?cond ?f = (db1, n)" by fastforce
      have "n = 1" using grant_moves(1)[OF assms(1) q(1) _ _ u, of db1] True by simp
      then obtain ok where rt: "record_transition lc db1 doc (env_now env) ''CONTINUATION_LEASE_RECLAIMED'' (bounded_reason reason)
           (''LEASE_RECLAIM_READBACK_FAILED'', ''reclaimed lease was not readable'') ok = Inr (db', res)"
           "ok = (\<lambda>l. accepted ''RECLAIMED'' ''expired continuation lease reclaimed'' l (Some (env_token env)) True False)"
        using None Some q True u assms(2) by (auto simp: reclaim_body_def ebind_Inr_iff split: if_splits)
      note t = record_transition_leases[OF rt(1)]
      have "moved (co_project lc) (resource_id_for doc) (granted_move rt lc env) db db'"
        using grant_moves(2)[OF assms(1) q(1) _ _ u t(1)] True by simp
      then show ?thesis using t rt(2) select_cong[OF t(1)] by (auto simp: grant_effect_def)
    qed
  qed
qed

lemma moved_from_fresh:
  assumes "find_lease p db R = None" and "row_view (find_lease p db1 R) = Free 0"
    and "\<And>p' R'. p' \<noteq> p \<or> R' \<noteq> R \<Longrightarrow> find_lease p' db1 R' = find_lease p' db R'"
    and "moved p R (Grant now h e) db1 db'"
  shows "moved p R (Grant now h e) db db'"
proof -
  have "lease_view p R db' = Held 1 h e"
    using assms(2,4) by (auto simp: moved_def lease_view_def elim: view_stepE)
  then show ?thesis using assms grant_new by (auto simp: moved_def lease_view_def)
qed

text \<open>The claim of a row at hand.\<close>

lemma claim_found:
  assumes "leases_ok db1" and "find_lease (co_project lc) db1 (resource_id_for doc) = Some q" and "ls_status q = ''AVAILABLE''"
    and "(case update_lease db1 (co_project lc) (record_of q) (\<lambda>x. ls_status x \<in> {''AVAILABLE'', ''RELEASED'', ''EXPIRED''})
            (grant rt lc env owner (max 1 (ls_generation q + 1)) (ls_revision q + 1) ''CLAIMED'') of
          (db2, n) \<Rightarrow>
            if claimed_twice db2 (resource_id_for doc) then Inl Tx_Integrity
            else if n \<noteq> 1 then
              Inr (db2, invalid_result ''CLAIM_CAS_LOST'' ''AVAILABLE -> CLAIMED compare-and-set lost'')
            else record_transition lc db2 doc (env_now env) ''CONTINUATION_LEASE_CLAIMED'' ''CLAIMED''
              (''LEASE_CLAIM_READBACK_FAILED'', ''claimed lease was not readable'')
              (\<lambda>l. accepted ''CLAIMED'' ''continuation lease claimed'' l (Some (env_token env)) True False)) = Inr (db', res)"
  shows "moved (co_project lc) (resource_id_for doc) (granted_move rt lc env) db1 db' \<and> res_accepted res
    \<and> res_token res = Some (env_token env) \<and> res_lease res = select_for_packet lc db' doc"
proof -
  let ?cond = "\<lambda>x. ls_status x \<in> {''AVAILABLE'', ''RELEASED'', ''EXPIRED''}"
  let ?f = "grant rt lc env owner (ls_generation q + 1) (ls_revision q + 1) ''CLAIMED''"
  have g: "max 1 (ls_generation q + 1) = ls_generation q + 1"
    using leases_ok_found[OF assms(1,2)] by (simp add: lease_ok_def)
  obtain db2 n where u: "update_lease db1 (co_project lc) (record_of q) ?cond ?f = (db2, n)" by fastforce
  have "n = 1" using grant_moves(1)[OF assms(1,2) _ _ u, of db2] assms(3) by simp
  then obtain ok where rt: "record_transition lc db2 doc (env_now env) ''CONTINUATION_LEASE_CLAIMED'' ''CLAIMED''
       (''LEASE_CLAIM_READBACK_FAILED'', ''claimed lease was not readable'') ok = Inr (db', res)"
       "ok = (\<lambda>l. accepted ''CLAIMED'' ''continuation lease claimed'' l (Some (env_token env)) True False)"
    using assms(4) u unfolding g by (auto split: if_splits)
  note t = record_transition_leases[OF rt(1)]
  have "moved (co_project lc) (resource_id_for doc) (granted_move rt lc env) db1 db'"
    using grant_moves(2)[OF assms(1,2) _ _ u t(1)] assms(3) by simp
  then show ?thesis using t rt(2) select_cong[OF t(1)] by auto
qed

lemma claim_body_effect:
  assumes "leases_ok db" and "claim_body rt rd lc env doc a owner db = Inr (db', res)"
  shows "grant_effect rt lc env doc db db' res"
proof (cases "guard_checks rt rd lc db doc a (env_now env) QUEUE_CLAIM")
  case (Some g)
  then show ?thesis using assms(2) guard_refuses[OF Some] by (auto simp: claim_body_def ebind_Inr_iff grant_effect_def)
next
  case None
  obtain db1 r where o: "open_lease rt lc db doc (env_now env) = Inr (db1, r)"
    using None assms(2) by (auto simp: claim_body_def ebind_Inr_iff)
  note body = assms(2)[unfolded claim_body_def ebind_Inr_iff None option.case o]
  from o assms(1) show ?thesis
  proof (cases rule: open_leaseE)
    case (found q)
    show ?thesis
    proof (cases "ls_status q = ''AVAILABLE'' \<and> packet_matches_record lc doc r")
      case True
      then show ?thesis using body found claim_found[OF assms(1) found(2), where rt = rt and env = env and owner = owner and db' = db' and res = res]
        by (auto simp: grant_effect_def simp del: max.absorb1 max.absorb2)
    next
      case False
      then show ?thesis using body found leases_ok_found[OF assms(1) found(2)]
        by (auto simp: grant_effect_def lease_ok_def split: if_splits)
    qed
  next
    case fresh
    have m: "packet_matches_record lc doc r"
      by (simp add: fresh packet_matches_record_def record_of_def lease_record.truncate_def new_lease_def)
    show ?thesis
      using body m fresh claim_found[OF fresh(4,2), where rt = rt and env = env and owner = owner and db' = db' and res = res]
        moved_from_fresh[OF fresh(1) _ fresh(6), where now = "env_now env"]
      by (auto simp: grant_effect_def granted_move_def)
  qed
qed

text \<open>What an operation of the owner leaves.\<close>

definition owner_effect ::
    "coordinator \<Rightarrow> pydict \<Rightarrow> string \<Rightarrow> lease_move \<Rightarrow> pm_store \<Rightarrow> pm_store \<Rightarrow> lease_result \<Rightarrow> bool" where
  "owner_effect lc doc h mv db db' res \<longleftrightarrow>
     (res_accepted res \<longrightarrow> view_holder (lease_view (co_project lc) (resource_id_for doc) db) = Some h)
     \<and> (if res_mutated res then res_accepted res \<and> moved (co_project lc) (resource_id_for doc) mv db db'
        else pm_leases db' = pm_leases db)"

lemma not_mutated [simp]: "\<not> res_mutated (invalid_result c msg)" "\<not> res_mutated (refused c msg r)"
  by (simp_all add: invalid_result_def refused_def)

lemma guard_not_mutated: "guard_checks rt rd lc db doc a now b = Some g \<Longrightarrow> \<not> res_mutated g"
  by (auto simp: guard_checks_def Let_def split: if_splits prod.splits)

lemma holder_found:
  "leases_ok db \<Longrightarrow> find_lease p db R = Some q \<Longrightarrow> view_holder (lease_view p R db) = ls_token_hash q"
  using leases_ok_found[of db p R q] by (auto simp: lease_view_def lease_ok_def)

lemma owner_moves:
  assumes "leases_ok db" and "find_lease (co_project lc) db (resource_id_for doc) = Some q"
    and "ls_token_hash q = Some h" and "ls_status q = ''CLAIMED''" and "lease_ok (f q)"
    and "ls_id (f q) = ls_id q" "ls_project (f q) = ls_project q" "ls_resource (f q) = ls_resource q"
    and "view_step mv (row_view (Some q)) (row_view (Some (f q)))"
    and "(case update_lease db (co_project lc) (record_of q) (\<lambda>q. ls_status q = ''CLAIMED'' \<and> ls_token_hash q = Some h) f of
          (db1, n) \<Rightarrow>
            if n \<noteq> 1 then Inr (db1, invalid_result lost_code lost)
            else record_transition lc db1 doc now kind reason missing (\<lambda>l. accepted c msg l None True False)) = Inr (db', res)"
  shows "owner_effect lc doc h mv db db' res"
proof -
  obtain db1 n where u: "update_lease db (co_project lc) (record_of q)
      (\<lambda>q. ls_status q = ''CLAIMED'' \<and> ls_token_hash q = Some h) f = (db1, n)" by fastforce
  note o = owner_update[OF assms(1-4) u]
  have rt: "record_transition lc db1 doc now kind reason missing (\<lambda>l. accepted c msg l None True False) = Inr (db', res)"
    using assms(10) u o by simp
  have "moved (co_project lc) (resource_id_for doc) mv db db'"
    by (rule moved_replace[OF assms(1,2,5-9)]) (use record_transition_leases(1)[OF rt] o in simp)
  then show ?thesis using record_transition_leases(2)[OF rt] holder_found[OF assms(1,2)] assms(3)
    by (auto simp: owner_effect_def)
qed

lemma renew_body_effect:
  assumes "leases_ok db" and "renew_body rt rd lc env doc a h db = Inr (db', res)"
  shows "owner_effect lc doc h (Renew (env_now env) h (env_now env + co_lease_seconds lc * 1000000)) db db' res"
proof (cases "guard_checks rt rd lc db doc a (env_now env) QUEUE_CLAIM")
  case (Some g)
  then show ?thesis using assms(2) guard_refuses[OF Some] guard_not_mutated[OF Some]
    by (auto simp: renew_body_def ebind_Inr_iff owner_effect_def)
next
  case None
  show ?thesis
  proof (cases "select_for_packet lc db doc")
    case n: None
    then show ?thesis using None assms(2) by (auto simp: renew_body_def ebind_Inr_iff owner_effect_def)
  next
    case (Some r)
    obtain q where q: "find_lease (co_project lc) db (resource_id_for doc) = Some q" "r = record_of q"
      using select_found[OF Some] by blast
    note ok = leases_ok_found[OF assms(1) q(1)]
    show ?thesis
    proof (cases "ls_token_hash q = Some h \<and> ls_status q = ''CLAIMED'' \<and> env_now env < ls_expires q")
      case True
      let ?f = "\<lambda>q. q\<lparr>ls_expires := env_now env + co_lease_seconds lc * 1000000, ls_revision := ls_revision r + 1,
                         ls_reason := Some ''RENEWED''\<rparr>"
      show ?thesis
        by (rule owner_moves[where f = ?f, OF assms(1) q(1)])
          (use True ok assms(2) None Some q in \<open>auto simp: lease_ok_def renew_body_def ebind_Inr_iff intro: view_step.intros\<close>)
    next
      case False
      then show ?thesis using None Some q assms(2)
        by (auto simp: renew_body_def ebind_Inr_iff owner_effect_def split: if_splits)
    qed
  qed
qed

lemma release_body_effect:
  assumes "leases_ok db" and "release_body rt lc env doc h reason db = Inr (db', res)"
  shows "owner_effect lc doc h (Release (env_later env) h) db db' res"
proof (cases "select_for_packet lc db doc")
  case None
  then show ?thesis using assms(2) by (auto simp: release_body_def ebind_Inr_iff owner_effect_def)
next
  case (Some r)
  obtain q where q: "find_lease (co_project lc) db (resource_id_for doc) = Some q" "r = record_of q"
    using select_found[OF Some] by blast
  note ok = leases_ok_found[OF assms(1) q(1)]
  show ?thesis
  proof (cases "ls_token_hash q = Some h \<and> ls_status q = ''CLAIMED'' \<and> env_later env < ls_expires q")
    case True
    let ?r = "case bounded_reason (py_str rt reason) of [] \<Rightarrow> ''RELEASED'' | t \<Rightarrow> t"
    let ?f = "\<lambda>q. q\<lparr>ls_holder := [], ls_status := ''AVAILABLE'', ls_owner := None, ls_token_hash := None,
                     ls_revision := ls_revision r + 1, ls_reason := Some (''RELEASE:'' @ ?r), ls_expires := ls_acquired q\<rparr>"
    show ?thesis
      by (rule owner_moves[where f = ?f, OF assms(1) q(1)])
        (use True ok assms(2) Some q in \<open>auto simp: lease_ok_def release_body_def ebind_Inr_iff Let_def intro: view_step.intros\<close>)
  next
    case False
    then show ?thesis using Some q assms(2) ok holder_found[OF assms(1) q(1)]
      by (auto simp: release_body_def ebind_Inr_iff owner_effect_def lease_ok_def split: if_splits)
  qed
qed

lemma complete_body_effect:
  assumes "leases_ok db" and "complete_body lc env doc h db = Inr (db', res)"
  shows "owner_effect lc doc h (Complete (env_now env) h) db db' res"
proof (cases "select_for_packet lc db doc")
  case None
  then show ?thesis using assms(2) by (auto simp: complete_body_def ebind_Inr_iff owner_effect_def)
next
  case (Some r)
  obtain q where q: "find_lease (co_project lc) db (resource_id_for doc) = Some q" "r = record_of q"
    using select_found[OF Some] by blast
  note ok = leases_ok_found[OF assms(1) q(1)]
  show ?thesis
  proof (cases "ls_token_hash q = Some h \<and> ls_status q = ''CLAIMED'' \<and> env_now env < ls_expires q")
    case True
    let ?f = "\<lambda>q. q\<lparr>ls_status := ''COMPLETED'', ls_revision := ls_revision r + 1, ls_reason := Some ''COMPLETED'',
                    ls_completed := Some (env_now env)\<rparr>"
    show ?thesis
      by (rule owner_moves[where f = ?f, OF assms(1) q(1)])
        (use True ok assms(2) Some q in \<open>auto simp: lease_ok_def complete_body_def ebind_Inr_iff intro: view_step.intros\<close>)
  next
    case False
    then show ?thesis using Some q assms(2) holder_found[OF assms(1) q(1)]
      by (auto simp: complete_body_def ebind_Inr_iff owner_effect_def split: if_splits)
  qed
qed

lemma abandon_body_effect:
  assumes "leases_ok db" and "abandon_body rt lc env doc h reason db = Inr (db', res)"
  shows "owner_effect lc doc h (Abandon (env_now env) h) db db' res"
proof (cases "select_for_packet lc db doc")
  case None
  then show ?thesis using assms(2) by (auto simp: abandon_body_def ebind_Inr_iff owner_effect_def)
next
  case (Some r)
  obtain q where q: "find_lease (co_project lc) db (resource_id_for doc) = Some q" "r = record_of q"
    using select_found[OF Some] by blast
  note ok = leases_ok_found[OF assms(1) q(1)]
  show ?thesis
  proof (cases "ls_token_hash q = Some h \<and> ls_status q = ''CLAIMED'' \<and> env_now env < ls_expires q")
    case True
    let ?r = "case bounded_reason (py_str rt reason) of [] \<Rightarrow> ''ABANDONED'' | t \<Rightarrow> t"
    let ?f = "\<lambda>q. q\<lparr>ls_status := ''ABANDONED'', ls_revision := ls_revision r + 1,
                     ls_reason := Some (''ABANDON:'' @ ?r), ls_abandoned := Some (env_now env)\<rparr>"
    show ?thesis
      by (rule owner_moves[where f = ?f, OF assms(1) q(1)])
        (use True ok assms(2) Some q in \<open>auto simp: lease_ok_def abandon_body_def ebind_Inr_iff Let_def intro: view_step.intros\<close>)
  next
    case False
    then show ?thesis using Some q assms(2) holder_found[OF assms(1) q(1)]
      by (auto simp: abandon_body_def ebind_Inr_iff owner_effect_def split: if_splits)
  qed
qed

lemma authorize_body_effect:
  assumes "leases_ok db" and "authorize_body rt rd lc env doc a h db = Inr (db', res)"
  shows "db' = db \<and> (res_accepted res \<longrightarrow> view_holder (lease_view (co_project lc) (resource_id_for doc) db) = Some h
    \<and> (\<exists>g e. lease_view (co_project lc) (resource_id_for doc) db = Held g h e \<and> env_now env < e)
    \<and> guard_checks rt rd lc db doc a (env_now env) DISPATCH_SEND = None)"
proof (cases "guard_checks rt rd lc db doc a (env_now env) DISPATCH_SEND")
  case (Some g)
  then show ?thesis using assms(2) guard_refuses[OF Some] by (auto simp: authorize_body_def ebind_Inr_iff)
next
  case None
  then show ?thesis using assms(2) holder_found[OF assms(1)]
    by (auto simp: authorize_body_def ebind_Inr_iff lease_view_def dest!: select_found split: option.splits if_splits)
qed

section \<open>Calls and steps\<close>

datatype lease_call =
    Call_Claim packet_input authority_input pyval
  | Call_Reclaim packet_input authority_input pyval pyval
  | Call_Renew packet_input authority_input pyval
  | Call_Release packet_input pyval pyval
  | Call_Complete packet_input pyval
  | Call_Abandon packet_input pyval pyval
  | Call_Authorize packet_input authority_input pyval

fun lease_op :: "runtime \<Rightarrow> iso_reader \<Rightarrow> coordinator \<Rightarrow> call_env \<Rightarrow> pm_store \<Rightarrow> lease_call \<Rightarrow> lease_outcome" where
  "lease_op rt rd lc env db (Call_Claim p a owner) = claim rt rd lc env db p a owner"
| "lease_op rt rd lc env db (Call_Reclaim p a owner reason) = reclaim rt rd lc env db p a owner reason"
| "lease_op rt rd lc env db (Call_Renew p a token) = renew rt rd lc env db p a token"
| "lease_op rt rd lc env db (Call_Release p token reason) = release rt rd lc env db p token reason"
| "lease_op rt rd lc env db (Call_Complete p token) = complete rt rd lc env db p token"
| "lease_op rt rd lc env db (Call_Abandon p token reason) = abandon rt rd lc env db p token reason"
| "lease_op rt rd lc env db (Call_Authorize p a token) = authorize_effect rt rd lc env db p a token"

fun call_packet :: "lease_call \<Rightarrow> packet_input" where
  "call_packet (Call_Claim p a owner) = p"
| "call_packet (Call_Reclaim p a owner reason) = p"
| "call_packet (Call_Renew p a token) = p"
| "call_packet (Call_Release p token reason) = p"
| "call_packet (Call_Complete p token) = p"
| "call_packet (Call_Abandon p token reason) = p"
| "call_packet (Call_Authorize p a token) = p"

text \<open>The token the caller presents; a claim and a reclaim need none.\<close>

fun call_token :: "lease_call \<Rightarrow> pyval option" where
  "call_token (Call_Claim p a owner) = None"
| "call_token (Call_Reclaim p a owner reason) = None"
| "call_token (Call_Renew p a token) = Some token"
| "call_token (Call_Release p token reason) = Some token"
| "call_token (Call_Complete p token) = Some token"
| "call_token (Call_Abandon p token reason) = Some token"
| "call_token (Call_Authorize p a token) = Some token"

fun call_guarded :: "lease_call \<Rightarrow> bool" where
  "call_guarded (Call_Release p token reason) = False"
| "call_guarded (Call_Complete p token) = False"
| "call_guarded (Call_Abandon p token reason) = False"
| "call_guarded _ = True"

fun call_move :: "runtime \<Rightarrow> coordinator \<Rightarrow> call_env \<Rightarrow> lease_call \<Rightarrow> lease_move option" where
  "call_move rt lc env (Call_Claim p a owner) = Some (granted_move rt lc env)"
| "call_move rt lc env (Call_Reclaim p a owner reason) = Some (granted_move rt lc env)"
| "call_move rt lc env (Call_Renew p a token) =
     Some (Renew (env_now env) (token_digest rt token) (env_now env + co_lease_seconds lc * 1000000))"
| "call_move rt lc env (Call_Release p token reason) = Some (Release (env_later env) (token_digest rt token))"
| "call_move rt lc env (Call_Complete p token) = Some (Complete (env_now env) (token_digest rt token))"
| "call_move rt lc env (Call_Abandon p token reason) = Some (Abandon (env_now env) (token_digest rt token))"
| "call_move rt lc env (Call_Authorize p a token) = None"

text \<open>One call, whatever it is: it changes no lease, or it was accepted and is the move of its kind
  on the lease of its packet; an accepted call that presents a token presents the holder's.\<close>

definition call_effect ::
    "runtime \<Rightarrow> iso_reader \<Rightarrow> coordinator \<Rightarrow> call_env \<Rightarrow> lease_call \<Rightarrow> pm_store \<Rightarrow> pm_store \<Rightarrow> (string \<times> string + lease_result) \<Rightarrow> bool" where
  "call_effect rt rd lc env c db db' res \<longleftrightarrow>
     (pm_leases db' = pm_leases db \<or>
        (\<exists>doc mv r. canonical_packet rt rd (call_packet c) = Inr doc \<and> call_move rt lc env c = Some mv
           \<and> res = Inr r \<and> res_accepted r \<and> moved (co_project lc) (resource_id_for doc) mv db db'))
     \<and> (\<forall>r token. res = Inr r \<and> res_accepted r \<and> call_token c = Some token \<longrightarrow>
          (\<exists>doc. canonical_packet rt rd (call_packet c) = Inr doc
             \<and> view_holder (lease_view (co_project lc) (resource_id_for doc) db) = Some (token_digest rt token)))"

lemma validate_canonical: "validate rt rd p a now = Inr doc \<Longrightarrow> canonical_packet rt rd p = Inr doc"
  by (auto simp: validate_def ebind_Inr_iff Let_def split: if_splits)

lemma owner_operation_effect:
  assumes "owner_operation rt rd env db p token m c pre body = (db', res)"
    and "\<And>doc db' r. body doc (token_digest rt token) = Inr (db', r)
      \<Longrightarrow> owner_effect lc doc (token_digest rt token) mv db db' r"
    and "call_packet cl = p" "call_token cl = Some token" "call_move rt lc env cl = Some mv"
  shows "call_effect rt rd lc env cl db db' res"
proof (cases "canonical_packet rt rd p")
  case (Inl err)
  then show ?thesis using assms(1) by (auto simp: owner_operation_def call_effect_def)
next
  case (Inr doc)
  show ?thesis
  proof (cases "token_digest rt token = []")
    case True
    then show ?thesis using Inr assms(1) by (auto simp: owner_operation_def call_effect_def)
  next
    case False
    then have "transaction env (\<lambda>t. invalid_result c (pre @ t)) db (body doc (token_digest rt token)) = (db', res)"
      using Inr assms(1) by (simp add: owner_operation_def)
    then show ?thesis
    proof (cases rule: transactionE)
      case (committed r)
      then show ?thesis using assms(2)[OF committed(2)] assms(3-5) Inr
        by (auto simp: owner_effect_def call_effect_def split: if_splits)
    qed (simp_all add: call_effect_def)
  qed
qed

lemma grant_operation_effect:
  assumes "transaction env failed db body = (db', res)" and "\<And>t. \<not> res_accepted (failed t)"
    and "\<And>db' r. body = Inr (db', r) \<Longrightarrow> grant_effect rt lc env doc db db' r"
    and "canonical_packet rt rd (call_packet cl) = Inr doc" "call_token cl = None"
      "call_move rt lc env cl = Some (granted_move rt lc env)"
  shows "call_effect rt rd lc env cl db db' res"
  using assms(1)
proof (cases rule: transactionE)
  case (committed r)
  then show ?thesis using assms(3)[OF committed(2)] assms(4-6)
    by (auto simp: grant_effect_def call_effect_def split: if_splits)
qed (simp_all add: call_effect_def assms(2))

lemma lease_op_effect:
  assumes "leases_ok db" and "lease_op rt rd lc env db c = (db', res)"
  shows "call_effect rt rd lc env c db db' res"
proof (cases c)
  case c: (Call_Claim p a owner)
  show ?thesis
  proof (cases "nonblank owner")
    case True
    show ?thesis
    proof (cases "validate rt rd p a (env_now env)")
      case (Inr doc)
      show ?thesis
        by (rule grant_operation_effect[OF _ _ claim_body_effect[OF assms(1)]])
          (use c True Inr assms(2) validate_canonical[OF Inr] in \<open>auto simp: claim_def\<close>)
    qed (use c True assms(2) in \<open>auto simp: claim_def call_effect_def\<close>)
  qed (use c assms(2) in \<open>auto simp: claim_def call_effect_def\<close>)
next
  case c: (Call_Reclaim p a owner reason)
  show ?thesis
  proof (cases "nonblank owner \<and> nonblank reason")
    case True
    show ?thesis
    proof (cases "validate rt rd p a (env_now env)")
      case (Inr doc)
      show ?thesis
        by (rule grant_operation_effect[OF _ _ reclaim_body_effect[OF assms(1)]])
          (use c True Inr assms(2) validate_canonical[OF Inr] in \<open>auto simp: reclaim_def\<close>)
    qed (use c True assms(2) in \<open>auto simp: reclaim_def call_effect_def\<close>)
  qed (use c assms(2) in \<open>auto simp: reclaim_def call_effect_def split: if_splits\<close>)
next
  case c: (Call_Renew p a token)
  show ?thesis
  proof (cases "validate rt rd p a (env_now env)")
    case (Inl e)
    then show ?thesis using c assms(2) by (cases e) (auto simp: renew_def call_effect_def)
  next
    case (Inr doc)
    show ?thesis
      by (rule owner_operation_effect[where body = "\<lambda>doc h. renew_body rt rd lc env doc a h db",
            OF _ renew_body_effect[OF assms(1)]])
        (use c Inr assms(2) validate_canonical[OF Inr] in \<open>auto simp: renew_def owner_operation_def\<close>)
  qed
next
  case c: (Call_Release p token reason)
  show ?thesis
    by (rule owner_operation_effect[OF _ release_body_effect[OF assms(1)]]) (use c assms(2) in \<open>auto simp: release_def\<close>)
next
  case c: (Call_Complete p token)
  show ?thesis
    by (rule owner_operation_effect[OF _ complete_body_effect[OF assms(1)]]) (use c assms(2) in \<open>auto simp: complete_def\<close>)
next
  case c: (Call_Abandon p token reason)
  show ?thesis
    by (rule owner_operation_effect[OF _ abandon_body_effect[OF assms(1)]]) (use c assms(2) in \<open>auto simp: abandon_def\<close>)
next
  case c: (Call_Authorize p a token)
  show ?thesis
  proof (cases "validate rt rd p a (env_now env)")
    case (Inl e)
    then show ?thesis using c assms(2) by (cases e) (auto simp: authorize_effect_def call_effect_def)
  next
    case (Inr doc)
    then have "res = Inr (invalid_result ''OWNER_TOKEN_INVALID'' ''effect authorization requires the opaque owner token'') \<and> db' = db
      \<or> transaction env (\<lambda>t. invalid_result ''EFFECT_AUTHORIZATION_FAILED'' (''effect authorization failed closed: '' @ t))
           db (authorize_body rt rd lc env doc a (token_digest rt token) db) = (db', res)"
      using c assms(2) by (auto simp: authorize_effect_def split: if_splits)
    then show ?thesis
    proof
      assume "transaction env (\<lambda>t. invalid_result ''EFFECT_AUTHORIZATION_FAILED'' (''effect authorization failed closed: '' @ t))
           db (authorize_body rt rd lc env doc a (token_digest rt token) db) = (db', res)"
      then show ?thesis
      proof (cases rule: transactionE)
        case (committed r)
        then show ?thesis using authorize_body_effect[OF assms(1) committed(2)] c validate_canonical[OF Inr]
          by (auto simp: call_effect_def)
      qed (simp_all add: call_effect_def)
    qed (auto simp: call_effect_def)
  qed
qed

section \<open>The contract of a lease\<close>

text \<open>What the users of a lease rely on: every step is a move of the abstract lease, by the caller
  its label names, or leaves the lease alone. The steps considered are those whose label satisfies
  a condition.\<close>

definition steps_by :: "('c \<Rightarrow> 's \<Rightarrow> 's \<Rightarrow> bool) \<Rightarrow> ('c \<Rightarrow> bool) \<Rightarrow> 's \<Rightarrow> 's \<Rightarrow> bool" where
  "steps_by step P = (\<lambda>s t. \<exists>c. P c \<and> step c s t)\<^sup>*\<^sup>*"

locale lease_contract =
  fixes step :: "'c \<Rightarrow> 's \<Rightarrow> 's \<Rightarrow> bool"
    and view :: "'s \<Rightarrow> lease_view"
    and inv :: "'s \<Rightarrow> bool"
    and move :: "'c \<Rightarrow> lease_move option"
  assumes inv_kept: "inv s \<Longrightarrow> step c s t \<Longrightarrow> inv t"
    and refines: "inv s \<Longrightarrow> step c s t \<Longrightarrow>
      view t = view s \<or> (\<exists>mv. move c = Some mv \<and> view_step mv (view s) (view t))"
begin

lemma steps_by_induct [consumes 2, case_names refl step]:
  assumes "steps_by step P s t" and "inv s" and "Q s"
    and "\<And>c t u. inv t \<Longrightarrow> Q t \<Longrightarrow> P c \<Longrightarrow> step c t u \<Longrightarrow> Q u"
  shows "Q t \<and> inv t"
  using assms(1)[unfolded steps_by_def]
proof (induction rule: rtranclp_induct)
  case (step t u)
  then show ?case using assms(4) inv_kept by blast
qed (use assms in simp)

lemma terminal_frozen:
  assumes "steps_by step P s t" and "inv s" and "view s \<in> {Completed g h, Abandoned g h}"
  shows "view t = view s"
proof -
  have "view t = view s \<and> inv t" using assms(1,2)
  proof (induction rule: steps_by_induct)
    case (step c t u)
    then show ?case using refines[OF step(1,4)] assms(3) by (auto elim: view_stepE)
  qed simp
  then show ?thesis by simp
qed

text \<open>A holder keeps the lease against everybody else until it expires.\<close>

lemma held_until_expiry:
  assumes "steps_by step P s t" and "inv s" and "view s = Held g h e"
    and "\<And>c mv. P c \<Longrightarrow> move c = Some mv \<Longrightarrow> (case mv of Grant now h' e' \<Rightarrow> now < e | Renew now h' e' \<Rightarrow> h' \<noteq> h
      | Release now h' \<Rightarrow> h' \<noteq> h | Complete now h' \<Rightarrow> h' \<noteq> h | Abandon now h' \<Rightarrow> h' \<noteq> h)"
  shows "view t = Held g h e"
proof -
  have "view t = Held g h e \<and> inv t" using assms(1,2)
  proof (induction rule: steps_by_induct)
    case (step c t u)
    then show ?case using refines[OF step(1,4)] assms(4)[OF step(3)] by (fastforce elim: view_stepE)
  qed (rule assms(3))
  then show ?thesis by simp
qed

text \<open>Generations only grow, and once a lease has been granted again an earlier holder, whose token
  is not issued a second time, is not the holder.\<close>

lemma stale_holder:
  assumes "steps_by step P s t" and "inv s" and "\<And>c now e. P c \<Longrightarrow> move c \<noteq> Some (Grant now h e)"
  shows "view_generation (view s) \<le> view_generation (view t)
    \<and> (view_generation (view s) < view_generation (view t) \<longrightarrow> view_holder (view t) \<noteq> Some h)"
proof -
  have "(view_generation (view s) \<le> view_generation (view t)
    \<and> (view_generation (view s) < view_generation (view t) \<longrightarrow> view_holder (view t) \<noteq> Some h)) \<and> inv t"
    using assms(1,2)
  proof (induction rule: steps_by_induct)
    case (step c t u)
    have "\<forall>now e. move c \<noteq> Some (Grant now h e)" using assms(3)[OF step(3)] by blast
    then show ?case using step(2) refines[OF step(1,4)] by (auto elim!: view_stepE)
  qed simp
  then show ?thesis by simp
qed

end

text \<open>The steps of the store: a call of any coordinator, or any writer that leaves the leases alone
  (STOP, resume, send intents).\<close>

datatype lease_label = Lease_Call coordinator call_env lease_call | Other_Writer

inductive lease_step :: "runtime \<Rightarrow> iso_reader \<Rightarrow> lease_label \<Rightarrow> pm_store \<Rightarrow> pm_store \<Rightarrow> bool"
  for rt :: runtime and rd :: iso_reader where
  lease_call: "lease_op rt rd lc env db c = (db', res) \<Longrightarrow> lease_step rt rd (Lease_Call lc env c) db db'"
| other_writer: "pm_leases db' = pm_leases db \<Longrightarrow> lease_step rt rd Other_Writer db db'"

inductive_cases lease_stepE: "lease_step rt rd l db db'"

fun label_move :: "runtime \<Rightarrow> lease_label \<Rightarrow> lease_move option" where
  "label_move rt (Lease_Call lc env c) = call_move rt lc env c"
| "label_move rt Other_Writer = None"

lemma leases_ok_cong: "pm_leases db' = pm_leases db \<Longrightarrow> leases_ok db' = leases_ok db"
  by (simp add: leases_ok_def)

lemma lease_view_cong: "pm_leases db' = pm_leases db \<Longrightarrow> lease_view p R db' = lease_view p R db"
  by (simp add: lease_view_def find_lease_def)

lemma lease_op_view:
  assumes "leases_ok db" and "lease_op rt rd lc env db c = (db', res)"
  shows "leases_ok db' \<and> (lease_view p R db' = lease_view p R db \<or>
    p = co_project lc \<and> (\<exists>doc. canonical_packet rt rd (call_packet c) = Inr doc \<and> R = resource_id_for doc)
    \<and> (\<exists>r mv. res = Inr r \<and> res_accepted r \<and> call_move rt lc env c = Some mv
         \<and> view_step mv (lease_view p R db) (lease_view p R db')))"
proof -
  consider (same) "pm_leases db' = pm_leases db"
    | (moved) doc mv r where "canonical_packet rt rd (call_packet c) = Inr doc" "call_move rt lc env c = Some mv"
        "res = Inr r" "res_accepted r" "moved (co_project lc) (resource_id_for doc) mv db db'"
    using lease_op_effect[OF assms] unfolding call_effect_def by blast
  then show ?thesis
  proof cases
    case same
    then show ?thesis using assms(1) leases_ok_cong lease_view_cong by blast
  next
    case moved
    then show ?thesis by (cases "p = co_project lc \<and> R = resource_id_for doc") (auto simp: moved_def lease_view_def)
  qed
qed

interpretation lease: lease_contract "lease_step rt rd" "lease_view p R" leases_ok "label_move rt" for rt rd p R
proof
  fix s c t
  assume ok: "leases_ok s" and st: "lease_step rt rd c s t"
  from st show "leases_ok t"
    by cases (use ok lease_op_view leases_ok_cong in blast)+
  from st show "lease_view p R t = lease_view p R s \<or>
      (\<exists>mv. label_move rt c = Some mv \<and> view_step mv (lease_view p R s) (lease_view p R t))"
  proof cases
    case (lease_call lc env c' res)
    then show ?thesis using lease_op_view[OF ok lease_call(2), of p R] by auto
  next
    case other_writer
    then show ?thesis using lease_view_cong by blast
  qed
qed

lemma granted_call:
  assumes "leases_ok db" and "lease_op rt rd lc env db c = (db1, Inr r)" and "res_accepted r" and "call_token c = None"
    and "canonical_packet rt rd (call_packet c) = Inr doc"
  shows "moved (co_project lc) (resource_id_for doc) (granted_move rt lc env) db db1 \<and> res_token r = Some (env_token env)"
proof -
  have "\<exists>failed body. transaction env failed db body = (db1, Inr r) \<and> (\<forall>t. \<not> res_accepted (failed t))
      \<and> (\<forall>db' r. body = Inr (db', r) \<longrightarrow> grant_effect rt lc env doc db db' r)"
  proof (cases c)
    case (Call_Claim p a owner)
    then show ?thesis
      using assms(2-5) claim_body_effect[OF assms(1)]
      by (auto simp: claim_def dest!: validate_canonical split: if_splits sum.splits prod.splits)
         (metis refused_simps(1))+
  next
    case (Call_Reclaim p a owner reason)
    then show ?thesis
      using assms(2-5) reclaim_body_effect[OF assms(1)]
      by (auto simp: reclaim_def dest!: validate_canonical split: if_splits sum.splits prod.splits)
         (metis refused_simps(1))+
  qed (use assms(4) in simp_all)
  then obtain failed body where t: "transaction env failed db body = (db1, Inr r)"
      "\<And>t. \<not> res_accepted (failed t)" "\<And>db' r. body = Inr (db', r) \<Longrightarrow> grant_effect rt lc env doc db db' r"
    by blast
  from t(1) show ?thesis
  proof (cases rule: transactionE)
    case (committed r')
    then show ?thesis using t(3)[OF committed(2)] assms(3) by (auto simp: grant_effect_def)
  qed (use t(2) assms(3) in auto)
qed

section \<open>Properties\<close>

text \<open>A store with one project and no lease, a coordinator and a caller, for the examples.\<close>

definition sample_pm :: pm_store where
  "sample_pm = \<lparr>pm_scope = sample_store, pm_projects = [\<lparr>pr_id = ''p'', pr_revision = 1, pr_updated_at = 0\<rparr>],
     pm_leases = [], pm_bindings = [''b1'']\<rparr>"

definition sample_coordinator :: coordinator where
  "sample_coordinator = \<lparr>co_project = ''p'', co_lease_seconds = 30, co_enforce = True\<rparr>"

definition env_at :: "int \<Rightarrow> nat \<Rightarrow> call_env" where
  "env_at now n = \<lparr>env_now = now, env_later = now, env_busy = False, env_text = [], env_token = replicate n (CHR ''t'')\<rparr>"

definition sample_claim :: lease_outcome where
  "sample_claim = claim sample_runtime sample_reader sample_coordinator (env_at 1 43) sample_pm
     (Typed_Packet sample_packet) (Snapshot sample_authority) (PStr ''worker'')"

lemma sample_packet_epoch: "pk_int sample_packet ''scope_epoch'' = 1"
  by (simp add: pk_int_def sample_packet_def py_get_with_digest is_digest_field_def) (simp add: sample_raw_def py_get_def)

lemma sample_guard:
  assumes "now < 60000000" and "scope_cursors (pm_scope db) = [sample_cursor]" "stop_fences (pm_scope db) = []"
  shows "guard_checks sample_runtime sample_reader sample_coordinator db sample_packet (Snapshot sample_authority) now b = None"
proof -
  have u: "upper ''ACTIVE'' = ''ACTIVE''" by code_simp
  have "check_allowed (check (pm_scope db) ''p'' 1 b)"
    using assms by (simp add: check_allowed_iff find_cursor_def find_fence_def sample_cursor_def is_stopped_def)
  then have "fst (stop_check sample_runtime sample_coordinator db (Snapshot sample_authority) 1 b)"
    by (simp add: stop_check_def authority_value_def sample_authority_def py_get_default_def py_str_def u sample_coordinator_def Let_def)
  then show ?thesis using sample_packet_valid[OF assms(1) sample_packet_size]
    by (cases "stop_check sample_runtime sample_coordinator db (Snapshot sample_authority) 1 b")
      (simp add: guard_checks_def sample_packet_epoch)
qed

lemma sample_validate:
  "now < 60000000 \<Longrightarrow>
     validate sample_runtime sample_reader (Typed_Packet sample_packet) (Snapshot sample_authority) now = Inr sample_packet"
  using sample_packet_valid[OF _ sample_packet_size] by (simp add: validate_def canonical_packet_def)

lemma sample_claim_accepted: "\<exists>db' r. sample_claim = (db', Inr r) \<and> res_accepted r"
proof -
  have "nonblank (PStr ''worker'')" by code_simp
  moreover have "guard_checks sample_runtime sample_reader sample_coordinator sample_pm sample_packet (Snapshot sample_authority) 1 QUEUE_CLAIM = None"
    by (rule sample_guard) (simp_all add: sample_pm_def sample_store_def)
  ultimately show ?thesis
    unfolding sample_claim_def claim_def
    by (simp add: sample_validate env_at_def transaction_def claim_body_def ensure_project_def find_project_def
        open_lease_def select_for_packet_def find_lease_def packet_matches_record_def record_of_def lease_record.truncate_def
        new_lease_def update_lease_def claimed_twice_def record_transition_def bump_project_revision_def append_audit_def
        insert_audit_def lease_event_def next_event_revision_def grant_def sample_pm_def sample_store_def sample_coordinator_def Let_def)
qed

text \<open>C25: The detailed operations implement the abstract lease. On a table with one row per key, any
  call of any of the seven operations keeps the table well formed and, for every project and
  continuation, either shows the same abstract lease afterwards or was accepted and is the one abstract
  move of its kind, made at the caller's instant, on the lease of the caller's project and packet:
  a grant to a new token of an absent, free or expired lease, or a renewal, release, completion or abandonment by
  the holder before expiry.\<close>

theorem lease_operations_refine:
  assumes "leases_ok db" and "lease_op rt rd lc env db c = (db', res)"
  shows "leases_ok db' \<and> (lease_view p R db' = lease_view p R db \<or>
    p = co_project lc \<and> (\<exists>doc. canonical_packet rt rd (call_packet c) = Inr doc \<and> R = resource_id_for doc)
    \<and> (\<exists>r mv. res = Inr r \<and> res_accepted r \<and> call_move rt lc env c = Some mv
         \<and> view_step mv (lease_view p R db) (lease_view p R db')))"
  using assms by (rule lease_op_view)

text \<open>C25 applied to the first claim of the example packet.\<close>

theorem lease_operations_refine_witness:
  "leases_ok sample_pm \<and> leases_ok (fst sample_claim)"
proof -
  have ok: "leases_ok sample_pm" by (simp add: leases_ok_def sample_pm_def)
  have "lease_op sample_runtime sample_reader sample_coordinator (env_at 1 43) sample_pm
      (Call_Claim (Typed_Packet sample_packet) (Snapshot sample_authority) (PStr ''worker'')) = (fst sample_claim, snd sample_claim)"
    by (simp add: sample_claim_def)
  from lease_operations_refine[OF ok this] ok show ?thesis by blast
qed

text \<open>C20: Mutual exclusion in time. After an accepted claim or reclaim the lease is held under
  the digest of the token the caller got, until \<open>lease_seconds\<close> later, and it stays exactly so through
  any sequence of steps by others: calls of any coordinators before the expiry that do not
  present that token, and writers that leave the leases alone. In particular nobody else is granted the
  continuation before the expiry.\<close>

theorem owner_excludes_others_until_expiry:
  assumes "leases_ok db" and "lease_op rt rd lc env db c = (db1, Inr r)" and "res_accepted r" and "call_token c = None"
    and "canonical_packet rt rd (call_packet c) = Inr doc"
    and "steps_by (lease_step rt rd) (\<lambda>l. case l of Other_Writer \<Rightarrow> True
        | Lease_Call lc' env' c' \<Rightarrow> env_now env' < env_now env + co_lease_seconds lc * 1000000
            \<and> (case call_token c' of None \<Rightarrow> True
               | Some token \<Rightarrow> token_digest rt token \<noteq> token_digest rt (PStr (env_token env)))) db1 db2"
  shows "res_token r = Some (env_token env)
    \<and> (\<exists>g. lease_view (co_project lc) (resource_id_for doc) db2
         = Held g (token_digest rt (PStr (env_token env))) (env_now env + co_lease_seconds lc * 1000000))"
proof -
  let ?e = "env_now env + co_lease_seconds lc * 1000000" and ?h = "token_digest rt (PStr (env_token env))"
  let ?v = "lease_view (co_project lc) (resource_id_for doc)"
  have g: "moved (co_project lc) (resource_id_for doc) (granted_move rt lc env) db db1 \<and> res_token r = Some (env_token env)"
    using granted_call[OF assms(1-5)] .
  then obtain g where v: "?v db1 = Held g ?h ?e"
    by (auto simp: moved_def granted_move_def elim: view_stepE)
  have "?v db2 = Held g ?h ?e"
  proof (rule lease.held_until_expiry[OF assms(6) _ v])
    show "leases_ok db1" using g by (simp add: moved_def)
    show "case mv of Grant now h' e' \<Rightarrow> now < ?e | Renew now h' e' \<Rightarrow> h' \<noteq> ?h | Release now h' \<Rightarrow> h' \<noteq> ?h
        | Complete now h' \<Rightarrow> h' \<noteq> ?h | Abandon now h' \<Rightarrow> h' \<noteq> ?h"
      if P: "case l of Other_Writer \<Rightarrow> True
        | Lease_Call lc' env' c' \<Rightarrow> env_now env' < ?e
            \<and> (case call_token c' of None \<Rightarrow> True | Some token \<Rightarrow> token_digest rt token \<noteq> ?h)"
        and m: "label_move rt l = Some mv" for l mv
    proof (cases l)
      case (Lease_Call lc' env' c')
      then show ?thesis using P m by (cases c') (auto simp: granted_move_def)
    qed (use m in simp)
  qed
  then show ?thesis using g by blast
qed

text \<open>C20 applied to the claim of the example packet followed by a rival's claim a microsecond later.\<close>

theorem owner_excludes_others_until_expiry_witness:
  "\<exists>db2 res g. claim sample_runtime sample_reader sample_coordinator (env_at 2 44) (fst sample_claim)
      (Typed_Packet sample_packet) (Snapshot sample_authority) (PStr ''rival'') = (db2, res)
    \<and> lease_view ''p'' (resource_id_for sample_packet) db2
        = Held g (token_digest sample_runtime (PStr (replicate 43 (CHR ''t'')))) 30000001"
proof -
  obtain db1 r where c: "sample_claim = (db1, Inr r)" "res_accepted r" using sample_claim_accepted by blast
  let ?c = "Call_Claim (Typed_Packet sample_packet) (Snapshot sample_authority) (PStr ''worker'')"
  have ok: "leases_ok sample_pm" by (simp add: leases_ok_def sample_pm_def)
  have one: "lease_op sample_runtime sample_reader sample_coordinator (env_at 1 43) sample_pm ?c = (db1, Inr r)"
    using c(1) by (simp add: sample_claim_def)
  obtain db2 res where two: "claim sample_runtime sample_reader sample_coordinator (env_at 2 44) db1
      (Typed_Packet sample_packet) (Snapshot sample_authority) (PStr ''rival'') = (db2, res)" by fastforce
  have st: "lease_step sample_runtime sample_reader (Lease_Call sample_coordinator (env_at 2 44)
      (Call_Claim (Typed_Packet sample_packet) (Snapshot sample_authority) (PStr ''rival''))) db1 db2"
    by (rule lease_call[of _ _ _ _ _ _ _ res]) (simp add: two)
  obtain g where g: "lease_view (co_project sample_coordinator) (resource_id_for sample_packet) db2
      = Held g (token_digest sample_runtime (PStr (env_token (env_at 1 43))))
          (env_now (env_at 1 43) + co_lease_seconds sample_coordinator * 1000000)"
    by (rule exE[OF owner_excludes_others_until_expiry[OF ok one c(2), THEN conjunct2]])
      (use st in \<open>auto simp: canonical_packet_def steps_by_def env_at_def sample_coordinator_def intro!: r_into_rtranclp exI[of _
        "Lease_Call sample_coordinator (env_at 2 44) (Call_Claim (Typed_Packet sample_packet) (Snapshot sample_authority) (PStr ''rival''))"]\<close>)
  have "lease_view ''p'' (resource_id_for sample_packet) db2
      = Held g (token_digest sample_runtime (PStr (replicate 43 (CHR ''t'')))) 30000001"
    using g by (simp add: env_at_def sample_coordinator_def)
  then show ?thesis using two by (intro exI[of _ db2] exI[of _ res] exI[of _ g]) (simp add: c(1))
qed

text \<open>C23: A stale owner can do nothing. Once a lease has been granted again, which its generation
  shows, the earlier token (not issued a second time) is refused by every operation that takes a
  token, at every later instant and whatever happened in between, and the refusal changes no lease.
  Generations never decrease.\<close>

theorem stale_owner_refused:
  assumes "leases_ok db"
    and "steps_by (lease_step rt rd) (\<lambda>l. case l of Other_Writer \<Rightarrow> True
        | Lease_Call lc' env' c' \<Rightarrow> token_digest rt (PStr (env_token env')) \<noteq> token_digest rt token) db db2"
    and "canonical_packet rt rd (call_packet c) = Inr doc" and "call_token c = Some token"
    and "lease_op rt rd lc env db2 c = (db3, res)"
  shows "view_generation (lease_view (co_project lc) (resource_id_for doc) db)
      \<le> view_generation (lease_view (co_project lc) (resource_id_for doc) db2)
    \<and> (view_generation (lease_view (co_project lc) (resource_id_for doc) db)
      < view_generation (lease_view (co_project lc) (resource_id_for doc) db2)
      \<longrightarrow> (case res of Inl err \<Rightarrow> True | Inr r \<Rightarrow> \<not> res_accepted r) \<and> pm_leases db3 = pm_leases db2)"
proof -
  let ?v = "lease_view (co_project lc) (resource_id_for doc)"
  have new: "label_move rt l \<noteq> Some (Grant now (token_digest rt token) e)"
    if P: "case l of Other_Writer \<Rightarrow> True
      | Lease_Call lc' env' c' \<Rightarrow> token_digest rt (PStr (env_token env')) \<noteq> token_digest rt token" for l now e
  proof (cases l)
    case (Lease_Call lc' env' c')
    then show ?thesis using P by (cases c') (auto simp: granted_move_def)
  qed simp
  note sh = lease.stale_holder[OF assms(2,1) new, where p = "co_project lc" and R = "resource_id_for doc"]
  have ok: "leases_ok db2"
    using lease.steps_by_induct[OF assms(2,1), where Q = "\<lambda>_. True"] by blast
  show ?thesis using sh lease_op_effect[OF ok assms(5)] assms(3,4) by (auto simp: call_effect_def split: sum.splits)
qed

text \<open>The store after that claim, written out, and its reclaim after the expiry.\<close>

definition held_pm :: pm_store where
  "held_pm = sample_pm\<lparr>pm_leases := [grant sample_runtime sample_coordinator (env_at 1 43) (PStr ''worker'') 1 2 ''CLAIMED''
     (new_lease sample_runtime sample_coordinator sample_packet 1)]\<rparr>"

definition sample_reclaim :: lease_outcome where
  "sample_reclaim = reclaim sample_runtime sample_reader sample_coordinator (env_at 40000000 44) held_pm
     (Typed_Packet sample_packet) (Snapshot sample_authority) (PStr ''rival'') (PStr ''owner lost'')"

lemma held_pm_view:
  "leases_ok held_pm" "lease_view ''p'' (resource_id_for sample_packet) held_pm
     = Held 1 (token_digest sample_runtime (PStr (replicate 43 (CHR ''t'')))) 30000001"
  by (simp_all add: held_pm_def leases_ok_def lease_ok_grant lease_view_def find_lease_def sample_coordinator_def env_at_def)

lemma sample_reclaim_accepted: "\<exists>db' r. sample_reclaim = (db', Inr r) \<and> res_accepted r"
proof -
  have "nonblank (PStr ''rival'')" "nonblank (PStr ''owner lost'')" by code_simp+
  moreover have "guard_checks sample_runtime sample_reader sample_coordinator held_pm sample_packet (Snapshot sample_authority) 40000000 QUEUE_CLAIM = None"
    by (rule sample_guard) (simp_all add: held_pm_def sample_pm_def sample_store_def)
  ultimately show ?thesis
    unfolding sample_reclaim_def reclaim_def
    by (simp add: sample_validate env_at_def transaction_def reclaim_body_def ensure_project_def find_project_def
        select_for_packet_def find_lease_def record_of_def lease_record.truncate_def
        new_lease_def update_lease_def claimed_twice_def record_transition_def bump_project_revision_def append_audit_def
        insert_audit_def lease_event_def next_event_revision_def grant_def sample_pm_def held_pm_def sample_store_def
        sample_coordinator_def Let_def)
qed

text \<open>C23 applied to the reclaim of an expired lease and the first owner's attempt to complete it.\<close>

theorem stale_owner_refused_witness:
  "\<exists>db3 res. complete sample_runtime sample_reader sample_coordinator (env_at 40000001 50) (fst sample_reclaim)
      (Typed_Packet sample_packet) (PStr (replicate 43 (CHR ''t''))) = (db3, res)
    \<and> (case res of Inl err \<Rightarrow> True | Inr r \<Rightarrow> \<not> res_accepted r) \<and> pm_leases db3 = pm_leases (fst sample_reclaim)"
proof -
  let ?tok = "PStr (replicate 43 (CHR ''t''))"
  let ?rc = "Call_Reclaim (Typed_Packet sample_packet) (Snapshot sample_authority) (PStr ''rival'') (PStr ''owner lost'')"
  obtain db2 r2 where c: "sample_reclaim = (db2, Inr r2)" "res_accepted r2" using sample_reclaim_accepted by blast
  have op: "lease_op sample_runtime sample_reader sample_coordinator (env_at 40000000 44) held_pm ?rc = (db2, Inr r2)"
    using c(1) by (simp add: sample_reclaim_def)
  have dig: "token_digest sample_runtime (PStr (replicate 44 (CHR ''t''))) \<noteq> token_digest sample_runtime ?tok" by code_simp
  have "lease_step sample_runtime sample_reader (Lease_Call sample_coordinator (env_at 40000000 44) ?rc) held_pm db2"
    using op by (rule lease_call)
  then have st: "steps_by (lease_step sample_runtime sample_reader) (\<lambda>l. case l of Other_Writer \<Rightarrow> True
        | Lease_Call lc' env' c' \<Rightarrow> token_digest sample_runtime (PStr (env_token env')) \<noteq> token_digest sample_runtime ?tok) held_pm db2"
    using dig unfolding steps_by_def by (intro r_into_rtranclp exI conjI) (auto simp: env_at_def)
  have "moved ''p'' (resource_id_for sample_packet) (granted_move sample_runtime sample_coordinator (env_at 40000000 44)) held_pm db2"
    using granted_call[OF held_pm_view(1) op c(2)] by (simp add: canonical_packet_def sample_coordinator_def)
  then have g: "view_generation (lease_view ''p'' (resource_id_for sample_packet) db2) = 2"
    using held_pm_view(2) by (auto simp: moved_def granted_move_def elim: view_stepE)
  obtain db3 res where d: "complete sample_runtime sample_reader sample_coordinator (env_at 40000001 50) db2
      (Typed_Packet sample_packet) ?tok = (db3, res)" by fastforce
  have op3: "lease_op sample_runtime sample_reader sample_coordinator (env_at 40000001 50) db2
      (Call_Complete (Typed_Packet sample_packet) ?tok) = (db3, res)" using d by simp
  have "(case res of Inl err \<Rightarrow> True | Inr r \<Rightarrow> \<not> res_accepted r) \<and> pm_leases db3 = pm_leases db2"
    using stale_owner_refused[OF held_pm_view(1) st _ _ op3, of sample_packet] g held_pm_view(2)
    by (simp add: canonical_packet_def sample_coordinator_def)
  then show ?thesis using d by (intro exI[of _ db3] exI[of _ res]) (simp add: c(1))
qed

lemma guard_passed:
  assumes "guard_checks rt rd lc db doc a now b = None" and "co_enforce lc"
  shows "check_allowed (check (pm_scope db) (co_project lc) (pk_int doc ''scope_epoch'') b)"
  using assms by (auto simp: guard_checks_def stop_check_def Let_def split: if_splits prod.splits)

text \<open>An accepted guarded call found the boundary open.\<close>

lemma accepted_transaction:
  assumes "transaction env failed db body = (db', Inr r)" and "res_accepted r" and "\<And>t. \<not> res_accepted (failed t)"
  shows "body = Inr (db', r)"
  using assms(1) by (cases rule: transactionE) (use assms(2,3) in auto)

lemma accepted_guarded:
  assumes "lease_op rt rd lc env db c = (db', Inr r)" and "res_accepted r" and "call_guarded c" and "co_enforce lc"
  shows "\<exists>e b. check_allowed (check (pm_scope db) (co_project lc) e b)"
proof -
  have body: "\<exists>doc a b. guard_checks rt rd lc db doc a (env_now env) b = None"
  proof (cases c)
    case c: (Call_Claim p a owner)
    then obtain doc where "claim_body rt rd lc env doc a owner db = Inr (db', r)"
      using assms by (auto simp: claim_def split: if_splits sum.splits prod.splits dest!: accepted_transaction)
    then show ?thesis using assms(2) guard_refuses
      by (auto simp: claim_body_def ebind_Inr_iff split: option.splits)
  next
    case c: (Call_Reclaim p a owner reason)
    then obtain doc where "reclaim_body rt rd lc env doc a owner (py_str rt reason) db = Inr (db', r)"
      using assms by (auto simp: reclaim_def split: if_splits sum.splits prod.splits dest!: accepted_transaction)
    then show ?thesis using assms(2) guard_refuses
      by (auto simp: reclaim_body_def ebind_Inr_iff split: option.splits)
  next
    case c: (Call_Renew p a token)
    then obtain doc where "renew_body rt rd lc env doc a (token_digest rt token) db = Inr (db', r)"
      using assms by (auto simp: renew_def split: if_splits sum.splits prod.splits dest!: accepted_transaction)
    then show ?thesis using assms(2) guard_refuses
      by (auto simp: renew_body_def ebind_Inr_iff split: option.splits)
  next
    case c: (Call_Authorize p a token)
    then obtain doc where "authorize_body rt rd lc env doc a (token_digest rt token) db = Inr (db', r)"
      using assms by (auto simp: authorize_effect_def split: if_splits sum.splits prod.splits dest!: accepted_transaction)
    then show ?thesis using assms(2) guard_refuses
      by (auto simp: authorize_body_def ebind_Inr_iff split: option.splits)
  qed (use assms(3) in simp_all)
  then show ?thesis using guard_passed assms(4) by blast
qed

text \<open>STOP reaches the leases: when a STOP of the project has returned, a coordinator of that
  project that enforces the fence accepts no claim, reclaim, renewal or effect authorization, whatever packet,
  authority snapshot, token or clock the caller supplies, and the attempt changes no lease.\<close>

lemma stop_refuses_lease_calls:
  assumes "execute_stop_transaction (pm_scope db) (co_project lc) expected reason actor now u1 u2 = (sc, Inr (f, replay))"
    and "leases_ok db" and "co_enforce lc" and "call_guarded c"
    and "lease_op rt rd lc env (db\<lparr>pm_scope := sc\<rparr>) c = (db', res)"
  shows "(case res of Inl err \<Rightarrow> True | Inr r \<Rightarrow> \<not> res_accepted r) \<and> pm_leases db' = pm_leases db"
proof -
  have no: "\<not> res_accepted r" if r: "res = Inr r" for r
    using accepted_guarded[OF assms(5)[unfolded r] _ assms(4,3)] stop_blocks[OF assms(1)] by auto
  have "leases_ok (db\<lparr>pm_scope := sc\<rparr>)" using assms(2) by (simp add: leases_ok_def)
  from lease_op_effect[OF this assms(5)] no show ?thesis by (auto simp: call_effect_def split: sum.split)
qed

end
