(* ===== verification/Send_Intent.thy ===== *)
theory Send_Intent
  imports Continuation_Lease
begin

text \<open>
  The durable send intents of \<^verbatim>\<open>src/bdb_vnext/send_intent.py\<close>: a message to an existing chat is
  prepared, allowed and marked as attempted in the database before the browser is touched, and
  confirmed or reconciled afterwards. Every transaction of the source is a definition (\<open>..._body\<close>) and
  the operations compose them; the browser is an argument, of which \<open>FakeBrowser\<close> is one instance. The table
  \<open>send_intents\<close> exists, as the constructor checks; the column \<open>delivery_evidence_json\<close> holds the dictionary
  itself.
\<close>

section \<open>Bindings, observations and proofs\<close>

definition digest_of :: "runtime \<Rightarrow> string \<Rightarrow> string" where
  "digest_of rt s = ''sha256:'' @ hexdigest (sha256 rt s)"

record conversation_binding =
  cb_conversation :: string
  cb_proof :: string
  cb_source :: string
  cb_verified :: bool

definition from_verified :: "runtime \<Rightarrow> pyval \<Rightarrow> (string \<times> string) + conversation_binding" where
  "from_verified rt v =
     (if \<not> nonblank v then Inl (''CONVERSATION_ID_REQUIRED'', ''an existing conversation id is required'')
      else Inr \<lparr>cb_conversation = py_str rt v, cb_proof = digest_of rt (''existing-chat:'' @ py_str rt v),
        cb_source = ''canonical'', cb_verified = True\<rparr>)"

definition is_exact :: "runtime \<Rightarrow> conversation_binding \<Rightarrow> bool" where
  "is_exact rt b \<longleftrightarrow> cb_verified b \<and> cb_source b = ''canonical'' \<and> cb_conversation b \<noteq> []
     \<and> cb_proof b = digest_of rt (''existing-chat:'' @ cb_conversation b)"

record dom_preconditions =
  dom_conversation :: "string option"
  composer_present :: bool
  composer_enabled :: bool
  composer_focused :: bool

definition dom_valid :: "dom_preconditions \<Rightarrow> bool" where
  "dom_valid d \<longleftrightarrow> opt_true (dom_conversation d) \<and> composer_present d \<and> composer_enabled d"

record send_evidence =
  sv_intent :: string
  sv_continuation :: string
  sv_digest :: string
  sv_binding :: string
  sv_conversation :: string
  sv_message :: string
  sv_visible :: string
  sv_type :: string
  sv_structured :: bool
  sv_focus_only :: bool
  sv_composer_empty :: bool

definition focus_only_observation :: "string \<Rightarrow> send_evidence" where
  "focus_only_observation i = \<lparr>sv_intent = i, sv_continuation = [], sv_digest = [], sv_binding = [], sv_conversation = [],
     sv_message = [], sv_visible = [], sv_type = ''FOCUS_ONLY'', sv_structured = False, sv_focus_only = True,
     sv_composer_empty = False\<rparr>"

definition composer_empty_observation :: "string \<Rightarrow> send_evidence" where
  "composer_empty_observation i = \<lparr>sv_intent = i, sv_continuation = [], sv_digest = [], sv_binding = [], sv_conversation = [],
     sv_message = [], sv_visible = [], sv_type = ''COMPOSER_EMPTY_ONLY'', sv_structured = False, sv_focus_only = False,
     sv_composer_empty = True\<rparr>"

definition evidence_dict :: "send_evidence \<Rightarrow> pydict" where
  "evidence_dict ev = [(''intent_id'', PStr (sv_intent ev)), (''continuation_id'', PStr (sv_continuation ev)),
     (''packet_digest'', PStr (sv_digest ev)), (''execution_binding_id'', PStr (sv_binding ev)),
     (''conversation_id'', PStr (sv_conversation ev)), (''message_digest'', PStr (sv_message ev)),
     (''visible_message_id'', PStr (sv_visible ev)), (''evidence_type'', PStr (sv_type ev)),
     (''structured'', PBool (sv_structured ev)), (''focus_only'', PBool (sv_focus_only ev)),
     (''composer_empty_only'', PBool (sv_composer_empty ev))]"

record no_delivery_proof =
  nd_intent :: string
  nd_conversation :: string
  nd_count :: int
  nd_probe :: string
  nd_complete :: bool
  nd_type :: string

definition proof_valid :: "no_delivery_proof \<Rightarrow> bool" where
  "proof_valid n \<longleftrightarrow> nd_type n = ''NO_DELIVERY_CONFIRMED'' \<and> nd_complete n \<and> nd_count n = 0
     \<and> nd_conversation n \<noteq> [] \<and> nd_probe n \<noteq> []"

record send_ack =
  ack_intent :: string
  ack_continuation :: string
  ack_digest :: string
  ack_binding :: string
  ack_conversation :: string

record send_result =
  sr_accepted :: bool
  sr_code :: string
  sr_message :: string
  sr_intent :: "send_intent_row option"
  sr_evidence :: "send_evidence option"
  sr_mutated :: bool
  sr_idempotent :: bool

type_synonym send_outcome = "pm_store \<times> (string \<times> string + send_result)"

definition send_invalid :: "string \<Rightarrow> string \<Rightarrow> send_intent_row option \<Rightarrow> send_result" where
  "send_invalid c msg r = \<lparr>sr_accepted = False, sr_code = c, sr_message = msg, sr_intent = r, sr_evidence = None,
     sr_mutated = False, sr_idempotent = False\<rparr>"

definition send_accepted ::
    "string \<Rightarrow> string \<Rightarrow> send_intent_row \<Rightarrow> send_evidence option \<Rightarrow> bool \<Rightarrow> bool \<Rightarrow> send_result" where
  "send_accepted c msg r ev mutated idem = \<lparr>sr_accepted = True, sr_code = c, sr_message = msg, sr_intent = Some r,
     sr_evidence = ev, sr_mutated = mutated, sr_idempotent = idem\<rparr>"

text \<open>\<open>SendIntentResult.physical_effects\<close>.\<close>

definition physical_effects :: "send_result \<Rightarrow> int" where
  "physical_effects r = (if sr_accepted r \<and> sr_code r \<in> {''SENT'', ''SEND_CONFIRMED'', ''ACKNOWLEDGED''} then 1 else 0)"

definition TERMINAL_SEND_STATUSES :: "string list" where
  "TERMINAL_SEND_STATUSES = [''ACKNOWLEDGED'', ''CANCELLED'', ''FENCED'']"

section \<open>Rows\<close>

record send_coordinator =
  sc_project :: string
  sc_lease :: coordinator

definition intent_rows :: "pm_store \<Rightarrow> send_intent_row list" where
  "intent_rows db = (case send_intents (pm_scope db) of None \<Rightarrow> [] | Some rows \<Rightarrow> rows)"

definition set_intents :: "pm_store \<Rightarrow> send_intent_row list \<Rightarrow> pm_store" where
  "set_intents db rows = db\<lparr>pm_scope := (pm_scope db)\<lparr>send_intents := Some rows\<rparr>\<rparr>"

definition find_intent :: "send_coordinator \<Rightarrow> pm_store \<Rightarrow> string \<Rightarrow> send_intent_row option" where
  "find_intent sc db i = find (\<lambda>r. intent_project r = sc_project sc \<and> intent_id r = i) (intent_rows db)"

text \<open>\<open>UPDATE send_intents SET ... WHERE project_id = ? AND intent_id = ? AND state_revision = ?\<close> and a condition
  on the status, with the number of rows changed.\<close>

definition update_intent ::
    "send_coordinator \<Rightarrow> pm_store \<Rightarrow> send_intent_row \<Rightarrow> (send_intent_row \<Rightarrow> bool) \<Rightarrow> (send_intent_row \<Rightarrow> send_intent_row)
      \<Rightarrow> pm_store \<times> nat" where
  "update_intent sc db r cond f =
     (let hit = (\<lambda>q. intent_project q = sc_project sc \<and> intent_id q = intent_id r \<and> intent_revision q = intent_revision r \<and> cond q)
      in (set_intents db (map (\<lambda>q. if hit q then f q else q) (intent_rows db)), length (filter hit (intent_rows db))))"

definition send_ensure_project :: "send_coordinator \<Rightarrow> pm_store \<Rightarrow> tx_fail + unit" where
  "send_ensure_project sc db =
     (if find_project db (sc_project sc) = None then
        Inl (Tx_Raise ''PROJECT_NOT_FOUND'' (''project '' @ [char_of (39::nat)] @ sc_project sc @ [char_of (39::nat)] @ '' does not exist''))
      else Inr ())"

definition intent_event :: "send_coordinator \<Rightarrow> send_intent_row \<Rightarrow> string \<Rightarrow> string \<Rightarrow> int \<Rightarrow> int \<Rightarrow> audit_event" where
  "intent_event sc r kind reason now n = \<lparr>
     event_id = sc_project sc @ '':send-intent:'' @ intent_id r @ '':s'' @ int_str (intent_revision r),
     event_project = sc_project sc, event_revision = n,
     logical_tx_id = ''tx-send-intent-'' @ intent_id r @ ''-s'' @ int_str (intent_revision r),
     event_type = kind, human_summary = ''Send intent '' @ intent_id r @ '': '' @ reason,
     event_task = Some (intent_task r), event_milestone = None, event_plan_version = None,
     event_payload = [(''send_intent_version'', PStr ''v1''), (''intent_id'', PStr (intent_id r)),
       (''intent_key'', PStr (intent_key r)), (''continuation_id'', PStr (intent_continuation r)),
       (''packet_digest'', PStr (intent_digest r)), (''status'', PStr (intent_status r)), (''reason'', PStr reason)],
     event_time = now\<rparr>"

text \<open>The project revision, the row read back and its audit event, after a change.\<close>

definition record_intent ::
    "send_coordinator \<Rightarrow> pm_store \<Rightarrow> string \<Rightarrow> int \<Rightarrow> string \<Rightarrow> string \<Rightarrow> (pm_store \<Rightarrow> 'r tx)
      \<Rightarrow> (pm_store \<Rightarrow> send_intent_row \<Rightarrow> 'r tx) \<Rightarrow> 'r tx" where
  "record_intent sc db i now kind reason missing ok =
     ebind (bump_project_revision ''send-intent project revision CAS lost'' db (sc_project sc) now) (\<lambda>db2.
       case find_intent sc db2 i of
         None \<Rightarrow> missing db2
       | Some r \<Rightarrow> ebind (append_audit db2 (intent_event sc r kind reason now) (sc_project sc)) (\<lambda>db3. ok db3 r))"

definition readback_failed :: "string \<Rightarrow> pm_store \<Rightarrow> 'r tx" where
  "readback_failed msg db = Inl (Tx_Raise ''INTENT_READBACK_FAILED'' msg)"

definition intent_key_for ::
    "runtime \<Rightarrow> pydict \<Rightarrow> lease_record \<Rightarrow> string \<Rightarrow> conversation_binding option \<Rightarrow> int \<Rightarrow> string" where
  "intent_key_for rt doc l payload b gen =
     digest_of rt (json_dumps rt compact_json (PDict [
       (''project_id'', PStr (pk_str doc ''project_id'')), (''continuation_id'', PStr (pk_str doc ''continuation_id'')),
       (''packet_digest'', PStr (pk_str doc ''packet_digest'')), (''lease_id'', PStr (ls_id l)),
       (''lease_generation'', PInt (ls_generation l)), (''scope_epoch'', PInt (pk_int doc ''scope_epoch'')),
       (''run_id'', PStr (pk_str doc ''run_id'')), (''task_id'', PStr (pk_str doc ''current_task_id'')),
       (''execution_binding_id'', PStr (pk_str doc ''execution_binding_id'')),
       (''expected_repo_head_before'', PStr (pk_str doc ''expected_repo_head_before'')),
       (''conversation_binding_id'', case b of None \<Rightarrow> PNone | Some c \<Rightarrow> PStr (cb_conversation c)),
       (''conversation_binding_proof'', case b of None \<Rightarrow> PNone | Some c \<Rightarrow> PStr (cb_proof c)),
       (''message_digest'', PStr (digest_of rt payload)), (''intent_generation'', PInt gen)]))"

definition intent_id_for :: "string \<Rightarrow> string" where
  "intent_id_for key = ''send-intent-'' @ take 40 (drop 7 key)"

section \<open>Checks\<close>

definition live_lease_check ::
    "runtime \<Rightarrow> send_coordinator \<Rightarrow> pm_store \<Rightarrow> pydict \<Rightarrow> pyval \<Rightarrow> int \<Rightarrow> EffectBoundary
      \<Rightarrow> bool \<times> string \<times> string \<times> lease_record option" where
  "live_lease_check rt sc db doc token now b =
     (if token_digest rt token = [] then (False, ''OWNER_TOKEN_INVALID'', ''opaque owner token is missing'', None)
      else case map_option record_of (find_lease (sc_project sc) db (resource_id_for doc)) of
        None \<Rightarrow> (False, ''LEASE_NOT_FOUND'', ''continuation lease does not exist'', None)
      | Some l \<Rightarrow>
          if ls_token_hash l \<noteq> Some (token_digest rt token) then
            (False, ''STALE_LEASE_OWNER'', ''lease owner token is no longer current'', Some l)
          else if ls_status l \<noteq> ''CLAIMED'' then
            (False, ''LEASE_NOT_CLAIMED'', ''physical send requires a claimed continuation lease'', Some l)
          else if ls_expires l \<le> now then (False, ''LEASE_EXPIRED'', ''continuation lease has expired'', Some l)
          else if ls_continuation l \<noteq> pk_str doc ''continuation_id'' \<or> ls_digest l \<noteq> pk_str doc ''packet_digest'' then
            (False, ''LEASE_IDENTITY_MISMATCH'', ''lease identity does not match packet'', Some l)
          else
            (let c = check (pm_scope db) (sc_project sc) (pk_int doc ''scope_epoch'') b in
             if \<not> check_allowed c then (False, check_code c, check_message c, Some l)
             else (True, ''ALLOWED'', ''lease and STOP fence are valid'', Some l)))"

definition binding_matches :: "runtime \<Rightarrow> send_intent_row \<Rightarrow> conversation_binding option \<Rightarrow> bool" where
  "binding_matches rt r b \<longleftrightarrow> (case b of None \<Rightarrow> False
     | Some c \<Rightarrow> is_exact rt c \<and> intent_conversation r = Some (cb_conversation c) \<and> intent_proof r = Some (cb_proof c))"

definition dom_check :: "runtime \<Rightarrow> send_intent_row \<Rightarrow> dom_preconditions \<Rightarrow> bool \<times> string \<times> string" where
  "dom_check rt r d =
     (if \<not> opt_true (intent_conversation r) \<or> \<not> opt_true (intent_proof r) then
        (False, ''MISSING_CONVERSATION_BINDING'', ''same-chat send requires an exact conversation binding'')
      else if intent_proof r \<noteq> Some (digest_of rt (''existing-chat:'' @ the (intent_conversation r))) then
        (False, ''GUESSED_CONVERSATION_IDENTITY'', ''conversation identity proof is not canonical'')
      else if dom_conversation d \<noteq> intent_conversation r then
        (False, ''CONVERSATION_BINDING_MISMATCH'', ''DOM conversation does not equal the exact binding'')
      else if \<not> composer_present d then
        (False, ''MISSING_COMPOSER'', ''composer is not present; no click or send is allowed'')
      else if \<not> composer_enabled d then
        (False, ''COMPOSER_DISABLED'', ''composer is disabled; no click or send is allowed'')
      else (True, ''DOM_VALID'', ''exact conversation and composer preconditions are valid''))"

definition packet_matches :: "send_intent_row \<Rightarrow> pydict \<Rightarrow> bool" where
  "packet_matches r doc \<longleftrightarrow> intent_project r = pk_str doc ''project_id''
     \<and> intent_continuation r = pk_str doc ''continuation_id'' \<and> intent_digest r = pk_str doc ''packet_digest''
     \<and> intent_epoch r = pk_int doc ''scope_epoch'' \<and> intent_run r = pk_str doc ''run_id''
     \<and> intent_task r = pk_str doc ''current_task_id'' \<and> intent_binding r = pk_str doc ''execution_binding_id''
     \<and> intent_head r = pk_str doc ''expected_repo_head_before''"

section \<open>Preparing\<close>

definition new_intent ::
    "runtime \<Rightarrow> send_coordinator \<Rightarrow> pydict \<Rightarrow> lease_record \<Rightarrow> string \<Rightarrow> string \<Rightarrow> string \<Rightarrow> conversation_binding option \<Rightarrow> int \<Rightarrow> int
      \<Rightarrow> send_intent_row" where
  "new_intent rt sc doc l h key payload b gen now = \<lparr>intent_id = intent_id_for key, intent_key = key,
     intent_project = sc_project sc, intent_continuation = pk_str doc ''continuation_id'',
     intent_digest = pk_str doc ''packet_digest'', intent_lease = ls_id l, intent_owner_hash = h,
     intent_lease_generation = ls_generation l, intent_epoch = pk_int doc ''scope_epoch'',
     intent_run = pk_str doc ''run_id'', intent_task = pk_str doc ''current_task_id'',
     intent_binding = pk_str doc ''execution_binding_id'', intent_head = pk_str doc ''expected_repo_head_before'',
     intent_conversation = map_option cb_conversation b, intent_proof = map_option cb_proof b,
     intent_message = digest_of rt payload, intent_payload = payload, intent_generation = gen, intent_revision = 1,
     intent_status = ''PREPARED'', intent_prepared_at = now, intent_updated_at = now, intent_attempted_at = None,
     intent_confirmed_at = None, intent_acknowledged_at = None, intent_evidence = [], uncertainty_reason = None\<rparr>"

text \<open>The insertion violates the primary key, the unique key, the checks on the generations and the
  epoch or the reference to the execution binding.\<close>

definition insert_intent :: "pm_store \<Rightarrow> send_intent_row \<Rightarrow> tx_fail + pm_store" where
  "insert_intent db row =
     (if list_ex (\<lambda>r. intent_id r = intent_id row \<or> intent_key r = intent_key row) (intent_rows db)
         \<or> intent_lease_generation row < 1 \<or> intent_epoch row < 1 \<or> intent_generation row < 1
         \<or> intent_binding row \<notin> set (pm_bindings db)
      then Inl Tx_Integrity else Inr (set_intents db (intent_rows db @ [row])))"

definition prepare_body ::
    "runtime \<Rightarrow> iso_reader \<Rightarrow> send_coordinator \<Rightarrow> call_env \<Rightarrow> pydict \<Rightarrow> authority_input \<Rightarrow> pyval \<Rightarrow> string
      \<Rightarrow> conversation_binding option \<Rightarrow> string \<Rightarrow> int \<Rightarrow> pm_store \<Rightarrow> send_result tx" where
  "prepare_body rt rd sc env doc a token payload b key gen db =
     ebind (send_ensure_project sc db) (\<lambda>_.
       let v = validate_packet rt rd (Typed_Packet doc) a (env_now env) DEFAULT_PACKET_MAX_BYTES in
       if \<not> val_valid v then Inr (db, send_invalid (val_code v) (val_message v) None)
       else case live_lease_check rt sc db doc token (env_now env) QUEUE_CLAIM of
         (True, c, msg, Some l) \<Rightarrow>
           (case find (\<lambda>r. intent_project r = sc_project sc \<and> intent_key r = key) (intent_rows db) of
              Some r \<Rightarrow>
                if intent_id r \<noteq> intent_id_for key \<or> intent_payload r \<noteq> payload then
                  Inr (db, send_invalid ''INTENT_KEY_COLLISION'' ''logical send intent identity collided'' (Some r))
                else Inr (db, send_accepted ''ALREADY_PREPARED''
                  ''duplicate prepare returned the existing durable intent'' r None False True)
            | None \<Rightarrow>
                ebind (insert_intent db (new_intent rt sc doc l (token_digest rt token) key payload b gen (env_now env))) (\<lambda>db1.
                  record_intent sc db1 (intent_id_for key) (env_now env) ''SEND_INTENT_PREPARED'' ''PREPARED''
                    (readback_failed ''prepared send intent was not readable'')
                    (\<lambda>db2 r. Inr (db2, send_accepted ''PREPARED'' ''durable send intent prepared'' r None True False))))
       | (_, c, msg, _) \<Rightarrow> Inr (db, send_invalid c msg None))"

definition prepare ::
    "runtime \<Rightarrow> iso_reader \<Rightarrow> send_coordinator \<Rightarrow> call_env \<Rightarrow> pm_store \<Rightarrow> packet_input \<Rightarrow> authority_input \<Rightarrow> pyval \<Rightarrow> pyval
      \<Rightarrow> conversation_binding option \<Rightarrow> pyval option \<Rightarrow> send_outcome" where
  "prepare rt rd sc env db p a token payload b generation =
     (case canonical_packet rt rd p of
        Inl (c, msg) \<Rightarrow> (db, Inr (send_invalid c msg None))
      | Inr doc \<Rightarrow>
          (let v = validate_packet rt rd (Typed_Packet doc) a (env_now env) DEFAULT_PACKET_MAX_BYTES;
               refuse = (\<lambda>c msg. (db, Inr (send_invalid c msg None))) in
           if \<not> val_valid v then refuse (val_code v) (val_message v)
           else case payload of
             PStr text \<Rightarrow>
               if text = [] then refuse ''PAYLOAD_REQUIRED'' ''durable send intent requires a non-empty payload''
               else if utf8_length text > 64 * 1024 then refuse ''PAYLOAD_TOO_LARGE'' ''send intent payload exceeds the bounded size''
               else if token_digest rt token = [] then
                 refuse ''OWNER_TOKEN_INVALID'' ''prepare requires the opaque lease owner token''
               else if (case b of None \<Rightarrow> False | Some cb \<Rightarrow> \<not> is_exact rt cb) then
                 refuse ''GUESSED_CONVERSATION_IDENTITY'' ''conversation binding is not identity-verifiable''
               else (case select_for_packet (sc_lease sc) db doc of
                  None \<Rightarrow> refuse ''LEASE_NOT_FOUND'' ''a claimed NX-026 lease is required before preparing a send''
                | Some l \<Rightarrow>
                    if ls_token_hash l \<noteq> Some (token_digest rt token) \<or> ls_status l \<noteq> ''CLAIMED'' then
                      refuse ''STALE_LEASE_OWNER'' ''send intent owner is not the current claimed lease''
                    else if ls_expires l \<le> env_now env then
                      refuse ''LEASE_EXPIRED'' ''send intent cannot be prepared after lease expiry''
                    else (case (case generation of None \<Rightarrow> PInt (ls_generation l) | Some g \<Rightarrow> g) of
                       PInt gen \<Rightarrow>
                         if gen < 1 then refuse ''INVALID_INTENT_GENERATION'' ''intent_generation must be a positive integer''
                         else transaction env
                           (\<lambda>t. send_invalid ''PREPARE_TRANSACTION_FAILED'' (''send intent prepare failed closed: '' @ t) None)
                           db (prepare_body rt rd sc env doc a token text b (intent_key_for rt doc l text b gen) gen db)
                     | _ \<Rightarrow> refuse ''INVALID_INTENT_GENERATION'' ''intent_generation must be a positive integer''))
           | _ \<Rightarrow> refuse ''PAYLOAD_REQUIRED'' ''durable send intent requires a non-empty payload''))"

section \<open>Fencing, allowing and attempting\<close>

definition fence_on_conn ::
    "send_coordinator \<Rightarrow> pm_store \<Rightarrow> send_intent_row option \<Rightarrow> string \<Rightarrow> int \<Rightarrow> send_intent_row option tx" where
  "fence_on_conn sc db rec reason now =
     (case rec of
        None \<Rightarrow> Inr (db, None)
      | Some r \<Rightarrow>
          if intent_status r \<in> set TERMINAL_SEND_STATUSES \<or> intent_status r = ''PHYSICAL_SEND_ATTEMPTED'' then Inr (db, rec)
          else
            (case update_intent sc db r
                (\<lambda>q. intent_status q \<in> {''PREPARED'', ''SEND_ALLOWED'', ''UNCERTAIN'', ''RECONCILIATION_REQUIRED''})
                (\<lambda>q. q\<lparr>intent_status := ''FENCED'', intent_revision := intent_revision r + 1, intent_updated_at := now,
                   uncertainty_reason := Some (take 256 reason)\<rparr>) of
               (db1, n) \<Rightarrow>
                 if n \<noteq> 1 then Inr (db1, rec)
                 else record_intent sc db1 (intent_id r) now ''SEND_INTENT_FENCED'' reason
                   (\<lambda>db2. Inr (db2, None)) (\<lambda>db3 q. Inr (db3, Some q))))"

definition fence_body :: "send_coordinator \<Rightarrow> string \<Rightarrow> string \<Rightarrow> int \<Rightarrow> pm_store \<Rightarrow> send_intent_row option tx" where
  "fence_body sc i reason now db =
     ebind (send_ensure_project sc db) (\<lambda>_. fence_on_conn sc db (find_intent sc db i) reason now)"

definition fence_intent ::
    "send_coordinator \<Rightarrow> call_env \<Rightarrow> pm_store \<Rightarrow> string \<Rightarrow> string \<Rightarrow> pm_store \<times> (string \<times> string + send_intent_row option)" where
  "fence_intent sc env db i reason = transaction env (\<lambda>t. find_intent sc db i) db (fence_body sc i reason (env_now env) db)"

text \<open>What \<open>allow_send\<close> and \<open>begin_physical_send\<close> check before their transactions: a stale packet fences
  the intent in a transaction of its own.\<close>

definition presend ::
    "runtime \<Rightarrow> iso_reader \<Rightarrow> send_coordinator \<Rightarrow> call_env \<Rightarrow> pm_store \<Rightarrow> string \<Rightarrow> packet_input \<Rightarrow> authority_input
      \<Rightarrow> dom_preconditions \<Rightarrow> send_outcome + pydict" where
  "presend rt rd sc env db i p a d =
     (case canonical_packet rt rd p of
        Inl (c, msg) \<Rightarrow> Inl (db, Inr (send_invalid c msg None))
      | Inr doc \<Rightarrow>
          (let v = validate_packet rt rd (Typed_Packet doc) a (env_now env) DEFAULT_PACKET_MAX_BYTES in
           if \<not> val_valid v then
             (case fence_intent sc env db i (val_code v) of
                (db', Inl err) \<Rightarrow> Inl (db', Inl err)
              | (db', Inr fenced) \<Rightarrow> Inl (db', Inr (send_invalid (val_code v) (val_message v) fenced)))
           else case find_intent sc db i of
             None \<Rightarrow> Inl (db, Inr (send_invalid ''INTENT_NOT_FOUND'' ''send intent does not exist'' None))
           | Some r \<Rightarrow>
               (case dom_check rt r d of
                  (ok, c, msg) \<Rightarrow> if ok then Inr doc else Inl (db, Inr (send_invalid c msg (Some r))))))"

text \<open>A refusal by the lease or the fence inside a transaction fences the intent.\<close>

definition fence_refusal ::
    "send_coordinator \<Rightarrow> pm_store \<Rightarrow> send_intent_row \<Rightarrow> string \<Rightarrow> string \<Rightarrow> int \<Rightarrow> send_result tx" where
  "fence_refusal sc db r c msg now =
     ebind (fence_on_conn sc db (Some r) c now) (\<lambda>(db1, fenced).
       Inr (db1, send_invalid c msg (case fenced of None \<Rightarrow> Some r | Some q \<Rightarrow> Some q)))"

definition allow_body ::
    "runtime \<Rightarrow> send_coordinator \<Rightarrow> call_env \<Rightarrow> string \<Rightarrow> pydict \<Rightarrow> pyval \<Rightarrow> pm_store \<Rightarrow> send_result tx" where
  "allow_body rt sc env i doc token db =
     ebind (send_ensure_project sc db) (\<lambda>_.
       case find_intent sc db i of
         None \<Rightarrow> Inr (db, send_invalid ''INTENT_NOT_FOUND'' ''send intent does not exist'' None)
       | Some r \<Rightarrow>
           if \<not> packet_matches r doc then
             Inr (db, send_invalid ''STALE_AUTHORITY'' ''packet does not match durable send intent'' (Some r))
           else if intent_owner_hash r \<noteq> token_digest rt token then
             Inr (db, send_invalid ''STALE_INTENT_OWNER'' ''send intent owner token is not current'' (Some r))
           else if intent_status r = ''SEND_ALLOWED'' then
             Inr (db, send_accepted ''SEND_ALLOWED'' ''physical send was already allowed'' r None False True)
           else if intent_status r \<noteq> ''PREPARED'' then
             Inr (db, send_invalid ''INTENT_NOT_SENDABLE'' (''intent state '' @ [char_of (39::nat)] @ intent_status r
               @ [char_of (39::nat)] @ '' cannot enter SEND_ALLOWED'') (Some r))
           else case live_lease_check rt sc db doc token (env_now env) DISPATCH_SEND of
             (ok, c, msg, _) \<Rightarrow>
               if \<not> ok then fence_refusal sc db r c msg (env_now env)
               else (case update_intent sc db r (\<lambda>q. intent_status q = ''PREPARED'')
                   (\<lambda>q. q\<lparr>intent_status := ''SEND_ALLOWED'', intent_revision := intent_revision r + 1,
                      intent_updated_at := env_now env\<rparr>) of
                  (db1, n) \<Rightarrow>
                    if n \<noteq> 1 then Inr (db1, send_invalid ''SEND_ALLOWED_CAS_LOST'' ''send intent allow CAS lost'' (Some r))
                    else record_intent sc db1 i (env_now env) ''SEND_INTENT_ALLOWED'' ''SEND_ALLOWED''
                      (readback_failed ''SEND_ALLOWED intent was not readable'')
                      (\<lambda>db2 q. Inr (db2, send_accepted ''SEND_ALLOWED'' ''DOM and authority preconditions validated'' q None True False))))"

definition allow_send ::
    "runtime \<Rightarrow> iso_reader \<Rightarrow> send_coordinator \<Rightarrow> call_env \<Rightarrow> pm_store \<Rightarrow> string \<Rightarrow> packet_input \<Rightarrow> authority_input \<Rightarrow> pyval
      \<Rightarrow> dom_preconditions \<Rightarrow> send_outcome" where
  "allow_send rt rd sc env db i p a token d =
     (case presend rt rd sc env db i p a d of
        Inl out \<Rightarrow> out
      | Inr doc \<Rightarrow> transaction env
          (\<lambda>t. send_invalid ''SEND_ALLOWED_TRANSACTION_FAILED'' (''send intent allow failed closed: '' @ t) None)
          db (allow_body rt sc env i doc token db))"

definition begin_body ::
    "runtime \<Rightarrow> send_coordinator \<Rightarrow> call_env \<Rightarrow> string \<Rightarrow> pydict \<Rightarrow> pyval \<Rightarrow> pm_store \<Rightarrow> send_result tx" where
  "begin_body rt sc env i doc token db =
     ebind (send_ensure_project sc db) (\<lambda>_.
       case find_intent sc db i of
         None \<Rightarrow> Inr (db, send_invalid ''INTENT_NOT_FOUND'' ''send intent does not exist'' None)
       | Some r \<Rightarrow>
           if \<not> packet_matches r doc then
             Inr (db, send_invalid ''STALE_AUTHORITY'' ''packet does not match durable send intent'' (Some r))
           else if intent_owner_hash r \<noteq> token_digest rt token then
             Inr (db, send_invalid ''STALE_INTENT_OWNER'' ''send intent owner token is not current'' (Some r))
           else if intent_status r \<in> {''PHYSICAL_SEND_ATTEMPTED'', ''UNCERTAIN'', ''RECONCILIATION_REQUIRED'',
               ''SEND_CONFIRMED'', ''ACKNOWLEDGED''} then
             Inr (db, send_invalid ''PHYSICAL_SEND_ALREADY_ATTEMPTED''
               ''physical send must not be repeated without a no-delivery proof'' (Some r))
           else if intent_status r \<noteq> ''SEND_ALLOWED'' then
             Inr (db, send_invalid ''INTENT_NOT_ALLOWED'' (''intent state '' @ [char_of (39::nat)] @ intent_status r
               @ [char_of (39::nat)] @ '' is not SEND_ALLOWED'') (Some r))
           else case live_lease_check rt sc db doc token (env_now env) DISPATCH_SEND of
             (ok, c, msg, _) \<Rightarrow>
               if \<not> ok then fence_refusal sc db r c msg (env_now env)
               else (case update_intent sc db r (\<lambda>q. intent_status q = ''SEND_ALLOWED'')
                   (\<lambda>q. q\<lparr>intent_status := ''PHYSICAL_SEND_ATTEMPTED'', intent_revision := intent_revision r + 1,
                      intent_updated_at := env_now env, intent_attempted_at := Some (env_now env)\<rparr>) of
                  (db1, n) \<Rightarrow>
                    if n \<noteq> 1 then Inr (db1, send_invalid ''PHYSICAL_ATTEMPT_CAS_LOST'' ''physical attempt CAS lost'' (Some r))
                    else record_intent sc db1 i (env_now env) ''PHYSICAL_SEND_ATTEMPTED'' ''PHYSICAL_SEND_ATTEMPTED''
                      (readback_failed ''physical-attempt intent was not readable'')
                      (\<lambda>db2 q. Inr (db2, send_accepted ''PHYSICAL_SEND_ATTEMPTED''
                         ''physical send boundary was durably entered'' q None True False))))"

definition begin_physical_send ::
    "runtime \<Rightarrow> iso_reader \<Rightarrow> send_coordinator \<Rightarrow> call_env \<Rightarrow> pm_store \<Rightarrow> string \<Rightarrow> packet_input \<Rightarrow> authority_input \<Rightarrow> pyval
      \<Rightarrow> dom_preconditions \<Rightarrow> send_outcome" where
  "begin_physical_send rt rd sc env db i p a token d =
     (case presend rt rd sc env db i p a d of
        Inl out \<Rightarrow> out
      | Inr doc \<Rightarrow> transaction env
          (\<lambda>t. send_invalid ''PHYSICAL_ATTEMPT_TRANSACTION_FAILED'' (''physical attempt failed closed: '' @ t) None)
          db (begin_body rt sc env i doc token db))"

section \<open>Outcomes\<close>

definition uncertain_body ::
    "send_coordinator \<Rightarrow> call_env \<Rightarrow> string \<Rightarrow> string \<Rightarrow> string \<Rightarrow> pm_store \<Rightarrow> send_result tx" where
  "uncertain_body sc env i h reason db =
     ebind (send_ensure_project sc db) (\<lambda>_.
       case find_intent sc db i of
         None \<Rightarrow> Inr (db, send_invalid ''INTENT_NOT_FOUND'' ''send intent does not exist'' None)
       | Some r \<Rightarrow>
           if intent_owner_hash r \<noteq> h then
             Inr (db, send_invalid ''STALE_INTENT_OWNER'' ''uncertain transition owner token is not current'' (Some r))
           else if intent_status r \<in> {''UNCERTAIN'', ''RECONCILIATION_REQUIRED''} then
             Inr (db, send_accepted ''UNCERTAIN'' ''delivery remains uncertain'' r None False True)
           else if intent_status r \<noteq> ''PHYSICAL_SEND_ATTEMPTED'' then
             Inr (db, send_invalid ''NOT_PHYSICAL_ATTEMPTED'' ''only a physical-attempted intent can become uncertain'' (Some r))
           else (case update_intent sc db r (\<lambda>q. intent_status q = ''PHYSICAL_SEND_ATTEMPTED'')
               (\<lambda>q. q\<lparr>intent_status := ''UNCERTAIN'', intent_revision := intent_revision r + 1, intent_updated_at := env_now env,
                  uncertainty_reason := Some (bounded_reason reason)\<rparr>) of
              (db1, n) \<Rightarrow>
                if n \<noteq> 1 then Inr (db1, send_invalid ''UNCERTAINTY_CAS_LOST'' ''uncertainty transition CAS lost'' (Some r))
                else record_intent sc db1 i (env_now env) ''SEND_DELIVERY_UNCERTAIN'' (bounded_reason reason)
                  (readback_failed ''uncertain intent was not readable'')
                  (\<lambda>db2 q. Inr (db2, (send_invalid ''UNCERTAIN_DELIVERY''
                     ''delivery is uncertain; blind resend is forbidden'' (Some q))\<lparr>sr_mutated := True\<rparr>))))"

definition mark_uncertain ::
    "runtime \<Rightarrow> send_coordinator \<Rightarrow> call_env \<Rightarrow> pm_store \<Rightarrow> string \<Rightarrow> pyval \<Rightarrow> string \<Rightarrow> send_outcome" where
  "mark_uncertain rt sc env db i token reason =
     (if token_digest rt token = [] then
        (db, Inr (send_invalid ''OWNER_TOKEN_INVALID'' ''uncertain transition requires the opaque owner token'' None))
      else transaction env
        (\<lambda>t. send_invalid ''UNCERTAINTY_TRANSACTION_FAILED'' (''uncertainty transition failed closed: '' @ t) None)
        db (uncertain_body sc env i (token_digest rt token) reason db))"

definition positive_evidence :: "send_evidence \<Rightarrow> bool" where
  "positive_evidence ev \<longleftrightarrow> sv_structured ev \<and> \<not> sv_focus_only ev \<and> \<not> sv_composer_empty ev
     \<and> sv_type ev = ''STRUCTURED_DOM_MESSAGE''"

definition evidence_matches :: "send_evidence \<Rightarrow> send_intent_row \<Rightarrow> bool" where
  "evidence_matches ev r \<longleftrightarrow> sv_intent ev = intent_id r \<and> sv_continuation ev = intent_continuation r
     \<and> sv_digest ev = intent_digest r \<and> sv_binding ev = intent_binding r
     \<and> intent_conversation r = Some (sv_conversation ev) \<and> sv_message ev = intent_message r \<and> sv_visible ev \<noteq> []"

definition confirm_body ::
    "send_coordinator \<Rightarrow> call_env \<Rightarrow> string \<Rightarrow> pydict \<Rightarrow> string \<Rightarrow> send_evidence \<Rightarrow> pm_store \<Rightarrow> send_result tx" where
  "confirm_body sc env i doc h ev db =
     ebind (send_ensure_project sc db) (\<lambda>_.
       case find_intent sc db i of
         None \<Rightarrow> Inr (db, send_invalid ''INTENT_NOT_FOUND'' ''send intent does not exist'' None)
       | Some r \<Rightarrow>
           if \<not> packet_matches r doc then
             Inr (db, send_invalid ''STALE_AUTHORITY'' ''packet does not match durable send intent'' (Some r))
           else if intent_owner_hash r \<noteq> h then
             Inr (db, send_invalid ''STALE_INTENT_OWNER'' ''confirmation owner token is not current'' (Some r))
           else if \<not> positive_evidence ev then
             Inr (db, send_invalid ''NON_POSITIVE_SEND_EVIDENCE''
               ''focus, composer-empty, timeout, or generic UI is not send confirmation'' (Some r))
           else if \<not> evidence_matches ev r then
             Inr (db, send_invalid ''SEND_EVIDENCE_MISMATCH'' ''structured send evidence does not match intent identity'' (Some r))
           else if intent_status r \<in> {''SEND_CONFIRMED'', ''ACKNOWLEDGED''} then
             (if py_eq (PDict (intent_evidence r)) (PDict (evidence_dict ev)) then
                Inr (db, send_accepted ''SEND_CONFIRMED'' ''send confirmation replay is idempotent'' r (Some ev) False True)
              else Inr (db, send_invalid ''CONFIRMATION_CONFLICT''
                ''a different confirmation cannot replace durable evidence'' (Some r)))
           else if intent_status r \<notin> {''PHYSICAL_SEND_ATTEMPTED'', ''UNCERTAIN'', ''RECONCILIATION_REQUIRED''} then
             Inr (db, send_invalid ''NOT_CONFIRMABLE'' (''intent state '' @ [char_of (39::nat)] @ intent_status r
               @ [char_of (39::nat)] @ '' cannot be confirmed'') (Some r))
           else (case update_intent sc db r (\<lambda>q. True)
               (\<lambda>q. q\<lparr>intent_status := ''SEND_CONFIRMED'', intent_revision := intent_revision r + 1,
                  intent_updated_at := env_now env, intent_confirmed_at := Some (env_now env),
                  intent_evidence := evidence_dict ev, uncertainty_reason := None\<rparr>) of
              (db1, n) \<Rightarrow>
                if n \<noteq> 1 then Inr (db1, send_invalid ''CONFIRM_CAS_LOST'' ''send confirmation CAS lost'' (Some r))
                else record_intent sc db1 i (env_now env) ''SEND_CONFIRMED'' ''SEND_CONFIRMED''
                  (readback_failed ''confirmed intent was not readable'')
                  (\<lambda>db2 q. Inr (db2, send_accepted ''SEND_CONFIRMED'' ''structured send evidence confirmed delivery'' q
                     (Some ev) True False))))"

definition confirm ::
    "runtime \<Rightarrow> iso_reader \<Rightarrow> send_coordinator \<Rightarrow> call_env \<Rightarrow> pm_store \<Rightarrow> string \<Rightarrow> packet_input \<Rightarrow> pyval \<Rightarrow> send_evidence
      \<Rightarrow> send_outcome" where
  "confirm rt rd sc env db i p token ev =
     (case canonical_packet rt rd p of
        Inl (c, msg) \<Rightarrow> (db, Inr (send_invalid c msg None))
      | Inr doc \<Rightarrow>
          if token_digest rt token = [] then
            (db, Inr (send_invalid ''OWNER_TOKEN_INVALID'' ''confirmation requires the opaque owner token'' None))
          else transaction env
            (\<lambda>t. send_invalid ''CONFIRM_TRANSACTION_FAILED'' (''send confirmation failed closed: '' @ t) None)
            db (confirm_body sc env i doc (token_digest rt token) ev db))"

text \<open>Reconciliation without a usable proof; \<open>None\<close> when nothing was changed.\<close>

definition unproven_body :: "send_coordinator \<Rightarrow> call_env \<Rightarrow> string \<Rightarrow> pm_store \<Rightarrow> send_result option tx" where
  "unproven_body sc env i db =
     ebind (send_ensure_project sc db) (\<lambda>_.
       case find_intent sc db i of
         None \<Rightarrow> Inr (db, Some (send_invalid ''INTENT_NOT_FOUND'' ''send intent does not exist'' None))
       | Some r \<Rightarrow>
           if intent_status r \<in> {''UNCERTAIN'', ''PHYSICAL_SEND_ATTEMPTED''} then
             (let db1 = fst (update_intent sc db r (\<lambda>q. True)
                 (\<lambda>q. q\<lparr>intent_status := ''RECONCILIATION_REQUIRED'', intent_revision := intent_revision r + 1,
                    intent_updated_at := env_now env, uncertainty_reason := Some ''NO_DETERMINISTIC_DELIVERY_PROOF''\<rparr>));
                  res = send_invalid ''UNCERTAIN_DELIVERY'' ''delivery remains uncertain; no resend was attempted''
              in record_intent sc db1 i (env_now env) ''SEND_RECONCILIATION_REQUIRED'' ''NO_DETERMINISTIC_DELIVERY_PROOF''
                   (\<lambda>db2. Inr (db2, Some (res None))) (\<lambda>db2 q. Inr (db2, Some (res (Some q)))))
           else Inr (db, None))"

definition retry_body :: "send_coordinator \<Rightarrow> call_env \<Rightarrow> string \<Rightarrow> pm_store \<Rightarrow> send_result tx" where
  "retry_body sc env i db =
     ebind (send_ensure_project sc db) (\<lambda>_.
       case find_intent sc db i of
         None \<Rightarrow> Inr (db, send_invalid ''INTENT_NOT_FOUND'' ''send intent does not exist'' None)
       | Some r \<Rightarrow>
           if intent_status r \<in> {''SEND_CONFIRMED'', ''ACKNOWLEDGED''} then
             Inr (db, send_accepted ''ALREADY_CONFIRMED'' ''confirmed delivery cannot be retried'' r None False True)
           else if intent_status r \<notin> {''UNCERTAIN'', ''RECONCILIATION_REQUIRED'', ''PHYSICAL_SEND_ATTEMPTED''} then
             Inr (db, send_invalid ''NOT_RECONCILABLE'' (''intent state '' @ [char_of (39::nat)] @ intent_status r
               @ [char_of (39::nat)] @ '' is not awaiting reconciliation'') (Some r))
           else (case update_intent sc db r (\<lambda>q. True)
               (\<lambda>q. q\<lparr>intent_status := ''SEND_ALLOWED'', intent_revision := intent_revision r + 1,
                  intent_updated_at := env_now env, uncertainty_reason := Some ''NO_DELIVERY_PROVEN_RETRY_ALLOWED''\<rparr>) of
              (db1, n) \<Rightarrow>
                if n \<noteq> 1 then Inr (db1, send_invalid ''RECONCILE_CAS_LOST'' ''no-delivery reconciliation CAS lost'' (Some r))
                else record_intent sc db1 i (env_now env) ''SEND_RECONCILED_NO_DELIVERY'' ''NO_DELIVERY_PROVEN_RETRY_ALLOWED''
                  (readback_failed ''reconciled intent was not readable'')
                  (\<lambda>db2 q. Inr (db2, send_accepted ''RETRY_ALLOWED'' ''retry is allowed by deterministic no-delivery proof'' q
                     None True False))))"

definition reconcile ::
    "runtime \<Rightarrow> iso_reader \<Rightarrow> send_coordinator \<Rightarrow> call_env \<Rightarrow> pm_store \<Rightarrow> string \<Rightarrow> packet_input \<Rightarrow> pyval \<Rightarrow> send_evidence option
      \<Rightarrow> no_delivery_proof option \<Rightarrow> send_outcome" where
  "reconcile rt rd sc env db i p token evidence prf =
     (case canonical_packet rt rd p of
        Inl (c, msg) \<Rightarrow> (db, Inr (send_invalid c msg None))
      | Inr doc \<Rightarrow>
          (case find_intent sc db i of
             None \<Rightarrow> (db, Inr (send_invalid ''INTENT_NOT_FOUND'' ''send intent does not exist'' None))
           | Some r \<Rightarrow>
               if \<not> packet_matches r doc then
                 (db, Inr (send_invalid ''STALE_AUTHORITY'' ''packet does not match durable send intent'' (Some r)))
               else if intent_owner_hash r \<noteq> token_digest rt token then
                 (db, Inr (send_invalid ''STALE_INTENT_OWNER'' ''reconciliation owner token is not current'' (Some r)))
               else case evidence of
                 Some ev \<Rightarrow> confirm rt rd sc env db i p token ev
               | None \<Rightarrow>
                   let failed = (\<lambda>t. send_invalid ''RECONCILE_TRANSACTION_FAILED'' (''reconciliation failed closed: '' @ t) None) in
                   if (case prf of None \<Rightarrow> True | Some n \<Rightarrow> nd_intent n \<noteq> i \<or> \<not> proof_valid n) then
                     (case transaction env (\<lambda>t. Some (failed t)) db (unproven_body sc env i db) of
                        (db', Inl err) \<Rightarrow> (db', Inl err)
                      | (db', Inr (Some res)) \<Rightarrow> (db', Inr res)
                      | (db', Inr None) \<Rightarrow> (db', Inr (send_invalid ''NO_DELIVERY_PROOF_REQUIRED''
                          ''safe retry requires deterministic no-delivery proof'' (Some r))))
                   else transaction env failed db (retry_body sc env i db)))"

definition ack_body :: "send_coordinator \<Rightarrow> call_env \<Rightarrow> string \<Rightarrow> pm_store \<Rightarrow> send_result tx" where
  "ack_body sc env i db =
     ebind (send_ensure_project sc db) (\<lambda>_.
       case find_intent sc db i of
         None \<Rightarrow> Inr (db, send_invalid ''INTENT_NOT_FOUND'' ''send intent does not exist'' None)
       | Some r \<Rightarrow>
           if intent_status r = ''ACKNOWLEDGED'' then
             Inr (db, send_accepted ''ALREADY_ACKNOWLEDGED'' ''acknowledgement replay is idempotent'' r None False True)
           else if intent_status r \<noteq> ''SEND_CONFIRMED'' then
             Inr (db, send_invalid ''NOT_CONFIRMED'' ''intent changed before acknowledgement'' (Some r))
           else (case update_intent sc db r (\<lambda>q. intent_status q = ''SEND_CONFIRMED'')
               (\<lambda>q. q\<lparr>intent_status := ''ACKNOWLEDGED'', intent_revision := intent_revision r + 1,
                  intent_updated_at := env_now env, intent_acknowledged_at := Some (env_now env)\<rparr>) of
              (db1, n) \<Rightarrow>
                if n \<noteq> 1 then Inr (db1, send_invalid ''ACK_CAS_LOST'' ''acknowledgement CAS lost'' (Some r))
                else record_intent sc db1 i (env_now env) ''SEND_ACKNOWLEDGED'' ''ACKNOWLEDGED''
                  (readback_failed ''acknowledged intent was not readable'')
                  (\<lambda>db2 q. Inr (db2, send_accepted ''ACKNOWLEDGED'' ''send intent acknowledged'' q None True False))))"

definition ack_expected :: "send_ack \<Rightarrow> send_intent_row \<Rightarrow> string \<Rightarrow> pydict \<Rightarrow> bool" where
  "ack_expected k r i doc \<longleftrightarrow> ack_intent k = intent_id r \<and> intent_id r = i
     \<and> ack_continuation k = intent_continuation r \<and> intent_continuation r = pk_str doc ''continuation_id''
     \<and> ack_digest k = intent_digest r \<and> intent_digest r = pk_str doc ''packet_digest''
     \<and> ack_binding k = intent_binding r \<and> intent_binding r = pk_str doc ''execution_binding_id''
     \<and> intent_conversation r = Some (ack_conversation k)"

text \<open>Acknowledging completes the lease first, in the lease's own transaction (\<open>env1\<close>).\<close>

definition ack ::
    "runtime \<Rightarrow> iso_reader \<Rightarrow> send_coordinator \<Rightarrow> call_env \<Rightarrow> call_env \<Rightarrow> pm_store \<Rightarrow> string \<Rightarrow> packet_input \<Rightarrow> pyval \<Rightarrow> send_ack
      \<Rightarrow> send_outcome" where
  "ack rt rd sc env1 env2 db i p token k =
     (case canonical_packet rt rd p of
        Inl (c, msg) \<Rightarrow> (db, Inr (send_invalid c msg None))
      | Inr doc \<Rightarrow>
          (case find_intent sc db i of
             None \<Rightarrow> (db, Inr (send_invalid ''INTENT_NOT_FOUND'' ''send intent does not exist'' None))
           | Some r \<Rightarrow>
               if \<not> ack_expected k r i doc then
                 (db, Inr (send_invalid ''WRONG_ACK'' ''acknowledgement identity does not match the durable intent'' (Some r)))
               else if intent_owner_hash r \<noteq> token_digest rt token then
                 (db, Inr (send_invalid ''STALE_INTENT_OWNER'' ''acknowledgement owner token is not current'' (Some r)))
               else if intent_status r = ''ACKNOWLEDGED'' then
                 (db, Inr (send_accepted ''ALREADY_ACKNOWLEDGED'' ''acknowledgement replay is idempotent'' r None False True))
               else if intent_status r \<noteq> ''SEND_CONFIRMED'' then
                 (db, Inr (send_invalid ''NOT_CONFIRMED'' ''only SEND_CONFIRMED intent can be acknowledged'' (Some r)))
               else case complete rt rd (sc_lease sc) env1 db (Typed_Packet doc) token of
                 (db1, Inl err) \<Rightarrow> (db1, Inl err)
               | (db1, Inr res) \<Rightarrow>
                   if \<not> res_accepted res then
                     (db1, Inr (send_invalid ''LEASE_COMPLETION_FAILED'' (res_message res) (Some r)))
                   else transaction env2
                     (\<lambda>t. send_invalid ''ACK_TRANSACTION_FAILED'' (''acknowledgement failed closed: '' @ t) None)
                     db1 (ack_body sc env2 i db1)))"

definition cancel_body ::
    "runtime \<Rightarrow> send_coordinator \<Rightarrow> call_env \<Rightarrow> string \<Rightarrow> string \<Rightarrow> pyval \<Rightarrow> pm_store \<Rightarrow> send_result tx" where
  "cancel_body rt sc env i h reason db =
     ebind (send_ensure_project sc db) (\<lambda>_.
       case find_intent sc db i of
         None \<Rightarrow> Inr (db, send_invalid ''INTENT_NOT_FOUND'' ''send intent does not exist'' None)
       | Some r \<Rightarrow>
           if intent_owner_hash r \<noteq> h then
             Inr (db, send_invalid ''STALE_INTENT_OWNER'' ''cancel owner token is not current'' (Some r))
           else if intent_status r = ''CANCELLED'' then
             Inr (db, send_accepted ''ALREADY_CANCELLED'' ''cancel replay is idempotent'' r None False True)
           else if intent_status r \<notin> {''PREPARED'', ''SEND_ALLOWED'', ''UNCERTAIN'', ''RECONCILIATION_REQUIRED''} then
             Inr (db, send_invalid ''NOT_CANCELLABLE'' (''intent state '' @ [char_of (39::nat)] @ intent_status r
               @ [char_of (39::nat)] @ '' cannot be cancelled'') (Some r))
           else
             (let bounded = bounded_reason (py_str rt reason);
                  db1 = fst (update_intent sc db r (\<lambda>q. True)
                    (\<lambda>q. q\<lparr>intent_status := ''CANCELLED'', intent_revision := intent_revision r + 1,
                       intent_updated_at := env_now env, uncertainty_reason := Some bounded\<rparr>))
              in record_intent sc db1 i (env_now env) ''SEND_INTENT_CANCELLED'' bounded
                   (readback_failed ''cancelled intent was not readable'')
                   (\<lambda>db2 q. Inr (db2, send_accepted ''CANCELLED'' ''send intent cancelled'' q None True False))))"

definition cancel ::
    "runtime \<Rightarrow> send_coordinator \<Rightarrow> call_env \<Rightarrow> pm_store \<Rightarrow> string \<Rightarrow> pyval \<Rightarrow> pyval \<Rightarrow> send_outcome" where
  "cancel rt sc env db i token reason =
     (if token_digest rt token = [] then
        (db, Inr (send_invalid ''OWNER_TOKEN_INVALID'' ''cancel requires the opaque owner token'' None))
      else transaction env (\<lambda>t. send_invalid ''CANCEL_TRANSACTION_FAILED'' (''cancel failed closed: '' @ t) None)
        db (cancel_body rt sc env i (token_digest rt token) reason db))"

section \<open>Sending through a browser\<close>

text \<open>What a physical send gives: evidence, the adapter's own report that delivery is uncertain, or
  any other exception (with its text).\<close>

datatype physical_outcome = Sent send_evidence | Delivery_Uncertain string | Adapter_Failed string

text \<open>An adapter over browser states \<open>'b\<close>: the protocol \<open>BrowserSendAdapter\<close>, with the trace and the two
  counters the flow reads.\<close>

record 'b browser_adapter =
  ba_snapshot :: "'b \<Rightarrow> dom_preconditions"
  ba_send :: "'b \<Rightarrow> send_intent_row \<Rightarrow> 'b \<times> physical_outcome"
  ba_trace :: "'b \<Rightarrow> string list"
  ba_log :: "'b \<Rightarrow> string \<Rightarrow> 'b"
  ba_visible :: "'b \<Rightarrow> nat"
  ba_created :: "'b \<Rightarrow> nat"

record fake_browser =
  fb_dom :: dom_preconditions
  fb_trace :: "string list"
  fb_attempted :: "string list"
  fb_visible :: "send_evidence list"
  fb_created :: nat
  fb_crash :: bool

definition new_fake_browser :: "string option \<Rightarrow> bool \<Rightarrow> bool \<Rightarrow> fake_browser" where
  "new_fake_browser c present enabled = \<lparr>fb_dom = \<lparr>dom_conversation = c, composer_present = present,
     composer_enabled = enabled, composer_focused = False\<rparr>, fb_trace = [], fb_attempted = [], fb_visible = [],
     fb_created = 0, fb_crash = False\<rparr>"

definition focus_composer :: "fake_browser \<Rightarrow> fake_browser \<times> bool" where
  "focus_composer b = (b\<lparr>fb_dom := (fb_dom b)\<lparr>composer_focused := True\<rparr>\<rparr>, True)"

definition reload :: "fake_browser \<Rightarrow> fake_browser" where
  "reload b = b\<lparr>fb_trace := fb_trace b @ [''DOM_RELOADED'']\<rparr>"

definition fake_evidence :: "fake_browser \<Rightarrow> send_intent_row \<Rightarrow> send_evidence" where
  "fake_evidence b r = \<lparr>sv_intent = intent_id r, sv_continuation = intent_continuation r, sv_digest = intent_digest r,
     sv_binding = intent_binding r, sv_conversation = the (dom_conversation (fb_dom b)), sv_message = intent_message r,
     sv_visible = ''visible-message-'' @ int_str (int (length (fb_visible b)) + 1), sv_type = ''STRUCTURED_DOM_MESSAGE'',
     sv_structured = True, sv_focus_only = False, sv_composer_empty = False\<rparr>"

definition fake_send :: "fake_browser \<Rightarrow> send_intent_row \<Rightarrow> fake_browser \<times> physical_outcome" where
  "fake_send b r =
     (if \<not> dom_valid (fb_dom b) then (b, Adapter_Failed ''DOM preconditions are not satisfied'')
      else if dom_conversation (fb_dom b) \<noteq> intent_conversation r then
        (b, Adapter_Failed ''conversation binding changed before physical send'')
      else
        (let b1 = b\<lparr>fb_attempted := List.insert (intent_id r) (fb_attempted b)\<rparr> in
         case find (\<lambda>ev. sv_intent ev = intent_id r) (fb_visible b) of
           Some ev \<Rightarrow> (b1, Sent ev)
         | None \<Rightarrow>
             (let ev = fake_evidence b r;
                  b2 = b1\<lparr>fb_trace := fb_trace b @ [''PHYSICAL_SEND''], fb_visible := fb_visible b @ [ev]\<rparr>
              in if fb_crash b then (b2\<lparr>fb_crash := False\<rparr>,
                   Delivery_Uncertain ''adapter crashed after the physical send boundary'')
                 else (b2, Sent ev))))"

definition fake_no_delivery_proof :: "runtime \<Rightarrow> fake_browser \<Rightarrow> string \<Rightarrow> no_delivery_proof" where
  "fake_no_delivery_proof rt b i =
     (let n = int (length (filter (\<lambda>ev. sv_intent ev = i) (fb_visible b))) in
      \<lparr>nd_intent = i, nd_conversation = (if opt_true (dom_conversation (fb_dom b)) then the (dom_conversation (fb_dom b)) else []),
       nd_count = n, nd_probe = digest_of rt (''probe:'' @ i @ '':'' @ int_str n), nd_complete = True,
       nd_type = ''NO_DELIVERY_CONFIRMED''\<rparr>)"

definition fake_adapter :: "fake_browser browser_adapter" where
  "fake_adapter = \<lparr>ba_snapshot = fb_dom, ba_send = fake_send, ba_trace = fb_trace,
     ba_log = (\<lambda>b s. b\<lparr>fb_trace := fb_trace b @ [s]\<rparr>), ba_visible = (\<lambda>b. length (fb_visible b)), ba_created = fb_created\<rparr>"

text \<open>An operation that was given the browser's trace appends to it when it committed a change.\<close>

definition log_if :: "'b browser_adapter \<Rightarrow> 'b \<Rightarrow> string \<Rightarrow> (string \<times> string + send_result) \<Rightarrow> 'b" where
  "log_if ad b s res = (case res of Inr r \<Rightarrow> if sr_accepted r \<and> sr_mutated r then ba_log ad b s else b | Inl _ \<Rightarrow> b)"

text \<open>One physical send; the three transactions see the clock and the database as \<open>env 0\<close>, \<open>env 1\<close>
  and \<open>env 2\<close> say.\<close>

definition send_once ::
    "runtime \<Rightarrow> iso_reader \<Rightarrow> send_coordinator \<Rightarrow> (nat \<Rightarrow> call_env) \<Rightarrow> 'b browser_adapter \<Rightarrow> pm_store \<Rightarrow> 'b \<Rightarrow> string
      \<Rightarrow> packet_input \<Rightarrow> authority_input \<Rightarrow> pyval \<Rightarrow> pm_store \<times> 'b \<times> (string \<times> string + send_result)" where
  "send_once rt rd sc env ad db b i p a token =
     (let d = ba_snapshot ad b in
      case allow_send rt rd sc (env 0) db i p a token d of
        (db1, Inl err) \<Rightarrow> (db1, b, Inl err)
      | (db1, Inr r1) \<Rightarrow>
          (let b1 = log_if ad b ''DOM_PRECONDITIONS_VALID'' (Inr r1) in
           if \<not> sr_accepted r1 then (db1, b1, Inr r1)
           else case begin_physical_send rt rd sc (env 1) db1 i p a token d of
             (db2, Inl err) \<Rightarrow> (db2, b1, Inl err)
           | (db2, Inr r2) \<Rightarrow>
               if \<not> sr_accepted r2 then (db2, b1, Inr r2)
               else (case sr_intent r2 of
                  None \<Rightarrow> (db2, b1, Inr (send_invalid ''INTENT_READBACK_FAILED'' ''physical attempt did not return an intent'' None))
                | Some r \<Rightarrow>
                    (case ba_send ad b1 r of
                       (b2, Delivery_Uncertain msg) \<Rightarrow>
                         (case mark_uncertain rt sc (env 2) db2 i token msg of (db3, res) \<Rightarrow> (db3, b2, res))
                     | (b2, Adapter_Failed msg) \<Rightarrow>
                         (case mark_uncertain rt sc (env 2) db2 i token (''adapter failure: '' @ msg) of (db3, res) \<Rightarrow> (db3, b2, res))
                     | (b2, Sent ev) \<Rightarrow>
                         (case confirm rt rd sc (env 2) db2 i p token ev of
                            (db3, res) \<Rightarrow> (db3, log_if ad b2 ''SEND_CONFIRMED'' res, res))))))"

record same_chat_result =
  fl_accepted :: bool
  fl_trace :: "string list"
  fl_prompts :: nat
  fl_visible :: nat
  fl_created :: nat
  fl_intent :: "send_intent_row option"
  fl_send :: "send_result option"
  fl_ack :: "send_result option"

definition flow_result ::
    "'b browser_adapter \<Rightarrow> 'b \<Rightarrow> bool \<Rightarrow> send_intent_row option \<Rightarrow> send_result option \<Rightarrow> send_result option \<Rightarrow> same_chat_result" where
  "flow_result ad b ok r s k = \<lparr>fl_accepted = ok, fl_trace = ba_trace ad b, fl_prompts = 0, fl_visible = ba_visible ad b,
     fl_created = ba_created ad b, fl_intent = r, fl_send = s, fl_ack = k\<rparr>"

definition ack_for :: "send_intent_row \<Rightarrow> send_ack" where
  "ack_for r = \<lparr>ack_intent = intent_id r, ack_continuation = intent_continuation r, ack_digest = intent_digest r,
     ack_binding = intent_binding r,
     ack_conversation = (if opt_true (intent_conversation r) then the (intent_conversation r) else [])\<rparr>"

text \<open>The whole continuation in one chat: prepare (\<open>env 0\<close>), send (\<open>env 1\<close> to \<open>env 3\<close>), complete the lease
  (\<open>env 4\<close>) and acknowledge (\<open>env 5\<close>).\<close>

definition continue_same_chat ::
    "runtime \<Rightarrow> iso_reader \<Rightarrow> send_coordinator \<Rightarrow> (nat \<Rightarrow> call_env) \<Rightarrow> 'b browser_adapter \<Rightarrow> pm_store \<Rightarrow> 'b \<Rightarrow> packet_input
      \<Rightarrow> authority_input \<Rightarrow> lease_result \<Rightarrow> conversation_binding \<Rightarrow> pyval
      \<Rightarrow> pm_store \<times> 'b \<times> (string \<times> string + same_chat_result)" where
  "continue_same_chat rt rd sc env ad db b p a lc_claim cb payload =
     (case (if res_claimed lc_claim then res_token lc_claim else None) of
        None \<Rightarrow> (db, b, Inr (flow_result ad b False None None None))
      | Some tok \<Rightarrow>
          (case prepare rt rd sc (env 0) db p a (PStr tok) payload (Some cb) None of
             (db1, Inl err) \<Rightarrow> (db1, b, Inl err)
           | (db1, Inr r1) \<Rightarrow>
               (let b1 = log_if ad b ''INTENT_PREPARED'' (Inr r1) in
                case (if sr_accepted r1 then sr_intent r1 else None) of
                  None \<Rightarrow> (db1, b1, Inr (flow_result ad b1 False (sr_intent r1) None None))
                | Some q \<Rightarrow>
                    (case send_once rt rd sc (\<lambda>n. env (n + 1)) ad db1 b1 (intent_id q) p a (PStr tok) of
                       (db2, b2, Inl err) \<Rightarrow> (db2, b2, Inl err)
                     | (db2, b2, Inr r2) \<Rightarrow>
                         if \<not> sr_accepted r2 \<or> sr_intent r2 = None then
                           (db2, b2, Inr (flow_result ad b2 False (sr_intent r2) (Some r2) None))
                         else
                           (case ack rt rd sc (env 4) (env 5) db2 (intent_id q) p (PStr tok) (ack_for q) of
                              (db3, Inl err) \<Rightarrow> (db3, b2, Inl err)
                            | (db3, Inr r3) \<Rightarrow>
                                (let b3 = log_if ad b2 ''ACK'' (Inr r3) in
                                 (db3, b3, Inr (flow_result ad b3 (sr_accepted r3) (sr_intent r3) (Some r2) (Some r3)))))))))"

section \<open>What a transaction does to the intents\<close>

lemma intent_rows_set [simp]: "intent_rows (set_intents db rows) = rows"
  by (simp add: intent_rows_def set_intents_def)

lemma set_intents_others [simp]:
  "pm_leases (set_intents db rows) = pm_leases db" "pm_projects (set_intents db rows) = pm_projects db"
  "pm_bindings (set_intents db rows) = pm_bindings db"
  "scope_cursors (pm_scope (set_intents db rows)) = scope_cursors (pm_scope db)"
  "stop_fences (pm_scope (set_intents db rows)) = stop_fences (pm_scope db)"
  "audit_events (pm_scope (set_intents db rows)) = audit_events (pm_scope db)"
  by (simp_all add: set_intents_def)

definition intents_ok :: "pm_store \<Rightarrow> bool" where
  "intents_ok db \<longleftrightarrow> distinct (map intent_id (intent_rows db))"

text \<open>The identity of an intent: everything but its state.\<close>

definition same_identity :: "send_intent_row \<Rightarrow> send_intent_row \<Rightarrow> bool" where
  "same_identity r r' \<longleftrightarrow> intent_id r' = intent_id r \<and> intent_key r' = intent_key r \<and> intent_project r' = intent_project r
     \<and> intent_continuation r' = intent_continuation r \<and> intent_digest r' = intent_digest r \<and> intent_lease r' = intent_lease r
     \<and> intent_owner_hash r' = intent_owner_hash r \<and> intent_lease_generation r' = intent_lease_generation r
     \<and> intent_epoch r' = intent_epoch r \<and> intent_run r' = intent_run r \<and> intent_task r' = intent_task r
     \<and> intent_binding r' = intent_binding r \<and> intent_head r' = intent_head r \<and> intent_conversation r' = intent_conversation r
     \<and> intent_proof r' = intent_proof r \<and> intent_message r' = intent_message r \<and> intent_payload r' = intent_payload r
     \<and> intent_generation r' = intent_generation r"

lemma find_intentD: "find_intent sc db i = Some r \<Longrightarrow>
    r \<in> set (intent_rows db) \<and> intent_project r = sc_project sc \<and> intent_id r = i"
  using find_SomeD by (fastforce simp: find_intent_def)

lemma find_intent_cong: "intent_rows db' = intent_rows db \<Longrightarrow> find_intent sc db' i = find_intent sc db i"
  by (simp add: find_intent_def)

lemma update_intent_found:
  assumes "intents_ok db" and "find_intent sc db i = Some r" and "cond r"
  shows "update_intent sc db r cond f = (set_intents db (map (\<lambda>x. if x = r then f r else x) (intent_rows db)), 1)"
proof -
  let ?hit = "\<lambda>q. intent_project q = sc_project sc \<and> intent_id q = intent_id r \<and> intent_revision q = intent_revision r \<and> cond q"
  note r = find_intentD[OF assms(2)]
  have hit: "?hit x \<longleftrightarrow> x = r" if "x \<in> set (intent_rows db)" for x
    using that r assms(1,3) by (auto simp: intents_ok_def distinct_map inj_on_def)
  then have m: "map (\<lambda>x. if ?hit x then f x else x) (intent_rows db) = map (\<lambda>x. if x = r then f r else x) (intent_rows db)"
    by (intro map_cong) auto
  have "filter ?hit (intent_rows db) = filter (\<lambda>y. y = r) (intent_rows db)" using hit by (intro filter_cong) auto
  also have "\<dots> = [r]" using filter_singleton[of "intent_rows db" r] r assms(1) by (simp add: intents_ok_def distinct_map)
  finally have "length (filter ?hit (intent_rows db)) = 1" by simp
  then show ?thesis unfolding update_intent_def Let_def by (simp only: m)
qed

lemma update_intent_missed:
  assumes "intents_ok db" and "find_intent sc db i = Some r" and "\<not> cond r"
  shows "update_intent sc db r cond f = (set_intents db (intent_rows db), 0)"
proof -
  let ?hit = "\<lambda>q. intent_project q = sc_project sc \<and> intent_id q = intent_id r \<and> intent_revision q = intent_revision r \<and> cond q"
  have no: "\<not> ?hit x" if "x \<in> set (intent_rows db)" for x
    using that assms(1,3) find_intentD[OF assms(2)] by (auto simp: intents_ok_def distinct_map inj_on_def)
  then have "map (\<lambda>x. if ?hit x then f x else x) (intent_rows db) = intent_rows db" by (intro map_idI) auto
  moreover have "filter ?hit (intent_rows db) = []" using no by (auto simp: filter_empty_conv)
  ultimately show ?thesis unfolding update_intent_def Let_def by simp
qed

lemma find_intent_replace:
  assumes "find_intent sc db i = Some r" and "same_identity r r'"
  shows "find_intent sc (set_intents db (map (\<lambda>x. if x = r then r' else x) (intent_rows db))) i = Some r'"
  using assms find_intentD[OF assms(1)]
  by (auto simp: find_intent_def same_identity_def intro!: find_replace_same)

text \<open>The common end of the transactions.\<close>

lemma record_intent_effect:
  assumes "record_intent sc db i now kind reason missing (\<lambda>db2 q. Inr (db2, F q)) = Inr (db', res)"
    and "find_intent sc db i = Some r"
  shows "res = F r" "intent_rows db' = intent_rows db" "pm_leases db' = pm_leases db"
    "scope_cursors (pm_scope db') = scope_cursors (pm_scope db)" "stop_fences (pm_scope db') = stop_fences (pm_scope db)"
proof -
  obtain db2 where b: "bump_project_revision ''send-intent project revision CAS lost'' db (sc_project sc) now = Inr db2"
    using assms(1) by (auto simp: record_intent_def ebind_Inr_iff)
  note o = bump_project_others[OF b]
  have "find_intent sc db2 i = Some r" using assms(2) o by (simp add: find_intent_def intent_rows_def)
  with assms(1) b have a: "append_audit db2 (intent_event sc r kind reason now) (sc_project sc) = Inr db'" "res = F r"
    by (auto simp: record_intent_def ebind_Inr_iff)
  note o = o append_audit_others[OF a(1)]
  show "res = F r" by (rule a(2))
  show "intent_rows db' = intent_rows db" "pm_leases db' = pm_leases db"
    "scope_cursors (pm_scope db') = scope_cursors (pm_scope db)" "stop_fences (pm_scope db') = stop_fences (pm_scope db)"
    using o by (simp_all add: intent_rows_def)
qed

text \<open>The arcs of the state machine, by the transaction that takes them.\<close>

datatype intent_tx = Tx_Allow | Tx_Begin | Tx_Uncertain | Tx_Confirm | Tx_Unproven | Tx_Retry | Tx_Ack | Tx_Cancel | Tx_Fence

fun arc :: "intent_tx \<Rightarrow> string \<Rightarrow> string \<Rightarrow> bool" where
  "arc Tx_Allow a b \<longleftrightarrow> a = ''PREPARED'' \<and> b = ''SEND_ALLOWED''"
| "arc Tx_Begin a b \<longleftrightarrow> a = ''SEND_ALLOWED'' \<and> b = ''PHYSICAL_SEND_ATTEMPTED''"
| "arc Tx_Uncertain a b \<longleftrightarrow> a = ''PHYSICAL_SEND_ATTEMPTED'' \<and> b = ''UNCERTAIN''"
| "arc Tx_Confirm a b \<longleftrightarrow> a \<in> {''PHYSICAL_SEND_ATTEMPTED'', ''UNCERTAIN'', ''RECONCILIATION_REQUIRED''} \<and> b = ''SEND_CONFIRMED''"
| "arc Tx_Unproven a b \<longleftrightarrow> a \<in> {''PHYSICAL_SEND_ATTEMPTED'', ''UNCERTAIN''} \<and> b = ''RECONCILIATION_REQUIRED''"
| "arc Tx_Retry a b \<longleftrightarrow> a \<in> {''PHYSICAL_SEND_ATTEMPTED'', ''UNCERTAIN'', ''RECONCILIATION_REQUIRED''} \<and> b = ''SEND_ALLOWED''"
| "arc Tx_Ack a b \<longleftrightarrow> a = ''SEND_CONFIRMED'' \<and> b = ''ACKNOWLEDGED''"
| "arc Tx_Cancel a b \<longleftrightarrow> a \<in> {''PREPARED'', ''SEND_ALLOWED'', ''UNCERTAIN'', ''RECONCILIATION_REQUIRED''} \<and> b = ''CANCELLED''"
| "arc Tx_Fence a b \<longleftrightarrow> a \<in> {''PREPARED'', ''SEND_ALLOWED'', ''UNCERTAIN'', ''RECONCILIATION_REQUIRED''} \<and> b = ''FENCED''"

definition evidence_kept :: "send_intent_row \<Rightarrow> send_intent_row \<Rightarrow> bool" where
  "evidence_kept r r' \<longleftrightarrow> (if intent_status r' = ''SEND_CONFIRMED''
     then \<exists>ev. positive_evidence ev \<and> evidence_matches ev r \<and> intent_evidence r' = evidence_dict ev
     else intent_evidence r' = intent_evidence r)"

text \<open>One row changed along an arc, and nothing else of the intents.\<close>

definition changed :: "intent_tx \<Rightarrow> string \<Rightarrow> pm_store \<Rightarrow> pm_store \<Rightarrow> bool" where
  "changed k i db db' \<longleftrightarrow> (\<exists>r r'. r \<in> set (intent_rows db) \<and> intent_id r = i \<and> same_identity r r' \<and> evidence_kept r r'
     \<and> arc k (intent_status r) (intent_status r') \<and> intent_revision r' = intent_revision r + 1
     \<and> intent_rows db' = map (\<lambda>x. if x = r then r' else x) (intent_rows db))"

lemma record_changes:
  assumes "intents_ok db" and "find_intent sc db i = Some r" and "cond r" and "update_intent sc db r cond f = (db1, n)"
    and "same_identity r (f r)" and "evidence_kept r (f r)" and "arc k (intent_status r) (intent_status (f r))"
    and "intent_revision (f r) = intent_revision r + 1"
    and "record_intent sc db1 i now kind reason missing (\<lambda>db2 q. Inr (db2, F q)) = Inr (db', res)"
  shows "changed k i db db'" "res = F (f r)"
proof -
  have db1: "db1 = set_intents db (map (\<lambda>x. if x = r then f r else x) (intent_rows db))"
    using update_intent_found[where cond = cond and f = f, OF assms(1-3)] assms(4) by simp
  note e = record_intent_effect[OF assms(9) find_intent_replace[OF assms(2,5), folded db1]]
  show "res = F (f r)" by (rule e(1))
  have "intent_rows db' = map (\<lambda>x. if x = r then f r else x) (intent_rows db)" using e(2) db1 by simp
  then show "changed k i db db'" using assms(5-8) find_intentD[OF assms(2)] unfolding changed_def by blast
qed

lemma update_count:
  "intents_ok db \<Longrightarrow> find_intent sc db i = Some r \<Longrightarrow> cond r \<Longrightarrow> update_intent sc db r cond f = (db1, n) \<Longrightarrow> n = 1"
  using update_intent_found[of db sc i r cond f] by simp

lemma send_simps [simp]:
  "\<not> sr_accepted (send_invalid c msg r)" "\<not> sr_mutated (send_invalid c msg r)" "sr_intent (send_invalid c msg r) = r"
  "sr_accepted (send_accepted c msg q ev m idm)" "sr_mutated (send_accepted c msg q ev m idm) = m"
  "sr_intent (send_accepted c msg q ev m idm) = Some q" "sr_code (send_accepted c msg q ev m idm) = c"
  by (simp_all add: send_invalid_def send_accepted_def)

lemmas change_defs = same_identity_def evidence_kept_def

lemma fence_on_conn_effect:
  assumes "intents_ok db" and "find_intent sc db i = Some r" and "fence_on_conn sc db (Some r) reason now = Inr (db', q)"
  shows "intent_rows db' = intent_rows db \<or> changed Tx_Fence i db db'"
proof (cases "intent_status r \<in> {''PREPARED'', ''SEND_ALLOWED'', ''UNCERTAIN'', ''RECONCILIATION_REQUIRED''}")
  case False
  let ?cond = "\<lambda>q. intent_status q \<in> {''PREPARED'', ''SEND_ALLOWED'', ''UNCERTAIN'', ''RECONCILIATION_REQUIRED''}"
  let ?f = "\<lambda>q. q\<lparr>intent_status := ''FENCED'', intent_revision := intent_revision r + 1, intent_updated_at := now,
                   uncertainty_reason := Some (take 256 reason)\<rparr>"
  have "update_intent sc db r ?cond ?f = (set_intents db (intent_rows db), 0)"
    by (rule update_intent_missed[OF assms(1,2)]) (use False in simp)
  then show ?thesis using assms(3) by (auto simp: fence_on_conn_def split: if_splits)
next
  case True
  let ?cond = "\<lambda>q. intent_status q \<in> {''PREPARED'', ''SEND_ALLOWED'', ''UNCERTAIN'', ''RECONCILIATION_REQUIRED''}"
  let ?f = "\<lambda>q. q\<lparr>intent_status := ''FENCED'', intent_revision := intent_revision r + 1, intent_updated_at := now,
                   uncertainty_reason := Some (take 256 reason)\<rparr>"
  obtain db1 n where u: "update_intent sc db r ?cond ?f = (db1, n)" by fastforce
  have n: "n = 1" using update_count[OF assms(1,2) _ u] True by simp
  have id: "intent_id r = i" using find_intentD[OF assms(2)] by simp
  have rec: "record_intent sc db1 i now ''SEND_INTENT_FENCED'' reason (\<lambda>db2. Inr (db2, None)) (\<lambda>db3 q. Inr (db3, Some q)) = Inr (db', q)"
    using assms(3) True u n id by (auto simp: fence_on_conn_def TERMINAL_SEND_STATUSES_def)
  have "changed Tx_Fence i db db'"
    by (rule record_changes(1)[OF assms(1,2) _ u _ _ _ _ rec]) (use True in \<open>auto simp: change_defs\<close>)
  then show ?thesis by simp
qed

lemma fence_refusal_effect:
  assumes "intents_ok db" and "find_intent sc db i = Some r" and "fence_refusal sc db r c msg now = Inr (db', res)"
  shows "(intent_rows db' = intent_rows db \<or> changed Tx_Fence i db db') \<and> \<not> sr_accepted res"
  using assms fence_on_conn_effect[OF assms(1,2)] by (auto simp: fence_refusal_def ebind_Inr_iff)

lemma fence_body_effect:
  assumes "intents_ok db" and "fence_body sc i reason now db = Inr (db', q)"
  shows "intent_rows db' = intent_rows db \<or> changed Tx_Fence i db db'"
proof (cases "find_intent sc db i")
  case (Some r)
  then show ?thesis using assms(2) fence_on_conn_effect[OF assms(1) Some] by (auto simp: fence_body_def ebind_Inr_iff)
qed (use assms(2) in \<open>auto simp: fence_body_def fence_on_conn_def ebind_Inr_iff\<close>)

lemma allow_body_effect:
  assumes "intents_ok db" and "allow_body rt sc env i doc token db = Inr (db', res)"
  shows "intent_rows db' = intent_rows db \<or> changed Tx_Allow i db db' \<or> changed Tx_Fence i db db'"
proof (cases "find_intent sc db i")
  case (Some r)
  show ?thesis
  proof (cases "packet_matches r doc \<and> intent_owner_hash r = token_digest rt token \<and> intent_status r = ''PREPARED''")
    case True
    obtain ok c msg l where lv: "live_lease_check rt sc db doc token (env_now env) DISPATCH_SEND = (ok, c, msg, l)" by (metis prod_cases4)
    let ?f = "\<lambda>q. q\<lparr>intent_status := ''SEND_ALLOWED'', intent_revision := intent_revision r + 1, intent_updated_at := env_now env\<rparr>"
    obtain db1 n where u: "update_intent sc db r (\<lambda>q. intent_status q = ''PREPARED'') ?f = (db1, n)" by fastforce
    show ?thesis
    proof (cases ok)
      case False
      then have "fence_refusal sc db r c msg (env_now env) = Inr (db', res)"
        using assms(2) Some True lv by (auto simp: allow_body_def ebind_Inr_iff)
      then show ?thesis using fence_refusal_effect[OF assms(1) Some] by blast
    next
      case ok: True
      have n: "n = 1" using update_count[OF assms(1) Some _ u] True by simp
      obtain F where rec: "record_intent sc db1 i (env_now env) ''SEND_INTENT_ALLOWED'' ''SEND_ALLOWED''
          (readback_failed ''SEND_ALLOWED intent was not readable'') (\<lambda>db2 q. Inr (db2, F q)) = Inr (db', res)"
        using assms(2) Some True lv ok u n by (auto simp: allow_body_def ebind_Inr_iff)
      show ?thesis
        using record_changes(1)[where k = Tx_Allow, OF assms(1) Some _ u _ _ _ _ rec] True by (auto simp: change_defs)
    qed
  next
    case False
    then show ?thesis using assms(2) Some by (auto simp: allow_body_def ebind_Inr_iff split: if_splits)
  qed
qed (use assms(2) in \<open>auto simp: allow_body_def ebind_Inr_iff\<close>)

lemma begin_body_effect:
  assumes "intents_ok db" and "begin_body rt sc env i doc token db = Inr (db', res)"
  shows "if sr_accepted res
    then changed Tx_Begin i db db' \<and> check_allowed (check (pm_scope db) (sc_project sc) (pk_int doc ''scope_epoch'') DISPATCH_SEND)
      \<and> (\<exists>r. sr_intent res = Some r \<and> intent_id r = i \<and> intent_status r = ''PHYSICAL_SEND_ATTEMPTED'')
    else intent_rows db' = intent_rows db \<or> changed Tx_Fence i db db'"
proof (cases "find_intent sc db i")
  case (Some r)
  show ?thesis
  proof (cases "packet_matches r doc \<and> intent_owner_hash r = token_digest rt token \<and> intent_status r = ''SEND_ALLOWED''")
    case True
    obtain ok c msg l where lv: "live_lease_check rt sc db doc token (env_now env) DISPATCH_SEND = (ok, c, msg, l)" by (metis prod_cases4)
    let ?f = "\<lambda>q. q\<lparr>intent_status := ''PHYSICAL_SEND_ATTEMPTED'', intent_revision := intent_revision r + 1,
                      intent_updated_at := env_now env, intent_attempted_at := Some (env_now env)\<rparr>"
    obtain db1 n where u: "update_intent sc db r (\<lambda>q. intent_status q = ''SEND_ALLOWED'') ?f = (db1, n)" by fastforce
    show ?thesis
    proof (cases ok)
      case False
      then have "fence_refusal sc db r c msg (env_now env) = Inr (db', res)"
        using assms(2) Some True lv by (auto simp: begin_body_def ebind_Inr_iff)
      then show ?thesis using fence_refusal_effect[OF assms(1) Some] by fastforce
    next
      case ok: True
      have n: "n = 1" using update_count[OF assms(1) Some _ u] True by simp
      obtain F where rec: "record_intent sc db1 i (env_now env) ''PHYSICAL_SEND_ATTEMPTED'' ''PHYSICAL_SEND_ATTEMPTED''
          (readback_failed ''physical-attempt intent was not readable'') (\<lambda>db2 q. Inr (db2, F q)) = Inr (db', res)"
          "F = (\<lambda>q. send_accepted ''PHYSICAL_SEND_ATTEMPTED'' ''physical send boundary was durably entered'' q None True False)"
        using assms(2) Some True lv ok u n by (auto simp: begin_body_def ebind_Inr_iff)
      have "changed Tx_Begin i db db' \<and> res = F (?f r)"
        using record_changes[where k = Tx_Begin, OF assms(1) Some _ u _ _ _ _ rec(1)] True by (auto simp: change_defs)
      moreover have "check_allowed (check (pm_scope db) (sc_project sc) (pk_int doc ''scope_epoch'') DISPATCH_SEND)"
        using lv ok by (auto simp: live_lease_check_def Let_def split: if_splits option.splits)
      ultimately show ?thesis using find_intentD[OF Some] rec(2) by auto
    qed
  next
    case False
    then show ?thesis using assms(2) Some by (auto simp: begin_body_def ebind_Inr_iff split: if_splits)
  qed
qed (use assms(2) in \<open>auto simp: begin_body_def ebind_Inr_iff\<close>)

lemma uncertain_body_effect:
  assumes "intents_ok db" and "uncertain_body sc env i h reason db = Inr (db', res)"
  shows "intent_rows db' = intent_rows db \<or> changed Tx_Uncertain i db db'"
proof (cases "find_intent sc db i")
  case (Some r)
  show ?thesis
  proof (cases "intent_owner_hash r = h \<and> intent_status r = ''PHYSICAL_SEND_ATTEMPTED''")
    case True
    let ?f = "\<lambda>q. q\<lparr>intent_status := ''UNCERTAIN'', intent_revision := intent_revision r + 1, intent_updated_at := env_now env,
                  uncertainty_reason := Some (bounded_reason reason)\<rparr>"
    obtain db1 n where u: "update_intent sc db r (\<lambda>q. intent_status q = ''PHYSICAL_SEND_ATTEMPTED'') ?f = (db1, n)" by fastforce
    have n: "n = 1" using update_count[OF assms(1) Some _ u] True by simp
    obtain F where rec: "record_intent sc db1 i (env_now env) ''SEND_DELIVERY_UNCERTAIN'' (bounded_reason reason)
        (readback_failed ''uncertain intent was not readable'') (\<lambda>db2 q. Inr (db2, F q)) = Inr (db', res)"
      using assms(2) Some True u n by (auto simp: uncertain_body_def ebind_Inr_iff)
    show ?thesis
      using record_changes(1)[where k = Tx_Uncertain, OF assms(1) Some _ u _ _ _ _ rec] True by (auto simp: change_defs)
  next
    case False
    then show ?thesis using assms(2) Some by (auto simp: uncertain_body_def ebind_Inr_iff split: if_splits)
  qed
qed (use assms(2) in \<open>auto simp: uncertain_body_def ebind_Inr_iff\<close>)

lemma confirm_body_effect:
  assumes "intents_ok db" and "confirm_body sc env i doc h ev db = Inr (db', res)"
  shows "intent_rows db' = intent_rows db \<or> changed Tx_Confirm i db db'"
proof (cases "find_intent sc db i")
  case (Some r)
  show ?thesis
  proof (cases "packet_matches r doc \<and> intent_owner_hash r = h \<and> positive_evidence ev \<and> evidence_matches ev r
      \<and> intent_status r \<in> {''PHYSICAL_SEND_ATTEMPTED'', ''UNCERTAIN'', ''RECONCILIATION_REQUIRED''}")
    case True
    let ?f = "\<lambda>q. q\<lparr>intent_status := ''SEND_CONFIRMED'', intent_revision := intent_revision r + 1,
                  intent_updated_at := env_now env, intent_confirmed_at := Some (env_now env),
                  intent_evidence := evidence_dict ev, uncertainty_reason := None\<rparr>"
    obtain db1 n where u: "update_intent sc db r (\<lambda>q. True) ?f = (db1, n)" by fastforce
    have n: "n = 1" using update_count[OF assms(1) Some _ u] by simp
    obtain F where rec: "record_intent sc db1 i (env_now env) ''SEND_CONFIRMED'' ''SEND_CONFIRMED''
        (readback_failed ''confirmed intent was not readable'') (\<lambda>db2 q. Inr (db2, F q)) = Inr (db', res)"
      using assms(2) Some True u n by (auto simp: confirm_body_def ebind_Inr_iff)
    show ?thesis
      using record_changes(1)[where k = Tx_Confirm, OF assms(1) Some _ u _ _ _ _ rec] True by (auto simp: change_defs)
  next
    case False
    then show ?thesis using assms(2) Some by (auto simp: confirm_body_def ebind_Inr_iff split: if_splits)
  qed
qed (use assms(2) in \<open>auto simp: confirm_body_def ebind_Inr_iff\<close>)

lemma unproven_body_effect:
  assumes "intents_ok db" and "unproven_body sc env i db = Inr (db', res)"
  shows "intent_rows db' = intent_rows db \<or> changed Tx_Unproven i db db'"
proof (cases "find_intent sc db i")
  case (Some r)
  show ?thesis
  proof (cases "intent_status r \<in> {''UNCERTAIN'', ''PHYSICAL_SEND_ATTEMPTED''}")
    case True
    let ?f = "\<lambda>q. q\<lparr>intent_status := ''RECONCILIATION_REQUIRED'', intent_revision := intent_revision r + 1,
                    intent_updated_at := env_now env, uncertainty_reason := Some ''NO_DETERMINISTIC_DELIVERY_PROOF''\<rparr>"
    obtain db1 n where u: "update_intent sc db r (\<lambda>q. True) ?f = (db1, n)" by fastforce
    obtain F missing where rec: "record_intent sc db1 i (env_now env) ''SEND_RECONCILIATION_REQUIRED'' ''NO_DETERMINISTIC_DELIVERY_PROOF''
        missing (\<lambda>db2 q. Inr (db2, F q)) = Inr (db', res)"
      using assms(2) Some True u by (auto simp: unproven_body_def ebind_Inr_iff Let_def)
    show ?thesis
      using record_changes(1)[where k = Tx_Unproven, OF assms(1) Some _ u _ _ _ _ rec] True by (auto simp: change_defs)
  next
    case False
    then show ?thesis using assms(2) Some by (auto simp: unproven_body_def ebind_Inr_iff split: if_splits)
  qed
qed (use assms(2) in \<open>auto simp: unproven_body_def ebind_Inr_iff\<close>)

lemma retry_body_effect:
  assumes "intents_ok db" and "retry_body sc env i db = Inr (db', res)"
  shows "if sr_mutated res then changed Tx_Retry i db db' else intent_rows db' = intent_rows db"
proof (cases "find_intent sc db i")
  case (Some r)
  show ?thesis
  proof (cases "intent_status r \<in> {''UNCERTAIN'', ''RECONCILIATION_REQUIRED'', ''PHYSICAL_SEND_ATTEMPTED''}")
    case True
    let ?f = "\<lambda>q. q\<lparr>intent_status := ''SEND_ALLOWED'', intent_revision := intent_revision r + 1,
                  intent_updated_at := env_now env, uncertainty_reason := Some ''NO_DELIVERY_PROVEN_RETRY_ALLOWED''\<rparr>"
    obtain db1 n where u: "update_intent sc db r (\<lambda>q. True) ?f = (db1, n)" by fastforce
    have n: "n = 1" using update_count[OF assms(1) Some _ u] by simp
    obtain F where rec: "record_intent sc db1 i (env_now env) ''SEND_RECONCILED_NO_DELIVERY'' ''NO_DELIVERY_PROVEN_RETRY_ALLOWED''
        (readback_failed ''reconciled intent was not readable'') (\<lambda>db2 q. Inr (db2, F q)) = Inr (db', res)"
        "\<And>q. sr_mutated (F q)"
      using assms(2) Some True u n by (auto simp: retry_body_def ebind_Inr_iff)
    have "changed Tx_Retry i db db' \<and> res = F (?f r)"
      using record_changes[where k = Tx_Retry, OF assms(1) Some _ u _ _ _ _ rec(1)] True by (auto simp: change_defs)
    then show ?thesis using rec(2) by simp
  next
    case False
    then show ?thesis using assms(2) Some by (auto simp: retry_body_def ebind_Inr_iff split: if_splits)
  qed
qed (use assms(2) in \<open>auto simp: retry_body_def ebind_Inr_iff\<close>)

lemma ack_body_effect:
  assumes "intents_ok db" and "ack_body sc env i db = Inr (db', res)"
  shows "intent_rows db' = intent_rows db \<or> changed Tx_Ack i db db'"
proof (cases "find_intent sc db i")
  case (Some r)
  show ?thesis
  proof (cases "intent_status r = ''SEND_CONFIRMED''")
    case True
    let ?f = "\<lambda>q. q\<lparr>intent_status := ''ACKNOWLEDGED'', intent_revision := intent_revision r + 1,
                  intent_updated_at := env_now env, intent_acknowledged_at := Some (env_now env)\<rparr>"
    obtain db1 n where u: "update_intent sc db r (\<lambda>q. intent_status q = ''SEND_CONFIRMED'') ?f = (db1, n)" by fastforce
    have n: "n = 1" using update_count[OF assms(1) Some _ u] True by simp
    obtain F where rec: "record_intent sc db1 i (env_now env) ''SEND_ACKNOWLEDGED'' ''ACKNOWLEDGED''
        (readback_failed ''acknowledged intent was not readable'') (\<lambda>db2 q. Inr (db2, F q)) = Inr (db', res)"
      using assms(2) Some True u n by (auto simp: ack_body_def ebind_Inr_iff)
    show ?thesis
      using record_changes(1)[where k = Tx_Ack, OF assms(1) Some _ u _ _ _ _ rec] True by (auto simp: change_defs)
  next
    case False
    then show ?thesis using assms(2) Some by (auto simp: ack_body_def ebind_Inr_iff split: if_splits)
  qed
qed (use assms(2) in \<open>auto simp: ack_body_def ebind_Inr_iff\<close>)

lemma cancel_body_effect:
  assumes "intents_ok db" and "cancel_body rt sc env i h reason db = Inr (db', res)"
  shows "intent_rows db' = intent_rows db \<or> changed Tx_Cancel i db db'"
proof (cases "find_intent sc db i")
  case (Some r)
  show ?thesis
  proof (cases "intent_owner_hash r = h \<and> intent_status r \<in> {''PREPARED'', ''SEND_ALLOWED'', ''UNCERTAIN'', ''RECONCILIATION_REQUIRED''}")
    case True
    let ?f = "\<lambda>q. q\<lparr>intent_status := ''CANCELLED'', intent_revision := intent_revision r + 1,
                       intent_updated_at := env_now env, uncertainty_reason := Some (bounded_reason (py_str rt reason))\<rparr>"
    obtain db1 n where u: "update_intent sc db r (\<lambda>q. True) ?f = (db1, n)" by fastforce
    obtain F where rec: "record_intent sc db1 i (env_now env) ''SEND_INTENT_CANCELLED'' (bounded_reason (py_str rt reason))
        (readback_failed ''cancelled intent was not readable'') (\<lambda>db2 q. Inr (db2, F q)) = Inr (db', res)"
      using assms(2) Some True u by (auto simp: cancel_body_def ebind_Inr_iff Let_def)
    show ?thesis
      using record_changes(1)[where k = Tx_Cancel, OF assms(1) Some _ u _ _ _ _ rec] True by (auto simp: change_defs)
  next
    case False
    then show ?thesis using assms(2) Some by (auto simp: cancel_body_def ebind_Inr_iff split: if_splits)
  qed
qed (use assms(2) in \<open>auto simp: cancel_body_def ebind_Inr_iff\<close>)

lemma prepare_body_effect:
  assumes "prepare_body rt rd sc env doc a token payload b key gen db = Inr (db', res)"
  shows "intent_rows db' = intent_rows db \<or>
    (\<exists>row. intent_rows db' = intent_rows db @ [row] \<and> intent_id row \<notin> intent_id ` set (intent_rows db)
       \<and> intent_status row = ''PREPARED'')"
proof -
  obtain ok c msg lo where lv: "live_lease_check rt sc db doc token (env_now env) QUEUE_CLAIM = (ok, c, msg, lo)" by (metis prod_cases4)
  show ?thesis
  proof (cases "ok \<and> lo \<noteq> None
      \<and> find (\<lambda>r. intent_project r = sc_project sc \<and> intent_key r = key) (intent_rows db) = None
      \<and> val_valid (validate_packet rt rd (Typed_Packet doc) a (env_now env) DEFAULT_PACKET_MAX_BYTES)")
    case True
    then obtain l where l: "lo = Some l" by blast
    let ?row = "new_intent rt sc doc l (token_digest rt token) key payload b gen (env_now env)"
    obtain db1 where ins: "insert_intent db ?row = Inr db1"
      and rec: "record_intent sc db1 (intent_id_for key) (env_now env) ''SEND_INTENT_PREPARED'' ''PREPARED''
        (readback_failed ''prepared send intent was not readable'')
        (\<lambda>db2 r. Inr (db2, send_accepted ''PREPARED'' ''durable send intent prepared'' r None True False)) = Inr (db', res)"
      using assms True lv l by (auto simp: prepare_body_def ebind_Inr_iff Let_def)
    have row: "intent_id ?row = intent_id_for key" "intent_project ?row = sc_project sc" "intent_status ?row = ''PREPARED''"
      by (simp_all add: new_intent_def)
    have new: "intent_id ?row \<notin> intent_id ` set (intent_rows db)" and db1: "db1 = set_intents db (intent_rows db @ [?row])"
      using ins by (auto simp: insert_intent_def list_ex_iff split: if_splits)
    have "find (\<lambda>r. intent_project r = sc_project sc \<and> intent_id r = intent_id_for key) (intent_rows db) = None"
      using new unfolding find_None_iff row(1) by (auto simp: image_iff)
    then have "find_intent sc db1 (intent_id_for key) = Some ?row"
      using row by (simp add: db1 find_intent_def find_append)
    note e = record_intent_effect[OF rec this]
    then have "intent_rows db' = intent_rows db @ [?row]" using e(2) db1 by simp
    then show ?thesis using new row(3) by blast
  next
    case False
    then show ?thesis using assms lv
      by (auto simp: prepare_body_def ebind_Inr_iff Let_def split: if_splits option.splits bool.splits)
  qed
qed

section \<open>The machine of all transactions\<close>

text \<open>A run: the store, and for the record the intents whose physical send was begun and those
  reopened on a proof of no delivery, one entry per occurrence. Any coordinator's
  transactions interleave with STOPs and with writers that leave the intents alone (leases, resumes, ticks); the
  operations are sequences of these steps.\<close>

record send_run =
  run_db :: pm_store
  run_begun :: "string list"
  run_retried :: "string list"

inductive send_step :: "runtime \<Rightarrow> iso_reader \<Rightarrow> send_run \<Rightarrow> send_run \<Rightarrow> bool"
  for rt :: runtime and rd :: iso_reader where
  st_prepare: "prepare_body rt rd sc env doc a token payload b key gen (run_db s) = Inr (db', res)
    \<Longrightarrow> send_step rt rd s (s\<lparr>run_db := db'\<rparr>)"
| st_allow: "allow_body rt sc env i doc token (run_db s) = Inr (db', res) \<Longrightarrow> send_step rt rd s (s\<lparr>run_db := db'\<rparr>)"
| st_begin: "begin_body rt sc env i doc token (run_db s) = Inr (db', res)
    \<Longrightarrow> send_step rt rd s (s\<lparr>run_db := db', run_begun := (if sr_accepted res then i # run_begun s else run_begun s)\<rparr>)"
| st_uncertain: "uncertain_body sc env i h reason (run_db s) = Inr (db', res) \<Longrightarrow> send_step rt rd s (s\<lparr>run_db := db'\<rparr>)"
| st_confirm: "confirm_body sc env i doc h ev (run_db s) = Inr (db', res) \<Longrightarrow> send_step rt rd s (s\<lparr>run_db := db'\<rparr>)"
| st_unproven: "unproven_body sc env i (run_db s) = Inr (db', res') \<Longrightarrow> send_step rt rd s (s\<lparr>run_db := db'\<rparr>)"
| st_retry: "retry_body sc env i (run_db s) = Inr (db', res)
    \<Longrightarrow> send_step rt rd s (s\<lparr>run_db := db', run_retried := (if sr_mutated res then i # run_retried s else run_retried s)\<rparr>)"
| st_ack: "ack_body sc env i (run_db s) = Inr (db', res) \<Longrightarrow> send_step rt rd s (s\<lparr>run_db := db'\<rparr>)"
| st_cancel: "cancel_body rt sc env i h reason' (run_db s) = Inr (db', res) \<Longrightarrow> send_step rt rd s (s\<lparr>run_db := db'\<rparr>)"
| st_fence: "fence_body sc i reason now (run_db s) = Inr (db', q) \<Longrightarrow> send_step rt rd s (s\<lparr>run_db := db'\<rparr>)"
| st_stop: "execute_stop_transaction (pm_scope (run_db s)) p expected reason actor now u1 u2 = (sco, res'')
    \<Longrightarrow> send_step rt rd s (s\<lparr>run_db := (run_db s)\<lparr>pm_scope := sco\<rparr>\<rparr>)"
| st_other: "send_intents (pm_scope db') = send_intents (pm_scope (run_db s)) \<Longrightarrow> send_step rt rd s (s\<lparr>run_db := db'\<rparr>)"

definition row_of :: "pm_store \<Rightarrow> string \<Rightarrow> send_intent_row option" where
  "row_of db i = find (\<lambda>r. intent_id r = i) (intent_rows db)"

text \<open>How often a send was begun (\<open>n\<close>) against how often it was reopened (\<open>m\<close>), by status.\<close>

definition attempts_ok :: "string \<Rightarrow> nat \<Rightarrow> nat \<Rightarrow> bool" where
  "attempts_ok st n m \<longleftrightarrow>
     (if st \<in> {''PREPARED'', ''SEND_ALLOWED''} then n = m
      else if st \<in> {''PHYSICAL_SEND_ATTEMPTED'', ''UNCERTAIN'', ''RECONCILIATION_REQUIRED'', ''SEND_CONFIRMED'', ''ACKNOWLEDGED''}
        then n = m + 1
      else n \<le> m + 1)"

definition delivered_ok :: "send_intent_row \<Rightarrow> bool" where
  "delivered_ok r \<longleftrightarrow> (intent_status r \<in> {''SEND_CONFIRMED'', ''ACKNOWLEDGED''} \<longrightarrow>
     (\<exists>ev. positive_evidence ev \<and> evidence_matches ev r \<and> intent_evidence r = evidence_dict ev))"

definition run_ok :: "string \<Rightarrow> send_run \<Rightarrow> bool" where
  "run_ok i s \<longleftrightarrow> (case row_of (run_db s) i of
     None \<Rightarrow> i \<notin> set (run_begun s) \<and> i \<notin> set (run_retried s)
   | Some r \<Rightarrow> attempts_ok (intent_status r) (count_list (run_begun s) i) (count_list (run_retried s) i) \<and> delivered_ok r)"

definition send_inv :: "send_run \<Rightarrow> bool" where
  "send_inv s \<longleftrightarrow> intents_ok (run_db s) \<and> (\<forall>i. run_ok i s)"

definition send_init :: "send_run \<Rightarrow> bool" where
  "send_init s \<longleftrightarrow> intent_rows (run_db s) = [] \<and> run_begun s = [] \<and> run_retried s = []"

lemma intents_ok_replace:
  assumes "intents_ok db" and "intent_id r' = intent_id r"
    and "intent_rows db' = map (\<lambda>x. if x = r then r' else x) (intent_rows db)"
  shows "intents_ok db'"
proof -
  have "map intent_id (intent_rows db') = map intent_id (intent_rows db)" using assms(2,3) by simp
  then show ?thesis using assms(1) by (simp only: intents_ok_def)
qed

lemma changed_rows:
  assumes "changed k i db db'" and "intents_ok db"
  obtains r r' where "row_of db i = Some r" "row_of db' i = Some r'" "same_identity r r'" "evidence_kept r r'"
    "arc k (intent_status r) (intent_status r')" "\<And>j. j \<noteq> i \<Longrightarrow> row_of db' j = row_of db j" "intents_ok db'"
proof -
  obtain r r' where c: "r \<in> set (intent_rows db)" "intent_id r = i" "same_identity r r'" "evidence_kept r r'"
      "arc k (intent_status r) (intent_status r')" "intent_rows db' = map (\<lambda>x. if x = r then r' else x) (intent_rows db)"
    using assms(1) unfolding changed_def by blast
  have id: "intent_id r' = i" using c(2,3) by (simp add: same_identity_def)
  have "find (\<lambda>x. intent_id x = i) rows = Some r" if "r \<in> set rows" "distinct (map intent_id rows)" for rows
    using that c(2) by (induction rows) (auto simp: rev_image_eqI)
  then have f: "row_of db i = Some r" using c(1) assms(2) by (simp add: row_of_def intents_ok_def)
  have f': "row_of db' i = Some r'" using f id by (simp add: row_of_def c(6) find_replace_same)
  have o: "row_of db' j = row_of db j" if "j \<noteq> i" for j
    using that id c(2) by (simp add: row_of_def c(6) find_replace_other)
  have "intents_ok db'" by (rule intents_ok_replace[OF assms(2) _ c(6)]) (simp add: id c(2))
  then show thesis using that f f' c(3-5) o by blast
qed

lemma attempts_arc:
  assumes "arc k a b" and "attempts_ok a n m"
  shows "attempts_ok b (if k = Tx_Begin then n + 1 else n) (if k = Tx_Retry then m + 1 else m)"
  using assms by (cases k) (auto simp: attempts_ok_def)

lemma delivered_kept:
  assumes "delivered_ok r" and "same_identity r r'" and "evidence_kept r r'" and "arc k (intent_status r) (intent_status r')"
  shows "delivered_ok r'"
  using assms by (cases k) (auto simp: delivered_ok_def evidence_kept_def same_identity_def evidence_matches_def)

lemma changed_inv:
  assumes "send_inv s" and "changed k i (run_db s) db'"
  shows "send_inv \<lparr>run_db = db', run_begun = (if k = Tx_Begin then i # run_begun s else run_begun s),
    run_retried = (if k = Tx_Retry then i # run_retried s else run_retried s)\<rparr>"
proof -
  have ok: "intents_ok (run_db s)" "run_ok j s" for j using assms(1) by (simp_all add: send_inv_def)
  from assms(2) ok(1) show ?thesis
  proof (cases rule: changed_rows)
    case (1 r r')
    have "run_ok j \<lparr>run_db = db', run_begun = (if k = Tx_Begin then i # run_begun s else run_begun s),
        run_retried = (if k = Tx_Retry then i # run_retried s else run_retried s)\<rparr>" for j
    proof (cases "j = i")
      case True
      have "attempts_ok (intent_status r) (count_list (run_begun s) i) (count_list (run_retried s) i)" "delivered_ok r"
        using ok(2)[of i] 1(1) by (simp_all add: run_ok_def)
      then show ?thesis
        using True 1(2) attempts_arc[OF 1(5)] delivered_kept[OF _ 1(3-5)] by (auto simp: run_ok_def)
    next
      case False
      then show ?thesis using ok(2)[of j] 1(6) by (auto simp: run_ok_def split: option.splits)
    qed
    then show ?thesis using 1(7) by (simp add: send_inv_def)
  qed
qed

lemma mapped_inv:
  assumes "send_inv s" and "intent_rows db' = map g (intent_rows (run_db s))" and "\<And>r. intent_id (g r) = intent_id r"
    and "\<And>r n m. attempts_ok (intent_status r) n m \<Longrightarrow> attempts_ok (intent_status (g r)) n m"
    and "\<And>r. delivered_ok r \<Longrightarrow> delivered_ok (g r)"
  shows "send_inv (s\<lparr>run_db := db'\<rparr>)"
proof -
  obtain db b t where s: "s = \<lparr>run_db = db, run_begun = b, run_retried = t\<rparr>" by (cases s)
  have "find (\<lambda>r. intent_id r = i) (map g rows) = map_option g (find (\<lambda>r. intent_id r = i) rows)" for i rows
    using assms(3) by (induction rows) auto
  then have row: "row_of db' i = map_option g (row_of db i)" for i using assms(2) by (simp add: row_of_def s)
  have "map intent_id (intent_rows db') = map intent_id (intent_rows db)" using assms(2,3) by (simp add: s)
  moreover have "run_ok i \<lparr>run_db = db', run_begun = b, run_retried = t\<rparr>" if "run_ok i s" for i
    using that assms(4,5) row[of i] by (auto simp: run_ok_def s split: option.splits)
  ultimately show ?thesis using assms(1) by (simp add: send_inv_def s intents_ok_def)
qed

lemma unchanged_inv:
  "send_inv s \<Longrightarrow> intent_rows db' = intent_rows (run_db s) \<Longrightarrow> send_inv (s\<lparr>run_db := db'\<rparr>)"
  using mapped_inv[of s db' "\<lambda>r. r"] by simp

text \<open>What a STOP does to one row.\<close>

definition stop_row :: "string \<Rightarrow> int \<Rightarrow> send_intent_row \<Rightarrow> send_intent_row" where
  "stop_row p now r = (if unsent p r then r\<lparr>intent_status := ''FENCED'', intent_revision := intent_revision r + 1,
     intent_updated_at := now, uncertainty_reason := Some ''STOP_FENCE''\<rparr> else r)"

lemma apply_stop_intents:
  assumes "apply_stop db p c reason actor now u1 u2 = (db', res)"
  shows "send_intents db' = send_intents db \<or> send_intents db' = map_option (map (stop_row p now)) (send_intents db)"
proof (cases "cancel_launches db p now")
  case (Inr r)
  obtain db1 ids1 where r: "r = (db1, ids1)" by fastforce
  obtain db2 ids2 where f: "fence_intents db1 p now = (db2, ids2)" by fastforce
  have "send_intents db2 = map_option (map (stop_row p now)) (send_intents db)"
    using f cancel_launches_others(3)[OF Inr[unfolded r]]
    by (auto simp: fence_intents_def stop_row_def[abs_def] split: option.splits)
  then show ?thesis
    using assms Inr r f by (auto simp: apply_stop_def Let_def dest: insert_audit_others(4) split: prod.splits option.splits if_splits)
qed (use assms in \<open>auto simp: apply_stop_def\<close>)

lemma execute_stop_intents:
  assumes "execute_stop_transaction db p expected reason actor now u1 u2 = (db', res)"
  shows "send_intents db' = send_intents db \<or> send_intents db' = map_option (map (stop_row p now)) (send_intents db)"
  using assms apply_stop_intents
  by (fastforce simp: execute_stop_transaction_def Let_def split: option.splits if_splits)

lemma stop_row_ok:
  "intent_id (stop_row p now r) = intent_id r" "delivered_ok r \<Longrightarrow> delivered_ok (stop_row p now r)"
  "attempts_ok (intent_status r) n m \<Longrightarrow> attempts_ok (intent_status (stop_row p now r)) n m"
  by (auto simp: stop_row_def delivered_ok_def attempts_ok_def unsent_def)

lemma stop_inv:
  assumes "send_inv s" and "execute_stop_transaction (pm_scope (run_db s)) p expected reason actor now u1 u2 = (sco, res)"
  shows "send_inv (s\<lparr>run_db := (run_db s)\<lparr>pm_scope := sco\<rparr>\<rparr>)"
  using execute_stop_intents[OF assms(2)]
proof
  assume "send_intents sco = send_intents (pm_scope (run_db s))"
  then show ?thesis by (intro unchanged_inv assms(1)) (simp add: intent_rows_def)
next
  assume "send_intents sco = map_option (map (stop_row p now)) (send_intents (pm_scope (run_db s)))"
  then show ?thesis
    by (intro mapped_inv[where g = "stop_row p now", OF assms(1)] stop_row_ok)
       (auto simp: intent_rows_def split: option.splits)
qed

lemma appended_inv:
  assumes "send_inv s" and "intent_rows db' = intent_rows (run_db s) @ [row]"
    and "intent_id row \<notin> intent_id ` set (intent_rows (run_db s))" and "intent_status row = ''PREPARED''"
  shows "send_inv (s\<lparr>run_db := db'\<rparr>)"
proof -
  obtain db b t where s: "s = \<lparr>run_db = db, run_begun = b, run_retried = t\<rparr>" by (cases s)
  have none: "row_of db (intent_id row) = None" using assms(3) by (auto simp: s row_of_def find_None_iff image_iff)
  have row: "row_of db' i = (if i = intent_id row then Some row else row_of db i)" for i
    using none assms(2) by (auto simp: s row_of_def find_append split: option.splits)
  have "run_ok i \<lparr>run_db = db', run_begun = b, run_retried = t\<rparr>" if "run_ok i s" for i
    using that none row[of i] assms(4)
    by (auto simp: run_ok_def s attempts_ok_def delivered_ok_def count_list_0_iff split: option.splits)
  moreover have "intents_ok db'" using assms(1-3) by (auto simp: send_inv_def s intents_ok_def)
  ultimately show ?thesis using assms(1) by (simp add: send_inv_def s)
qed

lemma quiet_changed_inv:
  assumes "send_inv s" and "changed k i (run_db s) db'" and "k \<noteq> Tx_Begin" and "k \<noteq> Tx_Retry"
  shows "send_inv (s\<lparr>run_db := db'\<rparr>)"
  using changed_inv[OF assms(1,2)] assms(3,4) by (cases s) simp

lemma send_step_inv:
  assumes "send_step rt rd s s'" and "send_inv s"
  shows "send_inv s'"
proof -
  have ok: "intents_ok (run_db s)" using assms(2) by (simp add: send_inv_def)
  note un = unchanged_inv[OF assms(2)] and q = quiet_changed_inv[OF assms(2)]
  show ?thesis using assms(1)
  proof cases
    case st_prepare
    from prepare_body_effect[OF st_prepare(2)] show ?thesis
      using un appended_inv[OF assms(2)] unfolding st_prepare(1) by blast
  next
    case st_allow
    from allow_body_effect[OF ok st_allow(2)] show ?thesis using un q[of Tx_Allow] q[of Tx_Fence] unfolding st_allow(1) by blast
  next
    case (st_begin sc env i doc token db' res)
    have "send_inv (s\<lparr>run_db := db', run_begun := i # run_begun s\<rparr>)" if "changed Tx_Begin i (run_db s) db'"
      using changed_inv[OF assms(2) that] by (cases s) simp
    moreover have "s\<lparr>run_db := db', run_begun := run_begun s\<rparr> = s\<lparr>run_db := db'\<rparr>" by (cases s) simp
    ultimately show ?thesis
      using begin_body_effect[OF ok st_begin(2)] un q[of Tx_Fence] unfolding st_begin(1) by (auto split: if_splits)
  next
    case st_uncertain
    from uncertain_body_effect[OF ok st_uncertain(2)] show ?thesis using un q[of Tx_Uncertain] unfolding st_uncertain(1) by blast
  next
    case st_confirm
    from confirm_body_effect[OF ok st_confirm(2)] show ?thesis using un q[of Tx_Confirm] unfolding st_confirm(1) by blast
  next
    case st_unproven
    from unproven_body_effect[OF ok st_unproven(2)] show ?thesis using un q[of Tx_Unproven] unfolding st_unproven(1) by blast
  next
    case (st_retry sc env i db' res)
    have "send_inv (s\<lparr>run_db := db', run_retried := i # run_retried s\<rparr>)" if "changed Tx_Retry i (run_db s) db'"
      using changed_inv[OF assms(2) that] by (cases s) simp
    moreover have "s\<lparr>run_db := db', run_retried := run_retried s\<rparr> = s\<lparr>run_db := db'\<rparr>" by (cases s) simp
    ultimately show ?thesis
      using retry_body_effect[OF ok st_retry(2)] un unfolding st_retry(1) by (auto split: if_splits)
  next
    case st_ack
    from ack_body_effect[OF ok st_ack(2)] show ?thesis using un q[of Tx_Ack] unfolding st_ack(1) by blast
  next
    case st_cancel
    from cancel_body_effect[OF ok st_cancel(2)] show ?thesis using un q[of Tx_Cancel] unfolding st_cancel(1) by blast
  next
    case st_fence
    from fence_body_effect[OF ok st_fence(2)] show ?thesis using un q[of Tx_Fence] unfolding st_fence(1) by blast
  next
    case st_stop
    show ?thesis unfolding st_stop(1) by (rule stop_inv[OF assms(2) st_stop(2)])
  next
    case st_other
    show ?thesis unfolding st_other(1) by (rule un) (simp add: intent_rows_def st_other(2))
  qed
qed

lemma send_init_inv: "send_init s \<Longrightarrow> send_inv s"
  by (simp add: send_init_def send_inv_def run_ok_def row_of_def intents_ok_def)

interpretation send_machine: inductive_invariant send_init "send_step rt rd" send_inv for rt rd
  by unfold_locales (auto intro: send_init_inv send_step_inv)

section \<open>Blocked and unblocked sends\<close>

lemma refused_fence: "fence_refusal sc db r c msg now = Inr (db', res) \<Longrightarrow> \<not> sr_accepted res"
  by (auto simp: fence_refusal_def ebind_Inr_iff)

lemma blocked_lease_check:
  assumes "\<And>e b. \<not> check_allowed (check (pm_scope db) (sc_project sc) e b)"
  shows "\<not> fst (live_lease_check rt sc db doc token now b)"
  using assms by (auto simp: live_lease_check_def Let_def split: option.splits)

lemma blocked_allow:
  assumes "\<And>e b. \<not> check_allowed (check (pm_scope db) (sc_project sc) e b)"
    and "allow_body rt sc env i doc token db = Inr (db', res)" and "sr_accepted res"
  shows "db' = db \<and> \<not> sr_mutated res"
proof -
  obtain ok c msg l where lv: "live_lease_check rt sc db doc token (env_now env) DISPATCH_SEND = (ok, c, msg, l)" by (metis prod_cases4)
  then have "\<not> ok" using blocked_lease_check[OF assms(1), where rt = rt and doc = doc and token = token] by (metis fst_conv)
  then show ?thesis using assms(2,3) lv
    by (auto simp: allow_body_def ebind_Inr_iff dest: refused_fence split: option.splits if_splits)
qed

lemma blocked_begin:
  assumes "\<And>e b. \<not> check_allowed (check (pm_scope db) (sc_project sc) e b)"
    and "begin_body rt sc env i doc token db = Inr (db', res)"
  shows "\<not> sr_accepted res"
proof -
  obtain ok c msg l where lv: "live_lease_check rt sc db doc token (env_now env) DISPATCH_SEND = (ok, c, msg, l)" by (metis prod_cases4)
  then have "\<not> ok" using blocked_lease_check[OF assms(1), where rt = rt and doc = doc and token = token] by (metis fst_conv)
  then show ?thesis using assms(2) lv
    by (auto simp: begin_body_def ebind_Inr_iff dest: refused_fence split: option.splits if_splits)
qed

lemma presend_refuses: "presend rt rd sc env db i p a d = Inl (db', Inr res) \<Longrightarrow> \<not> sr_accepted res"
  by (auto simp: presend_def Let_def split: sum.splits option.splits if_splits prod.splits)

lemma blocked_allow_send:
  assumes "\<And>e b. \<not> check_allowed (check (pm_scope db) (sc_project sc) e b)"
    and "allow_send rt rd sc env db i p a token d = (db', Inr res)" and "sr_accepted res"
  shows "db' = db \<and> \<not> sr_mutated res"
proof (cases "presend rt rd sc env db i p a d")
  case (Inl out)
  then show ?thesis using assms(2,3) presend_refuses by (auto simp: allow_send_def)
next
  case (Inr doc)
  with assms(2) show ?thesis
    by (auto simp: allow_send_def assms(3) elim!: transactionE dest: blocked_allow[OF assms(1)])
qed

lemma blocked_begin_send:
  assumes "\<And>e b. \<not> check_allowed (check (pm_scope db) (sc_project sc) e b)"
    and "begin_physical_send rt rd sc env db i p a token d = (db', Inr res)"
  shows "\<not> sr_accepted res"
proof (cases "presend rt rd sc env db i p a d")
  case (Inl out)
  then show ?thesis using assms(2) presend_refuses by (auto simp: begin_physical_send_def)
next
  case (Inr doc)
  with assms(2) show ?thesis
    by (auto simp: begin_physical_send_def elim!: transactionE dest: blocked_begin[OF assms(1)])
qed

lemma blocked_send_once:
  assumes "\<And>e b. \<not> check_allowed (check (pm_scope db) (sc_project sc) e b)"
    and "send_once rt rd sc env ad db b i p a token = (db', b', res)"
  shows "b' = b \<and> (\<forall>r. res = Inr r \<longrightarrow> \<not> sr_accepted r)"
proof -
  let ?d = "ba_snapshot ad b"
  obtain db1 o1 where one: "allow_send rt rd sc (env 0) db i p a token ?d = (db1, o1)" by fastforce
  show ?thesis
  proof (cases o1)
    case (Inr r1)
    show ?thesis
    proof (cases "sr_accepted r1")
      case True
      note same = blocked_allow_send[OF assms(1) one[unfolded Inr] True]
      obtain db2 o2 where two: "begin_physical_send rt rd sc (env 1) db i p a token ?d = (db2, o2)" by fastforce
      have "\<not> sr_accepted r2" if "o2 = Inr r2" for r2 using blocked_begin_send[OF assms(1)] two that by blast
      then show ?thesis using assms(2) one Inr True same two
        by (cases o2) (auto simp: send_once_def Let_def log_if_def)
    qed (use assms(2) one Inr in \<open>auto simp: send_once_def Let_def log_if_def\<close>)
  qed (use assms(2) one in \<open>auto simp: send_once_def Let_def\<close>)
qed

text \<open>Texts of the revisions, which make the audit events of one intent distinct.\<close>

lemma nat_str_step:
  "n < 10 \<Longrightarrow> nat_str n = [char_of (48 + n)]" "\<not> n < 10 \<Longrightarrow> nat_str n = nat_str (n div 10) @ [char_of (48 + n mod 10)]"
  by (subst nat_str.simps; simp)+

lemma nat_str_ne: "nat_str n \<noteq> []"
  by (cases "n < 10") (simp_all add: nat_str_step)

lemma digit_eq:
  assumes "(char_of (48 + a) :: char) = char_of (48 + b)" and "a < 10" and "b < (10::nat)"
  shows "a = b"
  using arg_cong[OF assms(1), of "of_char :: char \<Rightarrow> nat"] assms(2,3) by simp

lemma nat_str_inj: "nat_str m = nat_str n \<Longrightarrow> m = n"
proof (induction m arbitrary: n rule: nat_str.induct)
  case (1 m)
  show ?case
  proof (cases "m < 10"; cases "n < 10")
    assume a: "\<not> m < 10" "\<not> n < 10"
    then have "nat_str (m div 10) = nat_str (n div 10)" "(char_of (48 + m mod 10) :: char) = char_of (48 + n mod 10)"
      using 1(2) by (simp_all add: nat_str_step)
    then have "m div 10 = n div 10" "m mod 10 = n mod 10"
      using 1(1)[OF a(1)] digit_eq[of "m mod 10" "n mod 10"] by simp_all
    then show ?thesis by (metis div_mult_mod_eq)
  next
    assume "m < 10" "n < 10"
    then show ?thesis using 1(2) digit_eq[of m n] by (simp add: nat_str_step)
  qed (use 1(2) in \<open>simp_all add: nat_str_step nat_str_ne nat_str_ne[THEN not_sym]\<close>)
qed

lemma int_str_inj: "0 \<le> m \<Longrightarrow> 0 \<le> n \<Longrightarrow> int_str m = int_str n \<Longrightarrow> m = n"
  by (auto simp: int_str_def dest: nat_str_inj)

text \<open>The tables accept the transactions on an intent whose revision is \<open>n\<close>: the project has its one
  row, and no event of a later revision of the intent is recorded.\<close>

definition event_of :: "send_coordinator \<Rightarrow> string \<Rightarrow> int \<Rightarrow> string" where
  "event_of sc i n = sc_project sc @ '':send-intent:'' @ i @ '':s'' @ int_str n"

definition writable :: "send_coordinator \<Rightarrow> string \<Rightarrow> int \<Rightarrow> pm_store \<Rightarrow> bool" where
  "writable sc i n db \<longleftrightarrow> 0 \<le> n \<and> (\<exists>r. filter (\<lambda>q. pr_id q = sc_project sc) (pm_projects db) = [r])
     \<and> (case audit_events (pm_scope db) of None \<Rightarrow> True
        | Some evs \<Rightarrow> \<forall>ev\<in>set evs. 1 \<le> event_revision ev \<and> (\<forall>m>n. event_id ev \<noteq> event_of sc i m))"

lemma next_event_revision_pos:
  assumes "\<forall>ev\<in>set evs. 1 \<le> event_revision ev"
  shows "1 \<le> next_event_revision evs p"
proof (cases "filter (\<lambda>ev. event_project ev = p) evs")
  case (Cons ev rest)
  then have "ev \<in> set evs" "event_project ev = p" by (auto simp: filter_eq_Cons_iff)
  then show ?thesis using assms next_event_revision_greater[of ev evs p] by force
qed (simp add: next_event_revision_def)

lemma find_filter: "find P xs = (case filter P xs of [] \<Rightarrow> None | x # _ \<Rightarrow> Some x)"
  by (induction xs) auto

lemma filter_map_keep: "(\<And>x. P (f x) = P x) \<Longrightarrow> filter P (map f xs) = map f (filter P xs)"
  by (induction xs) auto

lemma bump_writable:
  assumes "writable sc i n db"
  obtains db' where "bump_project_revision lost db (sc_project sc) now = Inr db'" "writable sc i n db'"
proof -
  obtain r where r: "filter (\<lambda>q. pr_id q = sc_project sc) (pm_projects db) = [r]" using assms by (auto simp: writable_def)
  let ?hit = "\<lambda>q. pr_id q = sc_project sc \<and> pr_revision q = pr_revision r"
  let ?f = "\<lambda>q. if ?hit q then q\<lparr>pr_revision := pr_revision r + 1, pr_updated_at := now\<rparr> else q"
  have "filter ?hit (pm_projects db) = filter (\<lambda>q. pr_revision q = pr_revision r) [r]"
    unfolding r[symmetric] by (simp add: conj_commute)
  then have one: "length (filter ?hit (pm_projects db)) = 1" by simp
  have "filter (\<lambda>q. pr_id q = sc_project sc) (map ?f (pm_projects db)) = map ?f [r]"
    unfolding r[symmetric] by (rule filter_map_keep) simp
  moreover have "find_project db (sc_project sc) = Some r" by (simp add: find_project_def find_filter r)
  ultimately show ?thesis using assms one
    by (intro that[of "db\<lparr>pm_projects := map ?f (pm_projects db)\<rparr>"]) (simp_all add: bump_project_revision_def writable_def)
qed

lemma record_writable:
  assumes "writable sc i n db" and "find_intent sc db i = Some r" and "intent_revision r = n + 1"
  obtains db' where "record_intent sc db i now kind reason missing (\<lambda>db2 q. Inr (db2, F q)) = Inr (db', F r)"
    "writable sc i (n + 1) db'"
proof -
  obtain db2 where b: "bump_project_revision ''send-intent project revision CAS lost'' db (sc_project sc) now = Inr db2"
      "writable sc i n db2"
    by (rule bump_writable[OF assms(1)])
  have f: "find_intent sc db2 i = Some r"
    using assms(2) bump_project_others(1)[OF b(1)] by (simp add: find_intent_def intent_rows_def)
  let ?e = "intent_event sc r kind reason now"
  have id: "event_id (?e k) = event_of sc i (n + 1)" "event_revision (?e k) = k" for k
    using find_intentD[OF assms(2)] assms(3) by (simp_all add: intent_event_def event_of_def)
  have n: "0 \<le> n" using b(2) by (simp add: writable_def)
  have "\<exists>db3. append_audit db2 ?e (sc_project sc) = Inr db3 \<and> writable sc i (n + 1) db3"
  proof (cases "audit_events (pm_scope db2)")
    case None
    then show ?thesis using b(2) by (simp add: append_audit_def writable_def)
  next
    case (Some evs)
    then have evs: "\<forall>ev\<in>set evs. 1 \<le> event_revision ev \<and> (\<forall>m>n. event_id ev \<noteq> event_of sc i m)"
      using b(2) by (simp add: writable_def)
    let ?k = "next_event_revision evs (sc_project sc)"
    have k: "1 \<le> ?k" using evs by (simp add: next_event_revision_pos)
    have "\<not> list_ex (\<lambda>x. event_id x = event_of sc i (n + 1)) evs" using evs by (auto simp: list_ex_iff)
    then have "insert_audit (pm_scope db2) (?e ?k) = ((pm_scope db2)\<lparr>audit_events := Some (evs @ [?e ?k])\<rparr>, None)"
      using k by (simp add: insert_audit_def Some id)
    moreover have "event_of sc i (n + 1) \<noteq> event_of sc i m" if "n + 1 < m" for m
      using that n int_str_inj[of "n + 1" m] by (auto simp: event_of_def)
    ultimately show ?thesis using b(2) evs k
      by (intro exI[of _ "db2\<lparr>pm_scope := (pm_scope db2)\<lparr>audit_events := Some (evs @ [?e ?k])\<rparr>\<rparr>"])
         (simp add: append_audit_def Some writable_def id ball_Un)
  qed
  then show ?thesis using that b(1) f by (auto simp: record_intent_def ebind_def)
qed

text \<open>An intent \<open>r\<close> of the store that its transactions can advance, with the packet and the token that own it,
  and the lease and the fence that let it be sent at the instants \<open>ts\<close>.\<close>

definition sendable ::
    "runtime \<Rightarrow> send_coordinator \<Rightarrow> string \<Rightarrow> pydict \<Rightarrow> pyval \<Rightarrow> int set \<Rightarrow> send_intent_row \<Rightarrow> pm_store \<Rightarrow> bool" where
  "sendable rt sc i doc token ts r db \<longleftrightarrow> intents_ok db \<and> find_intent sc db i = Some r \<and> writable sc i (intent_revision r) db
     \<and> packet_matches r doc \<and> intent_owner_hash r = token_digest rt token \<and> token_digest rt token \<noteq> []
     \<and> (\<forall>t\<in>ts. fst (live_lease_check rt sc db doc token t DISPATCH_SEND))"

lemma live_lease_cong:
  assumes "pm_leases db' = pm_leases db" "scope_cursors (pm_scope db') = scope_cursors (pm_scope db)"
    "stop_fences (pm_scope db') = stop_fences (pm_scope db)"
  shows "live_lease_check rt sc db' doc token now b = live_lease_check rt sc db doc token now b"
proof -
  have "check (pm_scope db') p e b = check (pm_scope db) p e b" for p e
    unfolding check_def find_cursor_cong[OF assms(2)] find_fence_cong[OF assms(3)] by (rule refl)
  then show ?thesis unfolding live_lease_check_def find_lease_def assms(1) by presburger
qed

lemma writable_project: "writable sc i n db \<Longrightarrow> send_ensure_project sc db = Inr ()"
  by (auto simp: writable_def send_ensure_project_def find_project_def find_filter)

lemma writable_cong:
  "pm_projects db' = pm_projects db \<Longrightarrow> audit_events (pm_scope db') = audit_events (pm_scope db) \<Longrightarrow> writable sc i n db' = writable sc i n db"
  by (simp add: writable_def)

lemma advance:
  assumes "sendable rt sc i doc token ts r db" and "cond r" and "same_identity r (f r)" and "intent_revision (f r) = intent_revision r + 1"
  obtains db1 db' where "update_intent sc db r cond f = (db1, 1)"
    "record_intent sc db1 i now kind reason missing (\<lambda>db2 q. Inr (db2, F q)) = Inr (db', F (f r))"
    "sendable rt sc i doc token ts (f r) db'"
proof -
  have a: "intents_ok db" "find_intent sc db i = Some r" "writable sc i (intent_revision r) db" "packet_matches r doc"
      "intent_owner_hash r = token_digest rt token" "token_digest rt token \<noteq> []"
      "\<forall>t\<in>ts. fst (live_lease_check rt sc db doc token t DISPATCH_SEND)"
    using assms(1) by (simp_all add: sendable_def)
  let ?db1 = "set_intents db (map (\<lambda>x. if x = r then f r else x) (intent_rows db))"
  have u: "update_intent sc db r cond f = (?db1, 1)" by (rule update_intent_found[where cond = cond and f = f, OF a(1,2) assms(2)])
  have w: "writable sc i (intent_revision r) ?db1" using a(3) by (simp add: writable_def)
  have f: "find_intent sc ?db1 i = Some (f r)" by (rule find_intent_replace[OF a(2) assms(3)])
  obtain db' where rec: "record_intent sc ?db1 i now kind reason missing (\<lambda>db2 q. Inr (db2, F q)) = Inr (db', F (f r))"
      "writable sc i (intent_revision r + 1) db'"
    by (rule record_writable[OF w f assms(4)])
  note e = record_intent_effect[OF rec(1) f]
  have ok: "intents_ok db'"
    by (rule intents_ok_replace[OF a(1), of "f r" r]) (use e(2) assms(3) in \<open>simp_all add: same_identity_def\<close>)
  have fr: "find_intent sc db' i = Some (f r)" using f e(2) by (simp add: find_intent_cong[of db' ?db1])
  have m: "packet_matches (f r) doc" "intent_owner_hash (f r) = token_digest rt token"
    using a(4,5) assms(3) by (simp_all add: packet_matches_def same_identity_def)
  have "live_lease_check rt sc db' doc token t b = live_lease_check rt sc db doc token t b" for t b
    by (rule live_lease_cong) (simp_all add: e)
  then have "sendable rt sc i doc token ts (f r) db'"
    using a(6,7) ok fr m rec(2) assms(4) by (simp add: sendable_def)
  with u rec(1) show ?thesis by (rule that)
qed

lemma sendable_live:
  assumes "sendable rt sc i doc token ts r db" and "t \<in> ts"
  obtains c msg l where "live_lease_check rt sc db doc token t DISPATCH_SEND = (True, c, msg, l)"
proof -
  have "fst (live_lease_check rt sc db doc token t DISPATCH_SEND)" using assms by (simp add: sendable_def)
  then show ?thesis using that by (cases "live_lease_check rt sc db doc token t DISPATCH_SEND") auto
qed

lemma allow_accepts:
  assumes "sendable rt sc i doc token ts r db" and "intent_status r \<in> {''PREPARED'', ''SEND_ALLOWED''}" and "env_now env \<in> ts"
  obtains db' q res where "allow_body rt sc env i doc token db = Inr (db', res)" "sendable rt sc i doc token ts q db'"
    "same_identity r q" "intent_status q = ''SEND_ALLOWED''" "sr_accepted res" "sr_mutated res = (intent_status r = ''PREPARED'')"
proof (cases "intent_status r = ''PREPARED''")
  case True
  let ?f = "\<lambda>q. q\<lparr>intent_status := ''SEND_ALLOWED'', intent_revision := intent_revision r + 1, intent_updated_at := env_now env\<rparr>"
  obtain c msg l where lv: "live_lease_check rt sc db doc token (env_now env) DISPATCH_SEND = (True, c, msg, l)"
    by (rule sendable_live[OF assms(1,3)])
  have id: "same_identity r (?f r)" by (simp add: same_identity_def)
  obtain db1 db' where "update_intent sc db r (\<lambda>q. intent_status q = ''PREPARED'') ?f = (db1, 1)"
    "record_intent sc db1 i (env_now env) ''SEND_INTENT_ALLOWED'' ''SEND_ALLOWED''
      (readback_failed ''SEND_ALLOWED intent was not readable'')
      (\<lambda>db2 q. Inr (db2, send_accepted ''SEND_ALLOWED'' ''DOM and authority preconditions validated'' q None True False))
      = Inr (db', send_accepted ''SEND_ALLOWED'' ''DOM and authority preconditions validated'' (?f r) None True False)"
    "sendable rt sc i doc token ts (?f r) db'"
    by (rule advance[where cond = "\<lambda>q. intent_status q = ''PREPARED''" and f = ?f and F =
        "\<lambda>q. send_accepted ''SEND_ALLOWED'' ''DOM and authority preconditions validated'' q None True False", OF assms(1) True id])
      simp
  then show ?thesis
    using assms(1) True lv by (intro that[of db' _ "?f r"]) (auto simp: allow_body_def sendable_def ebind_def writable_project same_identity_def)
next
  case False
  then show ?thesis
    using assms(1,2) by (intro that[of db _ r]) (auto simp: allow_body_def sendable_def ebind_def writable_project same_identity_def)
qed

lemma begin_accepts:
  assumes "sendable rt sc i doc token ts r db" and "intent_status r = ''SEND_ALLOWED''" and "env_now env \<in> ts"
  obtains db' q res where "begin_body rt sc env i doc token db = Inr (db', res)" "sendable rt sc i doc token ts q db'"
    "same_identity r q" "intent_status q = ''PHYSICAL_SEND_ATTEMPTED''" "sr_accepted res" "sr_intent res = Some q"
proof -
  let ?f = "\<lambda>q. q\<lparr>intent_status := ''PHYSICAL_SEND_ATTEMPTED'', intent_revision := intent_revision r + 1,
                      intent_updated_at := env_now env, intent_attempted_at := Some (env_now env)\<rparr>"
  let ?F = "\<lambda>q. send_accepted ''PHYSICAL_SEND_ATTEMPTED'' ''physical send boundary was durably entered'' q None True False"
  obtain c msg l where lv: "live_lease_check rt sc db doc token (env_now env) DISPATCH_SEND = (True, c, msg, l)"
    by (rule sendable_live[OF assms(1,3)])
  have id: "same_identity r (?f r)" by (simp add: same_identity_def)
  obtain db1 db' where "update_intent sc db r (\<lambda>q. intent_status q = ''SEND_ALLOWED'') ?f = (db1, 1)"
    "record_intent sc db1 i (env_now env) ''PHYSICAL_SEND_ATTEMPTED'' ''PHYSICAL_SEND_ATTEMPTED''
      (readback_failed ''physical-attempt intent was not readable'') (\<lambda>db2 q. Inr (db2, ?F q)) = Inr (db', ?F (?f r))"
    "sendable rt sc i doc token ts (?f r) db'"
    by (rule advance[where cond = "\<lambda>q. intent_status q = ''SEND_ALLOWED''" and f = ?f and F = ?F, OF assms(1,2) id]) simp
  then show ?thesis
    using assms(1,2) lv by (intro that[of db' _ "?f r"]) (auto simp: begin_body_def sendable_def ebind_def writable_project same_identity_def)
qed

lemma confirm_accepts:
  assumes "sendable rt sc i doc token ts r db" and "intent_status r = ''PHYSICAL_SEND_ATTEMPTED''"
    and "positive_evidence ev" and "evidence_matches ev r"
  obtains db' q res where "confirm_body sc env i doc (token_digest rt token) ev db = Inr (db', res)"
    "sendable rt sc i doc token ts q db'" "same_identity r q" "intent_status q = ''SEND_CONFIRMED''"
    "intent_evidence q = evidence_dict ev" "sr_accepted res" "sr_mutated res" "sr_code res = ''SEND_CONFIRMED''" "sr_intent res = Some q"
proof -
  let ?f = "\<lambda>q. q\<lparr>intent_status := ''SEND_CONFIRMED'', intent_revision := intent_revision r + 1,
                  intent_updated_at := env_now env, intent_confirmed_at := Some (env_now env),
                  intent_evidence := evidence_dict ev, uncertainty_reason := None\<rparr>"
  let ?F = "\<lambda>q. send_accepted ''SEND_CONFIRMED'' ''structured send evidence confirmed delivery'' q (Some ev) True False"
  have id: "same_identity r (?f r)" by (simp add: same_identity_def)
  obtain db1 db' where "update_intent sc db r (\<lambda>q. True) ?f = (db1, 1)"
    "record_intent sc db1 i (env_now env) ''SEND_CONFIRMED'' ''SEND_CONFIRMED''
      (readback_failed ''confirmed intent was not readable'') (\<lambda>db2 q. Inr (db2, ?F q)) = Inr (db', ?F (?f r))"
    "sendable rt sc i doc token ts (?f r) db'"
    by (rule advance[where cond = "\<lambda>q. True" and f = ?f and F = ?F, OF assms(1) TrueI id]) simp
  then show ?thesis
    using assms by (intro that[of db' _ "?f r"]) (auto simp: confirm_body_def sendable_def ebind_def writable_project same_identity_def)
qed

lemma presend_passes:
  assumes "canonical_packet rt rd p = Inr doc"
    and "val_valid (validate_packet rt rd (Typed_Packet doc) a (env_now env) DEFAULT_PACKET_MAX_BYTES)"
    and "find_intent sc db i = Some q" and "fst (dom_check rt q d)"
  shows "presend rt rd sc env db i p a d = Inr doc"
  using assms by (cases "dom_check rt q d") (simp add: presend_def)

lemma dom_check_same: "same_identity r q \<Longrightarrow> dom_check rt q d = dom_check rt r d"
  by (simp add: dom_check_def same_identity_def)

lemma same_identity_trans: "same_identity r q \<Longrightarrow> same_identity q x \<Longrightarrow> same_identity r x"
  by (simp add: same_identity_def)

lemma row_of_found:
  assumes "find_intent sc db i = Some r" and "intents_ok db"
  shows "row_of db i = Some r"
proof -
  have r: "r \<in> set (intent_rows db)" "intent_id r = i" using find_intentD[OF assms(1)] by simp_all
  have "find (\<lambda>x. intent_id x = i) rows = Some r" if "r \<in> set rows" "distinct (map intent_id rows)" for rows
    using that r(2) by (induction rows) (auto simp: rev_image_eqI)
  then show ?thesis using r(1) assms(2) by (simp add: row_of_def intents_ok_def)
qed

section \<open>An example run\<close>

definition chat_binding :: conversation_binding where
  "chat_binding = \<lparr>cb_conversation = ''chat'', cb_proof = digest_of sample_runtime ''existing-chat:chat'',
     cb_source = ''canonical'', cb_verified = True\<rparr>"

definition chat_sender :: send_coordinator where
  "chat_sender = \<lparr>sc_project = ''p'', sc_lease = sample_coordinator\<rparr>"

definition chat_pm :: pm_store where
  "chat_pm = held_pm\<lparr>pm_scope := sample_store\<lparr>send_intents := Some []\<rparr>, pm_bindings := [''b1'']\<rparr>"

abbreviation chat_token :: pyval where
  "chat_token \<equiv> PStr (replicate 43 (CHR ''t''))"

lemma sample_packet_fields:
  "pk_str sample_packet ''project_id'' = ''p''" "pk_str sample_packet ''execution_binding_id'' = ''b1''"
  by (simp_all add: pk_str_def sample_packet_def py_get_with_digest is_digest_field_def) (simp_all add: sample_raw_def py_get_def)

lemma chat_lease:
  assumes "now < 30000001"
  shows "\<exists>c msg l. live_lease_check sample_runtime chat_sender chat_pm sample_packet chat_token now b = (True, c, msg, Some l)
    \<and> ls_generation l = 1"
proof -
  have "check_allowed (check (pm_scope chat_pm) ''p'' 1 b)"
    by (simp add: check_allowed_iff chat_pm_def sample_store_def find_cursor_def find_fence_def sample_cursor_def is_stopped_def)
  moreover have "token_digest sample_runtime chat_token \<noteq> []" by code_simp
  moreover have "ls_continuation (grant rt lc env w g n c (new_lease rt lc doc t)) = pk_str doc ''continuation_id''"
      "ls_digest (grant rt lc env w g n c (new_lease rt lc doc t)) = pk_str doc ''packet_digest''" for rt lc env w g n c doc t
    by (simp_all add: grant_def new_lease_def Let_def)
  ultimately show ?thesis using assms
    by (simp add: live_lease_check_def find_lease_def chat_pm_def held_pm_def chat_sender_def sample_coordinator_def
        sample_packet_epoch env_at_def Let_def)
qed

lemma chat_prepared:
  obtains db' r res where "prepare_body sample_runtime sample_reader chat_sender (env_at 2 43) sample_packet (Snapshot sample_authority)
      chat_token ''go'' (Some chat_binding) ''sha256:k'' 1 chat_pm = Inr (db', res)"
    "sendable sample_runtime chat_sender ''send-intent-k'' sample_packet chat_token {3, 4} r db'" "intent_status r = ''PREPARED''"
    "intent_conversation r = Some ''chat''" "intent_proof r = Some (digest_of sample_runtime ''existing-chat:chat'')"
proof -
  obtain c msg l where lv: "live_lease_check sample_runtime chat_sender chat_pm sample_packet chat_token 2 QUEUE_CLAIM = (True, c, msg, Some l)"
      "ls_generation l = 1"
    using chat_lease[of 2 QUEUE_CLAIM] by auto
  let ?r = "new_intent sample_runtime chat_sender sample_packet l (token_digest sample_runtime chat_token) ''sha256:k'' ''go'' (Some chat_binding) 1 2"
  let ?F = "\<lambda>r. send_accepted ''PREPARED'' ''durable send intent prepared'' r None True False"
  let ?db1 = "set_intents chat_pm [?r]"
  have id: "intent_id ?r = ''send-intent-k''" by (simp add: new_intent_def intent_id_for_def)
  have none: "intent_rows chat_pm = []" by (simp add: intent_rows_def chat_pm_def)
  have ins: "insert_intent chat_pm ?r = Inr ?db1"
    using lv(2) by (simp add: insert_intent_def none new_intent_def sample_packet_epoch sample_packet_fields) (simp add: chat_pm_def)
  have f: "find_intent chat_sender ?db1 ''send-intent-k'' = Some ?r"
    by (simp add: find_intent_def id) (simp add: new_intent_def)
  have w: "writable chat_sender ''send-intent-k'' 0 ?db1"
    by (simp add: writable_def chat_pm_def held_pm_def sample_pm_def sample_store_def chat_sender_def)
  obtain db' where rec: "record_intent chat_sender ?db1 ''send-intent-k'' 2 ''SEND_INTENT_PREPARED'' ''PREPARED''
      (readback_failed ''prepared send intent was not readable'') (\<lambda>db2 q. Inr (db2, ?F q)) = Inr (db', ?F ?r)"
      "writable chat_sender ''send-intent-k'' (0 + 1) db'"
    by (rule record_writable[OF w f]) (simp add: new_intent_def)
  note e = record_intent_effect[OF rec(1) f]
  have same: "live_lease_check sample_runtime chat_sender db' sample_packet chat_token t b
      = live_lease_check sample_runtime chat_sender chat_pm sample_packet chat_token t b" for t b
    by (rule live_lease_cong) (simp_all add: e)
  have "fst (live_lease_check sample_runtime chat_sender db' sample_packet chat_token t DISPATCH_SEND)" if "t \<in> {3, 4}" for t
    using chat_lease[of t DISPATCH_SEND] that unfolding same by auto
  moreover have "intents_ok db'" using e(2) by (simp add: intents_ok_def)
  moreover have "find_intent chat_sender db' ''send-intent-k'' = Some ?r" using f e(2) by (simp add: find_intent_cong[of db' ?db1])
  moreover have "packet_matches ?r sample_packet" "intent_owner_hash ?r = token_digest sample_runtime chat_token" "intent_revision ?r = 1"
    by (simp_all add: packet_matches_def new_intent_def sample_packet_fields chat_sender_def)
  moreover have "token_digest sample_runtime chat_token \<noteq> []" by code_simp
  ultimately have snd: "sendable sample_runtime chat_sender ''send-intent-k'' sample_packet chat_token {3, 4} ?r db'"
    using rec(2) by (simp add: sendable_def)
  have "send_ensure_project chat_sender chat_pm = Inr ()"
    by (rule writable_project[of _ "''send-intent-k''" 0]) (use w in \<open>simp add: writable_def\<close>)
  then have "prepare_body sample_runtime sample_reader chat_sender (env_at 2 43) sample_packet (Snapshot sample_authority)
      chat_token ''go'' (Some chat_binding) ''sha256:k'' 1 chat_pm = Inr (db', ?F ?r)"
    using lv ins rec(1) sample_packet_valid[OF _ sample_packet_size]
    by (simp add: prepare_body_def ebind_def none env_at_def intent_id_for_def Let_def)
  then show ?thesis by (rule that[OF _ snd]) (simp_all add: new_intent_def chat_binding_def)
qed

abbreviation run_state :: "pm_store \<Rightarrow> string list \<Rightarrow> string list \<Rightarrow> send_run" where
  "run_state db n m \<equiv> \<lparr>run_db = db, run_begun = n, run_retried = m\<rparr>"

lemma run_prepare:
  "reachable I (send_step rt rd) (run_state db n m) \<Longrightarrow> prepare_body rt rd sc env doc a token payload b key gen db = Inr (db', res)
    \<Longrightarrow> reachable I (send_step rt rd) (run_state db' n m)"
  using st_prepare[of rt rd sc env doc a token payload b key gen "run_state db n m"] by (auto dest: reach_step)

lemma run_allow:
  "reachable I (send_step rt rd) (run_state db n m) \<Longrightarrow> allow_body rt sc env i doc token db = Inr (db', res)
    \<Longrightarrow> reachable I (send_step rt rd) (run_state db' n m)"
  using st_allow[of rt sc env i doc token "run_state db n m"] by (auto dest: reach_step)

lemma run_begin:
  "reachable I (send_step rt rd) (run_state db n m) \<Longrightarrow> begin_body rt sc env i doc token db = Inr (db', res) \<Longrightarrow> sr_accepted res
    \<Longrightarrow> reachable I (send_step rt rd) (run_state db' (i # n) m)"
  using st_begin[of rt sc env i doc token "run_state db n m"] by (auto dest: reach_step)

lemma run_confirm:
  "reachable I (send_step rt rd) (run_state db n m) \<Longrightarrow> confirm_body sc env i doc h ev db = Inr (db', res)
    \<Longrightarrow> reachable I (send_step rt rd) (run_state db' n m)"
  using st_confirm[of sc env i doc h ev "run_state db n m"] by (auto dest: reach_step)

lemma sendable_row: "sendable rt sc i doc token ts r db \<Longrightarrow> row_of db i = Some r"
  by (auto simp: sendable_def intro: row_of_found)

lemma chat_begun:
  obtains db r where "reachable send_init (send_step sample_runtime sample_reader) (run_state db [''send-intent-k''] [])"
    "sendable sample_runtime chat_sender ''send-intent-k'' sample_packet chat_token {3, 4} r db"
    "intent_status r = ''PHYSICAL_SEND_ATTEMPTED''" "intent_conversation r = Some ''chat''"
proof -
  let ?step = "send_step sample_runtime sample_reader"
  let ?i = "''send-intent-k''"
  have r0: "reachable send_init ?step (run_state chat_pm [] [])"
    by (rule reach_init) (simp add: send_init_def intent_rows_def chat_pm_def)
  obtain db1 r1 res1 where one: "prepare_body sample_runtime sample_reader chat_sender (env_at 2 43) sample_packet
      (Snapshot sample_authority) chat_token ''go'' (Some chat_binding) ''sha256:k'' 1 chat_pm = Inr (db1, res1)"
      "sendable sample_runtime chat_sender ?i sample_packet chat_token {3, 4} r1 db1" "intent_status r1 = ''PREPARED''"
      "intent_conversation r1 = Some ''chat''"
    by (rule chat_prepared)
  obtain db2 r2 res2 where two: "allow_body sample_runtime chat_sender (env_at 3 43) ?i sample_packet chat_token db1 = Inr (db2, res2)"
      "sendable sample_runtime chat_sender ?i sample_packet chat_token {3, 4} r2 db2" "same_identity r1 r2" "intent_status r2 = ''SEND_ALLOWED''"
    by (rule allow_accepts[OF one(2), of "env_at 3 43"]) (simp_all add: one(3) env_at_def)
  obtain db3 r3 res3 where three: "begin_body sample_runtime chat_sender (env_at 4 43) ?i sample_packet chat_token db2 = Inr (db3, res3)"
      "sendable sample_runtime chat_sender ?i sample_packet chat_token {3, 4} r3 db3" "same_identity r2 r3"
      "intent_status r3 = ''PHYSICAL_SEND_ATTEMPTED''" "sr_accepted res3"
    by (rule begin_accepts[OF two(2,4), of "env_at 4 43"]) (simp_all add: env_at_def)
  have "reachable send_init ?step (run_state db3 [?i] [])"
    using run_begin[OF run_allow[OF run_prepare[OF r0 one(1)] two(1)] three(1,5)] .
  moreover have "intent_conversation r3 = Some ''chat''" using one(4) two(3) three(3) by (simp add: same_identity_def)
  ultimately show ?thesis using three(2,4) by (intro that)
qed

definition chat_evidence :: "send_intent_row \<Rightarrow> send_evidence" where
  "chat_evidence r = fake_evidence (new_fake_browser (Some ''chat'') True True) r"

lemma chat_evidence_ok:
  assumes "intent_conversation r = Some ''chat''"
  shows "positive_evidence (chat_evidence r)" "evidence_matches (chat_evidence r) r"
  using assms by (simp_all add: chat_evidence_def fake_evidence_def new_fake_browser_def positive_evidence_def evidence_matches_def)

lemma chat_confirmed:
  obtains db r where "reachable send_init (send_step sample_runtime sample_reader) (run_state db [''send-intent-k''] [])"
    "row_of db ''send-intent-k'' = Some r" "intent_status r = ''SEND_CONFIRMED''"
proof (rule chat_begun)
  fix db r assume a: "reachable send_init (send_step sample_runtime sample_reader) (run_state db [''send-intent-k''] [])"
    "sendable sample_runtime chat_sender ''send-intent-k'' sample_packet chat_token {3, 4} r db"
    "intent_status r = ''PHYSICAL_SEND_ATTEMPTED''" "intent_conversation r = Some ''chat''"
  obtain db' q res where c: "confirm_body chat_sender (env_at 5 43) ''send-intent-k'' sample_packet
      (token_digest sample_runtime chat_token) (chat_evidence r) db = Inr (db', res)"
      "sendable sample_runtime chat_sender ''send-intent-k'' sample_packet chat_token {3, 4} q db'" "intent_status q = ''SEND_CONFIRMED''"
    by (rule confirm_accepts[OF a(2,3) chat_evidence_ok[OF a(4)], of "env_at 5 43"])
  show thesis by (rule that[OF run_confirm[OF a(1) c(1)] sendable_row[OF c(2)] c(3)])
qed

section \<open>Properties\<close>

text \<open>C3: No send is repeated blindly. In every interleaving of the transactions of any number of coordinators,
  with STOPs and other writers of the database between them, the physical send of an intent is begun at most once
  more than it was reopened by a reconciliation, and exactly once more when the intent is attempted, uncertain, confirmed
  or acknowledged.\<close>

theorem physical_sends_bounded:
  assumes "reachable send_init (send_step rt rd) s"
  shows "count_list (run_begun s) i \<le> 1 + count_list (run_retried s) i
    \<and> (\<forall>r. row_of (run_db s) i = Some r
         \<and> intent_status r \<in> {''PHYSICAL_SEND_ATTEMPTED'', ''UNCERTAIN'', ''RECONCILIATION_REQUIRED'', ''SEND_CONFIRMED'', ''ACKNOWLEDGED''}
       \<longrightarrow> count_list (run_begun s) i = 1 + count_list (run_retried s) i)"
proof -
  have "run_ok i s" using send_machine.inv_reachable[OF assms] by (simp add: send_inv_def)
  then show ?thesis by (auto simp: run_ok_def attempts_ok_def count_list_0_iff split: option.splits if_splits)
qed

text \<open>C3 applied to a run that prepared, allowed and attempted one send.\<close>

theorem physical_sends_bounded_witness:
  "\<exists>s. reachable send_init (send_step sample_runtime sample_reader) s \<and> run_begun s = [''send-intent-k'']
     \<and> count_list (run_begun s) ''send-intent-k'' = 1 + count_list (run_retried s) ''send-intent-k''"
proof (rule chat_begun)
  fix db r assume s: "reachable send_init (send_step sample_runtime sample_reader) (run_state db [''send-intent-k''] [])"
    "sendable sample_runtime chat_sender ''send-intent-k'' sample_packet chat_token {3, 4} r db" "intent_status r = ''PHYSICAL_SEND_ATTEMPTED''"
  show ?thesis using s(1) physical_sends_bounded[OF s(1), of "''send-intent-k''"] sendable_row[OF s(2)] s(3)
    by (intro exI[of _ "run_state db [''send-intent-k''] []"]) simp
qed

text \<open>C19: An intent counts as delivered only on positive evidence: in every reachable state a confirmed or acknowledged
  intent was physically sent and carries structured evidence, neither a focus nor an empty composer, that names its own
  identifier, continuation, packet, execution binding, conversation and message.\<close>

theorem confirmed_only_on_evidence:
  assumes "reachable send_init (send_step rt rd) s" and "row_of (run_db s) i = Some r"
    and "intent_status r \<in> {''SEND_CONFIRMED'', ''ACKNOWLEDGED''}"
  shows "i \<in> set (run_begun s) \<and> (\<exists>ev. intent_evidence r = evidence_dict ev \<and> positive_evidence ev \<and> evidence_matches ev r)"
proof -
  have "run_ok i s" using send_machine.inv_reachable[OF assms(1)] by (simp add: send_inv_def)
  then have "attempts_ok (intent_status r) (count_list (run_begun s) i) (count_list (run_retried s) i)" "delivered_ok r"
    using assms(2) by (simp_all add: run_ok_def)
  then show ?thesis using assms(3) count_list_0_iff[of "run_begun s" i]
    by (auto simp: attempts_ok_def delivered_ok_def)
qed

text \<open>C19 applied to a run that confirmed one send.\<close>

theorem confirmed_only_on_evidence_witness:
  "\<exists>s r ev. reachable send_init (send_step sample_runtime sample_reader) s \<and> row_of (run_db s) ''send-intent-k'' = Some r
     \<and> intent_status r = ''SEND_CONFIRMED'' \<and> intent_evidence r = evidence_dict ev \<and> positive_evidence ev \<and> evidence_matches ev r"
proof (rule chat_confirmed)
  fix db r assume s: "reachable send_init (send_step sample_runtime sample_reader) (run_state db [''send-intent-k''] [])"
    "row_of db ''send-intent-k'' = Some r" "intent_status r = ''SEND_CONFIRMED''"
  then obtain ev where "intent_evidence r = evidence_dict ev" "positive_evidence ev" "evidence_matches ev r"
    using confirmed_only_on_evidence[OF s(1), of "''send-intent-k''" r] by auto
  then show ?thesis using s by (intro exI[of _ "run_state db [''send-intent-k''] []"] exI[of _ r] exI[of _ ev]) simp
qed

text \<open>C5: STOP reaches the browser: once a STOP of the project has returned, a send of any intent of that project leaves the
  browser untouched, whatever packet, authority, token and clock the caller supplies, and is not accepted.\<close>

theorem stop_prevents_physical_send:
  assumes "execute_stop_transaction (pm_scope db) (sc_project sc) expected reason actor now u1 u2 = (sco, Inr (f, replay))"
    and "send_once rt rd sc env ad (db\<lparr>pm_scope := sco\<rparr>) b i p a token = (db', b', res)"
  shows "b' = b \<and> (case res of Inl err \<Rightarrow> True | Inr r \<Rightarrow> \<not> sr_accepted r)"
proof -
  have "\<not> check_allowed (check (pm_scope (db\<lparr>pm_scope := sco\<rparr>)) (sc_project sc) e bd)" for e bd
    using stop_blocks[OF assms(1)] by simp
  from blocked_send_once[OF this assms(2)] show ?thesis by (simp split: sum.split)
qed

text \<open>C5 applied to a fake browser after the STOP of the example project.\<close>

theorem stop_prevents_physical_send_witness:
  "\<exists>sco f db' res. execute_stop_transaction sample_store ''p'' None ''halt'' ''operator'' 5 ''aa'' ''bb'' = (sco, Inr (f, False))
    \<and> send_once sample_runtime sample_reader chat_sender (\<lambda>k. env_at 6 43) fake_adapter (sample_pm\<lparr>pm_scope := sco\<rparr>)
        (new_fake_browser (Some ''chat'') True True) ''i1'' (Typed_Packet sample_packet) (Snapshot sample_authority) chat_token
      = (db', new_fake_browser (Some ''chat'') True True, res)"
proof -
  obtain sco f where s: "execute_stop_transaction sample_store ''p'' None ''halt'' ''operator'' 5 ''aa'' ''bb'' = (sco, Inr (f, False))"
    using sample_stop by blast
  let ?b = "new_fake_browser (Some ''chat'') True True"
  obtain db' b' res where o: "send_once sample_runtime sample_reader chat_sender (\<lambda>k. env_at 6 43) fake_adapter
      (sample_pm\<lparr>pm_scope := sco\<rparr>) ?b ''i1'' (Typed_Packet sample_packet) (Snapshot sample_authority) chat_token = (db', b', res)"
    by (metis prod_cases3)
  have s': "execute_stop_transaction (pm_scope sample_pm) (sc_project chat_sender) None ''halt'' ''operator'' 5 ''aa'' ''bb'' = (sco, Inr (f, False))"
    using s by (simp add: sample_pm_def chat_sender_def)
  have "b' = ?b" using stop_prevents_physical_send[OF s' o] by simp
  with s o show ?thesis by auto
qed

lemma confirm_sent:
  assumes "canonical_packet rt rd p = Inr doc" and "sendable rt sc i doc token ts r db" and "intent_status r = ''PHYSICAL_SEND_ATTEMPTED''"
    and "positive_evidence ev" and "evidence_matches ev r" and "\<not> env_busy env"
  obtains db' q res where "confirm rt rd sc env db i p token ev = (db', Inr res)" "find_intent sc db' i = Some q"
    "intent_status q = ''SEND_CONFIRMED''" "intent_evidence q = evidence_dict ev" "sr_accepted res" "sr_mutated res"
    "sr_code res = ''SEND_CONFIRMED''"
proof -
  obtain db' q res where c: "confirm_body sc env i doc (token_digest rt token) ev db = Inr (db', res)"
      "sendable rt sc i doc token ts q db'" "intent_status q = ''SEND_CONFIRMED''" "intent_evidence q = evidence_dict ev"
      "sr_accepted res" "sr_mutated res" "sr_code res = ''SEND_CONFIRMED''"
    by (rule confirm_accepts[OF assms(2-5)])
  have "token_digest rt token \<noteq> []" using assms(2) by (simp add: sendable_def)
  then have "confirm rt rd sc env db i p token ev = (db', Inr res)" using assms(1,6) c(1) by (simp add: confirm_def transaction_def)
  moreover have "find_intent sc db' i = Some q" using c(2) by (simp add: sendable_def)
  ultimately show ?thesis using c by (intro that)
qed

text \<open>C29: A send goes through. An intent that is prepared or allowed, whose packet is valid and whose lease and fence
  allow it at both checks, in a chat whose composer is usable, through a browser that answers with matching evidence and a
  database that takes the three transactions, is sent by exactly one call of the browser and ends confirmed with that evidence.\<close>

theorem allowed_send_is_confirmed:
  assumes "canonical_packet rt rd p = Inr doc"
    and "\<And>k. k < 2 \<Longrightarrow> val_valid (validate_packet rt rd (Typed_Packet doc) a (env_now (env k)) DEFAULT_PACKET_MAX_BYTES)"
    and "\<And>k. k < 3 \<Longrightarrow> \<not> env_busy (env k)"
    and "sendable rt sc i doc token {env_now (env 0), env_now (env 1)} r db"
    and "intent_status r \<in> {''PREPARED'', ''SEND_ALLOWED''}" and "fst (dom_check rt r (ba_snapshot ad b))"
    and "b1 = (if intent_status r = ''PREPARED'' then ba_log ad b ''DOM_PRECONDITIONS_VALID'' else b)"
    and "\<And>q. same_identity r q \<Longrightarrow> \<exists>b2 ev. ba_send ad b1 q = (b2, Sent ev) \<and> positive_evidence ev \<and> evidence_matches ev q"
  shows "\<exists>db' q b2 ev res q'. send_once rt rd sc env ad db b i p a token = (db', ba_log ad b2 ''SEND_CONFIRMED'', Inr res)
    \<and> same_identity r q \<and> ba_send ad b1 q = (b2, Sent ev) \<and> sr_accepted res \<and> sr_code res = ''SEND_CONFIRMED''
    \<and> find_intent sc db' i = Some q' \<and> intent_status q' = ''SEND_CONFIRMED'' \<and> intent_evidence q' = evidence_dict ev"
proof -
  let ?d = "ba_snapshot ad b"
  let ?ts = "{env_now (env 0), env_now (env 1)}"
  obtain db1 q1 res1 where one: "allow_body rt sc (env 0) i doc token db = Inr (db1, res1)" "sendable rt sc i doc token ?ts q1 db1"
      "same_identity r q1" "intent_status q1 = ''SEND_ALLOWED''" "sr_accepted res1" "sr_mutated res1 = (intent_status r = ''PREPARED'')"
    by (rule allow_accepts[OF assms(4,5), of "env 0"]) simp
  obtain db2 q2 res2 where two: "begin_body rt sc (env 1) i doc token db1 = Inr (db2, res2)" "sendable rt sc i doc token ?ts q2 db2"
      "same_identity q1 q2" "intent_status q2 = ''PHYSICAL_SEND_ATTEMPTED''" "sr_accepted res2" "sr_intent res2 = Some q2"
    by (rule begin_accepts[OF one(2,4), of "env 1"]) simp
  have same: "same_identity r q2" using one(3) two(3) by (rule same_identity_trans)
  then obtain b2 ev where ev: "ba_send ad b1 q2 = (b2, Sent ev)" "positive_evidence ev" "evidence_matches ev q2"
    using assms(8) by blast
  obtain db3 q3 res3 where three: "confirm rt rd sc (env 2) db2 i p token ev = (db3, Inr res3)" "find_intent sc db3 i = Some q3"
      "intent_status q3 = ''SEND_CONFIRMED''" "intent_evidence q3 = evidence_dict ev" "sr_accepted res3" "sr_mutated res3"
      "sr_code res3 = ''SEND_CONFIRMED''"
    by (rule confirm_sent[OF assms(1) two(2,4) ev(2,3), of "env 2"]) (use assms(3) in simp)
  have f: "find_intent sc db i = Some r" "find_intent sc db1 i = Some q1" using assms(4) one(2) by (simp_all add: sendable_def)
  have "presend rt rd sc (env 0) db i p a ?d = Inr doc"
    by (rule presend_passes[OF assms(1) _ f(1)]) (use assms(2,6) in simp_all)
  then have al: "allow_send rt rd sc (env 0) db i p a token ?d = (db1, Inr res1)"
    using one(1) assms(3) by (simp add: allow_send_def transaction_def)
  have "presend rt rd sc (env 1) db1 i p a ?d = Inr doc"
    by (rule presend_passes[OF assms(1) _ f(2)]) (use assms(2,6) dom_check_same[OF one(3)] in simp_all)
  then have bg: "begin_physical_send rt rd sc (env 1) db1 i p a token ?d = (db2, Inr res2)"
    using two(1) assms(3) by (simp add: begin_physical_send_def transaction_def)
  have "log_if ad b ''DOM_PRECONDITIONS_VALID'' (Inr res1) = b1" using one(5,6) assms(7) by (simp add: log_if_def)
  then have "send_once rt rd sc env ad db b i p a token = (db3, ba_log ad b2 ''SEND_CONFIRMED'', Inr res3)"
    using al bg one(5) two(5,6) ev(1) three(1,5,6) by (simp add: send_once_def log_if_def)
  then show ?thesis using same ev(1) three by blast
qed

text \<open>C29 applied to the prepared intent of the example chat and the fake browser, which then shows one message.\<close>

theorem allowed_send_is_confirmed_witness:
  "\<exists>db db' b' res. send_once sample_runtime sample_reader chat_sender (\<lambda>k. env_at (3 + int k) 43) fake_adapter db
       (new_fake_browser (Some ''chat'') True True) ''send-intent-k'' (Typed_Packet sample_packet) (Snapshot sample_authority) chat_token
     = (db', b', Inr res) \<and> sr_accepted res \<and> fb_trace b' = [''DOM_PRECONDITIONS_VALID'', ''PHYSICAL_SEND'', ''SEND_CONFIRMED'']
     \<and> length (fb_visible b') = 1"
proof (rule chat_prepared)
  fix db r res0 assume c: "sendable sample_runtime chat_sender ''send-intent-k'' sample_packet chat_token {3, 4} r db"
    "intent_status r = ''PREPARED''" "intent_conversation r = Some ''chat''"
    "intent_proof r = Some (digest_of sample_runtime ''existing-chat:chat'')"
  let ?b = "new_fake_browser (Some ''chat'') True True"
  let ?b1 = "?b\<lparr>fb_trace := [''DOM_PRECONDITIONS_VALID'']\<rparr>"
  let ?env = "\<lambda>k. env_at (3 + int k) 43"
  have sent: "fake_send ?b1 q = (?b1\<lparr>fb_attempted := [intent_id q], fb_trace := [''DOM_PRECONDITIONS_VALID'', ''PHYSICAL_SEND''],
      fb_visible := [chat_evidence q]\<rparr>, Sent (chat_evidence q))" if "same_identity r q" for q
    using that c(3) by (simp add: fake_send_def new_fake_browser_def dom_valid_def same_identity_def chat_evidence_def fake_evidence_def Let_def)
  have "\<exists>db' q b2 ev res q'. send_once sample_runtime sample_reader chat_sender ?env fake_adapter db ?b ''send-intent-k''
        (Typed_Packet sample_packet) (Snapshot sample_authority) chat_token = (db', ba_log fake_adapter b2 ''SEND_CONFIRMED'', Inr res)
      \<and> same_identity r q \<and> ba_send fake_adapter ?b1 q = (b2, Sent ev) \<and> sr_accepted res \<and> sr_code res = ''SEND_CONFIRMED''
      \<and> find_intent chat_sender db' ''send-intent-k'' = Some q' \<and> intent_status q' = ''SEND_CONFIRMED'' \<and> intent_evidence q' = evidence_dict ev"
  proof (rule allowed_send_is_confirmed)
    show "canonical_packet sample_runtime sample_reader (Typed_Packet sample_packet) = Inr sample_packet" by (simp add: canonical_packet_def)
    show "sendable sample_runtime chat_sender ''send-intent-k'' sample_packet chat_token {env_now (?env 0), env_now (?env 1)} r db"
      using c(1) by (simp add: env_at_def insert_commute)
    show "val_valid (validate_packet sample_runtime sample_reader (Typed_Packet sample_packet) (Snapshot sample_authority) (env_now (?env k))
        DEFAULT_PACKET_MAX_BYTES)" if "k < 2" for k
      by (rule sample_packet_valid[OF _ sample_packet_size]) (use that in \<open>simp add: env_at_def\<close>)
    show "fst (dom_check sample_runtime r (ba_snapshot fake_adapter ?b))"
      using c(3,4) by (simp add: dom_check_def fake_adapter_def new_fake_browser_def digest_of_def)
    show "\<exists>b2 ev. ba_send fake_adapter ?b1 q = (b2, Sent ev) \<and> positive_evidence ev \<and> evidence_matches ev q" if q: "same_identity r q" for q
      using sent[OF q] chat_evidence_ok[of q] q c(3) by (simp add: fake_adapter_def same_identity_def)
  qed (use c(2) in \<open>simp_all add: env_at_def fake_adapter_def new_fake_browser_def\<close>)
  then obtain db' q b2 ev res where r: "send_once sample_runtime sample_reader chat_sender ?env fake_adapter db ?b ''send-intent-k''
        (Typed_Packet sample_packet) (Snapshot sample_authority) chat_token = (db', ba_log fake_adapter b2 ''SEND_CONFIRMED'', Inr res)"
      "same_identity r q" "ba_send fake_adapter ?b1 q = (b2, Sent ev)" "sr_accepted res"
    by blast
  have "fake_send ?b1 q = (b2, Sent ev)" using r(3) by (simp add: fake_adapter_def)
  then have "fb_trace b2 = [''DOM_PRECONDITIONS_VALID'', ''PHYSICAL_SEND'']" "length (fb_visible b2) = 1"
    unfolding sent[OF r(2)] by auto
  then have "fb_trace (ba_log fake_adapter b2 ''SEND_CONFIRMED'') = [''DOM_PRECONDITIONS_VALID'', ''PHYSICAL_SEND'', ''SEND_CONFIRMED'']"
      "length (fb_visible (ba_log fake_adapter b2 ''SEND_CONFIRMED'')) = 1"
    by (simp_all add: fake_adapter_def)
  then show ?thesis using r(1,4) by blast
qed

end
