(* ===== verification/Plan_Graph.thy ===== *)
theory Plan_Graph
  imports Py_Prelude
begin

text \<open>
  The canonical plan graph of \<^verbatim>\<open>src/bdb_vnext/scope_orchestrator.py\<close>: tasks, milestones,
  the content digest and \<open>validate_graph\<close>. The depth-first search keeps the source's
  dictionary \<open>visited\<close> as a map to \<open>False\<close> (0, visiting) and \<open>True\<close> (1, visited); its recursion
  depth is a fuel argument, and \<open>validate_graph\<close> supplies one more than the number of tasks,
  which is always enough. The iteration order of the set \<open>task_ids\<close> is an argument.
\<close>

section \<open>Nodes and digest\<close>

record plan_task =
  task_id :: string
  task_milestone_id :: string
  task_dependencies :: "string list"
  is_gate :: bool
  requires_manual_approval :: bool
  requires_policy_approval :: bool

record plan_milestone =
  milestone_id :: string
  gate_id :: string
  milestone_dependencies :: "string list"
  milestone_task_ids :: "string list"

record plan_graph =
  plan_identity :: string
  plan_version :: int
  milestones :: "plan_milestone list"
  tasks :: "plan_task list"
  plan_digest :: "string option"

definition PStrs :: "string list \<Rightarrow> pyval" where
  "PStrs xs = PList (map PStr xs)"

definition milestone_document :: "plan_milestone \<Rightarrow> pyval" where
  "milestone_document m = PDict [(''milestone_id'', PStr (milestone_id m)), (''gate_id'', PStr (gate_id m)),
     (''dependencies'', PStrs (milestone_dependencies m)), (''task_ids'', PStrs (milestone_task_ids m))]"

definition task_document :: "plan_task \<Rightarrow> pyval" where
  "task_document t = PDict [(''task_id'', PStr (task_id t)), (''milestone_id'', PStr (task_milestone_id t)),
     (''dependencies'', PStrs (task_dependencies t)), (''is_gate'', PBool (is_gate t)),
     (''requires_manual_approval'', PBool (requires_manual_approval t)),
     (''requires_policy_approval'', PBool (requires_policy_approval t))]"

definition canonical_document :: "plan_graph \<Rightarrow> pyval" where
  "canonical_document g = PDict [(''plan_identity'', PStr (plan_identity g)),
     (''plan_version'', PInt (plan_version g)),
     (''milestones'', PList (map milestone_document (milestones g))),
     (''tasks'', PList (map task_document (tasks g)))]"

definition computed_plan_digest :: "runtime \<Rightarrow> plan_graph \<Rightarrow> string" where
  "computed_plan_digest rt g =
     ''sha256:'' @ hexdigest (sha256 rt (json_dumps rt compact_json (canonical_document g)))"

definition canonical_plan_digest :: "runtime \<Rightarrow> plan_graph \<Rightarrow> py_error + string" where
  "canonical_plan_digest rt g =
     (case plan_digest g of
        None \<Rightarrow> Inr (computed_plan_digest rt g)
      | Some d \<Rightarrow>
          if d \<noteq> computed_plan_digest rt g then
            Inl (ValueError ''plan_digest does not match canonical plan graph'')
          else Inr (if d \<noteq> [] then d else computed_plan_digest rt g))"

definition get_task :: "plan_graph \<Rightarrow> string \<Rightarrow> plan_task option" where
  "get_task g tid = find (\<lambda>t. task_id t = tid) (tasks g)"

definition get_milestone :: "plan_graph \<Rightarrow> string \<Rightarrow> plan_milestone option" where
  "get_milestone g mid = find (\<lambda>m. milestone_id m = mid) (milestones g)"

section \<open>Validation\<close>

definition task_ids :: "plan_graph \<Rightarrow> string list" where
  "task_ids g = map task_id (tasks g)"

text \<open>The reference check: the message of the first broken reference, if any.\<close>

definition broken_dependency :: "plan_graph \<Rightarrow> plan_task \<Rightarrow> string option" where
  "broken_dependency g t = map_option
     (\<lambda>d. ''Task '' @ task_id t @ '' references non-existent dependency '' @ d)
     (find (\<lambda>d. d \<notin> set (task_ids g)) (task_dependencies t))"

definition broken_reference :: "plan_graph \<Rightarrow> plan_task \<Rightarrow> string option" where
  "broken_reference g t =
     (if task_milestone_id t \<notin> set (map milestone_id (milestones g)) then
        Some (''Task '' @ task_id t @ '' references non-existent milestone '' @ task_milestone_id t)
      else broken_dependency g t)"

fun first_broken :: "plan_graph \<Rightarrow> plan_task list \<Rightarrow> string option" where
  "first_broken g [] = None"
| "first_broken g (t # ts) =
     (case broken_reference g t of Some msg \<Rightarrow> Some msg | None \<Rightarrow> first_broken g ts)"

type_synonym visited = "string \<Rightarrow> bool option"

text \<open>The loop over the dependencies of a node; \<open>visit\<close> is the recursive call.\<close>

fun visit_deps ::
    "(visited \<Rightarrow> string \<Rightarrow> (bool \<times> visited) option) \<Rightarrow> visited \<Rightarrow> string list \<Rightarrow> (bool \<times> visited) option" where
  "visit_deps visit v [] = Some (False, v)"
| "visit_deps visit v (d # ds) =
     (case v d of
        Some False \<Rightarrow> Some (True, v)
      | Some True \<Rightarrow> visit_deps visit v ds
      | None \<Rightarrow>
          (case visit v d of
             None \<Rightarrow> None
           | Some (True, v') \<Rightarrow> Some (True, v')
           | Some (False, v') \<Rightarrow> visit_deps visit v' ds))"

definition dependencies_of :: "plan_graph \<Rightarrow> string \<Rightarrow> string list" where
  "dependencies_of g tid = (case get_task g tid of None \<Rightarrow> [] | Some t \<Rightarrow> task_dependencies t)"

fun has_cycle :: "nat \<Rightarrow> plan_graph \<Rightarrow> visited \<Rightarrow> string \<Rightarrow> (bool \<times> visited) option" where
  "has_cycle 0 g v tid = None"
| "has_cycle (Suc n) g v tid =
     (case visit_deps (has_cycle n g) (v(tid \<mapsto> False)) (dependencies_of g tid) of
        None \<Rightarrow> None
      | Some (True, v') \<Rightarrow> Some (True, v')
      | Some (False, v') \<Rightarrow> Some (False, v'(tid \<mapsto> True)))"

fun search :: "nat \<Rightarrow> plan_graph \<Rightarrow> visited \<Rightarrow> string list \<Rightarrow> (bool \<times> string) option" where
  "search n g v [] = Some (True, ''valid'')"
| "search n g v (tid # tids) =
     (if v tid \<noteq> None then search n g v tids
      else case has_cycle n g v tid of
        None \<Rightarrow> None
      | Some (True, v') \<Rightarrow> Some (False, ''Circular dependency detected involving task '' @ tid)
      | Some (False, v') \<Rightarrow> search n g v' tids)"

definition validate_graph :: "plan_graph \<Rightarrow> string list \<Rightarrow> (bool \<times> string) option" where
  "validate_graph g order =
     (case first_broken g (tasks g) of
        Some msg \<Rightarrow> Some (False, msg)
      | None \<Rightarrow> search (Suc (length (tasks g))) g (\<lambda>_. None) order)"

section \<open>What the search finds\<close>

text \<open>The dependency relation the search follows, and the colours of the nodes.\<close>

definition depends :: "plan_graph \<Rightarrow> (string \<times> string) set" where
  "depends g = {(t, d). d \<in> set (dependencies_of g t)}"

definition visiting :: "visited \<Rightarrow> string set" where
  "visiting v = {x. v x = Some False}"

definition finished :: "visited \<Rightarrow> string set" where
  "finished v = {x. v x = Some True}"

text \<open>The finished nodes are closed under dependencies and lie on no cycle.\<close>

definition settled :: "plan_graph \<Rightarrow> visited \<Rightarrow> bool" where
  "settled g v \<longleftrightarrow> (\<forall>x\<in>finished v. \<forall>y. (x, y) \<in> depends g \<longrightarrow> y \<in> finished v)
     \<and> (\<forall>x\<in>finished v. (x, x) \<notin> (depends g)\<^sup>+)"

definition progress :: "plan_graph \<Rightarrow> visited \<Rightarrow> visited \<Rightarrow> bool" where
  "progress g v v' \<longleftrightarrow> visiting v' = visiting v \<and> finished v \<subseteq> finished v' \<and> settled g v'"

text \<open>The contract of the recursive call at a node \<open>t\<close>.\<close>

definition visits_well ::
    "plan_graph \<Rightarrow> (visited \<Rightarrow> string \<Rightarrow> (bool \<times> visited) option) \<Rightarrow> bool" where
  "visits_well g visit \<longleftrightarrow> (\<forall>v t b v'. visit v t = Some (b, v') \<longrightarrow> v t = None \<longrightarrow> settled g v \<longrightarrow>
     (\<forall>x\<in>visiting v. (x, t) \<in> (depends g)\<^sup>*) \<longrightarrow>
     (if b then \<exists>x. (x, x) \<in> (depends g)\<^sup>+ else progress g v v' \<and> t \<in> finished v'))"

lemma visit_deps_sound:
  assumes "visits_well g visit"
    and "visit_deps visit v ds = Some (b, v')" and "settled g v"
    and "set ds \<subseteq> set (dependencies_of g t)" and "\<forall>x\<in>visiting v. (x, t) \<in> (depends g)\<^sup>*"
  shows "if b then \<exists>x. (x, x) \<in> (depends g)\<^sup>+ else progress g v v' \<and> set ds \<subseteq> finished v'"
  using assms(2-)
proof (induction ds arbitrary: v)
  case Nil
  then show ?case by (simp add: progress_def)
next
  case (Cons d ds)
  have td: "(t, d) \<in> depends g" using Cons.prems(3) by (simp add: depends_def)
  consider (grey) "v d = Some False" | (black) "v d = Some True" | (new) "v d = None"
    by (metis option.exhaust)
  then show ?case
  proof cases
    case grey
    then have "(d, t) \<in> (depends g)\<^sup>*" using Cons.prems(4) by (simp add: visiting_def)
    with td have "(t, t) \<in> (depends g)\<^sup>+" by (simp add: rtrancl_into_trancl2)
    then show ?thesis using Cons.prems(1) grey by auto
  next
    case black
    then have vd: "visit_deps visit v ds = Some (b, v')" using Cons.prems(1) by simp
    have "if b then \<exists>x. (x, x) \<in> (depends g)\<^sup>+ else progress g v v' \<and> set ds \<subseteq> finished v'"
      using Cons.IH[OF vd Cons.prems(2) _ Cons.prems(4)] Cons.prems(3) by simp
    then show ?thesis using black by (auto simp: progress_def finished_def)
  next
    case new
    obtain c w where w: "visit v d = Some (c, w)"
      using Cons.prems(1) new by (auto split: option.splits)
    have reach: "\<forall>x\<in>visiting v. (x, d) \<in> (depends g)\<^sup>*"
      using Cons.prems(4) td by (meson rtrancl.rtrancl_into_rtrancl)
    have ok: "if c then \<exists>x. (x, x) \<in> (depends g)\<^sup>+ else progress g v w \<and> d \<in> finished w"
      using assms(1) w new Cons.prems(2) reach unfolding visits_well_def by blast
    show ?thesis
    proof (cases c)
      case True
      then show ?thesis using ok w new Cons.prems(1) by auto
    next
      case False
      then have vd: "visit_deps visit w ds = Some (b, v')" using w new Cons.prems(1) by simp
      have pw: "progress g v w" "d \<in> finished w" using ok False by auto
      have "if b then \<exists>x. (x, x) \<in> (depends g)\<^sup>+ else progress g w v' \<and> set ds \<subseteq> finished v'"
        using Cons.IH[OF vd] pw Cons.prems(3,4) by (simp add: progress_def)
      then show ?thesis using pw by (cases b) (simp_all add: progress_def, blast)
    qed
  qed
qed

lemma settled_finish:
  assumes "settled g w" and "w t = Some False" and "set (dependencies_of g t) \<subseteq> finished w"
  shows "settled g (w(t \<mapsto> True))"
proof -
  let ?F = "finished w"
  have t: "t \<notin> ?F" using assms(2) by (simp add: finished_def)
  have F: "finished (w(t \<mapsto> True)) = insert t ?F" using assms(2) by (auto simp: finished_def)
  have closed: "(x, y) \<in> (depends g)\<^sup>+ \<Longrightarrow> x \<in> ?F \<Longrightarrow> y \<in> ?F" for x y
    by (induction rule: trancl.induct) (use assms(1) in \<open>auto simp: settled_def\<close>)
  have "(t, t) \<notin> (depends g)\<^sup>+"
  proof
    assume "(t, t) \<in> (depends g)\<^sup>+"
    then obtain y where y: "(t, y) \<in> depends g" "(y, t) \<in> (depends g)\<^sup>*" by (meson tranclD)
    then have "y \<in> ?F" using assms(3) by (auto simp: depends_def)
    with y(2) closed t show False by (metis rtranclD)
  qed
  then show ?thesis
    using assms(1,3) unfolding settled_def F by (auto simp: depends_def)
qed

lemma has_cycle_sound: "visits_well g (has_cycle n g)"
proof (induction n)
  case 0
  then show ?case by (simp add: visits_well_def)
next
  case (Suc n)
  show ?case unfolding visits_well_def
  proof (intro allI impI)
    fix v t b v'
    assume run: "has_cycle (Suc n) g v t = Some (b, v')" and new: "v t = None" and s: "settled g v"
      and reach: "\<forall>x\<in>visiting v. (x, t) \<in> (depends g)\<^sup>*"
    let ?v = "v(t \<mapsto> False)"
    have vis: "visiting ?v = insert t (visiting v)" "finished ?v = finished v"
      using new by (auto simp: visiting_def finished_def)
    obtain c w where w: "visit_deps (has_cycle n g) ?v (dependencies_of g t) = Some (c, w)"
      using run by (auto split: option.splits)
    have "settled g ?v" using s by (simp add: settled_def vis)
    then have sound: "if c then \<exists>x. (x, x) \<in> (depends g)\<^sup>+
        else progress g ?v w \<and> set (dependencies_of g t) \<subseteq> finished w"
      using visit_deps_sound[OF Suc w _ subset_refl] reach by (simp add: vis)
    show "if b then \<exists>x. (x, x) \<in> (depends g)\<^sup>+ else progress g v v' \<and> t \<in> finished v'"
    proof (cases c)
      case True
      then show ?thesis using run w sound by auto
    next
      case False
      then have b: "\<not> b" "v' = w(t \<mapsto> True)" using run w by auto
      have p: "progress g ?v w" "set (dependencies_of g t) \<subseteq> finished w" using sound False by auto
      then have "t \<in> visiting w" using vis by (simp add: progress_def)
      then have wt: "w t = Some False" by (simp add: visiting_def)
      have "settled g v'" using settled_finish[OF _ wt p(2)] p(1) b(2) by (simp add: progress_def)
      moreover have "visiting v' = visiting w - {t}" "finished v' = insert t (finished w)"
        using b(2) by (auto simp: visiting_def finished_def)
      moreover have "t \<notin> visiting v" using new by (simp add: visiting_def)
      ultimately show ?thesis using p(1) b vis by (auto simp: progress_def)
    qed
  qed
qed

section \<open>The search ends\<close>

text \<open>Within a set of nodes closed under dependencies, a call returns whenever its fuel covers the
  nodes not yet visited.\<close>

definition returns_within ::
    "string set \<Rightarrow> nat \<Rightarrow> (visited \<Rightarrow> string \<Rightarrow> (bool \<times> visited) option) \<Rightarrow> bool" where
  "returns_within U n visit \<longleftrightarrow> (\<forall>v t. t \<in> U \<longrightarrow> v t = None \<longrightarrow> card (U - dom v) \<le> n \<longrightarrow>
     (\<exists>b v'. visit v t = Some (b, v') \<and> dom v \<subseteq> dom v'))"

lemma returns_withinD:
  "returns_within U n visit \<Longrightarrow> t \<in> U \<Longrightarrow> v t = None \<Longrightarrow> card (U - dom v) \<le> n \<Longrightarrow>
     \<exists>b v'. visit v t = Some (b, v') \<and> dom v \<subseteq> dom v'"
  by (simp add: returns_within_def)

lemma visit_deps_returns:
  assumes "returns_within U n visit" and "finite U" and "set ds \<subseteq> U" and "card (U - dom v) \<le> n"
  shows "\<exists>b v'. visit_deps visit v ds = Some (b, v') \<and> dom v \<subseteq> dom v'"
  using assms(3,4)
proof (induction ds arbitrary: v)
  case (Cons d ds)
  show ?case
  proof (cases "v d")
    case None
    have d: "d \<in> U" "set ds \<subseteq> U" using Cons.prems(1) by auto
    obtain c w where w: "visit v d = Some (c, w)" "dom v \<subseteq> dom w"
      using returns_withinD[of U n visit d v, OF assms(1) d(1) None Cons.prems(2)] by blast
    have "card (U - dom w) \<le> card (U - dom v)" using assms(2) w(2) by (intro card_mono) auto
    then have "card (U - dom w) \<le> n" using Cons.prems(2) by simp
    from Cons.IH[OF d(2) this] obtain b v' where "visit_deps visit w ds = Some (b, v')" "dom w \<subseteq> dom v'"
      by blast
    with w None show ?thesis by (cases c) auto
  next
    case (Some b)
    then show ?thesis using Cons by (cases b) auto
  qed
qed auto

lemma has_cycle_returns:
  assumes "finite U" and "\<forall>t\<in>U. set (dependencies_of g t) \<subseteq> U"
  shows "returns_within U n (has_cycle n g)"
proof (induction n)
  case 0
  have "t \<in> U \<Longrightarrow> v t = None \<Longrightarrow> card (U - dom v) \<noteq> 0" for t and v :: visited
    using assms(1) by auto
  then show ?case by (auto simp: returns_within_def)
next
  case (Suc n)
  show ?case unfolding returns_within_def
  proof (intro allI impI)
    fix v :: visited and t
    assume t: "t \<in> U" "v t = None" "card (U - dom v) \<le> Suc n"
    let ?v = "v(t \<mapsto> False)"
    have "U - dom ?v = (U - dom v) - {t}" by auto
    then have "card (U - dom ?v) \<le> n" using t assms(1) by (simp add: card_Diff_singleton domIff)
    then obtain b w where "visit_deps (has_cycle n g) ?v (dependencies_of g t) = Some (b, w)" "dom ?v \<subseteq> dom w"
      using visit_deps_returns[OF Suc assms(1)] assms(2) t(1) by blast
    then show "\<exists>b v'. has_cycle (Suc n) g v t = Some (b, v') \<and> dom v \<subseteq> dom v'"
      by (cases b) auto
  qed
qed

lemma search_verdict:
  assumes "finite U" and "\<forall>t\<in>U. set (dependencies_of g t) \<subseteq> U" and "card U \<le> n"
    and "set tids \<subseteq> U" and "settled g v" and "visiting v = {}"
  shows "\<exists>ok msg. search n g v tids = Some (ok, msg)
    \<and> (if ok then \<forall>t\<in>set tids. (t, t) \<notin> (depends g)\<^sup>+ else \<not> acyclic (depends g))"
  using assms(4-)
proof (induction tids arbitrary: v)
  case (Cons t tids)
  show ?case
  proof (cases "v t")
    case None
    have "card (U - dom v) \<le> n" using assms(1,3) by (meson Diff_subset card_mono order_trans)
    then obtain b w where w: "has_cycle n g v t = Some (b, w)"
      using returns_withinD[of U n _ t v, OF has_cycle_returns[OF assms(1,2)] _ None] Cons.prems(1)
      by auto
    have sound: "if b then \<exists>x. (x, x) \<in> (depends g)\<^sup>+ else progress g v w \<and> t \<in> finished w"
      using has_cycle_sound[of g n] w None Cons.prems unfolding visits_well_def by (metis empty_iff)
    show ?thesis
    proof (cases b)
      case True
      then show ?thesis using None w sound by (auto simp: acyclic_def)
    next
      case False
      then have p: "settled g w" "visiting w = {}" "t \<in> finished w"
        using sound Cons.prems by (auto simp: progress_def)
      then have "(t, t) \<notin> (depends g)\<^sup>+" by (simp add: settled_def)
      then show ?thesis using None False w Cons.IH[of w] p Cons.prems(1) by fastforce
    qed
  next
    case (Some c)
    then have "t \<in> finished v" using Cons.prems(3) by (cases c) (auto simp: visiting_def finished_def)
    then have "(t, t) \<notin> (depends g)\<^sup>+" using Cons.prems(2) by (simp add: settled_def)
    then show ?thesis using Some Cons.IH[of v] Cons.prems by fastforce
  qed
qed auto

section \<open>Properties\<close>

definition references_ok :: "plan_graph \<Rightarrow> bool" where
  "references_ok g \<longleftrightarrow> (\<forall>t\<in>set (tasks g). task_milestone_id t \<in> milestone_id ` set (milestones g)
     \<and> set (task_dependencies t) \<subseteq> task_id ` set (tasks g))"

lemma broken_reference_None:
  "broken_reference g t = None \<longleftrightarrow> task_milestone_id t \<in> milestone_id ` set (milestones g)
     \<and> set (task_dependencies t) \<subseteq> task_id ` set (tasks g)"
  by (auto simp: broken_reference_def broken_dependency_def find_None_iff task_ids_def)

lemma first_broken_None: "first_broken g ts = None \<longleftrightarrow> (\<forall>t\<in>set ts. broken_reference g t = None)"
  by (induction ts) (auto split: option.splits)

lemma get_task_SomeD: "get_task g tid = Some t \<Longrightarrow> t \<in> set (tasks g) \<and> task_id t = tid"
  unfolding get_task_def by (auto dest: find_SomeD)

lemma depends_source: "(x, y) \<in> depends g \<Longrightarrow> x \<in> task_id ` set (tasks g)"
  by (cases "get_task g x") (auto simp: depends_def dependencies_of_def dest: get_task_SomeD)

text \<open>C35: \<open>validate_graph\<close> always returns, whatever the iteration order of the set of task ids, and
  accepts exactly the plans in which every task names an existing milestone and existing
  dependencies and the dependency relation has no cycle.\<close>

theorem validate_graph_correct:
  assumes "set order = task_id ` set (tasks g)"
  shows "\<exists>ok msg. validate_graph g order = Some (ok, msg)
    \<and> (ok \<longleftrightarrow> references_ok g \<and> acyclic (depends g))"
proof (cases "first_broken g (tasks g)")
  case (Some msg)
  then have "\<not> references_ok g"
    using first_broken_None[of g "tasks g"] by (auto simp: broken_reference_None references_ok_def)
  then show ?thesis using Some
    by (intro exI[of _ False] exI[of _ msg]) (simp add: validate_graph_def)
next
  case None
  let ?U = "task_id ` set (tasks g)"
  have refs: "references_ok g"
    using None first_broken_None[of g "tasks g"] by (simp add: broken_reference_None references_ok_def)
  have "set (dependencies_of g t) \<subseteq> ?U" for t
    by (cases "get_task g t")
      (use refs in \<open>auto simp: dependencies_of_def references_ok_def dest!: get_task_SomeD\<close>)
  then have "\<forall>t\<in>?U. set (dependencies_of g t) \<subseteq> ?U" by blast
  moreover have "card ?U \<le> Suc (length (tasks g))"
    by (metis card_image_le card_length finite_set le_SucI order_trans)
  ultimately obtain ok msg where r: "search (Suc (length (tasks g))) g (\<lambda>_. None) order = Some (ok, msg)"
    and v: "if ok then \<forall>t\<in>set order. (t, t) \<notin> (depends g)\<^sup>+ else \<not> acyclic (depends g)"
    using search_verdict[of ?U g "Suc (length (tasks g))" order "\<lambda>_. None"] assms
    by (auto simp: settled_def finished_def visiting_def)
  have "(x, x) \<in> (depends g)\<^sup>+ \<Longrightarrow> x \<in> set order" for x
    using depends_source assms by (metis tranclD)
  with v have "ok \<longleftrightarrow> acyclic (depends g)" by (auto simp: acyclic_def split: if_splits)
  with r refs None show ?thesis by (simp add: validate_graph_def)
qed

text \<open>C35 applied to two tasks that wait for each other.\<close>

theorem validate_graph_correct_witness:
  "\<exists>msg. validate_graph \<lparr>plan_identity = ''p'', plan_version = 1,
      milestones = [\<lparr>milestone_id = ''M1'', gate_id = ''G1'', milestone_dependencies = [], milestone_task_ids = [''A'', ''B'']\<rparr>],
      tasks = [\<lparr>task_id = ''A'', task_milestone_id = ''M1'', task_dependencies = [''B''], is_gate = False,
                requires_manual_approval = False, requires_policy_approval = False\<rparr>,
               \<lparr>task_id = ''B'', task_milestone_id = ''M1'', task_dependencies = [''A''], is_gate = False,
                requires_manual_approval = False, requires_policy_approval = False\<rparr>],
      plan_digest = None\<rparr> [''B'', ''A''] = Some (False, msg)"
proof -
  let ?g = "\<lparr>plan_identity = ''p'', plan_version = 1,
      milestones = [\<lparr>milestone_id = ''M1'', gate_id = ''G1'', milestone_dependencies = [], milestone_task_ids = [''A'', ''B'']\<rparr>],
      tasks = [\<lparr>task_id = ''A'', task_milestone_id = ''M1'', task_dependencies = [''B''], is_gate = False,
                requires_manual_approval = False, requires_policy_approval = False\<rparr>,
               \<lparr>task_id = ''B'', task_milestone_id = ''M1'', task_dependencies = [''A''], is_gate = False,
                requires_manual_approval = False, requires_policy_approval = False\<rparr>],
      plan_digest = None\<rparr>"
  have e: "(''A'', ''B'') \<in> depends ?g" "(''B'', ''A'') \<in> depends ?g"
    by (simp_all add: depends_def dependencies_of_def get_task_def)
  have "(''A'', ''A'') \<in> (depends ?g)\<^sup>+" by (rule trancl_into_trancl[OF r_into_trancl[OF e(1)] e(2)])
  then have "\<not> acyclic (depends ?g)" by (auto simp: acyclic_def)
  moreover have "set [''B'', ''A''] = task_id ` set (tasks ?g)" by auto
  ultimately show ?thesis using validate_graph_correct[of "[''B'', ''A'']" ?g] by metis
qed

end
