(* ===== verification/Scope_Orchestrator.thy ===== *)
theory Scope_Orchestrator
  imports Stop_Fence Plan_Graph
begin

text \<open>
  The scope orchestrator of \<^verbatim>\<open>src/bdb_vnext/scope_orchestrator.py\<close>: the durable cursor with its
  optimistic compare-and-swap, the choice of the next task, \<open>tick\<close>, and the machine in which
  several workers read the cursor, tick and commit while operators stop and resume the scope.
  A mapping of statuses is the list of its entries.
\<close>

section \<open>The cursor\<close>

definition new_cursor ::
    "string \<Rightarrow> string \<Rightarrow> AutoScope \<Rightarrow> string \<Rightarrow> int \<Rightarrow> bool \<Rightarrow> int \<Rightarrow> scope_cursor" where
  "new_cursor p run scope plan ver explicit now = \<lparr>cur_id = ''cur-'' @ p, cur_project = p, cur_run = run,
     cur_scope = scope, cur_epoch = 1, cur_milestone = None, cur_task = None, cur_last_task = None,
     cur_last_gate = None, cur_plan = plan, cur_plan_version = ver, cur_revision = 1,
     cur_disposition = ''INITIALIZED'', cur_status = ''ACTIVE'', cur_stop_at = None,
     cur_stop_reason = None, cur_explanation = [], cur_updated_at = now, cur_explicit = explicit\<rparr>"

definition get_or_create_cursor ::
    "scope_store \<Rightarrow> string \<Rightarrow> string \<Rightarrow> AutoScope \<Rightarrow> string \<Rightarrow> int \<Rightarrow> bool \<Rightarrow> int
      \<Rightarrow> scope_store \<times> (py_error + scope_cursor)" where
  "get_or_create_cursor db p run scope plan ver explicit now =
     (case find_cursor db p of
        Some c \<Rightarrow> (db, Inr c)
      | None \<Rightarrow>
          (let c = new_cursor p run scope plan ver explicit now in
           if list_ex (\<lambda>q. cur_id q = cur_id c) (scope_cursors db) then (db, Inl IntegrityError)
           else (db\<lparr>scope_cursors := scope_cursors db @ [c]\<rparr>, Inr c)))"

text \<open>The row after the UPDATE: every column but the cursor and project ids is taken from the given
  cursor, the revision is one more than expected.\<close>

definition cas_row :: "scope_cursor \<Rightarrow> int \<Rightarrow> int \<Rightarrow> scope_cursor \<Rightarrow> scope_cursor" where
  "cas_row c expected now q = c\<lparr>cur_id := cur_id q, cur_project := cur_project q,
     cur_revision := expected + 1, cur_updated_at := now\<rparr>"

definition update_cursor_cas ::
    "scope_store \<Rightarrow> string \<Rightarrow> scope_cursor \<Rightarrow> int \<Rightarrow> int \<Rightarrow> scope_store \<times> bool" where
  "update_cursor_cas db p c expected now =
     (if list_ex (\<lambda>q. cur_project q = p \<and> cur_revision q = expected) (scope_cursors db)
      then (update_cursor db p expected (cas_row c expected now), True)
      else (db, False))"

section \<open>The next task\<close>

type_synonym statuses = "(string \<times> string) list"

definition pending_dependencies :: "statuses \<Rightarrow> plan_task \<Rightarrow> string list" where
  "pending_dependencies st t = filter (\<lambda>d. map_of st d \<noteq> Some ''ACCEPTED'') (task_dependencies t)"

fun first_unaccepted :: "plan_graph \<Rightarrow> statuses \<Rightarrow> string list \<Rightarrow> string option \<times> bool \<times> string list" where
  "first_unaccepted g st [] = (None, True, [])"
| "first_unaccepted g st (tid # tids) =
     (if map_of st tid = Some ''ACCEPTED'' then first_unaccepted g st tids
      else case get_task g tid of
        None \<Rightarrow> first_unaccepted g st tids
      | Some t \<Rightarrow> (Some tid, pending_dependencies st t = [], pending_dependencies st t))"

definition resolve_next_runnable_task ::
    "plan_graph \<Rightarrow> string \<Rightarrow> statuses \<Rightarrow> string option \<times> bool \<times> string list" where
  "resolve_next_runnable_task g mid st =
     (case get_milestone g mid of
        None \<Rightarrow> (None, False, [])
      | Some m \<Rightarrow> first_unaccepted g st (milestone_task_ids m))"

section \<open>Tick\<close>

record tick_input =
  task_statuses :: statuses
  gate_statuses :: statuses
  manual_approvals :: "(string \<times> bool) list"
  policy_approvals :: "(string \<times> bool) list"
  stop_flag :: bool
  ci_waiting_tasks :: "string list"
  transient_backoff_tasks :: "string list"
  plan_exhausted :: bool
  ui_suggested_task :: "string option"
  prompt_suggested_task :: "string option"

record next_action =
  na_action :: string
  na_reason_code :: string
  na_project :: string
  na_run :: string
  na_scope :: string
  na_current_task :: "string option"
  na_selected_task :: "string option"
  na_selected_milestone :: "string option"
  na_dependency_evidence :: statuses
  na_gate_evidence :: statuses
  na_state_revision :: int
  na_cursor_revision :: int
  na_plan_identity :: string
  na_plan_version :: int
  na_work_state :: string
  na_explanation :: string

definition explain ::
    "string \<Rightarrow> plan_graph \<Rightarrow> scope_cursor \<Rightarrow> scope_decision \<Rightarrow> statuses \<Rightarrow> statuses \<Rightarrow> next_action" where
  "explain p g c d deps gates = \<lparr>na_action = action_value (action d), na_reason_code = reason_code d,
     na_project = p, na_run = cur_run c, na_scope = scope_value (cur_scope c), na_current_task = cur_task c,
     na_selected_task = selected_task_id d, na_selected_milestone = selected_milestone_id d,
     na_dependency_evidence = deps, na_gate_evidence = gates, na_state_revision = cur_revision c,
     na_cursor_revision = cur_revision c, na_plan_identity = plan_identity g,
     na_plan_version = plan_version g, na_work_state = work_state_value (canonical_work_state d),
     na_explanation = explanation d\<rparr>"

definition statuses_pyval :: "statuses \<Rightarrow> pyval" where
  "statuses_pyval st = PDict (map (\<lambda>(k, v). (k, PStr v)) st)"

text \<open>\<open>asdict(explanation)\<close>, the document stored in \<open>explanation_json\<close>.\<close>

definition explanation_document :: "next_action \<Rightarrow> pydict" where
  "explanation_document x = [(''action'', PStr (na_action x)), (''reason_code'', PStr (na_reason_code x)),
     (''project_id'', PStr (na_project x)), (''run_id'', PStr (na_run x)), (''scope'', PStr (na_scope x)),
     (''current_task_id'', opt_pyval (na_current_task x)), (''selected_task_id'', opt_pyval (na_selected_task x)),
     (''selected_milestone_id'', opt_pyval (na_selected_milestone x)),
     (''dependency_evidence'', statuses_pyval (na_dependency_evidence x)),
     (''gate_evidence'', statuses_pyval (na_gate_evidence x)),
     (''state_revision'', PInt (na_state_revision x)), (''cursor_revision'', PInt (na_cursor_revision x)),
     (''plan_identity'', PStr (na_plan_identity x)), (''plan_version'', PInt (na_plan_version x)),
     (''canonical_work_state'', PStr (na_work_state x)), (''explanation'', PStr (na_explanation x))]"

text \<open>A decision that blocks the tick before any evaluation; the cursor is returned as it was.\<close>

definition blocked_decision :: "string \<Rightarrow> string \<Rightarrow> scope_decision" where
  "blocked_decision rc text = (decision HALT_BLOCKED WS_BLOCKED rc text)\<lparr>is_terminal := True\<rparr>"

definition blocked_tick ::
    "string \<Rightarrow> plan_graph \<Rightarrow> scope_cursor \<Rightarrow> string \<Rightarrow> string \<Rightarrow> statuses
      \<Rightarrow> scope_decision \<times> next_action \<times> scope_cursor" where
  "blocked_tick p g c rc text gates =
     (let d = blocked_decision rc text in (d, explain p g c d [] gates, c))"

definition current_milestone :: "plan_graph \<Rightarrow> scope_cursor \<Rightarrow> string option" where
  "current_milestone g c = opt_or (cur_milestone c)
     (case milestones g of [] \<Rightarrow> None | m # ms \<Rightarrow> Some (milestone_id m))"

text \<open>The milestones before the current one, in plan order.\<close>

definition previous_milestones :: "plan_graph \<Rightarrow> string \<Rightarrow> plan_milestone list" where
  "previous_milestones g mid = takeWhile (\<lambda>m. milestone_id m \<noteq> mid) (milestones g)"

definition next_milestone :: "plan_graph \<Rightarrow> string \<Rightarrow> string option" where
  "next_milestone g mid = (let i = length (previous_milestones g mid) + 1 in
     if i < length (milestones g) then Some (milestone_id (milestones g ! i)) else None)"

definition milestone_done :: "plan_milestone \<Rightarrow> statuses \<Rightarrow> bool" where
  "milestone_done m st \<longleftrightarrow> milestone_task_ids m \<noteq> []
     \<and> list_all (\<lambda>t. map_of st t = Some ''ACCEPTED'') (milestone_task_ids m)"

text \<open>Dependencies of the next milestone and its first unaccepted task.\<close>

definition next_milestone_info :: "plan_graph \<Rightarrow> tick_input \<Rightarrow> string option \<Rightarrow> bool \<times> string option" where
  "next_milestone_info g inp nms =
     (if opt_true nms then
        (case get_milestone g (the nms) of
           None \<Rightarrow> (True, None)
         | Some m \<Rightarrow> (list_all (\<lambda>d. map_of (gate_statuses inp) d = Some ''ACCEPTED'') (milestone_dependencies m),
                     fst (resolve_next_runnable_task g (the nms) (task_statuses inp))))
      else (True, None))"

definition approval :: "bool \<Rightarrow> (string \<times> bool) list \<Rightarrow> string option \<Rightarrow> bool" where
  "approval required grants tid = (if required then
     (case map_of grants (if opt_true tid then the tid else []) of Some b \<Rightarrow> b | None \<Rightarrow> False) else True)"

definition build_snapshot ::
    "plan_graph \<Rightarrow> scope_cursor \<Rightarrow> tick_input \<Rightarrow> string \<Rightarrow> plan_milestone \<Rightarrow> scope_snapshot" where
  "build_snapshot g c inp mid m =
     (let st = task_statuses inp;
          all_done = milestone_done m st;
          gate = (case map_of (gate_statuses inp) mid of Some s \<Rightarrow> s | None \<Rightarrow> ''NOT_REACHED'');
          (next_tid, deps_ok, pending) = resolve_next_runnable_task g mid st;
          nms = next_milestone g mid;
          (nms_ok, first_next) = next_milestone_info g inp nms;
          node = (if opt_true next_tid then get_task g (the next_tid) else None);
          man = (case node of Some t \<Rightarrow> requires_manual_approval t | None \<Rightarrow> False);
          pol = (case node of Some t \<Rightarrow> requires_policy_approval t | None \<Rightarrow> False);
          status = (if opt_true (cur_task c) then map_of st (the (cur_task c)) else None)
      in \<lparr>current_scope = cur_scope c, current_task_id = cur_task c, current_task_status = status,
          task_needs_retry = False, task_needs_repair = False, task_attempts_exhausted = False,
          accepted_tasks_in_current_scope = (if status = Some ''ACCEPTED'' then 1 else 0),
          current_milestone_id = Some mid, all_milestone_tasks_accepted = all_done,
          current_milestone_gate_status = Some gate, next_task_in_milestone_id = next_tid,
          next_task_dependencies_satisfied = deps_ok, next_milestone_id = nms,
          first_task_in_next_milestone_id = first_next, next_milestone_dependencies_satisfied = nms_ok,
          all_project_milestones_completed = (length (previous_milestones g mid) = length (milestones g) - 1
             \<and> all_done \<and> gate = ''ACCEPTED''),
          manual_gate_required = man, manual_gate_approved = approval man (manual_approvals inp) next_tid,
          policy_gate_required = pol, policy_gate_approved = approval pol (policy_approvals inp) next_tid,
          stop_requested = (stop_flag inp \<or> cur_status c = ''STOPPED'' \<or> cur_disposition c = ''STOPPED''),
          ci_waiting = (opt_true (cur_task c) \<and> the (cur_task c) \<in> set (ci_waiting_tasks inp)),
          transient_backoff = (opt_true (cur_task c) \<and> the (cur_task c) \<in> set (transient_backoff_tasks inp)),
          approved_plan_exhausted = plan_exhausted inp\<rparr>)"

text \<open>Section 5 of \<open>tick\<close>: the advanced cursor.\<close>

definition advance_cursor ::
    "string \<Rightarrow> plan_graph \<Rightarrow> scope_cursor \<Rightarrow> string \<Rightarrow> plan_milestone \<Rightarrow> scope_snapshot \<Rightarrow> scope_decision
      \<Rightarrow> next_action \<Rightarrow> int \<Rightarrow> scope_cursor" where
  "advance_cursor p g c mid m s d x now = \<lparr>cur_id = cur_id c, cur_project = p, cur_run = cur_run c,
     cur_scope = cur_scope c, cur_epoch = cur_epoch c,
     cur_milestone = opt_or (selected_milestone_id d) (Some mid),
     cur_task = (if action d = LAUNCH_TASK then selected_task_id d else cur_task c),
     cur_last_task = (if current_task_status s = Some ''ACCEPTED'' then cur_task c else cur_last_task c),
     cur_last_gate = (if current_milestone_gate_status s = Some ''ACCEPTED'' then Some (gate_id m)
       else cur_last_gate c),
     cur_plan = plan_identity g, cur_plan_version = plan_version g, cur_revision = cur_revision c,
     cur_disposition = action_value (action d), cur_status = cur_status c, cur_stop_at = cur_stop_at c,
     cur_stop_reason = cur_stop_reason c, cur_explanation = explanation_document x,
     cur_updated_at = now, cur_explicit = cur_explicit c\<rparr>"

definition evaluate_tick ::
    "string \<Rightarrow> plan_graph \<Rightarrow> scope_cursor \<Rightarrow> tick_input \<Rightarrow> int \<Rightarrow> string \<Rightarrow> plan_milestone
      \<Rightarrow> scope_decision \<times> next_action \<times> scope_cursor" where
  "evaluate_tick p g c inp now mid m =
     (let s = build_snapshot g c inp mid m;
          d = evaluate_scope_transition s;
          pending = snd (snd (resolve_next_runnable_task g mid (task_statuses inp)));
          status_of = (\<lambda>t. case map_of (task_statuses inp) t of Some v \<Rightarrow> v | None \<Rightarrow> ''UNKNOWN'');
          deps = foldl (\<lambda>acc t. dict_put acc t (status_of t)) [] pending;
          x = explain p g c d deps [(mid, the (current_milestone_gate_status s))]
      in (d, x, advance_cursor p g c mid m s d x now))"

text \<open>The argument \<open>order\<close> is the iteration order of the set of task ids in \<open>validate_graph\<close>, which
  returns for every such order (\<open>validate_graph_correct\<close>). The suggestions of the user interface
  and of the prompt are accepted and ignored.\<close>

definition tick ::
    "string \<Rightarrow> plan_graph \<Rightarrow> string list \<Rightarrow> scope_cursor \<Rightarrow> tick_input \<Rightarrow> int
      \<Rightarrow> scope_decision \<times> next_action \<times> scope_cursor" where
  "tick p g order c inp now =
     (case validate_graph g order of
        None \<Rightarrow> blocked_tick p g c ''AMBIGUOUS_PLAN_GRAPH'' ''Plan graph validation failed: '' []
      | Some (False, msg) \<Rightarrow>
          blocked_tick p g c ''AMBIGUOUS_PLAN_GRAPH'' (''Plan graph validation failed: '' @ msg) []
      | Some (True, msg) \<Rightarrow>
          (let cms = current_milestone g c in
           case (if opt_true cms then get_milestone g (the cms) else None) of
             None \<Rightarrow> blocked_tick p g c ''INVALID_MILESTONE_CURSOR''
               (''Cursor milestone '' @ opt_str cms @ '' not found in plan.'') []
           | Some m \<Rightarrow>
               (case find (\<lambda>q. map_of (gate_statuses inp) (milestone_id q) \<noteq> Some ''ACCEPTED'')
                       (previous_milestones g (the cms)) of
                  Some q \<Rightarrow> blocked_tick p g c ''WRONG_MILESTONE_CURSOR''
                    (''Cannot operate in milestone '' @ the cms @ '' because previous milestone ''
                      @ milestone_id q @ '' gate is not accepted.'') (gate_statuses inp)
                | None \<Rightarrow> evaluate_tick p g c inp now (the cms) m)))"

definition request_stop ::
    "scope_store \<Rightarrow> string \<Rightarrow> int option \<Rightarrow> string \<Rightarrow> string \<Rightarrow> int \<Rightarrow> string \<Rightarrow> string \<Rightarrow> stop_result" where
  "request_stop db p expected reason actor now u1 u2 =
     execute_stop_transaction db p expected reason actor now u1 u2"

definition resume_scope ::
    "scope_store \<Rightarrow> string \<Rightarrow> int option \<Rightarrow> string option \<Rightarrow> string \<Rightarrow> int \<Rightarrow> string
      \<Rightarrow> scope_store \<times> (stop_error + scope_epoch_record)" where
  "resume_scope db p expected new_run actor now u = execute_resume_transaction db p expected new_run actor now u"

section \<open>What tick keeps of the cursor\<close>

lemma evaluate_tick_eq:
  "evaluate_tick p g c inp now mid m = (d, x, c') \<Longrightarrow>
     d = evaluate_scope_transition (build_snapshot g c inp mid m)
     \<and> c' = advance_cursor p g c mid m (build_snapshot g c inp mid m) d x now"
  unfolding evaluate_tick_def Let_def by (simp only: prod.inject) blast

lemma blocked_tick_eq:
  "blocked_tick p g c rc text gates = (d, x, c') \<Longrightarrow> action d = HALT_BLOCKED \<and> c' = c"
  by (auto simp: blocked_tick_def blocked_decision_def decision_def Let_def)

text \<open>The two ways a tick ends.\<close>

lemma tickE:
  assumes "tick p g order c inp now = (d, x, c')"
  obtains (blocked) "action d = HALT_BLOCKED" "c' = c"
  | (evaluated) mid m where "opt_true (current_milestone g c)" "mid = the (current_milestone g c)"
      "get_milestone g mid = Some m"
      "\<forall>q\<in>set (previous_milestones g mid). map_of (gate_statuses inp) (milestone_id q) = Some ''ACCEPTED''"
      "d = evaluate_scope_transition (build_snapshot g c inp mid m)"
      "c' = advance_cursor p g c mid m (build_snapshot g c inp mid m) d x now"
      "\<exists>msg. validate_graph g order = Some (True, msg)"
proof (cases "\<exists>msg m. validate_graph g order = Some (True, msg) \<and> opt_true (current_milestone g c)
      \<and> get_milestone g (the (current_milestone g c)) = Some m
      \<and> find (\<lambda>q. map_of (gate_statuses inp) (milestone_id q) \<noteq> Some ''ACCEPTED'')
          (previous_milestones g (the (current_milestone g c))) = None")
  case True
  then obtain m where m: "evaluate_tick p g c inp now (the (current_milestone g c)) m = (d, x, c')"
    "opt_true (current_milestone g c)" "get_milestone g (the (current_milestone g c)) = Some m"
    "find (\<lambda>q. map_of (gate_statuses inp) (milestone_id q) \<noteq> Some ''ACCEPTED'')
       (previous_milestones g (the (current_milestone g c))) = None"
    "\<exists>msg. validate_graph g order = Some (True, msg)"
    using assms by (auto simp: tick_def Let_def)
  from m(4) have "\<forall>q\<in>set (previous_milestones g (the (current_milestone g c))).
      map_of (gate_statuses inp) (milestone_id q) = Some ''ACCEPTED''"
    unfolding find_None_iff by blast
  with m evaluate_tick_eq[OF m(1)] show thesis using evaluated by blast
next
  case False
  then have "action d = HALT_BLOCKED \<and> c' = c"
    using assms unfolding tick_def Let_def
    by (cases "validate_graph g order")
      (auto split: if_splits option.splits bool.splits dest: blocked_tick_eq)
  then show thesis using blocked by blast
qed

lemma tick_cursor:
  assumes "tick p g order c inp now = (d, x, c')" and "cur_project c = p"
  shows "cur_project c' = p \<and> cur_id c' = cur_id c \<and> cur_run c' = cur_run c \<and> cur_scope c' = cur_scope c
    \<and> cur_epoch c' = cur_epoch c \<and> cur_status c' = cur_status c \<and> cur_revision c' = cur_revision c"
  using assms(1)
proof (cases rule: tickE)
  case (evaluated mid m)
  then show ?thesis using assms(2) by (simp add: advance_cursor_def)
qed (use assms(2) in simp)

lemma first_unaccepted_Some:
  "first_unaccepted g st tids = (Some tid, ok, pending) \<Longrightarrow>
     tid \<in> set tids \<and> map_of st tid \<noteq> Some ''ACCEPTED'' \<and> (\<exists>t. get_task g tid = Some t
       \<and> pending = pending_dependencies st t \<and> (ok \<longleftrightarrow> pending = []))"
  by (induction tids) (auto split: if_splits option.splits)

lemma resolve_Some:
  assumes "resolve_next_runnable_task g mid st = (Some tid, ok, pending)"
  obtains m t where "get_milestone g mid = Some m" "tid \<in> set (milestone_task_ids m)"
    "map_of st tid \<noteq> Some ''ACCEPTED''" "get_task g tid = Some t"
    "ok \<longleftrightarrow> (\<forall>d\<in>set (task_dependencies t). map_of st d = Some ''ACCEPTED'')"
  using assms
  by (auto simp: resolve_next_runnable_task_def pending_dependencies_def filter_empty_conv
      dest!: first_unaccepted_Some split: option.splits)

section \<open>The machine\<close>

text \<open>A store and the cursors that workers have read and not yet committed. A worker reads the cursor,
  ticks on what it read and commits with the revision it read; operators stop and resume. The
  label of a step is the project it resumes, if any.\<close>

record machine =
  db :: scope_store
  held :: "scope_cursor list"

inductive scope_step :: "string option \<Rightarrow> machine \<Rightarrow> machine \<Rightarrow> bool" where
  read: "get_or_create_cursor (db s) p run scope plan ver explicit now = (db', Inr c) \<Longrightarrow>
    scope_step None s (s\<lparr>db := db', held := c # held s\<rparr>)"
| commit: "c \<in> set (held s) \<Longrightarrow> tick (cur_project c) g order c inp now = (d, x, c') \<Longrightarrow>
    update_cursor_cas (db s) (cur_project c) c' (cur_revision c) now' = (db', ok) \<Longrightarrow>
    scope_step None s (s\<lparr>db := db'\<rparr>)"
| stop: "request_stop (db s) p expected reason actor now u1 u2 = (db', res) \<Longrightarrow>
    scope_step None s (s\<lparr>db := db'\<rparr>)"
| resume: "resume_scope (db s) p expected new_run actor now u = (db', res) \<Longrightarrow>
    scope_step (Some p) s (s\<lparr>db := db'\<rparr>)"

definition any_step :: "machine \<Rightarrow> machine \<Rightarrow> bool" where
  "any_step s t \<longleftrightarrow> (\<exists>l. scope_step l s t)"

definition machine_init :: "machine \<Rightarrow> bool" where
  "machine_init s \<longleftrightarrow> scope_cursors (db s) = [] \<and> stop_fences (db s) = [] \<and> held s = []"

definition fences_bounded :: "scope_store \<Rightarrow> bool" where
  "fences_bounded a \<longleftrightarrow> (\<forall>f\<in>set (stop_fences a). \<exists>r. find_cursor a (fence_project f) = Some r
     \<and> fence_epoch f \<le> cur_epoch r)"

definition held_fresh :: "machine \<Rightarrow> bool" where
  "held_fresh s \<longleftrightarrow> (\<forall>c\<in>set (held s). \<exists>r. find_cursor (db s) (cur_project c) = Some r
     \<and> cur_revision c \<le> cur_revision r \<and> (cur_revision c = cur_revision r \<longrightarrow> c = r))"

definition machine_inv :: "machine \<Rightarrow> bool" where
  "machine_inv s \<longleftrightarrow> distinct (map cur_project (scope_cursors (db s))) \<and> held_fresh s \<and> fences_bounded (db s)"

lemma get_or_create_cursor_store:
  assumes "get_or_create_cursor a p run scope plan ver explicit now = (b, Inr c)"
  shows "stop_fences b = stop_fences a" "find_cursor b p' = (if p' = p then Some c else find_cursor a p')"
    "cur_project c = p" "find_cursor a p = Some c \<or> find_cursor a p = None"
    "distinct (map cur_project (scope_cursors a)) \<Longrightarrow> distinct (map cur_project (scope_cursors b))"
proof -
  have main: "stop_fences b = stop_fences a \<and> find_cursor b p' = (if p' = p then Some c else find_cursor a p')
      \<and> cur_project c = p \<and> (find_cursor a p = Some c \<or> find_cursor a p = None)
      \<and> (distinct (map cur_project (scope_cursors a)) \<longrightarrow> distinct (map cur_project (scope_cursors b)))"
  proof (cases "find_cursor a p")
    case None
    let ?c = "new_cursor p run scope plan ver explicit now"
    have b: "b = a\<lparr>scope_cursors := scope_cursors a @ [?c]\<rparr>" "c = ?c"
      using assms None by (auto simp: get_or_create_cursor_def Let_def split: if_splits)
    have "find_cursor b p' = (if p' = p then Some c else find_cursor a p')" for p'
      using None by (auto simp: b find_cursor_def find_append new_cursor_def split: option.splits)
    moreover have "p \<notin> set (map cur_project (scope_cursors a))"
      using None by (auto simp: find_cursor_def find_None_iff)
    ultimately show ?thesis
      using None by (simp add: b new_cursor_def)
  next
    case (Some r)
    then have "b = a" "c = r" "cur_project r = p"
      using assms by (auto simp: get_or_create_cursor_def find_cursor_def dest: find_SomeD)
    with Some show ?thesis by simp
  qed
  show "stop_fences b = stop_fences a" "find_cursor b p' = (if p' = p then Some c else find_cursor a p')"
    "cur_project c = p" "find_cursor a p = Some c \<or> find_cursor a p = None"
    "distinct (map cur_project (scope_cursors a)) \<Longrightarrow> distinct (map cur_project (scope_cursors b))"
    by (insert main) simp_all
qed

lemma cas_row_simps [simp]:
  "cur_project (cas_row c e now q) = cur_project q" "cur_revision (cas_row c e now q) = e + 1"
  "cur_epoch (cas_row c e now q) = cur_epoch c" "cur_status (cas_row c e now q) = cur_status c"
  by (simp_all add: cas_row_def)

lemma find_cursor_unique:
  assumes "distinct (map cur_project (scope_cursors a))" and "q \<in> set (scope_cursors a)"
  shows "find_cursor a (cur_project q) = Some q"
proof -
  have "distinct (map cur_project cs) \<Longrightarrow> q \<in> set cs \<Longrightarrow> find (\<lambda>c. cur_project c = cur_project q) cs = Some q" for cs
    by (induction cs) (auto simp: image_iff)
  with assms show ?thesis by (simp add: find_cursor_def)
qed

lemma update_cursor_cas_store:
  assumes "update_cursor_cas a p c expected now = (b, ok)" and "distinct (map cur_project (scope_cursors a))"
  shows "stop_fences b = stop_fences a" "\<not> ok \<Longrightarrow> b = a"
    "distinct (map cur_project (scope_cursors b))"
    "ok \<Longrightarrow> \<exists>r. find_cursor a p = Some r \<and> cur_revision r = expected
       \<and> (\<forall>p'. find_cursor b p' = (if p' = p then Some (cas_row c expected now r) else find_cursor a p'))"
proof -
  show "stop_fences b = stop_fences a" "\<not> ok \<Longrightarrow> b = a"
    using assms(1) by (auto simp: update_cursor_cas_def split: if_splits)
  show "distinct (map cur_project (scope_cursors b))"
    using assms update_cursor_projects[of "cas_row c expected now" a p expected]
    by (auto simp: update_cursor_cas_def split: if_splits)
  assume ok
  then obtain q where q: "q \<in> set (scope_cursors a)" "cur_project q = p" "cur_revision q = expected"
    and b: "b = update_cursor a p expected (cas_row c expected now)"
    using assms(1) by (auto simp: update_cursor_cas_def list_ex_iff split: if_splits)
  have "find_cursor a p = Some q" using find_cursor_unique[OF assms(2) q(1)] q(2) by simp
  then show "\<exists>r. find_cursor a p = Some r \<and> cur_revision r = expected
       \<and> (\<forall>p'. find_cursor b p' = (if p' = p then Some (cas_row c expected now r) else find_cursor a p'))"
    using find_cursor_update[of a p q "cas_row c expected now"] q(3) b by auto
qed

text \<open>Every step moves each cursor by at most one revision; only a resume changes an epoch; only a
  resume makes a stopped project active; and fences only grow.\<close>

definition cursor_moves :: "bool \<Rightarrow> scope_cursor \<Rightarrow> scope_cursor \<Rightarrow> bool" where
  "cursor_moves resumed r r' \<longleftrightarrow> (r' = r \<or> cur_revision r' = cur_revision r + 1)
     \<and> (if resumed then r' = r \<or> cur_epoch r' = cur_epoch r + 1
        else cur_epoch r' = cur_epoch r \<and> (cur_status r = ''STOPPED'' \<longrightarrow> cur_status r' = ''STOPPED''))"

definition fences_grow :: "scope_store \<Rightarrow> scope_store \<Rightarrow> bool" where
  "fences_grow a b \<longleftrightarrow> (\<exists>fs. stop_fences b = stop_fences a @ fs
     \<and> (\<forall>f\<in>set fs. \<exists>r. find_cursor a (fence_project f) = Some r \<and> fence_epoch f = cur_epoch r))"

definition store_moves :: "string option \<Rightarrow> scope_store \<Rightarrow> scope_store \<Rightarrow> bool" where
  "store_moves l a b \<longleftrightarrow> fences_grow a b
     \<and> (distinct (map cur_project (scope_cursors a)) \<longrightarrow> distinct (map cur_project (scope_cursors b)))
     \<and> (\<forall>p r. find_cursor a p = Some r \<longrightarrow>
          (\<exists>r'. find_cursor b p = Some r' \<and> cursor_moves (l = Some p) r r'))"

lemma cursor_moves_refl [simp]: "cursor_moves b r r"
  by (simp add: cursor_moves_def)

lemma store_moves_refl: "store_moves l a a"
  by (auto simp: store_moves_def fences_grow_def)

lemma store_movesD:
  assumes "store_moves l a b"
  shows "fences_grow a b"
    "find_cursor a p = Some r \<Longrightarrow> \<exists>r'. find_cursor b p = Some r' \<and> cursor_moves (l = Some p) r r'"
  using assms unfolding store_moves_def by blast+

lemma store_moves_one:
  assumes "fences_grow a b" and "find_cursor a p = Some r"
    and "\<forall>p'. find_cursor b p' = (if p' = p then Some r' else find_cursor a p')"
    and "cursor_moves (l = Some p) r r'"
    and "distinct (map cur_project (scope_cursors a)) \<Longrightarrow> distinct (map cur_project (scope_cursors b))"
  shows "store_moves l a b"
  unfolding store_moves_def
proof (intro conjI allI impI)
  fix q s assume "find_cursor a q = Some s"
  with assms(2,3,4) show "\<exists>r'. find_cursor b q = Some r' \<and> cursor_moves (l = Some q) s r'"
    by (cases "q = p") auto
qed (use assms(1,5) in auto)

lemma stop_moves:
  assumes "request_stop a p expected reason actor now u1 u2 = (b, res)"
  shows "store_moves None a b"
proof -
  have "execute_stop_transaction a p expected reason actor now u1 u2 = (b, res)"
    using assms by (simp add: request_stop_def)
  from execute_stop_store[OF this] consider "b = a"
    | c f where "find_cursor a p = Some c" "stop_fences b = stop_fences a @ [f]" "fence_project f = p"
      "fence_epoch f = cur_epoch c"
      "\<forall>p'. find_cursor b p' = (if p' = p then Some (stopped_cursor c reason now) else find_cursor a p')"
      "map cur_project (scope_cursors b) = map cur_project (scope_cursors a)" by blast
  then show ?thesis
  proof cases
    case (2 c f)
    then show ?thesis
      by (intro store_moves_one[of a b p c]) (auto simp: fences_grow_def cursor_moves_def stopped_cursor_def)
  qed (simp add: store_moves_refl)
qed

lemma resume_moves:
  assumes "resume_scope a p expected new_run actor now u = (b, res)"
  shows "store_moves (Some p) a b"
proof -
  have "execute_resume_transaction a p expected new_run actor now u = (b, res)"
    using assms by (simp add: resume_scope_def)
  from execute_resume_store[OF this] consider "b = a"
    | c run where "find_cursor a p = Some c" "stop_fences b = stop_fences a"
      "\<forall>p'. find_cursor b p' = (if p' = p then Some (resumed_cursor c run now) else find_cursor a p')"
      "map cur_project (scope_cursors b) = map cur_project (scope_cursors a)" by blast
  then show ?thesis
  proof cases
    case (2 c run)
    then show ?thesis
      by (intro store_moves_one[of a b p c]) (auto simp: fences_grow_def cursor_moves_def)
  qed (simp add: store_moves_refl)
qed

lemma read_moves:
  assumes "get_or_create_cursor a p run scope plan ver explicit now = (b, Inr c)"
  shows "store_moves None a b"
  using get_or_create_cursor_store[OF assms] by (auto simp: store_moves_def fences_grow_def)

text \<open>A commit that succeeds was computed from the current row.\<close>

lemma commit_moves:
  assumes "held_fresh s" "distinct (map cur_project (scope_cursors (db s)))" "c \<in> set (held s)"
    and "tick (cur_project c) g order c inp now = (d, x, c')"
    and "update_cursor_cas (db s) (cur_project c) c' (cur_revision c) now' = (b, ok)"
  shows "store_moves None (db s) b" "ok \<Longrightarrow> find_cursor (db s) (cur_project c) = Some c"
proof -
  note cas = update_cursor_cas_store[OF assms(5,2)]
  have current: "find_cursor (db s) (cur_project c) = Some c"
    if "find_cursor (db s) (cur_project c) = Some r" "cur_revision r = cur_revision c" for r
    using assms(1,3) that by (auto simp: held_fresh_def)
  show "store_moves None (db s) b"
  proof (cases ok)
    case True
    from cas(4)[OF True] current
    have c: "find_cursor (db s) (cur_project c) = Some c"
      "\<forall>p'. find_cursor b p' = (if p' = cur_project c
         then Some (cas_row c' (cur_revision c) now' c) else find_cursor (db s) p')"
      by auto
    show ?thesis
      using c cas(1,3) tick_cursor[OF assms(4)]
      by (intro store_moves_one[OF _ c]) (auto simp: fences_grow_def cursor_moves_def)
  next
    case False
    then show ?thesis using cas(2) by (simp add: store_moves_refl)
  qed
  show "ok \<Longrightarrow> find_cursor (db s) (cur_project c) = Some c" using cas(4) current by auto
qed

lemma scope_step_moves:
  assumes "scope_step l s t" and "machine_inv s"
  shows "store_moves l (db s) (db t)"
  using assms
  by cases (auto simp: machine_inv_def read_moves stop_moves resume_moves dest: commit_moves(1))

lemma scope_step_held:
  assumes "scope_step l s t" and "c \<in> set (held t)"
  shows "c \<in> set (held s) \<or> find_cursor (db t) (cur_project c) = Some c"
  using assms by cases (auto simp: get_or_create_cursor_store(2,3))

lemma held_fresh_moves:
  assumes "held_fresh s" and "store_moves l (db s) b" and "c \<in> set (held s)"
  shows "\<exists>r. find_cursor b (cur_project c) = Some r
    \<and> cur_revision c \<le> cur_revision r \<and> (cur_revision c = cur_revision r \<longrightarrow> c = r)"
proof -
  obtain r where r: "find_cursor (db s) (cur_project c) = Some r" "cur_revision c \<le> cur_revision r"
      "cur_revision c = cur_revision r \<longrightarrow> c = r"
    using assms(1,3) by (auto simp: held_fresh_def)
  from store_movesD(2)[OF assms(2) r(1)] obtain r' where r': "find_cursor b (cur_project c) = Some r'"
    "cursor_moves (l = Some (cur_project c)) r r'" by blast
  then have "r' = r \<or> cur_revision r' = cur_revision r + 1" by (simp add: cursor_moves_def)
  then show ?thesis
  proof
    assume "r' = r"
    with r r'(1) show ?thesis by blast
  next
    assume "cur_revision r' = cur_revision r + 1"
    with r(2) have "cur_revision c < cur_revision r'" by simp
    then show ?thesis using r'(1) by (intro exI[of _ r']) simp
  qed
qed

lemma cursor_moves_epoch: "cursor_moves b r r' \<Longrightarrow> cur_epoch r \<le> cur_epoch r'"
  by (auto simp: cursor_moves_def split: if_splits)

lemma fences_bounded_moves:
  assumes "fences_bounded a" and "store_moves l a b"
  shows "fences_bounded b"
  unfolding fences_bounded_def
proof
  fix f assume "f \<in> set (stop_fences b)"
  moreover obtain fs where fs: "stop_fences b = stop_fences a @ fs"
    "\<forall>f\<in>set fs. \<exists>r. find_cursor a (fence_project f) = Some r \<and> fence_epoch f = cur_epoch r"
    using store_movesD(1)[OF assms(2)] unfolding fences_grow_def by blast
  ultimately consider "f \<in> set (stop_fences a)" | "f \<in> set fs" by auto
  then obtain r where r: "find_cursor a (fence_project f) = Some r" "fence_epoch f \<le> cur_epoch r"
    using assms(1) fs(2) unfolding fences_bounded_def by cases (blast, metis order_refl)
  from store_movesD(2)[OF assms(2) r(1)] show "\<exists>r. find_cursor b (fence_project f) = Some r \<and> fence_epoch f \<le> cur_epoch r"
    using r(2) by (meson cursor_moves_epoch order_trans)
qed

interpretation scope_machine: inductive_invariant machine_init any_step machine_inv
proof
  fix s assume "machine_init s"
  then show "machine_inv s"
    by (simp add: machine_init_def machine_inv_def held_fresh_def fences_bounded_def)
next
  fix s t assume inv: "machine_inv s" and "any_step s t"
  then obtain l where l: "scope_step l s t" by (auto simp: any_step_def)
  note moves = scope_step_moves[OF l inv]
  have "held_fresh t"
    unfolding held_fresh_def
  proof
    fix c assume "c \<in> set (held t)"
    from scope_step_held[OF l this] show "\<exists>r. find_cursor (db t) (cur_project c) = Some r
        \<and> cur_revision c \<le> cur_revision r \<and> (cur_revision c = cur_revision r \<longrightarrow> c = r)"
      using held_fresh_moves[OF _ moves] inv by (auto simp: machine_inv_def)
  qed
  moreover have "fences_bounded (db t)"
    using fences_bounded_moves[OF _ moves] inv by (simp add: machine_inv_def)
  ultimately show "machine_inv t" using inv moves by (simp add: machine_inv_def store_moves_def)
qed

lemma any_steps_inv: "any_step\<^sup>*\<^sup>* s t \<Longrightarrow> machine_inv s \<Longrightarrow> machine_inv t"
  by (induction rule: rtranclp_induct) (auto intro: scope_machine.inv_step)

lemma fence_step:
  assumes "scope_step l s t" and "find_fence (db s) p e \<noteq> None"
  shows "find_fence (db t) p e \<noteq> None"
proof -
  have "\<exists>fs. stop_fences (db t) = stop_fences (db s) @ fs"
    using assms(1)
  proof cases
    case (stop p expected reason actor now u1 u2 db' res)
    then show ?thesis by (auto simp: request_stop_def dest!: execute_stop_store)
  next
    case (resume p expected new_run actor now u db' res)
    then show ?thesis by (auto simp: resume_scope_def dest!: execute_resume_store)
  next
    case (commit c g order inp now d x c' now' db' ok)
    then show ?thesis by (auto simp: update_cursor_cas_def split: if_splits)
  qed (auto simp: get_or_create_cursor_store(1))
  with assms(2) show ?thesis by (auto simp: find_fence_def find_append split: option.splits)
qed


definition unresumed_step :: "string \<Rightarrow> machine \<Rightarrow> machine \<Rightarrow> bool" where
  "unresumed_step p s t \<longleftrightarrow> (\<exists>l. l \<noteq> Some p \<and> scope_step l s t)"

text \<open>The project's current epoch is fenced.\<close>

definition epoch_fenced :: "string \<Rightarrow> machine \<Rightarrow> bool" where
  "epoch_fenced p s = (case find_cursor (db s) p of None \<Rightarrow> False
     | Some r \<Rightarrow> find_fence (db s) p (cur_epoch r) \<noteq> None)"

lemma epoch_fenced_step:
  assumes "unresumed_step p s t" and "machine_inv s" and "epoch_fenced p s"
  shows "machine_inv t \<and> epoch_fenced p t"
proof -
  obtain l where l: "scope_step l s t" "l \<noteq> Some p" using assms(1) by (auto simp: unresumed_step_def)
  obtain r where r: "find_cursor (db s) p = Some r" "find_fence (db s) p (cur_epoch r) \<noteq> None"
    using assms(3) by (auto simp: epoch_fenced_def split: option.splits)
  obtain r' where r': "find_cursor (db t) p = Some r'" "cur_epoch r' = cur_epoch r"
    using store_movesD(2)[OF scope_step_moves[OF l(1) assms(2)] r(1)] l(2) by (auto simp: cursor_moves_def)
  have "machine_inv t" using scope_machine.inv_step[OF assms(2)] l(1) by (auto simp: any_step_def)
  with r r' fence_step[OF l(1) r(2)] show ?thesis by (simp add: epoch_fenced_def)
qed

lemma epoch_fenced_steps:
  "(unresumed_step p)\<^sup>*\<^sup>* s t \<Longrightarrow> machine_inv s \<Longrightarrow> epoch_fenced p s \<Longrightarrow> epoch_fenced p t"
proof -
  have "(unresumed_step p)\<^sup>*\<^sup>* s t \<Longrightarrow> machine_inv s \<Longrightarrow> epoch_fenced p s \<Longrightarrow> machine_inv t \<and> epoch_fenced p t"
    by (induction rule: rtranclp_induct) (auto dest: epoch_fenced_step)
  then show "(unresumed_step p)\<^sup>*\<^sup>* s t \<Longrightarrow> machine_inv s \<Longrightarrow> epoch_fenced p s \<Longrightarrow> epoch_fenced p t" by blast
qed

lemma epoch_fenced_blocks: "epoch_fenced p s \<Longrightarrow> \<not> check_allowed (check (db s) p e b)"
  by (auto simp: epoch_fenced_def check_allowed_iff split: option.splits)

lemma stop_fences_epoch:
  assumes "request_stop (db s) p expected reason actor now u1 u2 = (b, Inr (f, replay))"
  shows "epoch_fenced p (s\<lparr>db := b\<rparr>)"
  using assms[unfolded request_stop_def]
proof (cases rule: execute_stopE)
  case (applied c)
  from applied(2,1) show ?thesis
  proof (cases rule: apply_stopE)
    case fresh
    then have "find_fence b p (cur_epoch c) \<noteq> None" by (simp add: find_fence_def find_append)
    with fresh(8) show ?thesis by (simp add: epoch_fenced_def stopped_cursor_def)
  qed (use applied(1) in \<open>simp add: epoch_fenced_def\<close>)
qed (simp add: epoch_fenced_def)

lemma epochs_grow:
  assumes "any_step\<^sup>*\<^sup>* s t" and "machine_inv s" and "find_cursor (db s) p = Some r"
  shows "\<exists>r'. find_cursor (db t) p = Some r' \<and> cur_epoch r \<le> cur_epoch r'
    \<and> cur_revision r \<le> cur_revision r' \<and> (cur_revision r' = cur_revision r \<longrightarrow> r' = r)"
  using assms(1)
proof (induction rule: rtranclp_induct)
  case base
  then show ?case using assms(3) by simp
next
  case (step t u)
  from step.IH obtain r1 where r1: "find_cursor (db t) p = Some r1" "cur_epoch r \<le> cur_epoch r1"
    "cur_revision r \<le> cur_revision r1" "cur_revision r1 = cur_revision r \<longrightarrow> r1 = r" by blast
  obtain l where l: "scope_step l t u" using step.hyps(2) by (auto simp: any_step_def)
  have "machine_inv t" using any_steps_inv[OF step.hyps(1) assms(2)] .
  from store_movesD(2)[OF scope_step_moves[OF l this] r1(1)] obtain r2 where
    r2: "find_cursor (db u) p = Some r2" "cursor_moves (l = Some p) r1 r2" by blast
  then have m: "r2 = r1 \<or> cur_revision r2 = cur_revision r1 + 1" by (simp add: cursor_moves_def)
  then have "cur_revision r \<le> cur_revision r2 \<and> (cur_revision r2 = cur_revision r \<longrightarrow> r2 = r)"
  proof
    assume "r2 = r1"
    with r1 show ?thesis by blast
  qed (use r1(3) in simp)
  with r2(1) cursor_moves_epoch[OF r2(2)] r1(2) show ?case by (intro exI[of _ r2]) simp
qed

text \<open>A tick's launch, in terms of the plan and the statuses it was given.\<close>

definition launch_in_milestone :: "plan_graph \<Rightarrow> tick_input \<Rightarrow> plan_milestone \<Rightarrow> scope_decision \<Rightarrow> bool" where
  "launch_in_milestone g inp m d \<longleftrightarrow> (\<exists>tid t. selected_task_id d = Some tid
     \<and> tid \<in> set (milestone_task_ids m) \<and> get_task g tid = Some t
     \<and> map_of (task_statuses inp) tid \<noteq> Some ''ACCEPTED''
     \<and> (\<forall>e\<in>set (task_dependencies t). map_of (task_statuses inp) e = Some ''ACCEPTED'')
     \<and> (requires_manual_approval t \<longrightarrow> map_of (manual_approvals inp) tid = Some True)
     \<and> (requires_policy_approval t \<longrightarrow> map_of (policy_approvals inp) tid = Some True))"

text \<open>The tasks of a milestone still to be accepted, in plan order; ids the plan has no task for are
  passed over, as the code passes over them.\<close>

definition unaccepted_tasks :: "plan_graph \<Rightarrow> statuses \<Rightarrow> plan_milestone \<Rightarrow> string list" where
  "unaccepted_tasks g st m =
     filter (\<lambda>t. map_of st t \<noteq> Some ''ACCEPTED'' \<and> get_task g t \<noteq> None) (milestone_task_ids m)"

text \<open>The next milestone is entered with its first unaccepted task, or with no task when it has
  none (or its id is empty).\<close>

definition launch_across :: "plan_graph \<Rightarrow> tick_input \<Rightarrow> string \<Rightarrow> plan_milestone \<Rightarrow> scope_decision \<Rightarrow> bool" where
  "launch_across g inp mid m d \<longleftrightarrow> milestone_done m (task_statuses inp)
     \<and> map_of (gate_statuses inp) mid = Some ''ACCEPTED''
     \<and> (\<exists>n m'. next_milestone g mid = Some n \<and> get_milestone g n = Some m' \<and> selected_milestone_id d = Some n
         \<and> (\<forall>e\<in>set (milestone_dependencies m'). map_of (gate_statuses inp) e = Some ''ACCEPTED'')
         \<and> selected_task_id d = (case unaccepted_tasks g (task_statuses inp) m' of
              [] \<Rightarrow> None | t # ts \<Rightarrow> if t = [] then None else Some t))"

definition continues_current :: "scope_cursor \<Rightarrow> tick_input \<Rightarrow> scope_decision \<Rightarrow> bool" where
  "continues_current c inp d \<longleftrightarrow> selected_task_id d = cur_task c
     \<and> (\<exists>tid. cur_task c = Some tid \<and> map_of (task_statuses inp) tid \<in> {Some ''IN_PROGRESS'', Some ''FAILED''})"

lemma snapshot_simps [simp]:
  "stop_requested (build_snapshot g c inp mid m) \<longleftrightarrow>
     stop_flag inp \<or> cur_status c = ''STOPPED'' \<or> cur_disposition c = ''STOPPED''"
  "approved_plan_exhausted (build_snapshot g c inp mid m) = plan_exhausted inp"
  "current_scope (build_snapshot g c inp mid m) = cur_scope c"
  "current_task_id (build_snapshot g c inp mid m) = cur_task c"
  "current_task_status (build_snapshot g c inp mid m) =
     (if opt_true (cur_task c) then map_of (task_statuses inp) (the (cur_task c)) else None)"
  "all_milestone_tasks_accepted (build_snapshot g c inp mid m) = milestone_done m (task_statuses inp)"
  "current_milestone_gate_status (build_snapshot g c inp mid m) =
     Some (case map_of (gate_statuses inp) mid of Some s \<Rightarrow> s | None \<Rightarrow> ''NOT_REACHED'')"
  "current_milestone_id (build_snapshot g c inp mid m) = Some mid"
  "next_milestone_id (build_snapshot g c inp mid m) = next_milestone g mid"
  "next_milestone_dependencies_satisfied (build_snapshot g c inp mid m) =
     fst (next_milestone_info g inp (next_milestone g mid))"
  "first_task_in_next_milestone_id (build_snapshot g c inp mid m) =
     snd (next_milestone_info g inp (next_milestone g mid))"
  "next_task_in_milestone_id (build_snapshot g c inp mid m) =
     fst (resolve_next_runnable_task g mid (task_statuses inp))"
  "next_task_dependencies_satisfied (build_snapshot g c inp mid m) =
     fst (snd (resolve_next_runnable_task g mid (task_statuses inp)))"
  by (simp_all add: build_snapshot_def Let_def case_prod_beta)

lemma snapshot_gates:
  assumes "resolve_next_runnable_task g mid (task_statuses inp) = (Some tid, ok, pending)"
    and "tid \<noteq> []" and "get_task g tid = Some t"
  shows "manual_gate_required (build_snapshot g c inp mid m) = requires_manual_approval t"
    "policy_gate_required (build_snapshot g c inp mid m) = requires_policy_approval t"
    "manual_gate_approved (build_snapshot g c inp mid m) =
       (requires_manual_approval t \<longrightarrow> map_of (manual_approvals inp) tid = Some True)"
    "policy_gate_approved (build_snapshot g c inp mid m) =
       (requires_policy_approval t \<longrightarrow> map_of (policy_approvals inp) tid = Some True)"
  using assms by (auto simp: build_snapshot_def Let_def case_prod_beta approval_def split: option.splits)

lemma first_unaccepted_hd:
  "fst (first_unaccepted g st (milestone_task_ids m)) =
     (case unaccepted_tasks g st m of [] \<Rightarrow> None | t # ts \<Rightarrow> Some t)"
proof -
  have "fst (first_unaccepted g st tids) =
     (case filter (\<lambda>t. map_of st t \<noteq> Some ''ACCEPTED'' \<and> get_task g t \<noteq> None) tids of
        [] \<Rightarrow> None | t # ts \<Rightarrow> Some t)" for tids
    by (induction tids) (auto split: option.splits)
  then show ?thesis by (simp add: unaccepted_tasks_def)
qed

lemma milestone_done_unaccepted: "milestone_done m st \<Longrightarrow> unaccepted_tasks g st m = []"
  by (auto simp: milestone_done_def unaccepted_tasks_def list_all_iff filter_empty_conv)

lemma next_milestone_found:
  assumes "next_milestone g mid = Some n"
  obtains m where "get_milestone g n = Some m"
proof -
  have "n \<in> milestone_id ` set (milestones g)"
    using assms by (auto simp: next_milestone_def Let_def split: if_splits)
  then have "get_milestone g n \<noteq> None"
    by (auto simp: get_milestone_def find_None_iff)
  then show thesis using that by blast
qed

lemma launches_across_tick:
  assumes "get_milestone g mid = Some m" and "launches_across (build_snapshot g c inp mid m) d"
  shows "cur_scope c \<in> {PROJECT, UNTIL_STOPPED} \<and> launch_across g inp mid m d"
proof -
  let ?st = "task_statuses inp"
  have L: "cur_scope c \<in> {PROJECT, UNTIL_STOPPED}" "milestone_done m ?st"
    "map_of (gate_statuses inp) mid = Some ''ACCEPTED''" "opt_true (next_milestone g mid)"
    "fst (next_milestone_info g inp (next_milestone g mid))"
    "selected_milestone_id d = next_milestone g mid"
    "selected_task_id d = opt_or (snd (next_milestone_info g inp (next_milestone g mid)))
       (fst (resolve_next_runnable_task g mid ?st))"
    using assms(2) by (auto simp: launches_across_def split: option.splits)
  obtain n where n: "next_milestone g mid = Some n" "n \<noteq> []" using L(4) by (blast dest: opt_true_Some)
  obtain m' where m': "get_milestone g n = Some m'" using next_milestone_found[OF n(1)] .
  have "fst (resolve_next_runnable_task g mid ?st) = None"
    using assms(1) milestone_done_unaccepted[OF L(2)]
    by (simp add: resolve_next_runnable_task_def first_unaccepted_hd)
  then have "selected_task_id d =
      (case unaccepted_tasks g ?st m' of [] \<Rightarrow> None | t # ts \<Rightarrow> if t = [] then None else Some t)"
    using L(7) n m'
    by (simp add: next_milestone_info_def resolve_next_runnable_task_def first_unaccepted_hd opt_or_def
        split: list.splits)
  moreover have "\<forall>e\<in>set (milestone_dependencies m'). map_of (gate_statuses inp) e = Some ''ACCEPTED''"
    using L(5) n m' by (simp add: next_milestone_info_def list_all_iff)
  ultimately show ?thesis using L(1-3,6) n(1) m' by (simp add: launch_across_def)
qed

lemma launches_next_in_milestone:
  assumes "get_milestone g mid = Some m" and "launches_next (build_snapshot g c inp mid m) d"
    and "manual_gate_required (build_snapshot g c inp mid m) \<longrightarrow> manual_gate_approved (build_snapshot g c inp mid m)"
    and "policy_gate_required (build_snapshot g c inp mid m) \<longrightarrow> policy_gate_approved (build_snapshot g c inp mid m)"
  shows "launch_in_milestone g inp m d"
proof -
  obtain tid where sel: "fst (resolve_next_runnable_task g mid (task_statuses inp)) = Some tid" "tid \<noteq> []"
    "selected_task_id d = Some tid" and ok: "fst (snd (resolve_next_runnable_task g mid (task_statuses inp)))"
    using assms(2) by (auto simp: launches_next_def dest!: opt_true_Some)
  obtain pending where res: "resolve_next_runnable_task g mid (task_statuses inp) = (Some tid, True, pending)"
    using sel(1) ok by (metis prod.collapse)
  from res obtain m' t where t: "get_milestone g mid = Some m'" "tid \<in> set (milestone_task_ids m')"
    "map_of (task_statuses inp) tid \<noteq> Some ''ACCEPTED''" "get_task g tid = Some t"
    "\<forall>e\<in>set (task_dependencies t). map_of (task_statuses inp) e = Some ''ACCEPTED''"
    by (rule resolve_Some) blast
  show ?thesis
    using t assms(1,3,4) sel(3) snapshot_gates[OF res sel(2) t(4)]
    unfolding launch_in_milestone_def by auto
qed

section \<open>Properties\<close>

text \<open>C6: After a STOP has returned, no effect of the project passes any boundary until the scope is
  resumed, whatever workers read, tick and commit in between, in whatever order, including
  workers that read the cursor before the STOP.\<close>

theorem stop_holds_until_resume:
  assumes "reachable machine_init any_step s"
    and "request_stop (db s) p expected reason actor now u1 u2 = (b, Inr (f, replay))"
    and "(unresumed_step p)\<^sup>*\<^sup>* (s\<lparr>db := b\<rparr>) t"
  shows "\<not> check_allowed (check (db t) p e bd)"
proof -
  have "any_step s (s\<lparr>db := b\<rparr>)" using stop[OF assms(2)] by (auto simp: any_step_def)
  then have "machine_inv (s\<lparr>db := b\<rparr>)"
    using scope_machine.inv_reachable[OF assms(1)] scope_machine.inv_step by blast
  with epoch_fenced_steps[OF assms(3)] stop_fences_epoch[OF assms(2)] epoch_fenced_blocks
  show ?thesis by blast
qed

text \<open>A machine in which one worker has created the cursor of a project and holds it.\<close>

definition fresh_store :: scope_store where
  "fresh_store = \<lparr>scope_cursors = [], stop_fences = [], launch_outbox = None, send_intents = None,
     audit_events = Some []\<rparr>"

definition sample_machine :: machine where
  "sample_machine = \<lparr>db = fresh_store\<lparr>scope_cursors := [new_cursor ''p'' ''r1'' PROJECT ''plan:v1'' 1 False 0]\<rparr>,
     held = [new_cursor ''p'' ''r1'' PROJECT ''plan:v1'' 1 False 0]\<rparr>"

lemma sample_machine_reachable: "reachable machine_init any_step sample_machine"
proof -
  let ?s = "\<lparr>db = fresh_store, held = []\<rparr>"
  have "get_or_create_cursor (db ?s) ''p'' ''r1'' PROJECT ''plan:v1'' 1 False 0
      = (fresh_store\<lparr>scope_cursors := [new_cursor ''p'' ''r1'' PROJECT ''plan:v1'' 1 False 0]\<rparr>,
         Inr (new_cursor ''p'' ''r1'' PROJECT ''plan:v1'' 1 False 0))"
    by (simp add: get_or_create_cursor_def fresh_store_def find_cursor_def Let_def)
  from read[OF this] have "any_step ?s sample_machine"
    unfolding any_step_def sample_machine_def by auto
  moreover have "reachable machine_init any_step ?s"
    by (rule reach_init) (simp add: machine_init_def fresh_store_def)
  ultimately show ?thesis by (rule reach_step[rotated])
qed

lemma sample_machine_stop:
  "\<exists>b f. request_stop (db sample_machine) ''p'' None ''halt'' ''operator'' 5 ''aa'' ''bb'' = (b, Inr (f, False))"
  by (simp add: request_stop_def sample_machine_def fresh_store_def new_cursor_def
      execute_stop_transaction_def find_cursor_def is_stopped_def apply_stop_def cancel_launches_def
      fence_intents_def find_fence_def Let_def insert_audit_def stop_event_def new_fence_def update_cursor_def)

text \<open>C6 applied to a STOP of a project whose cursor a worker already holds.\<close>

theorem stop_holds_until_resume_witness:
  "\<exists>b f. request_stop (db sample_machine) ''p'' None ''halt'' ''operator'' 5 ''aa'' ''bb'' = (b, Inr (f, False))
     \<and> \<not> check_allowed (check (db (sample_machine\<lparr>db := b\<rparr>)) ''p'' 1 LAUNCH_PREPARE)"
proof -
  obtain b f where r: "request_stop (db sample_machine) ''p'' None ''halt'' ''operator'' 5 ''aa'' ''bb'' = (b, Inr (f, False))"
    using sample_machine_stop by blast
  from stop_holds_until_resume[OF sample_machine_reachable r rtranclp.rtrancl_refl] r show ?thesis by blast
qed



text \<open>Along every run the epoch and the revision of a cursor never decrease, and an unchanged
  revision means an unchanged cursor.\<close>

lemma epoch_and_revision_monotone:
  assumes "reachable machine_init any_step s" and "any_step\<^sup>*\<^sup>* s t" and "find_cursor (db s) p = Some r"
  shows "\<exists>r'. find_cursor (db t) p = Some r' \<and> cur_epoch r \<le> cur_epoch r'
    \<and> cur_revision r \<le> cur_revision r' \<and> (cur_revision r' = cur_revision r \<longrightarrow> r' = r)"
  using epochs_grow[OF assms(2) scope_machine.inv_reachable[OF assms(1)] assms(3)] .

text \<open>C39: Commits are linearizable: a worker's commit succeeds only if the row is still exactly the
  cursor it read, and after one success a second commit from the same read fails.\<close>

theorem commit_linearizable:
  assumes "reachable machine_init any_step s" and "c \<in> set (held s)"
    and "tick (cur_project c) g order c inp now = (d, x, c')"
    and "update_cursor_cas (db s) (cur_project c) c' (cur_revision c) now' = (b, True)"
  shows "find_cursor (db s) (cur_project c) = Some c
    \<and> snd (update_cursor_cas b (cur_project c) c2 (cur_revision c) now2) = False"
proof -
  have inv: "held_fresh s" "distinct (map cur_project (scope_cursors (db s)))"
    using scope_machine.inv_reachable[OF assms(1)] by (simp_all add: machine_inv_def)
  note cas = update_cursor_cas_store[OF assms(4) inv(2)]
  have "\<not> list_ex (\<lambda>q. cur_project q = cur_project c \<and> cur_revision q = cur_revision c) (scope_cursors b)"
  proof
    assume "list_ex (\<lambda>q. cur_project q = cur_project c \<and> cur_revision q = cur_revision c) (scope_cursors b)"
    then obtain q where q: "q \<in> set (scope_cursors b)" "cur_project q = cur_project c" "cur_revision q = cur_revision c"
      by (auto simp: list_ex_iff)
    have "find_cursor b (cur_project c) = Some q" using find_cursor_unique[OF cas(3) q(1)] q(2) by simp
    with cas(4) q(3) show False by auto
  qed
  then show ?thesis
    using commit_moves(2)[OF inv assms(2,3,4)] by (simp add: update_cursor_cas_def)
qed

text \<open>A plan with two milestones; the first task of the second one needs a manual approval and waits
  for a task of its own milestone.\<close>

definition two_milestones :: plan_graph where
  "two_milestones = \<lparr>plan_identity = ''plan:v1'', plan_version = 1,
     milestones = [
       \<lparr>milestone_id = ''M1'', gate_id = ''G1'', milestone_dependencies = [], milestone_task_ids = [''A'']\<rparr>,
       \<lparr>milestone_id = ''M2'', gate_id = ''G2'', milestone_dependencies = [''M1''], milestone_task_ids = [''B'', ''C'']\<rparr>],
     tasks = [
       \<lparr>task_id = ''A'', task_milestone_id = ''M1'', task_dependencies = [], is_gate = False,
        requires_manual_approval = False, requires_policy_approval = False\<rparr>,
       \<lparr>task_id = ''B'', task_milestone_id = ''M2'', task_dependencies = [''C''], is_gate = False,
        requires_manual_approval = True, requires_policy_approval = False\<rparr>,
       \<lparr>task_id = ''C'', task_milestone_id = ''M2'', task_dependencies = [''A''], is_gate = False,
        requires_manual_approval = False, requires_policy_approval = False\<rparr>],
     plan_digest = None\<rparr>"

definition idle_input :: tick_input where
  "idle_input = \<lparr>task_statuses = [], gate_statuses = [], manual_approvals = [], policy_approvals = [],
     stop_flag = False, ci_waiting_tasks = [], transient_backoff_tasks = [], plan_exhausted = False,
     ui_suggested_task = None, prompt_suggested_task = None\<rparr>"

lemma two_milestones_valid: "validate_graph two_milestones [''A'', ''B'', ''C''] = Some (True, ''valid'')"
  by (simp add: validate_graph_def two_milestones_def broken_reference_def broken_dependency_def
      task_ids_def dependencies_of_def get_task_def)

lemma tick_two_milestones:
  assumes "current_milestone two_milestones c = Some ''M1''" and "get_milestone two_milestones ''M1'' = Some m"
  shows "tick p two_milestones [''A'', ''B'', ''C''] c inp now = evaluate_tick p two_milestones c inp now ''M1'' m"
proof -
  have "previous_milestones two_milestones ''M1'' = []"
    by (simp add: previous_milestones_def two_milestones_def)
  with assms show ?thesis by (simp add: tick_def two_milestones_valid)
qed

text \<open>C39 applied to the first commit of a worker that has just read the cursor.\<close>

theorem commit_linearizable_witness:
  "\<exists>c d x c' b. c \<in> set (held sample_machine)
     \<and> tick ''p'' two_milestones [''A'', ''B'', ''C''] c idle_input 1 = (d, x, c')
     \<and> update_cursor_cas (db sample_machine) ''p'' c' (cur_revision c) 2 = (b, True)
     \<and> snd (update_cursor_cas b ''p'' c' (cur_revision c) 3) = False"
proof -
  let ?c = "new_cursor ''p'' ''r1'' PROJECT ''plan:v1'' 1 False 0"
  have h: "?c \<in> set (held sample_machine)" and p: "cur_project ?c = ''p''"
    by (simp_all add: sample_machine_def new_cursor_def)
  obtain d x c' where t: "tick (cur_project ?c) two_milestones [''A'', ''B'', ''C''] ?c idle_input 1 = (d, x, c')"
    by (metis prod_cases3)
  obtain b where u: "update_cursor_cas (db sample_machine) (cur_project ?c) c' (cur_revision ?c) 2 = (b, True)"
    by (simp add: update_cursor_cas_def sample_machine_def new_cursor_def)
  from commit_linearizable[OF sample_machine_reachable h t u, of c' 3] h t u show ?thesis
    unfolding p by blast
qed

text \<open>C37: A tick that launches has a valid plan, no STOP, an unexhausted plan and every earlier
  milestone gate accepted; and it continues the current unfinished task, or launches an
  unaccepted task of the current milestone with all dependencies accepted and its required
  approvals granted, or crosses to the next milestone after the current one is done, its gate
  is accepted and the gates the next one depends on are accepted. In the last case the task
  selected is the first unaccepted one of the next milestone, and none is selected exactly when
  that milestone has no unaccepted task (or the task's id is empty).\<close>

theorem tick_launch_safe:
  assumes "tick p g order c inp now = (d, x, c')" and "action d = LAUNCH_TASK"
  shows "\<exists>mid m. current_milestone g c = Some mid \<and> get_milestone g mid = Some m
    \<and> (\<exists>msg. validate_graph g order = Some (True, msg))
    \<and> \<not> stop_flag inp \<and> cur_status c \<noteq> ''STOPPED'' \<and> cur_disposition c \<noteq> ''STOPPED'' \<and> \<not> plan_exhausted inp
    \<and> (\<forall>q\<in>set (previous_milestones g mid). map_of (gate_statuses inp) (milestone_id q) = Some ''ACCEPTED'')
    \<and> (continues_current c inp d \<or> launch_in_milestone g inp m d
       \<or> (cur_scope c \<in> {PROJECT, UNTIL_STOPPED} \<and> launch_across g inp mid m d))"
  using assms(1)
proof (cases rule: tickE)
  case blocked
  then show ?thesis using assms(2) by simp
next
  case (evaluated mid m)
  let ?s = "build_snapshot g c inp mid m"
  have cm: "current_milestone g c = Some mid" using evaluated(1,2) by (cases "current_milestone g c") auto
  note L = launch_cases[of ?s, folded evaluated(5), OF assms(2)]
  have "continues_current c inp d \<or> launches_next ?s d \<or> launches_across ?s d"
    using L by (auto simp: continues_current_def split: if_splits dest: opt_true_Some)
  moreover have "launches_next ?s d \<Longrightarrow> launch_in_milestone g inp m d"
    using launches_next_in_milestone[OF evaluated(3)] L by blast
  moreover have "launches_across ?s d \<Longrightarrow> cur_scope c \<in> {PROJECT, UNTIL_STOPPED} \<and> launch_across g inp mid m d"
    using launches_across_tick[OF evaluated(3)] .
  ultimately have "continues_current c inp d \<or> launch_in_milestone g inp m d
       \<or> (cur_scope c \<in> {PROJECT, UNTIL_STOPPED} \<and> launch_across g inp mid m d)" by blast
  with cm evaluated(3,4,7) L show ?thesis by (intro exI[of _ mid] exI[of _ m]) simp
qed

text \<open>C37 applied to the first tick of a plan, which launches its first task.\<close>

theorem tick_launch_safe_witness:
  "\<exists>d x c'. tick ''p'' two_milestones [''A'', ''B'', ''C''] (new_cursor ''p'' ''r1'' PROJECT ''plan:v1'' 1 False 0)
       idle_input 1 = (d, x, c') \<and> action d = LAUNCH_TASK
     \<and> (\<exists>m. get_milestone two_milestones ''M1'' = Some m \<and> launch_in_milestone two_milestones idle_input m d)"
proof -
  let ?c = "new_cursor ''p'' ''r1'' PROJECT ''plan:v1'' 1 False 0"
  have cm: "current_milestone two_milestones ?c = Some ''M1''"
    by (simp add: current_milestone_def new_cursor_def two_milestones_def opt_or_def)
  obtain m where m: "get_milestone two_milestones ''M1'' = Some m"
    by (simp add: get_milestone_def two_milestones_def)
  obtain d x c' where t: "tick ''p'' two_milestones [''A'', ''B'', ''C''] ?c idle_input 1 = (d, x, c')"
    by (metis prod_cases3)
  have ev: "evaluate_tick ''p'' two_milestones ?c idle_input 1 ''M1'' m = (d, x, c')"
    using t tick_two_milestones[OF cm m] by simp
  have "action d = LAUNCH_TASK"
    using evaluate_tick_eq[OF ev] m
    by (simp add: evaluate_scope_transition_def gate_and_wait_decision_def scope_boundary_decision_def
        project_scope_decision_def decision_def build_snapshot_def new_cursor_def idle_input_def
        resolve_next_runnable_task_def two_milestones_def get_milestone_def get_task_def
        pending_dependencies_def approval_def milestone_done_def Let_def case_prod_beta)
  moreover have "\<not> continues_current ?c idle_input d" by (simp add: continues_current_def new_cursor_def)
  moreover have "\<not> launch_across two_milestones idle_input ''M1'' m d"
    by (simp add: launch_across_def idle_input_def)
  ultimately show ?thesis
    using tick_launch_safe[OF t] t m cm by auto
qed

text \<open>Crossing a milestone boundary, the tick launches the first unaccepted task of the next
  milestone although its manual approval is not granted and its dependency is not accepted.\<close>

lemma crossing_skips_approval_and_dependencies:
  "\<exists>d x c'. tick ''p'' two_milestones [''A'', ''B'', ''C'']
       ((new_cursor ''p'' ''r1'' PROJECT ''plan:v1'' 1 False 0)\<lparr>cur_task := Some ''A''\<rparr>)
       (idle_input\<lparr>task_statuses := [(''A'', ''ACCEPTED'')], gate_statuses := [(''M1'', ''ACCEPTED'')]\<rparr>) 1 = (d, x, c')
     \<and> action d = LAUNCH_TASK \<and> selected_task_id d = Some ''B''
     \<and> map_option requires_manual_approval (get_task two_milestones ''B'') = Some True
     \<and> dependencies_of two_milestones ''B'' = [''C'']"
proof -
  let ?c = "(new_cursor ''p'' ''r1'' PROJECT ''plan:v1'' 1 False 0)\<lparr>cur_task := Some ''A''\<rparr>"
  let ?i = "idle_input\<lparr>task_statuses := [(''A'', ''ACCEPTED'')], gate_statuses := [(''M1'', ''ACCEPTED'')]\<rparr>"
  have cm: "current_milestone two_milestones ?c = Some ''M1''"
    by (simp add: current_milestone_def new_cursor_def two_milestones_def opt_or_def)
  obtain m where m: "get_milestone two_milestones ''M1'' = Some m"
    by (simp add: get_milestone_def two_milestones_def)
  obtain d x c' where t: "tick ''p'' two_milestones [''A'', ''B'', ''C''] ?c ?i 1 = (d, x, c')"
    by (metis prod_cases3)
  have ev: "evaluate_tick ''p'' two_milestones ?c ?i 1 ''M1'' m = (d, x, c')"
    using t tick_two_milestones[OF cm m] by simp
  have mt: "milestone_task_ids m = [''A'']" using m by (auto simp: get_milestone_def two_milestones_def)
  have "action d = LAUNCH_TASK \<and> selected_task_id d = Some ''B''"
    using evaluate_tick_eq[OF ev]
    by (simp add: mt evaluate_scope_transition_def gate_and_wait_decision_def scope_boundary_decision_def
        project_scope_decision_def decision_def build_snapshot_def new_cursor_def idle_input_def
        resolve_next_runnable_task_def two_milestones_def get_milestone_def get_task_def opt_or_def
        pending_dependencies_def approval_def milestone_done_def next_milestone_def
        next_milestone_info_def previous_milestones_def Let_def case_prod_beta)
  then show ?thesis using t by (simp add: two_milestones_def get_task_def dependencies_of_def)
qed

end
