(* ===== verification/Project_Scope.thy ===== *)
theory Project_Scope
  imports Scope_Orchestrator
begin

text \<open>
  Execution under PROJECT scope, \<^verbatim>\<open>src/bdb_vnext/project_scope_execution.py\<close>: the identity of a run, the
  crossing of a milestone boundary and the command that starts a run from the user interface. The answers of
  \<open>git\<close>, the clock and the random identifiers (32 hexadecimal digits) are arguments. Evidence of gates is a
  dictionary per milestone.
\<close>

section \<open>Runs\<close>

record project_run =
  pr_project :: string
  pr_run :: string
  pr_scope :: AutoScope
  pr_plan :: string
  pr_plan_version :: int
  pr_start_head :: string
  pr_start_tree :: string
  pr_epoch :: int
  pr_cursor :: string
  pr_revision :: int
  pr_created_at :: int

text \<open>What the five processes of \<open>get_source_state\<close> give: an exit code and an output, or \<open>None\<close> when starting the
  process raises. A process that is run with \<open>check=True\<close> raises on a code other than 0.\<close>

record git_answers =
  git_head :: "(int \<times> string) option"
  git_tree :: "(int \<times> string) option"
  git_diff :: "(int \<times> string) option"
  git_cached :: "(int \<times> string) option"
  git_status :: "(int \<times> string) option"

definition checked_output :: "(int \<times> string) option \<Rightarrow> string option" where
  "checked_output r = (case r of Some (rc, out) \<Rightarrow> if rc = 0 then Some out else None | None \<Rightarrow> None)"

definition get_source_state :: "git_answers \<Rightarrow> string \<times> string \<times> bool" where
  "get_source_state gi =
     (case (checked_output (git_head gi), checked_output (git_tree gi), git_diff gi, git_cached gi,
            checked_output (git_status gi)) of
        (Some head, Some tree, Some (d, _), Some (c, _), Some st) \<Rightarrow>
          (strip head, strip tree, d = 0 \<and> c = 0 \<and> strip st = [])
      | _ \<Rightarrow> (''unknown'', ''unknown'', False))"

text \<open>What a run asks for: a scope, the plan and, optionally, the source state to bind to.\<close>

record run_request =
  rr_scope :: "AutoScope option"
  rr_plan :: string
  rr_plan_version :: int
  rr_head :: "string option"
  rr_tree :: "string option"

definition effective_scope :: "AutoScope option \<Rightarrow> AutoScope" where
  "effective_scope x = (case x of None \<Rightarrow> DEFAULT_AUTO_SCOPE | Some s \<Rightarrow> s)"

definition run_identity :: "string \<Rightarrow> run_request \<Rightarrow> git_answers \<Rightarrow> scope_cursor \<Rightarrow> string \<Rightarrow> int \<Rightarrow> project_run" where
  "run_identity p rq gi c u now =
     (let (head, tree, _) = get_source_state gi; scope = effective_scope (rr_scope rq) in
      \<lparr>pr_project = p, pr_run = (if scope = PROJECT then ''run-proj-'' @ take 8 u else cur_run c), pr_scope = scope,
       pr_plan = rr_plan rq, pr_plan_version = rr_plan_version rq, pr_start_head = opt_default (rr_head rq) head,
       pr_start_tree = opt_default (rr_tree rq) tree, pr_epoch = cur_epoch c, pr_cursor = cur_id c,
       pr_revision = cur_revision c, pr_created_at = now\<rparr>)"

text \<open>The cursor bound to a run.\<close>

definition bound_cursor :: "scope_cursor \<Rightarrow> project_run \<Rightarrow> int \<Rightarrow> scope_cursor" where
  "bound_cursor c ri now = c\<lparr>cur_run := pr_run ri, cur_scope := pr_scope ri, cur_epoch := pr_epoch ri,
     cur_plan := pr_plan ri, cur_plan_version := pr_plan_version ri, cur_updated_at := now\<rparr>"

definition create_run_identity ::
    "scope_store \<Rightarrow> string \<Rightarrow> run_request \<Rightarrow> git_answers \<Rightarrow> string \<Rightarrow> string \<Rightarrow> int
      \<Rightarrow> scope_store \<times> (py_error + project_run)" where
  "create_run_identity sto p rq gi u1 u2 now =
     (case get_or_create_cursor sto p (''run-'' @ p @ ''-'' @ take 8 u1) (effective_scope (rr_scope rq))
             (rr_plan rq) (rr_plan_version rq) False now of
        (db1, Inl err) \<Rightarrow> (db1, Inl err)
      | (db1, Inr c) \<Rightarrow>
          (let ri = run_identity p rq gi c u2 now;
               (db2, ok) = update_cursor_cas db1 p (bound_cursor c ri now) (cur_revision c) now
           in (db2, Inr ri)))"

section \<open>Crossing a milestone boundary\<close>

record crossing =
  xr_success :: bool
  xr_from :: string
  xr_to :: "string option"
  xr_task :: "string option"
  xr_decision :: scope_decision
  xr_head_verified :: bool
  xr_gate_accepted :: bool
  xr_reason_code :: string
  xr_explanation :: string

definition crossing_result ::
    "bool \<Rightarrow> string \<Rightarrow> string option \<Rightarrow> string option \<Rightarrow> bool \<Rightarrow> bool \<Rightarrow> scope_decision \<Rightarrow> crossing" where
  "crossing_result ok from to tid head gate d = \<lparr>xr_success = ok, xr_from = from, xr_to = to, xr_task = tid,
     xr_decision = d, xr_head_verified = head, xr_gate_accepted = gate, xr_reason_code = reason_code d,
     xr_explanation = explanation d\<rparr>"

type_synonym gate_evidence = "(string \<times> pydict) list"

definition gate_info :: "gate_evidence \<Rightarrow> string \<Rightarrow> pydict" where
  "gate_info ev mid = (case map_of ev mid of None \<Rightarrow> [] | Some d \<Rightarrow> d)"

definition wrong_run :: "pydict \<Rightarrow> project_run \<Rightarrow> bool" where
  "wrong_run gate ri \<longleftrightarrow> py_get gate ''run_id'' \<noteq> PNone \<and> \<not> py_eq (py_get gate ''run_id'') (PStr (pr_run ri))"

definition gate_state :: "pydict \<Rightarrow> pyval" where
  "gate_state gate = py_get_default gate ''status'' (PStr ''NOT_REACHED'')"

record crossing_input =
  xi_evidence :: gate_evidence
  xi_statuses :: statuses
  xi_repo_head :: string
  xi_boundary_head :: string
  xi_manual :: "(string \<times> bool) list"
  xi_policy :: "(string \<times> bool) list"

definition terminal :: "scope_decision \<Rightarrow> scope_decision" where
  "terminal d = d\<lparr>is_terminal := True\<rparr>"

definition quoted :: "string \<Rightarrow> string" where
  "quoted s = [char_of (39::nat)] @ s @ [char_of (39::nat)]"

text \<open>The refusals before the next milestone is looked at, in the order of the source.\<close>

definition boundary_refusal ::
    "runtime \<Rightarrow> scope_store \<Rightarrow> string \<Rightarrow> project_run \<Rightarrow> scope_cursor \<Rightarrow> crossing_input \<Rightarrow> string \<Rightarrow> crossing option" where
  "boundary_refusal rt sto p ri c inp mid =
     (case check_raising sto p (cur_epoch c) ORCHESTRATOR_TICK_LAUNCH of
        Inl err \<Rightarrow> Some (crossing_result False mid None None False False
          (terminal (decision STOP_EXTERNAL_STOP_REQUESTED WS_PAUSED ''STOP_FENCED''
            (''Cross-milestone transition blocked by STOP fence: '' @ (case err of StopFenceViolation k msg \<Rightarrow> msg | Stop_Db e \<Rightarrow> [])))))
      | Inr _ \<Rightarrow>
          (let gate = gate_info (xi_evidence inp) mid; st = gate_state gate in
           if wrong_run gate ri then
             Some (crossing_result False mid None None False False
               (terminal (decision HALT_BLOCKED WS_BLOCKED ''WRONG_RUN_GATE_EVIDENCE''
                 (''Gate evidence belongs to run '' @ quoted (py_str rt (py_get gate ''run_id'')) @ '', but current run is ''
                   @ quoted (pr_run ri) @ ''.''))))
           else if \<not> py_eq st (PStr ''ACCEPTED'') then
             (let msg = ''Cannot cross to next milestone: gate for milestone '' @ mid @ '' is '' @ py_str rt st @ ''.'' in
              Some (crossing_result False mid None None False False
                (if py_eq st (PStr ''FAILED'') then terminal (decision HALT_BLOCKED WS_BLOCKED ''PRIOR_GATE_FAILED'' msg)
                 else decision WAIT_MILESTONE_GATE_PENDING WS_WAITING ''PRIOR_GATE_NOT_ACCEPTED'' msg)))
           else if xi_repo_head inp \<noteq> xi_boundary_head inp then
             Some (crossing_result False mid None None False True
               (terminal (decision HALT_BLOCKED WS_BLOCKED ''STALE_HEAD_DIVERGENCE''
                 (''Stale HEAD at milestone boundary: current='' @ xi_repo_head inp @ '', expected='' @ xi_boundary_head inp @ ''.''))))
           else None))"

definition approved :: "(string \<times> bool) list \<Rightarrow> string \<Rightarrow> bool" where
  "approved grants tid \<longleftrightarrow> map_of grants tid = Some True"

text \<open>The approvals of the first task of the next milestone.\<close>

definition approval_refusal :: "plan_graph \<Rightarrow> crossing_input \<Rightarrow> string \<Rightarrow> string \<Rightarrow> string \<Rightarrow> crossing option" where
  "approval_refusal g inp mid nid tid =
     (let ask = (\<lambda>act rc what. Some (crossing_result False mid (Some nid) (Some tid) True True
            ((decision act WS_PAUSED rc (''Task '' @ tid @ '' in milestone '' @ nid @ '' requires '' @ what @ '' approval.''))
              \<lparr>selected_task_id := Some tid, selected_milestone_id := Some nid\<rparr>)))
      in case get_task g tid of
           None \<Rightarrow> None
         | Some t \<Rightarrow>
             if requires_manual_approval t \<and> \<not> approved (xi_manual inp) tid then
               ask PAUSE_MANUAL_GATE_REQUIRED ''MANUAL_APPROVAL_REQUIRED'' ''manual operator''
             else if requires_policy_approval t \<and> \<not> approved (xi_policy inp) tid then
               ask PAUSE_POLICY_APPROVAL_REQUIRED ''POLICY_APPROVAL_REQUIRED'' ''policy''
             else None)"

definition crossed_cursor ::
    "string \<Rightarrow> project_run \<Rightarrow> scope_cursor \<Rightarrow> plan_milestone \<Rightarrow> string \<Rightarrow> string \<Rightarrow> string \<Rightarrow> int \<Rightarrow> scope_cursor" where
  "crossed_cursor p ri c m mid nid tid now = c\<lparr>cur_project := p, cur_run := pr_run ri, cur_scope := PROJECT,
     cur_milestone := Some nid, cur_task := Some tid, cur_last_gate := Some (gate_id m),
     cur_disposition := action_value LAUNCH_TASK,
     cur_explanation := [(''transition'', PStr (mid @ ''->'' @ nid)), (''task'', PStr tid)], cur_updated_at := now\<rparr>"

definition launch_crossing :: "string \<Rightarrow> string \<Rightarrow> string \<Rightarrow> crossing" where
  "launch_crossing mid nid tid = crossing_result True mid (Some nid) (Some tid) True True
     ((decision LAUNCH_TASK WS_RUNNABLE ''CROSS_MILESTONE_LAUNCH''
        (''Successfully crossed milestone boundary from '' @ mid @ '' to '' @ nid @ ''; ready to launch '' @ tid @ ''.''))
       \<lparr>selected_task_id := Some tid, selected_milestone_id := Some nid, crosses_task_boundary := True,
         crosses_milestone_boundary := True\<rparr>)"

text \<open>The part after the boundary checks. Whether the dependencies of the task are accepted, and whether the
  cursor was still at its revision, are computed and not used.\<close>

definition enter_next_milestone ::
    "scope_store \<Rightarrow> string \<Rightarrow> plan_graph \<Rightarrow> project_run \<Rightarrow> scope_cursor \<Rightarrow> crossing_input \<Rightarrow> string \<Rightarrow> plan_milestone \<Rightarrow> int
      \<Rightarrow> scope_store \<times> crossing" where
  "enter_next_milestone sto p g ri c inp mid m now =
     (case next_milestone g mid of
        None \<Rightarrow> (sto, crossing_result True mid None None True True
          (terminal (decision STOP_PROJECT_COMPLETE WS_COMPLETED ''PROJECT_COMPLETED''
            ''All milestones and milestone gates in project are accepted. Project is complete.'')))
      | Some nid \<Rightarrow>
          (let (first, deps_ok, pending) = resolve_next_runnable_task g nid (xi_statuses inp) in
           if \<not> opt_true first then
             (sto, crossing_result False mid (Some nid) None True True
               (terminal (decision HALT_NO_RUNNABLE_WORK WS_NO_RUNNABLE_WORK ''NO_RUNNABLE_WORK''
                 (''No runnable tasks in milestone '' @ nid @ ''.''))))
           else
             (let tid = the first in
              case approval_refusal g inp mid nid tid of
                Some r \<Rightarrow> (sto, r)
              | None \<Rightarrow>
                  (let (sto', ok) = update_cursor_cas sto p (crossed_cursor p ri c m mid nid tid now) (cur_revision c) now
                   in (sto', launch_crossing mid nid tid)))))"

definition execute_cross_milestone_transition ::
    "runtime \<Rightarrow> scope_store \<Rightarrow> string \<Rightarrow> plan_graph \<Rightarrow> project_run \<Rightarrow> scope_cursor \<Rightarrow> crossing_input \<Rightarrow> int
      \<Rightarrow> scope_store \<times> (py_error + crossing)" where
  "execute_cross_milestone_transition rt sto p g ri c inp now =
     (case current_milestone g c of
        None \<Rightarrow> (sto, Inl IndexError)
      | Some mid \<Rightarrow>
          (case get_milestone g mid of
             None \<Rightarrow> (sto, Inl AssertionError)
           | Some m \<Rightarrow>
               (case boundary_refusal rt sto p ri c inp mid of
                  Some r \<Rightarrow> (sto, Inr r)
                | None \<Rightarrow> (case enter_next_milestone sto p g ri c inp mid m now of (sto', r) \<Rightarrow> (sto', Inr r)))))"

section \<open>The command of the user interface\<close>

record scope_command =
  sc_project :: pyval
  sc_scope :: pyval
  sc_authorization :: pyval
  sc_plan :: "string option"
  sc_plan_version :: "int option"

definition scope_of_pyval :: "pyval \<Rightarrow> AutoScope option" where
  "scope_of_pyval v = (case v of PStr s \<Rightarrow> scope_of_value s | _ \<Rightarrow> None)"

definition command_request :: "scope_command \<Rightarrow> AutoScope \<Rightarrow> run_request" where
  "command_request cmd scope = \<lparr>rr_scope = Some scope,
     rr_plan = (case sc_plan cmd of None \<Rightarrow> ''plan:v1'' | Some t \<Rightarrow> t),
     rr_plan_version = (case sc_plan_version cmd of None \<Rightarrow> 1 | Some v \<Rightarrow> v), rr_head = None, rr_tree = None\<rparr>"

definition submit_gui_scope_command ::
    "runtime \<Rightarrow> scope_store \<Rightarrow> string \<Rightarrow> scope_command \<Rightarrow> git_answers \<Rightarrow> string \<Rightarrow> string \<Rightarrow> int
      \<Rightarrow> scope_store \<times> (py_error + bool \<times> string \<times> project_run option)" where
  "submit_gui_scope_command rt sto p cmd gi u1 u2 now =
     (if \<not> py_eq (sc_project cmd) (PStr p) then (sto, Inr (False, ''Project ID mismatch'', None))
      else if \<not> truthy (sc_scope cmd) then (sto, Inr (False, ''Scope must be explicitly specified'', None))
      else case scope_of_pyval (sc_scope cmd) of
        None \<Rightarrow> (sto, Inr (False, ''Invalid scope '' @ quoted (py_str rt (sc_scope cmd)), None))
      | Some scope \<Rightarrow>
          if scope = PROJECT \<and> \<not> truthy (sc_authorization cmd) then
            (sto, Inr (False, ''PROJECT scope requires explicit authorization confirmation'', None))
          else case create_run_identity sto p (command_request cmd scope) gi u1 u2 now of
            (sto', Inl err) \<Rightarrow> (sto', Inl err)
          | (sto', Inr ri) \<Rightarrow> (sto', Inr (True, ''Authorized'', Some ri)))"

section \<open>When a boundary is crossed\<close>

definition fence_open :: "scope_store \<Rightarrow> string \<Rightarrow> int \<Rightarrow> bool" where
  "fence_open sto p e \<longleftrightarrow> (\<exists>q. find_cursor sto p = Some q \<and> \<not> is_stopped q \<and> e = cur_epoch q \<and> find_fence sto p e = None)"

definition gate_passed :: "crossing_input \<Rightarrow> project_run \<Rightarrow> string \<Rightarrow> bool" where
  "gate_passed inp ri mid \<longleftrightarrow> (\<exists>gate. map_of (xi_evidence inp) mid = Some gate \<and> map_of gate ''status'' = Some (PStr ''ACCEPTED'')
     \<and> map_of gate ''run_id'' \<in> {None, Some PNone, Some (PStr (pr_run ri))})"

definition task_approved :: "plan_graph \<Rightarrow> crossing_input \<Rightarrow> string \<Rightarrow> bool" where
  "task_approved g inp tid \<longleftrightarrow> (\<forall>t. get_task g tid = Some t \<longrightarrow> (requires_manual_approval t \<longrightarrow> approved (xi_manual inp) tid)
     \<and> (requires_policy_approval t \<longrightarrow> approved (xi_policy inp) tid))"

definition may_cross ::
    "scope_store \<Rightarrow> string \<Rightarrow> plan_graph \<Rightarrow> project_run \<Rightarrow> scope_cursor \<Rightarrow> crossing_input \<Rightarrow> string \<Rightarrow> string \<Rightarrow> string \<Rightarrow> bool" where
  "may_cross sto p g ri c inp mid nid tid \<longleftrightarrow> fence_open sto p (cur_epoch c) \<and> gate_passed inp ri mid
     \<and> xi_repo_head inp = xi_boundary_head inp \<and> next_milestone g mid = Some nid
     \<and> fst (resolve_next_runnable_task g nid (xi_statuses inp)) = Some tid \<and> tid \<noteq> [] \<and> task_approved g inp tid"

lemma py_eq_PStr: "py_eq v (PStr s) \<longleftrightarrow> v = PStr s"
  by (cases v) (auto simp: as_number.simps)

lemma gate_passed_iff:
  "gate_passed inp ri mid \<longleftrightarrow> \<not> wrong_run (gate_info (xi_evidence inp) mid) ri
     \<and> py_eq (gate_state (gate_info (xi_evidence inp) mid)) (PStr ''ACCEPTED'')"
  by (auto simp: gate_passed_def wrong_run_def gate_info_def gate_state_def py_get_def py_get_default_def py_eq_PStr
      split: option.splits)

lemma boundary_refusal_None:
  "boundary_refusal rt sto p ri c inp mid = None \<longleftrightarrow> fence_open sto p (cur_epoch c) \<and> gate_passed inp ri mid
     \<and> xi_repo_head inp = xi_boundary_head inp"
  using check_allowed_iff[of sto p "cur_epoch c" ORCHESTRATOR_TICK_LAUNCH]
  by (auto simp: boundary_refusal_def check_raising_def fence_open_def gate_passed_iff Let_def split: if_splits)


lemma approval_refusal_None: "approval_refusal g inp mid nid tid = None \<longleftrightarrow> task_approved g inp tid"
  by (auto simp: approval_refusal_def task_approved_def Let_def split: option.splits)


lemma launch_crossing_simps [simp]:
  "xr_success (launch_crossing mid nid tid)" "xr_to (launch_crossing mid nid tid) = Some nid"
  "xr_task (launch_crossing mid nid tid) = Some tid" "xr_from (launch_crossing mid nid tid) = mid"
  by (simp_all add: launch_crossing_def crossing_result_def)



lemma cas_outcome:
  assumes "update_cursor_cas sto p c' e now = (sto', ok)" and "distinct (map cur_project (scope_cursors sto))"
  shows "sto' = sto \<or> (\<exists>q. find_cursor sto p = Some q \<and> cur_revision q = e
    \<and> find_cursor sto' = (find_cursor sto)(p \<mapsto> cas_row c' e now q))"
proof (cases ok)
  case True
  then show ?thesis using update_cursor_cas_store(4)[OF assms True] by (metis (no_types, lifting) fun_upd_apply ext)
next
  case False
  then show ?thesis using update_cursor_cas_store(2)[OF assms] by blast
qed



section \<open>Examples\<close>








lemma crossing_runs:
  assumes "may_cross sto p g ri c inp mid nid tid" and "current_milestone g c = Some mid" and "get_milestone g mid = Some m"
    and "update_cursor_cas sto p (crossed_cursor p ri c m mid nid tid now) (cur_revision c) now = (sto', ok)"
  shows "execute_cross_milestone_transition rt sto p g ri c inp now = (sto', Inr (launch_crossing mid nid tid))"
proof -
  have "boundary_refusal rt sto p ri c inp mid = None" using assms(1) by (simp add: boundary_refusal_None may_cross_def)
  moreover have "approval_refusal g inp mid nid tid = None" using assms(1) by (simp add: approval_refusal_None may_cross_def)
  moreover obtain rest where "resolve_next_runnable_task g nid (xi_statuses inp) = (Some tid, rest)" "tid \<noteq> []"
    using assms(1) by (auto simp: may_cross_def) (metis eq_fst_iff)
  ultimately show ?thesis using assms
    by (cases rest) (simp add: execute_cross_milestone_transition_def enter_next_milestone_def may_cross_def)
qed


text \<open>The result of the compare-and-swap is not looked at: when the cursor has moved on since it was read, a crossing that may be made
  reports success and a task to launch although nothing was stored.\<close>

lemma crossing_reported_without_commit:
  assumes "may_cross sto p g ri c inp mid nid tid" and "current_milestone g c = Some mid" and "get_milestone g mid = Some m"
    and "\<forall>q. find_cursor sto p = Some q \<longrightarrow> cur_revision q \<noteq> cur_revision c"
    and "distinct (map cur_project (scope_cursors sto))"
  shows "execute_cross_milestone_transition rt sto p g ri c inp now = (sto, Inr (launch_crossing mid nid tid))"
proof -
  obtain s ok where u: "update_cursor_cas sto p (crossed_cursor p ri c m mid nid tid now) (cur_revision c) now = (s, ok)"
    by fastforce
  have "s = sto" using cas_outcome[OF u assms(5)] assms(4) by blast
  then show ?thesis using crossing_runs[OF assms(1-3)] u by simp
qed

section \<open>Starting a run\<close>

text \<open>The run is bound to the cursor: whether it existed or is new, its row takes the run, scope and plan of the identity at the next
  revision and keeps everything else.\<close>

lemma create_run_bound:
  assumes "create_run_identity sto p rq gi u1 u2 now = (sto', Inr ri)" and "distinct (map cur_project (scope_cursors sto))"
  shows "\<exists>c. (find_cursor sto p = Some c \<or> find_cursor sto p = None) \<and> ri = run_identity p rq gi c u2 now \<and> stop_fences sto' = stop_fences sto
    \<and> find_cursor sto' = (find_cursor sto)(p \<mapsto> cas_row (bound_cursor c ri now) (cur_revision c) now c)
    \<and> (find_cursor sto p = None \<longrightarrow> cur_epoch c = 1 \<and> \<not> is_stopped c)"
proof -
  let ?run = "''run-'' @ p @ ''-'' @ take 8 u1"
  let ?scope = "effective_scope (rr_scope rq)"
  obtain s1 c s2 ok where g: "get_or_create_cursor sto p ?run ?scope (rr_plan rq) (rr_plan_version rq) False now = (s1, Inr c)"
    and u: "update_cursor_cas s1 p (bound_cursor c ri now) (cur_revision c) now = (s2, ok)" "sto' = s2"
    and ri: "ri = run_identity p rq gi c u2 now"
    using assms(1) by (auto simp: create_run_identity_def Let_def split: prod.splits sum.splits)
  note st = get_or_create_cursor_store[OF g]
  note cas = update_cursor_cas_store[OF u(1) st(5)[OF assms(2)]]
  have here: "find_cursor s1 p = Some c" using st(2)[of p] by simp
  then have "c \<in> set (scope_cursors s1)" by (auto simp: find_cursor_def dest: find_SomeD)
  then have ok using u(1) st(3) by (auto simp: update_cursor_cas_def list_ex_iff split: if_splits)
  then have "find_cursor sto' = (find_cursor s1)(p \<mapsto> cas_row (bound_cursor c ri now) (cur_revision c) now c)"
    using cas(4) here u(2) by fastforce
  moreover have "find_cursor s1 = (find_cursor sto)(p \<mapsto> c)" using st(2) by (auto simp: fun_eq_iff)
  moreover have "find_cursor sto p = None \<longrightarrow> cur_epoch c = 1 \<and> \<not> is_stopped c"
    using g by (auto simp: get_or_create_cursor_def Let_def new_cursor_def is_stopped_def split: if_splits)
  ultimately show ?thesis using ri st(1,4) cas(1) u(2) by auto
qed

lemma scope_of_value_Some: "scope_of_value t = Some scope \<Longrightarrow> scope_value scope = t"
  unfolding scope_of_value_def by (drule find_SomeD) simp

text \<open>A command of the user interface starts a run only for its own project, with one of the four scopes, and with PROJECT scope only on an
  explicit authorization; a refused command changes nothing. A started run is the one the cursor is bound to, at the
  revision after the one it records, and starting it does not lift a STOP.\<close>

lemma gui_run_authorized:
  assumes "submit_gui_scope_command rt sto p cmd gi u1 u2 now = (sto', Inr (ok, msg, run))"
    and "distinct (map cur_project (scope_cursors sto))"
  shows "if ok then sc_project cmd = PStr p
      \<and> (\<exists>ri row. run = Some ri \<and> sc_scope cmd = PStr (scope_value (pr_scope ri)) \<and> (pr_scope ri = PROJECT \<longrightarrow> truthy (sc_authorization cmd))
          \<and> find_cursor sto' = (find_cursor sto)(p \<mapsto> row) \<and> cur_run row = pr_run ri \<and> cur_scope row = pr_scope ri
          \<and> cur_epoch row = pr_epoch ri \<and> cur_plan row = pr_plan ri \<and> cur_revision row = pr_revision ri + 1
          \<and> (find_cursor sto p \<noteq> None \<longrightarrow> check_allowed (check sto' p e b) = check_allowed (check sto p e b)))
    else sto' = sto \<and> run = None"
proof (cases ok)
  case False
  then show ?thesis using assms(1)
    by (auto simp: submit_gui_scope_command_def split: if_splits option.splits prod.splits sum.splits)
next
  case True
  then obtain scope ri where c: "sc_project cmd = PStr p" "scope_of_pyval (sc_scope cmd) = Some scope"
    "scope = PROJECT \<longrightarrow> truthy (sc_authorization cmd)" "run = Some ri"
    and r: "create_run_identity sto p (command_request cmd scope) gi u1 u2 now = (sto', Inr ri)"
    using assms(1) by (auto simp: submit_gui_scope_command_def py_eq_PStr split: if_splits option.splits prod.splits sum.splits)
  obtain q where q: "find_cursor sto p = Some q \<or> find_cursor sto p = None" "ri = run_identity p (command_request cmd scope) gi q u2 now"
    "stop_fences sto' = stop_fences sto" "find_cursor sto' = (find_cursor sto)(p \<mapsto> cas_row (bound_cursor q ri now) (cur_revision q) now q)"
    using create_run_bound[OF r assms(2)] by blast
  let ?row = "cas_row (bound_cursor q ri now) (cur_revision q) now q"
  have "pr_scope ri = scope"
    by (simp add: q(2) run_identity_def command_request_def effective_scope_def Let_def split: prod.splits)
  moreover have "sc_scope cmd = PStr (scope_value scope)"
    using c(2) by (auto simp: scope_of_pyval_def dest: scope_of_value_Some split: pyval.splits)
  moreover have "check_allowed (check sto' p e b) = check_allowed (check sto p e b)" if "find_cursor sto p \<noteq> None"
    using that q by (auto simp: check_allowed_iff cas_row_def bound_cursor_def is_stopped_def run_identity_def Let_def find_fence_def split: prod.splits)
  moreover have "pr_epoch ri = cur_epoch q" "pr_revision ri = cur_revision q"
    by (simp_all add: q(2) run_identity_def Let_def split: prod.splits)
  moreover have "cur_run ?row = pr_run ri" "cur_scope ?row = pr_scope ri" "cur_epoch ?row = pr_epoch ri" "cur_plan ?row = pr_plan ri"
    "cur_revision ?row = cur_revision q + 1"
    by (simp_all add: cas_row_def bound_cursor_def)
  ultimately show ?thesis unfolding if_P[OF True]
    by (intro conjI exI[of _ ri] exI[of _ ?row] impI) (use c(1,3,4) q(4) in \<open>simp_all del: fun_upd_apply\<close>)
qed

definition sample_command :: scope_command where
  "sample_command = \<lparr>sc_project = PStr ''p'', sc_scope = PStr ''PROJECT'', sc_authorization = PBool True, sc_plan = None, sc_plan_version = None\<rparr>"

definition no_git :: git_answers where
  "no_git = \<lparr>git_head = None, git_tree = None, git_diff = None, git_cached = None, git_status = None\<rparr>"

lemma sample_submit:
  "\<exists>sto' ri. submit_gui_scope_command sample_runtime sample_store ''p'' sample_command no_git ''0'' ''1'' 7
     = (sto', Inr (True, ''Authorized'', Some ri))"
  by (simp add: submit_gui_scope_command_def sample_command_def scope_of_pyval_def scope_of_value_def create_run_identity_def
      get_or_create_cursor_def sample_store_def sample_cursor_def find_cursor_def Let_def split: prod.splits)

end
