(* ===== verification/Plan_Admission.thy ===== *)
theory Plan_Admission
  imports Scope_Orchestrator
begin

text \<open>
  Plan admissions of \<^verbatim>\<open>src/bdb_vnext/until_stopped.py\<close>: the documents plans are stored as, the table of
  admissions beside the scope tables, and the operations that start a run, present a successor plan and approve
  it. A stored JSON text is represented by the document \<open>json.loads\<close> gives back. The approval is split into the
  reads that precede its transaction and the transaction itself, so that others may write in between.
\<close>

section \<open>Plan documents\<close>

definition py_item :: "pyval \<Rightarrow> string \<Rightarrow> pyval option" where
  "py_item v k = (case v of PDict d \<Rightarrow> map_of d k | _ \<Rightarrow> None)"

definition item_texts :: "runtime \<Rightarrow> pyval \<Rightarrow> string \<Rightarrow> string list option" where
  "item_texts rt v k = (case py_item v k of None \<Rightarrow> Some [] | Some x \<Rightarrow> map_option (map (py_str rt)) (py_iter x))"

definition item_flag :: "pyval \<Rightarrow> string \<Rightarrow> bool" where
  "item_flag v k = (case py_item v k of None \<Rightarrow> False | Some x \<Rightarrow> truthy x)"

definition milestone_from :: "runtime \<Rightarrow> pyval \<Rightarrow> plan_milestone option" where
  "milestone_from rt v =
     (case (py_item v ''milestone_id'', py_item v ''gate_id'', item_texts rt v ''dependencies'', item_texts rt v ''task_ids'') of
        (Some mid, Some gid, Some ds, Some ts) \<Rightarrow>
          Some \<lparr>milestone_id = py_str rt mid, gate_id = py_str rt gid, milestone_dependencies = ds, milestone_task_ids = ts\<rparr>
      | _ \<Rightarrow> None)"

definition task_from :: "runtime \<Rightarrow> pyval \<Rightarrow> plan_task option" where
  "task_from rt v =
     (case (py_item v ''task_id'', py_item v ''milestone_id'', item_texts rt v ''dependencies'') of
        (Some tid, Some mid, Some ds) \<Rightarrow>
          Some \<lparr>task_id = py_str rt tid, task_milestone_id = py_str rt mid, task_dependencies = ds,
            is_gate = item_flag v ''is_gate'', requires_manual_approval = item_flag v ''requires_manual_approval'',
            requires_policy_approval = item_flag v ''requires_policy_approval''\<rparr>
      | _ \<Rightarrow> None)"

definition all_from :: "(pyval \<Rightarrow> 'a option) \<Rightarrow> pyval option \<Rightarrow> 'a list option" where
  "all_from f v = (case v of None \<Rightarrow> None | Some x \<Rightarrow>
     (case py_iter x of None \<Rightarrow> None | Some ys \<Rightarrow> those (map f ys)))"

text \<open>\<open>None\<close> stands for the \<open>MALFORMED_PLAN\<close> that every \<open>KeyError\<close>, \<open>TypeError\<close> and \<open>ValueError\<close> becomes.\<close>

definition graph_from_document :: "runtime \<Rightarrow> pyval \<Rightarrow> plan_graph option" where
  "graph_from_document rt v =
     (case (all_from (milestone_from rt) (py_item v ''milestones''), all_from (task_from rt) (py_item v ''tasks''),
            py_item v ''plan_identity'', map_option py_int (py_item v ''plan_version'')) of
        (Some ms, Some ts, Some i, Some (Inr n)) \<Rightarrow>
          Some \<lparr>plan_identity = py_str rt i, plan_version = n, milestones = ms, tasks = ts, plan_digest = None\<rparr>
      | _ \<Rightarrow> None)"

lemma those_map_Some: "(\<And>x. x \<in> set xs \<Longrightarrow> f (g x) = Some x) \<Longrightarrow> those (map f (map g xs)) = Some xs"
  by (induction xs) auto

lemma item_texts_PStrs: "py_item v k = Some (PStrs xs) \<Longrightarrow> item_texts rt v k = Some xs"
  by (simp add: item_texts_def PStrs_def py_iter_def py_str_def comp_def)

lemma milestone_roundtrip: "milestone_from rt (milestone_document m) = Some m"
  by (simp add: milestone_from_def milestone_document_def item_texts_PStrs py_item_def py_str_def)

lemma task_roundtrip: "task_from rt (task_document t) = Some t"
  by (simp add: task_from_def task_document_def item_texts_PStrs py_item_def py_str_def item_flag_def)

lemma all_from_map:
  "(\<And>x. f (g x) = Some x) \<Longrightarrow> all_from f (Some (PList (map g xs))) = Some xs"
  using those_map_Some[of xs f g] by (simp add: all_from_def py_iter_def del: map_map)

text \<open>A stored plan is read back as it was: the graph of a plan's canonical document is the plan, without its declared digest.\<close>

lemma plan_document_roundtrip:
  "graph_from_document rt (canonical_document g) = Some (g\<lparr>plan_digest := None\<rparr>)"
  by (simp add: graph_from_document_def canonical_document_def py_item_def py_str_def
      all_from_map[of "milestone_from rt", OF milestone_roundtrip] all_from_map[of "task_from rt", OF task_roundtrip])

section \<open>The table\<close>

record plan_admission =
  ad_id :: string
  ad_project :: string
  ad_plan :: string
  ad_version :: int
  ad_digest :: string
  ad_status :: string
  ad_pred_plan :: "string option"
  ad_pred_version :: "int option"
  ad_pred_digest :: "string option"
  ad_approved_at :: "int option"
  ad_approved_by :: "string option"
  ad_created_at :: int
  ad_revision :: int

record admission_row = plan_admission +
  ad_document :: pyval

record until_store =
  us_scope :: scope_store
  us_admissions :: "admission_row list"

definition PLAN_ADMISSION_STATUSES :: "string list" where
  "PLAN_ADMISSION_STATUSES = [''CANDIDATE'', ''APPROVED'', ''SUPERSEDED'', ''REJECTED'']"

definition PLAN_ADMISSION_SCHEMA :: string where
  "PLAN_ADMISSION_SCHEMA = ''bdb-until-stopped-plan-admission-v1''"

datatype until_error =
    UntilStoppedError string string
  | Until_Stop stop_error
  | Until_Db py_error

record admission_outcome =
  po_success :: bool
  po_admission :: "plan_admission option"
  po_reason_code :: string
  po_explanation :: string

definition is_approved :: "plan_admission \<Rightarrow> bool" where
  "is_approved a \<longleftrightarrow> ad_status a = ''APPROVED''"

definition opt_int :: "int option \<Rightarrow> pyval" where
  "opt_int x = (case x of None \<Rightarrow> PNone | Some n \<Rightarrow> PInt n)"

definition opt_time :: "int option \<Rightarrow> pyval" where
  "opt_time x = (case x of None \<Rightarrow> PNone | Some t \<Rightarrow> PStr (canonical_time t))"

definition admission_dict :: "plan_admission \<Rightarrow> pydict" where
  "admission_dict a = [(''schema'', PStr PLAN_ADMISSION_SCHEMA), (''admission_id'', PStr (ad_id a)), (''project_id'', PStr (ad_project a)),
     (''plan_identity'', PStr (ad_plan a)), (''plan_version'', PInt (ad_version a)), (''plan_digest'', PStr (ad_digest a)),
     (''status'', PStr (ad_status a)), (''predecessor_plan_identity'', opt_pyval (ad_pred_plan a)),
     (''predecessor_plan_version'', opt_int (ad_pred_version a)), (''predecessor_plan_digest'', opt_pyval (ad_pred_digest a)),
     (''approved_at'', opt_time (ad_approved_at a)), (''approved_by'', opt_pyval (ad_approved_by a)),
     (''created_at'', PStr (canonical_time (ad_created_at a))), (''approval_revision'', PInt (ad_revision a))]"

definition admission_from_row :: "admission_row \<Rightarrow> plan_admission" where
  "admission_from_row a = plan_admission.truncate a"

definition until_cursor :: "until_store \<Rightarrow> string \<Rightarrow> scope_cursor option" where
  "until_cursor s p = find_cursor (us_scope s) p"

definition approved_plan :: "until_store \<Rightarrow> string \<Rightarrow> plan_admission option" where
  "approved_plan s p = map_option admission_from_row
     (find (\<lambda>a. ad_project a = p \<and> ad_status a = ''APPROVED'') (us_admissions s))"

definition admission_for_identity :: "until_store \<Rightarrow> string \<Rightarrow> string \<Rightarrow> int \<Rightarrow> string \<Rightarrow> plan_admission option" where
  "admission_for_identity s p i n d = map_option admission_from_row
     (find (\<lambda>a. ad_project a = p \<and> ad_plan a = i \<and> ad_version a = n \<and> ad_digest a = d) (us_admissions s))"

definition admission_by_id :: "until_store \<Rightarrow> string \<Rightarrow> admission_row option" where
  "admission_by_id s i = find (\<lambda>a. ad_id a = i) (us_admissions s)"

text \<open>\<open>UPDATE until_stopped_plan_admissions ... WHERE\<close>.\<close>

definition update_admissions :: "until_store \<Rightarrow> (admission_row \<Rightarrow> bool) \<Rightarrow> (admission_row \<Rightarrow> admission_row) \<Rightarrow> until_store" where
  "update_admissions s P f = s\<lparr>us_admissions := map (\<lambda>a. if P a then f a else a) (us_admissions s)\<rparr>"

definition validate_plan :: "runtime \<Rightarrow> plan_graph \<Rightarrow> string list \<Rightarrow> (string \<times> string) + string" where
  "validate_plan rt g order =
     (case validate_graph g order of
        None \<Rightarrow> Inl (''INVALID_PLAN_GRAPH'', [])
      | Some (False, msg) \<Rightarrow> Inl (''INVALID_PLAN_GRAPH'', msg)
      | Some (True, msg) \<Rightarrow>
          if plan_version g < 1 \<or> plan_identity g = [] then
            Inl (''INVALID_PLAN_IDENTITY'', ''plan identity/version is invalid'')
          else case canonical_plan_digest rt g of
            Inl err \<Rightarrow> Inl (''PLAN_DIGEST_MISMATCH'', ''plan graph digest is not bound to its canonical bytes'')
          | Inr d \<Rightarrow> Inr d)"

section \<open>Admitting\<close>

definition cursor_revision_of :: "until_store \<Rightarrow> string \<Rightarrow> int" where
  "cursor_revision_of s p = (case until_cursor s p of None \<Rightarrow> 0 | Some c \<Rightarrow> cur_revision c)"

definition new_admission ::
    "until_store \<Rightarrow> string \<Rightarrow> plan_graph \<Rightarrow> string \<Rightarrow> string \<Rightarrow> plan_admission option \<Rightarrow> string option \<Rightarrow> int \<Rightarrow> string \<Rightarrow> admission_row" where
  "new_admission s p g digest status pred who now u = \<lparr>ad_id = ''admission-'' @ p @ ''-'' @ take 12 u, ad_project = p,
     ad_plan = plan_identity g, ad_version = plan_version g, ad_digest = digest, ad_status = status,
     ad_pred_plan = map_option ad_plan pred, ad_pred_version = map_option ad_version pred,
     ad_pred_digest = map_option ad_digest pred, ad_approved_at = (if status = ''APPROVED'' then Some now else None),
     ad_approved_by = (if status = ''APPROVED'' then who else None), ad_created_at = now,
     ad_revision = (if status = ''APPROVED'' then cursor_revision_of s p else 0), ad_document = canonical_document g\<rparr>"

text \<open>The constraints of the table a new row can violate after the look-up.\<close>

definition admission_conflict :: "until_store \<Rightarrow> admission_row \<Rightarrow> bool" where
  "admission_conflict s a \<longleftrightarrow> list_ex (\<lambda>b. ad_id b = ad_id a) (us_admissions s)
     \<or> (ad_status a = ''APPROVED'' \<and> approved_plan s (ad_project a) \<noteq> None) \<or> ad_revision a < 0"

definition promote :: "int \<Rightarrow> string \<Rightarrow> int \<Rightarrow> admission_row \<Rightarrow> admission_row" where
  "promote now who rev_no a = a\<lparr>ad_status := ''APPROVED'', ad_approved_at := Some now, ad_approved_by := Some who, ad_revision := rev_no\<rparr>"

definition promotable :: "string \<Rightarrow> admission_row \<Rightarrow> bool" where
  "promotable i a \<longleftrightarrow> ad_id a = i \<and> ad_status a \<in> {''CANDIDATE'', ''REJECTED''}"

definition approve_existing ::
    "until_store \<Rightarrow> string \<Rightarrow> plan_admission \<Rightarrow> string option \<Rightarrow> int \<Rightarrow> until_store \<times> (until_error + plan_admission)" where
  "approve_existing s p x who now =
     (let rev_no = cursor_revision_of s p + 1 in
      if list_ex (promotable (ad_id x)) (us_admissions s) \<and> (approved_plan s p \<noteq> None \<or> rev_no < 0) then (s, Inl (Until_Db IntegrityError))
      else
        (let s' = update_admissions s (promotable (ad_id x)) (promote now (opt_default who ''operator'') rev_no)
         in (s', case admission_by_id s' (ad_id x) of Some a \<Rightarrow> Inr (admission_from_row a) | None \<Rightarrow> Inl (Until_Db AssertionError))))"

definition insert_or_get_admission ::
    "runtime \<Rightarrow> until_store \<Rightarrow> string \<Rightarrow> plan_graph \<Rightarrow> string list \<Rightarrow> string \<Rightarrow> plan_admission option \<Rightarrow> string option \<Rightarrow> int \<Rightarrow> string
      \<Rightarrow> until_store \<times> (until_error + plan_admission)" where
  "insert_or_get_admission rt s p g order status pred who now u =
     (if status \<notin> set PLAN_ADMISSION_STATUSES then
        (s, Inl (UntilStoppedError ''INVALID_PLAN_ADMISSION_STATUS'' ''plan admission status is unsupported''))
      else case validate_plan rt g order of
        Inl (rc, msg) \<Rightarrow> (s, Inl (UntilStoppedError rc msg))
      | Inr digest \<Rightarrow>
          (case admission_for_identity s p (plan_identity g) (plan_version g) digest of
             Some x \<Rightarrow> if status = ''APPROVED'' \<and> ad_status x \<noteq> ''APPROVED'' then approve_existing s p x who now else (s, Inr x)
           | None \<Rightarrow>
               (let a = new_admission s p g digest status pred who now u in
                if admission_conflict s a then (s, Inl (Until_Db IntegrityError))
                else (s\<lparr>us_admissions := us_admissions s @ [a]\<rparr>, Inr (admission_from_row a)))))"

record start_request =
  sr_run :: "string option"
  sr_scope :: "string option"
  sr_readiness :: bool
  sr_plan_approved :: bool
  sr_approved_by :: string

text \<open>The checks of \<open>start\<close> before the plan is looked at.\<close>

definition start_refusal :: "start_request \<Rightarrow> until_error option" where
  "start_refusal rq =
     (let required = UntilStoppedError ''EXPLICIT_SCOPE_REQUIRED'' ''UNTIL_STOPPED requires explicit per-run scope selection'' in
      case sr_scope rq of
        None \<Rightarrow> Some required
      | Some t \<Rightarrow>
          (case scope_of_value t of
             None \<Rightarrow> Some (UntilStoppedError ''INVALID_SCOPE'' ''unsupported AUTO scope'')
           | Some scope \<Rightarrow>
               if scope \<noteq> UNTIL_STOPPED then Some required
               else if \<not> sr_readiness rq then
                 Some (UntilStoppedError ''READINESS_REQUIRED'' ''UNTIL_STOPPED cannot start before readiness is canonical'')
               else if \<not> sr_plan_approved rq then
                 Some (UntilStoppedError ''PLAN_APPROVAL_REQUIRED'' ''initial plan must be canonically approved before start'')
               else None))"

definition existing_refusal :: "until_store \<Rightarrow> string \<Rightarrow> plan_graph \<Rightarrow> string \<Rightarrow> scope_cursor \<Rightarrow> until_error option" where
  "existing_refusal s p g digest c =
     (if is_stopped c then Some (UntilStoppedError ''STOP_FENCED'' ''stopped UNTIL_STOPPED scope requires an explicit resume'')
      else if cur_scope c \<noteq> UNTIL_STOPPED \<or> \<not> cur_explicit c then
        Some (UntilStoppedError ''EXPLICIT_SCOPE_REQUIRED'' ''existing cursor was not explicitly selected for UNTIL_STOPPED'')
      else if cur_plan c \<noteq> plan_identity g \<or> cur_plan_version c \<noteq> plan_version g then
        Some (UntilStoppedError ''PLAN_IDENTITY_MISMATCH'' ''start plan differs from the current canonical plan'')
      else case admission_for_identity s p (plan_identity g) (plan_version g) digest of
        Some a \<Rightarrow> if is_approved a then None
          else Some (UntilStoppedError ''PLAN_APPROVAL_REQUIRED'' ''current plan is not canonically approved'')
      | None \<Rightarrow> Some (UntilStoppedError ''PLAN_APPROVAL_REQUIRED'' ''current plan is not canonically approved''))"

definition start ::
    "runtime \<Rightarrow> until_store \<Rightarrow> string \<Rightarrow> plan_graph \<Rightarrow> string list \<Rightarrow> start_request \<Rightarrow> int \<Rightarrow> string \<Rightarrow> string
      \<Rightarrow> until_store \<times> (until_error + scope_cursor)" where
  "start rt s p g order rq now u1 u2 =
     (case start_refusal rq of
        Some err \<Rightarrow> (s, Inl err)
      | None \<Rightarrow>
          (case validate_plan rt g order of
             Inl (rc, msg) \<Rightarrow> (s, Inl (UntilStoppedError rc msg))
           | Inr digest \<Rightarrow>
               (case until_cursor s p of
                  Some c \<Rightarrow> (s, case existing_refusal s p g digest c of Some err \<Rightarrow> Inl err | None \<Rightarrow> Inr c)
                | None \<Rightarrow>
                    (case get_or_create_cursor (us_scope s) p (opt_default (sr_run rq) (''run-until-stopped-'' @ take 12 u1))
                            UNTIL_STOPPED (plan_identity g) (plan_version g) True now of
                       (sc, Inl err) \<Rightarrow> (s\<lparr>us_scope := sc\<rparr>, Inl (Until_Db err))
                     | (sc, Inr c) \<Rightarrow>
                         (case insert_or_get_admission rt (s\<lparr>us_scope := sc\<rparr>) p g order ''APPROVED'' None (Some (sr_approved_by rq)) now u2 of
                            (s2, Inl err) \<Rightarrow> (s2, Inl err)
                          | (s2, Inr a) \<Rightarrow> (s2, Inr c))))))"

section \<open>Successors\<close>

definition refused_admission :: "string \<Rightarrow> string \<Rightarrow> admission_outcome" where
  "refused_admission rc msg = \<lparr>po_success = False, po_admission = None, po_reason_code = rc, po_explanation = msg\<rparr>"

definition plan_is_logically_successor :: "plan_graph \<Rightarrow> plan_admission \<Rightarrow> bool" where
  "plan_is_logically_successor g a \<longleftrightarrow> \<not> (plan_identity g = ad_plan a \<and> plan_version g = ad_version a)"

definition waiting_for_plan :: "scope_cursor \<Rightarrow> bool" where
  "waiting_for_plan c \<longleftrightarrow> cur_status c = ''WAITING_FOR_PLAN'' \<or> cur_disposition c = ''WAITING_FOR_PLAN''"

definition present_refusal :: "until_store \<Rightarrow> string \<Rightarrow> plan_graph \<Rightarrow> plan_admission option \<Rightarrow> admission_outcome + plan_admission" where
  "present_refusal s p g pred =
     (case until_cursor s p of
        None \<Rightarrow> Inl (refused_admission ''SCOPE_NOT_STARTED'' ''UNTIL_STOPPED scope has not started'')
      | Some c \<Rightarrow>
          if cur_scope c \<noteq> UNTIL_STOPPED \<or> \<not> cur_explicit c then
            Inl (refused_admission ''EXPLICIT_SCOPE_REQUIRED'' ''UNTIL_STOPPED was not explicitly selected'')
          else case approved_plan s p of
            None \<Rightarrow> Inl (refused_admission ''NO_APPROVED_PLAN'' ''there is no current approved plan'')
          | Some cur \<Rightarrow>
              if pred \<noteq> None \<and> pred \<noteq> Some cur then
                Inl (refused_admission ''PREDECESSOR_MISMATCH'' ''successor predecessor is not current authority'')
              else if \<not> is_stopped c \<and> \<not> waiting_for_plan c then
                Inl (refused_admission ''CURRENT_PLAN_NOT_EXHAUSTED'' ''successor admission requires WAITING_FOR_PLAN'')
              else if \<not> plan_is_logically_successor g cur then
                Inl (refused_admission ''INVALID_SUCCESSOR'' ''candidate is not a logical successor'')
              else Inr cur)"

definition present_successor ::
    "runtime \<Rightarrow> until_store \<Rightarrow> string \<Rightarrow> plan_graph \<Rightarrow> string list \<Rightarrow> plan_admission option \<Rightarrow> int \<Rightarrow> string
      \<Rightarrow> until_store \<times> (until_error + admission_outcome)" where
  "present_successor rt s p g order pred now u =
     (case present_refusal s p g pred of
        Inl r \<Rightarrow> (s, Inr r)
      | Inr cur \<Rightarrow>
          (case insert_or_get_admission rt s p g order ''CANDIDATE'' (Some cur) None now u of
             (s', Inl (UntilStoppedError rc msg)) \<Rightarrow> (s', Inr (refused_admission rc msg))
           | (s', Inl err) \<Rightarrow> (s', Inl err)
           | (s', Inr a) \<Rightarrow> (s', Inr \<lparr>po_success = True, po_admission = Some a, po_reason_code = ''CANDIDATE_RECORDED'',
               po_explanation = ''successor candidate is durable but not approved''\<rparr>)))"

text \<open>An approval names the plan by its graph or by identity, version and digest.\<close>

datatype plan_ref = Whole_Graph plan_graph | Plan_Name string "int option" "string option"

definition resolve_ref :: "runtime \<Rightarrow> plan_ref \<Rightarrow> string list \<Rightarrow> admission_outcome + string \<times> int \<times> string" where
  "resolve_ref rt r order =
     (case r of
        Whole_Graph g \<Rightarrow>
          (case validate_plan rt g order of
             Inl (rc, msg) \<Rightarrow> Inl (refused_admission rc msg)
           | Inr digest \<Rightarrow> Inr (plan_identity g, plan_version g, digest))
      | Plan_Name i (Some n) (Some d) \<Rightarrow> Inr (i, n, d)
      | _ \<Rightarrow> Inl (refused_admission ''PLAN_IDENTITY_REQUIRED'' ''successor identity/version/digest is required''))"

definition linked :: "plan_admission \<Rightarrow> plan_admission \<Rightarrow> bool" where
  "linked a cur \<longleftrightarrow> ad_pred_plan a = Some (ad_plan cur) \<and> ad_pred_version a = Some (ad_version cur)
     \<and> ad_pred_digest a = Some (ad_digest cur)"

text \<open>Whether the stored bytes of the candidate are those of the graph; \<open>canonical_json_bytes\<close> ends both texts with the same newline.\<close>

definition same_bytes :: "runtime \<Rightarrow> until_store \<Rightarrow> plan_admission \<Rightarrow> plan_ref \<Rightarrow> bool" where
  "same_bytes rt s a r = (case r of Plan_Name _ _ _ \<Rightarrow> True | Whole_Graph g \<Rightarrow>
     (case admission_by_id s (ad_id a) of None \<Rightarrow> False
      | Some row \<Rightarrow> json_dumps rt compact_json (ad_document row) = json_dumps rt compact_json (canonical_document g)))"

record plan_approval =
  ap_cursor :: scope_cursor
  ap_current :: plan_admission
  ap_candidate :: plan_admission

definition approve_check ::
    "runtime \<Rightarrow> until_store \<Rightarrow> string \<Rightarrow> plan_ref \<Rightarrow> string list \<Rightarrow> admission_outcome + plan_approval" where
  "approve_check rt s p r order =
     (case until_cursor s p of
        None \<Rightarrow> Inl (refused_admission ''SCOPE_NOT_STARTED'' ''UNTIL_STOPPED scope has not started'')
      | Some c \<Rightarrow>
          if is_stopped c then Inl (refused_admission ''STOP_FENCED'' ''STOP remains authoritative'')
          else if \<not> waiting_for_plan c then Inl (refused_admission ''CURRENT_PLAN_NOT_EXHAUSTED'' ''current plan is not exhausted'')
          else case approved_plan s p of
            None \<Rightarrow> Inl (refused_admission ''NO_APPROVED_PLAN'' ''there is no current approved plan'')
          | Some cur \<Rightarrow>
              (case resolve_ref rt r order of
                 Inl out \<Rightarrow> Inl out
               | Inr (i, n, d) \<Rightarrow>
                   (case admission_for_identity s p i n d of
                      None \<Rightarrow> Inl (refused_admission ''SUCCESSOR_NOT_PRESENTED'' ''only a durable candidate may be approved'')
                    | Some a \<Rightarrow>
                        if ad_status a \<noteq> ''CANDIDATE'' then
                          Inl (refused_admission ''SUCCESSOR_NOT_PRESENTED'' ''only a durable candidate may be approved'')
                        else if \<not> linked a cur then
                          Inl (refused_admission ''PREDECESSOR_MISMATCH'' ''candidate is not linked to current plan'')
                        else if \<not> same_bytes rt s a r then
                          Inl (refused_admission ''PLAN_BYTES_MISMATCH'' ''candidate graph differs from durable candidate'')
                        else Inr \<lparr>ap_cursor = c, ap_current = cur, ap_candidate = a\<rparr>)))"

definition successor_cursor :: "scope_cursor \<Rightarrow> plan_admission \<Rightarrow> scope_cursor" where
  "successor_cursor c a = c\<lparr>cur_milestone := None, cur_task := None, cur_last_task := None, cur_last_gate := None,
     cur_plan := ad_plan a, cur_plan_version := ad_version a, cur_disposition := ''SUCCESSOR_APPROVED'',
     cur_status := ''ACTIVE'', cur_stop_at := None, cur_stop_reason := None\<rparr>"

definition has_status :: "string \<Rightarrow> string \<Rightarrow> admission_row \<Rightarrow> bool" where
  "has_status i st a \<longleftrightarrow> ad_id a = i \<and> ad_status a = st"

definition supersede :: "until_store \<Rightarrow> plan_admission \<Rightarrow> until_store" where
  "supersede s a = update_admissions s (has_status (ad_id a) ''APPROVED'') (\<lambda>x. x\<lparr>ad_status := ''SUPERSEDED''\<rparr>)"

text \<open>The transaction. Whatever fails in it is rolled back.\<close>

definition approve_commit ::
    "until_store \<Rightarrow> string \<Rightarrow> plan_approval \<Rightarrow> string \<Rightarrow> int \<Rightarrow> until_store \<times> (until_error + admission_outcome)" where
  "approve_commit s p ap who now =
     (let c = ap_cursor ap; cur = ap_current ap; a = ap_candidate ap; rev_no = cur_revision c + 1; s1 = supersede s cur in
      if \<not> list_ex (has_status (ad_id cur) ''APPROVED'') (us_admissions s) then
        (s, Inr (refused_admission ''SUCCESSOR_APPROVAL_RACE'' ''current approval changed during successor approval''))
      else if \<not> list_ex (has_status (ad_id a) ''CANDIDATE'') (us_admissions s1) then
        (s, Inr (refused_admission ''SUCCESSOR_APPROVAL_RACE'' ''candidate approval lost a concurrency race''))
      else if approved_plan s1 p \<noteq> None \<or> rev_no < 0 then (s, Inl (Until_Db IntegrityError))
      else
        (let s2 = update_admissions s1 (has_status (ad_id a) ''CANDIDATE'') (promote now who rev_no);
             (sc, ok) = update_cursor_cas (us_scope s2) p (successor_cursor c a) (cur_revision c) now;
             s3 = s2\<lparr>us_scope := sc\<rparr>
         in if \<not> ok then (s, Inr (refused_admission ''STALE_CURSOR'' ''successor approval could not update the canonical cursor''))
            else (s3, Inr \<lparr>po_success = True, po_admission = admission_for_identity s3 p (ad_plan a) (ad_version a) (ad_digest a),
              po_reason_code = ''SUCCESSOR_APPROVED'', po_explanation = ''successor plan is now canonical''\<rparr>)))"

definition approve_successor ::
    "runtime \<Rightarrow> until_store \<Rightarrow> string \<Rightarrow> plan_ref \<Rightarrow> string list \<Rightarrow> string \<Rightarrow> int \<Rightarrow> until_store \<times> (until_error + admission_outcome)" where
  "approve_successor rt s p r order who now =
     (case approve_check rt s p r order of Inl out \<Rightarrow> (s, Inr out) | Inr ap \<Rightarrow> approve_commit s p ap who now)"

end
