(* ===== verification/Until_Stopped.thy ===== *)
theory Until_Stopped
  imports Plan_Admission
begin

text \<open>
  The UNTIL_STOPPED controller of \<^verbatim>\<open>src/bdb_vnext/until_stopped.py\<close>: the choice of the next action in the approved
  plan, its checkpoint in the cursor, STOP and resume, and the machine of workers that decide and checkpoint while
  plans are presented and approved and the scope is stopped and resumed. A tick is split into the decision on what was read
  and the compare-and-swap that checkpoints it. The three counters of the result that are always 0 are left out; \<open>explanation_json\<close> texts are
  compared as documents.
\<close>

section \<open>The next work\<close>

definition UNTIL_TERMINAL_STATUSES :: "string list" where
  "UNTIL_TERMINAL_STATUSES = [''ACCEPTED'', ''COMPLETED'', ''SKIPPED'']"

definition BLOCKED_TASK_STATUSES :: "string list" where
  "BLOCKED_TASK_STATUSES = [''BLOCKED'', ''FAILED'']"

definition APPROVED_GATE_STATUSES :: "string list" where
  "APPROVED_GATE_STATUSES = [''ACCEPTED'', ''PASSED'']"

record until_input =
  ui_plan :: "plan_graph option"
  ui_order :: "string list"
  ui_statuses :: statuses
  ui_gates :: statuses
  ui_manual :: "(string \<times> bool) list"
  ui_policy :: "(string \<times> bool) list"
  ui_manual_pause :: bool
  ui_policy_pause :: bool
  ui_blocker :: bool
  ui_blocker_reason :: string
  ui_stop :: bool

definition task_status :: "statuses \<Rightarrow> string \<Rightarrow> string" where
  "task_status st t = upper (case map_of st t of None \<Rightarrow> ''NOT_STARTED'' | Some v \<Rightarrow> v)"

definition task_done :: "statuses \<Rightarrow> string \<Rightarrow> bool" where
  "task_done st t \<longleftrightarrow> task_status st t \<in> set UNTIL_TERMINAL_STATUSES"

definition gate_status :: "statuses \<Rightarrow> string \<Rightarrow> string" where
  "gate_status gates mid = upper (case map_of gates mid of None \<Rightarrow> ''NOT_REACHED'' | Some v \<Rightarrow> v)"

definition gate_open :: "statuses \<Rightarrow> string \<Rightarrow> bool" where
  "gate_open gates mid \<longleftrightarrow> gate_status gates mid \<in> set APPROVED_GATE_STATUSES"

definition plan_is_exhausted :: "plan_graph \<Rightarrow> statuses \<Rightarrow> statuses \<Rightarrow> bool" where
  "plan_is_exhausted g st gates \<longleftrightarrow> list_all (\<lambda>t. task_done st (task_id t)) (tasks g)
     \<and> list_all (\<lambda>m. list_all (task_done st) (milestone_task_ids m) \<and> gate_open gates (milestone_id m)) (milestones g)"

definition is_plan_exhausted ::
    "runtime \<Rightarrow> plan_graph \<Rightarrow> string list \<Rightarrow> statuses \<Rightarrow> statuses \<Rightarrow> until_error + bool" where
  "is_plan_exhausted rt g order st gates = (case validate_plan rt g order of
     Inl (rc, msg) \<Rightarrow> Inl (UntilStoppedError rc msg) | Inr _ \<Rightarrow> Inr (plan_is_exhausted g st gates))"

definition until_decision ::
    "ScopeAction \<Rightarrow> CanonicalWorkState \<Rightarrow> string \<Rightarrow> string \<Rightarrow> string option \<Rightarrow> string option \<Rightarrow> bool \<Rightarrow> bool \<Rightarrow> bool \<Rightarrow> scope_decision" where
  "until_decision act ws rc msg tid mid ct cm fin = (decision act ws rc msg)\<lparr>selected_task_id := tid,
     selected_milestone_id := mid, crosses_task_boundary := ct, crosses_milestone_boundary := cm, is_terminal := fin\<rparr>"

definition blocked :: "string \<Rightarrow> string \<Rightarrow> string option \<Rightarrow> string option \<Rightarrow> scope_decision \<times> string" where
  "blocked rc msg tid mid = (until_decision HALT_BLOCKED WS_BLOCKED rc msg tid mid False False True, ''BLOCKED'')"

definition waiting_decision :: "string \<Rightarrow> string option \<Rightarrow> scope_decision" where
  "waiting_decision msg mid = until_decision HALT_WAITING_FOR_PLAN WS_WAITING_FOR_PLAN ''WAITING_FOR_PLAN'' msg None mid False False True"

definition has_grant :: "(string \<times> bool) list \<Rightarrow> string \<Rightarrow> bool" where
  "has_grant grants tid \<longleftrightarrow> map_of grants tid = Some True"

text \<open>The first incomplete task of a milestone.\<close>

definition task_choice :: "plan_graph \<Rightarrow> scope_cursor \<Rightarrow> until_input \<Rightarrow> string \<Rightarrow> string \<Rightarrow> scope_decision \<times> string" where
  "task_choice g c inp mid tid =
     (case get_task g tid of
        None \<Rightarrow> blocked ''MALFORMED_PLAN'' ''Plan milestone references a task that is not in the immutable graph.'' None (Some mid)
      | Some t \<Rightarrow>
          (let pending = filter (\<lambda>d. \<not> task_done (ui_statuses inp) d) (task_dependencies t) in
           if pending \<noteq> [] then
             (until_decision WAIT_DEPENDENCY_PENDING WS_WAITING ''DEPENDENCY_PENDING''
                (''Task '' @ tid @ '' waits for dependencies: '' @ join '', '' pending @ ''.'') (Some tid) (Some mid)
                (cur_task c \<noteq> Some tid) False False, ''WAITING'')
           else if ui_manual_pause inp \<or> (requires_manual_approval t \<and> \<not> has_grant (ui_manual inp) tid) then
             (until_decision PAUSE_MANUAL_GATE_REQUIRED WS_PAUSED ''MANUAL_APPROVAL_REQUIRED''
                (''Task '' @ tid @ '' requires manual approval before effect.'') (Some tid) (Some mid) False False False, ''PAUSED'')
           else if ui_policy_pause inp \<or> (requires_policy_approval t \<and> \<not> has_grant (ui_policy inp) tid) then
             (until_decision PAUSE_POLICY_APPROVAL_REQUIRED WS_PAUSED ''POLICY_APPROVAL_REQUIRED''
                (''Task '' @ tid @ '' requires policy approval before effect.'') (Some tid) (Some mid) False False False, ''PAUSED'')
           else
             (until_decision LAUNCH_TASK WS_RUNNABLE ''APPROVED_PLAN_TASK''
                (''Task '' @ tid @ '' is the next legal task in the approved plan.'') (Some tid) (Some mid)
                (cur_task c \<noteq> Some tid) (cur_milestone c \<notin> {None, Some mid}) False, ''ACTIVE'')))"

definition gate_choice :: "until_input \<Rightarrow> plan_milestone \<Rightarrow> (scope_decision \<times> string) option" where
  "gate_choice inp m =
     (if gate_open (ui_gates inp) (milestone_id m) then None
      else if gate_status (ui_gates inp) (milestone_id m) = ''FAILED'' then
        Some (blocked ''MILESTONE_GATE_FAILED'' (''Milestone gate '' @ gate_id m @ '' failed; no later work is selected.'')
          None (Some (milestone_id m)))
      else
        Some (until_decision WAIT_MILESTONE_GATE_PENDING WS_WAITING ''MILESTONE_GATE_PENDING''
          (''Milestone gate '' @ gate_id m @ '' must be accepted before continuing.'') None (Some (milestone_id m)) False False False,
          ''WAITING''))"

text \<open>One round of the loop over the milestones, \<open>prev\<close> those before.\<close>

definition milestone_choice ::
    "plan_graph \<Rightarrow> scope_cursor \<Rightarrow> until_input \<Rightarrow> plan_milestone list \<Rightarrow> plan_milestone \<Rightarrow> (scope_decision \<times> string) option" where
  "milestone_choice g c inp prev m =
     (case find (\<lambda>t. task_status (ui_statuses inp) t \<in> set BLOCKED_TASK_STATUSES) (milestone_task_ids m) of
        Some t \<Rightarrow> Some (blocked ''REAL_BLOCKER'' (''Task '' @ t @ '' is blocked; UNTIL_STOPPED will not skip to other work.'')
          (Some t) (Some (milestone_id m)))
      | None \<Rightarrow>
          if list_ex (\<lambda>q. \<not> gate_open (ui_gates inp) (milestone_id q)) prev then
            Some (blocked ''WRONG_MILESTONE_CURSOR'' ''A prior milestone gate is not accepted; later work is not runnable.''
              None (Some (milestone_id m)))
          else case find (\<lambda>t. \<not> task_done (ui_statuses inp) t) (milestone_task_ids m) of
            Some t \<Rightarrow> Some (task_choice g c inp (milestone_id m) t)
          | None \<Rightarrow> gate_choice inp m)"

fun select_work ::
    "plan_graph \<Rightarrow> scope_cursor \<Rightarrow> until_input \<Rightarrow> plan_milestone list \<Rightarrow> plan_milestone list \<Rightarrow> (scope_decision \<times> string) option" where
  "select_work g c inp prev [] = None"
| "select_work g c inp prev (m # ms) =
     (case milestone_choice g c inp prev m of Some d \<Rightarrow> Some d | None \<Rightarrow> select_work g c inp (prev @ [m]) ms)"

section \<open>Tick\<close>

record until_result =
  ur_decision :: scope_decision
  ur_status :: string
  ur_cursor :: scope_cursor
  ur_approved :: "plan_admission option"
  ur_exhausted :: bool

text \<open>A decision to checkpoint: with the plan to record in the cursor, and whether the approved plan is read again for the result.\<close>

record tick_choice =
  tc_decision :: scope_decision
  tc_status :: string
  tc_plan :: "plan_admission option"
  tc_exhausted :: bool
  tc_reread :: bool

datatype tick_plan = Answer until_result | Checkpoint tick_choice

definition checkpoint :: "scope_decision \<times> string \<Rightarrow> plan_admission \<Rightarrow> tick_plan" where
  "checkpoint d a = Checkpoint \<lparr>tc_decision = fst d, tc_status = snd d, tc_plan = Some a, tc_exhausted = False, tc_reread = False\<rparr>"

definition wait_for_plan :: "scope_decision \<Rightarrow> plan_admission option \<Rightarrow> tick_plan" where
  "wait_for_plan d a = Checkpoint \<lparr>tc_decision = d, tc_status = ''WAITING_FOR_PLAN'', tc_plan = a, tc_exhausted = True, tc_reread = False\<rparr>"

text \<open>The choice under an approved plan.\<close>

definition decide_plan ::
    "runtime \<Rightarrow> plan_graph \<Rightarrow> scope_cursor \<Rightarrow> plan_admission \<Rightarrow> until_input \<Rightarrow> tick_plan" where
  "decide_plan rt g c a inp =
     (case validate_plan rt g (ui_order inp) of
        Inl (rc, msg) \<Rightarrow> checkpoint (blocked rc
          ''The supplied plan is not structurally/content bound to canonical authority.'' None None) a
      | Inr digest \<Rightarrow>
          if ad_plan a \<noteq> plan_identity g \<or> ad_version a \<noteq> plan_version g \<or> ad_digest a \<noteq> digest
             \<or> cur_plan c \<noteq> ad_plan a \<or> cur_plan_version c \<noteq> ad_version a then
            checkpoint (blocked ''PLAN_IDENTITY_MISMATCH''
              ''Only the exact currently approved plan identity/version/digest may run.'' None None) a
          else if ui_blocker inp then
            checkpoint (blocked (ui_blocker_reason inp)
              ''A real blocker stops automatic progression; unrelated work is not selected.'' None None) a
          else if plan_is_exhausted g (ui_statuses inp) (ui_gates inp) then
            wait_for_plan (waiting_decision ''Approved plan exhausted; waiting for a canonically approved successor.''
              (if milestones g = [] then None else Some (milestone_id (last (milestones g))))) (Some a)
          else case select_work g c inp [] (milestones g) of
            Some d \<Rightarrow> checkpoint d a
          | None \<Rightarrow> wait_for_plan (waiting_decision ''No approved runnable work remains; waiting for a successor plan.'' None) (Some a))"

definition answer :: "scope_decision \<Rightarrow> string \<Rightarrow> scope_cursor \<Rightarrow> plan_admission option \<Rightarrow> bool \<Rightarrow> tick_plan" where
  "answer d st c a ex = Answer \<lparr>ur_decision = d, ur_status = st, ur_cursor = c, ur_approved = a, ur_exhausted = ex\<rparr>"

definition decide :: "runtime \<Rightarrow> until_store \<Rightarrow> string \<Rightarrow> scope_cursor \<Rightarrow> until_input \<Rightarrow> until_error + tick_plan" where
  "decide rt s p c inp =
     (if is_stopped c then
        Inr (answer (until_decision STOP_EXTERNAL_STOP_REQUESTED WS_PAUSED ''STOP_REQUESTED''
          ''UNTIL_STOPPED remains fenced after canonical STOP.'' None None False False True) ''STOPPED'' c (approved_plan s p) False)
      else if cur_scope c \<noteq> UNTIL_STOPPED \<or> \<not> cur_explicit c then
        (let d = blocked ''EXPLICIT_SCOPE_REQUIRED'' ''UNTIL_STOPPED is never enabled by an implicit or stale cursor.'' None None
         in Inr (Checkpoint \<lparr>tc_decision = fst d, tc_status = snd d, tc_plan = None, tc_exhausted = False, tc_reread = True\<rparr>))
      else if waiting_for_plan c then
        Inr (answer (waiting_decision
          ''The durable WAITING_FOR_PLAN checkpoint remains fenced until a successor is canonically approved.'' (cur_milestone c))
          ''WAITING_FOR_PLAN'' c (approved_plan s p) True)
      else case approved_plan s p of
        None \<Rightarrow> Inr (wait_for_plan (waiting_decision
          ''No canonically approved plan is available; no task is fabricated.'' None) None)
      | Some a \<Rightarrow>
          (case ui_plan inp of
             Some g \<Rightarrow> Inr (decide_plan rt g c a inp)
           | None \<Rightarrow>
               (case admission_by_id s (ad_id a) of
                  None \<Rightarrow> Inl (Until_Db AssertionError)
                | Some row \<Rightarrow>
                    (case graph_from_document rt (ad_document row) of
                       None \<Rightarrow> Inl (UntilStoppedError ''MALFORMED_PLAN'' ''persisted plan admission is malformed'')
                     | Some g \<Rightarrow> Inr (decide_plan rt g c a inp)))))"

text \<open>The task and status \<open>_persist_decision\<close> records for an action.\<close>

definition persisted_state :: "scope_cursor \<Rightarrow> scope_decision \<Rightarrow> string option \<times> string" where
  "persisted_state c d =
     (let act = action d; task = opt_or (selected_task_id d) (cur_task c) in
      if act = HALT_WAITING_FOR_PLAN then (None, ''WAITING_FOR_PLAN'')
      else if act \<in> {PAUSE_MANUAL_GATE_REQUIRED, PAUSE_POLICY_APPROVAL_REQUIRED} then (task, ''PAUSED'')
      else if act = HALT_BLOCKED then (task, ''BLOCKED'')
      else if act \<in> {WAIT_DEPENDENCY_PENDING, WAIT_MILESTONE_GATE_PENDING, WAIT_CI_WAITING, WAIT_TRANSIENT_BACKOFF} then
        (selected_task_id d, ''WAITING'')
      else if act \<in> {STOP_PROJECT_COMPLETE, STOP_SCOPE_COMPLETE} then (None, ''COMPLETED'')
      else if act = STOP_EXTERNAL_STOP_REQUESTED then (cur_task c, ''STOPPED'')
      else (task, ''ACTIVE''))"

definition decision_document :: "tick_choice \<Rightarrow> pydict" where
  "decision_document ch = [(''schema'', PStr ''bdb-until-stopped-decision-v1''),
     (''action'', PStr (action_value (action (tc_decision ch)))), (''reason_code'', PStr (reason_code (tc_decision ch))),
     (''plan_exhausted'', PBool (tc_exhausted ch)),
     (''approved_plan'', case tc_plan ch of None \<Rightarrow> PNone | Some a \<Rightarrow> PDict (admission_dict a))]"

definition persisted_cursor :: "scope_cursor \<Rightarrow> tick_choice \<Rightarrow> scope_cursor" where
  "persisted_cursor c ch =
     (let d = tc_decision ch; (task, status) = persisted_state c d in
      c\<lparr>cur_milestone := opt_or (selected_milestone_id d) (cur_milestone c), cur_task := task,
        cur_plan := (case tc_plan ch of Some a \<Rightarrow> ad_plan a | None \<Rightarrow> cur_plan c),
        cur_plan_version := (case tc_plan ch of Some a \<Rightarrow> ad_version a | None \<Rightarrow> cur_plan_version c),
        cur_disposition := (if tc_exhausted ch then ''WAITING_FOR_PLAN'' else action_value (action d)),
        cur_status := status, cur_explanation := decision_document ch\<rparr>)"

definition same_checkpoint :: "scope_cursor \<Rightarrow> scope_cursor \<Rightarrow> bool" where
  "same_checkpoint c c' \<longleftrightarrow> cur_milestone c' = cur_milestone c \<and> cur_task c' = cur_task c \<and> cur_plan c' = cur_plan c
     \<and> cur_plan_version c' = cur_plan_version c \<and> cur_disposition c' = cur_disposition c \<and> cur_status c' = cur_status c
     \<and> cur_explanation c' = cur_explanation c"

definition persist_decision ::
    "until_store \<Rightarrow> string \<Rightarrow> scope_cursor \<Rightarrow> tick_choice \<Rightarrow> int \<Rightarrow> until_store \<times> (until_error + scope_cursor)" where
  "persist_decision s p c ch now =
     (let c' = persisted_cursor c ch in
      if same_checkpoint c c' then (s, Inr c)
      else
        (let (sc, ok) = update_cursor_cas (us_scope s) p c' (cur_revision c) now; s' = s\<lparr>us_scope := sc\<rparr> in
         if \<not> ok then (s', Inl (UntilStoppedError ''STALE_CURSOR'' ''UNTIL_STOPPED decision lost a canonical cursor race''))
         else case until_cursor s' p of None \<Rightarrow> (s', Inl (Until_Db AssertionError)) | Some q \<Rightarrow> (s', Inr q)))"

definition finish_tick ::
    "until_store \<Rightarrow> string \<Rightarrow> scope_cursor \<Rightarrow> tick_choice \<Rightarrow> int \<Rightarrow> until_store \<times> (until_error + until_result)" where
  "finish_tick s p c ch now =
     (case persist_decision s p c ch now of
        (s', Inl err) \<Rightarrow> (s', Inl err)
      | (s', Inr q) \<Rightarrow> (s', Inr \<lparr>ur_decision = tc_decision ch, ur_status = tc_status ch, ur_cursor = q,
          ur_approved = (if tc_reread ch then approved_plan s' p else tc_plan ch), ur_exhausted = tc_exhausted ch\<rparr>))"

definition until_stop ::
    "until_store \<Rightarrow> string \<Rightarrow> int option \<Rightarrow> string \<Rightarrow> string \<Rightarrow> int \<Rightarrow> string \<Rightarrow> string
      \<Rightarrow> until_store \<times> (stop_error + stop_fence_record \<times> bool)" where
  "until_stop s p expected reason actor now u1 u2 =
     (case request_stop (us_scope s) p expected reason actor now u1 u2 of (sc, res) \<Rightarrow> (s\<lparr>us_scope := sc\<rparr>, res))"

definition until_resume ::
    "until_store \<Rightarrow> string \<Rightarrow> int option \<Rightarrow> string option \<Rightarrow> string \<Rightarrow> int \<Rightarrow> string
      \<Rightarrow> until_store \<times> (stop_error + scope_epoch_record)" where
  "until_resume s p expected new_run actor now u =
     (case resume_scope (us_scope s) p expected new_run actor now u of (sc, res) \<Rightarrow> (s\<lparr>us_scope := sc\<rparr>, res))"

text \<open>The STOP a tick is asked for.\<close>

definition stop_first ::
    "until_store \<Rightarrow> string \<Rightarrow> scope_cursor \<Rightarrow> until_input \<Rightarrow> int \<Rightarrow> string \<Rightarrow> string \<Rightarrow> until_store \<times> stop_error option" where
  "stop_first s p c inp now u1 u2 =
     (if ui_stop inp \<and> \<not> is_stopped c then
        (case until_stop s p (Some (cur_epoch c)) ''UNTIL_STOPPED STOP requested'' ''operator'' now u1 u2 of
           (s1, Inl err) \<Rightarrow> (s1, Some err)
         | (s1, Inr _) \<Rightarrow> (s1, None))
      else (s, None))"

definition until_tick ::
    "runtime \<Rightarrow> until_store \<Rightarrow> string \<Rightarrow> until_input \<Rightarrow> int \<Rightarrow> string \<Rightarrow> string \<Rightarrow> until_store \<times> (until_error + until_result)" where
  "until_tick rt s p inp now u1 u2 =
     (case until_cursor s p of
        None \<Rightarrow> (s, Inl (UntilStoppedError ''SCOPE_NOT_STARTED'' ''UNTIL_STOPPED scope has not started''))
      | Some c0 \<Rightarrow>
          (case stop_first s p c0 inp now u1 u2 of
             (s1, Some err) \<Rightarrow> (s1, Inl (Until_Stop err))
           | (s1, None) \<Rightarrow>
               (case until_cursor s1 p of
                  None \<Rightarrow> (s1, Inl (Until_Db AssertionError))
                | Some c \<Rightarrow>
                    (case decide rt s1 p c inp of
                       Inl err \<Rightarrow> (s1, Inl err)
                     | Inr (Answer r) \<Rightarrow> (s1, Inr r)
                     | Inr (Checkpoint ch) \<Rightarrow> finish_tick s1 p c ch now))))"

definition can_launch :: "until_store \<Rightarrow> string \<Rightarrow> int option \<Rightarrow> bool" where
  "can_launch s p e = (case until_cursor s p of None \<Rightarrow> False
     | Some c \<Rightarrow> check_allowed (check (us_scope s) p (case e of None \<Rightarrow> cur_epoch c | Some n \<Rightarrow> n) ORCHESTRATOR_TICK_LAUNCH))"

section \<open>What is selected\<close>

definition finished_milestone :: "until_input \<Rightarrow> plan_milestone \<Rightarrow> bool" where
  "finished_milestone inp m \<longleftrightarrow> list_all (task_done (ui_statuses inp)) (milestone_task_ids m) \<and> gate_open (ui_gates inp) (milestone_id m)"

text \<open>The choice in a milestone on its own, without a look at the ones before.\<close>

definition local_choice :: "plan_graph \<Rightarrow> scope_cursor \<Rightarrow> until_input \<Rightarrow> plan_milestone \<Rightarrow> (scope_decision \<times> string) option" where
  "local_choice g c inp m = milestone_choice g c inp [] m"

lemma blocked_not_done: "task_status st t \<in> set BLOCKED_TASK_STATUSES \<Longrightarrow> \<not> task_done st t"
  by (auto simp: task_done_def BLOCKED_TASK_STATUSES_def UNTIL_TERMINAL_STATUSES_def)

lemma milestone_choice_None: "milestone_choice g c inp [] m = None \<longleftrightarrow> finished_milestone inp m"
  using blocked_not_done
  by (auto simp: milestone_choice_def gate_choice_def finished_milestone_def find_None_iff list_all_iff
      dest!: find_SomeD split: option.splits)

lemma milestone_choice_prev:
  "list_all (finished_milestone inp) prev \<Longrightarrow> milestone_choice g c inp prev m = milestone_choice g c inp [] m"
  by (auto simp: milestone_choice_def finished_milestone_def list_all_iff list_ex_iff split: option.splits)

lemma select_work_find:
  "list_all (finished_milestone inp) prev \<Longrightarrow> select_work g c inp prev ms =
     (case find (\<lambda>m. \<not> finished_milestone inp m) ms of None \<Rightarrow> None | Some m \<Rightarrow> local_choice g c inp m)"
proof (induction ms arbitrary: prev)
  case (Cons m ms)
  note m = milestone_choice_prev[OF Cons.prems, of g c m]
  show ?case
  proof (cases "finished_milestone inp m")
    case True
    then have "milestone_choice g c inp prev m = None" using m milestone_choice_None by metis
    then show ?thesis using True Cons.IH[of "prev @ [m]"] Cons.prems by simp
  next
    case False
    then obtain d where "milestone_choice g c inp prev m = Some d" using m milestone_choice_None by (metis option.exhaust)
    then show ?thesis using False m by (simp add: local_choice_def)
  qed
qed simp

text \<open>C32: The loop over the milestones is equivalent to looking at one milestone only, the first that is not finished (a task not done or the gate
  not approved): what it reports is that milestone's choice on its own, so the gates of earlier milestones, which every round checks
  again, never decide anything.\<close>

theorem selection_is_first_unfinished:
  "select_work g c inp [] (milestones g) =
     (case find (\<lambda>m. \<not> finished_milestone inp m) (milestones g) of None \<Rightarrow> None | Some m \<Rightarrow> local_choice g c inp m)"
  by (simp add: select_work_find)

section \<open>What is launched\<close>

text \<open>The task a tick may launch under an approved plan.\<close>

definition next_legal_task ::
    "plan_graph \<Rightarrow> until_input \<Rightarrow> plan_milestone list \<Rightarrow> plan_milestone \<Rightarrow> plan_milestone list \<Rightarrow> plan_task \<Rightarrow> string \<Rightarrow> bool" where
  "next_legal_task g inp pre m post t tid \<longleftrightarrow> milestones g = pre @ m # post \<and> (\<forall>q\<in>set pre. finished_milestone inp q)
     \<and> find (\<lambda>x. \<not> task_done (ui_statuses inp) x) (milestone_task_ids m) = Some tid \<and> get_task g tid = Some t
     \<and> (\<forall>x\<in>set (milestone_task_ids m). task_status (ui_statuses inp) x \<notin> set BLOCKED_TASK_STATUSES)
     \<and> (\<forall>d\<in>set (task_dependencies t). task_done (ui_statuses inp) d)
     \<and> \<not> ui_manual_pause inp \<and> (requires_manual_approval t \<longrightarrow> has_grant (ui_manual inp) tid)
     \<and> \<not> ui_policy_pause inp \<and> (requires_policy_approval t \<longrightarrow> has_grant (ui_policy inp) tid)"

text \<open>The plan a decision was made under is the approved one, whole.\<close>

definition under_plan :: "runtime \<Rightarrow> plan_graph \<Rightarrow> scope_cursor \<Rightarrow> plan_admission \<Rightarrow> until_input \<Rightarrow> bool" where
  "under_plan rt g c a inp \<longleftrightarrow> validate_plan rt g (ui_order inp) = Inr (ad_digest a) \<and> ad_plan a = plan_identity g
     \<and> ad_version a = plan_version g \<and> cur_plan c = ad_plan a \<and> cur_plan_version c = ad_version a"

lemma find_split:
  assumes "find P xs = Some x"
  obtains pre post where "xs = pre @ x # post" "\<forall>y\<in>set pre. \<not> P y" "P x"
  using assms
proof (induction xs arbitrary: thesis)
  case (Cons y ys)
  show ?case
  proof (cases "P y")
    case True
    then show ?thesis using Cons.prems(1)[of "[]" ys] Cons.prems(2) by simp
  next
    case False
    then obtain pre post where "ys = pre @ x # post" "\<forall>z\<in>set pre. \<not> P z" "P x"
      using Cons.IH Cons.prems(2) by (metis find.simps(2))
    then show ?thesis using Cons.prems(1)[of "y # pre" post] False by simp
  qed
qed simp

lemma until_decision_simps [simp]:
  "action (until_decision act ws rc msg tid mid ct cm fin) = act" "selected_task_id (until_decision act ws rc msg tid mid ct cm fin) = tid"
  "selected_milestone_id (until_decision act ws rc msg tid mid ct cm fin) = mid"
  "reason_code (until_decision act ws rc msg tid mid ct cm fin) = rc"
  by (simp_all add: until_decision_def decision_def)

lemma blocked_simps [simp]: "action (fst (blocked rc msg tid mid)) = HALT_BLOCKED" "snd (blocked rc msg tid mid) = ''BLOCKED''"
  by (simp_all add: blocked_def)

lemma waiting_simps [simp]: "action (waiting_decision msg mid) = HALT_WAITING_FOR_PLAN"
  by (simp add: waiting_decision_def)

lemma task_choice_launch:
  assumes "action (fst (task_choice g c inp mid tid)) = LAUNCH_TASK"
  obtains t where "get_task g tid = Some t" "\<forall>d\<in>set (task_dependencies t). task_done (ui_statuses inp) d"
    "\<not> ui_manual_pause inp" "requires_manual_approval t \<longrightarrow> has_grant (ui_manual inp) tid"
    "\<not> ui_policy_pause inp" "requires_policy_approval t \<longrightarrow> has_grant (ui_policy inp) tid"
    "selected_task_id (fst (task_choice g c inp mid tid)) = Some tid"
    "selected_milestone_id (fst (task_choice g c inp mid tid)) = Some mid"
  using assms by (cases "get_task g tid") (auto simp: task_choice_def Let_def filter_empty_conv split: if_splits)

lemma gate_choice_no_launch: "gate_choice inp m = Some d \<Longrightarrow> action (fst d) \<noteq> LAUNCH_TASK"
  by (auto simp: gate_choice_def split: if_splits)

lemma select_launch:
  assumes "select_work g c inp [] (milestones g) = Some d" and "action (fst d) = LAUNCH_TASK"
  shows "\<exists>pre m post t tid. next_legal_task g inp pre m post t tid \<and> selected_task_id (fst d) = Some tid
    \<and> selected_milestone_id (fst d) = Some (milestone_id m)"
proof -
  obtain m where m: "find (\<lambda>m. \<not> finished_milestone inp m) (milestones g) = Some m" "local_choice g c inp m = Some d"
    using assms(1) by (auto simp: select_work_find split: option.splits)
  obtain pre post where pre: "milestones g = pre @ m # post" "\<forall>q\<in>set pre. \<not> \<not> finished_milestone inp q"
    using m(1) by (rule find_split)
  have nb: "find (\<lambda>t. task_status (ui_statuses inp) t \<in> set BLOCKED_TASK_STATUSES) (milestone_task_ids m) = None"
    using m(2) assms(2) by (auto simp: local_choice_def milestone_choice_def split: option.splits)
  then obtain tid where tid: "find (\<lambda>t. \<not> task_done (ui_statuses inp) t) (milestone_task_ids m) = Some tid"
    "d = task_choice g c inp (milestone_id m) tid"
    using m(2) assms(2) gate_choice_no_launch
    by (auto simp: local_choice_def milestone_choice_def split: option.splits)
  from assms(2)[unfolded tid(2)] obtain t where t: "get_task g tid = Some t" "\<forall>d\<in>set (task_dependencies t). task_done (ui_statuses inp) d"
    "\<not> ui_manual_pause inp" "requires_manual_approval t \<longrightarrow> has_grant (ui_manual inp) tid"
    "\<not> ui_policy_pause inp" "requires_policy_approval t \<longrightarrow> has_grant (ui_policy inp) tid"
    "selected_task_id (fst d) = Some tid" "selected_milestone_id (fst d) = Some (milestone_id m)"
    unfolding tid(2) by (rule task_choice_launch)
  have "next_legal_task g inp pre m post t tid"
    using pre tid(1) nb t(1-6) by (simp add: next_legal_task_def find_None_iff)
  then show ?thesis using t(7,8) by blast
qed

lemma decide_plan_launch:
  assumes "decide_plan rt g c a inp = Checkpoint ch" and "action (tc_decision ch) = LAUNCH_TASK"
  shows "under_plan rt g c a inp \<and> tc_plan ch = Some a \<and> \<not> tc_exhausted ch \<and> (\<exists>pre m post t tid. next_legal_task g inp pre m post t tid
    \<and> selected_task_id (tc_decision ch) = Some tid \<and> selected_milestone_id (tc_decision ch) = Some (milestone_id m))"
proof -
  obtain digest where v: "validate_plan rt g (ui_order inp) = Inr digest" using assms
    by (cases "validate_plan rt g (ui_order inp)") (auto simp: decide_plan_def checkpoint_def)
  then have same: "under_plan rt g c a inp" and "\<not> ui_blocker inp" "\<not> plan_is_exhausted g (ui_statuses inp) (ui_gates inp)"
    using assms by (auto simp: decide_plan_def checkpoint_def wait_for_plan_def under_plan_def split: if_splits)
  then obtain d where d: "select_work g c inp [] (milestones g) = Some d" "checkpoint d a = Checkpoint ch"
    using assms v by (auto simp: decide_plan_def wait_for_plan_def under_plan_def split: option.splits)
  then show ?thesis using select_launch[OF d(1)] assms(2) same by (auto simp: checkpoint_def)
qed

text \<open>A cursor the controller may act on.\<close>

definition running :: "scope_cursor \<Rightarrow> bool" where
  "running c \<longleftrightarrow> \<not> is_stopped c \<and> cur_scope c = UNTIL_STOPPED \<and> cur_explicit c \<and> \<not> waiting_for_plan c"

lemma decide_Some:
  assumes "decide rt s p c inp = Inr (Checkpoint ch)" and "action (tc_decision ch) = LAUNCH_TASK"
  shows "running c \<and> (\<exists>a g. approved_plan s p = Some a \<and> decide_plan rt g c a inp = Checkpoint ch)"
  using assms by (auto simp: decide_def answer_def wait_for_plan_def running_def Let_def
      split: if_splits option.splits)

lemma decide_no_answer: "decide rt s p c inp = Inr (Answer r) \<Longrightarrow> action (ur_decision r) \<noteq> LAUNCH_TASK"
  by (auto simp: decide_def answer_def decide_plan_def checkpoint_def wait_for_plan_def Let_def
      split: if_splits option.splits sum.splits)

lemma persisted_admissions: "persist_decision s p c ch now = (s', res) \<Longrightarrow> us_admissions s' = us_admissions s"
  by (auto simp: persist_decision_def Let_def split: if_splits prod.splits option.splits)

lemma finish_tick_Inr:
  assumes "finish_tick s p c ch now = (s', Inr r)"
  shows "ur_decision r = tc_decision ch \<and> ur_status r = tc_status ch \<and> ur_exhausted r = tc_exhausted ch
    \<and> us_admissions s' = us_admissions s \<and> persist_decision s p c ch now = (s', Inr (ur_cursor r))
    \<and> (\<not> tc_reread ch \<longrightarrow> ur_approved r = tc_plan ch)"
  using assms persisted_admissions[of s p c ch now]
  by (auto simp: finish_tick_def split: prod.splits sum.splits)

lemma tick_no_stop:
  assumes "\<not> ui_stop inp" and "until_cursor s p = Some c"
  shows "until_tick rt s p inp now u1 u2 = (case decide rt s p c inp of Inl err \<Rightarrow> (s, Inl err) | Inr (Answer r) \<Rightarrow> (s, Inr r)
    | Inr (Checkpoint ch) \<Rightarrow> finish_tick s p c ch now)"
  using assms by (simp add: until_tick_def stop_first_def)

text \<open>C7: A tick launches only the next legal task of the approved plan. When a tick that is not asked to stop selects a task, the scope was explicitly selected, is neither
  stopped nor waiting for a plan, the plan it followed is the approved one by identity, version and digest and the one the cursor runs, every earlier milestone
  is finished, and the task is the first unfinished one of its milestone, with its dependencies done, no blocked task beside it
  and its approvals given.\<close>

theorem launches_next_legal_task:
  assumes "until_tick rt s p inp now u1 u2 = (s', Inr r)" and "action (ur_decision r) = LAUNCH_TASK" and "\<not> ui_stop inp"
  shows "\<exists>c a g pre m post t tid. until_cursor s p = Some c \<and> running c \<and> approved_plan s p = Some a \<and> under_plan rt g c a inp
    \<and> next_legal_task g inp pre m post t tid \<and> selected_task_id (ur_decision r) = Some tid
    \<and> selected_milestone_id (ur_decision r) = Some (milestone_id m) \<and> ur_approved r = Some a \<and> us_admissions s' = us_admissions s"
proof -
  obtain c where c: "until_cursor s p = Some c" using assms(1) by (cases "until_cursor s p") (auto simp: until_tick_def)
  note step = assms(1)[unfolded tick_no_stop[OF assms(3) c]]
  obtain ch where ch: "decide rt s p c inp = Inr (Checkpoint ch)" "finish_tick s p c ch now = (s', Inr r)"
    using step assms(2) by (auto split: sum.splits tick_plan.splits dest: decide_no_answer)
  note fin = finish_tick_Inr[OF ch(2)]
  then have l: "action (tc_decision ch) = LAUNCH_TASK" using assms(2) by simp
  obtain a g where a: "running c" "approved_plan s p = Some a" "decide_plan rt g c a inp = Checkpoint ch"
    using decide_Some[OF ch(1) l] by blast
  have "\<not> tc_reread ch" using a(3) by (auto simp: decide_plan_def checkpoint_def wait_for_plan_def split: if_splits sum.splits option.splits)
  then show ?thesis using decide_plan_launch[OF a(3) l] c a(1,2) fin by metis
qed

lemma find_cursor_project: "find_cursor sto p = Some c \<Longrightarrow> cur_project c = p \<and> c \<in> set (scope_cursors sto)"
  by (auto simp: find_cursor_def dest: find_SomeD)

lemma persist_current:
  assumes "until_cursor s p = Some c" and "distinct (map cur_project (scope_cursors (us_scope s)))"
  shows "\<exists>s' q. persist_decision s p c ch now = (s', Inr q) \<and> same_checkpoint (persisted_cursor c ch) q"
proof (cases "same_checkpoint c (persisted_cursor c ch)")
  case True
  then show ?thesis by (auto simp: persist_decision_def same_checkpoint_def Let_def)
next
  case False
  obtain sc ok where u: "update_cursor_cas (us_scope s) p (persisted_cursor c ch) (cur_revision c) now = (sc, ok)" by fastforce
  note cur = assms(1)[unfolded until_cursor_def]
  have ok using u find_cursor_project[OF cur] by (auto simp: update_cursor_cas_def list_ex_iff split: if_splits)
  then have "find_cursor sc p = Some (cas_row (persisted_cursor c ch) (cur_revision c) now c)"
    using update_cursor_cas_store(4)[OF u assms(2)] cur by auto
  then show ?thesis using False u \<open>ok\<close>
    by (auto simp: persist_decision_def until_cursor_def same_checkpoint_def cas_row_def Let_def)
qed

text \<open>A plan counts as exhausted although a task of it was never done: when every milestone is finished but some task of the graph is listed by no milestone
  (the graph is valid all the same), the tick waits for a successor plan and checkpoints that, where the comment at this place says
  that only an empty plan leads there.\<close>

lemma unlisted_task_is_skipped:
  assumes "until_cursor s p = Some c" and "running c" and "approved_plan s p = Some a" and "under_plan rt g c a inp"
    and "ui_plan inp = Some g" and "\<not> ui_stop inp" and "\<not> ui_blocker inp"
    and "\<forall>m\<in>set (milestones g). finished_milestone inp m" and "t \<in> set (tasks g)" and "\<not> task_done (ui_statuses inp) (task_id t)"
    and "distinct (map cur_project (scope_cursors (us_scope s)))"
  shows "\<exists>s' r. until_tick rt s p inp now u1 u2 = (s', Inr r) \<and> ur_exhausted r \<and> action (ur_decision r) = HALT_WAITING_FOR_PLAN
    \<and> cur_status (ur_cursor r) = ''WAITING_FOR_PLAN'' \<and> ur_approved r = Some a"
proof -
  let ?ch = "\<lparr>tc_decision = waiting_decision ''No approved runnable work remains; waiting for a successor plan.'' None,
    tc_status = ''WAITING_FOR_PLAN'', tc_plan = Some a, tc_exhausted = True, tc_reread = False\<rparr>"
  have "find (\<lambda>m. \<not> finished_milestone inp m) (milestones g) = None" using assms(8) by (auto simp: find_None_iff)
  moreover have "\<not> plan_is_exhausted g (ui_statuses inp) (ui_gates inp)" using assms(9,10) by (auto simp: plan_is_exhausted_def list_all_iff)
  ultimately have "decide_plan rt g c a inp = Checkpoint ?ch"
    using assms(4,7) by (simp add: decide_plan_def under_plan_def select_work_find wait_for_plan_def)
  then have d: "decide rt s p c inp = Inr (Checkpoint ?ch)"
    using assms(2,3,5) by (simp add: decide_def running_def)
  obtain s' q where q: "persist_decision s p c ?ch now = (s', Inr q)" "same_checkpoint (persisted_cursor c ?ch) q"
    using persist_current[OF assms(1,11)] by blast
  then have "cur_status q = ''WAITING_FOR_PLAN''" by (simp add: same_checkpoint_def persisted_cursor_def persisted_state_def Let_def)
  then show ?thesis using q(1) d by (simp add: tick_no_stop[OF assms(6,1)] finish_tick_def)
qed

section \<open>The store of admissions\<close>

definition ad_key :: "'a plan_admission_scheme \<Rightarrow> string \<times> string \<times> string \<times> int \<times> string" where
  "ad_key a = (ad_id a, ad_project a, ad_plan a, ad_version a, ad_digest a)"

definition runs :: "until_store \<Rightarrow> 'a plan_admission_scheme \<Rightarrow> bool" where
  "runs s a \<longleftrightarrow> (\<exists>c. until_cursor s (ad_project a) = Some c \<and> cur_plan c = ad_plan a \<and> cur_plan_version c = ad_version a)"

text \<open>One cursor per project, distinct admissions of projects that have a cursor, and at most one approved plan per project, which the cursor runs.\<close>

definition admissions_ok :: "until_store \<Rightarrow> bool" where
  "admissions_ok s \<longleftrightarrow> distinct (map cur_project (scope_cursors (us_scope s))) \<and> distinct (map ad_id (us_admissions s))
     \<and> (\<forall>a\<in>set (us_admissions s). until_cursor s (ad_project a) \<noteq> None)
     \<and> (\<forall>a\<in>set (us_admissions s). ad_status a = ''APPROVED'' \<longrightarrow> runs s a)
     \<and> (\<forall>a\<in>set (us_admissions s). \<forall>b\<in>set (us_admissions s). ad_status a = ''APPROVED'' \<longrightarrow> ad_status b = ''APPROVED''
          \<longrightarrow> ad_project b = ad_project a \<longrightarrow> b = a)"

text \<open>What every step does: a cursor stays, with its approved plan, or moves on by one revision; admissions keep their identity.\<close>

definition until_moves :: "until_store \<Rightarrow> until_store \<Rightarrow> bool" where
  "until_moves s s' \<longleftrightarrow> ad_key ` set (us_admissions s) \<subseteq> ad_key ` set (us_admissions s')
     \<and> (\<forall>p c. until_cursor s p = Some c \<longrightarrow> (\<exists>c'. until_cursor s' p = Some c'
          \<and> (c' = c \<and> approved_plan s' p = approved_plan s p \<or> cur_revision c' = cur_revision c + 1)))"

lemma approved_plan_None: "approved_plan s p = None \<longleftrightarrow> (\<forall>a\<in>set (us_admissions s). ad_project a = p \<longrightarrow> ad_status a \<noteq> ''APPROVED'')"
  by (auto simp: approved_plan_def find_None_iff)

lemma approved_planD:
  "approved_plan s p = Some x \<Longrightarrow> \<exists>a\<in>set (us_admissions s). x = admission_from_row a \<and> ad_project a = p \<and> ad_status a = ''APPROVED''"
  unfolding approved_plan_def by (auto dest: find_SomeD)

lemma admission_for_identityD:
  "admission_for_identity s p i n d = Some x \<Longrightarrow> \<exists>a\<in>set (us_admissions s). x = admission_from_row a \<and> ad_project a = p \<and> ad_plan a = i
     \<and> ad_version a = n \<and> ad_digest a = d"
  unfolding admission_for_identity_def by (auto dest: find_SomeD)

lemma from_row_simps [simp]:
  "ad_id (admission_from_row a) = ad_id a" "ad_project (admission_from_row a) = ad_project a" "ad_plan (admission_from_row a) = ad_plan a"
  "ad_version (admission_from_row a) = ad_version a" "ad_digest (admission_from_row a) = ad_digest a"
  "ad_status (admission_from_row a) = ad_status a" "ad_key (admission_from_row a) = ad_key a"
  by (simp_all add: admission_from_row_def plan_admission.truncate_def ad_key_def)

lemma approved_runs: "admissions_ok s \<Longrightarrow> approved_plan s p = Some x \<Longrightarrow> runs s x"
  by (drule approved_planD) (auto simp: admissions_ok_def runs_def)

lemma moves_refl: "until_moves s s"
  by (auto simp: until_moves_def)

lemma approved_plan_cong: "us_admissions s' = us_admissions s \<Longrightarrow> approved_plan s' p = approved_plan s p"
  by (simp add: approved_plan_def)

text \<open>A step that only moves the cursor of a project.\<close>

lemma cursor_change:
  assumes "admissions_ok s" and "us_admissions s' = us_admissions s" and "until_cursor s p = Some c"
    and "until_cursor s' = (until_cursor s)(p \<mapsto> c')" and "cur_revision c' = cur_revision c + 1"
    and "\<And>a. approved_plan s p = Some a \<Longrightarrow> cur_plan c' = ad_plan a \<and> cur_plan_version c' = ad_version a"
    and "distinct (map cur_project (scope_cursors (us_scope s')))"
  shows "admissions_ok s'" "until_moves s s'"
proof -
  have "runs s' a" if a: "a \<in> set (us_admissions s)" "ad_status a = ''APPROVED''" for a
  proof (cases "ad_project a = p")
    case True
    obtain x where x: "approved_plan s p = Some x" using a True approved_plan_None by (metis option.exhaust)
    then obtain b where "b \<in> set (us_admissions s)" "x = admission_from_row b" "ad_project b = p" "ad_status b = ''APPROVED''"
      using approved_planD by blast
    then have "x = admission_from_row a" using a True assms(1) unfolding admissions_ok_def by metis
    then show ?thesis using assms(6)[OF x] True assms(4) by (auto simp: runs_def)
  next
    case False
    then show ?thesis using a assms(1,4) by (auto simp: admissions_ok_def runs_def)
  qed
  then show "admissions_ok s'" using assms(1,2,4,7) by (auto simp: admissions_ok_def)
  show "until_moves s s'" using assms(2-5) approved_plan_cong[OF assms(2)] by (auto simp: until_moves_def)
qed

text \<open>A STOP or resume, which keeps the plan of the cursor.\<close>

lemma plan_kept:
  assumes "admissions_ok s" and "find_cursor (us_scope s) p = Some c"
    and "\<forall>q. find_cursor sc q = (if q = p then Some c' else find_cursor (us_scope s) q)"
    and "map cur_project (scope_cursors sc) = map cur_project (scope_cursors (us_scope s))"
    and "cur_revision c' = cur_revision c + 1" "cur_plan c' = cur_plan c" "cur_plan_version c' = cur_plan_version c"
  shows "admissions_ok (s\<lparr>us_scope := sc\<rparr>) \<and> until_moves s (s\<lparr>us_scope := sc\<rparr>)"
proof -
  have plan: "cur_plan c' = ad_plan a \<and> cur_plan_version c' = ad_version a" if "approved_plan s p = Some a" for a
    using approved_runs[OF assms(1) that] approved_planD[OF that] assms(2,6,7) by (auto simp: runs_def until_cursor_def)
  have cur: "until_cursor (s\<lparr>us_scope := sc\<rparr>) = (until_cursor s)(p \<mapsto> c')" using assms(3) by (auto simp: until_cursor_def fun_eq_iff)
  have here: "until_cursor s p = Some c" using assms(2) by (simp add: until_cursor_def)
  have d: "distinct (map cur_project (scope_cursors (us_scope (s\<lparr>us_scope := sc\<rparr>))))"
    using assms(1,4) by (simp add: admissions_ok_def)
  show ?thesis using cursor_change[OF assms(1) _ here cur assms(5) plan d] by simp
qed

lemma stop_ok:
  assumes "admissions_ok s" and "until_stop s p expected reason actor now u1 u2 = (s', res)"
  shows "admissions_ok s' \<and> until_moves s s'"
proof -
  obtain sc where sc: "request_stop (us_scope s) p expected reason actor now u1 u2 = (sc, res)" "s' = s\<lparr>us_scope := sc\<rparr>"
    using assms(2) by (auto simp: until_stop_def split: prod.splits)
  from execute_stop_store[OF sc(1)[unfolded request_stop_def]] consider "sc = us_scope s"
    | c where "find_cursor (us_scope s) p = Some c"
      "\<forall>q. find_cursor sc q = (if q = p then Some (stopped_cursor c reason now) else find_cursor (us_scope s) q)"
      "map cur_project (scope_cursors sc) = map cur_project (scope_cursors (us_scope s))" by blast
  then show ?thesis
  proof cases
    case (2 c)
    show ?thesis unfolding sc(2) by (rule plan_kept[OF assms(1) 2]) (simp_all add: stopped_cursor_def)
  qed (use assms(1) sc(2) moves_refl in simp)
qed

lemma resume_ok:
  assumes "admissions_ok s" and "until_resume s p expected new_run actor now u = (s', res)"
  shows "admissions_ok s' \<and> until_moves s s'"
proof -
  obtain sc where sc: "resume_scope (us_scope s) p expected new_run actor now u = (sc, res)" "s' = s\<lparr>us_scope := sc\<rparr>"
    using assms(2) by (auto simp: until_resume_def split: prod.splits)
  from execute_resume_store[OF sc(1)[unfolded resume_scope_def]] consider "sc = us_scope s"
    | c run where "find_cursor (us_scope s) p = Some c"
      "\<forall>q. find_cursor sc q = (if q = p then Some (resumed_cursor c run now) else find_cursor (us_scope s) q)"
      "map cur_project (scope_cursors sc) = map cur_project (scope_cursors (us_scope s))" by blast
  then show ?thesis
  proof cases
    case (2 c run)
    show ?thesis unfolding sc(2) by (rule plan_kept[OF assms(1) 2]) (simp_all add: resumed_cursor_def)
  qed (use assms(1) sc(2) moves_refl in simp)
qed

text \<open>A decision that is checkpointed was made on the current cursor.\<close>

definition held_ok :: "until_store \<Rightarrow> string \<Rightarrow> scope_cursor \<Rightarrow> tick_choice \<Rightarrow> bool" where
  "held_ok s p c ch \<longleftrightarrow> (\<exists>r. until_cursor s p = Some r \<and> cur_revision c \<le> cur_revision r
     \<and> (cur_revision c = cur_revision r \<longrightarrow> c = r \<and> (\<forall>a. tc_plan ch = Some a \<longrightarrow> approved_plan s p = Some a)))"

lemma persistE:
  assumes "persist_decision s p c ch now = (s', res)" and "admissions_ok s" and "held_ok s p c ch"
  obtains (unchanged) "s' = s"
  | (stored) "until_cursor s p = Some c" "\<And>a. tc_plan ch = Some a \<Longrightarrow> approved_plan s p = Some a"
      "until_cursor s' = (until_cursor s)(p \<mapsto> cas_row (persisted_cursor c ch) (cur_revision c) now c)"
      "us_admissions s' = us_admissions s" "distinct (map cur_project (scope_cursors (us_scope s')))"
proof -
  obtain sc ok where u: "update_cursor_cas (us_scope s) p (persisted_cursor c ch) (cur_revision c) now = (sc, ok)" by fastforce
  have dist: "distinct (map cur_project (scope_cursors (us_scope s)))" using assms(2) by (simp add: admissions_ok_def)
  note cas = update_cursor_cas_store[OF u dist]
  show thesis
  proof (cases "same_checkpoint c (persisted_cursor c ch) \<or> \<not> ok")
    case True
    then show thesis using assms(1) u cas(2) unchanged by (auto simp: persist_decision_def Let_def split: if_splits)
  next
    case False
    then obtain r where r: "find_cursor (us_scope s) p = Some r" "cur_revision r = cur_revision c"
      "\<forall>q. find_cursor sc q = (if q = p then Some (cas_row (persisted_cursor c ch) (cur_revision c) now r) else find_cursor (us_scope s) q)"
      using cas(4) by blast
    have s': "s' = s\<lparr>us_scope := sc\<rparr>" using assms(1) u False
      by (auto simp: persist_decision_def Let_def split: option.splits)
    have "r = c" "\<And>a. tc_plan ch = Some a \<Longrightarrow> approved_plan s p = Some a"
      using assms(3) r(1,2) by (auto simp: held_ok_def until_cursor_def)
    then show thesis using stored r s' cas(3) by (auto simp: until_cursor_def fun_eq_iff)
  qed
qed

lemma persist_ok:
  assumes "persist_decision s p c ch now = (s', res)" and "admissions_ok s" and "held_ok s p c ch"
  shows "admissions_ok s' \<and> until_moves s s'"
  using assms
proof (cases rule: persistE)
  case unchanged
  then show ?thesis using assms(2) moves_refl by simp
next
  case stored
  have "cur_plan (persisted_cursor c ch) = ad_plan a \<and> cur_plan_version (persisted_cursor c ch) = ad_version a"
    if "approved_plan s p = Some a" for a
    using stored(1,2) approved_runs[OF assms(2) that] approved_planD[OF that] that
    by (cases "tc_plan ch") (auto simp: persisted_cursor_def runs_def Let_def split: prod.splits)
  then have plan: "cur_plan (cas_row (persisted_cursor c ch) (cur_revision c) now c) = ad_plan a
      \<and> cur_plan_version (cas_row (persisted_cursor c ch) (cur_revision c) now c) = ad_version a" if "approved_plan s p = Some a" for a
    using that by (simp add: cas_row_def)
  show ?thesis using cursor_change[OF assms(2) stored(4,1,3) _ plan stored(5)] by simp
qed

section \<open>Changing admissions\<close>

lemma append_ok:
  assumes "admissions_ok s" and "\<not> admission_conflict s a" and "until_cursor s (ad_project a) \<noteq> None"
    and "ad_status a = ''APPROVED'' \<Longrightarrow> runs s a"
  shows "admissions_ok (s\<lparr>us_admissions := us_admissions s @ [a]\<rparr>)"
proof -
  have new: "ad_id a \<notin> ad_id ` set (us_admissions s)"
    "\<forall>b\<in>set (us_admissions s). ad_status a = ''APPROVED'' \<longrightarrow> ad_status b = ''APPROVED'' \<longrightarrow> ad_project a \<noteq> ad_project b"
    using assms(2) by (auto simp: admission_conflict_def list_ex_iff approved_plan_None)
  note ok = assms(1)[unfolded admissions_ok_def]
  let ?s = "s\<lparr>us_admissions := us_admissions s @ [a]\<rparr>"
  have same: "runs ?s b = runs s b" "until_cursor ?s = until_cursor s" for b :: admission_row
    by (auto simp: runs_def until_cursor_def fun_eq_iff)
  have "distinct (map ad_id (us_admissions ?s))" using ok new(1) by simp
  moreover have "x = y" if "x \<in> set (us_admissions ?s)" "y \<in> set (us_admissions ?s)" "ad_status x = ''APPROVED''" "ad_status y = ''APPROVED''"
      "ad_project x = ad_project y" for x y
    using that ok new(2) by (cases "x = a"; cases "y = a") (simp_all, metis)
  moreover have "until_cursor ?s (ad_project b) \<noteq> None" "ad_status b = ''APPROVED'' \<longrightarrow> runs ?s b" if "b \<in> set (us_admissions ?s)" for b
    using that ok assms(3,4) unfolding same by auto
  ultimately show ?thesis using ok unfolding admissions_ok_def by simp
qed

text \<open>Rows rewritten in place, with their identity kept.\<close>

lemma rewrite_keys:
  assumes "us_admissions s' = map h (us_admissions s)" and "\<And>a. a \<in> set (us_admissions s) \<Longrightarrow> ad_key (h a) = ad_key a"
  shows "ad_key ` set (us_admissions s') = ad_key ` set (us_admissions s)" "map ad_id (us_admissions s') = map ad_id (us_admissions s)"
proof -
  have "ad_id (h a) = ad_id a" if "a \<in> set (us_admissions s)" for a using assms(2)[OF that] by (simp add: ad_key_def)
  then show "map ad_id (us_admissions s') = map ad_id (us_admissions s)" by (simp add: assms(1))
  show "ad_key ` set (us_admissions s') = ad_key ` set (us_admissions s)"
    using assms(2) by (force simp: assms(1) image_iff)
qed

lemma approved_plan_rewrite:
  assumes "us_admissions s' = map h (us_admissions s)" and "\<And>a. a \<in> set (us_admissions s) \<Longrightarrow> ad_key (h a) = ad_key a"
    and "\<And>a. a \<in> set (us_admissions s) \<Longrightarrow> ad_project a = q \<Longrightarrow> h a = a"
  shows "approved_plan s' q = approved_plan s q"
proof -
  have "find (\<lambda>a. ad_project a = q \<and> ad_status a = ''APPROVED'') (map h xs) = find (\<lambda>a. ad_project a = q \<and> ad_status a = ''APPROVED'') xs"
    if "set xs \<subseteq> set (us_admissions s)" for xs
    using that
  proof (induction xs)
    case (Cons a xs)
    then show ?case using assms(2)[of a] assms(3)[of a] by (cases "ad_project a = q") (auto simp: ad_key_def)
  qed simp
  then show ?thesis using assms(1) by (simp add: approved_plan_def)
qed

lemma supersede_ok:
  assumes "admissions_ok s"
  shows "admissions_ok (supersede s x)"
proof -
  let ?h = "\<lambda>a. if has_status (ad_id x) ''APPROVED'' a then a\<lparr>ad_status := ''SUPERSEDED''\<rparr> else a"
  have rows: "us_admissions (supersede s x) = map ?h (us_admissions s)" "until_cursor (supersede s x) = until_cursor s"
    "us_scope (supersede s x) = us_scope s"
    by (simp_all add: supersede_def update_admissions_def until_cursor_def fun_eq_iff)
  have ids: "map ad_id (us_admissions (supersede s x)) = map ad_id (us_admissions s)"
    by (rule rewrite_keys(2)[OF rows(1)]) (simp add: ad_key_def)
  have app: "a \<in> set (us_admissions s)" if "a \<in> set (us_admissions (supersede s x))" "ad_status a = ''APPROVED''" for a
    using that by (auto simp: rows split: if_splits)
  have "runs (supersede s x) a = runs s a" for a :: admission_row by (simp add: runs_def rows)
  moreover have "until_cursor s (ad_project a) \<noteq> None" if "a \<in> set (us_admissions (supersede s x))" for a
    using that assms by (auto simp: rows admissions_ok_def split: if_splits)
  ultimately show ?thesis using assms app unfolding admissions_ok_def ids rows(2,3) by blast
qed

lemma promote_ok:
  assumes "admissions_ok s" and "approved_plan s p = None"
    and "us_admissions s' = map (\<lambda>a. if P a then promote now who n a else a) (us_admissions s)"
    and "\<And>a. a \<in> set (us_admissions s) \<Longrightarrow> P a \<Longrightarrow> ad_id a = i \<and> ad_project a = p \<and> runs s' a"
    and "\<And>q. q \<noteq> p \<Longrightarrow> until_cursor s' q = until_cursor s q" and "until_cursor s' p \<noteq> None"
    and "distinct (map cur_project (scope_cursors (us_scope s')))"
  shows "admissions_ok s'"
proof -
  let ?h = "\<lambda>a. if P a then promote now who n a else a"
  have ids: "map ad_id (us_admissions s') = map ad_id (us_admissions s)"
    by (rule rewrite_keys(2)[OF assms(3)]) (simp add: ad_key_def promote_def)
  have app: "(\<exists>b\<in>set (us_admissions s). P b \<and> a = promote now who n b) \<or> a \<in> set (us_admissions s) \<and> ad_project a \<noteq> p"
    if "a \<in> set (us_admissions s')" "ad_status a = ''APPROVED''" for a
    using that assms(2,3) by (auto simp: approved_plan_None split: if_splits)
  have one: "b = b'" if "b \<in> set (us_admissions s)" "b' \<in> set (us_admissions s)" "P b" "P b'" for b b'
    using that assms(1) assms(4)[of b] assms(4)[of b'] by (auto simp: admissions_ok_def distinct_map inj_on_def)
  have pr: "ad_project (promote now who n b) = ad_project b" "runs s' (promote now who n b) = runs s' b" for b
    by (simp_all add: promote_def runs_def)
  have "runs s' a" if a: "a \<in> set (us_admissions s')" "ad_status a = ''APPROVED''" for a
    using app[OF a]
  proof (elim disjE bexE conjE)
    fix b assume "b \<in> set (us_admissions s)" "P b" "a = promote now who n b"
    then show ?thesis using assms(4) by (simp add: pr(2))
  next
    assume "a \<in> set (us_admissions s)" "ad_project a \<noteq> p"
    then show ?thesis using assms(1,5) a(2) by (simp add: admissions_ok_def runs_def)
  qed
  moreover have "b = a" if "a \<in> set (us_admissions s')" "ad_status a = ''APPROVED''" "b \<in> set (us_admissions s')"
    "ad_status b = ''APPROVED''" "ad_project b = ad_project a" for a b
    using app[OF that(1,2)] app[OF that(3,4)] one that(2,4,5) assms(1,4) pr unfolding admissions_ok_def by metis
  moreover have "until_cursor s' (ad_project a) \<noteq> None" if "a \<in> set (us_admissions s')" for a
    using that assms(1,3,5,6) pr(1) unfolding admissions_ok_def by (cases "ad_project a = p") (auto split: if_splits)
  ultimately show ?thesis using assms(1,7) ids unfolding admissions_ok_def by metis
qed

text \<open>The ways \<open>insert_or_get_admission\<close> changes the store.\<close>

lemma insert_or_getE:
  assumes "insert_or_get_admission rt s p g order status pred who now u = (s', res)"
  obtains (unchanged) "s' = s"
  | (inserted) digest where "s' = s\<lparr>us_admissions := us_admissions s @ [new_admission s p g digest status pred who now u]\<rparr>"
      "\<not> admission_conflict s (new_admission s p g digest status pred who now u)"
  | (promoted) x w n digest where "status = ''APPROVED''" "approved_plan s p = None"
      "admission_for_identity s p (plan_identity g) (plan_version g) digest = Some x"
      "s' = update_admissions s (promotable (ad_id x)) (promote now w n)"
proof (cases "status \<notin> set PLAN_ADMISSION_STATUSES \<or> (\<exists>e. validate_plan rt g order = Inl e)")
  case True
  then show thesis using assms unchanged by (auto simp: insert_or_get_admission_def split: if_splits)
next
  case False
  then obtain digest where v: "validate_plan rt g order = Inr digest" "status \<in> set PLAN_ADMISSION_STATUSES"
    by (cases "validate_plan rt g order") auto
  show thesis
  proof (cases "admission_for_identity s p (plan_identity g) (plan_version g) digest")
    case None
    then show thesis using assms v unchanged inserted by (auto simp: insert_or_get_admission_def Let_def split: if_splits)
  next
    case (Some x)
    note run = assms[unfolded insert_or_get_admission_def v(1) Some sum.case option.case]
    show thesis
    proof (cases "status = ''APPROVED'' \<and> ad_status x \<noteq> ''APPROVED''")
      case False
      then show thesis using run v(2) unchanged by (auto split: if_splits)
    next
      case True
      then have app: "status = ''APPROVED''" and ex: "approve_existing s p x who now = (s', res)" using run v(2) by simp_all
      show thesis
      proof (cases "list_ex (promotable (ad_id x)) (us_admissions s)")
        case True
        let ?n = "cursor_revision_of s p + 1"
        let ?s = "update_admissions s (promotable (ad_id x)) (promote now (opt_default who ''operator'') ?n)"
        have "approve_existing s p x who now = (if approved_plan s p \<noteq> None \<or> ?n < 0 then (s, Inl (Until_Db IntegrityError))
          else (?s, case admission_by_id ?s (ad_id x) of Some a \<Rightarrow> Inr (admission_from_row a) | None \<Rightarrow> Inl (Until_Db AssertionError)))"
          using True by (simp add: approve_existing_def Let_def)
        then have "s' = s \<or> approved_plan s p = None \<and> s' = ?s" using ex by (metis prod.inject)
        then show thesis using unchanged promoted[OF _ _ Some] app by blast
      next
        case False
        then have "map (\<lambda>a. if promotable (ad_id x) a then f a else a) (us_admissions s) = us_admissions s" for f
          by (intro map_idI) (auto simp: list_ex_iff)
        then have "update_admissions s (promotable (ad_id x)) f = s" for f by (simp add: update_admissions_def)
        then show thesis using ex False unchanged by (auto simp: approve_existing_def Let_def)
      qed
    qed
  qed
qed

lemma new_admission_simps [simp]:
  "ad_project (new_admission s p g d st pred who now u) = p" "ad_plan (new_admission s p g d st pred who now u) = plan_identity g"
  "ad_version (new_admission s p g d st pred who now u) = plan_version g" "ad_status (new_admission s p g d st pred who now u) = st"
  by (simp_all add: new_admission_def)

lemma present_ok:
  assumes "admissions_ok s" and "present_successor rt s p g order pred now u = (s', res)"
  shows "admissions_ok s' \<and> until_moves s s'"
proof (cases "\<exists>cur. present_refusal s p g pred = Inr cur")
  case False
  then show ?thesis using assms moves_refl by (cases "present_refusal s p g pred") (auto simp: present_successor_def)
next
  case True
  then obtain cur where cur: "present_refusal s p g pred = Inr cur" by blast
  then have here: "until_cursor s p \<noteq> None" by (cases "until_cursor s p") (simp_all add: present_refusal_def)
  obtain res' where "insert_or_get_admission rt s p g order ''CANDIDATE'' (Some cur) None now u = (s', res')"
    using assms(2) cur by (auto simp: present_successor_def split: prod.splits sum.splits until_error.splits)
  then show ?thesis
  proof (cases rule: insert_or_getE)
    case unchanged
    then show ?thesis using assms(1) moves_refl by simp
  next
    case (inserted digest)
    have "admissions_ok s'" unfolding inserted(1) by (rule append_ok[OF assms(1) inserted(2)]) (use here in simp_all)
    moreover have "until_moves s s'"
      by (auto simp: until_moves_def inserted(1) until_cursor_def approved_plan_def find_append split: option.splits)
    ultimately show ?thesis by simp
  qed simp
qed

lemma moves_others:
  assumes "ad_key ` set (us_admissions s) \<subseteq> ad_key ` set (us_admissions s')"
    and "\<And>q c. until_cursor s q = Some c \<Longrightarrow> until_cursor s' q = Some c \<and> approved_plan s' q = approved_plan s q"
  shows "until_moves s s'"
  using assms by (auto simp: until_moves_def)

lemma start_ok:
  assumes "admissions_ok s" and "start rt s p g order rq now u1 u2 = (s', res)"
  shows "admissions_ok s' \<and> until_moves s s'"
proof (cases "s' = s")
  case True
  then show ?thesis using assms(1) moves_refl by simp
next
  case False
  let ?get = "get_or_create_cursor (us_scope s) p (opt_default (sr_run rq) (''run-until-stopped-'' @ take 12 u1)) UNTIL_STOPPED
    (plan_identity g) (plan_version g) True now"
  have none: "until_cursor s p = None" using assms(2) False
    by (auto simp: start_def split: option.splits sum.splits prod.splits)
  obtain sc r where g: "?get = (sc, r)" by fastforce
  have "\<not> (\<exists>e. r = Inl e)"
    using False assms(2) none g by (auto simp: start_def get_or_create_cursor_def Let_def split: option.splits sum.splits prod.splits if_splits)
  then obtain c where c: "?get = (sc, Inr c)" using g by (cases r) auto
  note st = get_or_create_cursor_store[OF c]
  let ?s1 = "s\<lparr>us_scope := sc\<rparr>"
  have ext: "until_cursor ?s1 = (until_cursor s)(p \<mapsto> c)" using st(2) by (auto simp: until_cursor_def fun_eq_iff)
  have plan: "cur_plan c = plan_identity g" "cur_plan_version c = plan_version g"
    using c none by (auto simp: get_or_create_cursor_def until_cursor_def Let_def new_cursor_def split: if_splits)
  have nop: "ad_project a \<noteq> p" if "a \<in> set (us_admissions s)" for a using assms(1) that none by (auto simp: admissions_ok_def)
  have ok1: "admissions_ok ?s1" using assms(1) nop st(5) unfolding admissions_ok_def runs_def ext by auto
  obtain res' where "insert_or_get_admission rt ?s1 p g order ''APPROVED'' None (Some (sr_approved_by rq)) now u2 = (s', res')"
    using assms(2) False none c by (auto simp: start_def split: option.splits sum.splits prod.splits)
  then show ?thesis
  proof (cases rule: insert_or_getE)
    case unchanged
    have "until_moves s ?s1" using none by (intro moves_others) (auto simp: ext approved_plan_def)
    then show ?thesis using ok1 unchanged by simp
  next
    case (inserted digest)
    have "admissions_ok s'" unfolding inserted(1) using plan
      by (intro append_ok[OF ok1 inserted(2)]) (simp_all add: runs_def ext)
    moreover have "until_moves s s'"
    proof (rule moves_others)
      fix q d assume "until_cursor s q = Some d"
      then have "q \<noteq> p" "until_cursor s' q = Some d" using none fun_cong[OF ext, of q] by (auto simp: inserted(1) until_cursor_def)
      then show "until_cursor s' q = Some d \<and> approved_plan s' q = approved_plan s q"
        by (simp add: inserted(1) approved_plan_def find_append split: option.splits)
    qed (auto simp: inserted(1))
    ultimately show ?thesis by simp
  next
    case (promoted x w n digest)
    then have "\<exists>a\<in>set (us_admissions s). ad_project a = p" using admission_for_identityD[OF promoted(3)] by auto
    then show ?thesis using nop by blast
  qed
qed

text \<open>The admissions an approval was read from are still there, under their identity.\<close>

definition approval_ok :: "until_store \<Rightarrow> string \<Rightarrow> plan_approval \<Rightarrow> bool" where
  "approval_ok s p ap \<longleftrightarrow> ad_project (ap_current ap) = p \<and> ad_project (ap_candidate ap) = p
     \<and> ad_key (ap_current ap) \<in> ad_key ` set (us_admissions s) \<and> ad_key (ap_candidate ap) \<in> ad_key ` set (us_admissions s)"

lemma approve_checkD:
  assumes "approve_check rt s p r order = Inr ap"
  shows "approval_ok s p ap"
proof -
  have "approved_plan s p = Some (ap_current ap)"
    using assms by (auto simp: approve_check_def split: option.splits if_splits sum.splits prod.splits)
  moreover obtain i n d where "admission_for_identity s p i n d = Some (ap_candidate ap)"
    using assms by (auto simp: approve_check_def split: option.splits if_splits sum.splits prod.splits)
  ultimately show ?thesis by (auto simp: approval_ok_def dest!: approved_planD admission_for_identityD)
qed

text \<open>The row of an admission that was read earlier.\<close>

lemma row_of_key:
  assumes "admissions_ok s" and "ad_key x \<in> ad_key ` set (us_admissions s)" and "a \<in> set (us_admissions s)" and "ad_id a = ad_id x"
  shows "ad_key a = ad_key x"
proof -
  obtain b where b: "b \<in> set (us_admissions s)" "ad_key b = ad_key x" using assms(2) by (metis imageE)
  then have "ad_id b = ad_id a" using assms(4) by (simp add: ad_key_def)
  then show ?thesis using b assms(1,3) by (auto simp: admissions_ok_def distinct_map inj_on_def)
qed

lemma approve_commitE:
  assumes "approve_commit s p ap who now = (s', res)"
  obtains (unchanged) "s' = s"
  | (approved) sc where "approved_plan (supersede s (ap_current ap)) p = None"
      "update_cursor_cas (us_scope s) p (successor_cursor (ap_cursor ap) (ap_candidate ap)) (cur_revision (ap_cursor ap)) now = (sc, True)"
      "s' = (update_admissions (supersede s (ap_current ap)) (has_status (ad_id (ap_candidate ap)) ''CANDIDATE'')
        (promote now who (cur_revision (ap_cursor ap) + 1)))\<lparr>us_scope := sc\<rparr>"
proof -
  let ?s1 = "supersede s (ap_current ap)"
  let ?s2 = "update_admissions ?s1 (has_status (ad_id (ap_candidate ap)) ''CANDIDATE'') (promote now who (cur_revision (ap_cursor ap) + 1))"
  have scope: "us_scope ?s2 = us_scope s" by (simp add: update_admissions_def supersede_def)
  obtain sc ok where u: "update_cursor_cas (us_scope s) p (successor_cursor (ap_cursor ap) (ap_candidate ap)) (cur_revision (ap_cursor ap)) now = (sc, ok)"
    by fastforce
  have "s' = s \<or> approved_plan ?s1 p = None \<and> ok \<and> s' = ?s2\<lparr>us_scope := sc\<rparr>"
    using assms unfolding approve_commit_def Let_def scope u by (simp split: if_splits)
  then show thesis
  proof (elim disjE conjE)
    assume "s' = s"
    then show thesis by (rule unchanged)
  next
    assume a: "approved_plan ?s1 p = None" ok "s' = ?s2\<lparr>us_scope := sc\<rparr>"
    then show thesis using u approved[OF a(1) _ a(3)] by simp
  qed
qed

lemma approve_ok:
  assumes "admissions_ok s" and "approval_ok s p ap" and "approve_commit s p ap who now = (s', res)"
  shows "admissions_ok s' \<and> until_moves s s'"
  using assms(3)
proof (cases rule: approve_commitE)
  case unchanged
  then show ?thesis using assms(1) moves_refl by simp
next
  case (approved sc)
  let ?c = "ap_cursor ap" and ?a = "ap_candidate ap"
  let ?s1 = "supersede s (ap_current ap)"
  let ?P = "has_status (ad_id ?a) ''CANDIDATE''"
  let ?f = "promote now who (cur_revision ?c + 1)"
  let ?sup = "\<lambda>a. if has_status (ad_id (ap_current ap)) ''APPROVED'' a then a\<lparr>ad_status := ''SUPERSEDED''\<rparr> else a"
  let ?h = "\<lambda>a. if ?P (?sup a) then ?f (?sup a) else ?sup a"
  have ok1: "admissions_ok ?s1" by (rule supersede_ok[OF assms(1)])
  have rows: "us_admissions ?s1 = map ?sup (us_admissions s)" "us_admissions s' = map (\<lambda>a. if ?P a then ?f a else a) (us_admissions ?s1)"
    "us_scope ?s1 = us_scope s" "us_scope s' = sc"
    by (simp_all add: approved(3) supersede_def update_admissions_def)
  have dist: "distinct (map cur_project (scope_cursors (us_scope s)))" using assms(1) by (simp add: admissions_ok_def)
  note cas = update_cursor_cas_store[OF approved(2) dist]
  obtain q where q: "find_cursor (us_scope s) p = Some q" "cur_revision q = cur_revision ?c"
    "\<forall>p'. find_cursor sc p' = (if p' = p then Some (cas_row (successor_cursor ?c ?a) (cur_revision ?c) now q) else find_cursor (us_scope s) p')"
    using cas(4) by blast
  then have cur: "until_cursor s' = (until_cursor s)(p \<mapsto> cas_row (successor_cursor ?c ?a) (cur_revision ?c) now q)"
    "until_cursor ?s1 = until_cursor s"
    by (auto simp: until_cursor_def rows fun_eq_iff)
  have key1: "ad_key ` set (us_admissions ?s1) = ad_key ` set (us_admissions s)"
    by (rule rewrite_keys(1)[OF rows(1)]) (simp add: ad_key_def)
  have cand: "ad_id a = ad_id ?a \<and> ad_project a = p \<and> runs s' a" if a: "a \<in> set (us_admissions ?s1)" "?P a" for a
  proof -
    have "ad_key a = ad_key ?a"
      using a assms(2) by (intro row_of_key[OF ok1 _ a(1)]) (auto simp: has_status_def approval_ok_def key1)
    then show ?thesis using assms(2) cur(1) by (simp add: ad_key_def approval_ok_def runs_def cas_row_def successor_cursor_def)
  qed
  have "admissions_ok s'"
    by (rule promote_ok[OF ok1 approved(1) rows(2) cand]) (use cur cas(3) rows(4) in simp_all)
  moreover have "until_moves s s'"
  proof -
    have h: "us_admissions s' = map ?h (us_admissions s)" "\<And>a. ad_key (?h a) = ad_key a"
      by (simp_all add: rows(1,2) ad_key_def promote_def)
    have "?h a = a" if "a \<in> set (us_admissions s)" "ad_project a \<noteq> p" for a
    proof -
      have "ad_key a \<noteq> ad_key (ap_current ap)" "ad_key a \<noteq> ad_key ?a" using that(2) assms(2) by (auto simp: ad_key_def approval_ok_def)
      then have "ad_id a \<noteq> ad_id (ap_current ap)" "ad_id a \<noteq> ad_id ?a"
        using row_of_key[OF assms(1) _ that(1)] assms(2) by (auto simp: approval_ok_def)
      then show ?thesis by (simp add: has_status_def)
    qed
    then have "approved_plan s' x = approved_plan s x" if "x \<noteq> p" for x
      using that by (intro approved_plan_rewrite[OF h(1) h(2)]) auto
    moreover have "ad_key ` set (us_admissions s') = ad_key ` set (us_admissions s)" by (rule rewrite_keys(1)[OF h])
    ultimately show ?thesis using q(1,2) cur(1) by (auto simp: until_moves_def until_cursor_def)
  qed
  ultimately show ?thesis by simp
qed

section \<open>The machine\<close>

text \<open>Workers hold decisions they have not checkpointed yet and operators approvals they have read but not committed.\<close>

record pending_tick =
  pt_project :: string
  pt_cursor :: scope_cursor
  pt_choice :: tick_choice

record pending_approval =
  pa_project :: string
  pa_approval :: plan_approval

record until_machine =
  um_store :: until_store
  um_ticks :: "pending_tick list"
  um_approvals :: "pending_approval list"

inductive until_step :: "runtime \<Rightarrow> until_machine \<Rightarrow> until_machine \<Rightarrow> bool" for rt :: runtime where
  do_start: "start rt (um_store s) p g order rq now u1 u2 = (s', res) \<Longrightarrow> until_step rt s (s\<lparr>um_store := s'\<rparr>)"
| do_present: "present_successor rt (um_store s) p g order pred now u = (s', res) \<Longrightarrow> until_step rt s (s\<lparr>um_store := s'\<rparr>)"
| do_decide: "until_cursor (um_store s) p = Some c \<Longrightarrow> decide rt (um_store s) p c inp = Inr (Checkpoint ch) \<Longrightarrow>
    until_step rt s (s\<lparr>um_ticks := \<lparr>pt_project = p, pt_cursor = c, pt_choice = ch\<rparr> # um_ticks s\<rparr>)"
| do_checkpoint: "h \<in> set (um_ticks s) \<Longrightarrow> finish_tick (um_store s) (pt_project h) (pt_cursor h) (pt_choice h) now = (s', res) \<Longrightarrow>
    until_step rt s (s\<lparr>um_store := s'\<rparr>)"
| do_read_approval: "approve_check rt (um_store s) p r order = Inr ap \<Longrightarrow>
    until_step rt s (s\<lparr>um_approvals := \<lparr>pa_project = p, pa_approval = ap\<rparr> # um_approvals s\<rparr>)"
| do_approve: "h \<in> set (um_approvals s) \<Longrightarrow> approve_commit (um_store s) (pa_project h) (pa_approval h) who now = (s', res) \<Longrightarrow>
    until_step rt s (s\<lparr>um_store := s'\<rparr>)"
| do_stop: "until_stop (um_store s) p expected reason actor now u1 u2 = (s', res) \<Longrightarrow> until_step rt s (s\<lparr>um_store := s'\<rparr>)"
| do_resume: "until_resume (um_store s) p expected new_run actor now u = (s', res) \<Longrightarrow> until_step rt s (s\<lparr>um_store := s'\<rparr>)"

definition until_init :: "until_machine \<Rightarrow> bool" where
  "until_init s \<longleftrightarrow> scope_cursors (us_scope (um_store s)) = [] \<and> us_admissions (um_store s) = [] \<and> um_ticks s = [] \<and> um_approvals s = []"

text \<open>A decision to launch was made on a running scope under a plan.\<close>

definition launch_ok :: "scope_cursor \<Rightarrow> tick_choice \<Rightarrow> bool" where
  "launch_ok c ch \<longleftrightarrow> (action (tc_decision ch) = LAUNCH_TASK \<longrightarrow> running c \<and> tc_plan ch \<noteq> None)"

definition until_inv :: "until_machine \<Rightarrow> bool" where
  "until_inv s \<longleftrightarrow> admissions_ok (um_store s) \<and> (\<forall>h\<in>set (um_ticks s). held_ok (um_store s) (pt_project h) (pt_cursor h) (pt_choice h))
     \<and> (\<forall>h\<in>set (um_ticks s). launch_ok (pt_cursor h) (pt_choice h))
     \<and> (\<forall>h\<in>set (um_approvals s). approval_ok (um_store s) (pa_project h) (pa_approval h))"

lemma held_moves: "held_ok s p c ch \<Longrightarrow> until_moves s s' \<Longrightarrow> held_ok s' p c ch"
proof -
  assume h: "held_ok s p c ch" and m: "until_moves s s'"
  obtain r where r: "until_cursor s p = Some r" "cur_revision c \<le> cur_revision r"
    "cur_revision c = cur_revision r \<longrightarrow> c = r \<and> (\<forall>a. tc_plan ch = Some a \<longrightarrow> approved_plan s p = Some a)"
    using h unfolding held_ok_def by blast
  then obtain r' where r': "until_cursor s' p = Some r'" "r' = r \<and> approved_plan s' p = approved_plan s p \<or> cur_revision r' = cur_revision r + 1"
    using m unfolding until_moves_def by blast
  from r'(2) show "held_ok s' p c ch"
  proof
    assume "r' = r \<and> approved_plan s' p = approved_plan s p"
    then show ?thesis using r r'(1) by (metis held_ok_def)
  next
    assume "cur_revision r' = cur_revision r + 1"
    then have "cur_revision c < cur_revision r'" using r(2) by simp
    then show ?thesis using r'(1) by (simp add: held_ok_def)
  qed
qed

lemma approval_moves: "approval_ok s p ap \<Longrightarrow> until_moves s s' \<Longrightarrow> approval_ok s' p ap"
  by (auto simp: approval_ok_def until_moves_def)

lemma inv_store_step:
  assumes "until_inv s" and "admissions_ok s' \<and> until_moves (um_store s) s'"
  shows "until_inv (s\<lparr>um_store := s'\<rparr>)"
  using assms held_moves[of "um_store s" _ _ _ s'] approval_moves[of "um_store s" _ _ s'] by (simp add: until_inv_def)

lemma decide_tc_plan:
  assumes "decide rt s p c inp = Inr (Checkpoint ch)" and "tc_plan ch = Some a"
  shows "approved_plan s p = Some a"
proof -
  have plan: "tc_plan ch = Some b" if "decide_plan rt g c b inp = Checkpoint ch" for g b
    using that by (auto simp: decide_plan_def checkpoint_def wait_for_plan_def split: if_splits option.splits sum.splits)
  show ?thesis using assms by (auto simp: decide_def wait_for_plan_def answer_def Let_def split: if_splits option.splits dest!: plan)
qed

lemma decide_launch_ok: "decide rt s p c inp = Inr (Checkpoint ch) \<Longrightarrow> launch_ok c ch"
  unfolding launch_ok_def by (metis decide_Some decide_plan_launch option.distinct(1))

interpretation until_machine: inductive_invariant until_init "until_step rt" until_inv for rt
proof
  show "until_inv s" if "until_init s" for s
    using that by (simp add: until_init_def until_inv_def admissions_ok_def)
  show "until_inv t" if inv: "until_inv s" and st: "until_step rt s t" for s t
    using st
  proof cases
    case (do_start p g order rq now u1 u2 s' res)
    then show ?thesis using inv start_ok[of "um_store s"] inv_store_step[OF inv] by (simp add: until_inv_def)
  next
    case (do_present p g order pred now u s' res)
    then show ?thesis using inv present_ok[of "um_store s"] inv_store_step[OF inv] by (simp add: until_inv_def)
  next
    case (do_decide p c inp ch)
    have "held_ok (um_store s) p c ch" using do_decide(2) decide_tc_plan[OF do_decide(3)] by (simp add: held_ok_def)
    then show ?thesis using inv do_decide(1) decide_launch_ok[OF do_decide(3)] by (simp add: until_inv_def)
  next
    case (do_checkpoint h now s' res)
    obtain res' where "persist_decision (um_store s) (pt_project h) (pt_cursor h) (pt_choice h) now = (s', res')"
      using do_checkpoint(3) by (auto simp: finish_tick_def split: prod.splits sum.splits)
    then have "admissions_ok s' \<and> until_moves (um_store s) s'" by (rule persist_ok) (use inv do_checkpoint(2) in \<open>auto simp: until_inv_def\<close>)
    then show ?thesis using inv_store_step[OF inv] do_checkpoint(1) by simp
  next
    case (do_read_approval p r order ap)
    then show ?thesis using inv approve_checkD by (simp add: until_inv_def)
  next
    case (do_approve h who now s' res)
    have "admissions_ok s' \<and> until_moves (um_store s) s'"
      using inv do_approve(2) by (intro approve_ok[OF _ _ do_approve(3)]) (auto simp: until_inv_def)
    then show ?thesis using inv_store_step[OF inv] do_approve(1) by simp
  next
    case (do_stop p expected reason actor now u1 u2 s' res)
    then show ?thesis using inv stop_ok[of "um_store s"] inv_store_step[OF inv] by (simp add: until_inv_def)
  next
    case (do_resume p expected new_run actor now u s' res)
    then show ?thesis using inv resume_ok[of "um_store s"] inv_store_step[OF inv] by (simp add: until_inv_def)
  qed
qed

text \<open>C12: In every interleaving of starts, presented and approved successors, decisions, checkpoints, STOPs and resumes, a project has at most one approved plan, and
  the plan its cursor runs is that one.\<close>

theorem one_approved_plan:
  assumes "reachable until_init (until_step rt) s" and "a \<in> set (us_admissions (um_store s))" and "ad_status a = ''APPROVED''"
  shows "(\<exists>c. until_cursor (um_store s) (ad_project a) = Some c \<and> cur_plan c = ad_plan a \<and> cur_plan_version c = ad_version a)
    \<and> (b \<in> set (us_admissions (um_store s)) \<and> ad_status b = ''APPROVED'' \<and> ad_project b = ad_project a \<longrightarrow> b = a)"
proof -
  have "admissions_ok (um_store s)" using until_machine.inv_reachable[OF assms(1)] by (simp add: until_inv_def)
  then show ?thesis using assms(2,3) by (simp add: admissions_ok_def runs_def)
qed

text \<open>C16: A decision takes effect only under the plan it was made for: when a worker's decision, taken at any earlier time, changes the store, the
  cursor is still the one it was decided on and the approved plan still the one it names; a launch among them runs on an
  explicitly selected scope that is neither stopped nor waiting.\<close>

theorem checkpoint_under_current_plan:
  assumes "reachable until_init (until_step rt) s" and "h \<in> set (um_ticks s)"
    and "finish_tick (um_store s) (pt_project h) (pt_cursor h) (pt_choice h) now = (s', res)" and "s' \<noteq> um_store s"
  shows "until_cursor (um_store s) (pt_project h) = Some (pt_cursor h)
    \<and> (tc_plan (pt_choice h) = Some a \<longrightarrow> approved_plan (um_store s) (pt_project h) = Some a \<and> approved_plan s' (pt_project h) = Some a)
    \<and> (action (tc_decision (pt_choice h)) = LAUNCH_TASK \<longrightarrow> running (pt_cursor h) \<and> approved_plan (um_store s) (pt_project h) = tc_plan (pt_choice h))
    \<and> (\<exists>q. until_cursor s' (pt_project h) = Some q \<and> cur_revision q = cur_revision (pt_cursor h) + 1 \<and> cur_epoch q = cur_epoch (pt_cursor h))"
proof -
  note inv = until_machine.inv_reachable[OF assms(1), unfolded until_inv_def]
  obtain res' where p: "persist_decision (um_store s) (pt_project h) (pt_cursor h) (pt_choice h) now = (s', res')"
    using assms(3) by (auto simp: finish_tick_def split: prod.splits sum.splits)
  moreover have "admissions_ok (um_store s)" "held_ok (um_store s) (pt_project h) (pt_cursor h) (pt_choice h)"
    and launch: "launch_ok (pt_cursor h) (pt_choice h)"
    using inv assms(2) by simp_all
  ultimately show ?thesis
  proof (cases rule: persistE)
    case stored
    then show ?thesis using approved_plan_cong[OF stored(4)] launch
      by (auto simp: launch_ok_def cas_row_def persisted_cursor_def Let_def split: prod.splits)
  qed (use assms(4) in simp)
qed

section \<open>Examples\<close>

text \<open>A plan whose task B is listed by no milestone, started on an empty store.\<close>

definition unlisted_plan :: plan_graph where
  "unlisted_plan = \<lparr>plan_identity = ''plan:v1'', plan_version = 1,
     milestones = [\<lparr>milestone_id = ''M1'', gate_id = ''G1'', milestone_dependencies = [], milestone_task_ids = [''A'']\<rparr>],
     tasks = [\<lparr>task_id = ''A'', task_milestone_id = ''M1'', task_dependencies = [], is_gate = False,
         requires_manual_approval = False, requires_policy_approval = False\<rparr>,
       \<lparr>task_id = ''B'', task_milestone_id = ''M1'', task_dependencies = [], is_gate = False,
         requires_manual_approval = False, requires_policy_approval = False\<rparr>],
     plan_digest = None\<rparr>"

definition empty_until :: until_store where
  "empty_until = \<lparr>us_scope = \<lparr>scope_cursors = [], stop_fences = [], launch_outbox = None, send_intents = None, audit_events = None\<rparr>,
     us_admissions = []\<rparr>"

definition sample_start :: start_request where
  "sample_start = \<lparr>sr_run = Some ''run-1'', sr_scope = Some ''UNTIL_STOPPED'', sr_readiness = True, sr_plan_approved = True,
     sr_approved_by = ''op''\<rparr>"

definition sample_until_cursor :: scope_cursor where
  "sample_until_cursor = new_cursor ''p'' ''run-1'' UNTIL_STOPPED ''plan:v1'' 1 True 0"

definition sample_admission :: admission_row where
  "sample_admission = \<lparr>ad_id = ''admission-p-u'', ad_project = ''p'', ad_plan = ''plan:v1'', ad_version = 1,
     ad_digest = computed_plan_digest sample_runtime unlisted_plan, ad_status = ''APPROVED'', ad_pred_plan = None, ad_pred_version = None,
     ad_pred_digest = None, ad_approved_at = Some 0, ad_approved_by = Some ''op'', ad_created_at = 0, ad_revision = 1,
     ad_document = canonical_document unlisted_plan\<rparr>"

definition started :: until_store where
  "started = \<lparr>us_scope = (us_scope empty_until)\<lparr>scope_cursors := [sample_until_cursor]\<rparr>, us_admissions = [sample_admission]\<rparr>"

definition tick_input_of :: "statuses \<Rightarrow> statuses \<Rightarrow> until_input" where
  "tick_input_of st gates = \<lparr>ui_plan = Some unlisted_plan, ui_order = [''A'', ''B''], ui_statuses = st, ui_gates = gates, ui_manual = [],
     ui_policy = [], ui_manual_pause = False, ui_policy_pause = False, ui_blocker = False, ui_blocker_reason = [], ui_stop = False\<rparr>"

lemma unlisted_valid: "validate_plan sample_runtime unlisted_plan [''A'', ''B''] = Inr (computed_plan_digest sample_runtime unlisted_plan)"
proof -
  have "validate_graph unlisted_plan [''A'', ''B''] = Some (True, ''valid'')"
    by (simp add: validate_graph_def unlisted_plan_def broken_reference_def broken_dependency_def task_ids_def dependencies_of_def
        get_task_def eval_nat_numeral)
  then show ?thesis by (simp add: validate_plan_def canonical_plan_digest_def) (simp add: unlisted_plan_def)
qed

lemma sample_started:
  "start sample_runtime empty_until ''p'' unlisted_plan [''A'', ''B''] sample_start 0 ''r'' ''u'' = (started, Inr sample_until_cursor)"
proof -
  have r: "start_refusal sample_start = None" by (simp add: start_refusal_def sample_start_def scope_of_value_def)
  have p: "plan_identity unlisted_plan = ''plan:v1''" "plan_version unlisted_plan = 1" by (simp_all add: unlisted_plan_def)
  show ?thesis
    by (simp add: start_def r unlisted_valid p)
      (simp add: insert_or_get_admission_def unlisted_valid opt_default_def empty_until_def started_def sample_start_def get_or_create_cursor_def until_cursor_def find_cursor_def
        sample_until_cursor_def PLAN_ADMISSION_STATUSES_def admission_for_identity_def admission_conflict_def approved_plan_def
        new_admission_def cursor_revision_of_def new_cursor_def sample_admission_def p Let_def)
qed

lemma sample_current_plan: "until_cursor started ''p'' = Some sample_until_cursor" "approved_plan started ''p'' = Some (admission_from_row sample_admission)"
  "distinct (map cur_project (scope_cursors (us_scope started)))" "running sample_until_cursor"
  by (simp_all add: until_cursor_def started_def find_cursor_def sample_until_cursor_def new_cursor_def approved_plan_def sample_admission_def
      running_def is_stopped_def waiting_for_plan_def)

lemma sample_under_plan: "under_plan sample_runtime unlisted_plan sample_until_cursor (admission_from_row sample_admission) (tick_input_of st gates)"
  by (simp add: under_plan_def tick_input_of_def unlisted_valid)
    (simp add: sample_admission_def unlisted_plan_def sample_until_cursor_def new_cursor_def)

lemma sample_decides:
  "\<exists>ch. decide sample_runtime started ''p'' sample_until_cursor (tick_input_of [] []) = Inr (Checkpoint ch)
     \<and> action (tc_decision ch) = LAUNCH_TASK \<and> tc_plan ch = Some (admission_from_row sample_admission) \<and> \<not> tc_exhausted ch"
proof -
  let ?i = "tick_input_of [] []"
  have u: "upper ''NOT_STARTED'' = ''NOT_STARTED''" "upper ''NOT_REACHED'' = ''NOT_REACHED''"
    by (simp_all add: upper_def upper_char_def code_def)
  have "\<not> plan_is_exhausted unlisted_plan [] []"
    by (simp add: plan_is_exhausted_def unlisted_plan_def task_done_def task_status_def UNTIL_TERMINAL_STATUSES_def u)
  moreover obtain d where d: "select_work unlisted_plan sample_until_cursor ?i [] (milestones unlisted_plan) = Some d" "action (fst d) = LAUNCH_TASK"
    by (simp add: unlisted_plan_def milestone_choice_def tick_input_of_def task_done_def task_status_def u UNTIL_TERMINAL_STATUSES_def
        BLOCKED_TASK_STATUSES_def task_choice_def get_task_def)
  ultimately have "decide_plan sample_runtime unlisted_plan sample_until_cursor (admission_from_row sample_admission) ?i
      = checkpoint d (admission_from_row sample_admission)"
    using sample_under_plan[of "[]" "[]"] by (simp add: decide_plan_def under_plan_def tick_input_of_def)
  then show ?thesis using sample_current_plan(2,4) d(2) by (simp add: decide_def running_def tick_input_of_def checkpoint_def)
qed

lemma sample_launch:
  "\<exists>s' r. until_tick sample_runtime started ''p'' (tick_input_of [] []) 1 [] [] = (s', Inr r) \<and> action (ur_decision r) = LAUNCH_TASK"
proof -
  obtain ch where ch: "decide sample_runtime started ''p'' sample_until_cursor (tick_input_of [] []) = Inr (Checkpoint ch)"
    "action (tc_decision ch) = LAUNCH_TASK" using sample_decides by blast
  obtain s' q where "persist_decision started ''p'' sample_until_cursor ch 1 = (s', Inr q)"
    using persist_current[OF sample_current_plan(1,3)] by blast
  moreover have "\<not> ui_stop (tick_input_of [] [])" by (simp add: tick_input_of_def)
  ultimately show ?thesis using ch by (simp add: tick_no_stop[OF _ sample_current_plan(1)] finish_tick_def)
qed

text \<open>C7 applied to the first tick of the started scope, which launches A.\<close>

theorem launches_next_legal_task_witness:
  "\<exists>s' r. until_tick sample_runtime started ''p'' (tick_input_of [] []) 1 [] [] = (s', Inr r) \<and> action (ur_decision r) = LAUNCH_TASK
     \<and> (\<exists>pre m post t tid g. next_legal_task g (tick_input_of [] []) pre m post t tid \<and> selected_task_id (ur_decision r) = Some tid)"
proof -
  obtain s' r where r: "until_tick sample_runtime started ''p'' (tick_input_of [] []) 1 [] [] = (s', Inr r)" "action (ur_decision r) = LAUNCH_TASK"
    using sample_launch by blast
  then show ?thesis using launches_next_legal_task[OF r] by (auto simp: tick_input_of_def) blast
qed

lemma sample_reachable:
  "reachable until_init (until_step sample_runtime) \<lparr>um_store = started, um_ticks = [], um_approvals = []\<rparr>"
proof -
  let ?s0 = "\<lparr>um_store = empty_until, um_ticks = [], um_approvals = []\<rparr>"
  have r0: "reachable until_init (until_step sample_runtime) ?s0" by (rule reach_init) (simp add: until_init_def empty_until_def)
  have s1: "until_step sample_runtime ?s0 \<lparr>um_store = started, um_ticks = [], um_approvals = []\<rparr>"
    using do_start[of sample_runtime ?s0 "''p''" unlisted_plan "[''A'', ''B'']" sample_start 0 "''r''" "''u''"] sample_started by simp
  show ?thesis by (rule reach_step[OF r0]) (rule s1)
qed

text \<open>C12 applied to the store after the start.\<close>

theorem one_approved_plan_witness:
  "\<exists>s c. reachable until_init (until_step sample_runtime) s \<and> us_admissions (um_store s) = [sample_admission]
     \<and> until_cursor (um_store s) ''p'' = Some c \<and> cur_plan c = ad_plan sample_admission"
proof -
  have "sample_admission \<in> set (us_admissions started)" "ad_status sample_admission = ''APPROVED''" "ad_project sample_admission = ''p''"
    by (simp_all add: started_def sample_admission_def)
  then show ?thesis using one_approved_plan[OF sample_reachable, of sample_admission] sample_reachable
    by (auto simp: started_def)
qed

text \<open>C16 applied to the launch of A, decided and checkpointed in two steps.\<close>

theorem checkpoint_under_current_plan_witness:
  "\<exists>s h s' res. reachable until_init (until_step sample_runtime) s \<and> h \<in> set (um_ticks s)
     \<and> finish_tick (um_store s) (pt_project h) (pt_cursor h) (pt_choice h) 1 = (s', res)
     \<and> approved_plan s' ''p'' = Some (admission_from_row sample_admission)"
proof -
  let ?s1 = "\<lparr>um_store = started, um_ticks = [], um_approvals = []\<rparr>"
  obtain ch where ch: "decide sample_runtime started ''p'' sample_until_cursor (tick_input_of [] []) = Inr (Checkpoint ch)"
    "action (tc_decision ch) = LAUNCH_TASK" "tc_plan ch = Some (admission_from_row sample_admission)" "\<not> tc_exhausted ch"
    using sample_decides by blast
  let ?h = "\<lparr>pt_project = ''p'', pt_cursor = sample_until_cursor, pt_choice = ch\<rparr>"
  let ?s2 = "\<lparr>um_store = started, um_ticks = [?h], um_approvals = []\<rparr>"
  have s2: "until_step sample_runtime ?s1 ?s2"
    using do_decide[of ?s1 "''p''" sample_until_cursor sample_runtime "tick_input_of [] []" ch] sample_current_plan(1) ch(1) by simp
  have r2: "reachable until_init (until_step sample_runtime) ?s2" by (rule reach_step[OF sample_reachable]) (rule s2)
  obtain s' res where f: "finish_tick started ''p'' sample_until_cursor ch 1 = (s', res)" by fastforce
  obtain s'' q where q: "persist_decision started ''p'' sample_until_cursor ch 1 = (s'', Inr q)"
    "same_checkpoint (persisted_cursor sample_until_cursor ch) q" using persist_current[OF sample_current_plan(1,3)] by blast
  have "s'' = s'" using f q(1) by (simp add: finish_tick_def)
  moreover have launch: "cur_disposition (persisted_cursor sample_until_cursor ch) = ''LAUNCH_TASK''"
    using ch(2,4) by (simp add: persisted_cursor_def Let_def split: prod.splits)
  then have "\<not> same_checkpoint sample_until_cursor (persisted_cursor sample_until_cursor ch)"
    by (simp add: same_checkpoint_def sample_until_cursor_def new_cursor_def)
  then have "until_cursor s'' ''p'' = Some q" using q(1)
    by (auto simp: persist_decision_def Let_def split: prod.splits if_splits option.splits)
  moreover have "cur_disposition q = ''LAUNCH_TASK''" using q(2) launch by (simp add: same_checkpoint_def)
  ultimately have "until_cursor s' ''p'' \<noteq> until_cursor started ''p''"
    using sample_current_plan(1) by (auto simp: sample_until_cursor_def new_cursor_def)
  then have "s' \<noteq> started" by blast
  then show ?thesis using checkpoint_under_current_plan[OF r2, of ?h 1 s' res "admission_from_row sample_admission"] f ch(3) r2
    by (intro exI[of _ ?s2] exI[of _ ?h] exI[of _ s'] exI[of _ res]) simp
qed

end
