(* ===== verification/Binding_Lifecycle.thy ===== *)
theory Binding_Lifecycle
  imports Py_Prelude "HOL-Library.Product_Lexorder"
begin

text \<open>
  Execution bindings, \<^verbatim>\<open>src/bdb_vnext/binding_lifecycle.py\<close>: the legal transitions of a binding, the invariants of an execution
  document and the reconciliation of several active bindings of one task. A binding is the record of the keys the code reads, an
  optional field a key that may be absent (texts are texts, as every writer of the document makes them); whatever else stands in the list of bindings
  is a value of its own. The dictionaries are changed in place: a binding is known by its index. Of a call that raises only the exception is kept.
\<close>

section \<open>Transitions\<close>

definition BINDING_STATUS_VALUES :: "string list" where
  "BINDING_STATUS_VALUES = [''ACTIVE'', ''ACCEPTED'', ''FAILED'', ''SUPERSEDED'']"

definition LEGAL_TRANSITIONS :: "(string \<times> string list) list" where
  "LEGAL_TRANSITIONS = [(''ACTIVE'', [''ACCEPTED'', ''FAILED'', ''SUPERSEDED'']), (''ACCEPTED'', []), (''FAILED'', []), (''SUPERSEDED'', [])]"

record binding_error =
  be_code :: string
  be_message :: string
  be_details :: pydict

definition quote :: "string \<Rightarrow> string" where
  "quote s = [char_of (39::nat)] @ s @ [char_of (39::nat)]"

text \<open>\<open>None\<close>: the transition is accepted.\<close>

definition validate_binding_transition :: "string \<Rightarrow> string \<Rightarrow> binding_error option" where
  "validate_binding_transition old new =
     (let fail = (\<lambda>rc msg. Some \<lparr>be_code = rc, be_message = msg,
            be_details = [(''current_status'', PStr old), (''new_status'', PStr new)]\<rparr>)
      in if old \<notin> set BINDING_STATUS_VALUES then fail ''binding_status_invalid'' (''current binding status '' @ quote old @ '' is unknown'')
         else if new \<notin> set BINDING_STATUS_VALUES then fail ''binding_status_invalid'' (''target binding status '' @ quote new @ '' is unknown'')
         else if old = new then None
         else if new \<notin> set (case map_of LEGAL_TRANSITIONS old of None \<Rightarrow> [] | Some xs \<Rightarrow> xs) then
           fail ''illegal_binding_transition'' (''illegal transition from '' @ quote old @ '' to '' @ quote new
             @ '' (terminal state cannot be mutated)'')
         else None)"

section \<open>Documents\<close>

record binding =
  bd_task :: "pyval option"
  bd_version :: "pyval option"
  bd_id :: "string option"
  bd_created :: "string option"
  bd_status :: "string option"
  bd_superseded :: bool
  bd_generation :: "pyval option"
  bd_finished :: "string option"

datatype binding_entry = Object binding | Other pyval

datatype bindings_value = Missing | Entries "binding_entry list" | Not_A_List pyval

record execution =
  ex_bindings :: bindings_value
  ex_current :: "string option"

definition binding_key :: "runtime \<Rightarrow> binding \<Rightarrow> string \<times> string" where
  "binding_key rt b = (case bd_task b of None \<Rightarrow> [] | Some v \<Rightarrow> py_str rt v, case bd_version b of None \<Rightarrow> [] | Some v \<Rightarrow> py_str rt v)"

definition is_active :: "binding \<Rightarrow> bool" where
  "is_active b \<longleftrightarrow> bd_status b = Some ''ACTIVE'' \<and> \<not> bd_superseded b"

fun task_groups :: "runtime \<Rightarrow> binding_entry list \<Rightarrow> (string \<times> string) list" where
  "task_groups rt [] = []"
| "task_groups rt (Object b # es) = binding_key rt b # filter (\<lambda>k. k \<noteq> binding_key rt b) (task_groups rt es)"
| "task_groups rt (Other v # es) = task_groups rt es"

text \<open>The bindings of a group with their indices, in the order of the list.\<close>

definition member :: "runtime \<Rightarrow> string \<times> string \<Rightarrow> nat \<times> binding_entry \<Rightarrow> (nat \<times> binding) option" where
  "member rt k x = (case snd x of Object b \<Rightarrow> if binding_key rt b = k then Some (fst x, b) else None | Other _ \<Rightarrow> None)"

definition members :: "runtime \<Rightarrow> binding_entry list \<Rightarrow> string \<times> string \<Rightarrow> (nat \<times> binding) list" where
  "members rt es k = List.map_filter (member rt k) (enumerate 0 es)"

section \<open>The invariants\<close>

definition generation_of :: "binding \<Rightarrow> py_error + int" where
  "generation_of b = (case bd_generation b of None \<Rightarrow> Inr 1 | Some v \<Rightarrow> py_int v)"

fun collect :: "(py_error + 'a) list \<Rightarrow> py_error + 'a list" where
  "collect [] = Inr []"
| "collect (Inl e # xs) = Inl e"
| "collect (Inr x # xs) = (case collect xs of Inl e \<Rightarrow> Inl e | Inr ys \<Rightarrow> Inr (x # ys))"

fun increasing :: "int list \<Rightarrow> bool" where
  "increasing [] = True"
| "increasing [x] = True"
| "increasing (x # y # zs) = (x < y \<and> increasing (y # zs))"

definition group_label :: "string \<times> string \<Rightarrow> string" where
  "group_label k = ''Task ('' @ fst k @ '', v='' @ snd k @ '')''"

definition ints_text :: "runtime \<Rightarrow> int list \<Rightarrow> string" where
  "ints_text rt xs = py_repr rt (PList (map PInt xs))"

definition active_errors :: "runtime \<Rightarrow> string \<times> string \<Rightarrow> binding list \<Rightarrow> string list" where
  "active_errors rt k bs =
     (let act = filter is_active bs in
      if length act > 1 then [group_label k @ '' has '' @ nat_str (length act) @ '' ACTIVE bindings: ''
        @ py_repr rt (PList (map (\<lambda>b. opt_pyval (bd_id b)) act))]
      else [])"

definition generation_errors :: "runtime \<Rightarrow> string \<times> string \<Rightarrow> binding list \<Rightarrow> py_error + string list" where
  "generation_errors rt k bs =
     (case collect (map generation_of (filter (\<lambda>b. bd_generation b \<noteq> None) bs)) of
        Inl e \<Rightarrow> Inl e
      | Inr [] \<Rightarrow> Inr []
      | Inr gens \<Rightarrow>
          (case collect (map generation_of bs) of
             Inl e \<Rightarrow> Inl e
           | Inr gs \<Rightarrow> Inr
               ((if list_ex (\<lambda>g. g < 1) gens then [group_label k @ '' has generation < 1: '' @ ints_text rt gens] else [])
                @ (if \<not> increasing gs then [group_label k @ '' generations not strictly increasing: '' @ ints_text rt gs] else []))))"

definition status_errors :: "binding \<Rightarrow> string list" where
  "status_errors b =
     (let st = (case bd_status b of None \<Rightarrow> ''ACTIVE'' | Some s \<Rightarrow> s); name = opt_str (bd_id b) in
      (if st \<notin> set BINDING_STATUS_VALUES then [''Binding '' @ name @ '' has invalid status '' @ quote st] else [])
      @ (if st = ''SUPERSEDED'' \<and> \<not> bd_superseded b then [''Binding '' @ name @ '' has status SUPERSEDED but superseded=False''] else []))"

definition group_errors :: "runtime \<Rightarrow> binding_entry list \<Rightarrow> string \<times> string \<Rightarrow> py_error + string list" where
  "group_errors rt es k =
     (let bs = map snd (members rt es k) in
      case generation_errors rt k bs of
        Inl e \<Rightarrow> Inl e
      | Inr gen \<Rightarrow> Inr (active_errors rt k bs @ gen @ concat (map status_errors bs)))"

definition entry_errors :: "binding_entry list \<Rightarrow> string list" where
  "entry_errors es = concat (map (\<lambda>(i, e). case e of Object _ \<Rightarrow> [] | Other _ \<Rightarrow> [''bindings['' @ nat_str i @ ''] is not an object'']) (enumerate 0 es))"

definition check_binding_lifecycle_invariants :: "runtime \<Rightarrow> execution \<Rightarrow> py_error + bool \<times> string list" where
  "check_binding_lifecycle_invariants rt ex =
     (case ex_bindings ex of
        Not_A_List _ \<Rightarrow> Inr (False, [''execution.bindings is not a list''])
      | Missing \<Rightarrow> Inr (True, [])
      | Entries es \<Rightarrow>
          (case collect (map (group_errors rt es) (task_groups rt es)) of
             Inl e \<Rightarrow> Inl e
           | Inr errs \<Rightarrow> (let all = entry_errors es @ concat errs in Inr (all = [], all))))"

section \<open>Reconciliation\<close>

definition sort_text :: "nat \<times> binding \<Rightarrow> string \<times> string" where
  "sort_text x = (case bd_created (snd x) of None \<Rightarrow> [] | Some t \<Rightarrow> t, case bd_id (snd x) of None \<Rightarrow> [] | Some t \<Rightarrow> t)"

text \<open>Generations in chronological order: one that is missing or smaller than its position becomes the position.\<close>

fun assign_generations :: "int \<Rightarrow> (nat \<times> binding) list \<Rightarrow> py_error + (nat \<times> binding) list" where
  "assign_generations n [] = Inr []"
| "assign_generations n ((i, b) # xs) =
     (case (if bd_generation b = None then Inr 0 else generation_of b) of
        Inl e \<Rightarrow> Inl e
      | Inr g \<Rightarrow>
          (case assign_generations (n + 1) xs of
             Inl e \<Rightarrow> Inl e
           | Inr ys \<Rightarrow> Inr ((i, if g < n then b\<lparr>bd_generation := Some (PInt n)\<rparr> else b) # ys)))"

definition superseded :: "string \<Rightarrow> binding \<Rightarrow> binding" where
  "superseded now b = b\<lparr>bd_status := Some ''SUPERSEDED'', bd_superseded := True,
     bd_finished := (if opt_true (bd_finished b) then bd_finished b else Some now)\<rparr>"

definition canonical_active :: "string option \<Rightarrow> (nat \<times> binding) list \<Rightarrow> nat" where
  "canonical_active cur act =
     (case (if opt_true cur then find (\<lambda>x. bd_id (snd x) = cur) act else None) of Some x \<Rightarrow> fst x | None \<Rightarrow> fst (last act))"

definition supersede_others :: "string \<Rightarrow> string option \<Rightarrow> (nat \<times> binding) list \<Rightarrow> (nat \<times> binding) list" where
  "supersede_others now cur xs =
     (let act = filter (\<lambda>x. is_active (snd x)) xs in
      if length act > 1 then map (\<lambda>(i, b). if is_active b \<and> i \<noteq> canonical_active cur act then (i, superseded now b) else (i, b)) xs
      else xs)"

definition write_back :: "binding_entry list \<Rightarrow> (nat \<times> binding) list \<Rightarrow> binding_entry list" where
  "write_back es xs = foldl (\<lambda>es (i, b). es[i := Object b]) es xs"

definition reconcile_group ::
    "runtime \<Rightarrow> string \<Rightarrow> string option \<Rightarrow> binding_entry list \<Rightarrow> string \<times> string \<Rightarrow> py_error + binding_entry list" where
  "reconcile_group rt now cur es k =
     (case assign_generations 1 (sort_key sort_text (members rt es k)) of
        Inl e \<Rightarrow> Inl e
      | Inr xs \<Rightarrow> Inr (write_back es (supersede_others now cur xs)))"

fun reconcile_groups ::
    "runtime \<Rightarrow> string \<Rightarrow> string option \<Rightarrow> binding_entry list \<Rightarrow> (string \<times> string) list \<Rightarrow> py_error + binding_entry list" where
  "reconcile_groups rt now cur es [] = Inr es"
| "reconcile_groups rt now cur es (k # ks) =
     (case reconcile_group rt now cur es k of Inl e \<Rightarrow> Inl e | Inr es' \<Rightarrow> reconcile_groups rt now cur es' ks)"

definition reconcile_execution_bindings :: "runtime \<Rightarrow> execution \<Rightarrow> string \<Rightarrow> py_error + execution" where
  "reconcile_execution_bindings rt ex now =
     (case ex_bindings ex of
        Entries es \<Rightarrow> (case reconcile_groups rt now (ex_current ex) es (task_groups rt es) of
          Inl e \<Rightarrow> Inl e | Inr es' \<Rightarrow> Inr (ex\<lparr>ex_bindings := Entries es'\<rparr>))
      | _ \<Rightarrow> Inr ex)"

section \<open>Groups under update\<close>

lemma member_in_members:
  "(i, b) \<in> set (members rt es k) \<longleftrightarrow> i < length es \<and> es ! i = Object b \<and> binding_key rt b = k"
proof -
  have "y \<in> set (List.map_filter f xs) \<longleftrightarrow> (\<exists>x\<in>set xs. f x = Some y)" for f :: "nat \<times> binding_entry \<Rightarrow> (nat \<times> binding) option" and xs y
    by (induction xs) (auto simp: map_filter_simps split: option.splits)
  moreover have "member rt k x = Some (i, b) \<longleftrightarrow> x = (i, Object b) \<and> binding_key rt b = k" for x
    by (cases x) (auto simp: member_def split: binding_entry.splits)
  ultimately show ?thesis by (auto simp: members_def in_set_enumerate_eq)
qed

lemma map_filter_fst: "map fst (List.map_filter (member rt k) xs) = map fst (filter (\<lambda>x. member rt k x \<noteq> None) xs)"
  by (induction xs) (auto simp: map_filter_def member_def split: binding_entry.splits if_splits)

lemma members_distinct: "distinct (map fst (members rt es k))"
proof -
  have "distinct (map fst (enumerate 0 es))" by simp
  then show ?thesis unfolding members_def map_filter_fst by (rule distinct_map_filter)
qed

lemma task_groups_members: "k \<in> set (task_groups rt es) \<longleftrightarrow> (\<exists>i b. i < length es \<and> es ! i = Object b \<and> binding_key rt b = k)"
proof -
  have "k \<in> set (task_groups rt es) \<longleftrightarrow> (\<exists>b. Object b \<in> set es \<and> binding_key rt b = k)"
    by (induction es rule: task_groups.induct) auto
  then show ?thesis by (metis in_set_conv_nth)
qed

lemma task_groups_distinct: "distinct (task_groups rt es)"
  by (induction rt es rule: task_groups.induct) auto

text \<open>The bindings written back stand at their indices, everything else stays.\<close>

lemma write_back_nth:
  assumes "distinct (map fst xs)" and "\<forall>x\<in>set xs. fst x < length es"
  shows "length (write_back es xs) = length es"
    "j < length es \<Longrightarrow> write_back es xs ! j = (case map_of xs j of Some b \<Rightarrow> Object b | None \<Rightarrow> es ! j)"
proof -
  have main: "length (write_back es xs) = length es \<and> (j < length es \<longrightarrow>
      write_back es xs ! j = (case map_of xs j of Some b \<Rightarrow> Object b | None \<Rightarrow> es ! j))"
    using assms
  proof (induction xs arbitrary: es)
    case (Cons x xs)
    obtain i b where x: "x = (i, b)" by fastforce
    have "map_of xs i = None" using Cons.prems(1) x by (auto simp: map_of_eq_None_iff)
    then show ?case using Cons.IH[of "es[i := Object b]"] Cons.prems x
      by (auto simp: write_back_def nth_list_update split: option.splits)
  qed (simp add: write_back_def)
  then show "length (write_back es xs) = length es"
    "j < length es \<Longrightarrow> write_back es xs ! j = (case map_of xs j of Some b \<Rightarrow> Object b | None \<Rightarrow> es ! j)" by simp_all
qed

text \<open>What reconciliation keeps of a binding: all but its generation and, when it is superseded, its end.\<close>

definition same_binding :: "binding \<Rightarrow> binding \<Rightarrow> bool" where
  "same_binding b b' \<longleftrightarrow> bd_task b' = bd_task b \<and> bd_version b' = bd_version b \<and> bd_id b' = bd_id b \<and> bd_created b' = bd_created b"

definition aligned :: "(nat \<times> binding) list \<Rightarrow> (nat \<times> binding) list \<Rightarrow> bool" where
  "aligned xs ys \<longleftrightarrow> list_all2 (\<lambda>x y. fst y = fst x \<and> same_binding (snd x) (snd y)) xs ys"

lemma assign_aligned: "assign_generations n xs = Inr ys \<Longrightarrow> aligned xs ys"
  by (induction n xs arbitrary: ys rule: assign_generations.induct)
    (auto simp: aligned_def same_binding_def split: sum.splits if_splits)

lemma supersede_aligned: "aligned xs (supersede_others now cur xs)"
  by (auto simp: aligned_def supersede_others_def list_all2_conv_all_nth same_binding_def superseded_def Let_def split: prod.splits)

lemma aligned_trans: "aligned xs ys \<Longrightarrow> aligned ys zs \<Longrightarrow> aligned xs zs"
  by (auto simp: aligned_def list_all2_conv_all_nth same_binding_def)

lemma aligned_fst: "aligned xs ys \<Longrightarrow> map fst ys = map fst xs"
  by (auto simp: aligned_def list_all2_conv_all_nth intro: nth_equalityI)

lemma same_binding_key: "same_binding b b' \<Longrightarrow> binding_key rt b' = binding_key rt b"
  by (simp add: same_binding_def binding_key_def)

lemma aligned_in:
  assumes "aligned xs ys" and "(i, b') \<in> set ys"
  obtains b where "(i, b) \<in> set xs" "same_binding b b'"
  using assms by (auto simp: aligned_def list_all2_conv_all_nth in_set_conv_nth) (metis fst_conv prod.collapse snd_conv)

text \<open>One group written back.\<close>

lemma reconcile_groupE:
  assumes "reconcile_group rt now cur es k = Inr es'"
  obtains xs ys where "xs = sort_key sort_text (members rt es k)" "assign_generations 1 xs = Inr ys" "aligned xs (supersede_others now cur ys)"
    "es' = write_back es (supersede_others now cur ys)" "distinct (map fst (supersede_others now cur ys))"
    "\<forall>x\<in>set (supersede_others now cur ys). fst x < length es"
proof -
  let ?xs = "sort_key sort_text (members rt es k)"
  obtain ys where ys: "assign_generations 1 ?xs = Inr ys" "es' = write_back es (supersede_others now cur ys)"
    using assms by (auto simp: reconcile_group_def split: sum.splits)
  have al: "aligned ?xs (supersede_others now cur ys)" by (rule aligned_trans[OF assign_aligned[OF ys(1)] supersede_aligned])
  have "distinct (map fst ?xs)" using members_distinct[of rt es k] by (simp add: distinct_map inj_on_def) 
  moreover have "fst x < length es" if "x \<in> set ?xs" for x using that member_in_members[of "fst x" "snd x" rt es k] by simp
  ultimately show thesis using that[OF refl ys(1) al ys(2)] aligned_fst[OF al]
    by (metis (no_types, lifting) in_set_conv_nth length_map nth_map)
qed

text \<open>The group after it was written back, and the rest, which stays.\<close>

lemma reconcile_group_nth:
  assumes "aligned (sort_key sort_text (members rt es k)) zs" and "distinct (map fst zs)" and "\<forall>x\<in>set zs. fst x < length es" and "i < length es"
  shows "\<And>d. map_of zs i = Some d \<Longrightarrow> write_back es zs ! i = Object d \<and> binding_key rt d = k \<and> (\<exists>b. es ! i = Object b \<and> binding_key rt b = k \<and> same_binding b d)"
    "map_of zs i = None \<Longrightarrow> write_back es zs ! i = es ! i"
    "\<And>b. es ! i = Object b \<Longrightarrow> binding_key rt b = k \<Longrightarrow> map_of zs i \<noteq> None"
proof -
  note w = write_back_nth(2)[OF assms(2,3,4)]
  show "write_back es zs ! i = Object d \<and> binding_key rt d = k \<and> (\<exists>b. es ! i = Object b \<and> binding_key rt b = k \<and> same_binding b d)"
    if d: "map_of zs i = Some d" for d
  proof -
    obtain b where b: "(i, b) \<in> set (sort_key sort_text (members rt es k))" "same_binding b d"
      using aligned_in[OF assms(1) map_of_SomeD[OF d]] by blast
    then show ?thesis using w d by (auto simp: member_in_members same_binding_key)
  qed
  show "map_of zs i = None \<Longrightarrow> write_back es zs ! i = es ! i" using w by simp
  show "map_of zs i \<noteq> None" if "es ! i = Object b" "binding_key rt b = k" for b
  proof -
    have "(i, b) \<in> set (sort_key sort_text (members rt es k))" using that assms(4) by (simp add: member_in_members)
    then have "i \<in> fst ` set (sort_key sort_text (members rt es k))" by (rule rev_image_eqI) simp
    then have "i \<in> set (map fst zs)" using aligned_fst[OF assms(1)] by (metis image_set)
    then show ?thesis by (simp add: map_of_eq_None_iff)
  qed
qed

lemma reconcile_group_others:
  assumes "reconcile_group rt now cur es k = Inr es'"
  shows "length es' = length es"
    "i < length es \<Longrightarrow> (\<And>b. es ! i = Object b \<Longrightarrow> binding_key rt b \<noteq> k) \<Longrightarrow> es' ! i = es ! i"
    "i < length es \<Longrightarrow> es ! i = Object b \<Longrightarrow> binding_key rt b = k \<Longrightarrow> \<exists>b'. es' ! i = Object b' \<and> binding_key rt b' = k \<and> same_binding b b'"
proof -
  obtain xs ys where r: "xs = sort_key sort_text (members rt es k)" "assign_generations 1 xs = Inr ys" "aligned xs (supersede_others now cur ys)"
    "es' = write_back es (supersede_others now cur ys)" "distinct (map fst (supersede_others now cur ys))"
    "\<forall>x\<in>set (supersede_others now cur ys). fst x < length es"
    using assms by (rule reconcile_groupE)
  note nth = reconcile_group_nth[OF r(3)[unfolded r(1)] r(5,6)]
  show "length es' = length es" using write_back_nth(1)[OF r(5,6)] r(4) by simp
  show "es' ! i = es ! i" if "i < length es" "\<And>b. es ! i = Object b \<Longrightarrow> binding_key rt b \<noteq> k"
    using nth(1,2)[OF that(1)] that(2) r(4) by (metis option.exhaust)
  show "\<exists>b'. es' ! i = Object b' \<and> binding_key rt b' = k \<and> same_binding b b'" if "i < length es" "es ! i = Object b" "binding_key rt b = k"
    using nth(1,3)[OF that(1)] that(2,3) r(4) by (metis binding_entry.inject(1) option.exhaust)
qed

section \<open>At most one active binding\<close>

lemma supersede_one_active:
  assumes "(i, b) \<in> set (supersede_others now cur ys)" "(j, d) \<in> set (supersede_others now cur ys)" "is_active b" "is_active d"
    and "distinct (map fst ys)"
  shows "i = j"
proof (cases "length (filter (\<lambda>x. is_active (snd x)) ys) > 1")
  case True
  have "x = canonical_active cur (filter (\<lambda>x. is_active (snd x)) ys)" if "(x, e) \<in> set (supersede_others now cur ys)" "is_active e" for x e
    using that True by (auto simp: supersede_others_def Let_def is_active_def superseded_def split: if_splits)
  then show ?thesis using assms by metis
next
  case False
  let ?act = "filter (\<lambda>x. is_active (snd x)) ys"
  have "(i, b) \<in> set ?act" "(j, d) \<in> set ?act" using assms(1-4) False by (simp_all add: supersede_others_def)
  moreover have "length ?act \<le> 1" using False by simp
  ultimately show ?thesis by (cases ?act) auto
qed

definition one_active :: "runtime \<Rightarrow> binding_entry list \<Rightarrow> string \<times> string \<Rightarrow> bool" where
  "one_active rt es k \<longleftrightarrow> (\<forall>i j b d. i < length es \<longrightarrow> j < length es \<longrightarrow> es ! i = Object b \<longrightarrow> es ! j = Object d
     \<longrightarrow> binding_key rt b = k \<longrightarrow> binding_key rt d = k \<longrightarrow> is_active b \<longrightarrow> is_active d \<longrightarrow> i = j)"

lemma reconcile_group_one_active:
  assumes "reconcile_group rt now cur es k = Inr es'"
  shows "one_active rt es' k"
  unfolding one_active_def
proof (intro allI impI)
  fix i j b d assume a: "i < length es'" "j < length es'" "es' ! i = Object b" "es' ! j = Object d" "binding_key rt b = k" "binding_key rt d = k"
    "is_active b" "is_active d"
  obtain xs ys where r: "xs = sort_key sort_text (members rt es k)" "assign_generations 1 xs = Inr ys" "aligned xs (supersede_others now cur ys)"
    "es' = write_back es (supersede_others now cur ys)" "distinct (map fst (supersede_others now cur ys))"
    "\<forall>x\<in>set (supersede_others now cur ys). fst x < length es"
    using assms by (rule reconcile_groupE)
  have len: "length es' = length es" by (rule reconcile_group_others(1)[OF assms])
  have in_zs: "(x, e) \<in> set (supersede_others now cur ys)" if "x < length es" "es' ! x = Object e" "binding_key rt e = k" for x e
    using reconcile_group_nth[OF r(3)[unfolded r(1)] r(5,6) that(1)] that(2,3) r(4)
    by (metis binding_entry.inject(1) map_of_SomeD option.exhaust)
  have "distinct (map fst ys)" using r(5) aligned_fst[OF supersede_aligned[of ys now cur]] by metis
  then show "i = j" using supersede_one_active[of i b now cur ys j d] in_zs a len by metis
qed

section \<open>Reconciling again\<close>

text \<open>A group that needs nothing: generations at least their positions and at most one active binding.\<close>

fun generations_ok :: "int \<Rightarrow> (nat \<times> binding) list \<Rightarrow> bool" where
  "generations_ok n [] = True"
| "generations_ok n ((i, b) # xs) = (bd_generation b \<noteq> None \<and> (case generation_of b of Inr g \<Rightarrow> n \<le> g | Inl _ \<Rightarrow> False)
     \<and> generations_ok (n + 1) xs)"

lemma assign_ok: "assign_generations n xs = Inr ys \<Longrightarrow> 1 \<le> n \<Longrightarrow> generations_ok n ys"
  by (induction n xs arbitrary: ys rule: assign_generations.induct)
    (auto simp: generation_of_def split: sum.splits if_splits)

lemma assign_id: "generations_ok n xs \<Longrightarrow> assign_generations n xs = Inr xs"
  by (induction n xs rule: generations_ok.induct) (auto split: sum.splits)

lemma generations_ok_cong:
  "generations_ok n xs \<Longrightarrow> list_all2 (\<lambda>x y. bd_generation (snd y) = bd_generation (snd x)) xs ys \<Longrightarrow> generations_ok n ys"
proof (induction n xs arbitrary: ys rule: generations_ok.induct)
  case (2 n i b xs)
  then show ?case by (cases ys) (auto simp: generation_of_def)
qed simp

lemma supersede_generations: "generations_ok n ys \<Longrightarrow> generations_ok n (supersede_others now cur ys)"
  by (erule generations_ok_cong)
    (auto simp: supersede_others_def list_all2_conv_all_nth superseded_def Let_def split: prod.splits)

lemma supersede_id:
  assumes "\<And>i b j d. (i, b) \<in> set xs \<Longrightarrow> (j, d) \<in> set xs \<Longrightarrow> is_active b \<Longrightarrow> is_active d \<Longrightarrow> i = j" and "distinct (map fst xs)"
  shows "supersede_others now cur xs = xs"
proof -
  let ?act = "filter (\<lambda>x. is_active (snd x)) xs"
  have "\<not> length ?act > 1"
  proof
    assume many: "length ?act > 1"
    obtain x ys where x: "?act = x # ys" using many by (cases ?act) auto
    obtain y zs where "ys = y # zs" using many x by (cases ys) auto
    then have act: "?act = x # y # zs" using x by simp
    have "x \<in> set ?act" "y \<in> set ?act" by (simp_all add: act)
    then have "fst x = fst y" using assms(1)[of "fst x" "snd x" "fst y" "snd y"] by simp
    moreover have "distinct (map fst ?act)" using assms(2) by (rule distinct_map_filter)
    ultimately show False by (simp add: act)
  qed
  then show ?thesis by (simp add: supersede_others_def)
qed

lemma insort_map: "(\<And>y. y \<in> insert x (set ys) \<Longrightarrow> f (h y) = f y) \<Longrightarrow> insort_key f (h x) (map h ys) = map h (insort_key f x ys)"
  by (induction ys) auto

lemma sort_key_map: "(\<And>x. x \<in> set xs \<Longrightarrow> f (h x) = f x) \<Longrightarrow> sort_key f (map h xs) = map h (sort_key f xs)"
proof (induction xs)
  case (Cons a xs)
  then show ?case using insort_map[of a "sort_key f xs" f h] by simp
qed simp

text \<open>The group by indices.\<close>

lemma members_alt: "members rt es k = List.map_filter (\<lambda>i. member rt k (i, es ! i)) [0..<length es]"
proof -
  have "enumerate 0 es = map (\<lambda>i. (i, es ! i)) [0..<length es]" by (rule nth_equalityI) (simp_all add: nth_enumerate_eq)
  moreover have "List.map_filter f (map g xs) = List.map_filter (\<lambda>i. f (g i)) xs" for f :: "nat \<times> binding_entry \<Rightarrow> (nat \<times> binding) option" and g and xs :: "nat list"
    by (induction xs) (auto simp: map_filter_simps split: option.splits)
  ultimately show ?thesis by (simp add: members_def)
qed

lemma map_filter_map_option: "(\<And>i. i \<in> set is \<Longrightarrow> g i = map_option h (f i)) \<Longrightarrow> List.map_filter g is = map h (List.map_filter f is)"
  by (induction "is") (auto simp: map_filter_simps split: option.splits)

lemma members_kept:
  assumes "length es' = length es" and "\<And>i. i < length es \<Longrightarrow> es' ! i = es ! i \<or>
      (\<exists>b b'. es ! i = Object b \<and> es' ! i = Object b' \<and> binding_key rt b \<noteq> k \<and> binding_key rt b' \<noteq> k)"
  shows "members rt es' k = members rt es k"
proof -
  have "member rt k (i, es' ! i) = map_option id (member rt k (i, es ! i))" if "i < length es" for i
    using assms(2)[OF that] by (elim disjE exE conjE) (simp_all add: member_def option.map_id)
  then have "List.map_filter (\<lambda>i. member rt k (i, es' ! i)) [0..<length es] = map id (List.map_filter (\<lambda>i. member rt k (i, es ! i)) [0..<length es])"
    by (intro map_filter_map_option) simp
  then show ?thesis by (simp add: members_alt assms(1))
qed

definition group_clean :: "runtime \<Rightarrow> binding_entry list \<Rightarrow> string \<times> string \<Rightarrow> bool" where
  "group_clean rt es k \<longleftrightarrow> generations_ok 1 (sort_key sort_text (members rt es k)) \<and> one_active rt es k"

lemma clean_group_unchanged:
  assumes "group_clean rt es k"
  shows "reconcile_group rt now cur es k = Inr es"
proof -
  let ?xs = "sort_key sort_text (members rt es k)"
  have mem: "(i, b) \<in> set ?xs \<longleftrightarrow> i < length es \<and> es ! i = Object b \<and> binding_key rt b = k" for i b by (simp add: member_in_members)
  have dist: "distinct (map fst ?xs)" using members_distinct[of rt es k] by (simp add: distinct_map inj_on_def)
  have "supersede_others now cur ?xs = ?xs"
    by (rule supersede_id[OF _ dist]) (use assms mem in \<open>auto simp: group_clean_def one_active_def\<close>)
  moreover have "write_back es ?xs = es"
  proof -
    have len: "\<forall>x\<in>set ?xs. fst x < length es" using mem by (metis prod.collapse)
    show ?thesis
    proof (rule nth_equalityI)
      show "length (write_back es ?xs) = length es" by (rule write_back_nth(1)[OF dist len])
      fix i assume "i < length (write_back es ?xs)"
      then have i: "i < length es" using write_back_nth(1)[OF dist len] by simp
      show "write_back es ?xs ! i = es ! i"
        using write_back_nth(2)[OF dist len i] mem by (auto split: option.splits dest!: map_of_SomeD)
    qed
  qed
  ultimately show ?thesis using assign_id assms by (simp add: reconcile_group_def group_clean_def)
qed

lemma reconcile_group_clean:
  assumes "reconcile_group rt now cur es k = Inr es'"
  shows "group_clean rt es' k"
proof -
  obtain xs ys where r: "xs = sort_key sort_text (members rt es k)" "assign_generations 1 xs = Inr ys" "aligned xs (supersede_others now cur ys)"
    "es' = write_back es (supersede_others now cur ys)" "distinct (map fst (supersede_others now cur ys))"
    "\<forall>x\<in>set (supersede_others now cur ys). fst x < length es"
    using assms by (rule reconcile_groupE)
  let ?zs = "supersede_others now cur ys"
  let ?h = "\<lambda>x. (fst x, case es' ! fst x of Object b \<Rightarrow> b | Other _ \<Rightarrow> snd x)"
  note others = reconcile_group_others[OF assms]
  have "member rt k (i, es' ! i) = map_option ?h (member rt k (i, es ! i))" if i: "i < length es" for i
  proof (cases "member rt k (i, es ! i)")
    case None
    then have "es' ! i = es ! i" using others(2)[OF i] by (auto simp: member_def split: binding_entry.splits if_splits)
    then show ?thesis using None by simp
  next
    case (Some x)
    then obtain b where "es ! i = Object b" "binding_key rt b = k" "x = (i, b)" by (auto simp: member_def split: binding_entry.splits if_splits)
    then show ?thesis using others(3)[OF i, of b] Some by (auto simp: member_def)
  qed
  then have m: "members rt es' k = map ?h (members rt es k)"
    unfolding members_alt others(1) by (intro map_filter_map_option) simp
  have "sort_text (?h x) = sort_text x" if "x \<in> set (members rt es k)" for x
    using that others(3)[of "fst x" "snd x"] member_in_members[of "fst x" "snd x" rt es k]
    by (auto simp: sort_text_def same_binding_def)
  then have "sort_key sort_text (members rt es' k) = map ?h xs" unfolding m r(1) by (rule sort_key_map)
  also have "map ?h xs = ?zs"
  proof (rule nth_equalityI)
    show len: "length (map ?h xs) = length ?zs" using r(3) by (simp add: aligned_def list_all2_lengthD)
    fix j assume j: "j < length (map ?h xs)"
    then have f: "fst (xs ! j) = fst (?zs ! j)" using r(3) by (simp add: aligned_def list_all2_conv_all_nth)
    have in_zs: "?zs ! j \<in> set ?zs" using j len by simp
    then have "map_of ?zs (fst (?zs ! j)) = Some (snd (?zs ! j))" using r(5) by (metis map_of_is_SomeI prod.collapse)
    then have "es' ! fst (?zs ! j) = Object (snd (?zs ! j))"
      using write_back_nth(2)[OF r(5,6)] r(4,6) in_zs by simp
    then show "map ?h xs ! j = ?zs ! j" using j f by (simp add: prod_eq_iff)
  qed
  finally have "generations_ok 1 (sort_key sort_text (members rt es' k))"
    using supersede_generations[OF assign_ok[OF r(2)]] by simp
  then show ?thesis using reconcile_group_one_active[OF assms] by (simp add: group_clean_def)
qed

text \<open>Groups do not touch each other.\<close>

lemma reconcile_group_keeps:
  assumes "reconcile_group rt now cur es k = Inr es'" and "k' \<noteq> k"
  shows "members rt es' k' = members rt es k'" "group_clean rt es k' \<Longrightarrow> group_clean rt es' k'"
proof -
  note others = reconcile_group_others[OF assms(1)]
  show m: "members rt es' k' = members rt es k'"
  proof (rule members_kept[OF others(1)])
    fix i assume i: "i < length es"
    show "es' ! i = es ! i \<or> (\<exists>b b'. es ! i = Object b \<and> es' ! i = Object b' \<and> binding_key rt b \<noteq> k' \<and> binding_key rt b' \<noteq> k')"
      using others(2,3)[OF i] assms(2) by metis
  qed
  have "one_active rt es' k'" if "one_active rt es k'"
    using that m member_in_members unfolding one_active_def by metis
  then show "group_clean rt es k' \<Longrightarrow> group_clean rt es' k'" by (simp add: group_clean_def m)
qed

lemma reconcile_groups_clean:
  assumes "reconcile_groups rt now cur es ks = Inr es'"
  shows "k \<in> set ks \<or> group_clean rt es k \<Longrightarrow> group_clean rt es' k" "length es' = length es"
    "i < length es \<Longrightarrow> es ! i = Object b \<Longrightarrow> \<exists>b'. es' ! i = Object b' \<and> same_binding b b'"
    "i < length es \<Longrightarrow> es ! i = Other v \<Longrightarrow> es' ! i = Other v"
proof -
  have "(k \<in> set ks \<or> group_clean rt es k \<longrightarrow> group_clean rt es' k) \<and> length es' = length es
      \<and> (i < length es \<longrightarrow> (\<forall>b. es ! i = Object b \<longrightarrow> (\<exists>b'. es' ! i = Object b' \<and> same_binding b b')) \<and> (es ! i = Other v \<longrightarrow> es' ! i = Other v))"
    using assms
  proof (induction ks arbitrary: es)
    case Nil
    then show ?case by (auto simp: same_binding_def)
  next
    case (Cons x ks)
    then obtain e1 where e1: "reconcile_group rt now cur es x = Inr e1" "reconcile_groups rt now cur e1 ks = Inr es'"
      by (auto split: sum.splits)
    note ih = Cons.IH[OF e1(2)] and others = reconcile_group_others[OF e1(1)]
    have first: "group_clean rt e1 k" if "k = x \<or> group_clean rt es k"
      using that reconcile_group_clean[OF e1(1)] reconcile_group_keeps(2)[OF e1(1), of k] by (cases "k = x") auto
    show ?case
    proof (intro conjI impI allI)
      assume "k \<in> set (x # ks) \<or> group_clean rt es k"
      then show "group_clean rt es' k" using first ih by auto
    next
      show "length es' = length es" using ih others(1) by simp
    next
      fix b assume i: "i < length es" "es ! i = Object b"
      then obtain c where c: "e1 ! i = Object c" "same_binding b c"
        using others(2,3)[OF i(1)] by (cases "binding_key rt b = x") (auto simp: same_binding_def)
      then obtain b' where "es' ! i = Object b'" "same_binding c b'" using ih others(1) i(1) by auto
      then show "\<exists>b'. es' ! i = Object b' \<and> same_binding b b'" using c(2) by (simp add: same_binding_def)
    next
      assume i: "i < length es" "es ! i = Other v"
      then have "e1 ! i = Other v" using others(2)[OF i(1)] by simp
      then show "es' ! i = Other v" using ih others(1) i(1) by simp
    qed
  qed
  then show "k \<in> set ks \<or> group_clean rt es k \<Longrightarrow> group_clean rt es' k" "length es' = length es"
    "i < length es \<Longrightarrow> es ! i = Object b \<Longrightarrow> \<exists>b'. es' ! i = Object b' \<and> same_binding b b'"
    "i < length es \<Longrightarrow> es ! i = Other v \<Longrightarrow> es' ! i = Other v" by auto
qed

lemma reconciled_clean:
  assumes "reconcile_groups rt now cur es (task_groups rt es) = Inr es'" and "i < length es'" and "es' ! i = Object b"
  shows "group_clean rt es' (binding_key rt b)"
proof -
  note clean = reconcile_groups_clean[OF assms(1)]
  obtain a where "es ! i = Object a" "same_binding a b"
    using assms(2,3) clean(2) clean(3)[of i] clean(4)[of i] by (cases "es ! i") fastforce+
  then have "binding_key rt b \<in> set (task_groups rt es)" using assms(2) clean(2) by (metis same_binding_key task_groups_members)
  then show ?thesis using clean(1) by simp
qed

lemma clean_groups_unchanged: "(\<And>k. k \<in> set ks \<Longrightarrow> group_clean rt es k) \<Longrightarrow> reconcile_groups rt now cur es ks = Inr es"
  by (induction ks) (simp_all add: clean_group_unchanged)

text \<open>C31: Reconciliation leaves at most one active binding of a task and plan version, whatever the document held, and keeps every binding at its place with its task, version,
  identifier and creation time.\<close>

theorem reconciled_one_active:
  assumes "reconcile_execution_bindings rt (ex\<lparr>ex_bindings := Entries es\<rparr>) now = Inr ex'"
  shows "\<exists>es'. ex_bindings ex' = Entries es' \<and> length es' = length es
    \<and> (\<forall>i<length es. \<forall>b. es ! i = Object b \<longrightarrow> (\<exists>b'. es' ! i = Object b' \<and> same_binding b b'))
    \<and> (\<forall>i<length es'. \<forall>j<length es'. \<forall>b d. es' ! i = Object b \<longrightarrow> es' ! j = Object d \<longrightarrow> is_active b \<longrightarrow> is_active d
        \<longrightarrow> binding_key rt b = binding_key rt d \<longrightarrow> i = j)"
proof -
  obtain es' where r: "reconcile_groups rt now (ex_current ex) es (task_groups rt es) = Inr es'" "ex_bindings ex' = Entries es'"
    using assms by (auto simp: reconcile_execution_bindings_def split: sum.splits)
  note clean = reconcile_groups_clean[OF r(1)]
  have one: "one_active rt es' (binding_key rt b)" if "i < length es'" "es' ! i = Object b" for i b
    using reconciled_clean[OF r(1) that] by (simp add: group_clean_def)
  show ?thesis
  proof (intro exI[of _ es'] conjI allI impI)
    fix i j b d assume a: "i < length es'" "j < length es'" "es' ! i = Object b" "es' ! j = Object d" "is_active b" "is_active d"
      "binding_key rt b = binding_key rt d"
    have "binding_key rt d = binding_key rt b" using a(7) by simp
    then show "i = j" using one[OF a(1,3), unfolded one_active_def, rule_format, OF a(1-4) refl _ a(5,6)] by blast
  qed (use r(2) clean(2,3) in simp_all)
qed

text \<open>Reconciliation is idempotent: a reconciled document is a fixed point, at any later time.\<close>

lemma reconcile_idempotent:
  assumes "reconcile_execution_bindings rt ex now = Inr ex'"
  shows "reconcile_execution_bindings rt ex' now' = Inr ex'"
proof (cases "ex_bindings ex")
  case (Entries es)
  then obtain es' where r: "reconcile_groups rt now (ex_current ex) es (task_groups rt es) = Inr es'" "ex' = ex\<lparr>ex_bindings := Entries es'\<rparr>"
    using assms by (auto simp: reconcile_execution_bindings_def split: sum.splits)
  have "group_clean rt es' k" if "k \<in> set (task_groups rt es')" for k
    using that[unfolded task_groups_members] reconciled_clean[OF r(1)] by blast
  then have "reconcile_groups rt now' (ex_current ex) es' (task_groups rt es') = Inr es'" by (intro clean_groups_unchanged)
  then show ?thesis by (simp add: r(2) reconcile_execution_bindings_def)
qed (use assms in \<open>auto simp: reconcile_execution_bindings_def\<close>)

section \<open>Examples\<close>

definition sample_binding :: "string \<Rightarrow> string \<Rightarrow> int \<Rightarrow> binding" where
  "sample_binding i tm n = \<lparr>bd_task = Some (PStr ''T1''), bd_version = Some (PInt 1), bd_id = Some i, bd_created = Some tm,
     bd_status = Some ''ACTIVE'', bd_superseded = False, bd_generation = Some (PInt n), bd_finished = None\<rparr>"

definition two_active :: "int \<Rightarrow> int \<Rightarrow> execution" where
  "two_active m n = \<lparr>ex_bindings = Entries [Object (sample_binding ''b1'' ''t1'' m), Object (sample_binding ''b2'' ''t2'' n)], ex_current = None\<rparr>"

lemma sample_reconciled:
  "1 \<le> m \<Longrightarrow> 2 \<le> n \<Longrightarrow> reconcile_execution_bindings sample_runtime (two_active m n) ''t3''
     = Inr \<lparr>ex_bindings = Entries [Object (superseded ''t3'' (sample_binding ''b1'' ''t1'' m)), Object (sample_binding ''b2'' ''t2'' n)], ex_current = None\<rparr>"
  by (simp add: reconcile_execution_bindings_def two_active_def sample_binding_def reconcile_group_def members_def member_def
      map_filter_simps binding_key_def py_str_def sort_text_def generation_of_def supersede_others_def is_active_def canonical_active_def
      superseded_def write_back_def eval_nat_numeral)

text \<open>C31 applied to two active bindings of one task.\<close>

theorem reconciled_one_active_witness:
  "\<exists>ex' es'. reconcile_execution_bindings sample_runtime (two_active 1 2) ''t3'' = Inr ex' \<and> ex_bindings ex' = Entries es' \<and> length es' = 2"
proof -
  let ?es = "[Object (sample_binding ''b1'' ''t1'' 1), Object (sample_binding ''b2'' ''t2'' 2)]"
  obtain ex' where r: "reconcile_execution_bindings sample_runtime (two_active 1 2) ''t3'' = Inr ex'" using sample_reconciled by simp
  have "two_active 1 2 = (two_active 1 2)\<lparr>ex_bindings := Entries ?es\<rparr>" by (simp add: two_active_def)
  then have "reconcile_execution_bindings sample_runtime ((two_active 1 2)\<lparr>ex_bindings := Entries ?es\<rparr>) ''t3'' = Inr ex'" using r by metis
  then obtain es' where "ex_bindings ex' = Entries es'" "length es' = length ?es" using reconciled_one_active by blast
  then show ?thesis using r by auto
qed

text \<open>Reconciliation does not make generations monotonic, as its description says: two bindings whose generations are both at least their positions but not
  increasing keep them, and the document it returns fails the check of the invariants.\<close>

lemma reconciled_may_fail_invariants:
  assumes "2 \<le> n" and "n \<le> m"
  shows "\<exists>ex' errs. reconcile_execution_bindings sample_runtime (two_active m n) ''t3'' = Inr ex'
    \<and> check_binding_lifecycle_invariants sample_runtime ex' = Inr (False, errs) \<and> errs \<noteq> []"
proof -
  let ?ex = "\<lparr>ex_bindings = Entries [Object (superseded ''t3'' (sample_binding ''b1'' ''t1'' m)), Object (sample_binding ''b2'' ''t2'' n)], ex_current = None\<rparr>"
  have "reconcile_execution_bindings sample_runtime (two_active m n) ''t3'' = Inr ?ex" by (rule sample_reconciled) (use assms in simp_all)
  moreover have "\<exists>errs. check_binding_lifecycle_invariants sample_runtime ?ex = Inr (False, errs) \<and> errs \<noteq> []"
    using assms by (simp add: check_binding_lifecycle_invariants_def group_errors_def members_def member_def map_filter_simps
        sample_binding_def superseded_def binding_key_def py_str_def generation_errors_def generation_of_def)
  ultimately show ?thesis by blast
qed

end
