(* ===== verification/Local_Execution.thy ===== *)
theory Local_Execution
  imports Py_Prelude
begin

text \<open>
  The contracts of \<^verbatim>\<open>src/bdb_vnext/local_execution_contract.py\<close>: the execution request bound to the state of
  the sources, the bounded evidence of an output stream, the mechanical result, their digests and documents, and
  the registry of execution ids. A constructor runs \<open>__post_init__\<close>; here it is a function from the fields as
  given to the fields as stored, or to the error it raises. A tuple and a list are the same value \<open>PList\<close>.
\<close>

section \<open>Errors and services\<close>

datatype exec_error =
    ContractError string
  | KeyError string
  | PyError py_error

text \<open>SHA-256 of bytes and \<open>bytes.decode("utf-8", errors="replace")\<close>, whose text is a list of characters; a byte
  is a character.\<close>

type_synonym bytes = string

record output_services =
  sha256_bytes :: "bytes \<Rightarrow> 256 word"
  decode_replace :: "bytes \<Rightarrow> string"

definition sample_output_services :: output_services where
  "sample_output_services = \<lparr>sha256_bytes = (\<lambda>b. of_nat (length b)), decode_replace = (\<lambda>b. b)\<rparr>"

text \<open>The documented law of the decoder: every byte gives at most one character.\<close>

definition decoder_bounded :: "output_services \<Rightarrow> bool" where
  "decoder_bounded sv \<longleftrightarrow> (\<forall>b. length (decode_replace sv b) \<le> length b)"

definition sha_text :: "runtime \<Rightarrow> string \<Rightarrow> string" where
  "sha_text rt s = ''sha256:'' @ hexdigest (sha256 rt s)"

definition canonical_json :: "runtime \<Rightarrow> pydict \<Rightarrow> string" where
  "canonical_json rt d = json_dumps rt compact_json (PDict d)"

section \<open>Enumerations\<close>

datatype execution_mode = ARGV | SCRIPT

datatype execution_effect_class =
    READ_ONLY
  | SAFE_MUTATION
  | SAFE_PROJECT_LOCAL_MUTATION
  | PROJECT_MUTATION
  | SHARED_RESOURCE_MUTATION
  | NON_REPLAYABLE_MUTATION

datatype idempotency_class = IDEMPOTENT_REPLAYABLE | RECONCILE_ONLY | NON_REPLAYABLE

datatype stdin_policy = STDIN_DISABLED | STDIN_PIPE | STDIN_BUFFERED

datatype mechanical_status = STATUS_COMPLETED | STATUS_TIMED_OUT | STATUS_CANCELLED | STATUS_FAILED_TO_START | STATUS_CRASHED

fun mode_value :: "execution_mode \<Rightarrow> string" where
  "mode_value ARGV = ''ARGV''"
| "mode_value SCRIPT = ''SCRIPT''"

fun effect_value :: "execution_effect_class \<Rightarrow> string" where
  "effect_value READ_ONLY = ''READ_ONLY''"
| "effect_value SAFE_MUTATION = ''SAFE_MUTATION''"
| "effect_value SAFE_PROJECT_LOCAL_MUTATION = ''SAFE_PROJECT_LOCAL_MUTATION''"
| "effect_value PROJECT_MUTATION = ''PROJECT_MUTATION''"
| "effect_value SHARED_RESOURCE_MUTATION = ''SHARED_RESOURCE_MUTATION''"
| "effect_value NON_REPLAYABLE_MUTATION = ''NON_REPLAYABLE_MUTATION''"

fun idempotency_value :: "idempotency_class \<Rightarrow> string" where
  "idempotency_value IDEMPOTENT_REPLAYABLE = ''IDEMPOTENT_REPLAYABLE''"
| "idempotency_value RECONCILE_ONLY = ''RECONCILE_ONLY''"
| "idempotency_value NON_REPLAYABLE = ''NON_REPLAYABLE''"

fun stdin_value :: "stdin_policy \<Rightarrow> string" where
  "stdin_value STDIN_DISABLED = ''DISABLED''"
| "stdin_value STDIN_PIPE = ''PIPE''"
| "stdin_value STDIN_BUFFERED = ''BUFFERED''"

fun status_value :: "mechanical_status \<Rightarrow> string" where
  "status_value STATUS_COMPLETED = ''COMPLETED''"
| "status_value STATUS_TIMED_OUT = ''TIMED_OUT''"
| "status_value STATUS_CANCELLED = ''CANCELLED''"
| "status_value STATUS_FAILED_TO_START = ''FAILED_TO_START''"
| "status_value STATUS_CRASHED = ''CRASHED''"

definition all_modes :: "execution_mode list" where
  "all_modes = [ARGV, SCRIPT]"

definition all_effects :: "execution_effect_class list" where
  "all_effects = [READ_ONLY, SAFE_MUTATION, SAFE_PROJECT_LOCAL_MUTATION, PROJECT_MUTATION,
     SHARED_RESOURCE_MUTATION, NON_REPLAYABLE_MUTATION]"

definition all_idempotencies :: "idempotency_class list" where
  "all_idempotencies = [IDEMPOTENT_REPLAYABLE, RECONCILE_ONLY, NON_REPLAYABLE]"

definition all_stdin_policies :: "stdin_policy list" where
  "all_stdin_policies = [STDIN_DISABLED, STDIN_PIPE, STDIN_BUFFERED]"

definition all_statuses :: "mechanical_status list" where
  "all_statuses = [STATUS_COMPLETED, STATUS_TIMED_OUT, STATUS_CANCELLED, STATUS_FAILED_TO_START, STATUS_CRASHED]"

text \<open>\<open>EnumClass(v)\<close>: the member with that value, or \<open>ValueError\<close>.\<close>

definition enum_member :: "runtime \<Rightarrow> string \<Rightarrow> ('a \<Rightarrow> string) \<Rightarrow> 'a list \<Rightarrow> pyval \<Rightarrow> exec_error + 'a" where
  "enum_member rt cls val members v =
     (case find (\<lambda>m. v = PStr (val m)) members of
        Some m \<Rightarrow> Inr m
      | None \<Rightarrow> Inl (PyError (ValueError (py_repr rt v @ '' is not a valid '' @ cls))))"

definition KNOWN_ADAPTER_IDS :: "string list" where
  "KNOWN_ADAPTER_IDS = [''process.raw'', ''tool.pytest'', ''tool.npm'', ''tool.cargo'', ''shell.powershell'',
     ''tool.python'', ''tool.node'', ''adapter.test'']"

text \<open>The pattern of 40 lower-case hexadecimal digits.\<close>

definition hex40 :: "string \<Rightarrow> bool" where
  "hex40 s \<longleftrightarrow> length s = 40 \<and> list_all (\<lambda>c. 48 \<le> code c \<and> code c \<le> 57 \<or> 97 \<le> code c \<and> code c \<le> 102) s"

section \<open>Reading documents\<close>

text \<open>\<open>str(data[k])\<close>, \<open>str(data[k]) if data.get(k) is not None else None\<close>, \<open>str(data.get(k, default))\<close>.\<close>

definition need :: "pydict \<Rightarrow> string \<Rightarrow> exec_error + pyval" where
  "need d k = (case map_of d k of None \<Rightarrow> Inl (KeyError k) | Some v \<Rightarrow> Inr v)"

definition need_text :: "runtime \<Rightarrow> pydict \<Rightarrow> string \<Rightarrow> exec_error + string" where
  "need_text rt d k = (case need d k of Inl err \<Rightarrow> Inl err | Inr v \<Rightarrow> Inr (py_str rt v))"

definition maybe_text :: "runtime \<Rightarrow> pydict \<Rightarrow> string \<Rightarrow> string option" where
  "maybe_text rt d k = (case py_get d k of PNone \<Rightarrow> None | v \<Rightarrow> Some (py_str rt v))"

definition text_or :: "runtime \<Rightarrow> pydict \<Rightarrow> string \<Rightarrow> string \<Rightarrow> string" where
  "text_or rt d k s = py_str rt (py_get_default d k (PStr s))"

definition lift_py :: "py_error + 'a \<Rightarrow> exec_error + 'a" where
  "lift_py r = (case r of Inl err \<Rightarrow> Inl (PyError err) | Inr v \<Rightarrow> Inr v)"

definition need_int :: "pydict \<Rightarrow> string \<Rightarrow> exec_error + int" where
  "need_int d k = (case need d k of Inl err \<Rightarrow> Inl err | Inr v \<Rightarrow> lift_py (py_int v))"

text \<open>A number of the program: an integer or a float, each written in its own way.\<close>

datatype number = IntN int | FloatN rat

fun number_pyval :: "number \<Rightarrow> pyval" where
  "number_pyval (IntN n) = PInt n"
| "number_pyval (FloatN x) = PFloat x"

text \<open>\<open>float(n)\<close> of an integer: a double has 53 significant bits, so the bits in excess are rounded away, ties to the even
  neighbour; what does not stay below \<open>2^1024\<close> raises \<open>OverflowError\<close>.\<close>

fun excess_bits :: "nat \<Rightarrow> nat" where
  "excess_bits m = (if m < 2 ^ 53 then 0 else Suc (excess_bits (m div 2)))"

declare excess_bits.simps [simp del]

definition float_of_int :: "int \<Rightarrow> rat option" where
  "float_of_int n =
     (let e = excess_bits (nat \<bar>n\<bar>); v = round_half_even (of_int \<bar>n\<bar> / 2 ^ e) * 2 ^ e in
      if v < 2 ^ 1024 then Some (of_int (sgn n * v)) else None)"

fun number_float :: "number \<Rightarrow> rat" where
  "number_float (IntN n) = (case float_of_int n of Some x \<Rightarrow> x | None \<Rightarrow> of_int n)"
| "number_float (FloatN x) = x"

text \<open>\<open>int(x)\<close> cuts towards zero.\<close>

definition number_int :: "number \<Rightarrow> int" where
  "number_int x = (case py_int (number_pyval x) of Inr n \<Rightarrow> n | Inl _ \<Rightarrow> 0)"

text \<open>\<open>float(v)\<close> on the values of a document. Decimal text, which \<open>float\<close> would read, is taken as not a
  number: the program writes numbers there.\<close>

definition py_float :: "pyval \<Rightarrow> exec_error + number" where
  "py_float v = (case v of PStr s \<Rightarrow> Inl (PyError (ValueError (''could not convert string to float: '' @ repr_str s)))
     | PInt n \<Rightarrow> (case float_of_int n of Some x \<Rightarrow> Inr (FloatN x) | None \<Rightarrow> Inl (PyError OverflowError))
     | _ \<Rightarrow> (case as_number v of Some x \<Rightarrow> Inr (FloatN x) | None \<Rightarrow> Inl (PyError TypeError)))"

text \<open>\<open>dict(v)\<close> on the values of a document. A non-empty list of pairs, which \<open>dict\<close> would read, is taken as
  not an object: the program writes an object there.\<close>

definition py_dict :: "pyval \<Rightarrow> exec_error + pydict" where
  "py_dict v = (case v of PDict d \<Rightarrow> Inr d | PList [] \<Rightarrow> Inr [] | PStr [] \<Rightarrow> Inr []
     | PStr _ \<Rightarrow> Inl (PyError (ValueError ''dictionary update sequence element #0 has length 1; 2 is required''))
     | _ \<Rightarrow> Inl (PyError TypeError))"

section \<open>Output evidence\<close>

definition INLINE_OUTPUT_BYTE_LIMIT :: nat where
  "INLINE_OUTPUT_BYTE_LIMIT = 65536"

definition EVIDENCE_SCHEMA :: string where
  "EVIDENCE_SCHEMA = ''bdb-vnext-local-execution-evidence-v1''"

definition CONTRACT_VERSION :: string where
  "CONTRACT_VERSION = ''1.0.0''"

record evidence =
  ev_stream :: string
  ev_raw_byte_count :: int
  ev_content_digest :: string
  ev_is_truncated :: bool
  ev_inline_content :: "string option"
  ev_content_reference :: "string option"
  ev_schema :: string
  ev_version :: string

definition evidence_post_init :: "evidence \<Rightarrow> exec_error + evidence" where
  "evidence_post_init ev =
     (if ev_stream ev \<notin> {''stdout'', ''stderr''} then Inl (ContractError ''invalid_stream'')
      else if ev_raw_byte_count ev < 0 then Inl (ContractError ''invalid_byte_count'')
      else if \<not> starts_with ''sha256:'' (ev_content_digest ev) then Inl (ContractError ''invalid_digest'')
      else if ev_is_truncated ev \<and> \<not> opt_true (ev_content_reference ev) then Inl (ContractError ''missing_content_ref'')
      else Inr ev)"

definition from_bytes :: "output_services \<Rightarrow> string \<Rightarrow> bytes \<Rightarrow> nat \<Rightarrow> exec_error + evidence" where
  "from_bytes sv stream data limit =
     (let digest = ''sha256:'' @ hexdigest (sha256_bytes sv data);
          truncated = limit < length data
      in evidence_post_init \<lparr>ev_stream = stream, ev_raw_byte_count = int (length data), ev_content_digest = digest,
           ev_is_truncated = truncated,
           ev_inline_content =
             Some (if truncated then decode_replace sv (take limit data)
                   else if data \<noteq> [] then decode_replace sv data else []),
           ev_content_reference = (if truncated then Some (''cas:'' @ digest) else None),
           ev_schema = EVIDENCE_SCHEMA, ev_version = CONTRACT_VERSION\<rparr>)"

definition evidence_to_dict :: "evidence \<Rightarrow> pydict" where
  "evidence_to_dict ev =
     [(''schema'', PStr (ev_schema ev)), (''version'', PStr (ev_version ev)), (''stream'', PStr (ev_stream ev)),
      (''raw_byte_count'', PInt (ev_raw_byte_count ev)), (''content_digest'', PStr (ev_content_digest ev)),
      (''is_truncated'', PBool (ev_is_truncated ev)), (''inline_content'', opt_pyval (ev_inline_content ev)),
      (''content_reference'', opt_pyval (ev_content_reference ev))]"

definition evidence_from_dict :: "runtime \<Rightarrow> pydict \<Rightarrow> exec_error + evidence" where
  "evidence_from_dict rt d =
     ebind (need_text rt d ''stream'') (\<lambda>stream.
     ebind (need_int d ''raw_byte_count'') (\<lambda>count.
     ebind (need_text rt d ''content_digest'') (\<lambda>digest.
     ebind (need d ''is_truncated'') (\<lambda>truncated.
       evidence_post_init \<lparr>ev_stream = stream, ev_raw_byte_count = count, ev_content_digest = digest,
         ev_is_truncated = truthy truncated, ev_inline_content = maybe_text rt d ''inline_content'',
         ev_content_reference = maybe_text rt d ''content_reference'',
         ev_schema = text_or rt d ''schema'' EVIDENCE_SCHEMA,
         ev_version = text_or rt d ''version'' CONTRACT_VERSION\<rparr>))))"

section \<open>Requests\<close>

definition REQUEST_SCHEMA :: string where
  "REQUEST_SCHEMA = ''bdb-vnext-local-execution-request-v1''"

record request =
  rq_execution_id :: string
  rq_project_id :: string
  rq_task_id :: "string option"
  rq_binding_id :: "string option"
  rq_adapter_id :: string
  rq_mode :: execution_mode
  rq_argv :: pyval
  rq_script_content :: "string option"
  rq_script_digest :: "string option"
  rq_cwd :: string
  rq_env_id :: string
  rq_env_vars :: pydict
  rq_stdin_policy :: stdin_policy
  rq_timeout_seconds :: number
  rq_cancel_grace_seconds :: number
  rq_effect_class :: execution_effect_class
  rq_idempotency :: idempotency_class
  rq_elevation_required :: bool
  rq_expected_source_head :: string
  rq_expected_source_tree :: string
  rq_schema :: string
  rq_version :: string
  rq_request_digest :: string

text \<open>The document that is hashed; \<open>list(self.argv)\<close> raises on a value that cannot be iterated.\<close>

definition argv_value :: "pyval \<Rightarrow> exec_error + pyval" where
  "argv_value v = (case v of PNone \<Rightarrow> Inr PNone
     | _ \<Rightarrow> (case py_iter v of Some xs \<Rightarrow> Inr (PList xs) | None \<Rightarrow> Inl (PyError TypeError)))"

definition env_texts :: "runtime \<Rightarrow> pydict \<Rightarrow> pydict" where
  "env_texts rt d = map (\<lambda>(k, v). (k, PStr (py_str rt v))) (sort_key fst d)"

definition request_document :: "runtime \<Rightarrow> request \<Rightarrow> pyval \<Rightarrow> pydict" where
  "request_document rt r argv =
     [(''schema'', PStr (rq_schema r)), (''version'', PStr (rq_version r)),
      (''execution_id'', PStr (rq_execution_id r)), (''project_id'', PStr (rq_project_id r)),
      (''task_id'', opt_pyval (rq_task_id r)), (''binding_id'', opt_pyval (rq_binding_id r)),
      (''adapter_id'', PStr (rq_adapter_id r)), (''mode'', PStr (mode_value (rq_mode r))), (''argv'', argv),
      (''script_digest'', opt_pyval (rq_script_digest r)), (''cwd'', PStr (rq_cwd r)), (''env_id'', PStr (rq_env_id r)),
      (''env_vars'', PDict (env_texts rt (rq_env_vars r))), (''stdin_policy'', PStr (stdin_value (rq_stdin_policy r))),
      (''timeout_seconds'', PInt (number_int (rq_timeout_seconds r))),
      (''cancel_grace_seconds'', PInt (number_int (rq_cancel_grace_seconds r))),
      (''effect_class'', PStr (effect_value (rq_effect_class r))),
      (''idempotency'', PStr (idempotency_value (rq_idempotency r))),
      (''elevation_required'', PBool (rq_elevation_required r)),
      (''expected_source_head'', PStr (rq_expected_source_head r)),
      (''expected_source_tree'', PStr (rq_expected_source_tree r))]"

definition request_digest :: "runtime \<Rightarrow> request \<Rightarrow> exec_error + string" where
  "request_digest rt r = ebind (argv_value (rq_argv r)) (\<lambda>argv.
     Inr (sha_text rt (canonical_json rt (request_document rt r argv))))"

definition is_text :: "pyval \<Rightarrow> bool" where
  "is_text v \<longleftrightarrow> (case v of PStr _ \<Rightarrow> True | _ \<Rightarrow> False)"

definition mode_refusal :: "request \<Rightarrow> string option" where
  "mode_refusal r = (case rq_mode r of
     ARGV \<Rightarrow> (case rq_argv r of
         PList xs \<Rightarrow> if xs = [] then Some ''empty_argv''
           else if \<not> list_all is_text xs then Some ''argv_element_not_string'' else None
       | _ \<Rightarrow> Some ''invalid_argv'')
   | SCRIPT \<Rightarrow> if \<not> opt_true (rq_script_content r) \<and> \<not> opt_true (rq_script_digest r)
       then Some ''missing_script'' else None)"

definition script_refused :: "runtime \<Rightarrow> request \<Rightarrow> bool" where
  "script_refused rt r \<longleftrightarrow> (case rq_script_content r of None \<Rightarrow> False
     | Some c \<Rightarrow> opt_true (rq_script_digest r) \<and> rq_script_digest r \<noteq> Some (sha_text rt c))"

definition with_script_digest :: "runtime \<Rightarrow> request \<Rightarrow> request" where
  "with_script_digest rt r = (case rq_script_content r of None \<Rightarrow> r
     | Some c \<Rightarrow> r\<lparr>rq_script_digest := Some (sha_text rt c)\<rparr>)"

definition request_refusal :: "runtime \<Rightarrow> request \<Rightarrow> string option" where
  "request_refusal rt r =
     (if rq_execution_id r = [] then Some ''invalid_execution_id''
      else if rq_project_id r = [] then Some ''invalid_project_id''
      else if rq_adapter_id r \<notin> set KNOWN_ADAPTER_IDS then Some ''unknown_adapter''
      else if mode_refusal r \<noteq> None then mode_refusal r
      else if script_refused rt r then Some ''script_digest_mismatch''
      else if rq_expected_source_head r \<noteq> [] \<and> \<not> hex40 (rq_expected_source_head r) then Some ''invalid_source_head''
      else if rq_expected_source_tree r \<noteq> [] \<and> \<not> hex40 (rq_expected_source_tree r) then Some ''invalid_source_tree''
      else None)"

definition request_post_init :: "runtime \<Rightarrow> request \<Rightarrow> exec_error + request" where
  "request_post_init rt r =
     (case request_refusal rt r of
        Some c \<Rightarrow> Inl (ContractError c)
      | None \<Rightarrow> let r' = with_script_digest rt r in
          ebind (request_digest rt r') (\<lambda>computed.
            if rq_request_digest r' \<noteq> [] \<and> rq_request_digest r' \<noteq> computed
            then Inl (ContractError ''request_digest_mismatch'')
            else Inr (r'\<lparr>rq_request_digest := computed\<rparr>)))"

definition validate_source :: "request \<Rightarrow> string \<Rightarrow> string \<Rightarrow> exec_error + unit" where
  "validate_source r head tree =
     (if rq_expected_source_head r \<noteq> [] \<and> rq_expected_source_head r \<noteq> head then Inl (ContractError ''stale_source_head'')
      else if rq_expected_source_tree r \<noteq> [] \<and> rq_expected_source_tree r \<noteq> tree
      then Inl (ContractError ''stale_source_tree'') else Inr ())"

definition request_to_dict :: "request \<Rightarrow> exec_error + pydict" where
  "request_to_dict r = ebind (argv_value (rq_argv r)) (\<lambda>argv. Inr
     [(''schema'', PStr (rq_schema r)), (''version'', PStr (rq_version r)),
      (''execution_id'', PStr (rq_execution_id r)), (''project_id'', PStr (rq_project_id r)),
      (''task_id'', opt_pyval (rq_task_id r)), (''binding_id'', opt_pyval (rq_binding_id r)),
      (''adapter_id'', PStr (rq_adapter_id r)), (''mode'', PStr (mode_value (rq_mode r))), (''argv'', argv),
      (''script_content'', opt_pyval (rq_script_content r)), (''script_digest'', opt_pyval (rq_script_digest r)),
      (''cwd'', PStr (rq_cwd r)), (''env_id'', PStr (rq_env_id r)), (''env_vars'', PDict (rq_env_vars r)),
      (''stdin_policy'', PStr (stdin_value (rq_stdin_policy r))),
      (''timeout_seconds'', number_pyval (rq_timeout_seconds r)),
      (''cancel_grace_seconds'', number_pyval (rq_cancel_grace_seconds r)),
      (''effect_class'', PStr (effect_value (rq_effect_class r))),
      (''idempotency'', PStr (idempotency_value (rq_idempotency r))),
      (''elevation_required'', PBool (rq_elevation_required r)),
      (''expected_source_head'', PStr (rq_expected_source_head r)),
      (''expected_source_tree'', PStr (rq_expected_source_tree r)),
      (''request_digest'', PStr (rq_request_digest r))])"

text \<open>\<open>tuple(raw_argv)\<close>: a text becomes the tuple of its characters.\<close>

definition request_from_dict :: "runtime \<Rightarrow> pydict \<Rightarrow> exec_error + request" where
  "request_from_dict rt d =
     ebind (argv_value (py_get d ''argv'')) (\<lambda>argv.
     ebind (need_text rt d ''execution_id'') (\<lambda>eid.
     ebind (need_text rt d ''project_id'') (\<lambda>pid.
     ebind (enum_member rt ''ExecutionMode'' mode_value all_modes (py_get_default d ''mode'' (PStr ''ARGV''))) (\<lambda>mode.
     ebind (py_dict (py_get_default d ''env_vars'' (PDict []))) (\<lambda>env.
     ebind (enum_member rt ''StdinPolicy'' stdin_value all_stdin_policies (py_get_default d ''stdin_policy'' (PStr ''DISABLED''))) (\<lambda>stdin.
     ebind (py_float (py_get_default d ''timeout_seconds'' (PFloat 60))) (\<lambda>timeout.
     ebind (py_float (py_get_default d ''cancel_grace_seconds'' (PFloat 5))) (\<lambda>grace.
     ebind (enum_member rt ''ExecutionEffectClass'' effect_value all_effects (py_get_default d ''effect_class'' (PStr ''READ_ONLY''))) (\<lambda>effect.
     ebind (enum_member rt ''IdempotencyClass'' idempotency_value all_idempotencies
              (py_get_default d ''idempotency'' (PStr ''IDEMPOTENT_REPLAYABLE''))) (\<lambda>idem.
       request_post_init rt
         \<lparr>rq_execution_id = eid, rq_project_id = pid, rq_task_id = maybe_text rt d ''task_id'',
          rq_binding_id = maybe_text rt d ''binding_id'', rq_adapter_id = text_or rt d ''adapter_id'' ''process.raw'',
          rq_mode = mode, rq_argv = argv, rq_script_content = maybe_text rt d ''script_content'',
          rq_script_digest = maybe_text rt d ''script_digest'', rq_cwd = text_or rt d ''cwd'' ''.'',
          rq_env_id = text_or rt d ''env_id'' ''env:default'', rq_env_vars = env, rq_stdin_policy = stdin,
          rq_timeout_seconds = timeout, rq_cancel_grace_seconds = grace, rq_effect_class = effect, rq_idempotency = idem,
          rq_elevation_required = truthy (py_get_default d ''elevation_required'' (PBool False)),
          rq_expected_source_head = text_or rt d ''expected_source_head'' [],
          rq_expected_source_tree = text_or rt d ''expected_source_tree'' [],
          rq_schema = text_or rt d ''schema'' REQUEST_SCHEMA, rq_version = text_or rt d ''version'' CONTRACT_VERSION,
          rq_request_digest = text_or rt d ''request_digest'' []\<rparr>))))))))))"

section \<open>Results\<close>

definition RESULT_SCHEMA :: string where
  "RESULT_SCHEMA = ''bdb-vnext-local-execution-result-v1''"

record result =
  rs_execution_id :: string
  rs_request_digest :: string
  rs_started_at :: string
  rs_completed_at :: string
  rs_duration_ms :: int
  rs_exit_code :: int
  rs_stdout :: evidence
  rs_stderr :: evidence
  rs_observed_source_head :: string
  rs_observed_source_tree :: string
  rs_adapter_id :: string
  rs_worker_id :: string
  rs_status :: mechanical_status
  rs_timed_out :: bool
  rs_cancelled :: bool
  rs_cancel_reason :: "string option"
  rs_schema :: string
  rs_version :: string
  rs_result_digest :: string

definition result_document :: "result \<Rightarrow> pydict" where
  "result_document r =
     [(''schema'', PStr (rs_schema r)), (''version'', PStr (rs_version r)),
      (''execution_id'', PStr (rs_execution_id r)), (''request_digest'', PStr (rs_request_digest r)),
      (''started_at'', PStr (rs_started_at r)), (''completed_at'', PStr (rs_completed_at r)),
      (''duration_ms'', PInt (rs_duration_ms r)), (''exit_code'', PInt (rs_exit_code r)),
      (''timed_out'', PBool (rs_timed_out r)), (''cancelled'', PBool (rs_cancelled r)),
      (''cancel_reason'', opt_pyval (rs_cancel_reason r)), (''stdout'', PDict (evidence_to_dict (rs_stdout r))),
      (''stderr'', PDict (evidence_to_dict (rs_stderr r))),
      (''observed_source_head'', PStr (rs_observed_source_head r)),
      (''observed_source_tree'', PStr (rs_observed_source_tree r)), (''adapter_id'', PStr (rs_adapter_id r)),
      (''worker_id'', PStr (rs_worker_id r)), (''status'', PStr (status_value (rs_status r)))]"

definition result_digest :: "runtime \<Rightarrow> result \<Rightarrow> string" where
  "result_digest rt r = sha_text rt (canonical_json rt (result_document r))"

definition result_post_init :: "runtime \<Rightarrow> result \<Rightarrow> exec_error + result" where
  "result_post_init rt r =
     (if rs_execution_id r = [] then Inl (ContractError ''invalid_execution_id'')
      else if \<not> starts_with ''sha256:'' (rs_request_digest r) then Inl (ContractError ''invalid_request_digest'')
      else if rs_duration_ms r < 0 then Inl (ContractError ''invalid_duration'')
      else if rs_result_digest r \<noteq> [] \<and> rs_result_digest r \<noteq> result_digest rt r
      then Inl (ContractError ''result_digest_mismatch'')
      else Inr (r\<lparr>rs_result_digest := result_digest rt r\<rparr>))"

definition result_to_dict :: "result \<Rightarrow> pydict" where
  "result_to_dict r = result_document r @ [(''result_digest'', PStr (rs_result_digest r))]"

text \<open>\<open>data[k]\<close> handed to \<open>ExecutionOutputEvidence.from_dict\<close>: what is not an object has no \<open>get\<close>.\<close>

definition need_evidence :: "runtime \<Rightarrow> pydict \<Rightarrow> string \<Rightarrow> exec_error + evidence" where
  "need_evidence rt d k = ebind (need d k) (\<lambda>v. case v of
     PDict e \<Rightarrow> evidence_from_dict rt e | _ \<Rightarrow> Inl (PyError AttributeError))"

definition result_from_dict :: "runtime \<Rightarrow> pydict \<Rightarrow> exec_error + result" where
  "result_from_dict rt d =
     ebind (need_text rt d ''execution_id'') (\<lambda>eid.
     ebind (need_text rt d ''request_digest'') (\<lambda>rdigest.
     ebind (need_text rt d ''started_at'') (\<lambda>started.
     ebind (need_text rt d ''completed_at'') (\<lambda>completed.
     ebind (need_int d ''duration_ms'') (\<lambda>duration.
     ebind (need_int d ''exit_code'') (\<lambda>exit_code.
     ebind (need_evidence rt d ''stdout'') (\<lambda>out.
     ebind (need_evidence rt d ''stderr'') (\<lambda>err.
     ebind (need_text rt d ''adapter_id'') (\<lambda>adapter.
     ebind (enum_member rt ''MechanicalExecutionStatus'' status_value all_statuses
              (py_get_default d ''status'' (PStr ''COMPLETED''))) (\<lambda>status.
       result_post_init rt
         \<lparr>rs_execution_id = eid, rs_request_digest = rdigest, rs_started_at = started, rs_completed_at = completed,
          rs_duration_ms = duration, rs_exit_code = exit_code, rs_stdout = out, rs_stderr = err,
          rs_observed_source_head = text_or rt d ''observed_source_head'' [],
          rs_observed_source_tree = text_or rt d ''observed_source_tree'' [], rs_adapter_id = adapter,
          rs_worker_id = text_or rt d ''worker_id'' ''worker:local'', rs_status = status,
          rs_timed_out = truthy (py_get_default d ''timed_out'' (PBool False)),
          rs_cancelled = truthy (py_get_default d ''cancelled'' (PBool False)),
          rs_cancel_reason = maybe_text rt d ''cancel_reason'',
          rs_schema = text_or rt d ''schema'' RESULT_SCHEMA, rs_version = text_or rt d ''version'' CONTRACT_VERSION,
          rs_result_digest = text_or rt d ''result_digest'' []\<rparr>))))))))))"

section \<open>Registry\<close>

type_synonym registry = "string \<rightharpoonup> string"

definition register :: "registry \<Rightarrow> request \<Rightarrow> exec_error + registry" where
  "register reg r =
     (case reg (rq_execution_id r) of
        Some existing \<Rightarrow> if existing \<noteq> rq_request_digest r then Inl (ContractError ''conflicting_execution_id'')
          else Inr (reg(rq_execution_id r \<mapsto> rq_request_digest r))
      | None \<Rightarrow> Inr (reg(rq_execution_id r \<mapsto> rq_request_digest r)))"

section \<open>Documents read back\<close>

text \<open>
  A kind of object that is written as a document and read back: reading what was written of a well-formed object
  gives its stored form, which is well-formed and written and read without further change.
\<close>

locale document_codec =
  fixes to_doc :: "'a \<Rightarrow> exec_error + pydict"
    and of_doc :: "pydict \<Rightarrow> exec_error + 'a"
    and well_formed :: "'a \<Rightarrow> bool"
    and stored :: "'a \<Rightarrow> 'a"
  assumes read_write: "well_formed x \<Longrightarrow> \<exists>d. to_doc x = Inr d \<and> of_doc d = Inr (stored x)"
    and stored_well_formed: "well_formed x \<Longrightarrow> well_formed (stored x)"
    and stored_again: "well_formed x \<Longrightarrow> stored (stored x) = stored x"
begin

lemma write_total: "well_formed x \<Longrightarrow> \<exists>d. to_doc x = Inr d"
  using read_write by blast

lemma read_written: "well_formed x \<Longrightarrow> to_doc x = Inr d \<Longrightarrow> of_doc d = Inr (stored x)"
  using read_write by fastforce

lemma read_written_again:
  assumes "well_formed x" and "to_doc x = Inr d" and "of_doc d = Inr y" and "to_doc y = Inr d'"
  shows "of_doc d' = Inr y"
proof -
  have y: "y = stored x" using read_written[OF assms(1,2)] assms(3) by simp
  have "of_doc d' = Inr (stored y)" using assms(1,4) by (intro read_written) (simp_all add: y stored_well_formed)
  then show ?thesis using assms(1) by (simp add: y stored_again)
qed

end

lemma map_of_need: "map_of d k = Some v \<Longrightarrow> need d k = Inr v"
  by (simp add: need_def)

lemma maybe_text_opt: "map_of d k = Some (opt_pyval x) \<Longrightarrow> maybe_text rt d k = x"
  by (cases x) (simp_all add: maybe_text_def py_get_def opt_pyval_def py_str_def)

lemma text_or_str: "map_of d k = Some (PStr s) \<Longrightarrow> text_or rt d k s' = s"
  by (simp add: text_or_def py_get_default_def py_str_def)

lemma need_text_str: "map_of d k = Some (PStr s) \<Longrightarrow> need_text rt d k = Inr s"
  by (simp add: need_text_def need_def py_str_def)

lemma need_int_int: "map_of d k = Some (PInt n) \<Longrightarrow> need_int d k = Inr n"
  by (simp add: need_int_def need_def lift_py_def)

lemma py_get_default_found: "map_of d k = Some v \<Longrightarrow> py_get_default d k v0 = v"
  by (simp add: py_get_default_def)

lemma py_get_found: "map_of d k = Some v \<Longrightarrow> py_get d k = v"
  by (simp add: py_get_def)

lemmas document_reads = map_of_need maybe_text_opt text_or_str need_text_str need_int_int py_get_default_found py_get_found

lemma enum_members [simp]:
  "enum_member rt cls mode_value all_modes (PStr (mode_value m)) = Inr m"
  "enum_member rt cls effect_value all_effects (PStr (effect_value ec)) = Inr ec"
  "enum_member rt cls idempotency_value all_idempotencies (PStr (idempotency_value i)) = Inr i"
  "enum_member rt cls stdin_value all_stdin_policies (PStr (stdin_value p)) = Inr p"
  "enum_member rt cls status_value all_statuses (PStr (status_value st)) = Inr st"
  subgoal by (cases m) (simp_all add: enum_member_def all_modes_def)
  subgoal by (cases ec) (simp_all add: enum_member_def all_effects_def)
  subgoal by (cases i) (simp_all add: enum_member_def all_idempotencies_def)
  subgoal by (cases p) (simp_all add: enum_member_def all_stdin_policies_def)
  subgoal by (cases st) (simp_all add: enum_member_def all_statuses_def)
  done

subsection \<open>Evidence\<close>

definition evidence_ok :: "evidence \<Rightarrow> bool" where
  "evidence_ok ev \<longleftrightarrow> evidence_post_init ev = Inr ev"

lemma evidence_post_initD: "evidence_post_init ev = Inr ev' \<Longrightarrow> ev' = ev \<and> evidence_ok ev"
  by (auto simp: evidence_post_init_def evidence_ok_def split: if_splits)

lemma evidence_read_back: "evidence_ok ev \<Longrightarrow> evidence_from_dict rt (evidence_to_dict ev) = Inr ev"
proof -
  assume ok: "evidence_ok ev"
  have "evidence_from_dict rt (evidence_to_dict ev) = evidence_post_init ev"
    by (cases ev) (simp add: evidence_from_dict_def evidence_to_dict_def document_reads)
  with ok show ?thesis by (simp add: evidence_ok_def)
qed

interpretation evidence_doc: document_codec "\<lambda>ev. Inr (evidence_to_dict ev)" "evidence_from_dict rt" evidence_ok "\<lambda>ev. ev"
  by unfold_locales (simp_all add: evidence_read_back)

subsection \<open>Results\<close>

definition result_ok :: "runtime \<Rightarrow> result \<Rightarrow> bool" where
  "result_ok rt r \<longleftrightarrow> result_post_init rt r = Inr r \<and> evidence_ok (rs_stdout r) \<and> evidence_ok (rs_stderr r)"

lemma result_digest_irrelevant [simp]: "result_digest rt (r\<lparr>rs_result_digest := x\<rparr>) = result_digest rt r"
  by (simp add: result_digest_def result_document_def)

lemma result_read_back: "result_ok rt r \<Longrightarrow> result_from_dict rt (result_to_dict r) = Inr r"
proof -
  assume ok: "result_ok rt r"
  then have "evidence_ok (rs_stdout r)" "evidence_ok (rs_stderr r)" by (simp_all add: result_ok_def)
  then have "result_from_dict rt (result_to_dict r) = result_post_init rt r"
    by (cases r) (simp add: result_from_dict_def result_to_dict_def result_document_def need_evidence_def document_reads evidence_read_back)
  with ok show ?thesis by (simp add: result_ok_def)
qed

interpretation result_doc: document_codec "\<lambda>r. Inr (result_to_dict r)" "result_from_dict rt" "result_ok rt" "\<lambda>r. r"
  by unfold_locales (simp_all add: result_read_back)

lemma result_post_init_ok:
  "result_post_init rt r = Inr q \<Longrightarrow> evidence_ok (rs_stdout r) \<Longrightarrow> evidence_ok (rs_stderr r) \<Longrightarrow> result_ok rt q"
  by (auto simp: result_post_init_def result_ok_def split: if_splits)

subsection \<open>Requests\<close>

definition request_ok :: "runtime \<Rightarrow> request \<Rightarrow> bool" where
  "request_ok rt r \<longleftrightarrow> request_post_init rt r = Inr r"

text \<open>What a stored request reads back as: its numbers as floats, its arguments as a tuple.\<close>

definition stored_argv :: "pyval \<Rightarrow> pyval" where
  "stored_argv v = (case argv_value v of Inr w \<Rightarrow> w | Inl _ \<Rightarrow> v)"

definition stored_request :: "request \<Rightarrow> request" where
  "stored_request r = r\<lparr>rq_argv := stored_argv (rq_argv r), rq_timeout_seconds := FloatN (number_float (rq_timeout_seconds r)),
     rq_cancel_grace_seconds := FloatN (number_float (rq_cancel_grace_seconds r))\<rparr>"

lemma py_iter_PList [simp]: "py_iter (PList xs) = Some xs"
  by (simp add: py_iter_def)

lemma argv_value_simps [simp]: "argv_value PNone = Inr PNone" "argv_value (PList xs) = Inr (PList xs)"
  by (simp_all add: argv_value_def)

lemma argv_value_again: "argv_value v = Inr w \<Longrightarrow> argv_value w = Inr w"
  by (cases v) (auto simp: argv_value_def py_iter_def)

text \<open>Numbers that a float holds exactly: all floats, and the integers that \<open>float\<close> does not round.\<close>

definition number_exact :: "number \<Rightarrow> bool" where
  "number_exact x \<longleftrightarrow> (case x of IntN n \<Rightarrow> float_of_int n = Some (of_int n) | FloatN _ \<Rightarrow> True)"

definition exact_numbers :: "request \<Rightarrow> bool" where
  "exact_numbers r \<longleftrightarrow> number_exact (rq_timeout_seconds r) \<and> number_exact (rq_cancel_grace_seconds r)"

lemma round_half_even_of_int: "round_half_even (of_int n) = n"
  by (simp add: round_half_even_def Let_def)

lemma float_of_small_int: "\<bar>n\<bar> < 2 ^ 53 \<Longrightarrow> float_of_int n = Some (of_int n)"
proof -
  assume n: "\<bar>n\<bar> < 2 ^ 53"
  then have "nat \<bar>n\<bar> < 2 ^ 53" by simp
  then have e: "excess_bits (nat \<bar>n\<bar>) = 0" by (subst excess_bits.simps) simp
  have "\<bar>n\<bar> < 2 ^ 1024" using n by (rule less_le_trans) simp
  then show ?thesis by (simp add: float_of_int_def e Let_def round_half_even_of_int[of "\<bar>n\<bar>", simplified] mult_sgn_abs)
qed

lemma number_int_float: "number_exact x \<Longrightarrow> number_int (FloatN (number_float x)) = number_int x"
proof (cases x)
  case (IntN n)
  have "\<lfloor>- (of_int n :: rat)\<rfloor> = - n" by (metis floor_of_int of_int_minus)
  moreover assume "number_exact x"
  ultimately show ?thesis using IntN by (simp add: number_int_def number_exact_def)
qed (simp add: number_int_def)

lemma py_dict_PDict [simp]: "py_dict (PDict d) = Inr d"
  by (simp add: py_dict_def)

lemma mode_refusal_stored: "mode_refusal r = None \<Longrightarrow> argv_value (rq_argv r) = Inr w \<Longrightarrow> mode_refusal (r\<lparr>rq_argv := w\<rparr>) = None"
  by (auto simp: mode_refusal_def split: execution_mode.splits pyval.splits if_splits)

lemma request_refusal_None:
  "request_refusal rt r = None \<longleftrightarrow> rq_execution_id r \<noteq> [] \<and> rq_project_id r \<noteq> [] \<and> rq_adapter_id r \<in> set KNOWN_ADAPTER_IDS \<and>
     mode_refusal r = None \<and> \<not> script_refused rt r \<and>
     (rq_expected_source_head r = [] \<or> hex40 (rq_expected_source_head r)) \<and>
     (rq_expected_source_tree r = [] \<or> hex40 (rq_expected_source_tree r))"
  unfolding request_refusal_def by (cases "mode_refusal r") simp_all

lemma request_okD:
  assumes "request_ok rt r"
  shows "request_refusal rt r = None" and "with_script_digest rt r = r"
    and "\<exists>w. argv_value (rq_argv r) = Inr w" and "request_digest rt r = Inr (rq_request_digest r)"
proof -
  let ?r = "with_script_digest rt r"
  have none: "request_refusal rt r = None"
    using assms by (simp add: request_ok_def request_post_init_def split: option.splits)
  then obtain c where c: "request_digest rt ?r = Inr c" and r: "r = ?r\<lparr>rq_request_digest := c\<rparr>"
    using assms by (auto simp: request_ok_def request_post_init_def Let_def ebind_Inr_iff split: if_splits)
  have same: "request_digest rt (q\<lparr>rq_request_digest := x\<rparr>) = request_digest rt q" for q x
    by (simp add: request_digest_def request_document_def)
  have script: "rq_script_digest r = rq_script_digest ?r" by (subst r) simp
  then show fixed: "?r = r" by (cases "rq_script_content r") (simp_all add: with_script_digest_def)
  from r fixed have "rq_request_digest r = c" by (metis request.select_convs(23) request.surjective request.update_convs(23))
  with c fixed show "request_digest rt r = Inr (rq_request_digest r)" by simp
  then show "\<exists>w. argv_value (rq_argv r) = Inr w" by (auto simp: request_digest_def ebind_Inr_iff)
  show "request_refusal rt r = None" by (rule none)
qed

lemma request_post_init_ok: "request_post_init rt r = Inr q \<Longrightarrow> request_ok rt q"
proof -
  assume a: "request_post_init rt r = Inr q"
  let ?r = "with_script_digest rt r"
  have none: "request_refusal rt r = None" using a by (simp add: request_post_init_def split: option.splits)
  from a none obtain c where c: "request_digest rt ?r = Inr c" and q: "q = ?r\<lparr>rq_request_digest := c\<rparr>"
    by (auto simp: request_post_init_def Let_def ebind_Inr_iff split: if_splits)
  have fixed: "with_script_digest rt q = q"
    by (cases "rq_script_content r") (simp_all add: q with_script_digest_def)
  have "mode_refusal r = None" using none by (simp add: request_refusal_None)
  then have "mode_refusal q = None"
    by (cases "rq_script_content r"; cases "rq_mode r") (simp_all add: q mode_refusal_def with_script_digest_def sha_text_def split: if_splits)
  then have "request_refusal rt q = None"
    using none by (cases "rq_script_content r") (simp_all add: q request_refusal_None script_refused_def with_script_digest_def)
  moreover have "request_digest rt q = Inr c"
    using c by (simp add: q request_digest_def request_document_def)
  ultimately show ?thesis by (simp add: request_ok_def request_post_init_def fixed) (simp add: q)
qed

lemma stored_request_simps [simp]:
  "rq_request_digest (stored_request r) = rq_request_digest r" "rq_execution_id (stored_request r) = rq_execution_id r"
  "rq_project_id (stored_request r) = rq_project_id r" "rq_effect_class (stored_request r) = rq_effect_class r"
  "rq_idempotency (stored_request r) = rq_idempotency r"
  by (simp_all add: stored_request_def)

lemma stored_request_refusal:
  assumes "request_ok rt r"
  shows "request_refusal rt (stored_request r) = None" and "with_script_digest rt (stored_request r) = stored_request r"
proof -
  note ok = assms
  note facts = request_okD[OF ok]
  from facts(3) obtain w where w: "argv_value (rq_argv r) = Inr w" by blast
  then have sw: "stored_argv (rq_argv r) = w" by (simp add: stored_argv_def)
  let ?s = "stored_request r"
  have "mode_refusal ?s = mode_refusal (r\<lparr>rq_argv := w\<rparr>)" by (cases "rq_mode r") (simp_all add: stored_request_def sw mode_refusal_def)
  moreover have "mode_refusal r = None" using facts(1) by (simp add: request_refusal_None)
  ultimately have "mode_refusal ?s = None" using mode_refusal_stored[OF _ w] by simp
  moreover have "script_refused rt ?s = script_refused rt r"
    by (cases "rq_script_content r") (simp_all add: script_refused_def stored_request_def)
  moreover have "rq_adapter_id ?s = rq_adapter_id r" "rq_expected_source_head ?s = rq_expected_source_head r"
    "rq_expected_source_tree ?s = rq_expected_source_tree r" by (simp_all add: stored_request_def)
  ultimately show "request_refusal rt ?s = None" using facts(1) by (simp add: request_refusal_None)
  show "with_script_digest rt ?s = ?s"
    using facts(2) by (cases r; cases "rq_script_content r") (simp_all add: with_script_digest_def stored_request_def)
qed

text \<open>The constructor applied to the stored form accepts it exactly when the digest is the same again.\<close>

lemma request_digest_total:
  assumes "request_ok rt r"
  shows "\<exists>c. request_digest rt (stored_request r) = Inr c"
proof -
  from request_okD(3)[OF assms] obtain w where "argv_value (rq_argv r) = Inr w" by blast
  then show ?thesis by (simp add: request_digest_def stored_request_def stored_argv_def argv_value_again)
qed

lemma request_digest_nonempty: "request_ok rt r \<Longrightarrow> rq_request_digest r \<noteq> []"
  using request_okD(4)[of rt r] by (auto simp: request_digest_def ebind_Inr_iff sha_text_def)

lemma stored_request_post_init:
  assumes "request_ok rt r"
  shows "request_post_init rt (stored_request r) =
    (if request_digest rt (stored_request r) = Inr (rq_request_digest r) then Inr (stored_request r)
     else Inl (ContractError ''request_digest_mismatch''))"
proof -
  obtain c where c: "request_digest rt (stored_request r) = Inr c" using request_digest_total[OF assms] by blast
  have "(stored_request r)\<lparr>rq_request_digest := rq_request_digest r\<rparr> = stored_request r" by (simp add: stored_request_def)
  with c request_digest_nonempty[OF assms] stored_request_refusal[OF assms] show ?thesis by (auto simp: request_post_init_def Let_def)
qed

lemma stored_request_digest:
  assumes "request_ok rt r" and "exact_numbers r"
  shows "request_digest rt (stored_request r) = Inr (rq_request_digest r)"
proof -
  from request_okD(3)[OF assms(1)] obtain w where w: "argv_value (rq_argv r) = Inr w" by blast
  then have sw: "stored_argv (rq_argv r) = w" by (simp add: stored_argv_def)
  have "number_int (FloatN (number_float (rq_timeout_seconds r))) = number_int (rq_timeout_seconds r)"
    "number_int (FloatN (number_float (rq_cancel_grace_seconds r))) = number_int (rq_cancel_grace_seconds r)"
    using assms(2) by (simp_all add: exact_numbers_def number_int_float)
  then have "request_digest rt (stored_request r) = request_digest rt r"
    by (simp add: request_digest_def stored_request_def sw argv_value_again[OF w] w request_document_def)
  with request_okD(4)[OF assms(1)] show ?thesis by simp
qed

lemma stored_request_ok: "request_ok rt r \<Longrightarrow> exact_numbers r \<Longrightarrow> request_ok rt (stored_request r)"
  by (simp add: request_ok_def[of rt "stored_request r"] stored_request_post_init stored_request_digest)

text \<open>Reading what was written of an accepted request: the constructor on the stored form, unless a number overflows.\<close>

definition overflows :: "number \<Rightarrow> bool" where
  "overflows x \<longleftrightarrow> (case x of IntN n \<Rightarrow> float_of_int n = None | FloatN _ \<Rightarrow> False)"

lemma py_float_overflows:
  "py_float (number_pyval x) = (if overflows x then Inl (PyError OverflowError) else Inr (FloatN (number_float x)))"
  by (cases x) (auto simp: py_float_def overflows_def split: option.splits)

lemma request_from_written:
  assumes "request_ok rt r" and "request_to_dict r = Inr d"
  shows "request_from_dict rt d =
    (if overflows (rq_timeout_seconds r) \<or> overflows (rq_cancel_grace_seconds r) then Inl (PyError OverflowError)
     else request_post_init rt (stored_request r))"
proof -
  from request_okD(3)[OF assms(1)] obtain w where w: "argv_value (rq_argv r) = Inr w" by blast
  show ?thesis
    using assms(2) w by (cases r) (auto simp: request_to_dict_def request_from_dict_def document_reads argv_value_again
        stored_request_def stored_argv_def py_float_overflows)
qed

lemma written_request_read:
  assumes "request_ok rt r" and "request_to_dict r = Inr d" and "request_from_dict rt d = Inr q"
  shows "q = stored_request r"
  using assms(3) by (auto simp: request_from_written[OF assms(1,2)] stored_request_post_init[OF assms(1)] split: if_splits)

lemma request_read_back:
  assumes "request_ok rt r" and "exact_numbers r"
  shows "\<exists>d. request_to_dict r = Inr d \<and> request_from_dict rt d = Inr (stored_request r)"
proof -
  obtain d where d: "request_to_dict r = Inr d" using request_okD(3)[OF assms(1)] by (auto simp: request_to_dict_def)
  have "\<not> overflows x" if "number_exact x" for x using that by (cases x) (simp_all add: overflows_def number_exact_def)
  with assms(2) have "\<not> overflows (rq_timeout_seconds r)" "\<not> overflows (rq_cancel_grace_seconds r)" by (simp_all add: exact_numbers_def)
  with d stored_request_ok[OF assms] request_from_written[OF assms(1) d] show ?thesis by (simp add: request_ok_def)
qed

lemma stored_request_again: "request_ok rt r \<Longrightarrow> stored_request (stored_request r) = stored_request r"
  using request_okD(3)[of rt r] by (auto simp: stored_request_def stored_argv_def argv_value_again)

lemma stored_exact: "exact_numbers (stored_request r)"
  by (simp add: exact_numbers_def stored_request_def number_exact_def)

interpretation request_doc: document_codec request_to_dict "request_from_dict rt" "\<lambda>r. request_ok rt r \<and> exact_numbers r" stored_request
  by unfold_locales (auto simp: request_read_back stored_request_ok stored_request_again stored_exact)

section \<open>Properties\<close>

text \<open>A request for examples.\<close>

definition example_request :: request where
  "example_request =
     \<lparr>rq_execution_id = ''e1'', rq_project_id = ''p1'', rq_task_id = None, rq_binding_id = None, rq_adapter_id = ''tool.python'',
      rq_mode = ARGV, rq_argv = PList [PStr ''python'', PStr ''-V''], rq_script_content = None, rq_script_digest = None,
      rq_cwd = ''.'', rq_env_id = ''env:default'', rq_env_vars = [], rq_stdin_policy = STDIN_DISABLED,
      rq_timeout_seconds = IntN 60, rq_cancel_grace_seconds = IntN 5, rq_effect_class = PROJECT_MUTATION,
      rq_idempotency = IDEMPOTENT_REPLAYABLE, rq_elevation_required = False, rq_expected_source_head = [],
      rq_expected_source_tree = [], rq_schema = REQUEST_SCHEMA, rq_version = CONTRACT_VERSION, rq_request_digest = []\<rparr>"

lemma example_request_accepted: "\<exists>q. request_post_init rt example_request = Inr q"
  by (simp add: request_post_init_def request_refusal_def mode_refusal_def script_refused_def with_script_digest_def
      example_request_def KNOWN_ADAPTER_IDS_def request_digest_def is_text_def)

text \<open>C26: A request the constructor accepts, whose two numbers a float holds exactly, is written and read back as the same
  request with the same digest: only the numbers have become floats and the arguments a tuple, and a second round
  changes nothing.\<close>

theorem request_document_roundtrip:
  assumes "request_post_init rt r = Inr q" and "exact_numbers q"
  shows "\<exists>d d'. request_to_dict q = Inr d \<and> request_from_dict rt d = Inr (stored_request q) \<and>
     rq_request_digest (stored_request q) = rq_request_digest q \<and>
     request_to_dict (stored_request q) = Inr d' \<and> request_from_dict rt d' = Inr (stored_request q)"
proof -
  have ok: "request_ok rt q" using assms(1) by (rule request_post_init_ok)
  obtain d d' where "request_to_dict q = Inr d" "request_to_dict (stored_request q) = Inr d'"
    using request_doc.write_total[of rt] ok assms(2) stored_request_ok stored_exact by meson
  with ok assms(2) show ?thesis
    using request_doc.read_written[of rt q d] request_doc.read_written_again[of rt q d "stored_request q" d'] by simp
qed

lemma example_request_exact: "request_post_init rt example_request = Inr q \<Longrightarrow> exact_numbers q"
proof -
  assume "request_post_init rt example_request = Inr q"
  then obtain c where "q = example_request\<lparr>rq_request_digest := c\<rparr>"
    by (auto simp: request_post_init_def with_script_digest_def example_request_def ebind_Inr_iff Let_def split: option.splits if_splits)
  then show ?thesis by (simp add: exact_numbers_def number_exact_def example_request_def float_of_small_int)
qed

text \<open>C26 applied to the example request.\<close>

theorem request_document_roundtrip_witness:
  "\<exists>q. request_post_init sample_runtime example_request = Inr q \<and>
     (\<exists>d. request_to_dict q = Inr d \<and> request_from_dict sample_runtime d = Inr (stored_request q))"
proof -
  obtain q where "request_post_init sample_runtime example_request = Inr q" using example_request_accepted by blast
  with request_document_roundtrip[OF this example_request_exact[OF this]] show ?thesis by blast
qed

text \<open>An integer timeout that a float cannot hold is accepted by the constructor and written, but the document is refused:
  the digest was taken of the integer, and reading takes it of the rounded number. \<open>2^53 + 1\<close> is such a timeout.\<close>

lemma inexact_timeout_unreadable:
  assumes "request_ok rt q" and "request_to_dict q = Inr d" and "\<not> overflows (rq_timeout_seconds q)"
    and "\<not> overflows (rq_cancel_grace_seconds q)" and "request_digest rt (stored_request q) \<noteq> Inr (rq_request_digest q)"
  shows "request_from_dict rt d = Inl (ContractError ''request_digest_mismatch'')"
  using assms by (simp add: request_from_written stored_request_post_init)

lemma float_of_int_rounds: "float_of_int (2 ^ 53 + 1) = Some (2 ^ 53)"
proof -
  have "\<lfloor>9007199254740993 / 2 :: rat\<rfloor> = 4503599627370496" by (rule floor_unique) simp_all
  then show ?thesis by (simp add: float_of_int_def excess_bits.simps Let_def round_half_even_def)
qed

text \<open>Evidence made of the bytes of a standard stream is always accepted, records the number of bytes and the digest of
  all of them, refers to the full content exactly when it was cut, and shows no more characters than the limit.\<close>

lemma evidence_is_bounded:
  assumes "stream \<in> {''stdout'', ''stderr''}" and "decoder_bounded sv"
  shows "\<exists>ev. from_bytes sv stream data limit = Inr ev \<and> ev_raw_byte_count ev = int (length data) \<and>
     ev_content_digest ev = ''sha256:'' @ hexdigest (sha256_bytes sv data) \<and>
     (ev_is_truncated ev \<longleftrightarrow> limit < length data) \<and>
     ev_content_reference ev = (if limit < length data then Some (''cas:'' @ ev_content_digest ev) else None) \<and>
     (\<exists>t. ev_inline_content ev = Some t \<and> length t \<le> limit \<and>
        (length data \<le> limit \<longrightarrow> t = (if data = [] then [] else decode_replace sv data)))"
proof -
  have le: "length (decode_replace sv b) \<le> length b" for b using assms(2) by (simp add: decoder_bounded_def)
  have short: "length (decode_replace sv data) \<le> limit" if "\<not> limit < length data" using le[of data] that by simp
  have cut: "length (decode_replace sv (take limit data)) \<le> limit" using le[of "take limit data"] by simp
  show ?thesis using assms(1)
    by (auto simp: from_bytes_def evidence_post_init_def Let_def starts_with_def short cut)
qed

definition raw_shell_document :: "string \<Rightarrow> pydict" where
  "raw_shell_document line = [(''execution_id'', PStr ''e1''), (''project_id'', PStr ''p1''), (''argv'', PStr line)]"

text \<open>The constructor refuses a raw command line as the arguments of a request, but a document with one is accepted:
  its characters become the arguments.\<close>

lemma raw_shell_string_accepted:
  assumes "line \<noteq> []"
  shows "request_post_init rt (example_request\<lparr>rq_argv := PStr line\<rparr>) = Inl (ContractError ''invalid_argv'') \<and>
    (\<exists>q. request_from_dict rt (raw_shell_document line) = Inr q \<and> rq_argv q = PList (map (\<lambda>c. PStr [c]) line))"
proof
  show "request_post_init rt (example_request\<lparr>rq_argv := PStr line\<rparr>) = Inl (ContractError ''invalid_argv'')"
    by (simp add: request_post_init_def request_refusal_def mode_refusal_def example_request_def KNOWN_ADAPTER_IDS_def)
  let ?argv = "PList (map (\<lambda>c. PStr [c]) line)"
  have "list_all is_text (map (\<lambda>c. PStr [c]) line)" by (simp add: list_all_iff is_text_def)
  then show "\<exists>q. request_from_dict rt (raw_shell_document line) = Inr q \<and> rq_argv q = ?argv"
    using assms by (simp add: request_from_dict_def raw_shell_document_def argv_value_def py_iter_def py_get_def
        py_get_default_def need_text_def need_def py_str_def maybe_text_def text_or_def enum_member_def all_modes_def
        all_stdin_policies_def all_effects_def all_idempotencies_def py_float_def request_post_init_def request_refusal_def
        mode_refusal_def script_refused_def with_script_digest_def request_digest_def KNOWN_ADAPTER_IDS_def)
qed

subsection \<open>The registry\<close>

text \<open>Once an execution id is registered, every later registration keeps its digest.\<close>

lemma register_keeps: "register reg r = Inr reg' \<Longrightarrow> reg e = Some g \<Longrightarrow> reg' e = Some g"
  by (auto simp: register_def split: option.splits if_splits)

lemma register_conflict:
  "reg (rq_execution_id r) = Some g \<Longrightarrow> g \<noteq> rq_request_digest r \<Longrightarrow> register reg r = Inl (ContractError ''conflicting_execution_id'')"
  by (simp add: register_def)

end
