(* ===== verification/Execution_Policy.thy ===== *)
theory Execution_Policy
  imports Local_Execution
begin

text \<open>
  The deny-by-default policy of \<^verbatim>\<open>src/bdb_vnext/execution_policy.py\<close>: effect classes, approval tokens and their
  registry, path canonicalisation and containment, the decision with its digest and its revalidation, and the evaluator.
  Paths are those of \<open>pathlib\<close>; parsing a text into a path and resolving a path in the file system are services of the
  host. Instants of \<open>time.time()\<close> are exact numbers, read once per call.
\<close>

section \<open>Paths\<close>

datatype path_flavour = Posix | Windows

record path =
  pt_drive :: string
  pt_root :: string
  pt_parts :: "string list"

record host =
  hs_flavour :: path_flavour
  parse_path :: "string \<Rightarrow> path"
  resolve_path :: "path \<Rightarrow> path"

definition path_sep :: "path_flavour \<Rightarrow> string" where
  "path_sep fl = (case fl of Posix \<Rightarrow> ''/'' | Windows \<Rightarrow> [char_of (92::nat)])"

text \<open>Names compare without case on Windows.\<close>

definition norm_case :: "path_flavour \<Rightarrow> string \<Rightarrow> string" where
  "norm_case fl s = (case fl of Posix \<Rightarrow> s | Windows \<Rightarrow> lower s)"

definition path_str :: "path_flavour \<Rightarrow> path \<Rightarrow> string" where
  "path_str fl p = (let names = join (path_sep fl) (pt_parts p) in
     if pt_drive p @ pt_root p \<noteq> [] then pt_drive p @ pt_root p @ names
     else if pt_parts p = [] then ''.'' else names)"

definition is_absolute :: "path_flavour \<Rightarrow> path \<Rightarrow> bool" where
  "is_absolute fl p \<longleftrightarrow> pt_root p \<noteq> [] \<and> (case fl of Posix \<Rightarrow> True | Windows \<Rightarrow> pt_drive p \<noteq> [])"

definition same_anchor :: "path_flavour \<Rightarrow> path \<Rightarrow> path \<Rightarrow> bool" where
  "same_anchor fl p q \<longleftrightarrow> norm_case fl (pt_drive p) = norm_case fl (pt_drive q) \<and> pt_root p = pt_root q"

definition path_eq :: "path_flavour \<Rightarrow> path \<Rightarrow> path \<Rightarrow> bool" where
  "path_eq fl p q \<longleftrightarrow> same_anchor fl p q \<and> map (norm_case fl) (pt_parts p) = map (norm_case fl) (pt_parts q)"

text \<open>\<open>p.relative_to(q)\<close> does not raise.\<close>

definition path_within :: "path_flavour \<Rightarrow> path \<Rightarrow> path \<Rightarrow> bool" where
  "path_within fl p q \<longleftrightarrow> same_anchor fl p q \<and>
     take (length (pt_parts q)) (map (norm_case fl) (pt_parts p)) = map (norm_case fl) (pt_parts q)"

text \<open>\<open>a / b\<close>: a root or another drive in \<open>b\<close> replaces what precedes it.\<close>

definition path_join :: "path_flavour \<Rightarrow> path \<Rightarrow> path \<Rightarrow> path" where
  "path_join fl a b =
     (if pt_root b \<noteq> [] then b\<lparr>pt_drive := (if pt_drive b \<noteq> [] then pt_drive b else pt_drive a)\<rparr>
      else if pt_drive b \<noteq> [] \<and> norm_case fl (pt_drive b) \<noteq> norm_case fl (pt_drive a) then b
      else a\<lparr>pt_drive := (if pt_drive b \<noteq> [] then pt_drive b else pt_drive a), pt_parts := pt_parts a @ pt_parts b\<rparr>)"

definition canonicalize_path :: "host \<Rightarrow> path \<Rightarrow> path" where
  "canonicalize_path h p =
     (let s = path_str (hs_flavour h) (resolve_path h p)
      in parse_path h (if 2 \<le> length s \<and> s ! 1 = CHR '':'' then upper [hd s] @ tl s else s))"

definition is_path_contained :: "host \<Rightarrow> path \<Rightarrow> path \<Rightarrow> bool" where
  "is_path_contained h target boundary \<longleftrightarrow>
     path_within (hs_flavour h) (canonicalize_path h target) (canonicalize_path h boundary)"

text \<open>The documented law of resolution: a resolved path has no links and no relative segments left, so resolving
  it again gives it back.\<close>

definition resolves_once :: "host \<Rightarrow> bool" where
  "resolves_once h \<longleftrightarrow> (\<forall>p. canonicalize_path h (canonicalize_path h p) = canonicalize_path h p)"

text \<open>Where a path of a request lies: relative to the candidate unless it is absolute.\<close>

definition locate :: "host \<Rightarrow> path \<Rightarrow> string \<Rightarrow> path" where
  "locate h base s = (let p = parse_path h s in
     if is_absolute (hs_flavour h) p then p else path_join (hs_flavour h) base p)"

section \<open>Effect classes\<close>

datatype policy_effect_class = POLICY_READ_ONLY | POLICY_SAFE_MUTATION | POLICY_PROJECT_MUTATION | POLICY_ELEVATED | POLICY_DESTRUCTIVE

fun policy_value :: "policy_effect_class \<Rightarrow> string" where
  "policy_value POLICY_READ_ONLY = ''READ_ONLY''"
| "policy_value POLICY_SAFE_MUTATION = ''SAFE_MUTATION''"
| "policy_value POLICY_PROJECT_MUTATION = ''PROJECT_MUTATION''"
| "policy_value POLICY_ELEVATED = ''ELEVATED''"
| "policy_value POLICY_DESTRUCTIVE = ''DESTRUCTIVE''"

text \<open>On the value of either enumeration, or on a text.\<close>

definition map_contract_effect_to_policy :: "string \<Rightarrow> exec_error + policy_effect_class" where
  "map_contract_effect_to_policy val =
     (if val = ''READ_ONLY'' then Inr POLICY_READ_ONLY
      else if val \<in> {''SAFE_MUTATION'', ''SAFE_PROJECT_LOCAL_MUTATION''} then Inr POLICY_SAFE_MUTATION
      else if val \<in> {''PROJECT_MUTATION'', ''SHARED_RESOURCE_MUTATION''} then Inr POLICY_PROJECT_MUTATION
      else if val = ''ELEVATED'' then Inr POLICY_ELEVATED
      else if val \<in> {''DESTRUCTIVE'', ''NON_REPLAYABLE_MUTATION''} then Inr POLICY_DESTRUCTIVE
      else Inl (ContractError ''unknown_effect_class''))"

section \<open>Approval tokens\<close>

definition APPROVAL_TOKEN_SCHEMA :: string where
  "APPROVAL_TOKEN_SCHEMA = ''bdb-vnext-approval-token-v1''"

record approval_token =
  tk_token_id :: string
  tk_request_digest :: string
  tk_project_id :: string
  tk_effect_class :: policy_effect_class
  tk_expected_source_head :: string
  tk_expected_source_tree :: string
  tk_issued_at :: rat
  tk_expires_at :: rat
  tk_consumed :: bool
  tk_schema :: string
  tk_version :: string

definition is_valid_for :: "approval_token \<Rightarrow> string \<Rightarrow> string \<Rightarrow> string \<Rightarrow> rat \<Rightarrow> bool \<times> string" where
  "is_valid_for tk digest head tree now =
     (if tk_consumed tk then (False, ''APPROVAL_REPLAY_DENIED'')
      else if tk_expires_at tk < now then (False, ''APPROVAL_EXPIRED_DENIED'')
      else if tk_request_digest tk \<noteq> digest then (False, ''APPROVAL_WRONG_REQUEST_DENIED'')
      else if tk_expected_source_head tk \<noteq> head \<or> tk_expected_source_tree tk \<noteq> tree
      then (False, ''APPROVAL_STALE_SOURCE_DENIED'')
      else (True, ''APPROVAL_VALID''))"

type_synonym approvals = "string \<rightharpoonup> approval_token"

text \<open>The digest of 16 random bytes is an argument; its first twelve characters end the token's id.\<close>

definition issue :: "approvals \<Rightarrow> request \<Rightarrow> policy_effect_class \<Rightarrow> rat \<Rightarrow> rat \<Rightarrow> 256 word \<Rightarrow> approvals \<times> approval_token" where
  "issue reg r effect validity now random =
     (let tk = \<lparr>tk_token_id = ''appr:'' @ rq_execution_id r @ '':'' @ take 12 (hexdigest random),
          tk_request_digest = rq_request_digest r, tk_project_id = rq_project_id r, tk_effect_class = effect,
          tk_expected_source_head = rq_expected_source_head r, tk_expected_source_tree = rq_expected_source_tree r,
          tk_issued_at = now, tk_expires_at = now + validity, tk_consumed = False,
          tk_schema = APPROVAL_TOKEN_SCHEMA, tk_version = CONTRACT_VERSION\<rparr>
      in (reg(tk_token_id tk \<mapsto> tk), tk))"

definition consume :: "approvals \<Rightarrow> string \<Rightarrow> string \<Rightarrow> string \<Rightarrow> string \<Rightarrow> rat \<Rightarrow> approvals \<times> bool \<times> string" where
  "consume reg tid digest head tree now =
     (case reg tid of
        None \<Rightarrow> (reg, False, ''APPROVAL_NOT_FOUND'')
      | Some tk \<Rightarrow> (case is_valid_for tk digest head tree now of
          (False, why) \<Rightarrow> (reg, False, why)
        | (True, _) \<Rightarrow> (reg(tid \<mapsto> tk\<lparr>tk_consumed := True\<rparr>), True, ''APPROVAL_CONSUMED'')))"

section \<open>Decisions\<close>

definition EXECUTION_POLICY_VERSION :: string where
  "EXECUTION_POLICY_VERSION = ''1.0.0''"

definition DECISION_SCHEMA :: string where
  "DECISION_SCHEMA = ''bdb-vnext-execution-policy-decision-v1''"

record policy_decision =
  pd_execution_id :: string
  pd_request_digest :: string
  pd_decision :: string
  pd_reason_code :: string
  pd_effect_class :: string
  pd_canonical_cwd :: string
  pd_candidate_boundary :: string
  pd_network_allowed :: bool
  pd_approval_token_id :: "string option"
  pd_expected_source_head :: string
  pd_expected_source_tree :: string
  pd_policy_version :: string
  pd_schema :: string
  pd_version :: string
  pd_policy_digest :: string
  pd_decision_digest :: string

definition policy_decision_document :: "policy_decision \<Rightarrow> pydict" where
  "policy_decision_document d =
     [(''schema'', PStr (pd_schema d)), (''version'', PStr (pd_version d)), (''execution_id'', PStr (pd_execution_id d)),
      (''request_digest'', PStr (pd_request_digest d)), (''decision'', PStr (pd_decision d)),
      (''reason_code'', PStr (pd_reason_code d)), (''effect_class'', PStr (pd_effect_class d)),
      (''canonical_cwd'', PStr (pd_canonical_cwd d)), (''candidate_boundary'', PStr (pd_candidate_boundary d)),
      (''network_allowed'', PBool (pd_network_allowed d)), (''approval_token_id'', opt_pyval (pd_approval_token_id d)),
      (''expected_source_head'', PStr (pd_expected_source_head d)), (''expected_source_tree'', PStr (pd_expected_source_tree d)),
      (''policy_version'', PStr (pd_policy_version d)), (''policy_digest'', PStr (pd_policy_digest d))]"

definition decision_digest :: "runtime \<Rightarrow> policy_decision \<Rightarrow> string" where
  "decision_digest rt d = sha_text rt (canonical_json rt (policy_decision_document d))"

definition decision_to_dict :: "policy_decision \<Rightarrow> pydict" where
  "decision_to_dict d = policy_decision_document d @ [(''decision_digest'', PStr (pd_decision_digest d))]"

definition decision_post_init :: "runtime \<Rightarrow> policy_decision \<Rightarrow> exec_error + policy_decision" where
  "decision_post_init rt d =
     (let d' = d\<lparr>pd_policy_digest := (if pd_policy_digest d \<noteq> [] then pd_policy_digest d else sha_text rt (pd_policy_version d))\<rparr>;
          computed = decision_digest rt d'
      in if pd_decision_digest d' \<noteq> [] \<and> pd_decision_digest d' \<noteq> computed
         then Inl (ContractError ''decision_digest_mismatch'')
         else Inr (d'\<lparr>pd_decision_digest := computed\<rparr>))"

definition revalidate :: "host \<Rightarrow> policy_decision \<Rightarrow> request \<Rightarrow> string \<Rightarrow> string \<Rightarrow> path \<Rightarrow> bool" where
  "revalidate h d r head tree candidate \<longleftrightarrow>
     pd_decision d = ''ALLOW'' \<and> pd_request_digest d = rq_request_digest r \<and>
     pd_expected_source_head d = head \<and> pd_expected_source_tree d = tree \<and>
     path_str (hs_flavour h) (canonicalize_path h candidate) = pd_candidate_boundary d"

section \<open>The evaluator\<close>

text \<open>What a call of the evaluator is about.\<close>

record evaluation =
  eq_request :: request
  eq_candidate_root :: path
  eq_project_root :: "path option"
  eq_filesystem_targets :: "string list"
  eq_approval_token :: "approval_token option"
  eq_current_head :: "string option"
  eq_current_tree :: "string option"
  eq_network_requested :: bool

definition canon_candidate :: "host \<Rightarrow> evaluation \<Rightarrow> path" where
  "canon_candidate h q = canonicalize_path h (eq_candidate_root q)"

definition canon_project :: "host \<Rightarrow> evaluation \<Rightarrow> path" where
  "canon_project h q = (case eq_project_root q of Some p \<Rightarrow> canonicalize_path h p | None \<Rightarrow> canon_candidate h q)"

definition canon_cwd :: "host \<Rightarrow> evaluation \<Rightarrow> path" where
  "canon_cwd h q = canonicalize_path h (locate h (canon_candidate h q) (rq_cwd (eq_request q)))"

definition policy_decide :: "runtime \<Rightarrow> host \<Rightarrow> string \<Rightarrow> evaluation \<Rightarrow> string \<Rightarrow> string \<Rightarrow> string \<Rightarrow> string \<Rightarrow> exec_error + policy_decision" where
  "policy_decide rt h pv q verdict why effect cwd =
     (let r = eq_request q in decision_post_init rt
        \<lparr>pd_execution_id = rq_execution_id r, pd_request_digest = rq_request_digest r, pd_decision = verdict,
         pd_reason_code = why, pd_effect_class = effect, pd_canonical_cwd = cwd,
         pd_candidate_boundary = path_str (hs_flavour h) (canon_candidate h q), pd_network_allowed = False,
         pd_approval_token_id = map_option tk_token_id (eq_approval_token q),
         pd_expected_source_head = rq_expected_source_head r, pd_expected_source_tree = rq_expected_source_tree r,
         pd_policy_version = pv, pd_schema = DECISION_SCHEMA, pd_version = EXECUTION_POLICY_VERSION,
         pd_policy_digest = sha_text rt pv, pd_decision_digest = []\<rparr>)"

definition cwd_refusal :: "host \<Rightarrow> evaluation \<Rightarrow> policy_effect_class \<Rightarrow> string option" where
  "cwd_refusal h q effect =
     (if effect = POLICY_PROJECT_MUTATION then
        if path_eq (hs_flavour h) (canon_candidate h q) (canon_project h q) \<or>
           \<not> is_path_contained h (canon_cwd h q) (canon_candidate h q)
        then Some ''DENY_PROJECT_MUTATION_OUTSIDE_CANDIDATE'' else None
      else if \<not> is_path_contained h (canon_cwd h q) (canon_project h q) then Some ''DENY_CWD_ESCAPE'' else None)"

definition target_refusal :: "host \<Rightarrow> evaluation \<Rightarrow> policy_effect_class \<Rightarrow> string \<Rightarrow> string option" where
  "target_refusal h q effect target =
     (let p = canonicalize_path h (locate h (canon_candidate h q) target) in
      if effect \<in> {POLICY_READ_ONLY, POLICY_SAFE_MUTATION} then
        if \<not> is_path_contained h p (canon_project h q) then Some ''DENY_TARGET_OUTSIDE_PROJECT'' else None
      else if effect = POLICY_PROJECT_MUTATION then
        if \<not> is_path_contained h p (canon_candidate h q) then Some ''DENY_PROJECT_MUTATION_OUTSIDE_CANDIDATE'' else None
      else None)"

fun first_refusal :: "('a \<Rightarrow> string option) \<Rightarrow> 'a list \<Rightarrow> string option" where
  "first_refusal f [] = None"
| "first_refusal f (x # xs) = (case f x of Some c \<Rightarrow> Some c | None \<Rightarrow> first_refusal f xs)"

definition token_refusal :: "evaluation \<Rightarrow> policy_effect_class \<Rightarrow> rat \<Rightarrow> string option" where
  "token_refusal q effect now =
     (let r = eq_request q in
      if effect \<in> {POLICY_ELEVATED, POLICY_DESTRUCTIVE} \<or> rq_elevation_required r then
        (case eq_approval_token q of
           None \<Rightarrow> Some ''DENY_APPROVAL_REQUIRED''
         | Some tk \<Rightarrow>
             (case is_valid_for tk (rq_request_digest r) (opt_default (eq_current_head q) (rq_expected_source_head r))
                     (opt_default (eq_current_tree q) (rq_expected_source_tree r)) now of
                (False, why) \<Rightarrow> Some why
              | (True, _) \<Rightarrow> None))
      else None)"

definition evaluate :: "runtime \<Rightarrow> host \<Rightarrow> string \<Rightarrow> rat \<Rightarrow> evaluation \<Rightarrow> exec_error + policy_decision" where
  "evaluate rt h pv now q =
     (let r = eq_request q; deny = policy_decide rt h pv q ''DENY'' in
      if rq_adapter_id r \<notin> set KNOWN_ADAPTER_IDS then deny ''DENY_UNKNOWN_ADAPTER'' ''UNKNOWN'' []
      else case map_contract_effect_to_policy (effect_value (rq_effect_class r)) of
        Inl _ \<Rightarrow> deny ''DENY_UNKNOWN_EFFECT_CLASS'' ''UNKNOWN'' []
      | Inr effect \<Rightarrow>
          let name = policy_value effect; cwd = path_str (hs_flavour h) (canon_cwd h q) in
          if eq_current_head q \<noteq> None \<and> Some (rq_expected_source_head r) \<noteq> eq_current_head q then deny ''DENY_STALE_HEAD'' name []
          else if eq_current_tree q \<noteq> None \<and> Some (rq_expected_source_tree r) \<noteq> eq_current_tree q then deny ''DENY_STALE_TREE'' name []
          else case cwd_refusal h q effect of Some c \<Rightarrow> deny c name cwd
          | None \<Rightarrow> (case first_refusal (target_refusal h q effect) (eq_filesystem_targets q) of Some c \<Rightarrow> deny c name cwd
          | None \<Rightarrow>
              if eq_network_requested q then deny ''DENY_NETWORK_NOT_PERMITTED'' name cwd
              else case token_refusal q effect now of Some c \<Rightarrow> deny c name cwd
              | None \<Rightarrow> policy_decide rt h pv q ''ALLOW'' ''ALLOW_POLICY_COMPLIANT'' name cwd))"

section \<open>What the evaluator decides\<close>

lemma decide_total:
  "\<exists>d. policy_decide rt h pv q v w effect cwd = Inr d \<and> pd_decision d = v \<and> pd_reason_code d = w \<and> pd_canonical_cwd d = cwd \<and>
     pd_effect_class d = effect \<and> pd_request_digest d = rq_request_digest (eq_request q) \<and>
     pd_expected_source_head d = rq_expected_source_head (eq_request q) \<and>
     pd_expected_source_tree d = rq_expected_source_tree (eq_request q) \<and>
     pd_candidate_boundary d = path_str (hs_flavour h) (canon_candidate h q)"
  by (simp add: policy_decide_def decision_post_init_def Let_def)

lemma decideE:
  assumes "policy_decide rt h pv q v w effect cwd = Inr d"
  shows "pd_decision d = v" "pd_reason_code d = w" "pd_canonical_cwd d = cwd" "pd_effect_class d = effect"
    "pd_request_digest d = rq_request_digest (eq_request q)"
    "pd_expected_source_head d = rq_expected_source_head (eq_request q)"
    "pd_expected_source_tree d = rq_expected_source_tree (eq_request q)"
    "pd_candidate_boundary d = path_str (hs_flavour h) (canon_candidate h q)"
  using assms decide_total[of rt h pv q v w effect cwd] by auto

lemma first_refusal_None: "first_refusal f xs = None \<longleftrightarrow> (\<forall>x\<in>set xs. f x = None)"
  by (induction xs) (auto split: option.splits)

text \<open>The policy class of an effect class; every effect class of a request has one.\<close>

fun policy_of :: "execution_effect_class \<Rightarrow> policy_effect_class" where
  "policy_of READ_ONLY = POLICY_READ_ONLY"
| "policy_of SAFE_MUTATION = POLICY_SAFE_MUTATION"
| "policy_of SAFE_PROJECT_LOCAL_MUTATION = POLICY_SAFE_MUTATION"
| "policy_of PROJECT_MUTATION = POLICY_PROJECT_MUTATION"
| "policy_of SHARED_RESOURCE_MUTATION = POLICY_PROJECT_MUTATION"
| "policy_of NON_REPLAYABLE_MUTATION = POLICY_DESTRUCTIVE"

lemma map_contract_effect [simp]: "map_contract_effect_to_policy (effect_value e) = Inr (policy_of e)"
  by (cases e) (simp_all add: map_contract_effect_to_policy_def)

text \<open>The specification: the sources are the ones the request was made for, no network is asked for, the working
  directory and the targets lie within the boundary of the effect class, and an elevated or destructive request carries an
  unused, unexpired approval of this very request on these sources.\<close>

definition boundary_respected :: "host \<Rightarrow> evaluation \<Rightarrow> bool" where
  "boundary_respected h q \<longleftrightarrow>
     (let fl = hs_flavour h; candidate = canon_candidate h q; project = canon_project h q;
          place = (\<lambda>s. canonicalize_path h (locate h candidate s)) in
      case policy_of (rq_effect_class (eq_request q)) of
        POLICY_PROJECT_MUTATION \<Rightarrow> \<not> path_eq fl candidate project \<and>
          list_all (\<lambda>s. path_within fl (place s) candidate) (rq_cwd (eq_request q) # eq_filesystem_targets q)
      | POLICY_ELEVATED \<Rightarrow> path_within fl (place (rq_cwd (eq_request q))) project
      | POLICY_DESTRUCTIVE \<Rightarrow> path_within fl (place (rq_cwd (eq_request q))) project
      | _ \<Rightarrow> list_all (\<lambda>s. path_within fl (place s) project) (rq_cwd (eq_request q) # eq_filesystem_targets q))"

definition token_approves :: "evaluation \<Rightarrow> rat \<Rightarrow> bool" where
  "token_approves q now \<longleftrightarrow> (case eq_approval_token q of None \<Rightarrow> False
     | Some tk \<Rightarrow> \<not> tk_consumed tk \<and> now \<le> tk_expires_at tk \<and> tk_request_digest tk = rq_request_digest (eq_request q) \<and>
         tk_expected_source_head tk = opt_default (eq_current_head q) (rq_expected_source_head (eq_request q)) \<and>
         tk_expected_source_tree tk = opt_default (eq_current_tree q) (rq_expected_source_tree (eq_request q)))"

definition policy_compliant :: "host \<Rightarrow> rat \<Rightarrow> evaluation \<Rightarrow> bool" where
  "policy_compliant h now q \<longleftrightarrow>
     (let r = eq_request q in
      rq_adapter_id r \<in> set KNOWN_ADAPTER_IDS \<and>
      eq_current_head q \<in> {None, Some (rq_expected_source_head r)} \<and>
      eq_current_tree q \<in> {None, Some (rq_expected_source_tree r)} \<and>
      \<not> eq_network_requested q \<and> boundary_respected h q \<and>
      (rq_effect_class r = NON_REPLAYABLE_MUTATION \<or> rq_elevation_required r \<longrightarrow> token_approves q now))"

lemma token_refusal_None:
  "token_refusal q (policy_of e) now = None \<longleftrightarrow>
     (e = NON_REPLAYABLE_MUTATION \<or> rq_elevation_required (eq_request q) \<longrightarrow> token_approves q now)"
proof -
  have "policy_of e \<in> {POLICY_ELEVATED, POLICY_DESTRUCTIVE} \<longleftrightarrow> e = NON_REPLAYABLE_MUTATION" by (cases e) simp_all
  then show ?thesis
    by (cases "eq_approval_token q") (auto simp: token_refusal_def token_approves_def is_valid_for_def Let_def)
qed

lemma contained_once:
  "resolves_once h \<Longrightarrow> is_path_contained h (canonicalize_path h p) (canonicalize_path h b) \<longleftrightarrow>
     path_within (hs_flavour h) (canonicalize_path h p) (canonicalize_path h b)"
  by (simp add: is_path_contained_def resolves_once_def)

lemma boundary_refusals:
  assumes "resolves_once h"
  shows "cwd_refusal h q (policy_of (rq_effect_class (eq_request q))) = None \<and>
     first_refusal (target_refusal h q (policy_of (rq_effect_class (eq_request q)))) (eq_filesystem_targets q) = None
     \<longleftrightarrow> boundary_respected h q"
proof -
  have once: "is_path_contained h (canonicalize_path h p) (canon_candidate h q) \<longleftrightarrow>
      path_within (hs_flavour h) (canonicalize_path h p) (canon_candidate h q)"
    "is_path_contained h (canonicalize_path h p) (canon_project h q) \<longleftrightarrow>
      path_within (hs_flavour h) (canonicalize_path h p) (canon_project h q)" for p
    using contained_once[OF assms] by (simp_all add: canon_candidate_def canon_project_def split: option.splits)
  show ?thesis
    by (cases "policy_of (rq_effect_class (eq_request q))")
      (auto simp: boundary_respected_def cwd_refusal_def target_refusal_def first_refusal_None canon_cwd_def once Let_def list_all_iff)
qed

lemma evaluate_compliant:
  assumes "resolves_once h" and "policy_compliant h now q"
  shows "evaluate rt h pv now q = policy_decide rt h pv q ''ALLOW'' ''ALLOW_POLICY_COMPLIANT''
     (policy_value (policy_of (rq_effect_class (eq_request q)))) (path_str (hs_flavour h) (canon_cwd h q))"
  using boundary_refusals[OF assms(1), of q] token_refusal_None[of q "rq_effect_class (eq_request q)" now] assms(2)
  by (auto simp: evaluate_def policy_compliant_def Let_def)

lemma evaluate_refuses:
  assumes "resolves_once h" and "\<not> policy_compliant h now q"
  shows "\<exists>d. evaluate rt h pv now q = Inr d \<and> pd_decision d = ''DENY''"
proof -
  have deny: "\<exists>d. policy_decide rt h pv q ''DENY'' w e c = Inr d \<and> pd_decision d = ''DENY''" for w e c
    using decide_total[of rt h pv q "''DENY''" w e c] by blast
  show ?thesis
    using boundary_refusals[OF assms(1), of q] token_refusal_None[of q "rq_effect_class (eq_request q)" now] assms(2)
    by (auto simp: evaluate_def policy_compliant_def Let_def deny split: option.splits)
qed

section \<open>A host for examples\<close>

text \<open>A POSIX host without links whose process runs in the root directory.\<close>

fun path_names :: "string \<Rightarrow> string \<Rightarrow> string list" where
  "path_names w [] = (if w = [] then [] else [w])"
| "path_names w (c # cs) = (if c \<noteq> CHR ''/'' then path_names (w @ [c]) cs
     else if w = [] then path_names [] cs else w # path_names [] cs)"

definition sample_host :: host where
  "sample_host = \<lparr>hs_flavour = Posix,
     parse_path = (\<lambda>s. \<lparr>pt_drive = [], pt_root = (if starts_with ''/'' s then ''/'' else []), pt_parts = path_names [] s\<rparr>),
     resolve_path = (\<lambda>p. p\<lparr>pt_drive := [], pt_root := ''/''\<rparr>)\<rparr>"

definition plain_name :: "string \<Rightarrow> bool" where
  "plain_name s \<longleftrightarrow> s \<noteq> [] \<and> CHR ''/'' \<notin> set s"

lemma path_names_plain: "CHR ''/'' \<notin> set w \<Longrightarrow> list_all plain_name (path_names w s)"
  by (induction w s rule: path_names.induct) (auto simp: plain_name_def)

lemma path_names_word: "CHR ''/'' \<notin> set x \<Longrightarrow> path_names w (x @ ys) = path_names (w @ x) ys"
  by (induction x arbitrary: w) auto

lemma path_names_join: "list_all plain_name xs \<Longrightarrow> path_names [] (join ''/'' xs) = xs"
proof (induction xs rule: induct_list012)
  case (2 x)
  then show ?case using path_names_word[of x "[]" "[]"] by (simp add: plain_name_def)
next
  case (3 x y zs)
  then show ?case by (simp add: plain_name_def path_names_word)
qed simp

lemma sample_host_canonical:
  "canonicalize_path sample_host p = \<lparr>pt_drive = [], pt_root = ''/'', pt_parts = path_names [] (join ''/'' (pt_parts p))\<rparr>"
  by (simp add: canonicalize_path_def sample_host_def path_str_def path_sep_def starts_with_def upper_def upper_char_def code_def Let_def)

lemma sample_host_once: "resolves_once sample_host"
  by (simp add: resolves_once_def sample_host_canonical path_names_join path_names_plain)

section \<open>Single use of approvals\<close>

text \<open>A call that consumes a token, counted as a grant when it is for the given token.\<close>

definition consume_call :: "string \<Rightarrow> approvals \<Rightarrow> string \<times> string \<times> string \<times> string \<times> rat \<Rightarrow> approvals \<times> bool" where
  "consume_call tid reg c = (case c of (t, digest, head, tree, now) \<Rightarrow>
     (case consume reg t digest head tree now of (reg', ok, _) \<Rightarrow> (reg', ok \<and> t = tid)))"

definition uses :: "string \<Rightarrow> approvals \<Rightarrow> nat" where
  "uses tid reg = (case reg tid of Some tk \<Rightarrow> if tk_consumed tk then 1 else 0 | None \<Rightarrow> 0)"

lemma consume_effect:
  "consume reg t digest head tree now = (reg', ok, why) \<Longrightarrow>
     (if ok then \<exists>tk. reg t = Some tk \<and> \<not> tk_consumed tk \<and> reg' = reg(t \<mapsto> tk\<lparr>tk_consumed := True\<rparr>) else reg' = reg)"
  by (auto simp: consume_def is_valid_for_def split: option.splits if_splits)

interpretation approval_use: bounded_grants "consume_call tid" "\<lambda>_. True" "uses tid" 1
proof unfold_locales
  fix reg :: approvals and c :: "string \<times> string \<times> string \<times> string \<times> rat"
  obtain t digest head tree now where c: "c = (t, digest, head, tree, now)" by (cases c)
  obtain reg' ok why where e: "consume reg t digest head tree now = (reg', ok, why)" by (cases "consume reg t digest head tree now")
  note effect = consume_effect[OF e]
  have call: "consume_call tid reg c = (reg', ok \<and> t = tid)" by (simp add: consume_call_def c e)
  show "snd (consume_call tid reg c) \<Longrightarrow> uses tid reg < 1 \<and> uses tid (fst (consume_call tid reg c)) = Suc (uses tid reg)"
    using effect by (auto simp: call uses_def)
  show "\<not> snd (consume_call tid reg c) \<Longrightarrow> uses tid (fst (consume_call tid reg c)) = uses tid reg"
    using effect by (cases ok) (auto simp: call uses_def)
qed simp

section \<open>Properties\<close>

text \<open>C2: On a host whose resolved paths stay resolved, the evaluator always returns a decision, and it allows a call
  exactly when the specification of the policy holds: known adapter, unchanged sources, no network, working directory and
  targets inside the boundary of the effect class, and a valid approval where one is needed.\<close>

theorem policy_allows_exactly:
  assumes "resolves_once h"
  shows "\<exists>d. evaluate rt h pv now q = Inr d \<and> (pd_decision d = ''ALLOW'' \<longleftrightarrow> policy_compliant h now q) \<and>
     (pd_decision d = ''ALLOW'' \<or> pd_decision d = ''DENY'')"
proof (cases "policy_compliant h now q")
  case True
  obtain d where "evaluate rt h pv now q = Inr d" "pd_decision d = ''ALLOW''"
    using evaluate_compliant[OF assms True] decide_total by metis
  with True show ?thesis by simp
next
  case False
  with evaluate_refuses[OF assms False, of rt pv] show ?thesis by auto
qed

text \<open>A candidate beside the project.\<close>

definition sample_evaluation :: evaluation where
  "sample_evaluation = \<lparr>eq_request = example_request, eq_candidate_root = parse_path sample_host ''/cand'',
     eq_project_root = Some (parse_path sample_host ''/proj''), eq_filesystem_targets = [''src''], eq_approval_token = None,
     eq_current_head = None, eq_current_tree = None, eq_network_requested = False\<rparr>"

lemma sample_located:
  "canonicalize_path sample_host (parse_path sample_host ''/cand'') = \<lparr>pt_drive = [], pt_root = ''/'', pt_parts = [''cand'']\<rparr>"
  "canonicalize_path sample_host (parse_path sample_host ''/proj'') = \<lparr>pt_drive = [], pt_root = ''/'', pt_parts = [''proj'']\<rparr>"
  by (simp_all add: sample_host_canonical) (simp_all add: sample_host_def)

lemma sample_compliant: "policy_compliant sample_host 0 sample_evaluation"
  by (simp add: policy_compliant_def sample_evaluation_def example_request_def KNOWN_ADAPTER_IDS_def boundary_respected_def
      canon_candidate_def canon_project_def sample_located Let_def locate_def sample_host_canonical)
    (simp add: sample_host_def path_eq_def same_anchor_def path_within_def is_absolute_def path_join_def starts_with_def norm_case_def)

text \<open>C2 applied to a mutation in a candidate beside the project.\<close>

theorem policy_allows_exactly_witness:
  "\<exists>d. evaluate sample_runtime sample_host ''1.0.0'' 0 sample_evaluation = Inr d \<and> pd_decision d = ''ALLOW''"
  using policy_allows_exactly[OF sample_host_once, of sample_runtime "''1.0.0''" 0 sample_evaluation] sample_compliant by auto

text \<open>Whatever sequence of calls consumes approvals, one token is granted at most once.\<close>

lemma approval_consumed_once:
  "snd (run_requests (consume_call tid) reg calls) \<le> 1"
proof -
  have "uses tid reg \<le> 1" by (simp add: uses_def split: option.splits)
  with approval_use.grants_bounded[where tid = tid and s = reg and rs = calls] show ?thesis by simp
qed

text \<open>The targets of a destructive request are never looked at.\<close>

lemma destructive_targets_ignored:
  assumes "rq_effect_class (eq_request q) = NON_REPLAYABLE_MUTATION"
  shows "evaluate rt h pv now (q\<lparr>eq_filesystem_targets := ts\<rparr>) = evaluate rt h pv now q"
proof -
  let ?q = "q\<lparr>eq_filesystem_targets := ts\<rparr>"
  have none: "first_refusal (target_refusal h p POLICY_DESTRUCTIVE) xs = None" for p xs
    by (simp add: first_refusal_None target_refusal_def)
  have candidate: "canon_candidate h ?q = canon_candidate h q" by (simp add: canon_candidate_def)
  have project: "canon_project h ?q = canon_project h q" by (cases "eq_project_root q") (simp_all add: canon_project_def candidate)
  have cwd: "canon_cwd h ?q = canon_cwd h q" by (simp add: canon_cwd_def candidate)
  have "policy_decide rt h pv ?q v w e c = policy_decide rt h pv q v w e c" for v w e c by (simp add: policy_decide_def candidate)
  then have decision: "policy_decide rt h pv ?q = policy_decide rt h pv q" by (intro ext)
  have refusals: "cwd_refusal h ?q e = cwd_refusal h q e" "token_refusal ?q e now = token_refusal q e now" for e
    by (simp add: cwd_refusal_def candidate project cwd) (cases "eq_approval_token q"; simp add: token_refusal_def Let_def)
  have "map_contract_effect_to_policy ''NON_REPLAYABLE_MUTATION'' = Inr POLICY_DESTRUCTIVE"
    by (simp add: map_contract_effect_to_policy_def)
  with assms show ?thesis
    by (cases "cwd_refusal h q POLICY_DESTRUCTIVE"; cases "token_refusal q POLICY_DESTRUCTIVE now")
      (simp_all add: evaluate_def none refusals decision cwd Let_def)
qed
end
