(* ===== verification/Process_Runner.thy ===== *)
theory Process_Runner
  imports Execution_Policy
begin

text \<open>
  The process runner of \<^verbatim>\<open>src/bdb_vnext/stateless_process_runner.py\<close>: command-line quoting, redaction of environment
  witnesses, and one run of a request under a policy decision. The operating system is a record of what it answers: whether
  the directory exists, what \<open>Popen\<close> does, what each round of the monitoring loop sees, the exit code and the bytes of the
  streams. Handles of job objects and the reader threads are part of it. A timeout of \<open>2^1024\<close> seconds or more, which \<open>float\<close> refuses, is not
  considered.
\<close>

section \<open>Command lines\<close>

definition backslash :: char where
  "backslash = char_of (92::nat)"

definition dquote :: char where
  "dquote = char_of (34::nat)"

definition needs_quotes :: "char \<Rightarrow> bool" where
  "needs_quotes c \<longleftrightarrow> code c \<in> {32, 9, 10, 11, 34}"

text \<open>The loop over the characters of an argument; the first argument counts the backslashes not yet written.\<close>

fun quote_chars :: "nat \<Rightarrow> string \<Rightarrow> string" where
  "quote_chars n [] = (if 0 < n then replicate (2 * n) backslash else []) @ [dquote]"
| "quote_chars n (c # cs) =
     (if c = backslash then quote_chars (Suc n) cs
      else if c = dquote then replicate (2 * n + 1) backslash @ [dquote] @ quote_chars 0 cs
      else (if 0 < n then replicate n backslash else []) @ [c] @ quote_chars 0 cs)"

definition quote_windows_arg :: "string \<Rightarrow> string" where
  "quote_windows_arg arg =
     (if arg = [] then [dquote, dquote]
      else if \<not> list_ex needs_quotes arg then arg
      else dquote # quote_chars 0 arg)"

definition build_windows_cmdline :: "string list \<Rightarrow> string" where
  "build_windows_cmdline argv = join '' '' (map quote_windows_arg argv)"

section \<open>Redaction of environment witnesses\<close>

definition REDACTED :: string where
  "REDACTED = ''[REDACTED_SECRET]''"

definition word_char :: "char \<Rightarrow> bool" where
  "word_char c \<longleftrightarrow> (let n = code c in 48 \<le> n \<and> n \<le> 57 \<or> 65 \<le> n \<and> n \<le> 90 \<or> 97 \<le> n \<and> n \<le> 122 \<or> c = CHR ''_'' \<or> c = CHR ''-'' \<or> c = CHR ''.'')"

text \<open>A word, without regard to case, then at least one separator, then at least \<open>k\<close> characters of a class; the rest of the
  text is returned. The separators and the class are disjoint, so a match takes all of both.\<close>

definition match_word :: "(char \<Rightarrow> bool) \<Rightarrow> (char \<Rightarrow> bool) \<Rightarrow> nat \<Rightarrow> string \<Rightarrow> string \<Rightarrow> string option" where
  "match_word sep cls k s w =
     (let t = drop (length w) s; u = dropWhile sep t in
      if lower (take (length w) s) = lower w \<and> takeWhile sep t \<noteq> [] \<and> k \<le> length (takeWhile cls u)
      then Some (dropWhile cls u) else None)"

text \<open>Alternatives are tried in their order.\<close>

fun match_secret :: "string list \<Rightarrow> (char \<Rightarrow> bool) \<Rightarrow> (char \<Rightarrow> bool) \<Rightarrow> nat \<Rightarrow> string \<Rightarrow> string option" where
  "match_secret [] sep cls k s = None"
| "match_secret (w # ws) sep cls k s =
     (case match_word sep cls k s w of Some rest \<Rightarrow> Some rest | None \<Rightarrow> match_secret ws sep cls k s)"

definition bearer_pattern :: "string \<Rightarrow> string option" where
  "bearer_pattern = match_secret [''Bearer''] is_space (\<lambda>c. word_char c \<or> c = CHR ''='') 1"

definition assignment_pattern :: "string \<Rightarrow> string option" where
  "assignment_pattern = match_secret [''TOKEN'', ''SECRET'', ''PASSWORD'', ''AUTH'', ''KEY'']
     (\<lambda>c. is_space c \<or> c = CHR '':'' \<or> c = CHR ''='') word_char 8"

text \<open>\<open>pattern.sub(REDACTED, text)\<close>; every round consumes a character, so the length of the text is enough fuel.\<close>

fun sub_fuel :: "nat \<Rightarrow> (string \<Rightarrow> string option) \<Rightarrow> string \<Rightarrow> string" where
  "sub_fuel 0 m s = s"
| "sub_fuel (Suc k) m [] = []"
| "sub_fuel (Suc k) m (c # cs) =
     (case m (c # cs) of Some rest \<Rightarrow> REDACTED @ sub_fuel k m rest | None \<Rightarrow> c # sub_fuel k m cs)"

definition sub_secret :: "(string \<Rightarrow> string option) \<Rightarrow> string \<Rightarrow> string" where
  "sub_secret m s = sub_fuel (length s) m s"

definition sensitive_keys :: "string list" where
  "sensitive_keys = [''TOKEN'', ''SECRET'', ''PASSWORD'', ''AUTH'', ''KEY'', ''CREDENTIALS'', ''API_KEY'']"

definition sanitize_env_witness :: "runtime \<Rightarrow> pydict \<Rightarrow> (string \<times> string) list" where
  "sanitize_env_witness rt env =
     map (\<lambda>(k, v). (k, if list_ex (\<lambda>s. contains s (upper k)) sensitive_keys then REDACTED
        else sub_secret assignment_pattern (sub_secret bearer_pattern (py_str rt v)))) env"

section \<open>The operating system\<close>

datatype spawn_answer = Spawned | ExecutableNotFound | SpawnFailed py_error

text \<open>What one round of the loop sees: \<open>proc.poll()\<close>, the clock and the answer of \<open>is_cancelled()\<close>.\<close>

record observation =
  ob_poll :: "int option"
  ob_time :: rat
  ob_cancelled :: bool

record process =
  pr_argv :: "string list"
  pr_cwd :: string
  pr_env :: pydict
  pr_stdin_closed :: bool

record os =
  os_services :: output_services
  os_started_at :: string
  os_completed_at :: string
  os_start_time :: rat
  os_end_time :: rat
  os_cancelled :: bool
  os_path_exists :: "path \<Rightarrow> bool"
  os_executable :: string
  os_environ :: "(string \<times> string) list"
  os_spawn :: "process \<Rightarrow> spawn_answer"
  os_observations :: "process \<Rightarrow> observation list"
  os_final_poll :: "process \<Rightarrow> int option"
  os_stdout :: "process \<Rightarrow> bytes"
  os_stderr :: "process \<Rightarrow> bytes"

datatype ending = Exited | TimedOut | WasCancelled

fun monitor :: "rat \<Rightarrow> rat \<Rightarrow> observation list \<Rightarrow> ending option" where
  "monitor start limit [] = None"
| "monitor start limit (ob # obs) =
     (if ob_poll ob \<noteq> None then Some Exited
      else if limit < ob_time ob - start then Some TimedOut
      else if ob_cancelled ob then Some WasCancelled
      else monitor start limit obs)"

section \<open>One run\<close>

text \<open>\<open>str.encode("utf-8")\<close> on code points up to 255.\<close>

definition utf8_encode :: "string \<Rightarrow> bytes" where
  "utf8_encode s = concat (map (\<lambda>c. let n = code c in
     if n < 128 then [c] else [char_of (192 + n div 64), char_of (128 + n mod 64)]) s)"

text \<open>What a run leaves behind: its result or error, the process it started, and whether it killed the process tree.\<close>

record outcome =
  oc_result :: "exec_error + result"
  oc_process :: "process option"
  oc_killed :: bool

definition build_result :: "runtime \<Rightarrow> os \<Rightarrow> request \<Rightarrow> string \<Rightarrow> string \<Rightarrow> int \<Rightarrow> int \<Rightarrow> bytes \<Rightarrow> bytes \<Rightarrow> mechanical_status \<Rightarrow> ending
    \<Rightarrow> exec_error + result" where
  "build_result rt m r head tree duration exit_code out err status ending =
     ebind (from_bytes (os_services m) ''stdout'' out INLINE_OUTPUT_BYTE_LIMIT) (\<lambda>stdout.
     ebind (from_bytes (os_services m) ''stderr'' err INLINE_OUTPUT_BYTE_LIMIT) (\<lambda>stderr.
       result_post_init rt \<lparr>rs_execution_id = rq_execution_id r, rs_request_digest = rq_request_digest r,
         rs_started_at = os_started_at m, rs_completed_at = os_completed_at m, rs_duration_ms = duration,
         rs_exit_code = exit_code, rs_stdout = stdout, rs_stderr = stderr, rs_observed_source_head = head,
         rs_observed_source_tree = tree, rs_adapter_id = rq_adapter_id r, rs_worker_id = ''worker:local'',
         rs_status = status, rs_timed_out = (ending = TimedOut), rs_cancelled = (ending = WasCancelled),
         rs_cancel_reason = (if ending = WasCancelled then Some ''USER_CANCELLED'' else None),
         rs_schema = RESULT_SCHEMA, rs_version = CONTRACT_VERSION, rs_result_digest = []\<rparr>))"

definition not_started :: "runtime \<Rightarrow> os \<Rightarrow> request \<Rightarrow> string \<Rightarrow> string \<Rightarrow> int \<Rightarrow> string \<Rightarrow> mechanical_status \<Rightarrow> ending \<Rightarrow> outcome" where
  "not_started rt m r head tree exit_code message status ending =
     \<lparr>oc_result = build_result rt m r head tree 0 exit_code [] (utf8_encode message) status ending,
      oc_process = None, oc_killed = False\<rparr>"

fun text_of :: "pyval \<Rightarrow> string" where
  "text_of (PStr s) = s"
| "text_of _ = []"

text \<open>The command: the arguments of the request, or the interpreter on its script, or a command that only prints.\<close>

definition argv_list :: "os \<Rightarrow> request \<Rightarrow> string list" where
  "argv_list m r =
     (if rq_mode r = ARGV \<and> truthy (rq_argv r)
      then (case py_iter (rq_argv r) of Some xs \<Rightarrow> map text_of xs | None \<Rightarrow> [])
      else if rq_mode r = SCRIPT \<and> opt_true (rq_script_content r)
      then [os_executable m, ''-c'', the (rq_script_content r)]
      else [''cmd.exe'', ''/c'', ''echo invalid execution request''])"

definition process_env :: "os \<Rightarrow> request \<Rightarrow> pydict" where
  "process_env m r = foldl (\<lambda>d (k, v). dict_put d k v) (map (\<lambda>(k, v). (k, PStr v)) (os_environ m)) (rq_env_vars r)"

definition process_of :: "os \<Rightarrow> host \<Rightarrow> request \<Rightarrow> policy_decision \<Rightarrow> process" where
  "process_of m h r d = \<lparr>pr_argv = argv_list m r, pr_cwd = path_str (hs_flavour h) (parse_path h (pd_canonical_cwd d)),
     pr_env = process_env m r, pr_stdin_closed = (rq_stdin_policy r = STDIN_DISABLED)\<rparr>"

definition duration_ms :: "os \<Rightarrow> int" where
  "duration_ms m = max 0 (number_int (FloatN ((os_end_time m - os_start_time m) * 1000)))"

definition exit_code_of :: "int option \<Rightarrow> ending \<Rightarrow> int" where
  "exit_code_of poll ending = (case poll of Some c \<Rightarrow> c
     | None \<Rightarrow> (case ending of TimedOut \<Rightarrow> 124 | WasCancelled \<Rightarrow> 130 | Exited \<Rightarrow> - 1))"

fun ending_status :: "ending \<Rightarrow> mechanical_status" where
  "ending_status TimedOut = STATUS_TIMED_OUT"
| "ending_status WasCancelled = STATUS_CANCELLED"
| "ending_status Exited = STATUS_COMPLETED"

text \<open>The run; \<open>None\<close> when the loop is still waiting after everything the operating system has shown.\<close>

definition run :: "runtime \<Rightarrow> os \<Rightarrow> host \<Rightarrow> request \<Rightarrow> policy_decision \<Rightarrow> string \<Rightarrow> string \<Rightarrow> path \<Rightarrow> outcome option" where
  "run rt m h r d head tree candidate =
     (if \<not> revalidate h d r head tree candidate
      then Some (not_started rt m r head tree (- 1) ''Policy revalidation denied before process spawn'' STATUS_FAILED_TO_START Exited)
      else if os_cancelled m
      then Some (not_started rt m r head tree 130 ''Execution cancelled before process spawn'' STATUS_CANCELLED WasCancelled)
      else let p = process_of m h r d in
        if \<not> os_path_exists m (parse_path h (pd_canonical_cwd d))
        then Some (not_started rt m r head tree (- 1)
          (''Specified CWD does not exist: '' @ [char_of (39::nat)] @ pr_cwd p @ [char_of (39::nat)]) STATUS_FAILED_TO_START Exited)
        else case os_spawn m p of
          ExecutableNotFound \<Rightarrow> Some (not_started rt m r head tree (- 1)
            (''Executable not found: '' @ [char_of (39::nat)] @ hd (pr_argv p) @ [char_of (39::nat)]) STATUS_FAILED_TO_START Exited)
        | SpawnFailed err \<Rightarrow> Some \<lparr>oc_result = Inl (PyError err), oc_process = None, oc_killed = False\<rparr>
        | Spawned \<Rightarrow> (case monitor (os_start_time m) (number_float (rq_timeout_seconds r)) (os_observations m p) of
            None \<Rightarrow> None
          | Some ending \<Rightarrow> Some \<lparr>oc_result = build_result rt m r head tree (duration_ms m) (exit_code_of (os_final_poll m p) ending)
                (os_stdout m p) (os_stderr m p) (ending_status ending) ending,
              oc_process = Some p, oc_killed = (ending \<noteq> Exited)\<rparr>))"

section \<open>Arguments read back\<close>

lemma char_distinct [simp]: "dquote \<noteq> backslash" "backslash \<noteq> dquote" "code backslash = 92" "code dquote = 34"
  by (simp_all add: dquote_def backslash_def code_def)

lemma space_distinct [simp]: "CHR '' '' \<noteq> dquote" "CHR '' '' \<noteq> backslash"
  by (simp_all add: dquote_def backslash_def char_of_def)

text \<open>
  A left inverse of the quoting, by which a command line determines its arguments: space and tab separate arguments outside
  quotes; \<open>2n\<close> backslashes before a quote stand for \<open>n\<close> backslashes and the quote opens or closes a quoted part;
  \<open>2n+1\<close> stand for \<open>n\<close> and a literal quote; other backslashes stand for themselves. It is a device of the proof and no
  model of how a program is given its arguments.
\<close>

fun unquote_args :: "bool \<Rightarrow> bool \<Rightarrow> nat \<Rightarrow> string \<Rightarrow> string \<Rightarrow> string list" where
  "unquote_args quoted started n w [] = (if started then [w @ replicate n backslash] else [])"
| "unquote_args quoted started n w (c # cs) =
     (if c = backslash then unquote_args quoted True (Suc n) w cs
      else if c = dquote then
        (if even n then unquote_args (\<not> quoted) True 0 (w @ replicate (n div 2) backslash) cs
         else unquote_args quoted True 0 (w @ replicate (n div 2) backslash @ [dquote]) cs)
      else if \<not> quoted \<and> code c \<in> {32, 9} then
        (if started then (w @ replicate n backslash) # unquote_args False False 0 [] cs else unquote_args False False 0 [] cs)
      else unquote_args quoted True 0 (w @ replicate n backslash @ [c]) cs)"

lemma read_backslashes [simp]:
  "0 < k \<or> started \<Longrightarrow> unquote_args quoted started n w (replicate k backslash @ cs) = unquote_args quoted True (n + k) w cs"
  by (induction k arbitrary: n started) auto

lemma read_quoted:
  "unquote_args True True 0 w (quote_chars n s @ rest) = unquote_args False True 0 (w @ replicate n backslash @ s) rest"
proof (induction n s arbitrary: w rule: quote_chars.induct)
  case (2 n c cs)
  then show ?case by (auto simp: replicate_app_Cons_same)
qed auto

lemma read_plain:
  assumes "\<not> list_ex needs_quotes s" and "rest = [] \<or> hd rest = CHR '' ''" and "started \<or> s \<noteq> []"
  shows "unquote_args False started n w (s @ rest) = (w @ replicate n backslash @ s) # unquote_args False False 0 [] (tl rest)"
  using assms
proof (induction s arbitrary: started n w)
  case Nil
  then show ?case by (cases rest) (auto simp: code_def dest: sym)
next
  case (Cons c s)
  then have c: "code c \<notin> {32, 9}" "c \<noteq> dquote" by (auto simp: needs_quotes_def)
  show ?case
  proof (cases "c = backslash")
    case True
    with Cons show ?thesis by (simp add: replicate_app_Cons_same)
  next
    case False
    with c Cons show ?thesis by simp
  qed
qed

lemma read_argument:
  assumes "rest = [] \<or> hd rest = CHR '' ''"
  shows "unquote_args False False 0 [] (quote_windows_arg arg @ rest) = arg # unquote_args False False 0 [] (tl rest)"
proof -
  have tail: "unquote_args False True 0 w rest = w # unquote_args False False 0 [] (tl rest)" for w
    using assms by (cases rest) (auto simp: code_def dest: sym)
  consider "arg = []" | "arg \<noteq> []" "\<not> list_ex needs_quotes arg" | "arg \<noteq> []" "list_ex needs_quotes arg" by blast
  then show ?thesis
  proof cases
    case 1
    then show ?thesis by (simp add: quote_windows_arg_def tail)
  next
    case 2
    then show ?thesis using read_plain[OF _ assms, of arg False 0 "[]"] by (simp add: quote_windows_arg_def)
  next
    case 3
    then show ?thesis using read_quoted[of "[]" 0 arg rest] by (simp add: quote_windows_arg_def tail)
  qed
qed

section \<open>No secret left after redaction\<close>

text \<open>A text after substitution is the text before it, or agrees with it up to a bracket.\<close>

definition cut_by :: "string \<Rightarrow> string \<Rightarrow> bool" where
  "cut_by out s \<longleftrightarrow> out = s \<or> (\<exists>x y z. out = x @ CHR ''['' # y \<and> s = x @ z)"

lemma REDACTED_Cons: "REDACTED = CHR ''['' # ''REDACTED_SECRET]''"
  by (simp add: REDACTED_def)

lemma cut_by_Cons: "cut_by out s \<Longrightarrow> cut_by (c # out) (c # s)"
  unfolding cut_by_def by (metis append_Cons)

lemma sub_cut: "cut_by (sub_fuel k m s) s"
proof (induction k m s rule: sub_fuel.induct)
  case (3 k m c cs)
  show ?case
  proof (cases "m (c # cs)")
    case None
    with 3 show ?thesis by (simp add: cut_by_Cons)
  next
    case (Some rest)
    then have "sub_fuel (Suc k) m (c # cs) = [] @ CHR ''['' # (''REDACTED_SECRET]'' @ sub_fuel k m rest)" by (simp add: REDACTED_Cons)
    then show ?thesis unfolding cut_by_def by blast
  qed
qed (simp_all add: cut_by_def)

text \<open>Matchers that never look past a bracket.\<close>

definition stops_at_bracket :: "(string \<Rightarrow> string option) \<Rightarrow> bool" where
  "stops_at_bracket m \<longleftrightarrow> (\<forall>out s. cut_by out s \<longrightarrow> m out \<noteq> None \<longrightarrow> m s \<noteq> None)"

lemma takeWhile_stop: "\<not> P c \<Longrightarrow> takeWhile P (a @ c # y) = takeWhile P a"
  by (induction a) auto

lemma takeWhile_longer: "length (takeWhile P a) \<le> length (takeWhile P (a @ z))"
  by (induction a) auto

lemma lower_bracket: "CHR ''['' \<in> set s \<Longrightarrow> CHR ''['' \<in> set (lower s)"
  by (induction s) (auto simp: lower_def lower_char_def code_def)

lemma match_word_stops:
  assumes "\<not> sep (CHR ''['')" and "\<not> cls (CHR ''['')" and "0 < k" and "CHR ''['' \<notin> set (lower w)"
    and "match_word sep cls k (x @ CHR ''['' # y) w \<noteq> None"
  shows "match_word sep cls k (x @ z) w \<noteq> None"
proof -
  let ?out = "x @ CHR ''['' # y"
  have word: "lower (take (length w) ?out) = lower w" using assms(5) by (simp add: match_word_def Let_def split: if_splits)
  have "CHR ''['' \<notin> set (take (length w) ?out)" using word assms(4) lower_bracket by metis
  then have len: "length w \<le> length x" by (auto simp: take_Cons' split: if_splits)
  define a where "a = drop (length w) x"
  have a: "takeWhile sep (a @ CHR ''['' # y) \<noteq> []" "k \<le> length (takeWhile cls (dropWhile sep (a @ CHR ''['' # y)))"
    using assms(5) len by (simp_all add: match_word_def Let_def a_def split: if_splits)
  obtain c where c: "c \<in> set a" "\<not> sep c"
    using a(2) assms(1-3) by (cases "\<forall>c\<in>set a. sep c") (auto simp: dropWhile_append2)
  then have drop: "dropWhile sep (a @ b) = dropWhile sep a @ b" for b by (simp add: dropWhile_append1)
  have "k \<le> length (takeWhile cls (dropWhile sep a @ z))"
    using a(2) takeWhile_longer[of cls "dropWhile sep a" z] by (simp add: drop takeWhile_stop assms(2))
  moreover have "takeWhile sep (a @ z) \<noteq> []" using a(1) c(1) by (cases a) (auto split: if_splits)
  moreover have "lower (take (length w) (x @ z)) = lower w" using word len by simp
  ultimately show ?thesis using len by (simp add: match_word_def Let_def drop a_def[symmetric])
qed

lemma match_secret_ex: "match_secret ws sep cls k s \<noteq> None \<longleftrightarrow> (\<exists>w\<in>set ws. match_word sep cls k s w \<noteq> None)"
  by (induction ws) (auto split: option.splits)

lemma match_secret_stops:
  assumes "\<not> sep (CHR ''['')" and "\<not> cls (CHR ''['')" and "0 < k" and "\<forall>w\<in>set ws. CHR ''['' \<notin> set (lower w)"
  shows "stops_at_bracket (match_secret ws sep cls k)"
proof -
  have "\<exists>w\<in>set ws. match_word sep cls k s w \<noteq> None"
    if cut: "cut_by out s" and w: "w \<in> set ws" "match_word sep cls k out w \<noteq> None" for out s w
    unfolding cut_by_def using cut[unfolded cut_by_def] w match_word_stops[where sep = sep and cls = cls and k = k and w = w] assms by metis
  then show ?thesis unfolding stops_at_bracket_def match_secret_ex by blast
qed

fun tails :: "'a list \<Rightarrow> 'a list list" where
  "tails [] = []"
| "tails (x # xs) = (x # xs) # tails xs"

text \<open>The pattern matches somewhere in the text.\<close>

definition leaks :: "(string \<Rightarrow> string option) \<Rightarrow> string \<Rightarrow> bool" where
  "leaks m s \<longleftrightarrow> list_ex (\<lambda>t. m t \<noteq> None) (tails s)"

definition ignores_redacted :: "(string \<Rightarrow> string option) \<Rightarrow> bool" where
  "ignores_redacted m \<longleftrightarrow> (\<forall>t\<in>set (tails REDACTED). \<forall>y. m (t @ y) = None)"

lemma leaks_append: "leaks m (t @ y) \<longleftrightarrow> list_ex (\<lambda>u. m (u @ y) \<noteq> None) (tails t) \<or> leaks m y"
  by (induction t) (auto simp: leaks_def)

lemma sub_no_leak:
  assumes "stops_at_bracket m" and "ignores_redacted m"
  shows "m = m' \<and> length s \<le> k \<or> \<not> leaks m s \<Longrightarrow> (\<And>t rest. m' t = Some rest \<Longrightarrow> \<exists>p. t = p @ rest \<and> p \<noteq> []) \<Longrightarrow>
    \<not> leaks m (sub_fuel k m' s)"
proof (induction k m' s rule: sub_fuel.induct)
  case (3 k m' c cs)
  show ?case
  proof (cases "m' (c # cs)")
    case None
    have "m (c # cs) = None" using 3 None by (auto simp: leaks_def)
    moreover have "cut_by (c # sub_fuel k m' cs) (c # cs)" by (simp add: sub_cut cut_by_Cons)
    ultimately have "m (c # sub_fuel k m' cs) = None" using assms(1) unfolding stops_at_bracket_def by (metis not_Some_eq)
    with 3 None show ?thesis by (auto simp: leaks_def)
  next
    case (Some rest)
    then obtain p where p: "c # cs = p @ rest" "p \<noteq> []" using 3(4) by blast
    then have "length rest \<le> length cs" by (cases p) auto
    moreover have "\<not> leaks m (c # cs) \<Longrightarrow> \<not> leaks m rest" using p by (simp add: leaks_append)
    ultimately have "\<not> leaks m (sub_fuel k m' rest)" using 3 Some by auto
    moreover have "\<not> list_ex (\<lambda>u. m (u @ sub_fuel k m' rest) \<noteq> None) (tails REDACTED)"
      using assms(2) by (auto simp: ignores_redacted_def list_ex_iff)
    ultimately show ?thesis using Some by (simp add: leaks_append)
  qed
qed (auto simp: leaks_def)

lemma match_word_consumes:
  assumes "match_word sep cls k s w = Some rest" and "0 < k"
  shows "\<exists>p. s = p @ rest \<and> p \<noteq> []"
proof -
  define u where "u = dropWhile sep (drop (length w) s)"
  have rest: "rest = dropWhile cls u" and k: "k \<le> length (takeWhile cls u)"
    using assms(1) by (auto simp: match_word_def Let_def u_def split: if_splits)
  have "s = take (length w) s @ takeWhile sep (drop (length w) s) @ takeWhile cls u @ rest"
    by (simp add: rest u_def)
  then have "s = (take (length w) s @ takeWhile sep (drop (length w) s) @ takeWhile cls u) @ rest" by simp
  with k assms(2) show ?thesis by (metis append_is_Nil_conv length_greater_0_conv less_le_trans)
qed

lemma match_secret_consumes: "match_secret ws sep cls k s = Some rest \<Longrightarrow> 0 < k \<Longrightarrow> \<exists>p. s = p @ rest \<and> p \<noteq> []"
  by (induction ws) (auto split: option.splits dest: match_word_consumes)

lemma patterns_stop: "stops_at_bracket bearer_pattern" "stops_at_bracket assignment_pattern"
  unfolding bearer_pattern_def assignment_pattern_def
  by (rule match_secret_stops; simp add: is_space_def word_char_def code_def lower_def lower_char_def char_of_def)+

lemma patterns_consume:
  "bearer_pattern s = Some rest \<Longrightarrow> \<exists>p. s = p @ rest \<and> p \<noteq> []"
  "assignment_pattern s = Some rest \<Longrightarrow> \<exists>p. s = p @ rest \<and> p \<noteq> []"
  unfolding bearer_pattern_def assignment_pattern_def by (erule match_secret_consumes; simp)+

lemma patterns_ignore_redacted: "ignores_redacted bearer_pattern" "ignores_redacted assignment_pattern"
  by (simp_all add: ignores_redacted_def REDACTED_def bearer_pattern_def assignment_pattern_def match_word_def Let_def
      lower_def lower_char_def code_def is_space_def char_of_def)

section \<open>Properties\<close>

lemma unquote_command_line: "unquote_args False False 0 [] (build_windows_cmdline argv) = argv"
proof (induction argv rule: induct_list012)
  case (2 x)
  show ?case using read_argument[of "[]" x] by (simp add: build_windows_cmdline_def)
next
  case (3 x y zs)
  have "build_windows_cmdline (x # y # zs) = quote_windows_arg x @ CHR '' '' # build_windows_cmdline (y # zs)"
    by (simp add: build_windows_cmdline_def)
  with 3 show ?case
    using read_argument[of "CHR '' '' # build_windows_cmdline (y # zs)" x] by simp
qed (simp add: build_windows_cmdline_def)

text \<open>C22: A command line determines its arguments: two different lists of arguments, with whatever quotes, backslashes, spaces and
  empty arguments, are never written as the same command line, so no argument can pass for several or for a part of another.\<close>

theorem command_line_injective: "inj build_windows_cmdline"
  by (rule inj_on_inverseI[where g = "unquote_args False False 0 []"]) (rule unquote_command_line)

text \<open>C27: In a sanitised environment every variable with a sensitive name is redacted, and in no other value is there
  anything left that looks like a bearer token or an assigned secret.\<close>

theorem sanitized_environment_has_no_secret:
  assumes "(k, v) \<in> set (sanitize_env_witness rt env)"
  shows "(list_ex (\<lambda>s. contains s (upper k)) sensitive_keys \<longrightarrow> v = REDACTED) \<and>
     \<not> leaks bearer_pattern v \<and> \<not> leaks assignment_pattern v"
proof -
  have clean: "\<not> leaks bearer_pattern REDACTED" "\<not> leaks assignment_pattern REDACTED"
    using patterns_ignore_redacted by (simp_all add: leaks_def ignores_redacted_def list_ex_iff) (metis append_Nil2 option.simps(3))+
  have once: "\<not> leaks bearer_pattern (sub_secret bearer_pattern s)" for s
    unfolding sub_secret_def by (rule sub_no_leak[OF patterns_stop(1) patterns_ignore_redacted(1)]) (auto dest: patterns_consume)
  have kept: "\<not> leaks bearer_pattern s \<Longrightarrow> \<not> leaks bearer_pattern (sub_secret assignment_pattern s)" for s
    unfolding sub_secret_def by (rule sub_no_leak[OF patterns_stop(1) patterns_ignore_redacted(1)]) (auto dest: patterns_consume)
  have twice: "\<not> leaks assignment_pattern (sub_secret assignment_pattern s)" for s
    unfolding sub_secret_def by (rule sub_no_leak[OF patterns_stop(2) patterns_ignore_redacted(2)]) (auto dest: patterns_consume)
  obtain x where v: "v = (if list_ex (\<lambda>s. contains s (upper k)) sensitive_keys then REDACTED
      else sub_secret assignment_pattern (sub_secret bearer_pattern (py_str rt x)))"
    using assms by (auto simp: sanitize_env_witness_def)
  then show ?thesis using clean once[of "py_str rt x"] kept[of "sub_secret bearer_pattern (py_str rt x)"] twice by simp
qed

text \<open>C27 applied to a bearer token in a variable with a harmless name.\<close>

theorem sanitized_environment_has_no_secret_witness:
  "\<not> leaks bearer_pattern (snd (hd (sanitize_env_witness sample_runtime [(''PATH'', PStr ''Bearer abc'')])))"
proof -
  obtain k v where kv: "sanitize_env_witness sample_runtime [(''PATH'', PStr ''Bearer abc'')] = [(k, v)]"
    by (simp add: sanitize_env_witness_def)
  then have "(k, v) \<in> set (sanitize_env_witness sample_runtime [(''PATH'', PStr ''Bearer abc'')])" by simp
  from sanitized_environment_has_no_secret[OF this] kv show ?thesis by simp
qed

section \<open>Runs\<close>

lemma from_bytes_stream:
  assumes "stream \<in> {''stdout'', ''stderr''}"
  shows "\<exists>ev. from_bytes sv stream data limit = Inr ev \<and> evidence_ok ev"
  using assms by (auto simp: from_bytes_def evidence_ok_def evidence_post_init_def Let_def starts_with_def)

lemma request_digest_form: "request_ok rt r \<Longrightarrow> starts_with ''sha256:'' (rq_request_digest r) \<and> rq_execution_id r \<noteq> []"
proof -
  assume ok: "request_ok rt r"
  have "rq_execution_id r \<noteq> []" using request_okD(1)[OF ok] by (simp add: request_refusal_None)
  moreover obtain w where "rq_request_digest r = sha_text rt (canonical_json rt (request_document rt r w))"
    using request_okD(4)[OF ok] unfolding request_digest_def ebind_Inr_iff by (metis Inr_inject)
  ultimately show ?thesis by (simp add: sha_text_def starts_with_def)
qed

text \<open>The fields of a result that the properties below speak about.\<close>

definition reports :: "request \<Rightarrow> string \<Rightarrow> string \<Rightarrow> int \<Rightarrow> mechanical_status \<Rightarrow> result \<Rightarrow> bool" where
  "reports r head tree exit_code status rs \<longleftrightarrow> rs_execution_id rs = rq_execution_id r \<and> rs_request_digest rs = rq_request_digest r \<and>
     rs_observed_source_head rs = head \<and> rs_observed_source_tree rs = tree \<and> rs_exit_code rs = exit_code \<and> rs_status rs = status"

lemma build_result_total:
  assumes "request_ok rt r" and "0 \<le> duration"
  shows "\<exists>rs. build_result rt m r head tree duration exit_code out err status ending = Inr rs \<and> result_ok rt rs \<and>
     reports r head tree exit_code status rs"
proof -
  obtain e1 e2 where "from_bytes (os_services m) ''stdout'' out INLINE_OUTPUT_BYTE_LIMIT = Inr e1" "evidence_ok e1"
    "from_bytes (os_services m) ''stderr'' err INLINE_OUTPUT_BYTE_LIMIT = Inr e2" "evidence_ok e2"
    using from_bytes_stream[of "''stdout''"] from_bytes_stream[of "''stderr''"] by blast
  note streams = this
  obtain rs where rs: "build_result rt m r head tree duration exit_code out err status ending = Inr rs"
      "reports r head tree exit_code status rs"
    using streams(1,3) request_digest_form[OF assms(1)] assms(2) by (simp add: build_result_def result_post_init_def reports_def)
  moreover have "result_ok rt rs"
    using rs(1) streams unfolding build_result_def by (simp del: if_split) (erule result_post_init_ok; simp)
  ultimately show ?thesis by blast
qed

lemma duration_nonneg: "0 \<le> duration_ms m"
  by (simp add: duration_ms_def)

lemma run_processD:
  assumes "run rt m h r d head tree candidate = Some oc" and "oc_process oc = Some p"
  shows "revalidate h d r head tree candidate" and "\<not> os_cancelled m" and "p = process_of m h r d"
    and "\<exists>ending. monitor (os_start_time m) (number_float (rq_timeout_seconds r)) (os_observations m p) = Some ending \<and>
      oc_killed oc = (ending \<noteq> Exited) \<and>
      oc_result oc = build_result rt m r head tree (duration_ms m) (exit_code_of (os_final_poll m p) ending)
        (os_stdout m p) (os_stderr m p) (ending_status ending) ending"
  using assms by (auto simp: run_def not_started_def Let_def split: if_splits spawn_answer.splits option.splits)

lemma monitor_ends:
  "ob \<in> set obs \<Longrightarrow> ob_poll ob \<noteq> None \<or> limit < ob_time ob - start \<Longrightarrow> \<exists>ending. monitor start limit obs = Some ending"
  by (induction obs) auto

lemma monitor_exited:
  "monitor start limit obs = Some Exited \<Longrightarrow> \<exists>ob\<in>set obs. ob_poll ob \<noteq> None"
  by (induction obs) (auto split: if_splits)

lemma monitor_timed_out:
  "monitor start limit obs = Some TimedOut \<Longrightarrow> \<exists>ob\<in>set obs. limit < ob_time ob - start"
  by (induction obs) (auto split: if_splits)

lemma monitor_cancelled:
  "monitor start limit obs = Some WasCancelled \<Longrightarrow> \<exists>ob\<in>set obs. ob_cancelled ob"
  by (induction obs) (auto split: if_splits)

text \<open>C4: A run starts a process only for a decision that still allows this very request on the current sources and this
  candidate; the process has the arguments of the request and the directory of the decision, its result is well formed,
  carries the digest of the request, and says COMPLETED only if the process ended by itself; otherwise its tree was killed.\<close>

theorem process_only_when_revalidated:
  assumes "request_ok rt r" and "run rt m h r d head tree candidate = Some oc" and "oc_process oc = Some p"
  shows "revalidate h d r head tree candidate \<and> pd_expected_source_head d = head \<and> pd_expected_source_tree d = tree \<and>
     pr_cwd p = path_str (hs_flavour h) (parse_path h (pd_canonical_cwd d)) \<and>
     (rq_mode r = ARGV \<longrightarrow> rq_argv r = PList (map PStr (pr_argv p))) \<and>
     (\<exists>rs. oc_result oc = Inr rs \<and> result_ok rt rs \<and> rs_request_digest rs = rq_request_digest r \<and>
        (rs_status rs = STATUS_COMPLETED \<longleftrightarrow> \<not> oc_killed oc) \<and>
        (rs_status rs = STATUS_COMPLETED \<longrightarrow> (\<exists>ob\<in>set (os_observations m p). ob_poll ob \<noteq> None)))"
proof -
  note facts = run_processD[OF assms(2,3)]
  obtain ending where ending: "monitor (os_start_time m) (number_float (rq_timeout_seconds r)) (os_observations m p) = Some ending"
    "oc_killed oc = (ending \<noteq> Exited)"
    "oc_result oc = build_result rt m r head tree (duration_ms m) (exit_code_of (os_final_poll m p) ending)
        (os_stdout m p) (os_stderr m p) (ending_status ending) ending" using facts(4) by blast
  obtain rs where rs: "oc_result oc = Inr rs" "result_ok rt rs"
    "reports r head tree (exit_code_of (os_final_poll m p) ending) (ending_status ending) rs"
    using build_result_total[OF assms(1) duration_nonneg] ending(3) by metis
  have status: "rs_status rs = ending_status ending" "rs_request_digest rs = rq_request_digest r" using rs(3) by (simp_all add: reports_def)
  have argv: "rq_mode r = ARGV \<longrightarrow> rq_argv r = PList (map PStr (pr_argv p))"
  proof
    assume mode: "rq_mode r = ARGV"
    have "mode_refusal r = None" using request_okD(1)[OF assms(1)] by (simp add: request_refusal_None)
    with mode obtain xs where xs: "rq_argv r = PList xs" "xs \<noteq> []" "list_all is_text xs"
      by (auto simp: mode_refusal_def split: pyval.splits if_splits)
    from xs(3) have "map PStr (map text_of xs) = xs"
      by (induction xs) (auto simp: is_text_def split: pyval.splits)
    with xs mode show "rq_argv r = PList (map PStr (pr_argv p))" by (simp add: facts(3) process_of_def argv_list_def del: map_map)
  qed
  from facts(1) have "pd_expected_source_head d = head" "pd_expected_source_tree d = tree" by (simp_all add: revalidate_def)
  moreover have "pr_cwd p = path_str (hs_flavour h) (parse_path h (pd_canonical_cwd d))" by (simp add: facts(3) process_of_def)
  moreover have "(rs_status rs = STATUS_COMPLETED) = (\<not> oc_killed oc)" by (cases ending) (simp_all add: status ending(2))
  moreover have "rs_status rs = STATUS_COMPLETED \<Longrightarrow> \<exists>ob\<in>set (os_observations m p). ob_poll ob \<noteq> None"
    using ending(1) monitor_exited by (cases ending) (auto simp: status)
  ultimately show ?thesis using facts(1) argv rs(1,2) status(2) by blast
qed

text \<open>An accepted request, its allowing decision and an operating system on which the process ends with code 0.\<close>

definition accepted_request :: request where
  "accepted_request = example_request\<lparr>rq_request_digest := (case request_digest sample_runtime example_request of Inr c \<Rightarrow> c | Inl _ \<Rightarrow> [])\<rparr>"

definition accepted_evaluation :: evaluation where
  "accepted_evaluation = sample_evaluation\<lparr>eq_request := accepted_request, eq_current_head := Some [], eq_current_tree := Some []\<rparr>"

definition sample_os :: os where
  "sample_os = \<lparr>os_services = sample_output_services, os_started_at = ''t0'', os_completed_at = ''t1'', os_start_time = 0,
     os_end_time = 1, os_cancelled = False, os_path_exists = (\<lambda>_. True), os_executable = ''python'', os_environ = [],
     os_spawn = (\<lambda>_. Spawned), os_observations = (\<lambda>_. [\<lparr>ob_poll = Some 0, ob_time = 1, ob_cancelled = False\<rparr>]),
     os_final_poll = (\<lambda>_. Some 0), os_stdout = (\<lambda>_. ''ok''), os_stderr = (\<lambda>_. [])\<rparr>"

lemma accepted_request_ok: "request_ok sample_runtime accepted_request"
proof -
  obtain q where q: "request_post_init sample_runtime example_request = Inr q" using example_request_accepted by blast
  then have "q = accepted_request"
    by (auto simp: request_post_init_def request_refusal_def mode_refusal_def script_refused_def with_script_digest_def
        KNOWN_ADAPTER_IDS_def is_text_def accepted_request_def example_request_def ebind_Inr_iff split: if_splits)
  with q show ?thesis using request_post_init_ok by blast
qed

lemma accepted_fields [simp]:
  "rq_cwd accepted_request = ''.''" "rq_effect_class accepted_request = PROJECT_MUTATION" "rq_mode accepted_request = ARGV"
  "rq_expected_source_head accepted_request = []" "rq_expected_source_tree accepted_request = []"
  "rq_elevation_required accepted_request = False" "rq_adapter_id accepted_request = ''tool.python''"
  by (simp_all add: accepted_request_def example_request_def)

lemma accepted_compliant: "policy_compliant sample_host 0 accepted_evaluation"
  by (simp add: policy_compliant_def accepted_evaluation_def sample_evaluation_def KNOWN_ADAPTER_IDS_def boundary_respected_def
      canon_candidate_def canon_project_def sample_located Let_def locate_def sample_host_canonical)
    (simp add: sample_host_def path_eq_def same_anchor_def path_within_def is_absolute_def path_join_def starts_with_def norm_case_def)

lemma accepted_decision:
  "\<exists>d. evaluate sample_runtime sample_host ''1.0.0'' 0 accepted_evaluation = Inr d \<and>
     revalidate sample_host d accepted_request [] [] (parse_path sample_host ''/cand'')"
proof -
  obtain d where d: "evaluate sample_runtime sample_host ''1.0.0'' 0 accepted_evaluation = Inr d" "pd_decision d = ''ALLOW''"
    using evaluate_compliant[OF sample_host_once accepted_compliant] decide_total by metis
  note fields = decideE[OF d(1)[unfolded evaluate_compliant[OF sample_host_once accepted_compliant]]]
  have "revalidate sample_host d accepted_request [] [] (parse_path sample_host ''/cand'')"
    using d(2) fields by (simp add: revalidate_def accepted_evaluation_def sample_evaluation_def canon_candidate_def)
  with d(1) show ?thesis by blast
qed

text \<open>C4 applied to the accepted example request.\<close>

theorem process_only_when_revalidated_witness:
  "\<exists>d oc p rs. run sample_runtime sample_os sample_host accepted_request d [] [] (parse_path sample_host ''/cand'') = Some oc \<and>
     oc_process oc = Some p \<and> pr_argv p = [''python'', ''-V''] \<and> oc_result oc = Inr rs \<and> \<not> oc_killed oc"
proof -
  obtain d where d: "revalidate sample_host d accepted_request [] [] (parse_path sample_host ''/cand'')" using accepted_decision by blast
  let ?p = "process_of sample_os sample_host accepted_request d"
  obtain oc where oc: "run sample_runtime sample_os sample_host accepted_request d [] [] (parse_path sample_host ''/cand'') = Some oc"
    "oc_process oc = Some ?p" "\<not> oc_killed oc"
    using d by (simp add: run_def sample_os_def Let_def)
  have "rq_argv accepted_request = PList [PStr ''python'', PStr ''-V'']" by (simp add: accepted_request_def example_request_def)
  then have "pr_argv ?p = [''python'', ''-V'']" by (simp add: process_of_def argv_list_def)
  with process_only_when_revalidated[OF accepted_request_ok oc(1,2)] oc show ?thesis by blast
qed

text \<open>The monitoring loop always ends: as soon as a round sees the process gone, or sees more time gone by than the
  timeout of the request, the run returns.\<close>

lemma run_returns:
  assumes "ob \<in> set (os_observations m (process_of m h r d))"
    and "ob_poll ob \<noteq> None \<or> number_float (rq_timeout_seconds r) < ob_time ob - os_start_time m"
  shows "\<exists>oc. run rt m h r d head tree candidate = Some oc"
  using monitor_ends[OF assms] by (auto simp: run_def Let_def split: spawn_answer.splits)

end
