(* ===== verification/Candidate_Bridge.thy ===== *)
theory Candidate_Bridge
  imports Process_Runner
begin

text \<open>
  The bridge of \<^verbatim>\<open>src/bdb_vnext/candidate_execution_bridge.py\<close>: a request is run in a candidate workspace under the policy and
  the runner, and a successful run gives a promotion eligibility record. The step that would validate the candidate calls a
  method that \<open>ValidationRunner\<close> does not have, so with a validation policy the call ends in \<open>AttributeError\<close> after the run.
\<close>

section \<open>Eligibility records\<close>

definition PROMOTION_ELIGIBILITY_SCHEMA :: string where
  "PROMOTION_ELIGIBILITY_SCHEMA = ''bdb-vnext-promotion-eligibility-v1''"

record eligibility =
  el_candidate_id :: string
  el_project_id :: string
  el_baseline_head :: string
  el_baseline_tree :: string
  el_candidate_tree :: string
  el_validation_evidence_digest :: string
  el_execution_request_digest :: string
  el_policy_decision_digest :: string
  el_is_eligible :: bool
  el_created_at :: string
  el_schema :: string
  el_version :: string
  el_eligibility_digest :: string

definition eligibility_document :: "eligibility \<Rightarrow> pydict" where
  "eligibility_document e =
     [(''schema'', PStr (el_schema e)), (''version'', PStr (el_version e)), (''candidate_id'', PStr (el_candidate_id e)),
      (''project_id'', PStr (el_project_id e)), (''baseline_head'', PStr (el_baseline_head e)),
      (''baseline_tree'', PStr (el_baseline_tree e)), (''candidate_tree'', PStr (el_candidate_tree e)),
      (''validation_evidence_digest'', PStr (el_validation_evidence_digest e)),
      (''execution_request_digest'', PStr (el_execution_request_digest e)),
      (''policy_decision_digest'', PStr (el_policy_decision_digest e)), (''is_eligible'', PBool (el_is_eligible e)),
      (''created_at'', PStr (el_created_at e))]"

definition eligibility_digest :: "runtime \<Rightarrow> eligibility \<Rightarrow> string" where
  "eligibility_digest rt e = sha_text rt (canonical_json rt (eligibility_document e))"

definition eligibility_post_init :: "runtime \<Rightarrow> eligibility \<Rightarrow> exec_error + eligibility" where
  "eligibility_post_init rt e =
     (if el_eligibility_digest e \<noteq> [] \<and> el_eligibility_digest e \<noteq> eligibility_digest rt e
      then Inl (ContractError ''digest_mismatch'') else Inr (e\<lparr>el_eligibility_digest := eligibility_digest rt e\<rparr>))"

definition is_stale :: "eligibility \<Rightarrow> string \<Rightarrow> string \<Rightarrow> bool" where
  "is_stale e head tree \<longleftrightarrow> el_baseline_head e \<noteq> head \<or> el_baseline_tree e \<noteq> tree"

section \<open>The bridge\<close>

record bridge_call =
  bc_request :: request
  bc_candidate_root :: path
  bc_active_root :: path
  bc_head :: string
  bc_tree :: string
  bc_candidate_id :: string
  bc_validate :: bool

text \<open>What a call leaves behind: what it returns or raises, and the process that was started.\<close>

type_synonym bridge_outcome = "(exec_error + result \<times> eligibility option) \<times> process option"

definition bridge_refusal :: "host \<Rightarrow> bridge_call \<Rightarrow> string option" where
  "bridge_refusal h c =
     (let r = bc_request c; fl = hs_flavour h; candidate = canonicalize_path h (bc_candidate_root c);
          active = canonicalize_path h (bc_active_root c) in
      if path_eq fl candidate active then Some ''direct_active_write_blocked''
      else if path_eq fl (canonicalize_path h (locate h candidate (rq_cwd r))) active then Some ''direct_active_write_blocked''
      else if rq_expected_source_head r \<noteq> bc_head c then Some ''stale_head_stop''
      else if rq_expected_source_tree r \<noteq> bc_tree c then Some ''stale_tree_stop''
      else None)"

definition bridge_evaluation :: "host \<Rightarrow> bridge_call \<Rightarrow> evaluation" where
  "bridge_evaluation h c = \<lparr>eq_request = bc_request c, eq_candidate_root = canonicalize_path h (bc_candidate_root c),
     eq_project_root = Some (canonicalize_path h (bc_active_root c)), eq_filesystem_targets = [], eq_approval_token = None,
     eq_current_head = Some (bc_head c), eq_current_tree = Some (bc_tree c), eq_network_requested = False\<rparr>"

definition candidate_tree :: "runtime \<Rightarrow> bridge_call \<Rightarrow> string" where
  "candidate_tree rt c = ''sha256:'' @ take 40 (hexdigest (sha256 rt (''tree:'' @ bc_candidate_id c @ '':'' @ bc_head c)))"

definition eligibility_of :: "runtime \<Rightarrow> bridge_call \<Rightarrow> policy_decision \<Rightarrow> string \<Rightarrow> exec_error + eligibility" where
  "eligibility_of rt c d created =
     eligibility_post_init rt \<lparr>el_candidate_id = bc_candidate_id c, el_project_id = rq_project_id (bc_request c),
       el_baseline_head = bc_head c, el_baseline_tree = bc_tree c, el_candidate_tree = candidate_tree rt c,
       el_validation_evidence_digest = sha_text rt ''VALIDATION_SKIPPED'',
       el_execution_request_digest = rq_request_digest (bc_request c), el_policy_decision_digest = pd_decision_digest d,
       el_is_eligible = True, el_created_at = created, el_schema = PROMOTION_ELIGIBILITY_SCHEMA, el_version = ''1.0.0'',
       el_eligibility_digest = []\<rparr>"

definition settle :: "runtime \<Rightarrow> bridge_call \<Rightarrow> policy_decision \<Rightarrow> string \<Rightarrow> result \<Rightarrow> exec_error + result \<times> eligibility option" where
  "settle rt c d created rs =
     (if rs_status rs \<noteq> STATUS_COMPLETED \<or> rs_exit_code rs \<noteq> 0 then Inr (rs, None)
      else if bc_validate c then Inl (PyError AttributeError)
      else ebind (eligibility_of rt c d created) (\<lambda>e. Inr (rs, Some e)))"

text \<open>\<open>None\<close> while the process is still running.\<close>

definition execute_in_candidate :: "runtime \<Rightarrow> os \<Rightarrow> host \<Rightarrow> string \<Rightarrow> rat \<Rightarrow> string \<Rightarrow> bridge_call \<Rightarrow> bridge_outcome option" where
  "execute_in_candidate rt m h pv now created c =
     (case bridge_refusal h c of
        Some why \<Rightarrow> Some (Inl (ContractError why), None)
      | None \<Rightarrow>
          (case evaluate rt h pv now (bridge_evaluation h c) of
             Inl err \<Rightarrow> Some (Inl err, None)
           | Inr d \<Rightarrow>
               if pd_decision d \<noteq> ''ALLOW'' then Some (Inl (ContractError ''policy_denied''), None)
               else map_option (\<lambda>oc. (ebind (oc_result oc) (settle rt c d created), oc_process oc))
                 (run rt (m\<lparr>os_cancelled := False\<rparr>) h (bc_request c) d (bc_head c) (bc_tree c)
                    (canonicalize_path h (bc_candidate_root c)))))"

section \<open>Properties\<close>

lemma bridge_executeE:
  assumes "execute_in_candidate rt m h pv now created c = Some (res, Some p)"
  shows "\<exists>d oc. bridge_refusal h c = None \<and> evaluate rt h pv now (bridge_evaluation h c) = Inr d \<and> pd_decision d = ''ALLOW'' \<and>
     run rt (m\<lparr>os_cancelled := False\<rparr>) h (bc_request c) d (bc_head c) (bc_tree c) (canonicalize_path h (bc_candidate_root c)) = Some oc \<and>
     oc_process oc = Some p \<and> res = ebind (oc_result oc) (settle rt c d created)"
  using assms by (auto simp: execute_in_candidate_def split: option.splits sum.splits if_splits)

lemma execute_eligibleE:
  assumes "execute_in_candidate rt m h pv now created c = Some (Inr (rs, Some e), q)"
  shows "\<exists>d oc. bridge_refusal h c = None \<and> evaluate rt h pv now (bridge_evaluation h c) = Inr d \<and> pd_decision d = ''ALLOW'' \<and>
     run rt (m\<lparr>os_cancelled := False\<rparr>) h (bc_request c) d (bc_head c) (bc_tree c) (canonicalize_path h (bc_candidate_root c)) = Some oc \<and>
     oc_process oc = q \<and> oc_result oc = Inr rs \<and> settle rt c d created rs = Inr (rs, Some e)"
  using assms by (auto simp: execute_in_candidate_def ebind_Inr_iff settle_def split: option.splits sum.splits if_splits)

lemma bridge_refusal_None:
  "bridge_refusal h c = None \<longleftrightarrow>
     \<not> path_eq (hs_flavour h) (canonicalize_path h (bc_candidate_root c)) (canonicalize_path h (bc_active_root c)) \<and>
     \<not> path_eq (hs_flavour h) (canonicalize_path h (locate h (canonicalize_path h (bc_candidate_root c)) (rq_cwd (bc_request c))))
         (canonicalize_path h (bc_active_root c)) \<and>
     rq_expected_source_head (bc_request c) = bc_head c \<and> rq_expected_source_tree (bc_request c) = bc_tree c"
  by (simp add: bridge_refusal_def Let_def)

lemma settle_eligible:
  "settle rt c d created rs = Inr (rs, Some e) \<Longrightarrow> rs_status rs = STATUS_COMPLETED \<and> rs_exit_code rs = 0 \<and> \<not> bc_validate c \<and>
     eligibility_of rt c d created = Inr e"
  by (auto simp: settle_def ebind_Inr_iff split: if_splits)

text \<open>Where the request of a call would run.\<close>

definition bridge_cwd :: "host \<Rightarrow> bridge_call \<Rightarrow> path" where
  "bridge_cwd h c = canonicalize_path h (locate h (canonicalize_path h (bc_candidate_root c)) (rq_cwd (bc_request c)))"

lemma bridge_evaluation_paths:
  assumes "resolves_once h"
  shows "canon_candidate h (bridge_evaluation h c) = canonicalize_path h (bc_candidate_root c)"
    and "canon_project h (bridge_evaluation h c) = canonicalize_path h (bc_active_root c)"
    and "canon_cwd h (bridge_evaluation h c) = bridge_cwd h c"
proof -
  show candidate: "canon_candidate h (bridge_evaluation h c) = canonicalize_path h (bc_candidate_root c)"
    using assms by (simp add: canon_candidate_def bridge_evaluation_def resolves_once_def)
  show "canon_project h (bridge_evaluation h c) = canonicalize_path h (bc_active_root c)"
    using assms by (simp add: canon_project_def bridge_evaluation_def resolves_once_def)
  show "canon_cwd h (bridge_evaluation h c) = bridge_cwd h c"
    unfolding canon_cwd_def candidate by (simp add: bridge_cwd_def bridge_evaluation_def)
qed

lemma allowed_compliant:
  assumes "resolves_once h" and "evaluate rt h pv now q = Inr d" and "pd_decision d = ''ALLOW''"
  shows "policy_compliant h now q" and "pd_canonical_cwd d = path_str (hs_flavour h) (canon_cwd h q)"
proof -
  show c: "policy_compliant h now q" using evaluate_refuses[OF assms(1), of now q rt pv] assms(2,3) by auto
  show "pd_canonical_cwd d = path_str (hs_flavour h) (canon_cwd h q)"
    using assms(2) unfolding evaluate_compliant[OF assms(1) c] by (rule decideE(3))
qed

lemma started_process:
  assumes "resolves_once h" and "execute_in_candidate rt m h pv now created c = Some (res, Some p)"
  shows "bridge_refusal h c = None" and "policy_compliant h now (bridge_evaluation h c)"
    and "pr_cwd p = path_str (hs_flavour h) (parse_path h (path_str (hs_flavour h) (bridge_cwd h c)))"
proof -
  obtain d oc where e: "bridge_refusal h c = None" "evaluate rt h pv now (bridge_evaluation h c) = Inr d" "pd_decision d = ''ALLOW''"
    "run rt (m\<lparr>os_cancelled := False\<rparr>) h (bc_request c) d (bc_head c) (bc_tree c) (canonicalize_path h (bc_candidate_root c)) = Some oc"
    "oc_process oc = Some p" using bridge_executeE[OF assms(2)] by blast
  show "bridge_refusal h c = None" by (rule e(1))
  note allowed = allowed_compliant[OF assms(1) e(2,3)]
  show "policy_compliant h now (bridge_evaluation h c)" by (rule allowed(1))
  show "pr_cwd p = path_str (hs_flavour h) (parse_path h (path_str (hs_flavour h) (bridge_cwd h c)))"
    using run_processD(3)[OF e(4,5)] allowed(2) by (simp add: process_of_def bridge_evaluation_paths(3)[OF assms(1)])
qed

text \<open>C8: When the bridge starts a process for a mutation of the project, the sources are the ones the request expects, the
  candidate is not the active repository, and the process runs in a directory inside the candidate.\<close>

theorem project_mutation_stays_in_candidate:
  assumes "resolves_once h" and "execute_in_candidate rt m h pv now created c = Some (res, Some p)"
    and "rq_effect_class (bc_request c) \<in> {PROJECT_MUTATION, SHARED_RESOURCE_MUTATION}"
  shows "rq_expected_source_head (bc_request c) = bc_head c \<and> rq_expected_source_tree (bc_request c) = bc_tree c \<and>
     \<not> path_eq (hs_flavour h) (canonicalize_path h (bc_candidate_root c)) (canonicalize_path h (bc_active_root c)) \<and>
     path_within (hs_flavour h) (bridge_cwd h c) (canonicalize_path h (bc_candidate_root c)) \<and>
     pr_cwd p = path_str (hs_flavour h) (parse_path h (path_str (hs_flavour h) (bridge_cwd h c)))"
proof -
  note started = started_process[OF assms(1,2)]
  note paths = bridge_evaluation_paths[OF assms(1), of c]
  have request: "eq_request (bridge_evaluation h c) = bc_request c" by (simp add: bridge_evaluation_def)
  have "boundary_respected h (bridge_evaluation h c)" using started(2) by (simp add: policy_compliant_def Let_def)
  then have "path_within (hs_flavour h) (bridge_cwd h c) (canonicalize_path h (bc_candidate_root c))"
    using assms(3) by (auto simp: boundary_respected_def Let_def request paths bridge_cwd_def)
  with started(1,3) show ?thesis by (simp add: bridge_refusal_None)
qed

text \<open>A call of the bridge for examples.\<close>

definition sample_call :: bridge_call where
  "sample_call = \<lparr>bc_request = accepted_request, bc_candidate_root = parse_path sample_host ''/cand'',
     bc_active_root = parse_path sample_host ''/proj'', bc_head = [], bc_tree = [], bc_candidate_id = ''c1'', bc_validate = False\<rparr>"

lemma execute_allowed:
  assumes "resolves_once h" and "bridge_refusal h c = None" and "policy_compliant h now (bridge_evaluation h c)"
    and "\<And>p. os_path_exists m p" and "\<And>p. os_spawn m p = Spawned"
    and "\<And>p. monitor (os_start_time m) (number_float (rq_timeout_seconds (bc_request c))) (os_observations m p) = Some ending"
  shows "\<exists>d p. pd_decision d = ''ALLOW'' \<and>
     execute_in_candidate rt m h pv now created c = Some (ebind (build_result rt (m\<lparr>os_cancelled := False\<rparr>) (bc_request c) (bc_head c) (bc_tree c)
         (duration_ms m) (exit_code_of (os_final_poll m p) ending) (os_stdout m p) (os_stderr m p) (ending_status ending) ending)
       (settle rt c d created), Some p)"
proof -
  let ?q = "bridge_evaluation h c" and ?m = "m\<lparr>os_cancelled := False\<rparr>" and ?cand = "canonicalize_path h (bc_candidate_root c)"
  have request: "eq_request ?q = bc_request c" by (simp add: bridge_evaluation_def)
  obtain d where d: "evaluate rt h pv now ?q = Inr d" "pd_decision d = ''ALLOW''"
    using evaluate_compliant[OF assms(1,3)] decide_total by metis
  note fields = decideE[OF d(1)[unfolded evaluate_compliant[OF assms(1,3)]]]
  have "revalidate h d (bc_request c) (bc_head c) (bc_tree c) ?cand"
    using d(2) fields assms(1,2) by (simp add: revalidate_def request bridge_refusal_None bridge_evaluation_paths resolves_once_def)
  moreover have "duration_ms ?m = duration_ms m" by (simp add: duration_ms_def)
  ultimately have "execute_in_candidate rt m h pv now created c = Some (ebind (build_result rt ?m (bc_request c) (bc_head c) (bc_tree c)
      (duration_ms m) (exit_code_of (os_final_poll m (process_of ?m h (bc_request c) d)) ending) (os_stdout m (process_of ?m h (bc_request c) d))
      (os_stderr m (process_of ?m h (bc_request c) d)) (ending_status ending) ending) (settle rt c d created), Some (process_of ?m h (bc_request c) d))"
    using d assms(2,4-6) by (simp add: execute_in_candidate_def run_def Let_def)
  with d(2) show ?thesis by blast
qed

lemmas sample_paths = canon_candidate_def canon_project_def bridge_cwd_def locate_def sample_host_canonical Let_def

lemma sample_parts:
  "hs_flavour sample_host = Posix" "parse_path sample_host ''/cand'' = \<lparr>pt_drive = [], pt_root = ''/'', pt_parts = [''cand'']\<rparr>"
  "parse_path sample_host ''/proj'' = \<lparr>pt_drive = [], pt_root = ''/'', pt_parts = [''proj'']\<rparr>"
  "parse_path sample_host ''.'' = \<lparr>pt_drive = [], pt_root = [], pt_parts = [''.'']\<rparr>"
  "parse_path sample_host ''/proj/src'' = \<lparr>pt_drive = [], pt_root = ''/'', pt_parts = [''proj'', ''src'']\<rparr>"
  by (simp_all add: sample_host_def starts_with_def)

lemma sample_call_allowed:
  "bridge_refusal sample_host sample_call = None" "policy_compliant sample_host 0 (bridge_evaluation sample_host sample_call)"
  by (simp_all add: bridge_refusal_None policy_compliant_def boundary_respected_def bridge_evaluation_def sample_call_def
      sample_paths sample_parts KNOWN_ADAPTER_IDS_def path_eq_def same_anchor_def path_within_def is_absolute_def path_join_def norm_case_def)

lemma sample_os_ends: "os_path_exists sample_os p" "os_spawn sample_os q = Spawned" "monitor (os_start_time sample_os) k (os_observations sample_os q) = Some Exited"
  by (simp_all add: sample_os_def)

text \<open>C8 applied to the example call.\<close>

theorem project_mutation_stays_in_candidate_witness:
  "\<exists>res p. execute_in_candidate sample_runtime sample_os sample_host ''1.0.0'' 0 ''t'' sample_call = Some (res, Some p) \<and>
     path_within Posix (bridge_cwd sample_host sample_call) (canonicalize_path sample_host (parse_path sample_host ''/cand''))"
proof -
  obtain res p where e: "execute_in_candidate sample_runtime sample_os sample_host ''1.0.0'' 0 ''t'' sample_call = Some (res, Some p)"
    using execute_allowed[OF sample_host_once sample_call_allowed sample_os_ends] by blast
  have "rq_effect_class (bc_request sample_call) \<in> {PROJECT_MUTATION, SHARED_RESOURCE_MUTATION}" by (simp add: sample_call_def)
  from project_mutation_stays_in_candidate[OF sample_host_once e this] e show ?thesis
    by (simp add: sample_call_def sample_parts(1))
qed

text \<open>C9: An eligibility record is returned only after a process was started and ended by itself with exit code 0; the record
  carries the digest of the request and of the decision, belongs to the current sources, and is not stale on them.\<close>

theorem eligibility_needs_successful_run:
  assumes "request_ok rt (bc_request c)" and "execute_in_candidate rt m h pv now created c = Some (Inr (rs, Some e), started)"
  shows "started \<noteq> None \<and> rs_status rs = STATUS_COMPLETED \<and> rs_exit_code rs = 0 \<and>
     rs_request_digest rs = rq_request_digest (bc_request c) \<and> el_execution_request_digest e = rq_request_digest (bc_request c) \<and>
     (\<exists>d. evaluate rt h pv now (bridge_evaluation h c) = Inr d \<and> pd_decision d = ''ALLOW'' \<and> el_policy_decision_digest e = pd_decision_digest d) \<and>
     el_eligibility_digest e = eligibility_digest rt e \<and> (\<forall>head tree. is_stale e head tree \<longleftrightarrow> head \<noteq> bc_head c \<or> tree \<noteq> bc_tree c)"
proof -
  obtain d oc where r: "evaluate rt h pv now (bridge_evaluation h c) = Inr d" "pd_decision d = ''ALLOW''"
    "run rt (m\<lparr>os_cancelled := False\<rparr>) h (bc_request c) d (bc_head c) (bc_tree c) (canonicalize_path h (bc_candidate_root c)) = Some oc"
    "oc_process oc = started" "oc_result oc = Inr rs" "settle rt c d created rs = Inr (rs, Some e)"
    using execute_eligibleE[OF assms(2)] by blast
  note done_ok = settle_eligible[OF r(6)]
  have e: "el_execution_request_digest e = rq_request_digest (bc_request c)" "el_policy_decision_digest e = pd_decision_digest d"
    "el_baseline_head e = bc_head c" "el_baseline_tree e = bc_tree c" "el_eligibility_digest e = eligibility_digest rt e"
    using done_ok by (auto simp: eligibility_of_def eligibility_post_init_def eligibility_digest_def eligibility_document_def split: if_splits)
  have status: "reports (bc_request c) (bc_head c) (bc_tree c) x st rs'"
    if "build_result rt (m\<lparr>os_cancelled := False\<rparr>) (bc_request c) (bc_head c) (bc_tree c) n x out err st en = Inr rs'" "0 \<le> n" for n x out err st en rs'
    using build_result_total[OF assms(1) that(2)] that(1) by (metis Inr_inject)
  have "started \<noteq> None"
  proof
    assume "started = None"
    with r(3-5) done_ok show False
      by (auto simp: run_def not_started_def Let_def split: if_splits spawn_answer.splits option.splits dest!: status simp: reports_def)
  qed
  then obtain p where p: "oc_process oc = Some p" using r(4) by auto
  obtain en where "oc_result oc = build_result rt (m\<lparr>os_cancelled := False\<rparr>) (bc_request c) (bc_head c) (bc_tree c) (duration_ms (m\<lparr>os_cancelled := False\<rparr>))
      (exit_code_of (os_final_poll (m\<lparr>os_cancelled := False\<rparr>) p) en) (os_stdout (m\<lparr>os_cancelled := False\<rparr>) p)
      (os_stderr (m\<lparr>os_cancelled := False\<rparr>) p) (ending_status en) en"
    using run_processD(4)[OF r(3) p] by blast
  then have "rs_request_digest rs = rq_request_digest (bc_request c)"
    using r(5) status[OF _ duration_nonneg] by (metis reports_def)
  with \<open>started \<noteq> None\<close> done_ok e r(1,2) show ?thesis by (auto simp: is_stale_def)
qed

text \<open>With a validation policy a successful run ends in \<open>AttributeError\<close>: nothing is validated and no record is made, although
  the process has already changed the candidate.\<close>

lemma validation_always_fails:
  "bc_validate c \<Longrightarrow> rs_status rs = STATUS_COMPLETED \<Longrightarrow> rs_exit_code rs = 0 \<Longrightarrow> settle rt c d created rs = Inl (PyError AttributeError)"
  by (simp add: settle_def)

text \<open>Every record that is made says that validation was skipped and that the candidate is eligible.\<close>

lemma eligible_without_validation:
  assumes "execute_in_candidate rt m h pv now created c = Some (Inr (rs, Some e), started)"
  shows "el_is_eligible e \<and> el_validation_evidence_digest e = sha_text rt ''VALIDATION_SKIPPED''"
proof -
  obtain d where "settle rt c d created rs = Inr (rs, Some e)" using execute_eligibleE[OF assms] by blast
  from settle_eligible[OF this] show ?thesis by (auto simp: eligibility_of_def eligibility_post_init_def split: if_splits)
qed

lemma eligible_when_exit_zero:
  assumes "resolves_once h" and "bridge_refusal h c = None" and "policy_compliant h now (bridge_evaluation h c)"
    and "\<And>p. os_path_exists m p" and "\<And>p. os_spawn m p = Spawned"
    and "\<And>p. monitor (os_start_time m) (number_float (rq_timeout_seconds (bc_request c))) (os_observations m p) = Some Exited"
    and "\<And>p. os_final_poll m p = Some 0" and "request_ok rt (bc_request c)" and "\<not> bc_validate c"
  shows "\<exists>rs e p. execute_in_candidate rt m h pv now created c = Some (Inr (rs, Some e), Some p)"
proof -
  obtain d p where x: "execute_in_candidate rt m h pv now created c = Some (ebind (build_result rt (m\<lparr>os_cancelled := False\<rparr>) (bc_request c) (bc_head c) (bc_tree c)
         (duration_ms m) (exit_code_of (os_final_poll m p) Exited) (os_stdout m p) (os_stderr m p) (ending_status Exited) Exited)
       (settle rt c d created), Some p)"
    using execute_allowed[OF assms(1-6)] by metis
  obtain rs where rs: "build_result rt (m\<lparr>os_cancelled := False\<rparr>) (bc_request c) (bc_head c) (bc_tree c) (duration_ms m) 0
      (os_stdout m p) (os_stderr m p) STATUS_COMPLETED Exited = Inr rs" "reports (bc_request c) (bc_head c) (bc_tree c) 0 STATUS_COMPLETED rs"
    using build_result_total[OF assms(8) duration_nonneg] by metis
  obtain e where "eligibility_of rt c d created = Inr e" by (simp add: eligibility_of_def eligibility_post_init_def)
  with x rs assms(7,9) show ?thesis by (simp add: exit_code_of_def settle_def reports_def)
qed

lemma sample_eligible:
  "\<exists>rs e p. execute_in_candidate sample_runtime sample_os sample_host ''1.0.0'' 0 ''t'' sample_call = Some (Inr (rs, Some e), Some p)"
  by (rule eligible_when_exit_zero[OF sample_host_once sample_call_allowed sample_os_ends])
    (simp_all add: sample_os_def sample_call_def accepted_request_ok)

text \<open>C9 applied to the example call.\<close>

theorem eligibility_needs_successful_run_witness:
  "\<exists>rs e p. execute_in_candidate sample_runtime sample_os sample_host ''1.0.0'' 0 ''t'' sample_call = Some (Inr (rs, Some e), Some p) \<and>
     rs_exit_code rs = 0 \<and> el_execution_request_digest e = rq_request_digest accepted_request"
proof -
  have ok: "request_ok sample_runtime (bc_request sample_call)" by (simp add: sample_call_def accepted_request_ok)
  obtain rs e p where x: "execute_in_candidate sample_runtime sample_os sample_host ''1.0.0'' 0 ''t'' sample_call = Some (Inr (rs, Some e), Some p)"
    using sample_eligible by blast
  from eligibility_needs_successful_run[OF ok x] x show ?thesis by (auto simp: sample_call_def)
qed

text \<open>The active repository is protected only as a whole: a mutation classed as safe whose working directory is a proper
  subdirectory of the active repository is allowed, and its process is started there.\<close>

lemma safe_mutation_runs_in_active:
  assumes "resolves_once h" and "bridge_refusal h c = None"
    and "rq_effect_class (bc_request c) = SAFE_MUTATION" and "\<not> rq_elevation_required (bc_request c)"
    and "rq_adapter_id (bc_request c) \<in> set KNOWN_ADAPTER_IDS"
    and "path_within (hs_flavour h) (bridge_cwd h c) (canonicalize_path h (bc_active_root c))"
    and "\<And>p. os_path_exists m p" and "\<And>p. os_spawn m p = Spawned"
    and "\<And>p. monitor (os_start_time m) (number_float (rq_timeout_seconds (bc_request c))) (os_observations m p) = Some ending"
  shows "\<exists>res p. execute_in_candidate rt m h pv now created c = Some (res, Some p) \<and>
     pr_cwd p = path_str (hs_flavour h) (parse_path h (path_str (hs_flavour h) (bridge_cwd h c)))"
proof -
  note paths = bridge_evaluation_paths[OF assms(1), of c]
  have fields: "eq_request (bridge_evaluation h c) = bc_request c" "eq_filesystem_targets (bridge_evaluation h c) = []"
    "eq_current_head (bridge_evaluation h c) = Some (bc_head c)" "eq_current_tree (bridge_evaluation h c) = Some (bc_tree c)"
    "eq_network_requested (bridge_evaluation h c) = False" by (simp_all add: bridge_evaluation_def)
  have "boundary_respected h (bridge_evaluation h c)"
    using assms(3,6) by (simp add: boundary_respected_def Let_def fields paths bridge_cwd_def)
  then have "policy_compliant h now (bridge_evaluation h c)"
    using assms(2-5) by (simp add: policy_compliant_def Let_def fields bridge_refusal_None)
  from execute_allowed[OF assms(1,2) this assms(7-9)] obtain res p
    where x: "execute_in_candidate rt m h pv now created c = Some (res, Some p)" by blast
  with started_process(3)[OF assms(1) x] show ?thesis by blast
qed

definition active_call :: bridge_call where
  "active_call = sample_call\<lparr>bc_request := accepted_request\<lparr>rq_effect_class := SAFE_MUTATION, rq_cwd := ''/proj/src''\<rparr>\<rparr>"

text \<open>A script given only by its digest is never run: the process prints a message, ends with code 0, and the candidate
  becomes eligible.\<close>

lemma script_by_digest_is_not_run:
  assumes "rq_mode r = SCRIPT" and "rq_script_content r = None"
  shows "pr_argv (process_of m h r d) = [''cmd.exe'', ''/c'', ''echo invalid execution request'']"
  using assms by (simp add: process_of_def argv_list_def)
end
