(* ===== verification/Execution_Worker.thy ===== *)
theory Execution_Worker
  imports Local_Execution
begin

text \<open>
  The durable outbox and the worker of \<^verbatim>\<open>src/bdb_vnext/local_execution_worker.py\<close>. The table is a list of rows, a stored
  JSON text is the document it was written from, an UPDATE changes the rows its condition selects and answers whether
  exactly one was changed, and a call reads the clock once. \<open>execute_claimed\<close> is split where the backend runs, so that
  other calls may come in between; the backend is an argument, and the simulated one of the source is modelled too.
\<close>

section \<open>The outbox\<close>

datatype queue_state = QS_PENDING | QS_CLAIMED | QS_RUNNING | QS_CANCEL_REQUESTED | QS_COMPLETED | QS_RECONCILIATION_REQUIRED

record row =
  ro_execution_id :: string
  ro_project_id :: string
  ro_request_digest :: string
  ro_request_json :: pydict
  ro_state :: queue_state
  ro_owner_token :: "string option"
  ro_lease_expires_at :: rat
  ro_created_at :: rat
  ro_updated_at :: rat
  ro_result_json :: "pydict option"
  ro_cancel_requested :: bool
  ro_effect_class :: execution_effect_class
  ro_idempotency :: idempotency_class

record queue_record =
  qr_execution_id :: string
  qr_project_id :: string
  qr_request_digest :: string
  qr_request :: request
  qr_state :: queue_state
  qr_owner_token :: "string option"
  qr_lease_expires_at :: rat
  qr_created_at :: rat
  qr_updated_at :: rat
  qr_result :: "result option"
  qr_cancel_requested :: bool
  qr_effect_class :: execution_effect_class
  qr_idempotency :: idempotency_class

type_synonym outbox = "row list"

definition PROJECT_SIMULTANEOUS_LOCAL_EFFECTS_MAX :: nat where
  "PROJECT_SIMULTANEOUS_LOCAL_EFFECTS_MAX = 1"

definition find_row :: "outbox \<Rightarrow> string \<Rightarrow> row option" where
  "find_row ob e = find (\<lambda>w. ro_execution_id w = e) ob"

text \<open>\<open>UPDATE execution_outbox SET ... WHERE execution_id = e AND ...\<close>, and whether one row was changed.\<close>

definition update_row :: "outbox \<Rightarrow> string \<Rightarrow> (row \<Rightarrow> bool) \<Rightarrow> (row \<Rightarrow> row) \<Rightarrow> outbox \<times> bool" where
  "update_row ob e P f =
     (let Q = (\<lambda>w. ro_execution_id w = e \<and> P w) in
      (map (\<lambda>w. if Q w then f w else w) ob, length (filter Q ob) = 1))"

definition row_to_record :: "runtime \<Rightarrow> row \<Rightarrow> exec_error + queue_record" where
  "row_to_record rt w =
     ebind (request_from_dict rt (ro_request_json w)) (\<lambda>req.
     ebind (case ro_result_json w of None \<Rightarrow> Inr None
            | Some d \<Rightarrow> ebind (result_from_dict rt d) (\<lambda>res. Inr (Some res))) (\<lambda>res.
       Inr \<lparr>qr_execution_id = ro_execution_id w, qr_project_id = ro_project_id w, qr_request_digest = ro_request_digest w,
         qr_request = req, qr_state = ro_state w, qr_owner_token = ro_owner_token w, qr_lease_expires_at = ro_lease_expires_at w,
         qr_created_at = ro_created_at w, qr_updated_at = ro_updated_at w, qr_result = res,
         qr_cancel_requested = ro_cancel_requested w, qr_effect_class = ro_effect_class w, qr_idempotency = ro_idempotency w\<rparr>))"

definition active_effects :: "outbox \<Rightarrow> string \<Rightarrow> rat \<Rightarrow> nat" where
  "active_effects ob pid now = length (filter (\<lambda>w. ro_project_id w = pid \<and> ro_state w \<in> {QS_CLAIMED, QS_RUNNING} \<and>
     ro_effect_class w \<noteq> READ_ONLY \<and> now < ro_lease_expires_at w) ob)"

definition new_row :: "request \<Rightarrow> pydict \<Rightarrow> rat \<Rightarrow> row" where
  "new_row r d now = \<lparr>ro_execution_id = rq_execution_id r, ro_project_id = rq_project_id r, ro_request_digest = rq_request_digest r,
     ro_request_json = d, ro_state = QS_PENDING, ro_owner_token = None, ro_lease_expires_at = 0, ro_created_at = now,
     ro_updated_at = now, ro_result_json = None, ro_cancel_requested = False, ro_effect_class = rq_effect_class r,
     ro_idempotency = rq_idempotency r\<rparr>"

definition submit_request :: "runtime \<Rightarrow> outbox \<Rightarrow> request \<Rightarrow> rat \<Rightarrow> exec_error + outbox \<times> bool \<times> queue_record" where
  "submit_request rt ob r now =
     ebind (request_to_dict r) (\<lambda>d.
       case find_row ob (rq_execution_id r) of
         Some w \<Rightarrow> if ro_request_digest w \<noteq> rq_request_digest r then Inl (ContractError ''conflicting_duplicate_request'')
           else ebind (row_to_record rt w) (\<lambda>rec. Inr (ob, False, rec))
       | None \<Rightarrow>
           if rq_effect_class r \<noteq> READ_ONLY \<and> PROJECT_SIMULTANEOUS_LOCAL_EFFECTS_MAX \<le> active_effects ob (rq_project_id r) now
           then Inl (ContractError ''single_flight_violation'')
           else ebind (row_to_record rt (new_row r d now)) (\<lambda>rec. Inr (ob @ [new_row r d now], True, rec)))"

definition claim_lease :: "outbox \<Rightarrow> string \<Rightarrow> string \<Rightarrow> rat \<Rightarrow> rat \<Rightarrow> outbox \<times> bool" where
  "claim_lease ob e owner duration now =
     update_row ob e (\<lambda>w. ro_state w = QS_PENDING \<or> ro_state w = QS_CLAIMED \<and> ro_lease_expires_at w < now)
       (\<lambda>w. w\<lparr>ro_state := QS_CLAIMED, ro_owner_token := Some owner, ro_lease_expires_at := now + duration, ro_updated_at := now\<rparr>)"

definition renew_lease :: "outbox \<Rightarrow> string \<Rightarrow> string \<Rightarrow> rat \<Rightarrow> rat \<Rightarrow> outbox \<times> bool" where
  "renew_lease ob e owner duration now =
     update_row ob e (\<lambda>w. ro_owner_token w = Some owner \<and> ro_state w \<in> {QS_CLAIMED, QS_RUNNING})
       (\<lambda>w. w\<lparr>ro_lease_expires_at := now + duration, ro_updated_at := now\<rparr>)"

definition mark_running :: "outbox \<Rightarrow> string \<Rightarrow> string \<Rightarrow> rat \<Rightarrow> outbox \<times> bool" where
  "mark_running ob e owner now =
     update_row ob e (\<lambda>w. ro_owner_token w = Some owner \<and> ro_state w = QS_CLAIMED)
       (\<lambda>w. w\<lparr>ro_state := QS_RUNNING, ro_updated_at := now\<rparr>)"

definition request_cancel :: "outbox \<Rightarrow> string \<Rightarrow> rat \<Rightarrow> outbox \<times> bool" where
  "request_cancel ob e now =
     update_row ob e (\<lambda>w. ro_state w \<noteq> QS_COMPLETED) (\<lambda>w. w\<lparr>ro_cancel_requested := True, ro_updated_at := now\<rparr>)"

definition record_result :: "outbox \<Rightarrow> string \<Rightarrow> string \<Rightarrow> result \<Rightarrow> rat \<Rightarrow> outbox \<times> bool" where
  "record_result ob e owner res now =
     update_row ob e (\<lambda>w. ro_owner_token w = Some owner \<and> ro_state w \<in> {QS_CLAIMED, QS_RUNNING, QS_CANCEL_REQUESTED})
       (\<lambda>w. w\<lparr>ro_state := QS_COMPLETED, ro_result_json := Some (result_to_dict res), ro_updated_at := now\<rparr>)"

definition mark_reconciliation_required :: "outbox \<Rightarrow> string \<Rightarrow> rat \<Rightarrow> outbox \<times> bool" where
  "mark_reconciliation_required ob e now =
     update_row ob e (\<lambda>w. ro_state w \<noteq> QS_COMPLETED) (\<lambda>w. w\<lparr>ro_state := QS_RECONCILIATION_REQUIRED, ro_updated_at := now\<rparr>)"

definition get_record :: "runtime \<Rightarrow> outbox \<Rightarrow> string \<Rightarrow> exec_error + queue_record option" where
  "get_record rt ob e = (case find_row ob e of None \<Rightarrow> Inr None
     | Some w \<Rightarrow> ebind (row_to_record rt w) (\<lambda>rec. Inr (Some rec)))"

section \<open>The worker\<close>

definition LOCAL_WORKER_PROTOCOL_VERSION :: string where
  "LOCAL_WORKER_PROTOCOL_VERSION = ''1.0.0''"

datatype worker_error = WorkerAuthError | WorkerError exec_error

record message =
  ms_execution_id :: string
  ms_auth_token :: string
  ms_protocol_version :: string

record worker =
  wk_auth_token :: string
  wk_owner_token :: string
  wk_trace :: "string list"

definition record_trace :: "worker \<Rightarrow> string \<Rightarrow> worker" where
  "record_trace k a = k\<lparr>wk_trace := wk_trace k @ [a]\<rparr>"

definition verify_auth :: "worker \<Rightarrow> message \<Rightarrow> worker_error option" where
  "verify_auth k msg =
     (if ms_protocol_version msg \<noteq> LOCAL_WORKER_PROTOCOL_VERSION then Some (WorkerError (ContractError ''protocol_version_mismatch''))
      else if wk_auth_token k = [] \<or> ms_auth_token msg \<noteq> wk_auth_token k then Some WorkerAuthError else None)"

text \<open>The operations return the worker (its trace grows even when the outbox then raises), the outbox and the answer.\<close>

definition worker_submit :: "runtime \<Rightarrow> worker \<Rightarrow> outbox \<Rightarrow> message \<Rightarrow> request \<Rightarrow> rat \<Rightarrow> worker \<times> outbox \<times> (worker_error + queue_record)" where
  "worker_submit rt k ob msg r now =
     (case verify_auth k msg of
        Some err \<Rightarrow> (k, ob, Inl err)
      | None \<Rightarrow> let k' = record_trace k ''SUBMIT'' in
          (case submit_request rt ob r now of
             Inl err \<Rightarrow> (k', ob, Inl (WorkerError err))
           | Inr (ob', created, rec) \<Rightarrow> (if created then record_trace k' ''PERSIST'' else k', ob', Inr rec)))"

definition worker_claim :: "worker \<Rightarrow> outbox \<Rightarrow> message \<Rightarrow> rat \<Rightarrow> rat \<Rightarrow> worker \<times> outbox \<times> (worker_error + bool)" where
  "worker_claim k ob msg lease now =
     (case verify_auth k msg of
        Some err \<Rightarrow> (k, ob, Inl err)
      | None \<Rightarrow> (case claim_lease ob (ms_execution_id msg) (wk_owner_token k) lease now of
          (ob', ok) \<Rightarrow> (if ok then record_trace k ''CLAIM'' else k, ob', Inr ok)))"

definition worker_cancel :: "worker \<Rightarrow> outbox \<Rightarrow> message \<Rightarrow> rat \<Rightarrow> worker \<times> outbox \<times> (worker_error + bool)" where
  "worker_cancel k ob msg now =
     (case verify_auth k msg of
        Some err \<Rightarrow> (k, ob, Inl err)
      | None \<Rightarrow> (case request_cancel ob (ms_execution_id msg) now of (ob', ok) \<Rightarrow> (record_trace k ''CANCEL'', ob', Inr ok)))"

text \<open>\<open>execute_claimed\<close> up to the call of the backend: the record it hands over.\<close>

definition begin_execution :: "runtime \<Rightarrow> worker \<Rightarrow> outbox \<Rightarrow> string \<Rightarrow> rat \<Rightarrow> worker \<times> outbox \<times> (exec_error + queue_record)" where
  "begin_execution rt k ob e now =
     (case get_record rt ob e of
        Inl err \<Rightarrow> (k, ob, Inl err)
      | Inr None \<Rightarrow> (k, ob, Inl (ContractError ''invalid_owner_token''))
      | Inr (Some rec) \<Rightarrow>
          if qr_owner_token rec \<noteq> Some (wk_owner_token k) then (k, ob, Inl (ContractError ''invalid_owner_token''))
          else (record_trace (record_trace k ''AUTH_VALIDATION'') ''DISPATCH'', fst (mark_running ob e (wk_owner_token k) now), Inr rec))"

text \<open>\<open>check_cancelled\<close>, the question the backend may ask while it runs.\<close>

definition check_cancelled :: "runtime \<Rightarrow> outbox \<Rightarrow> string \<Rightarrow> exec_error + bool" where
  "check_cancelled rt ob e = ebind (get_record rt ob e) (\<lambda>rec. Inr (case rec of None \<Rightarrow> False | Some q \<Rightarrow> qr_cancel_requested q))"

text \<open>The rest of \<open>execute_claimed\<close>, on what the backend returned or raised.\<close>

definition end_execution :: "worker \<Rightarrow> outbox \<Rightarrow> string \<Rightarrow> queue_record \<Rightarrow> 'err + result \<Rightarrow> rat \<Rightarrow> worker \<times> outbox \<times> ('err + result)" where
  "end_execution k ob e rec res now =
     (case res of
        Inl err \<Rightarrow> (k, if qr_idempotency rec \<noteq> IDEMPOTENT_REPLAYABLE then fst (mark_reconciliation_required ob e now) else ob, Inl err)
      | Inr rs \<Rightarrow> (record_trace (record_trace k ''RESULT_PERSIST'') ''COMPLETE_ACK'',
          fst (record_result ob e (wk_owner_token k) rs now), Inr rs))"

definition handle_crash_recovery :: "runtime \<Rightarrow> outbox \<Rightarrow> string \<Rightarrow> rat \<Rightarrow> outbox \<times> (exec_error + string)" where
  "handle_crash_recovery rt ob e now =
     (case get_record rt ob e of
        Inl err \<Rightarrow> (ob, Inl err)
      | Inr None \<Rightarrow> (ob, Inr ''NOT_FOUND'')
      | Inr (Some rec) \<Rightarrow>
          if qr_state rec = QS_COMPLETED then (ob, Inr ''ALREADY_COMPLETED'')
          else if qr_state rec = QS_RECONCILIATION_REQUIRED then (ob, Inr ''RECONCILIATION_REQUIRED'')
          else if qr_state rec = QS_RUNNING \<and> qr_idempotency rec \<noteq> IDEMPOTENT_REPLAYABLE
          then (fst (mark_reconciliation_required ob e now), Inr ''RECONCILIATION_REQUIRED'')
          else (ob, Inr ''RECLAIMABLE''))"

section \<open>The simulated backend\<close>

datatype backend_error = CrashBeforeEffect | CrashAfterEffect | BackendError exec_error

record simulated =
  sim_exit_code :: int
  sim_stdout :: bytes
  sim_stderr :: bytes
  sim_delay_seconds :: rat
  sim_crash_before :: bool
  sim_crash_after :: bool
  sim_attempts :: nat
  sim_effects :: nat

definition simulated_result :: "runtime \<Rightarrow> output_services \<Rightarrow> request \<Rightarrow> string \<times> string \<Rightarrow> int \<Rightarrow> int \<Rightarrow> bytes \<Rightarrow> bytes \<Rightarrow> bool \<Rightarrow> backend_error + result" where
  "simulated_result rt sv r instants duration exit_code out err cancelled =
     (case ebind (from_bytes sv ''stdout'' out INLINE_OUTPUT_BYTE_LIMIT) (\<lambda>stdout.
        ebind (from_bytes sv ''stderr'' err INLINE_OUTPUT_BYTE_LIMIT) (\<lambda>stderr.
          result_post_init rt \<lparr>rs_execution_id = rq_execution_id r, rs_request_digest = rq_request_digest r,
            rs_started_at = fst instants, rs_completed_at = snd instants, rs_duration_ms = duration, rs_exit_code = exit_code,
            rs_stdout = stdout, rs_stderr = stderr, rs_observed_source_head = rq_expected_source_head r,
            rs_observed_source_tree = rq_expected_source_tree r, rs_adapter_id = rq_adapter_id r, rs_worker_id = ''worker:local'',
            rs_status = (if cancelled then STATUS_CANCELLED else STATUS_COMPLETED), rs_timed_out = False, rs_cancelled = cancelled,
            rs_cancel_reason = (if cancelled then Some ''USER_CANCELLED'' else None), rs_schema = RESULT_SCHEMA,
            rs_version = CONTRACT_VERSION, rs_result_digest = []\<rparr>)) of
        Inl err \<Rightarrow> Inl (BackendError err) | Inr rs \<Rightarrow> Inr rs)"

definition simulated_execute :: "runtime \<Rightarrow> output_services \<Rightarrow> simulated \<Rightarrow> request \<Rightarrow> bool \<Rightarrow> string \<times> string \<Rightarrow> simulated \<times> (backend_error + result)" where
  "simulated_execute rt sv b r cancelled instants =
     (let b1 = b\<lparr>sim_attempts := Suc (sim_attempts b)\<rparr>; b2 = b1\<lparr>sim_effects := Suc (sim_effects b)\<rparr> in
      if sim_crash_before b then (b1, Inl CrashBeforeEffect)
      else if cancelled then (b1, simulated_result rt sv r instants 10 130 [] ''Execution cancelled'' True)
      else if sim_crash_after b then (b2, Inl CrashAfterEffect)
      else (b2, simulated_result rt sv r instants (number_int (FloatN (sim_delay_seconds b * 1000)) + 10) (sim_exit_code b)
              (sim_stdout b) (sim_stderr b) False))"

section \<open>Rows under the updates\<close>

lemma find_row_update:
  assumes "\<And>w. ro_execution_id (f w) = ro_execution_id w"
  shows "find_row (fst (update_row ob e P f)) e' =
     (if e' = e then map_option (\<lambda>w. if P w then f w else w) (find_row ob e) else find_row ob e')"
  by (induction ob) (auto simp: find_row_def update_row_def Let_def assms)

lemma update_row_ids:
  assumes "\<And>w. ro_execution_id (f w) = ro_execution_id w"
  shows "map ro_execution_id (fst (update_row ob e P f)) = map ro_execution_id ob"
  by (simp add: update_row_def Let_def assms)

lemma update_row_granted:
  "distinct (map ro_execution_id ob) \<Longrightarrow> snd (update_row ob e P f) \<longleftrightarrow> (\<exists>w. find_row ob e = Some w \<and> P w)"
proof (induction ob)
  case (Cons w ob)
  have none: "filter (\<lambda>w. ro_execution_id w = e \<and> P w) ob = []" if "ro_execution_id w = e"
    using Cons.prems that by (auto simp: filter_empty_conv image_iff)
  show ?case
    using Cons none by (cases "ro_execution_id w = e") (auto simp: update_row_def find_row_def Let_def)
qed (simp add: update_row_def find_row_def)

lemma find_row_in: "find_row ob e = Some w \<Longrightarrow> w \<in> set ob \<and> ro_execution_id w = e"
  unfolding find_row_def by (drule find_SomeD) simp

lemma update_row_rows:
  "w' \<in> set (fst (update_row ob e P f)) \<Longrightarrow> \<exists>w\<in>set ob. w' = w \<or> ro_execution_id w = e \<and> P w \<and> w' = f w"
  by (auto simp: update_row_def Let_def split: if_splits)

lemmas outbox_ops = claim_lease_def renew_lease_def mark_running_def request_cancel_def record_result_def mark_reconciliation_required_def

section \<open>Sequences of calls\<close>

datatype outbox_call =
    Submit request
  | Claim string string rat
  | Renew string string rat
  | MarkRunning string string
  | Cancel string
  | Record string string result
  | Reconcile string

fun apply_call :: "runtime \<Rightarrow> outbox \<Rightarrow> outbox_call \<times> rat \<Rightarrow> outbox" where
  "apply_call rt ob (Submit r, now) = (case submit_request rt ob r now of Inl _ \<Rightarrow> ob | Inr (ob', _) \<Rightarrow> ob')"
| "apply_call rt ob (Claim e owner duration, now) = fst (claim_lease ob e owner duration now)"
| "apply_call rt ob (Renew e owner duration, now) = fst (renew_lease ob e owner duration now)"
| "apply_call rt ob (MarkRunning e owner, now) = fst (mark_running ob e owner now)"
| "apply_call rt ob (Cancel e, now) = fst (request_cancel ob e now)"
| "apply_call rt ob (Record e owner res, now) = fst (record_result ob e owner res now)"
| "apply_call rt ob (Reconcile e, now) = fst (mark_reconciliation_required ob e now)"

text \<open>Every operation of the worker leaves the outbox as one of these calls does, or unchanged.\<close>

lemma worker_operations_are_calls:
  "\<exists>cs. fst (snd (worker_submit rt k ob msg r now)) = foldl (apply_call rt) ob cs"
  "\<exists>cs. fst (snd (worker_claim k ob msg lease now)) = foldl (apply_call rt) ob cs"
  "\<exists>cs. fst (snd (worker_cancel k ob msg now)) = foldl (apply_call rt) ob cs"
  "\<exists>cs. fst (snd (begin_execution rt k ob e now)) = foldl (apply_call rt) ob cs"
  "\<exists>cs. fst (snd (end_execution k ob e rec res now)) = foldl (apply_call rt) ob cs"
  "\<exists>cs. fst (handle_crash_recovery rt ob e now) = foldl (apply_call rt) ob cs"
proof -
  have none: "\<exists>cs. ob = foldl (apply_call rt) ob cs" by (rule exI[of _ "[]"]) simp
  have one: "\<exists>cs. apply_call rt ob c = foldl (apply_call rt) ob cs" for c by (rule exI[of _ "[c]"]) simp
  show "\<exists>cs. fst (snd (worker_submit rt k ob msg r now)) = foldl (apply_call rt) ob cs"
    using none one[of "(Submit r, now)"] by (auto simp: worker_submit_def Let_def split: option.splits sum.splits prod.splits)
  show "\<exists>cs. fst (snd (worker_claim k ob msg lease now)) = foldl (apply_call rt) ob cs"
    using none one[of "(Claim (ms_execution_id msg) (wk_owner_token k) lease, now)"]
    by (auto simp: worker_claim_def split: option.splits prod.splits)
  show "\<exists>cs. fst (snd (worker_cancel k ob msg now)) = foldl (apply_call rt) ob cs"
    using none one[of "(Cancel (ms_execution_id msg), now)"] by (auto simp: worker_cancel_def split: option.splits prod.splits)
  show "\<exists>cs. fst (snd (begin_execution rt k ob e now)) = foldl (apply_call rt) ob cs"
    using none one[of "(MarkRunning e (wk_owner_token k), now)"]
    by (auto simp: begin_execution_def split: sum.splits option.splits)
  show "\<exists>cs. fst (snd (end_execution k ob e rec res now)) = foldl (apply_call rt) ob cs"
  proof (cases res)
    case (Inl err)
    then show ?thesis using none one[of "(Reconcile e, now)"] by (simp add: end_execution_def)
  next
    case (Inr rs)
    then show ?thesis using one[of "(Record e (wk_owner_token k) rs, now)"] by (simp add: end_execution_def)
  qed
  show "\<exists>cs. fst (handle_crash_recovery rt ob e now) = foldl (apply_call rt) ob cs"
    using none one[of "(Reconcile e, now)"] by (auto simp: handle_crash_recovery_def split: sum.splits option.splits)
qed

lemma submit_outbox:
  "submit_request rt ob r now = Inr (ob', created, rec) \<Longrightarrow>
     \<not> created \<and> ob' = ob \<or>
     created \<and> find_row ob (rq_execution_id r) = None \<and> (\<exists>d. request_to_dict r = Inr d \<and> ob' = ob @ [new_row r d now])"
  by (cases "find_row ob (rq_execution_id r)") (auto simp: submit_request_def ebind_Inr_iff split: if_splits)

lemma find_row_append: "find_row (ob @ [w]) e = (case find_row ob e of Some v \<Rightarrow> Some v | None \<Rightarrow> if ro_execution_id w = e then Some w else None)"
  by (cases "find_row ob e") (simp_all add: find_row_def find_append)

lemma find_row_submit: "find_row ob e = Some w \<Longrightarrow> find_row (apply_call rt ob (Submit r, now)) e = Some w"
  by (auto simp: find_row_append dest!: submit_outbox split: sum.splits)

text \<open>C17: A completed execution is final: no sequence of calls, by whatever owners and at whatever times, changes its row, so
  its result is never replaced.\<close>

theorem completed_is_final:
  assumes "find_row ob e = Some w" and "ro_state w = QS_COMPLETED"
  shows "find_row (foldl (apply_call rt) ob calls) e = Some w"
proof -
  have step: "find_row (apply_call rt ob c) e = Some w" if found: "find_row ob e = Some w" for ob c
  proof (cases c)
    case (Pair call now)
    show ?thesis
    proof (cases call)
      case (Submit r)
      with found Pair find_row_submit show ?thesis by metis
    qed (use found assms(2) Pair in \<open>auto simp: outbox_ops find_row_update\<close>)
  qed
  from assms(1) show ?thesis by (induction calls arbitrary: ob) (simp_all add: step)
qed

text \<open>C17 applied to a completed row under a claim and a reconciliation.\<close>

theorem completed_is_final_witness:
  "\<exists>w. find_row (foldl (apply_call sample_runtime) [(new_row example_request [] 0)\<lparr>ro_state := QS_COMPLETED\<rparr>]
      [(Claim ''e1'' ''o2'' 30, 5), (Reconcile ''e1'', 6)]) ''e1'' = Some w \<and> ro_state w = QS_COMPLETED"
proof -
  let ?w = "(new_row example_request [] 0)\<lparr>ro_state := QS_COMPLETED\<rparr>"
  have "find_row [?w] ''e1'' = Some ?w" by (simp add: find_row_def new_row_def example_request_def)
  then have x: "find_row (foldl (apply_call sample_runtime) [?w] [(Claim ''e1'' ''o2'' 30, 5), (Reconcile ''e1'', 6)]) ''e1'' = Some ?w"
    by (rule completed_is_final) simp
  show ?thesis unfolding x by simp
qed

section \<open>Exclusive leases\<close>

text \<open>The row belongs to the owner at least until the given time.\<close>

definition held :: "outbox \<Rightarrow> string \<Rightarrow> string \<Rightarrow> rat \<Rightarrow> bool" where
  "held ob e owner t \<longleftrightarrow> (\<exists>w. find_row ob e = Some w \<and> ro_owner_token w = Some owner \<and> ro_state w \<noteq> QS_PENDING \<and> t \<le> ro_lease_expires_at w)"

text \<open>Calls not after that time that, if the owner itself renews, do not shorten its lease.\<close>

fun within_lease :: "string \<Rightarrow> string \<Rightarrow> rat \<Rightarrow> outbox_call \<times> rat \<Rightarrow> bool" where
  "within_lease e owner t (Renew e' owner' duration, now) \<longleftrightarrow> now \<le> t \<and> (e' = e \<and> owner' = owner \<longrightarrow> t \<le> now + duration)"
| "within_lease e owner t (_, now) \<longleftrightarrow> now \<le> t"

lemma within_time: "within_lease e owner t (c, now) \<Longrightarrow> now \<le> t"
  by (cases c) auto

lemma held_update:
  assumes "held ob e owner t" and "\<And>w. ro_execution_id (f w) = ro_execution_id w"
    and "\<And>w. e' = e \<Longrightarrow> P w \<Longrightarrow> ro_owner_token w = Some owner \<Longrightarrow> ro_state w \<noteq> QS_PENDING \<Longrightarrow> t \<le> ro_lease_expires_at w \<Longrightarrow>
      ro_owner_token (f w) = Some owner \<and> ro_state (f w) \<noteq> QS_PENDING \<and> t \<le> ro_lease_expires_at (f w)"
  shows "held (fst (update_row ob e' P f)) e owner t"
proof -
  obtain w where w: "find_row ob e = Some w" "ro_owner_token w = Some owner" "ro_state w \<noteq> QS_PENDING" "t \<le> ro_lease_expires_at w"
    using assms(1) by (auto simp: held_def)
  define v where "v = (if e' = e \<and> P w then f w else w)"
  have "find_row (fst (update_row ob e' P f)) e = Some v" using w(1) by (auto simp: find_row_update[OF assms(2)] v_def)
  moreover have "ro_owner_token v = Some owner \<and> ro_state v \<noteq> QS_PENDING \<and> t \<le> ro_lease_expires_at v"
    using assms(3)[of w] w(2-4) by (simp add: v_def)
  ultimately show ?thesis unfolding held_def by blast
qed

lemma held_step:
  assumes "held ob e owner t" and "within_lease e owner t c"
  shows "held (apply_call rt ob c) e owner t"
proof -
  obtain call now where c: "c = (call, now)" by (cases c)
  have now: "now \<le> t" using assms(2) within_time c by blast
  show ?thesis
  proof (cases call)
    case (Submit r)
    with assms(1) find_row_submit show ?thesis unfolding held_def c by metis
  next
    case (Claim e' owner' duration)
    show ?thesis unfolding c Claim apply_call.simps claim_lease_def
      by (rule held_update[OF assms(1)]) (use now in auto)
  next
    case (Renew e' owner' duration)
    show ?thesis unfolding c Renew apply_call.simps renew_lease_def
      by (rule held_update[OF assms(1)]) (use assms(2) in \<open>auto simp: c Renew\<close>)
  qed (use assms(1) in \<open>auto simp: c outbox_ops intro!: held_update\<close>)
qed

lemma held_calls: "held ob e owner t \<Longrightarrow> list_all (within_lease e owner t) calls \<Longrightarrow> held (foldl (apply_call rt) ob calls) e owner t"
  by (induction calls arbitrary: ob) (simp_all add: held_step)

lemma held_refuses:
  assumes "held ob e owner t" and "distinct (map ro_execution_id ob)"
  shows "now \<le> t \<Longrightarrow> \<not> snd (claim_lease ob e other duration now)"
    and "other \<noteq> owner \<Longrightarrow> \<not> snd (renew_lease ob e other duration now)"
    and "other \<noteq> owner \<Longrightarrow> \<not> snd (record_result ob e other res now)"
  using assms by (auto simp: held_def claim_lease_def renew_lease_def record_result_def update_row_granted)

lemma distinct_step: "distinct (map ro_execution_id ob) \<Longrightarrow> distinct (map ro_execution_id (apply_call rt ob c))"
proof -
  assume d: "distinct (map ro_execution_id ob)"
  obtain call now where c: "c = (call, now)" by (cases c)
  show ?thesis
  proof (cases call)
    case (Submit r)
    have fresh: "find_row ob e = None \<Longrightarrow> e \<notin> ro_execution_id ` set ob" for e
      by (auto simp: find_row_def find_None_iff)
    from d c Submit fresh show ?thesis
      by (auto simp: new_row_def dest!: submit_outbox split: sum.splits)
  qed (use d c in \<open>simp_all add: outbox_ops update_row_ids\<close>)
qed

lemma distinct_calls: "distinct (map ro_execution_id ob) \<Longrightarrow> distinct (map ro_execution_id (foldl (apply_call rt) ob calls))"
  by (induction calls arbitrary: ob) (simp_all add: distinct_step)

text \<open>C13: From a granted claim until its lease runs out the execution has exactly one owner: whatever calls come in between
  (of a renewal by the owner it is only asked that it does not shorten the lease), the row keeps its owner, every claim is
  refused, and nobody else can renew the lease or record a result.\<close>

theorem lease_is_exclusive:
  assumes "distinct (map ro_execution_id ob)" and "claim_lease ob e owner duration now = (ob', True)"
    and "list_all (within_lease e owner (now + duration)) calls"
  shows "\<exists>w. find_row (foldl (apply_call rt) ob' calls) e = Some w \<and> ro_owner_token w = Some owner \<and>
     (\<forall>other d t. t \<le> now + duration \<longrightarrow> \<not> snd (claim_lease (foldl (apply_call rt) ob' calls) e other d t)) \<and>
     (\<forall>other d t res. other \<noteq> owner \<longrightarrow> \<not> snd (renew_lease (foldl (apply_call rt) ob' calls) e other d t) \<and>
        \<not> snd (record_result (foldl (apply_call rt) ob' calls) e other res t))"
proof -
  have ob': "ob' = apply_call rt ob (Claim e owner duration, now)" using assms(2) by simp
  have "snd (claim_lease ob e owner duration now)" using assms(2) by simp
  then obtain w where "find_row ob e = Some w" "ro_state w = QS_PENDING \<or> ro_state w = QS_CLAIMED \<and> ro_lease_expires_at w < now"
    using assms(1) by (auto simp: claim_lease_def update_row_granted)
  then have "held ob' e owner (now + duration)"
    by (simp add: ob' held_def claim_lease_def find_row_update)
  then have h: "held (foldl (apply_call rt) ob' calls) e owner (now + duration)" using assms(3) by (rule held_calls)
  have d: "distinct (map ro_execution_id (foldl (apply_call rt) ob' calls))"
    using assms(1) by (auto simp: ob' intro: distinct_calls distinct_step simp del: apply_call.simps)
  from held_refuses[OF h d] h show ?thesis by (auto simp: held_def)
qed

text \<open>C13 applied to a second claim and the start of the execution within the lease.\<close>

theorem lease_is_exclusive_witness:
  "\<exists>ob' w. claim_lease [new_row example_request [] 0] ''e1'' ''o1'' 30 1 = (ob', True) \<and>
     find_row (foldl (apply_call sample_runtime) ob' [(Claim ''e1'' ''o2'' 30, 5), (MarkRunning ''e1'' ''o1'', 6)]) ''e1'' = Some w \<and>
     ro_owner_token w = Some ''o1''"
proof -
  let ?ob = "[new_row example_request [] 0]"
  have d: "distinct (map ro_execution_id ?ob)" by simp
  obtain ob' where c: "claim_lease ?ob ''e1'' ''o1'' 30 1 = (ob', True)"
    by (simp add: claim_lease_def update_row_def new_row_def example_request_def)
  have "list_all (within_lease ''e1'' ''o1'' (1 + 30)) [(Claim ''e1'' ''o2'' 30, 5), (MarkRunning ''e1'' ''o1'', 6)]" by simp
  from lease_is_exclusive[OF d c this] c show ?thesis by blast
qed

section \<open>Reachable outboxes\<close>

text \<open>A row was written from an accepted request of one of the given calls and reads back as its stored form; it holds a result
  exactly when it is completed, and then one that such a call recorded for it.\<close>

definition row_logged :: "runtime \<Rightarrow> outbox_call set \<Rightarrow> row \<Rightarrow> bool" where
  "row_logged rt calls w \<longleftrightarrow>
     (\<exists>r. Submit r \<in> calls \<and> request_to_dict r = Inr (ro_request_json w) \<and>
        request_from_dict rt (ro_request_json w) = Inr (stored_request r) \<and> ro_execution_id w = rq_execution_id r \<and>
        ro_request_digest w = rq_request_digest r \<and> ro_project_id w = rq_project_id r) \<and>
     (case ro_result_json w of None \<Rightarrow> ro_state w \<noteq> QS_COMPLETED
      | Some d \<Rightarrow> ro_state w = QS_COMPLETED \<and>
          (\<exists>owner res. Record (ro_execution_id w) owner res \<in> calls \<and> result_ok rt res \<and> d = result_to_dict res)) \<and>
     (ro_state w \<in> {QS_CLAIMED, QS_RUNNING} \<longrightarrow> ro_owner_token w \<noteq> None)"

definition row_ok :: "runtime \<Rightarrow> row \<Rightarrow> bool" where
  "row_ok rt w \<longleftrightarrow> row_logged rt UNIV w"

definition outbox_inv :: "runtime \<Rightarrow> outbox \<Rightarrow> bool" where
  "outbox_inv rt ob \<longleftrightarrow> distinct (map ro_execution_id ob) \<and> list_all (row_ok rt) ob"

lemma row_logged_mono:
  assumes "row_logged rt calls w" and "calls \<subseteq> calls'"
  shows "row_logged rt calls' w"
proof -
  have "case ro_result_json w of None \<Rightarrow> ro_state w \<noteq> QS_COMPLETED
      | Some d \<Rightarrow> ro_state w = QS_COMPLETED \<and>
          (\<exists>owner res. Record (ro_execution_id w) owner res \<in> calls' \<and> result_ok rt res \<and> d = result_to_dict res)"
    using assms by (cases "ro_result_json w") (auto simp: row_logged_def)
  moreover have "\<exists>r. Submit r \<in> calls' \<and> request_to_dict r = Inr (ro_request_json w) \<and>
        request_from_dict rt (ro_request_json w) = Inr (stored_request r) \<and> ro_execution_id w = rq_execution_id r \<and>
        ro_request_digest w = rq_request_digest r \<and> ro_project_id w = rq_project_id r"
    using assms unfolding row_logged_def by blast
  ultimately show ?thesis using assms(1) unfolding row_logged_def by blast
qed

text \<open>The calls of the program pass accepted requests and results. The machine keeps the calls made so far.\<close>

fun call_ok :: "runtime \<Rightarrow> outbox_call \<Rightarrow> bool" where
  "call_ok rt (Submit r) = request_ok rt r"
| "call_ok rt (Record e owner res) = result_ok rt res"
| "call_ok rt _ = True"

inductive outbox_step :: "runtime \<Rightarrow> outbox \<times> outbox_call list \<Rightarrow> outbox \<times> outbox_call list \<Rightarrow> bool" for rt where
  outbox_call: "call_ok rt c \<Longrightarrow> outbox_step rt (ob, past) (apply_call rt ob (c, now), c # past)"

inductive_cases outbox_stepE: "outbox_step rt (ob, past) t"

fun logged_inv :: "runtime \<Rightarrow> outbox \<times> outbox_call list \<Rightarrow> bool" where
  "logged_inv rt (ob, past) \<longleftrightarrow> distinct (map ro_execution_id ob) \<and> list_all (row_logged rt (set past)) ob"

lemma logged_outbox_inv: "logged_inv rt (ob, past) \<Longrightarrow> outbox_inv rt ob"
  by (auto simp: outbox_inv_def row_ok_def list_all_iff intro: row_logged_mono)

lemma update_logged:
  assumes "\<And>w. w \<in> set ob \<Longrightarrow> row_logged rt calls w" and "\<And>w. row_logged rt calls w \<Longrightarrow> P w \<Longrightarrow> ro_execution_id w = e \<Longrightarrow> row_logged rt calls (f w)"
  shows "list_all (row_logged rt calls) (fst (update_row ob e P f))"
  using assms by (auto simp: list_all_iff dest!: update_row_rows)

text \<open>A row that \<open>submit_request\<close> adds has been read back once: otherwise the call raises and its transaction is undone.\<close>

lemma submitted_row_reads:
  assumes "submit_request rt ob r now = Inr (ob', True, rec)" and "request_to_dict r = Inr d" and "request_ok rt r"
  shows "request_from_dict rt d = Inr (stored_request r)"
proof -
  have "\<exists>rec. row_to_record rt (new_row r d now) = Inr rec"
    using assms(1,2) by (cases "find_row ob (rq_execution_id r)") (auto simp: submit_request_def ebind_Inr_iff split: if_splits)
  then obtain q where "request_from_dict rt d = Inr q" by (auto simp: row_to_record_def new_row_def ebind_Inr_iff)
  with written_request_read[OF assms(3,2)] show ?thesis by simp
qed

lemma logged_step: "logged_inv rt s \<Longrightarrow> outbox_step rt s t \<Longrightarrow> logged_inv rt t"
proof -
  assume inv: "logged_inv rt s" and step: "outbox_step rt s t"
  obtain ob past where s: "s = (ob, past)" by (cases s)
  from step[unfolded s] obtain c now where t: "t = (apply_call rt ob (c, now), c # past)" and ok: "call_ok rt c" by (rule outbox_stepE)
  have d: "distinct (map ro_execution_id (apply_call rt ob (c, now)))" using inv s by (intro distinct_step) simp
  have rows: "row_logged rt (set (c # past)) w" if "w \<in> set ob" for w
    using inv s that by (auto simp: list_all_iff intro: row_logged_mono)
  have "list_all (row_logged rt (set (c # past))) (apply_call rt ob (c, now))"
  proof (cases c)
    case (Submit r)
    show ?thesis
    proof (cases "submit_request rt ob r now")
      case (Inl err)
      with rows Submit show ?thesis by (simp add: list_all_iff)
    next
      case (Inr x)
      obtain ob' created rec where x: "x = (ob', created, rec)" by (cases x)
      have "row_logged rt (set (c # past)) (new_row r d now)" if "request_to_dict r = Inr d" "created" for d
        using that submitted_row_reads[of rt ob r now ob' rec d] Inr x ok Submit by (auto simp: row_logged_def new_row_def)
      with rows Inr x Submit show ?thesis using submit_outbox[of rt ob r now ob' created rec] by (auto simp: list_all_iff)
    qed
  next
    case (Record e owner res)
    show ?thesis unfolding Record apply_call.simps record_result_def
      by (rule update_logged) (use ok Record rows in \<open>auto simp: row_logged_def\<close>)
  qed (simp_all only: apply_call.simps outbox_ops, (rule update_logged, use rows in simp, auto simp: row_logged_def split: option.splits)+)
  with d t show ?thesis by simp
qed

interpretation outbox: inductive_invariant "\<lambda>s. s = ([], [])" "outbox_step rt" "logged_inv rt"
  by unfold_locales (simp, rule logged_step)

lemma row_to_record_logged:
  assumes "row_logged rt calls w"
  shows "\<exists>rec r. row_to_record rt w = Inr rec \<and> Submit r \<in> calls \<and> rq_execution_id r = ro_execution_id w \<and>
     qr_request rec = stored_request r \<and> rq_request_digest r = ro_request_digest w \<and> qr_state rec = ro_state w \<and>
     qr_owner_token rec = ro_owner_token w \<and> qr_idempotency rec = ro_idempotency w \<and>
     (qr_result rec = None \<and> ro_state w \<noteq> QS_COMPLETED \<or>
      ro_state w = QS_COMPLETED \<and> (\<exists>owner res. qr_result rec = Some res \<and> Record (ro_execution_id w) owner res \<in> calls))"
proof -
  obtain r where r: "Submit r \<in> calls" "request_from_dict rt (ro_request_json w) = Inr (stored_request r)"
    "ro_execution_id w = rq_execution_id r" "ro_request_digest w = rq_request_digest r"
    using assms unfolding row_logged_def by blast
  show ?thesis
  proof (cases "ro_result_json w")
    case None
    then have "ro_state w \<noteq> QS_COMPLETED" using assms by (simp add: row_logged_def)
    with None r show ?thesis by (auto simp: row_to_record_def)
  next
    case (Some d)
    then obtain owner res where "Record (ro_execution_id w) owner res \<in> calls" "result_ok rt res" "d = result_to_dict res" "ro_state w = QS_COMPLETED"
      using assms unfolding row_logged_def by auto
    with Some r show ?thesis by (auto simp: row_to_record_def result_read_back)
  qed
qed

lemma row_to_record_ok:
  assumes "row_ok rt w"
  shows "\<exists>rec. row_to_record rt w = Inr rec \<and> qr_state rec = ro_state w \<and> qr_owner_token rec = ro_owner_token w \<and>
     qr_idempotency rec = ro_idempotency w"
  using row_to_record_logged[OF assms[unfolded row_ok_def]] by blast

text \<open>C21: In every outbox the program can reach, every execution id has one row, and reading a row never fails: it gives back a
  request that was submitted under this id, whole, in its stored form (arguments as a tuple, numbers as floats), with the digest
  of the row; a result is there exactly when the execution is completed, and it is one that was recorded for it.\<close>

theorem reachable_records_read_back:
  assumes "reachable (\<lambda>s. s = ([], [])) (outbox_step rt) (ob, past)"
  shows "distinct (map ro_execution_id ob) \<and>
     (\<forall>e w. find_row ob e = Some w \<longrightarrow> (\<exists>rec r. get_record rt ob e = Inr (Some rec) \<and>
        Submit r \<in> set past \<and> rq_execution_id r = e \<and> qr_request rec = stored_request r \<and> rq_request_digest r = ro_request_digest w \<and>
        qr_state rec = ro_state w \<and> qr_owner_token rec = ro_owner_token w \<and>
        (qr_result rec = None \<and> ro_state w \<noteq> QS_COMPLETED \<or>
         ro_state w = QS_COMPLETED \<and> (\<exists>owner res. qr_result rec = Some res \<and> Record e owner res \<in> set past))))"
proof -
  have inv: "logged_inv rt (ob, past)" using assms by (rule outbox.inv_reachable)
  have "\<exists>rec r. get_record rt ob e = Inr (Some rec) \<and>
        Submit r \<in> set past \<and> rq_execution_id r = e \<and> qr_request rec = stored_request r \<and> rq_request_digest r = ro_request_digest w \<and>
        qr_state rec = ro_state w \<and> qr_owner_token rec = ro_owner_token w \<and>
        (qr_result rec = None \<and> ro_state w \<noteq> QS_COMPLETED \<or>
         ro_state w = QS_COMPLETED \<and> (\<exists>owner res. qr_result rec = Some res \<and> Record e owner res \<in> set past))"
    if w: "find_row ob e = Some w" for e w
  proof -
    have "row_logged rt (set past) w" "ro_execution_id w = e" using inv find_row_in[OF w] by (auto simp: list_all_iff)
    moreover have "get_record rt ob e = Inr (Some rec)" if "row_to_record rt w = Inr rec" for rec using w that by (simp add: get_record_def)
    ultimately show ?thesis using row_to_record_logged[of rt "set past" w] by blast
  qed
  with inv show ?thesis by auto
qed

lemma submit_accepted:
  assumes "request_ok rt r" and "exact_numbers r" and "find_row ob (rq_execution_id r) = None"
    and "rq_effect_class r = READ_ONLY \<or> active_effects ob (rq_project_id r) now = 0"
  shows "\<exists>d rec. request_to_dict r = Inr d \<and> submit_request rt ob r now = Inr (ob @ [new_row r d now], True, rec)"
proof -
  obtain d where d: "request_to_dict r = Inr d" "request_from_dict rt d = Inr (stored_request r)"
    using request_read_back[OF assms(1,2)] by blast
  then obtain rec where "row_to_record rt (new_row r d now) = Inr rec" by (simp add: row_to_record_def new_row_def)
  with d assms(3,4) show ?thesis by (auto simp: submit_request_def PROJECT_SIMULTANEOUS_LOCAL_EFFECTS_MAX_def)
qed

text \<open>The request for examples, as the constructor leaves it.\<close>

definition stored_sample :: "string \<Rightarrow> request" where
  "stored_sample e = (case request_post_init sample_runtime (example_request\<lparr>rq_execution_id := e\<rparr>) of Inr q \<Rightarrow> q | Inl _ \<Rightarrow> example_request)"

lemma stored_sample_ok:
  assumes "e \<noteq> []"
  shows "request_ok sample_runtime (stored_sample e)" and "rq_execution_id (stored_sample e) = e"
    and "rq_project_id (stored_sample e) = ''p1''" and "rq_effect_class (stored_sample e) = PROJECT_MUTATION"
    and "rq_idempotency (stored_sample e) = IDEMPOTENT_REPLAYABLE" and "exact_numbers (stored_sample e)"
proof -
  obtain c where c: "request_post_init sample_runtime (example_request\<lparr>rq_execution_id := e\<rparr>) = Inr (example_request\<lparr>rq_execution_id := e, rq_request_digest := c\<rparr>)"
    using assms by (simp add: request_post_init_def request_refusal_def mode_refusal_def script_refused_def with_script_digest_def
        example_request_def KNOWN_ADAPTER_IDS_def request_digest_def is_text_def)
  show "request_ok sample_runtime (stored_sample e)" using request_post_init_ok[OF c] by (simp add: stored_sample_def c)
  show "rq_execution_id (stored_sample e) = e" "rq_project_id (stored_sample e) = ''p1''" "rq_effect_class (stored_sample e) = PROJECT_MUTATION"
    "rq_idempotency (stored_sample e) = IDEMPOTENT_REPLAYABLE" "exact_numbers (stored_sample e)"
    unfolding stored_sample_def c by (simp_all add: example_request_def exact_numbers_def number_exact_def float_of_small_int)
qed

text \<open>C21 applied to the outbox after one submission.\<close>

theorem reachable_records_read_back_witness:
  "\<exists>ob rec. reachable (\<lambda>s. s = ([], [])) (outbox_step sample_runtime) (ob, [Submit (stored_sample ''e1'')]) \<and>
     get_record sample_runtime ob ''e1'' = Inr (Some rec) \<and> qr_request rec = stored_request (stored_sample ''e1'')"
proof -
  note ok = stored_sample_ok[of "''e1''", simplified]
  have "find_row [] ''e1'' = None" "active_effects [] ''p1'' 0 = 0" by (simp_all add: find_row_def active_effects_def)
  then obtain d rec where s: "submit_request sample_runtime [] (stored_sample ''e1'') 0 = Inr ([new_row (stored_sample ''e1'') d 0], True, rec)"
    using submit_accepted[OF ok(1,6), of "[]" 0] ok by auto
  let ?ob = "[new_row (stored_sample ''e1'') d 0]"
  have "outbox_step sample_runtime ([], []) (apply_call sample_runtime [] (Submit (stored_sample ''e1''), 0), [Submit (stored_sample ''e1'')])"
    by (rule outbox_call) (simp add: ok(1))
  then have step: "outbox_step sample_runtime ([], []) (?ob, [Submit (stored_sample ''e1'')])" by (simp add: s)
  have r: "reachable (\<lambda>s. s = ([], [])) (outbox_step sample_runtime) (?ob, [Submit (stored_sample ''e1'')])"
    by (rule reach_step[where s = "([], [])"]) (simp_all add: reach_init step)
  have "find_row ?ob ''e1'' = Some (new_row (stored_sample ''e1'') d 0)" using ok(2) by (simp add: find_row_def new_row_def)
  with reachable_records_read_back[OF r] r show ?thesis by fastforce
qed

section \<open>Where the protocol falls short\<close>

text \<open>C33: An execution whose worker died while it was running is never run again: recovery calls it reclaimable when it is
  idempotent, but no claim on it is ever granted, however long its lease has run out.\<close>

theorem crashed_running_execution_is_stuck:
  assumes "outbox_inv rt ob" and "find_row ob e = Some w" and "ro_state w = QS_RUNNING" and "ro_idempotency w = IDEMPOTENT_REPLAYABLE"
  shows "handle_crash_recovery rt ob e now = (ob, Inr ''RECLAIMABLE'') \<and> (\<forall>owner duration t. claim_lease ob e owner duration t = (ob, False))"
proof
  have ok: "row_ok rt w" using assms(1) find_row_in[OF assms(2)] by (auto simp: outbox_inv_def list_all_iff)
  obtain rec where "row_to_record rt w = Inr rec" "qr_state rec = QS_RUNNING" "qr_idempotency rec = IDEMPOTENT_REPLAYABLE"
    using row_to_record_ok[OF ok] assms(3,4) by auto
  then show "handle_crash_recovery rt ob e now = (ob, Inr ''RECLAIMABLE'')"
    using assms(2) by (simp add: handle_crash_recovery_def get_record_def)
  have others: "v = w" if "v \<in> set ob" "ro_execution_id v = e" for v
    using assms(1) that find_row_in[OF assms(2)] by (auto simp: outbox_inv_def distinct_map inj_on_def)
  have "map (\<lambda>v. if ro_execution_id v = e \<and> (ro_state v = QS_PENDING \<or> ro_state v = QS_CLAIMED \<and> ro_lease_expires_at v < t) then f v else v) ob = ob"
    for t f using others assms(3) by (intro map_idI) auto
  moreover have "\<not> snd (claim_lease ob e owner duration t)" for owner duration t
    using assms by (simp add: claim_lease_def update_row_granted outbox_inv_def)
  ultimately show "\<forall>owner duration t. claim_lease ob e owner duration t = (ob, False)"
    by (simp add: claim_lease_def update_row_def Let_def)
qed

text \<open>C33 applied to an outbox with one running execution.\<close>

theorem crashed_running_execution_is_stuck_witness:
  "\<exists>ob. handle_crash_recovery sample_runtime ob ''e1'' 99 = (ob, Inr ''RECLAIMABLE'') \<and>
     (\<forall>owner duration t. claim_lease ob ''e1'' owner duration t = (ob, False))"
proof -
  note ok = stored_sample_ok[of "''e1''", simplified]
  obtain d where d: "request_to_dict (stored_sample ''e1'') = Inr d"
    "request_from_dict sample_runtime d = Inr (stored_request (stored_sample ''e1''))"
    using request_read_back[OF ok(1,6)] by blast
  let ?w = "(new_row (stored_sample ''e1'') d 0)\<lparr>ro_state := QS_RUNNING, ro_owner_token := Some ''o1''\<rparr>"
  have inv: "outbox_inv sample_runtime [?w]" using d ok(1) by (auto simp: outbox_inv_def row_ok_def row_logged_def new_row_def)
  have found: "find_row [?w] ''e1'' = Some ?w" using ok(2) by (simp add: find_row_def new_row_def)
  have "ro_state ?w = QS_RUNNING" "ro_idempotency ?w = IDEMPOTENT_REPLAYABLE" using ok(5) by (simp_all add: new_row_def)
  from crashed_running_execution_is_stuck[OF inv found this] show ?thesis by blast
qed

text \<open>Two mutations of one project can be active at the same time: the check is made at submission, before either is claimed.\<close>

lemma two_active_effects:
  assumes "request_ok rt r1" "request_ok rt r2" "exact_numbers r1" "exact_numbers r2" "rq_project_id r1 = rq_project_id r2" "rq_execution_id r1 \<noteq> rq_execution_id r2"
    and "rq_effect_class r1 \<noteq> READ_ONLY" "rq_effect_class r2 \<noteq> READ_ONLY"
  shows "active_effects (foldl (apply_call rt) [] [(Submit r1, 0), (Submit r2, 0), (Claim (rq_execution_id r1) o1 30, 1),
     (Claim (rq_execution_id r2) o2 30, 1)]) (rq_project_id r1) 2 = 2"
proof -
  obtain d1 rec1 where s1: "submit_request rt [] r1 0 = Inr ([new_row r1 d1 0], True, rec1)"
    using submit_accepted[OF assms(1,3), of "[]" 0] by (auto simp: find_row_def active_effects_def)
  obtain d2 rec2 where s2: "submit_request rt [new_row r1 d1 0] r2 0 = Inr ([new_row r1 d1 0, new_row r2 d2 0], True, rec2)"
    using submit_accepted[OF assms(2,4), of "[new_row r1 d1 0]" 0] assms(6) by (auto simp: find_row_def active_effects_def new_row_def)
  show ?thesis using assms(5-8)
    by (simp add: s1 s2 claim_lease_def update_row_def active_effects_def Let_def) (simp add: new_row_def)
qed

text \<open>The owner of a completed execution can start it again: the answer of \<open>mark_running\<close> is not looked at, so the backend is
  called with the request although the outbox says that it is completed.\<close>

lemma completed_execution_dispatched_again:
  assumes "outbox_inv rt ob" and "find_row ob e = Some w" and "ro_state w = QS_COMPLETED" and "ro_owner_token w = Some (wk_owner_token k)"
  shows "\<exists>k' ob' rec. begin_execution rt k ob e now = (k', ob', Inr rec) \<and> qr_state rec = QS_COMPLETED"
proof -
  have ok: "row_ok rt w" using assms(1) find_row_in[OF assms(2)] by (auto simp: outbox_inv_def list_all_iff)
  obtain rec where "row_to_record rt w = Inr rec" "qr_state rec = QS_COMPLETED" "qr_owner_token rec = Some (wk_owner_token k)"
    using row_to_record_ok[OF ok] assms(3,4) by auto
  then show ?thesis using assms(2) by (simp add: begin_execution_def get_record_def)
qed

text \<open>A message that is not authenticated changes neither the worker nor the outbox.\<close>

lemma unauthenticated_message_refused:
  assumes "ms_auth_token msg \<noteq> wk_auth_token k \<or> ms_protocol_version msg \<noteq> LOCAL_WORKER_PROTOCOL_VERSION"
  shows "\<exists>err. worker_submit rt k ob msg r now = (k, ob, Inl err) \<and> worker_claim k ob msg lease now = (k, ob, Inl err) \<and> worker_cancel k ob msg now = (k, ob, Inl err)"
  using assms by (simp add: worker_submit_def worker_claim_def worker_cancel_def verify_auth_def)
end
