(* ===== verification/Output_Hardening.thy ===== *)
theory Output_Hardening
  imports Local_Execution "HOL-Library.Sublist"
begin

text \<open>
  Output evidence and redaction of \<^verbatim>\<open>src/bdb_vnext/output_cancellation_hardening.py\<close>: the secret redactor with its regular
  expressions, safe decoding, the accumulator of stream chunks, evidence with externalised content, its integrity check,
  and cancellation receipts. The directory of artifacts is a map from file names to bytes; the decoders are services.
\<close>

section \<open>Regular expressions\<close>

text \<open>
  The fragment the patterns use: a repeated character class (greedy or lazy), sequence, alternative and captured group.
  A match is what was consumed, the groups and the rest; the list has them in the order in which a backtracking
  matcher finds them.
\<close>

datatype rx =
    Class "char \<Rightarrow> bool" nat "nat option" bool
  | Seq rx rx
  | Alt rx rx
  | Group nat rx

type_synonym rx_match = "string \<times> (nat \<times> string) list \<times> string"

primrec rx_matches :: "rx \<Rightarrow> string \<Rightarrow> rx_match list" where
  "rx_matches (Class P lo hi greedy) s =
     (let n = length (takeWhile P s); n' = (case hi of None \<Rightarrow> n | Some k \<Rightarrow> min n k);
          ks = [lo..<Suc n']
      in map (\<lambda>k. (take k s, [], drop k s)) (if greedy then rev ks else ks))"
| "rx_matches (Seq a b) s =
     concat (map (\<lambda>(u, g, t). map (\<lambda>(v, g', t'). (u @ v, g @ g', t')) (rx_matches b t)) (rx_matches a s))"
| "rx_matches (Alt a b) s = rx_matches a s @ rx_matches b s"
| "rx_matches (Group i a) s = map (\<lambda>(u, g, t). (u, (i, u) # g, t)) (rx_matches a s)"

definition one :: "(char \<Rightarrow> bool) \<Rightarrow> rx" where
  "one P = Class P 1 (Some 1) True"

text \<open>A literal, without regard to case when the flag is set; \<open>rest\<close> follows it.\<close>

fun lit :: "bool \<Rightarrow> string \<Rightarrow> rx \<Rightarrow> rx" where
  "lit ci [] rest = rest"
| "lit ci (c # cs) rest = Seq (one (\<lambda>x. if ci then lower_char x = lower_char c else x = c)) (lit ci cs rest)"

definition nothing :: rx where
  "nothing = Class (\<lambda>_. False) 0 (Some 0) True"

text \<open>\<open>pattern.sub(template, text)\<close>: leftmost matches, none of them empty; the template is made of texts and groups.\<close>

datatype part = Text string | Ref nat

definition expand :: "part list \<Rightarrow> (nat \<times> string) list \<Rightarrow> string" where
  "expand ps g = concat (map (\<lambda>p. case p of Text t \<Rightarrow> t | Ref i \<Rightarrow> (case map_of g i of Some t \<Rightarrow> t | None \<Rightarrow> [])) ps)"

fun rx_sub_fuel :: "nat \<Rightarrow> rx \<Rightarrow> part list \<Rightarrow> string \<Rightarrow> string" where
  "rx_sub_fuel 0 r ps s = s"
| "rx_sub_fuel (Suc k) r ps [] = []"
| "rx_sub_fuel (Suc k) r ps (c # cs) =
     (case rx_matches r (c # cs) of
        [] \<Rightarrow> c # rx_sub_fuel k r ps cs
      | (u, g, t) # _ \<Rightarrow> expand ps g @ rx_sub_fuel k r ps t)"

definition rx_sub :: "rx \<Rightarrow> part list \<Rightarrow> string \<Rightarrow> string" where
  "rx_sub r ps s = rx_sub_fuel (length s) r ps s"

section \<open>The redactor\<close>

definition alnum :: "char \<Rightarrow> bool" where
  "alnum c \<longleftrightarrow> (let n = code c in 48 \<le> n \<and> n \<le> 57 \<or> 65 \<le> n \<and> n \<le> 90 \<or> 97 \<le> n \<and> n \<le> 122)"

definition alnum_or :: "string \<Rightarrow> char \<Rightarrow> bool" where
  "alnum_or cs c \<longleftrightarrow> alnum c \<or> c \<in> set cs"

definition quote_char :: "char \<Rightarrow> bool" where
  "quote_char c \<longleftrightarrow> code c = 39 \<or> code c = 34"

definition spaces :: rx where
  "spaces = Class is_space 0 None True"

definition opt_quote :: rx where
  "opt_quote = Class quote_char 0 (Some 1) True"

definition assign_op :: rx where
  "assign_op = Seq spaces (Seq (one (\<lambda>c. c = CHR '':'' \<or> c = CHR ''='')) (Seq spaces opt_quote))"

definition upper_or_space :: "char \<Rightarrow> bool" where
  "upper_or_space c \<longleftrightarrow> 65 \<le> code c \<and> code c \<le> 90 \<or> c = CHR '' ''"

text \<open>A keyword, a separator and a value of which the template keeps what is before and the quote behind.\<close>

definition quoted_value :: "rx \<Rightarrow> (char \<Rightarrow> bool) \<Rightarrow> nat \<Rightarrow> rx" where
  "quoted_value key P n = Seq (Group 1 key) (Seq (Group 2 (Class P n None True)) (Group 3 opt_quote))"

definition unquoted :: "char \<Rightarrow> bool" where
  "unquoted c \<longleftrightarrow> \<not> is_space c \<and> \<not> quote_char c"

definition auth_header :: "rx \<times> part list" where
  "auth_header = (Seq (Group 1 (lit True ''authorization:'' spaces)) (Group 2 (Class (alnum_or ''_-.+=/ '') 8 None True)),
     [Ref 1, Text ''[REDACTED:AUTH_HEADER]''])"

definition bearer_token :: "rx \<times> part list" where
  "bearer_token = (Seq (Group 1 (lit True ''bearer'' (Class is_space 1 None True)))
       (Group 2 (Class (alnum_or ''_-.+=/'') 8 None True)),
     [Ref 1, Text ''[REDACTED:BEARER_TOKEN]''])"

definition github_token :: "rx \<times> part list" where
  "github_token = (lit False ''ghp_'' (Class alnum 36 (Some 36) True), [Text ''[REDACTED:GITHUB_TOKEN]''])"

definition github_pat :: "rx \<times> part list" where
  "github_pat = (lit False ''github_pat_'' (Class (alnum_or ''_'') 40 (Some 80) True), [Text ''[REDACTED:GITHUB_PAT]''])"

definition api_key :: "rx \<times> part list" where
  "api_key = (quoted_value
       (lit True ''api'' (Seq (Class (\<lambda>c. c = CHR ''_'' \<or> c = CHR ''-'') 0 (Some 1) True) (lit True ''key'' assign_op)))
       (alnum_or ''_-'') 8,
     [Ref 1, Text ''[REDACTED:API_KEY]'', Ref 3])"

definition password_value :: "rx \<times> part list" where
  "password_value = (quoted_value (lit True ''password'' assign_op) unquoted 6, [Ref 1, Text ''[REDACTED:PASSWORD]'', Ref 3])"

definition secret_assignment :: "rx \<times> part list" where
  "secret_assignment = (quoted_value (lit True ''secret'' assign_op) unquoted 6, [Ref 1, Text ''[REDACTED:SECRET]'', Ref 3])"

definition cookie_value :: "rx \<times> part list" where
  "cookie_value =
     (Seq (Group 1 (lit True ''cookie:'' (Seq spaces (Seq (Class (\<lambda>c. code c \<noteq> 10) 0 None False)
         (Seq (Alt (lit True ''session'' nothing) (Alt (lit True ''token'' nothing) (lit True ''auth'' nothing)))
           (one (\<lambda>c. c = CHR ''='')))))))
       (Group 2 (Class (alnum_or ''_-.%+='') 1 None True)),
     [Ref 1, Text ''[REDACTED:COOKIE]''])"

definition url_password :: "rx \<times> part list" where
  "url_password =
     (Seq (Group 1 (lit False ''http'' (Seq (Class (\<lambda>c. c = CHR ''s'') 0 (Some 1) True) (lit False ''://'' nothing))))
       (Seq (Group 2 (Class (\<lambda>c. c \<noteq> CHR '':'') 1 None True))
         (Seq (one (\<lambda>c. c = CHR '':'')) (Seq (Group 3 (Class (\<lambda>c. c \<noteq> CHR ''@'') 1 None True)) (one (\<lambda>c. c = CHR ''@''))))),
     [Ref 1, Ref 2, Text '':[REDACTED:URL_PASSWORD]@''])"

definition private_key_block :: "rx \<times> part list" where
  "private_key_block =
     (lit False ''-----BEGIN '' (Seq (Class upper_or_space 0 None True) (lit False ''PRIVATE KEY-----''
       (Seq (Class (\<lambda>_. True) 0 None False) (lit False ''-----END ''
         (Seq (Class upper_or_space 0 None True) (lit False ''PRIVATE KEY-----'' nothing)))))),
     [Text ''[REDACTED:PRIVATE_KEY_BLOCK]''])"

definition ps_env :: "rx \<times> part list" where
  "ps_env =
     (quoted_value
       (lit True ''$env:'' (Seq (Alt (lit True ''TOKEN'' nothing) (Alt (lit True ''API_KEY'' nothing)
           (Alt (lit True ''PASSWORD'' nothing) (lit True ''SECRET'' nothing))))
         (Seq spaces (Seq (one (\<lambda>c. c = CHR ''='')) (Seq spaces opt_quote)))))
       unquoted 1,
     [Ref 1, Text ''[REDACTED:PS_ENV]'', Ref 3])"

definition SECRET_PATTERNS :: "(rx \<times> part list) list" where
  "SECRET_PATTERNS = [auth_header, bearer_token, github_token, github_pat, api_key, password_value, secret_assignment,
     cookie_value, url_password, private_key_block, ps_env]"

definition redact :: "string \<Rightarrow> string" where
  "redact text = foldl (\<lambda>s (r, ps). rx_sub r ps s) text SECRET_PATTERNS"

section \<open>Decoding\<close>

text \<open>\<open>raw_bytes.decode(encoding)\<close>: the text, \<open>UnicodeDecodeError\<close>, or \<open>LookupError\<close> for a name that is no
  encoding. Decoding with replacement never raises, so the branch after it is never taken.\<close>

datatype decoding = Decoded string | Undecodable | UnknownEncoding

type_synonym strict_decoder = "string \<Rightarrow> bytes \<Rightarrow> decoding"

datatype hardening_error = ExecErr exec_error | LookupErr

definition bytes_digest :: "output_services \<Rightarrow> bytes \<Rightarrow> string" where
  "bytes_digest sv b = ''sha256:'' @ hexdigest (sha256_bytes sv b)"

definition decode_raw_bytes :: "output_services \<Rightarrow> strict_decoder \<Rightarrow> bytes \<Rightarrow> string \<Rightarrow>
    hardening_error + string \<times> string \<times> string" where
  "decode_raw_bytes sv dec b encoding =
     (case dec encoding b of
        Decoded t \<Rightarrow> Inr (t, bytes_digest sv b, encoding)
      | UnknownEncoding \<Rightarrow> Inl LookupErr
      | Undecodable \<Rightarrow> Inr (decode_replace sv b, bytes_digest sv b, ''utf-8-replace''))"

section \<open>Stream chunks\<close>

record stream_chunk =
  ch_execution_id :: string
  ch_request_id :: string
  ch_stream :: string
  ch_sequence :: int
  ch_payload :: bytes

definition ch_byte_count :: "stream_chunk \<Rightarrow> nat" where
  "ch_byte_count ch = length (ch_payload ch)"

definition chunk_digest :: "output_services \<Rightarrow> stream_chunk \<Rightarrow> string" where
  "chunk_digest sv ch = bytes_digest sv (ch_payload ch)"

record accumulator =
  ac_execution_id :: string
  ac_request_id :: string
  ac_stream :: string
  ac_chunks :: "stream_chunk list"
  ac_next_seq :: int

definition new_accumulator :: "string \<Rightarrow> string \<Rightarrow> string \<Rightarrow> accumulator" where
  "new_accumulator e r st = \<lparr>ac_execution_id = e, ac_request_id = r, ac_stream = st, ac_chunks = [], ac_next_seq = 0\<rparr>"

definition append_chunk :: "accumulator \<Rightarrow> stream_chunk \<Rightarrow> exec_error + accumulator" where
  "append_chunk ac ch =
     (if ch_execution_id ch \<noteq> ac_execution_id ac \<or> ch_request_id ch \<noteq> ac_request_id ac \<or> ch_stream ch \<noteq> ac_stream ac
      then Inl (ContractError ''foreign_chunk_identity'')
      else if ch_sequence ch \<noteq> ac_next_seq ac then Inl (ContractError ''chunk_sequence_gap'')
      else Inr (ac\<lparr>ac_chunks := ac_chunks ac @ [ch], ac_next_seq := ac_next_seq ac + 1\<rparr>))"

definition assemble :: "output_services \<Rightarrow> accumulator \<Rightarrow> bytes \<times> string \<times> nat" where
  "assemble sv ac = (let raw = concat (map ch_payload (ac_chunks ac)) in (raw, bytes_digest sv raw, length raw))"

text \<open>A source of chunks: those that arrive are offered one by one; a refused one leaves the accumulator as it was.\<close>

fun offer_all :: "accumulator \<Rightarrow> stream_chunk list \<Rightarrow> accumulator" where
  "offer_all ac [] = ac"
| "offer_all ac (ch # chs) = (case append_chunk ac ch of Inr ac' \<Rightarrow> offer_all ac' chs | Inl _ \<Rightarrow> offer_all ac chs)"

section \<open>Externalised evidence\<close>

type_synonym artifacts = "string \<rightharpoonup> bytes"

definition INLINE_LIMIT_BYTES :: nat where
  "INLINE_LIMIT_BYTES = 64 * 1024"

definition truncation_mark :: string where
  "truncation_mark = char_of (10::nat) # ''...[TRUNCATED]''"

definition hex_part :: "string \<Rightarrow> string" where
  "hex_part digest = drop 1 (dropWhile (\<lambda>c. c \<noteq> CHR '':'') digest)"

text \<open>
  The artifacts are the files of the directory \<open>evidence\<close> of the storage, if one is given (\<open>None\<close> also stands for an empty
  path); the result is the new artifacts with the evidence and the presentation.
\<close>

definition create_evidence :: "output_services \<Rightarrow> strict_decoder \<Rightarrow> string \<Rightarrow> bytes \<Rightarrow> artifacts option \<Rightarrow> bool \<Rightarrow>
    artifacts option \<times> (hardening_error + evidence \<times> string)" where
  "create_evidence sv dec stream raw store redacted =
     (case decode_raw_bytes sv dec raw ''utf-8'' of
        Inl err \<Rightarrow> (store, Inl err)
      | Inr (decoded, _, _) \<Rightarrow>
          (let digest = bytes_digest sv raw; presentation = (if redacted then redact decoded else decoded);
               truncated = INLINE_LIMIT_BYTES < length raw;
               store' = (if truncated then map_option (\<lambda>a. a(hex_part digest @ ''.bin'' \<mapsto> raw)) store else store)
           in (store', case evidence_post_init \<lparr>ev_stream = stream, ev_raw_byte_count = int (length raw), ev_content_digest = digest,
                 ev_is_truncated = truncated,
                 ev_inline_content = Some (if truncated then take INLINE_LIMIT_BYTES decoded @ truncation_mark else decoded),
                 ev_content_reference = (if truncated \<and> store \<noteq> None then Some (''ref:sha256:'' @ hex_part digest) else None),
                 ev_schema = EVIDENCE_SCHEMA, ev_version = CONTRACT_VERSION\<rparr> of
               Inl err \<Rightarrow> Inl (ExecErr err)
             | Inr ev \<Rightarrow> Inr (ev, presentation))))"

definition verify_external_artifact_integrity :: "output_services \<Rightarrow> evidence \<Rightarrow> artifacts \<Rightarrow> bool" where
  "verify_external_artifact_integrity sv ev store =
     (if \<not> opt_true (ev_content_reference ev) then True
      else case store (hex_part (ev_content_digest ev) @ ''.bin'') of
        None \<Rightarrow> False
      | Some b \<Rightarrow> bytes_digest sv b = ev_content_digest ev)"

section \<open>Cancellation receipts\<close>

datatype cancellation_disposition =
    CANCELLED_BEFORE_EFFECT
  | CANCELLED_DURING_EFFECT
  | COMPLETED_BEFORE_CANCEL
  | TERMINATION_UNCERTAIN
  | ALREADY_COMPLETED
  | DUPLICATE_CANCEL

fun disposition_value :: "cancellation_disposition \<Rightarrow> string" where
  "disposition_value CANCELLED_BEFORE_EFFECT = ''CANCELLED_BEFORE_EFFECT''"
| "disposition_value CANCELLED_DURING_EFFECT = ''CANCELLED_DURING_EFFECT''"
| "disposition_value COMPLETED_BEFORE_CANCEL = ''COMPLETED_BEFORE_CANCEL''"
| "disposition_value TERMINATION_UNCERTAIN = ''TERMINATION_UNCERTAIN''"
| "disposition_value ALREADY_COMPLETED = ''ALREADY_COMPLETED''"
| "disposition_value DUPLICATE_CANCEL = ''DUPLICATE_CANCEL''"

record cancellation_receipt =
  cr_execution_id :: string
  cr_request_id :: string
  cr_cancel_request_id :: string
  cr_requested_at_epoch :: rat
  cr_acknowledged_at_epoch :: rat
  cr_disposition :: cancellation_disposition
  cr_process_tree_outcome :: string
  cr_orphans_remaining :: int
  cr_evidence_refs :: "string list"
  cr_schema :: string
  cr_version :: string
  cr_receipt_digest :: string

definition receipt_document :: "cancellation_receipt \<Rightarrow> pydict" where
  "receipt_document r =
     [(''schema'', PStr (cr_schema r)), (''version'', PStr (cr_version r)), (''execution_id'', PStr (cr_execution_id r)),
      (''request_id'', PStr (cr_request_id r)), (''cancel_request_id'', PStr (cr_cancel_request_id r)),
      (''requested_at_epoch'', PFloat (cr_requested_at_epoch r)), (''acknowledged_at_epoch'', PFloat (cr_acknowledged_at_epoch r)),
      (''disposition'', PStr (disposition_value (cr_disposition r))), (''process_tree_outcome'', PStr (cr_process_tree_outcome r)),
      (''orphans_remaining'', PInt (cr_orphans_remaining r)), (''evidence_refs'', PList (map PStr (cr_evidence_refs r)))]"

definition receipt_post_init :: "runtime \<Rightarrow> cancellation_receipt \<Rightarrow> exec_error + cancellation_receipt" where
  "receipt_post_init rt r =
     (let computed = sha_text rt (canonical_json rt (receipt_document r)) in
      if cr_receipt_digest r \<noteq> [] \<and> cr_receipt_digest r \<noteq> computed then Inl (ContractError ''digest_mismatch'')
      else Inr (r\<lparr>cr_receipt_digest := computed\<rparr>))"

section \<open>Facts about the matcher\<close>

lemma rx_matches_sound: "(u, g, t) \<in> set (rx_matches r s) \<Longrightarrow> s = u @ t"
proof (induction r arbitrary: s u g t)
  case (Class P lo hi greedy)
  then show ?case by (auto simp: Let_def split: if_splits)
next
  case (Seq a b)
  then show ?case by fastforce
next
  case (Group i a)
  then show ?case by fastforce
qed auto

lemma rx_sub_fuel_Nil [simp]: "rx_sub_fuel k r ps [] = []"
  by (cases k) simp_all

text \<open>A match that is never empty lets one unit of fuel per character suffice.\<close>

definition consuming :: "rx \<Rightarrow> bool" where
  "consuming r \<longleftrightarrow> (\<forall>s u g t. (u, g, t) \<in> set (rx_matches r s) \<longrightarrow> u \<noteq> [])"

lemma consumingD: "consuming r \<Longrightarrow> (u, g, t) \<in> set (rx_matches r s) \<Longrightarrow> u \<noteq> []"
  unfolding consuming_def by blast

lemma one_matches [simp]:
  "rx_matches (one P) [] = []" "rx_matches (one P) (c # cs) = (if P c then [([c], [], cs)] else [])"
  by (auto simp: one_def Let_def)

lemma nothing_matches [simp]: "rx_matches nothing s = [([], [], s)]"
  by (simp add: nothing_def)

lemma lit_consuming [simp]: "k \<noteq> [] \<Longrightarrow> consuming (lit ci k r)"
proof (cases k)
  case (Cons c cs)
  show ?thesis unfolding Cons consuming_def
  proof (intro allI impI)
    fix s u g t assume "(u, g, t) \<in> set (rx_matches (lit ci (c # cs) r) s)"
    then show "u \<noteq> []" by (cases s) (auto split: if_splits)
  qed
qed simp

lemma Seq_matchE:
  assumes "(w, g, t) \<in> set (rx_matches (Seq a b) s)"
  obtains u g1 t1 v g2 where "w = u @ v" "g = g1 @ g2"
    "(u, g1, t1) \<in> set (rx_matches a s)" "(v, g2, t) \<in> set (rx_matches b t1)"
  using assms by (auto simp del: lit.simps)

lemma Group_matchE:
  assumes "(u, g, t) \<in> set (rx_matches (Group i a) s)"
  obtains g1 where "g = (i, u) # g1" "(u, g1, t) \<in> set (rx_matches a s)"
  using assms by auto

lemma Seq_consuming: "consuming a \<Longrightarrow> consuming (Seq a b)"
  unfolding consuming_def by (metis Seq_matchE append_is_Nil_conv)

lemma Group_consuming: "consuming a \<Longrightarrow> consuming (Group i a)"
  unfolding consuming_def by (metis Group_matchE)

lemma rx_sub_fuel_enough:
  "consuming r \<Longrightarrow> length s \<le> k \<Longrightarrow> length s \<le> k' \<Longrightarrow> rx_sub_fuel k r ps s = rx_sub_fuel k' r ps s"
proof (induction k arbitrary: s k')
  case (Suc k)
  show ?case
  proof (cases s)
    case (Cons c cs)
    obtain j where j: "k' = Suc j" using Suc.prems(3) Cons by (cases k') auto
    show ?thesis
    proof (cases "rx_matches r (c # cs)")
      case Nil
      with Suc.IH[of cs j] Suc.prems Cons j show ?thesis by simp
    next
      case m: (Cons x xs)
      obtain u g t where x: "x = (u, g, t)" by (cases x)
      then have "(u, g, t) \<in> set (rx_matches r (c # cs))" using m by simp
      then have "u \<noteq> []" "c # cs = u @ t" using Suc.prems(1) by (blast dest: consumingD rx_matches_sound)+
      then have "length t \<le> length cs" by (cases u) auto
      with Suc.IH[of t j] Suc.prems Cons j m x show ?thesis by simp
    qed
  qed simp
qed simp

section \<open>What the redactor leaves\<close>

text \<open>The characters of a GitHub token, and the tokens themselves.\<close>

definition token_char :: "char \<Rightarrow> bool" where
  "token_char c \<longleftrightarrow> alnum_or ''_'' c"

definition is_github_token :: "string \<Rightarrow> bool" where
  "is_github_token w \<longleftrightarrow>
     starts_with ''ghp_'' w \<and> length w = 40 \<and> list_all alnum (drop 4 w)
   \<or> starts_with ''github_pat_'' w \<and> 51 \<le> length w \<and> length w \<le> 91 \<and> list_all (alnum_or ''_'') (drop 11 w)"

text \<open>A text that no token can reach into from either side, and that is too short to hold one.\<close>

definition barrier :: "string \<Rightarrow> bool" where
  "barrier m \<longleftrightarrow> m \<noteq> [] \<and> \<not> token_char (hd m) \<and> \<not> token_char (last m) \<and> length m < 40"

lemma sublist_across:
  assumes "sublist w (a @ c # b)" and "c \<notin> set w"
  shows "sublist w a \<or> sublist w b"
proof -
  from assms(1) have "sublist w a \<or> sublist w (c # b) \<or> (\<exists>x y. w = x @ y \<and> suffix x a \<and> prefix y (c # b))"
    by (simp add: sublist_append)
  moreover have "sublist w a" if "w = x @ y" "suffix x a" "prefix y (c # b)" for x y
    using that assms(2) by (cases y) (auto dest: suffix_imp_sublist)
  moreover have "sublist w b" if "sublist w (c # b)"
    using that assms(2) by (cases w) (auto simp: sublist_Cons_right)
  ultimately show ?thesis by blast
qed

lemma barrier_splits:
  assumes "sublist w (a @ m @ b)" and "list_all token_char w" and "40 \<le> length w" and "barrier m"
  shows "sublist w a \<or> sublist w b"
proof -
  have hd: "hd m \<notin> set w" and last: "last m \<notin> set w" using assms(2,4) by (auto simp: barrier_def list_all_iff)
  have m: "m = hd m # tl m" "m = butlast m @ [last m]" using assms(4) by (auto simp: barrier_def)
  have "sublist w (butlast (a @ m) @ last m # b)" using assms(1) m(2) by (metis append.assoc append_Cons append_Nil butlast_append barrier_def assms(4))
  with last have "sublist w (butlast (a @ m)) \<or> sublist w b" by (intro sublist_across)
  moreover have "sublist w a" if "sublist w (butlast (a @ m))"
  proof -
    have "sublist w (a @ hd m # tl m)" using that m(1) sublist_butlast sublist_order.order_trans by metis
    then have "sublist w a \<or> sublist w (tl m)" using hd by (rule sublist_across)
    moreover have "\<not> sublist w (tl m)" using assms(3,4) sublist_length_le[of w "tl m"] by (auto simp: barrier_def)
    ultimately show ?thesis by blast
  qed
  ultimately show ?thesis by blast
qed

text \<open>
  A rule keeps of a match at most what stands at its beginning and at its end, with a barrier in between; so the text
  after the rule has no token that was not there before.
\<close>

definition opaque_rule :: "rx \<times> part list \<Rightarrow> bool" where
  "opaque_rule rule \<longleftrightarrow> (\<forall>s u g t. (u, g, t) \<in> set (rx_matches (fst rule) s) \<longrightarrow>
     (\<exists>p m q. expand (snd rule) g = p @ m @ q \<and> prefix p u \<and> suffix q u \<and> barrier m))"

lemma opaque_ruleE:
  assumes "opaque_rule (r, ps)" and "(u, g, t) \<in> set (rx_matches r s)"
  obtains p m q where "expand ps g = p @ m @ q" "prefix p u" "suffix q u" "barrier m"
proof -
  from assms have "\<exists>p m q. expand (snd (r, ps)) g = p @ m @ q \<and> prefix p u \<and> suffix q u \<and> barrier m"
    unfolding opaque_rule_def fst_conv by blast
  then show thesis using that by auto
qed

lemma opaque_rule_keeps_out:
  assumes rule: "opaque_rule (r, ps)" and w: "list_all token_char w" "40 \<le> length w"
  shows "sublist w (x @ rx_sub_fuel k r ps s) \<Longrightarrow> sublist w (x @ s)"
proof (induction k arbitrary: x s)
  case (Suc k)
  show ?case
  proof (cases s)
    case (Cons c cs)
    show ?thesis
    proof (cases "rx_matches r (c # cs)")
      case Nil
      with Suc.IH[of "x @ [c]" cs] Suc.prems Cons show ?thesis by simp
    next
      case m: (Cons y ys)
      obtain u g t where y: "y = (u, g, t)" by (cases y)
      have in_matches: "(u, g, t) \<in> set (rx_matches r s)" using m y Cons by simp
      then have s: "s = u @ t" by (rule rx_matches_sound)
      obtain p b q where e: "expand ps g = p @ b @ q" "prefix p u" "suffix q u" "barrier b"
        using rule in_matches by (rule opaque_ruleE)
      have "sublist w ((x @ p) @ b @ (q @ rx_sub_fuel k r ps t))" using Suc.prems Cons m y e(1) by simp
      then have "sublist w (x @ p) \<or> sublist w (q @ rx_sub_fuel k r ps t)" using w e(4) by (rule barrier_splits)
      then have "sublist w (x @ p) \<or> sublist w (q @ t)" using Suc.IH by blast
      moreover have "sublist (x @ p) (x @ s)" using e(2) s by (auto simp: prefix_def)
      moreover have "sublist (q @ t) (x @ s)" using e(3) s by (auto simp: suffix_def)
      ultimately show ?thesis using sublist_order.order_trans by blast
    qed
  qed (use Suc in simp)
qed simp

text \<open>The four shapes of a rule.\<close>

primrec groupless :: "rx \<Rightarrow> bool" where
  "groupless (Class P lo hi greedy) = True"
| "groupless (Seq a b) = (groupless a \<and> groupless b)"
| "groupless (Alt a b) = (groupless a \<and> groupless b)"
| "groupless (Group i a) = False"

lemma groupless_no_groups: "groupless r \<Longrightarrow> (u, g, t) \<in> set (rx_matches r s) \<Longrightarrow> g = []"
proof (induction r arbitrary: s u g t)
  case (Seq a b)
  from Seq.prems(2) obtain u' g1 t1 v g2 where "g = g1 @ g2" "(u', g1, t1) \<in> set (rx_matches a s)"
    "(v, g2, t) \<in> set (rx_matches b t1)" by (rule Seq_matchE)
  with Seq show ?case by auto
qed (auto simp: Let_def)

lemma groupless_lit [simp]: "groupless r \<Longrightarrow> groupless (lit ci k r)"
  by (induction k) (simp_all add: one_def)

lemma opaque_text:
  assumes "barrier m"
  shows "opaque_rule (r, [Text m])"
  unfolding opaque_rule_def
proof (intro allI impI)
  fix s u g t
  show "\<exists>p m' q. expand (snd (r, [Text m])) g = p @ m' @ q \<and> prefix p u \<and> suffix q u \<and> barrier m'"
    using assms by (intro exI[of _ "[]"] exI[of _ m]) (simp add: expand_def)
qed

lemma opaque_head:
  assumes "barrier m"
  shows "opaque_rule (Seq (Group 1 a) b, [Ref 1, Text m])"
  unfolding opaque_rule_def fst_conv snd_conv
proof (intro allI impI)
  fix s w g t assume "(w, g, t) \<in> set (rx_matches (Seq (Group 1 a) b) s)"
  then obtain u g1 t1 v g2 where w: "w = u @ v" "g = g1 @ g2" "(u, g1, t1) \<in> set (rx_matches (Group 1 a) s)"
    by (rule Seq_matchE)
  from w(3) obtain g3 where "g1 = (1, u) # g3" by (rule Group_matchE)
  then have "expand [Ref 1, Text m] g = u @ m @ []" using w by (simp add: expand_def)
  then show "\<exists>p m' q. expand [Ref 1, Text m] g = p @ m' @ q \<and> prefix p w \<and> suffix q w \<and> barrier m'"
    using assms w(1) by (intro exI[of _ u] exI[of _ m] exI[of _ "[]"]) simp
qed

lemma three_groups:
  assumes "(w, g, t) \<in> set (rx_matches (Seq (Group 1 a) (Seq (Group 2 b) c)) s)" and "groupless a" and "groupless b"
  obtains u v x g3 t3 where "w = u @ v @ x" "g = (1, u) # (2, v) # g3" "(x, g3, t) \<in> set (rx_matches c t3)"
proof -
  from assms(1) obtain u g1 t1 y g2 where w: "w = u @ y" "g = g1 @ g2" "(u, g1, t1) \<in> set (rx_matches (Group 1 a) s)"
    "(y, g2, t) \<in> set (rx_matches (Seq (Group 2 b) c) t1)" by (rule Seq_matchE)
  from w(3) obtain ga where ga: "g1 = (1, u) # ga" "(u, ga, t1) \<in> set (rx_matches a s)" by (rule Group_matchE)
  from w(4) obtain v gv tv x gx where y: "y = v @ x" "g2 = gv @ gx" "(v, gv, tv) \<in> set (rx_matches (Group 2 b) t1)"
    "(x, gx, t) \<in> set (rx_matches c tv)" by (rule Seq_matchE)
  from y(3) obtain gb where gb: "gv = (2, v) # gb" "(v, gb, tv) \<in> set (rx_matches b t1)" by (rule Group_matchE)
  have "ga = []" "gb = []" using assms(2,3) ga(2) gb(2) by (blast dest: groupless_no_groups)+
  with w y ga gb that show thesis by auto
qed

lemma opaque_quoted:
  assumes "barrier m" and "groupless a"
  shows "opaque_rule (quoted_value a P n, [Ref 1, Text m, Ref 3])"
  unfolding opaque_rule_def fst_conv snd_conv quoted_value_def
proof (intro allI impI)
  fix s w g t
  assume "(w, g, t) \<in> set (rx_matches (Seq (Group 1 a) (Seq (Group 2 (Class P n None True)) (Group 3 opt_quote))) s)"
  then obtain u v x g3 t3 where w: "w = u @ v @ x" "g = (1, u) # (2, v) # g3"
    "(x, g3, t) \<in> set (rx_matches (Group 3 opt_quote) t3)"
    by (rule three_groups) (use assms(2) in simp_all)
  from w(3) obtain g4 where "g3 = (3, x) # g4" by (rule Group_matchE)
  then have "expand [Ref 1, Text m, Ref 3] g = u @ m @ x" using w(2) by (simp add: expand_def)
  then show "\<exists>p m' q. expand [Ref 1, Text m, Ref 3] g = p @ m' @ q \<and> prefix p w \<and> suffix q w \<and> barrier m'"
    using assms(1) w(1) by (intro exI[of _ u] exI[of _ m] exI[of _ x]) (simp add: suffix_def)
qed

lemma opaque_two_heads:
  assumes "barrier m" and "groupless a" and "groupless b"
  shows "opaque_rule (Seq (Group 1 a) (Seq (Group 2 b) c), [Ref 1, Ref 2, Text m])"
  unfolding opaque_rule_def fst_conv snd_conv
proof (intro allI impI)
  fix s w g t assume "(w, g, t) \<in> set (rx_matches (Seq (Group 1 a) (Seq (Group 2 b) c)) s)"
  then obtain u v x g3 t3 where w: "w = u @ v @ x" "g = (1, u) # (2, v) # g3"
    "(x, g3, t) \<in> set (rx_matches c t3)" by (rule three_groups) (use assms in simp_all)
  have "expand [Ref 1, Ref 2, Text m] g = (u @ v) @ m @ []" using w(2) by (simp add: expand_def)
  then show "\<exists>p m' q. expand [Ref 1, Ref 2, Text m] g = p @ m' @ q \<and> prefix p w \<and> suffix q w \<and> barrier m'"
    using assms(1) w(1) by (intro exI[of _ "u @ v"] exI[of _ m] exI[of _ "[]"]) simp
qed

lemmas pattern_defs = auth_header_def bearer_token_def github_token_def github_pat_def api_key_def password_value_def
  secret_assignment_def cookie_value_def url_password_def private_key_block_def ps_env_def

lemmas char_class_defs = token_char_def alnum_or_def alnum_def code_def

lemma groupless_parts [simp]: "groupless spaces" "groupless opt_quote" "groupless assign_op" "groupless nothing" "groupless (one P)"
  by (simp_all add: spaces_def opt_quote_def assign_op_def nothing_def one_def)

lemma SECRET_PATTERNS_opaque: "list_all opaque_rule SECRET_PATTERNS"
  unfolding SECRET_PATTERNS_def pattern_defs list.pred_inject
  by (intro conjI TrueI opaque_text opaque_head opaque_quoted opaque_two_heads)
     (simp_all add: barrier_def char_class_defs del: lit.simps)

text \<open>No pattern matches the empty text, so the fuel of a substitution never runs out.\<close>

lemma SECRET_PATTERNS_consuming: "list_all (\<lambda>rule. consuming (fst rule)) SECRET_PATTERNS"
  unfolding SECRET_PATTERNS_def pattern_defs quoted_value_def list.pred_inject fst_conv
  by (intro conjI TrueI Seq_consuming Group_consuming lit_consuming) simp_all

lemma redact_fuel_enough:
  "(r, ps) \<in> set SECRET_PATTERNS \<Longrightarrow> length s \<le> k \<Longrightarrow> rx_sub_fuel k r ps s = rx_sub r ps s"
  unfolding rx_sub_def using SECRET_PATTERNS_consuming rx_sub_fuel_enough[of r s k "length s" ps] by (auto simp: list_all_iff)

text \<open>A rule that replaces a keyword followed by at least \<open>n\<close> characters of a class by a barrier leaves no such text.\<close>

lemma lit_matches_keyword:
  "rx_matches (lit False k r) (k @ s) = map (\<lambda>(u, g, t). (k @ u, g, t)) (rx_matches r s)"
  by (induction k) (auto simp: case_prod_beta comp_def)

lemma class_matches_long:
  assumes "length v = n" and "list_all P v" and "\<And>h. hi = Some h \<Longrightarrow> n \<le> h"
  shows "rx_matches (Class P n hi True) (v @ z) \<noteq> []"
proof -
  have "n \<le> length (takeWhile P (v @ z))" using assms(1,2) by (simp add: list_all_iff)
  with assms(3) show ?thesis by (cases hi) (auto simp: Let_def)
qed

locale token_rule =
  fixes kw :: string and P :: "char \<Rightarrow> bool" and n :: nat and hi :: "nat option" and m :: string
  assumes keyword: "kw \<noteq> []" "list_all token_char kw"
    and class_chars: "P c \<Longrightarrow> token_char c"
    and long: "40 \<le> length kw + n"
    and upper_bound: "hi = Some h \<Longrightarrow> n \<le> h"
    and replacement: "barrier m"
begin

lemma finds:
  assumes "length v = n" and "list_all P v" and "prefix (kw @ v) s"
  shows "rx_matches (lit False kw (Class P n hi True)) s \<noteq> []"
proof -
  from assms(3) obtain z where "s = kw @ v @ z" by (auto simp: prefix_def)
  then show ?thesis
    using class_matches_long[OF assms(1,2), of hi z] upper_bound by (simp only: lit_matches_keyword) simp
qed

lemma not_in_skipped:
  assumes "\<And>y. suffix y x \<Longrightarrow> y \<noteq> [] \<Longrightarrow> \<not> prefix (kw @ v) (y @ s)"
  shows "\<not> sublist (kw @ v) x"
proof
  assume "sublist (kw @ v) x"
  then obtain y where y: "suffix y x" "prefix (kw @ v) y" by (auto simp: sublist_altdef')
  then have "y \<noteq> []" using keyword(1) by auto
  with y assms[of y] show False by (auto simp: prefix_def)
qed

lemma removes_fuel:
  assumes v: "length v = n" "list_all P v"
  shows "length s \<le> k \<Longrightarrow> (\<And>y. suffix y x \<Longrightarrow> y \<noteq> [] \<Longrightarrow> \<not> prefix (kw @ v) (y @ s)) \<Longrightarrow>
    \<not> sublist (kw @ v) (x @ rx_sub_fuel k (lit False kw (Class P n hi True)) [Text m] s)"
proof (induction k arbitrary: x s)
  case 0
  then show ?case using not_in_skipped[of x v s] by simp
next
  case (Suc k)
  let ?r = "lit False kw (Class P n hi True)"
  have w: "list_all token_char (kw @ v)" "40 \<le> length (kw @ v)"
    using keyword class_chars long v by (auto simp: list_all_iff)
  show ?case
  proof (cases s)
    case Nil
    with Suc.prems(2) show ?thesis using not_in_skipped[of x v s] by simp
  next
    case (Cons c cs)
    show ?thesis
    proof (cases "rx_matches ?r (c # cs)")
      case none: Nil
      have "\<not> prefix (kw @ v) (y @ cs)" if "suffix y (x @ [c])" "y \<noteq> []" for y
      proof -
        from that obtain y' where y: "y = y' @ [c]" "suffix y' x" by (auto simp: suffix_snoc)
        show ?thesis
        proof (cases "y' = []")
          case True
          with y finds[OF v, of "c # cs"] none show ?thesis by auto
        next
          case False
          with y Suc.prems(2)[of y'] Cons show ?thesis by simp
        qed
      qed
      then have "\<not> sublist (kw @ v) ((x @ [c]) @ rx_sub_fuel k ?r [Text m] cs)"
        using Suc.IH[of cs "x @ [c]"] Suc.prems(1) Cons by simp
      with Cons none show ?thesis by simp
    next
      case found: (Cons z zs)
      obtain u g t where z: "z = (u, g, t)" by (cases z)
      then have "(u, g, t) \<in> set (rx_matches ?r (c # cs))" using found by simp
      then have "u \<noteq> []" "c # cs = u @ t" using keyword(1) by (blast dest: consumingD[OF lit_consuming] rx_matches_sound)+
      then have "length t \<le> k" using Suc.prems(1) Cons by (cases u) auto
      then have "\<not> sublist (kw @ v) (rx_sub_fuel k ?r [Text m] t)" using Suc.IH[of t "[]"] by simp
      moreover have "\<not> sublist (kw @ v) x" using Suc.prems(2) by (rule not_in_skipped)
      ultimately have "\<not> sublist (kw @ v) (x @ m @ rx_sub_fuel k ?r [Text m] t)"
        using barrier_splits[OF _ w replacement] by blast
      with Cons found z show ?thesis by (simp add: expand_def)
    qed
  qed
qed

lemma removes:
  "length v = n \<Longrightarrow> list_all P v \<Longrightarrow> \<not> sublist (kw @ v) (rx_sub (lit False kw (Class P n hi True)) [Text m] s)"
  using removes_fuel[of v s "length s" "[]"] by (simp add: rx_sub_def)

end

interpretation ghp: token_rule "''ghp_''" alnum 36 "Some 36" "''[REDACTED:GITHUB_TOKEN]''"
  by unfold_locales (auto simp: char_class_defs barrier_def)

interpretation ghpat: token_rule "''github_pat_''" "alnum_or ''_''" 40 "Some 80" "''[REDACTED:GITHUB_PAT]''"
  by unfold_locales (auto simp: char_class_defs barrier_def)

text \<open>Once a rule has removed a token, the rules after it do not bring it back.\<close>

lemma rules_keep_out:
  assumes "list_all opaque_rule rules" and "list_all token_char w" and "40 \<le> length w" and "\<not> sublist w s"
  shows "\<not> sublist w (foldl (\<lambda>s (r, ps). rx_sub r ps s) s rules)"
  using assms
proof (induction rules arbitrary: s)
  case (Cons rule rules)
  obtain r ps where rule: "rule = (r, ps)" by (cases rule)
  have "\<not> sublist w (rx_sub r ps s)"
    using Cons.prems rule opaque_rule_keeps_out[of r ps w "[]" "length s" s] by (auto simp: rx_sub_def)
  with Cons rule show ?case by simp
qed simp

lemma redact_split:
  "redact s = foldl (\<lambda>s (r, ps). rx_sub r ps s) (rx_sub (fst github_token) (snd github_token)
      (rx_sub (fst bearer_token) (snd bearer_token) (rx_sub (fst auth_header) (snd auth_header) s))) (drop 3 SECRET_PATTERNS)"
  "redact s = foldl (\<lambda>s (r, ps). rx_sub r ps s) (rx_sub (fst github_pat) (snd github_pat) (foldl (\<lambda>s (r, ps). rx_sub r ps s) s
      (take 3 SECRET_PATTERNS))) (drop 4 SECRET_PATTERNS)"
  by (simp_all add: redact_def SECRET_PATTERNS_def case_prod_beta)

lemma drop_opaque: "list_all opaque_rule (drop k SECRET_PATTERNS)"
  using SECRET_PATTERNS_opaque by (auto simp: list_all_iff dest: in_set_dropD)

lemma redact_removes_ghp: "length v = 36 \<Longrightarrow> list_all alnum v \<Longrightarrow> \<not> sublist (''ghp_'' @ v) (redact s)"
  unfolding redact_split(1) github_token_def fst_conv snd_conv
  by (intro rules_keep_out drop_opaque ghp.removes) (auto simp: char_class_defs list_all_iff)

lemma redact_removes_pat: "length v = 40 \<Longrightarrow> list_all (alnum_or ''_'') v \<Longrightarrow> \<not> sublist (''github_pat_'' @ v) (redact s)"
  unfolding redact_split(2) github_pat_def fst_conv snd_conv
  by (intro rules_keep_out drop_opaque ghpat.removes) (auto simp: char_class_defs list_all_iff)

lemma starts_with_split: "starts_with p w \<Longrightarrow> length p = k \<Longrightarrow> w = p @ drop k w"
  unfolding starts_with_def by (metis append_take_drop_id)

lemma redact_token_free: "sublist w (redact s) \<Longrightarrow> \<not> is_github_token w"
proof
  assume w: "sublist w (redact s)" and "is_github_token w"
  then consider "starts_with ''ghp_'' w" "length w = 40" "list_all alnum (drop 4 w)"
    | "starts_with ''github_pat_'' w" "51 \<le> length w" "list_all (alnum_or ''_'') (drop 11 w)"
    by (auto simp: is_github_token_def)
  then show False
  proof cases
    case 1
    have "w = ''ghp_'' @ drop 4 w" using 1(1) by (rule starts_with_split) simp
    then have "sublist (''ghp_'' @ drop 4 w) (redact s)" using w by (rule subst)
    moreover have "length (drop 4 w) = 36" using 1(2) by simp
    ultimately show False using 1(3) redact_removes_ghp by blast
  next
    case 2
    let ?v = "take 40 (drop 11 w)"
    have "w = ''github_pat_'' @ drop 11 w" using 2(1) by (rule starts_with_split) simp
    then have "w = (''github_pat_'' @ ?v) @ drop 40 (drop 11 w)" by (simp only: append.assoc append_take_drop_id)
    then have "prefix (''github_pat_'' @ ?v) w" by (rule prefixI)
    then have "sublist (''github_pat_'' @ ?v) (redact s)" using w sublist_order.order_trans by blast
    moreover have "length ?v = 40" using 2(2) by simp
    moreover have "list_all (alnum_or ''_'') ?v" using 2(3) by (auto simp: list_all_iff dest: in_set_takeD)
    ultimately show False using redact_removes_pat by blast
  qed
qed

text \<open>C10: Whatever the text, what the redactor returns contains no GitHub token: no \<open>ghp_\<close> followed by 36 letters and digits and
  no \<open>github_pat_\<close> followed by 40 to 80 letters, digits and underscores. The eight rules that run after those two cannot
  put one together again.\<close>

theorem redacted_has_no_github_token: "\<not> (\<exists>w. is_github_token w \<and> sublist w (redact s))"
  using redact_token_free by blast

text \<open>Only the first credential of a cookie header is redacted: the rule needs the name of the header before it.\<close>

lemma class_matches_Nil: "rx_matches (Class P lo hi gr) [] = (if lo = 0 then [([], [], [])] else [])"
  by (cases hi) (simp_all add: Let_def)

lemma lit_fails:
  "rx_matches (lit ci (k # ks) r) [] = []"
  "(if ci then lower_char x = lower_char k else x = k) = False \<Longrightarrow> rx_matches (lit ci (k # ks) r) (x # xs) = []"
  by simp_all

lemma second_cookie_leaks:
  "rx_sub (fst cookie_value) (snd cookie_value) ''cookie:auth=a;auth=b'' = ''cookie:auth=[REDACTED:COOKIE];auth=b''"
  by (simp add: rx_sub_def cookie_value_def class_matches_Nil lit_fails lower_char_def code_def spaces_def is_space_def Let_def
      alnum_or_def alnum_def expand_def upt_rec)

section \<open>Chunks arrive whole or not at all\<close>

definition own_chunk :: "accumulator \<Rightarrow> stream_chunk \<Rightarrow> bool" where
  "own_chunk ac ch \<longleftrightarrow> ch_execution_id ch = ac_execution_id ac \<and> ch_request_id ch = ac_request_id ac \<and> ch_stream ch = ac_stream ac"

lemma append_chunk_cases:
  "append_chunk ac ch = (if own_chunk ac ch \<and> ch_sequence ch = ac_next_seq ac
     then Inr (ac\<lparr>ac_chunks := ac_chunks ac @ [ch], ac_next_seq := ac_next_seq ac + 1\<rparr>)
     else if own_chunk ac ch then Inl (ContractError ''chunk_sequence_gap'') else Inl (ContractError ''foreign_chunk_identity''))"
  by (simp add: append_chunk_def own_chunk_def)

lemma own_chunk_update [simp]: "own_chunk (ac\<lparr>ac_chunks := cs, ac_next_seq := i\<rparr>) = own_chunk ac"
  by (simp add: own_chunk_def fun_eq_iff)

lemma offer_all_step:
  "offer_all ac (ch # chs) = (if own_chunk ac ch \<and> ch_sequence ch = ac_next_seq ac
     then offer_all (ac\<lparr>ac_chunks := ac_chunks ac @ [ch], ac_next_seq := ac_next_seq ac + 1\<rparr>) chs else offer_all ac chs)"
  by (simp add: append_chunk_cases)

declare offer_all.simps(2) [simp del]

lemma offer_all_payload:
  assumes "0 \<le> ac_next_seq ac" and "concat (map ch_payload (ac_chunks ac)) = concat (map f [0..ac_next_seq ac - 1])"
    and "list_all (\<lambda>ch. own_chunk ac ch \<longrightarrow> ch_payload ch = f (ch_sequence ch)) chs"
  shows "concat (map ch_payload (ac_chunks (offer_all ac chs))) = concat (map f [0..ac_next_seq (offer_all ac chs) - 1])"
  using assms
proof (induction chs arbitrary: ac)
  case (Cons ch chs)
  show ?case
  proof (cases "own_chunk ac ch \<and> ch_sequence ch = ac_next_seq ac")
    case True
    then have "ch_payload ch = f (ac_next_seq ac)" using Cons.prems(3) by simp
    moreover have "[0..ac_next_seq ac] = [0..ac_next_seq ac - 1] @ [ac_next_seq ac]" using Cons.prems(1) by (simp add: upto_rec2)
    ultimately show ?thesis using True Cons by (simp add: offer_all_step)
  next
    case False
    then have "offer_all ac (ch # chs) = offer_all ac chs" by (auto simp: offer_all_step)
    with Cons show ?thesis by simp
  qed
qed simp

lemma offer_all_mono: "ac_next_seq ac \<le> ac_next_seq (offer_all ac chs)"
proof (induction chs arbitrary: ac)
  case (Cons ch chs)
  then show ?case using order_trans[OF _ Cons[of "ac\<lparr>ac_chunks := ac_chunks ac @ [ch], ac_next_seq := ac_next_seq ac + 1\<rparr>"]]
    by (simp add: offer_all_step)
qed simp

lemma offer_all_progress:
  assumes "\<And>i. own_chunk ac (mk i) \<and> ch_sequence (mk i) = i"
  shows "subseq (map mk [ac_next_seq ac..n - 1]) chs \<Longrightarrow> n \<le> ac_next_seq (offer_all ac chs)"
  using assms
proof (induction chs arbitrary: ac)
  case Nil
  then show ?case by (simp add: upto.simps split: if_splits)
next
  case (Cons ch chs)
  show ?case
  proof (cases "n \<le> ac_next_seq ac")
    case True
    then show ?thesis using offer_all_mono order_trans by blast
  next
    case False
    then have up: "[ac_next_seq ac..n - 1] = ac_next_seq ac # [ac_next_seq ac + 1..n - 1]" by (simp add: upto.simps)
    show ?thesis
    proof (cases "own_chunk ac ch \<and> ch_sequence ch = ac_next_seq ac")
      case True
      have "subseq (map mk [ac_next_seq ac + 1..n - 1]) chs"
        using Cons.prems(1) unfolding up by (simp split: if_splits) (metis subseq_Cons')
      then show ?thesis using True Cons.prems(2) Cons.IH[of "ac\<lparr>ac_chunks := ac_chunks ac @ [ch], ac_next_seq := ac_next_seq ac + 1\<rparr>"]
        by (simp add: offer_all_step)
    next
      case refused: False
      then have "ch \<noteq> mk (ac_next_seq ac)" using Cons.prems(2) by blast
      then have "subseq (map mk [ac_next_seq ac..n - 1]) chs" using Cons.prems(1) unfolding up by simp
      then have "n \<le> ac_next_seq (offer_all ac chs)" using Cons.prems(2) by (rule Cons.IH)
      then show ?thesis using refused by (auto simp: offer_all_step)
    qed
  qed
qed

section \<open>Evidence stays verifiable\<close>

text \<open>Outputs captured one after another into the same storage.\<close>

fun capture_all :: "output_services \<Rightarrow> strict_decoder \<Rightarrow> artifacts \<Rightarrow> (string \<times> bytes \<times> bool) list \<Rightarrow> artifacts \<times> evidence list" where
  "capture_all sv dec a [] = (a, [])"
| "capture_all sv dec a ((stream, raw, redacted) # rest) =
     (case create_evidence sv dec stream raw (Some a) redacted of (store, res) \<Rightarrow>
        (case capture_all sv dec (case store of Some a' \<Rightarrow> a' | None \<Rightarrow> a) rest of (a'', evs) \<Rightarrow>
           (a'', case res of Inl _ \<Rightarrow> evs | Inr (ev, _) \<Rightarrow> ev # evs)))"

lemma hex_part_sha: "hex_part (''sha256:'' @ h) = h"
  by (simp add: hex_part_def)

lemma hex_part_bytes_digest [simp]: "hex_part (bytes_digest sv b) = hexdigest (sha256_bytes sv b)"
  by (simp only: bytes_digest_def hex_part_sha)

definition verifiable :: "output_services \<Rightarrow> artifacts \<Rightarrow> evidence \<Rightarrow> bool" where
  "verifiable sv a ev \<longleftrightarrow> verify_external_artifact_integrity sv ev a \<and> (\<exists>h. ev_content_digest ev = ''sha256:'' @ h)"

lemma stored_keeps_verifiable:
  assumes "verifiable sv a ev"
  shows "verifiable sv (a(hex_part (bytes_digest sv raw) @ ''.bin'' \<mapsto> raw)) ev"
proof -
  from assms obtain h where h: "ev_content_digest ev = ''sha256:'' @ h" by (auto simp: verifiable_def)
  show ?thesis
  proof (cases "h = hexdigest (sha256_bytes sv raw)")
    case True
    then have "bytes_digest sv raw = ev_content_digest ev" unfolding h bytes_digest_def by simp
    then show ?thesis using h by (auto simp: verifiable_def verify_external_artifact_integrity_def)
  next
    case False
    have "hex_part (ev_content_digest ev) = h" unfolding h by (rule hex_part_sha)
    with False show ?thesis using assms h by (auto simp: verifiable_def verify_external_artifact_integrity_def)
  qed
qed

lemma create_evidence_store:
  "\<exists>a'. fst (create_evidence sv dec stream raw (Some a) redacted) = Some a' \<and>
     (a' = a \<or> a' = a(hex_part (bytes_digest sv raw) @ ''.bin'' \<mapsto> raw))"
  by (auto simp: create_evidence_def Let_def split: sum.splits)

lemma created_evidence:
  assumes "create_evidence sv dec stream raw (Some a) redacted = (Some a', Inr (ev, pres))"
  shows "verifiable sv a' ev \<and> ev_content_digest ev = bytes_digest sv raw"
proof -
  from assms have ev: "ev_content_digest ev = bytes_digest sv raw"
    "opt_true (ev_content_reference ev) \<Longrightarrow> a' = a(hex_part (bytes_digest sv raw) @ ''.bin'' \<mapsto> raw)"
    by (auto simp: create_evidence_def evidence_post_init_def Let_def split: sum.splits if_splits)
  then show ?thesis
    by (auto simp: verifiable_def verify_external_artifact_integrity_def bytes_digest_def)
qed

lemma evidence_is_created:
  assumes "stream \<in> {''stdout'', ''stderr''}" and "dec ''utf-8'' raw \<noteq> UnknownEncoding"
  shows "\<exists>ev pres. snd (create_evidence sv dec stream raw (Some a) redacted) = Inr (ev, pres)"
proof -
  have "starts_with ''sha256:'' (bytes_digest sv raw)" by (simp add: starts_with_def bytes_digest_def)
  with assms show ?thesis
    by (cases "dec ''utf-8'' raw")
       (auto simp: create_evidence_def decode_raw_bytes_def evidence_post_init_def Let_def)
qed

lemma capture_all_keeps: "verifiable sv a ev \<Longrightarrow> verifiable sv (fst (capture_all sv dec a outs)) ev"
proof (induction outs arbitrary: a)
  case (Cons out outs)
  obtain stream raw redacted where out: "out = (stream, raw, redacted)" by (cases out)
  obtain a' where a': "fst (create_evidence sv dec stream raw (Some a) redacted) = Some a'"
    "a' = a \<or> a' = a(hex_part (bytes_digest sv raw) @ ''.bin'' \<mapsto> raw)" using create_evidence_store by blast
  then have "verifiable sv a' ev" using Cons.prems stored_keeps_verifiable by blast
  from Cons.IH[OF this] show ?case using out a'(1) by (simp add: case_prod_beta)
qed simp

lemma capture_all_verifiable: "list_all (verifiable sv (fst (capture_all sv dec a outs))) (snd (capture_all sv dec a outs))"
proof (induction outs arbitrary: a)
  case (Cons out outs)
  obtain stream raw redacted where out: "out = (stream, raw, redacted)" by (cases out)
  obtain a' res where c: "create_evidence sv dec stream raw (Some a) redacted = (Some a', res)"
    using create_evidence_store[of sv dec stream raw a redacted] by (metis prod.collapse)
  show ?case
  proof (cases res)
    case (Inl err)
    with Cons[of a'] c out show ?thesis by (simp add: case_prod_beta)
  next
    case (Inr x)
    obtain ev pres where x: "x = (ev, pres)" by (cases x)
    then have "verifiable sv a' ev" using created_evidence c Inr by blast
    from capture_all_keeps[OF this] Cons[of a'] c out Inr x show ?thesis by (simp add: case_prod_beta)
  qed
qed simp

lemma capture_all_digests:
  "list_all (\<lambda>(stream, raw, redacted). stream \<in> {''stdout'', ''stderr''} \<and> dec ''utf-8'' raw \<noteq> UnknownEncoding) outs \<Longrightarrow>
     map ev_content_digest (snd (capture_all sv dec a outs)) = map (\<lambda>(stream, raw, redacted). bytes_digest sv raw) outs"
proof (induction outs arbitrary: a)
  case (Cons out outs)
  obtain stream raw redacted where out: "out = (stream, raw, redacted)" by (cases out)
  obtain a' res where c: "create_evidence sv dec stream raw (Some a) redacted = (Some a', res)"
    using create_evidence_store[of sv dec stream raw a redacted] by (metis prod.collapse)
  have "\<exists>ev pres. res = Inr (ev, pres)" using evidence_is_created[of stream dec raw sv a redacted] Cons.prems out c by simp
  then obtain ev pres where res: "res = Inr (ev, pres)" by blast
  then have "ev_content_digest ev = bytes_digest sv raw" using created_evidence c by blast
  with Cons.IH[of a'] Cons.prems c out res show ?case by (cases "capture_all sv dec a' outs") simp
qed simp

text \<open>C28: When outputs are captured one after another into the same storage, every evidence made on the way, large outputs
  included, verifies against the storage as it is at the end: a later artifact of the same name has the same digest. When
  the streams are valid there is one evidence per output, in order, with the digest of its bytes.\<close>

theorem captured_evidence_verifies:
  "list_all (\<lambda>ev. verify_external_artifact_integrity sv ev (fst (capture_all sv dec a outs))) (snd (capture_all sv dec a outs)) \<and>
   (list_all (\<lambda>(stream, raw, redacted). stream \<in> {''stdout'', ''stderr''} \<and> dec ''utf-8'' raw \<noteq> UnknownEncoding) outs \<longrightarrow>
      map ev_content_digest (snd (capture_all sv dec a outs)) = map (\<lambda>(stream, raw, redacted). bytes_digest sv raw) outs)"
  using capture_all_verifiable[of sv dec a outs] capture_all_digests[of dec outs sv a]
  by (auto simp: list_all_iff verifiable_def)

text \<open>C28 applied to an output above the inline limit followed by a short one, with sample services.\<close>

theorem captured_evidence_verifies_witness:
  "map ev_content_digest (snd (capture_all sample_output_services (\<lambda>_ b. Decoded b) Map.empty
      [(''stdout'', replicate 70000 (CHR ''a''), False), (''stderr'', ''warning'', True)])) =
   [bytes_digest sample_output_services (replicate 70000 (CHR ''a'')), bytes_digest sample_output_services ''warning'']"
  using captured_evidence_verifies[of sample_output_services "\<lambda>_ b. Decoded b" Map.empty
      "[(''stdout'', replicate 70000 (CHR ''a''), False), (''stderr'', ''warning'', True)]"] by simp

text \<open>An artifact that is missing or whose bytes have another digest is refused.\<close>

lemma corrupt_artifact_refused:
  assumes "opt_true (ev_content_reference ev)"
    and "\<forall>b. store (hex_part (ev_content_digest ev) @ ''.bin'') = Some b \<longrightarrow> bytes_digest sv b \<noteq> ev_content_digest ev"
  shows "\<not> verify_external_artifact_integrity sv ev store"
  using assms by (auto simp: verify_external_artifact_integrity_def split: option.splits)

text \<open>A large output without storage raises: its evidence would be truncated without a reference.\<close>

lemma large_output_needs_storage:
  assumes "INLINE_LIMIT_BYTES < length raw" and "stream \<in> {''stdout'', ''stderr''}" and "dec ''utf-8'' raw \<noteq> UnknownEncoding"
  shows "snd (create_evidence sv dec stream raw None redacted) = Inl (ExecErr (ContractError ''missing_content_ref''))"
proof -
  have "starts_with ''sha256:'' (bytes_digest sv raw)" by (simp add: starts_with_def bytes_digest_def)
  with assms show ?thesis
    by (cases "dec ''utf-8'' raw")
       (auto simp: create_evidence_def decode_raw_bytes_def evidence_post_init_def Let_def)
qed

text \<open>A receipt read with its own digest is accepted unchanged, and with any other one refused.\<close>

lemma receipt_digest_checked:
  assumes "receipt_post_init rt r = Inr r'"
  shows "receipt_post_init rt r' = Inr r' \<and>
    (d \<noteq> [] \<longrightarrow> d \<noteq> cr_receipt_digest r' \<longrightarrow> receipt_post_init rt (r'\<lparr>cr_receipt_digest := d\<rparr>) = Inl (ContractError ''digest_mismatch''))"
  using assms by (auto simp: receipt_post_init_def receipt_document_def Let_def split: if_splits)

text \<open>C30: Whatever arrives, lost, repeated, out of order or foreign, what the accumulator assembles is the beginning of the stream that
  was sent, as far as its next sequence number; and when the first \<open>n\<close> chunks arrive in their order, whatever is between
  them, all of them are in it. The sender is honest about its own chunks, and a refused chunk is dropped.\<close>

theorem accumulator_assembles_stream:
  assumes "list_all (\<lambda>ch. own_chunk (new_accumulator e r st) ch \<longrightarrow> ch_payload ch = f (ch_sequence ch)) chs"
    and "ac = offer_all (new_accumulator e r st) chs"
  shows "fst (assemble sv ac) = concat (map f [0..ac_next_seq ac - 1]) \<and>
    (subseq (map (\<lambda>i. \<lparr>ch_execution_id = e, ch_request_id = r, ch_stream = st, ch_sequence = i, ch_payload = f i\<rparr>) [0..n - 1]) chs
       \<longrightarrow> n \<le> ac_next_seq ac)"
proof (intro conjI impI)
  show "fst (assemble sv ac) = concat (map f [0..ac_next_seq ac - 1])"
    using offer_all_payload[of "new_accumulator e r st" f chs] assms by (simp add: assemble_def Let_def new_accumulator_def)
  show "n \<le> ac_next_seq ac"
    if "subseq (map (\<lambda>i. \<lparr>ch_execution_id = e, ch_request_id = r, ch_stream = st, ch_sequence = i, ch_payload = f i\<rparr>) [0..n - 1]) chs"
    unfolding assms(2) using that by (intro offer_all_progress) (simp_all add: new_accumulator_def own_chunk_def)
qed

text \<open>A stream of two chunks that arrives with a foreign chunk, a gap and a repetition.\<close>

definition sample_chunk :: "string \<Rightarrow> int \<Rightarrow> stream_chunk" where
  "sample_chunk e i = \<lparr>ch_execution_id = e, ch_request_id = ''r'', ch_stream = ''stdout'', ch_sequence = i,
     ch_payload = (if e \<noteq> ''e'' then ''x'' else if i = 0 then ''a'' else ''b'')\<rparr>"

definition sample_arrivals :: "stream_chunk list" where
  "sample_arrivals = [sample_chunk ''f'' 0, sample_chunk ''e'' 1, sample_chunk ''e'' 0, sample_chunk ''e'' 0, sample_chunk ''e'' 1]"

text \<open>C30 applied to that stream.\<close>

theorem accumulator_assembles_stream_witness:
  "let ac = offer_all (new_accumulator ''e'' ''r'' ''stdout'') sample_arrivals
   in fst (assemble sample_output_services ac) = ''ab'' \<and> ac_next_seq ac = 2"
proof -
  let ?f = "\<lambda>i::int. if i = 0 then ''a'' else ''b''"
  let ?ac = "offer_all (new_accumulator ''e'' ''r'' ''stdout'') sample_arrivals"
  have n: "ac_next_seq ?ac = 2"
    by (simp add: sample_arrivals_def sample_chunk_def new_accumulator_def offer_all_step own_chunk_def)
  have "list_all (\<lambda>ch. own_chunk (new_accumulator ''e'' ''r'' ''stdout'') ch \<longrightarrow> ch_payload ch = ?f (ch_sequence ch)) sample_arrivals"
    by (simp add: sample_arrivals_def sample_chunk_def new_accumulator_def own_chunk_def)
  from accumulator_assembles_stream[OF this refl, of sample_output_services 2]
  have "fst (assemble sample_output_services ?ac) = concat (map ?f [0..1])" by (simp add: n)
  moreover have "[0..1::int] = [0, 1]" by (simp add: upto_rec1)
  ultimately show ?thesis by (simp add: n Let_def)
qed

end
