(* ===== verification/Same_Chat.thy ===== *)
theory Same_Chat
  imports Output_Hardening Execution_Policy
begin

text \<open>
  Results returned to their chat, \<^verbatim>\<open>src/bdb_vnext/same_chat_local_execution.py\<close>: the identity of a chat binding, the result
  envelope with its redacted presentations, the durable budget of the interactive loop, and the coordinator that delivers
  results and checks proposed commands. The budget files are a map from file names to the documents \<open>json.loads\<close> gives
  back; what the coordinator remembers of delivered results lives in memory and is lost at a restart.
\<close>

section \<open>Chat bindings\<close>

record chat_identity =
  cb_project_id :: string
  cb_run_id :: string
  cb_task_id :: string
  cb_binding_id :: string
  cb_binding_generation :: int
  cb_conversation_id :: string
  cb_chat_tab_id :: string

definition chat_binding_to_dict :: "chat_identity \<Rightarrow> pydict" where
  "chat_binding_to_dict b =
     [(''project_id'', PStr (cb_project_id b)), (''run_id'', PStr (cb_run_id b)), (''task_id'', PStr (cb_task_id b)),
      (''binding_id'', PStr (cb_binding_id b)), (''binding_generation'', PInt (cb_binding_generation b)),
      (''conversation_id'', PStr (cb_conversation_id b)), (''chat_tab_id'', PStr (cb_chat_tab_id b))]"

definition chat_binding_from_dict :: "runtime \<Rightarrow> pydict \<Rightarrow> exec_error + chat_identity" where
  "chat_binding_from_dict rt d =
     ebind (need_text rt d ''project_id'') (\<lambda>project.
     ebind (need_text rt d ''run_id'') (\<lambda>run.
     ebind (need_text rt d ''task_id'') (\<lambda>task.
     ebind (need_text rt d ''binding_id'') (\<lambda>binding.
     ebind (lift_py (py_int (py_get_default d ''binding_generation'' (PInt 1)))) (\<lambda>generation.
     ebind (need_text rt d ''conversation_id'') (\<lambda>conversation.
     ebind (need_text rt d ''chat_tab_id'') (\<lambda>tab.
       Inr \<lparr>cb_project_id = project, cb_run_id = run, cb_task_id = task, cb_binding_id = binding,
         cb_binding_generation = generation, cb_conversation_id = conversation, cb_chat_tab_id = tab\<rparr>)))))))"

section \<open>Result envelopes\<close>

definition CHAT_RESULT_ENVELOPE_SCHEMA :: string where
  "CHAT_RESULT_ENVELOPE_SCHEMA = ''bdb-vnext-chat-result-envelope-v1''"

definition CHAT_RESULT_ENVELOPE_VERSION :: string where
  "CHAT_RESULT_ENVELOPE_VERSION = ''1.0.0''"

record envelope =
  en_envelope_id :: string
  en_binding :: chat_identity
  en_execution_id :: string
  en_request_digest :: string
  en_result_digest :: string
  en_mechanical_status :: mechanical_status
  en_exit_code :: "int option"
  en_source_head :: string
  en_source_tree :: string
  en_stdout_presentation :: string
  en_stderr_presentation :: string
  en_raw_evidence_refs :: "string list"
  en_workflow_submission_id :: "string option"
  en_schema :: string
  en_version :: string
  en_envelope_digest :: string

definition envelope_document :: "envelope \<Rightarrow> pydict" where
  "envelope_document en =
     [(''schema'', PStr (en_schema en)), (''version'', PStr (en_version en)), (''envelope_id'', PStr (en_envelope_id en)),
      (''binding'', PDict (chat_binding_to_dict (en_binding en))), (''execution_id'', PStr (en_execution_id en)),
      (''request_digest'', PStr (en_request_digest en)), (''result_digest'', PStr (en_result_digest en)),
      (''mechanical_status'', PStr (status_value (en_mechanical_status en))),
      (''exit_code'', case en_exit_code en of Some n \<Rightarrow> PInt n | None \<Rightarrow> PNone),
      (''source_head'', PStr (en_source_head en)), (''source_tree'', PStr (en_source_tree en)),
      (''stdout_presentation'', PStr (en_stdout_presentation en)), (''stderr_presentation'', PStr (en_stderr_presentation en)),
      (''raw_evidence_refs'', PList (map PStr (en_raw_evidence_refs en))),
      (''workflow_submission_id'', opt_pyval (en_workflow_submission_id en))]"

definition envelope_digest :: "runtime \<Rightarrow> envelope \<Rightarrow> string" where
  "envelope_digest rt en = sha_text rt (canonical_json rt (envelope_document en))"

definition envelope_post_init :: "runtime \<Rightarrow> envelope \<Rightarrow> exec_error + envelope" where
  "envelope_post_init rt en =
     (if en_envelope_digest en \<noteq> [] \<and> en_envelope_digest en \<noteq> envelope_digest rt en then Inl (ContractError ''digest_mismatch'')
      else Inr (en\<lparr>en_envelope_digest := envelope_digest rt en\<rparr>))"

definition evidence_refs :: "result \<Rightarrow> string list" where
  "evidence_refs res =
     concat (map (\<lambda>ev. if opt_true (ev_content_reference ev) then [the (ev_content_reference ev)] else []) [rs_stdout res, rs_stderr res])"

definition from_execution_result :: "runtime \<Rightarrow> string \<Rightarrow> chat_identity \<Rightarrow> result \<Rightarrow> string \<Rightarrow> string \<Rightarrow> string option \<Rightarrow>
    exec_error + envelope" where
  "from_execution_result rt eid binding res head tree submission =
     envelope_post_init rt
       \<lparr>en_envelope_id = eid, en_binding = binding, en_execution_id = rs_execution_id res,
        en_request_digest = rs_request_digest res, en_result_digest = rs_result_digest res,
        en_mechanical_status = rs_status res, en_exit_code = Some (rs_exit_code res), en_source_head = head,
        en_source_tree = tree, en_stdout_presentation = redact (opt_default (ev_inline_content (rs_stdout res)) []),
        en_stderr_presentation = redact (opt_default (ev_inline_content (rs_stderr res)) []),
        en_raw_evidence_refs = evidence_refs res, en_workflow_submission_id = submission,
        en_schema = CHAT_RESULT_ENVELOPE_SCHEMA, en_version = CHAT_RESULT_ENVELOPE_VERSION, en_envelope_digest = []\<rparr>"

section \<open>The budget of the loop\<close>

definition INTERACTIVE_LOOP_SCHEMA :: string where
  "INTERACTIVE_LOOP_SCHEMA = ''bdb-vnext-interactive-loop-v1''"

definition INTERACTIVE_LOOP_VERSION :: string where
  "INTERACTIVE_LOOP_VERSION = ''1.0.0''"

record loop_budget =
  lb_binding_id :: string
  lb_max_iterations :: int
  lb_current_iteration :: int
  lb_is_exhausted :: bool
  lb_last_execution_id :: pyval

definition budget_to_dict :: "loop_budget \<Rightarrow> pydict" where
  "budget_to_dict b =
     [(''schema'', PStr INTERACTIVE_LOOP_SCHEMA), (''version'', PStr INTERACTIVE_LOOP_VERSION),
      (''binding_id'', PStr (lb_binding_id b)), (''max_iterations'', PInt (lb_max_iterations b)),
      (''current_iteration'', PInt (lb_current_iteration b)), (''is_exhausted'', PBool (lb_is_exhausted b)),
      (''last_execution_id'', lb_last_execution_id b)]"

definition budget_from_dict :: "runtime \<Rightarrow> pydict \<Rightarrow> exec_error + loop_budget" where
  "budget_from_dict rt d =
     ebind (need_text rt d ''binding_id'') (\<lambda>binding.
     ebind (lift_py (py_int (py_get_default d ''max_iterations'' (PInt 10)))) (\<lambda>max_iterations.
     ebind (lift_py (py_int (py_get_default d ''current_iteration'' (PInt 0)))) (\<lambda>current.
       Inr \<lparr>lb_binding_id = binding, lb_max_iterations = max_iterations, lb_current_iteration = current,
         lb_is_exhausted = truthy (py_get_default d ''is_exhausted'' (PBool False)),
         lb_last_execution_id = py_get d ''last_execution_id''\<rparr>)))"

type_synonym budget_files = "string \<rightharpoonup> pyval"

definition persist_budget :: "budget_files \<Rightarrow> string \<Rightarrow> loop_budget \<Rightarrow> budget_files" where
  "persist_budget files file b = files(file \<mapsto> PDict (budget_to_dict b))"

text \<open>A file whose content is no object cannot be indexed by \<open>"binding_id"\<close>.\<close>

definition load_budget :: "runtime \<Rightarrow> budget_files \<Rightarrow> string \<Rightarrow> exec_error + loop_budget" where
  "load_budget rt files file =
     (case files file of
        None \<Rightarrow> Inl (ContractError ''budget_not_found'')
      | Some (PDict d) \<Rightarrow> budget_from_dict rt d
      | Some _ \<Rightarrow> Inl (PyError TypeError))"

section \<open>The coordinator\<close>

text \<open>What is given as \<open>stop_fence_fn\<close>: nothing, a callable with the truth of its answer, or something that is no callable.\<close>

datatype fence_fn = NoFence | Fence bool | NotCallable

record chat_coordinator =
  co_budgets :: budget_files
  co_accepted :: "string \<rightharpoonup> string"
  co_delivered :: "string \<rightharpoonup> envelope"

definition new_coordinator :: "budget_files \<Rightarrow> chat_coordinator" where
  "new_coordinator files = \<lparr>co_budgets = files, co_accepted = Map.empty, co_delivered = Map.empty\<rparr>"

definition loop_stopped :: "fence_fn \<Rightarrow> bool" where
  "loop_stopped f = (case f of Fence b \<Rightarrow> b | NoFence \<Rightarrow> False | NotCallable \<Rightarrow> False)"

definition budget_file :: "string \<Rightarrow> string" where
  "budget_file bid = replace_char (char_of (92::nat)) (CHR ''_'') (replace_char (CHR ''/'') (CHR ''_'')
     (replace_char (CHR '':'') (CHR ''_'') bid)) @ ''.budget.json''"

definition get_or_create_budget :: "runtime \<Rightarrow> chat_coordinator \<Rightarrow> string \<Rightarrow> int \<Rightarrow> chat_coordinator \<times> (exec_error + loop_budget)" where
  "get_or_create_budget rt co bid max_iterations =
     (case co_budgets co (budget_file bid) of
        Some _ \<Rightarrow> (co, load_budget rt (co_budgets co) (budget_file bid))
      | None \<Rightarrow>
          let b = \<lparr>lb_binding_id = bid, lb_max_iterations = max_iterations, lb_current_iteration = 0,
                   lb_is_exhausted = False, lb_last_execution_id = PNone\<rparr>
          in (co\<lparr>co_budgets := persist_budget (co_budgets co) (budget_file bid) b\<rparr>, Inr b))"

definition count_iteration :: "loop_budget \<Rightarrow> string \<Rightarrow> loop_budget" where
  "count_iteration b eid =
     (let n = lb_current_iteration b + 1 in
      b\<lparr>lb_current_iteration := n, lb_last_execution_id := PStr eid,
        lb_is_exhausted := (lb_is_exhausted b \<or> lb_max_iterations b \<le> n)\<rparr>)"

type_synonym delivery = "bool \<times> string \<times> envelope option"

definition process_result_for_chat :: "runtime \<Rightarrow> fence_fn \<Rightarrow> chat_coordinator \<Rightarrow> envelope \<Rightarrow> chat_identity \<Rightarrow>
    chat_coordinator \<times> (exec_error + delivery)" where
  "process_result_for_chat rt fence co en active =
     (if loop_stopped fence then (co, Inr (False, ''STOP_FENCE_TRIGGERED'', None))
      else if en_binding en \<noteq> active then (co, Inr (False, ''WRONG_BINDING_REJECTED'', None))
      else case co_accepted co (en_execution_id en) of
        Some existing \<Rightarrow>
          if existing \<noteq> en_result_digest en then (co, Inl (ContractError ''conflicting_result''))
          else (co, Inr (True, ''DUPLICATE_ACKNOWLEDGED'', co_delivered co (en_execution_id en)))
      | None \<Rightarrow>
          let bid = cb_binding_id (en_binding en) in
          (case get_or_create_budget rt co bid 10 of
             (co', Inl err) \<Rightarrow> (co', Inl err)
           | (co', Inr b) \<Rightarrow>
               if lb_is_exhausted b then (co', Inr (False, ''LOOP_BUDGET_EXHAUSTED'', None))
               else (co'\<lparr>co_budgets := persist_budget (co_budgets co') (budget_file bid) (count_iteration b (en_execution_id en)),
                         co_accepted := (co_accepted co')(en_execution_id en \<mapsto> en_result_digest en),
                         co_delivered := (co_delivered co')(en_execution_id en \<mapsto> en)\<rparr>,
                     Inr (True, ''DELIVERED_TO_CHAT'', Some en))))"

definition propose_next_command :: "runtime \<Rightarrow> host \<Rightarrow> string \<Rightarrow> rat \<Rightarrow> fence_fn \<Rightarrow> chat_coordinator \<Rightarrow> chat_identity \<Rightarrow> request \<Rightarrow>
    path \<Rightarrow> string \<Rightarrow> string \<Rightarrow> chat_coordinator \<times> (exec_error + policy_decision)" where
  "propose_next_command rt h pv now fence co binding proposed croot head tree =
     (if loop_stopped fence then (co, Inl (ContractError ''stop_fence''))
      else case get_or_create_budget rt co (cb_binding_id binding) 10 of
        (co', Inl err) \<Rightarrow> (co', Inl err)
      | (co', Inr b) \<Rightarrow>
          if lb_is_exhausted b then (co', Inl (ContractError ''loop_exhausted''))
          else (co', evaluate rt h pv now
             \<lparr>eq_request = proposed, eq_candidate_root = croot, eq_project_root = None, eq_filesystem_targets = [],
              eq_approval_token = None, eq_current_head = Some head, eq_current_tree = Some tree, eq_network_requested = False\<rparr>))"

section \<open>Documents read back\<close>

lemma chat_binding_roundtrip: "chat_binding_from_dict rt (chat_binding_to_dict b) = Inr b"
  by (simp add: chat_binding_from_dict_def chat_binding_to_dict_def need_text_def need_def py_get_default_def lift_py_def py_str_def)

lemma budget_roundtrip: "budget_from_dict rt (budget_to_dict b) = Inr b"
  by (simp add: budget_from_dict_def budget_to_dict_def need_text_def need_def py_get_default_def py_get_def lift_py_def py_str_def)

lemma load_persisted [simp]: "load_budget rt (persist_budget files file b) file = Inr b"
  by (simp add: load_budget_def persist_budget_def budget_roundtrip)

lemma persist_other [simp]: "file \<noteq> file' \<Longrightarrow> persist_budget files file b file' = files file'"
  by (simp add: persist_budget_def)

text \<open>An envelope made from a result shows neither stream with a GitHub token, and is bound to the result.\<close>

lemma envelope_of_result:
  assumes "from_execution_result rt eid binding res head tree submission = Inr en"
  shows "en_binding en = binding \<and> en_execution_id en = rs_execution_id res \<and> en_result_digest en = rs_result_digest res \<and>
    en_envelope_digest en = envelope_digest rt en \<and>
    \<not> (\<exists>w. is_github_token w \<and> (sublist w (en_stdout_presentation en) \<or> sublist w (en_stderr_presentation en)))"
  using assms redact_token_free
  by (auto simp: from_execution_result_def envelope_post_init_def envelope_digest_def envelope_document_def)

section \<open>Calls and restarts\<close>

datatype chat_event =
    Deliver fence_fn envelope chat_identity
  | Propose host string rat fence_fn chat_identity request path string string
  | OpenBudget string int
  | Restart

text \<open>The coordinator after an event, and whether it delivered a result under the given budget file.\<close>

fun chat_request :: "runtime \<Rightarrow> string \<Rightarrow> chat_coordinator \<Rightarrow> chat_event \<Rightarrow> chat_coordinator \<times> bool" where
  "chat_request rt file co (Deliver fence en active) =
     (case process_result_for_chat rt fence co en active of (co', res) \<Rightarrow>
        (co', res = Inr (True, ''DELIVERED_TO_CHAT'', Some en) \<and> budget_file (cb_binding_id (en_binding en)) = file))"
| "chat_request rt file co (Propose h pv now fence binding proposed croot head tree) =
     (fst (propose_next_command rt h pv now fence co binding proposed croot head tree), False)"
| "chat_request rt file co (OpenBudget bid n) = (fst (get_or_create_budget rt co bid n), False)"
| "chat_request rt file co Restart = (new_coordinator (co_budgets co), False)"

definition budget_holds :: "string \<Rightarrow> int \<Rightarrow> chat_coordinator \<Rightarrow> loop_budget \<Rightarrow> bool" where
  "budget_holds file m co b \<longleftrightarrow> co_budgets co file = Some (PDict (budget_to_dict b)) \<and> lb_max_iterations b = m \<and>
     0 \<le> lb_current_iteration b \<and> lb_current_iteration b \<le> max 1 m \<and>
     (lb_is_exhausted b \<longleftrightarrow> 0 < lb_current_iteration b \<and> m \<le> lb_current_iteration b)"

definition used :: "runtime \<Rightarrow> string \<Rightarrow> chat_coordinator \<Rightarrow> nat" where
  "used rt file co = (case load_budget rt (co_budgets co) file of Inr b \<Rightarrow> nat (lb_current_iteration b) | Inl _ \<Rightarrow> 0)"

lemma budget_holds_load: "budget_holds file m co b \<Longrightarrow> load_budget rt (co_budgets co) file = Inr b"
  by (simp add: budget_holds_def load_budget_def budget_roundtrip)

lemma budget_holds_used: "budget_holds file m co b \<Longrightarrow> used rt file co = nat (lb_current_iteration b)"
  by (simp add: used_def budget_holds_load)

lemma budget_holds_same: "co_budgets co' file = co_budgets co file \<Longrightarrow> budget_holds file m co' b = budget_holds file m co b"
  by (simp add: budget_holds_def)

text \<open>Opening a budget keeps every file that is there.\<close>

lemma get_or_create_keeps:
  "co_budgets co file \<noteq> None \<Longrightarrow> co_budgets (fst (get_or_create_budget rt co bid n)) file = co_budgets co file"
  by (auto simp: get_or_create_budget_def persist_budget_def Let_def split: option.splits)

lemma get_or_create_present:
  assumes "budget_holds (budget_file bid) m co b"
  shows "get_or_create_budget rt co bid n = (co, Inr b)"
  using assms budget_holds_load[OF assms] by (auto simp: get_or_create_budget_def budget_holds_def)

lemma count_iteration_holds:
  assumes "budget_holds file m co b" and "\<not> lb_is_exhausted b" and "co_budgets co' = persist_budget files file (count_iteration b eid)"
  shows "budget_holds file m co' (count_iteration b eid) \<and> lb_current_iteration (count_iteration b eid) = lb_current_iteration b + 1 \<and>
    lb_current_iteration b < max 1 m"
  using assms by (auto simp: budget_holds_def count_iteration_def persist_budget_def Let_def)

lemma propose_keeps:
  "co_budgets co file \<noteq> None \<Longrightarrow>
     co_budgets (fst (propose_next_command rt h pv now fence co binding proposed croot head tree)) file = co_budgets co file"
  using get_or_create_keeps[of co "file" rt "cb_binding_id binding" 10]
  by (auto simp: propose_next_command_def split: prod.splits sum.splits)

text \<open>What a delivery does with the budget of a file: it counts one exactly when it is under that file and delivers.\<close>

lemma deliver_effect:
  assumes "budget_holds file m co b" and "process_result_for_chat rt fence co en active = (co', res)"
  shows "if res = Inr (True, ''DELIVERED_TO_CHAT'', Some en) \<and> budget_file (cb_binding_id (en_binding en)) = file
    then \<not> lb_is_exhausted b \<and> co_budgets co' = persist_budget (co_budgets co) file (count_iteration b (en_execution_id en))
    else co_budgets co' file = co_budgets co file"
proof (cases "budget_file (cb_binding_id (en_binding en)) = file")
  case True
  then have "get_or_create_budget rt co (cb_binding_id (en_binding en)) 10 = (co, Inr b)"
    using assms(1) get_or_create_present by blast
  with assms(2) True show ?thesis
    by (auto simp: process_result_for_chat_def Let_def split: if_splits option.splits)
next
  case False
  have present: "co_budgets co file \<noteq> None" using assms(1) by (simp add: budget_holds_def)
  obtain co1 r1 where g: "get_or_create_budget rt co (cb_binding_id (en_binding en)) 10 = (co1, r1)" by fastforce
  then have "co_budgets co1 file = co_budgets co file" using get_or_create_keeps[OF present, of rt "cb_binding_id (en_binding en)" 10] by simp
  with assms(2) False g show ?thesis
    by (auto simp: process_result_for_chat_def Let_def split: if_splits option.splits sum.splits)
qed

interpretation chat_budget: bounded_grants "chat_request rt file" "\<lambda>co. \<exists>b. budget_holds file m co b" "used rt file" "nat (max 1 m)"
proof unfold_locales
  fix co ev assume "\<exists>b. budget_holds file m co b"
  then obtain b where b: "budget_holds file m co b" by blast
  then have present: "co_budgets co file \<noteq> None" by (simp add: budget_holds_def)
  note u = budget_holds_used[OF b, of rt]
  consider (quiet) "co_budgets (fst (chat_request rt file co ev)) file = co_budgets co file" "\<not> snd (chat_request rt file co ev)"
    | (grant) eid where "snd (chat_request rt file co ev)" "\<not> lb_is_exhausted b"
        "co_budgets (fst (chat_request rt file co ev)) = persist_budget (co_budgets co) file (count_iteration b eid)"
  proof (cases ev)
    case (Deliver fence en active)
    obtain co' res where p: "process_result_for_chat rt fence co en active = (co', res)" by fastforce
    from deliver_effect[OF b p] Deliver p that show thesis by (auto split: if_splits)
  next
    case (Propose h pv now fence binding proposed croot head tree)
    with that(1) propose_keeps[OF present] show thesis by simp
  next
    case (OpenBudget bid n)
    with that(1) get_or_create_keeps[OF present] show thesis by simp
  next
    case Restart
    with that(1) show thesis by (simp add: new_coordinator_def)
  qed
  then have "(\<exists>b'. budget_holds file m (fst (chat_request rt file co ev)) b') \<and>
      (if snd (chat_request rt file co ev)
       then used rt file co < nat (max 1 m) \<and> used rt file (fst (chat_request rt file co ev)) = Suc (used rt file co)
       else used rt file (fst (chat_request rt file co ev)) = used rt file co)"
  proof cases
    case quiet
    then have "budget_holds file m (fst (chat_request rt file co ev)) b" using b budget_holds_same by blast
    with quiet u show ?thesis using budget_holds_used by auto
  next
    case (grant eid)
    note counted = count_iteration_holds[OF b grant(2,3)]
    then have "used rt file (fst (chat_request rt file co ev)) = nat (lb_current_iteration b + 1)" using budget_holds_used by metis
    moreover have "0 \<le> lb_current_iteration b" using b by (simp add: budget_holds_def)
    ultimately show ?thesis using counted grant(1) u by (auto simp: nat_add_distrib)
  qed
  then show "\<exists>b. budget_holds file m (fst (chat_request rt file co ev)) b"
    and "snd (chat_request rt file co ev) \<Longrightarrow> used rt file co < nat (max 1 m) \<and>
      used rt file (fst (chat_request rt file co ev)) = Suc (used rt file co)"
    and "\<not> snd (chat_request rt file co ev) \<Longrightarrow> used rt file (fst (chat_request rt file co ev)) = used rt file co"
    by auto
qed

lemma opened_budget_holds:
  assumes "co_budgets co (budget_file bid) = None"
  shows "\<exists>b. budget_holds (budget_file bid) m (fst (get_or_create_budget rt co bid m)) b \<and> lb_current_iteration b = 0"
  using assms by (auto simp: get_or_create_budget_def budget_holds_def persist_budget_def Let_def intro!: exI)

section \<open>Properties\<close>

text \<open>C14: Once the budget of a binding has been opened with \<open>m\<close> iterations, at most \<open>m\<close> results are delivered to that chat, and one
  when \<open>m\<close> is not positive, through any interleaving of deliveries, proposals, further openings with other limits and
  restarts of the coordinator. The bound is shared by all bindings whose identifiers give the same file name.\<close>

theorem chat_deliveries_bounded:
  assumes "co_budgets co (budget_file bid) = None" and "get_or_create_budget rt co bid m = (co', r)"
  shows "snd (run_requests (chat_request rt (budget_file bid)) co' evs) \<le> nat (max 1 m)"
proof -
  obtain b where b: "budget_holds (budget_file bid) m co' b" "lb_current_iteration b = 0"
    using opened_budget_holds[OF assms(1), of m rt] assms(2) by auto
  then have "used rt (budget_file bid) co' = 0" using budget_holds_used by fastforce
  then show ?thesis using chat_budget.grants_bounded[of "budget_file bid" m co' rt evs] b(1) by auto
qed

definition sample_chat :: chat_identity where
  "sample_chat = \<lparr>cb_project_id = ''p'', cb_run_id = ''r'', cb_task_id = ''t'', cb_binding_id = ''b'', cb_binding_generation = 1,
     cb_conversation_id = ''c'', cb_chat_tab_id = ''tab''\<rparr>"

definition sample_envelope :: "string \<Rightarrow> envelope" where
  "sample_envelope eid = \<lparr>en_envelope_id = ''env'', en_binding = sample_chat, en_execution_id = eid, en_request_digest = ''sha256:q'',
     en_result_digest = ''sha256:r'', en_mechanical_status = STATUS_COMPLETED, en_exit_code = Some 0, en_source_head = [],
     en_source_tree = [], en_stdout_presentation = [], en_stderr_presentation = [], en_raw_evidence_refs = [],
     en_workflow_submission_id = None, en_schema = CHAT_RESULT_ENVELOPE_SCHEMA, en_version = CHAT_RESULT_ENVELOPE_VERSION,
     en_envelope_digest = []\<rparr>"

lemmas chat_defs = process_result_for_chat_def get_or_create_budget_def load_budget_def persist_budget_def budget_roundtrip
  count_iteration_def new_coordinator_def loop_stopped_def Let_def

lemmas chat_sample_defs = chat_defs sample_chat_def sample_envelope_def

text \<open>C14 applied to a budget of one iteration, two results and a restart between them.\<close>

theorem chat_deliveries_bounded_witness:
  "let co = fst (get_or_create_budget sample_runtime (new_coordinator Map.empty) ''b'' 1);
       evs = [Deliver NoFence (sample_envelope ''e1'') sample_chat, Restart, Deliver NoFence (sample_envelope ''e2'') sample_chat]
   in 0 < snd (run_requests (chat_request sample_runtime (budget_file ''b'')) co evs) \<and>
      snd (run_requests (chat_request sample_runtime (budget_file ''b'')) co evs) \<le> nat (max 1 1)"
proof -
  let ?co = "fst (get_or_create_budget sample_runtime (new_coordinator Map.empty) ''b'' 1)"
  let ?evs = "[Deliver NoFence (sample_envelope ''e1'') sample_chat, Restart, Deliver NoFence (sample_envelope ''e2'') sample_chat]"
  have "snd (run_requests (chat_request sample_runtime (budget_file ''b'')) ?co ?evs) \<le> nat (max 1 1)"
    by (rule chat_deliveries_bounded[where r = "snd (get_or_create_budget sample_runtime (new_coordinator Map.empty) ''b'' 1)"])
       (simp_all add: new_coordinator_def)
  moreover have "0 < snd (run_requests (chat_request sample_runtime (budget_file ''b'')) ?co ?evs)"
    by (simp add: chat_sample_defs case_prod_beta)
  ultimately show ?thesis by (simp add: Let_def)
qed

text \<open>A budget of no iterations still delivers one result: exhaustion is noticed only after counting.\<close>

lemma zero_budget_delivers_one:
  "snd (process_result_for_chat rt NoFence (fst (get_or_create_budget rt (new_coordinator Map.empty) ''b'' 0)) (sample_envelope ''e1'') sample_chat)
     = Inr (True, ''DELIVERED_TO_CHAT'', Some (sample_envelope ''e1''))"
  by (simp add: chat_sample_defs)

lemma get_or_create_accepted: "co_accepted (fst (get_or_create_budget rt co bid n)) = co_accepted co"
  by (simp add: get_or_create_budget_def Let_def split: option.splits)

text \<open>A delivery needs an open fence, the exact binding, an execution not answered before and budget.\<close>

lemma delivery_conditions:
  assumes "process_result_for_chat rt fence co en active = (co', Inr (True, ''DELIVERED_TO_CHAT'', x))"
  shows "\<not> loop_stopped fence \<and> en_binding en = active \<and> co_accepted co (en_execution_id en) = None \<and>
    (\<exists>b. snd (get_or_create_budget rt co (cb_binding_id active) 10) = Inr b \<and> \<not> lb_is_exhausted b) \<and>
    co_accepted co' = (co_accepted co)(en_execution_id en \<mapsto> en_result_digest en) \<and> x = Some en"
proof -
  obtain co1 r1 where e: "get_or_create_budget rt co (cb_binding_id (en_binding en)) 10 = (co1, r1)" by fastforce
  then have "co_accepted co1 = co_accepted co" using get_or_create_accepted by (metis fst_conv)
  with assms e show ?thesis
    by (cases r1) (auto simp: process_result_for_chat_def Let_def split: if_splits option.splits)
qed

text \<open>As long as the coordinator lives, an answered execution is never delivered again: the same result is acknowledged, another raises.\<close>

lemma accepted_kept:
  assumes "co_accepted co eid = Some d" and "ev \<noteq> Restart"
  shows "co_accepted (fst (chat_request rt file co ev)) eid = Some d"
proof -
  note g = get_or_create_accepted[of rt co]
  show ?thesis
  proof (cases ev)
    case (Deliver fence en active)
    obtain co1 r1 where e: "get_or_create_budget rt co (cb_binding_id (en_binding en)) 10 = (co1, r1)" by fastforce
    with g[of "cb_binding_id (en_binding en)" 10] have "co_accepted co1 = co_accepted co" by simp
    with assms Deliver e show ?thesis
      by (cases r1) (auto simp: process_result_for_chat_def Let_def split: option.splits)
  next
    case (Propose h pv now fence binding proposed croot head tree)
    with assms g[of "cb_binding_id binding" 10] show ?thesis
      by (auto simp: propose_next_command_def split: prod.splits sum.splits)
  qed (use assms g in auto)
qed

text \<open>A restart forgets what was answered: the same envelope is delivered a second time, and counted a second time.\<close>

lemma delivered_again_after_restart:
  assumes "process_result_for_chat rt fence co en active = (co', Inr (True, ''DELIVERED_TO_CHAT'', Some en))"
    and "co_budgets co' (budget_file (cb_binding_id active)) = Some (PDict (budget_to_dict b))" and "\<not> lb_is_exhausted b"
  shows "snd (process_result_for_chat rt fence (fst (chat_request rt file co' Restart)) en active) = Inr (True, ''DELIVERED_TO_CHAT'', Some en)"
  using delivery_conditions[OF assms(1)] assms(2,3)
  by (auto simp: chat_defs)

text \<open>Two bindings may share a budget.\<close>

lemma budget_files_collide: "budget_file ''chat:1'' = budget_file ''chat_1''"
  by (simp add: budget_file_def replace_char_def)

end
