(* ===== verification/Spec2Isabelle.thy ===== *)
theory Spec2Isabelle
  imports Repair_Loop CI_Waiting Send_Intent Project_Scope Until_Stopped Binding_Lifecycle
    Candidate_Bridge Execution_Worker Same_Chat
begin

text \<open>
  \<^bold>\<open>A verification library for the AUTO execution core of Bartosz Dev Bridge vNext\<close> (\<^verbatim>\<open>src/bdb_vnext/\<close>, Python).

  \<^bold>\<open>The program.\<close> The bridge lets an assistant work through an approved plan on its own. An orchestrator chooses the
  next task from a durable cursor under one of four scopes; a STOP fence and an epoch cut off every effect at once;
  failures are classified and retried or repaired under durable budgets; when a conversation ends, the work is carried
  on by a continuation packet that exactly one owner of a lease may send into exactly one chat; external CI is awaited
  before work goes on. Commands that an assistant asks for are typed requests, allowed by a deny-by-default policy, queued in an
  outbox and run by a process runner. All of it is kept in SQLite tables that several processes read and write at the same time. That
  is what is modelled here: the tables as records of lists of rows, every operation as a function from a store to a
  store and a result, every exception as a value, and the interleavings of the processes as step relations.

  \<^bold>\<open>The theories\<close>, in the order of their imports.

  \<^item> \<open>Py_Prelude\<close>: Python values (\<open>pyval\<close>: what JSON can hold), their truth, equality, text and JSON text; texts as lists of
    code points up to 255; floats as exact rationals; instants as integers of microseconds with \<open>isoformat\<close>; the services
    of the run time that a definition takes as an argument (record \<open>runtime\<close>: SHA-256 and the text of a float); the two
    generic interfaces, locale \<open>inductive_invariant\<close> (an invariant of a step relation holds in all reachable states) and
    locale \<open>bounded_grants\<close> (a counter that every grant advances bounds the number of grants).
  \<^item> \<open>Failure_Taxonomy\<close>, \<open>Failure_Classifier\<close> (\<^verbatim>\<open>failure_taxonomy.py\<close>, \<^verbatim>\<open>failure_classifier.py\<close>): the classes, their transition
    matrix and precedence; the thirteen rules over JSON evidence, tried in the order of the registry.
  \<^item> \<open>Failure_Budget\<close> (\<^verbatim>\<open>failure_budget.py\<close>): fingerprints, policies, backoff with jitter, the ledger and its overrides, and the
    bounded model checker. Three interpretations of \<open>bounded_grants\<close> bound retries, repairs and repairs of one fingerprint.
  \<^item> \<open>Auto_Scope\<close>, \<open>Plan_Graph\<close>, \<open>Stop_Fence\<close>, \<open>Scope_Orchestrator\<close> (\<^verbatim>\<open>auto_scope_contract.py\<close>, \<^verbatim>\<open>scope_orchestrator.py\<close>, \<^verbatim>\<open>stop_fence.py\<close>): the pure
    evaluator of scope transitions; plans with their digest and \<open>validate_graph\<close>; the guard of the six effect boundaries and the
    STOP and resume transactions; the cursor with its compare-and-swap, \<open>tick\<close>, and the machine of workers that read, tick and
    commit while operators stop and resume (an interpretation of \<open>inductive_invariant\<close>).
  \<^item> \<open>Project_Scope\<close> (\<^verbatim>\<open>project_scope_execution.py\<close>): identities of runs, the crossing of a milestone boundary, the command of the user
    interface.
  \<^item> \<open>Plan_Admission\<close>, \<open>Until_Stopped\<close> (\<^verbatim>\<open>until_stopped.py\<close>): documents of plans, the table of admissions, starting, presenting and approving
    a successor, the tick of the UNTIL_STOPPED scope, and the machine in which decisions and approvals are taken on
    one state of the store and committed on a later one.
  \<^item> \<open>Repair_Loop\<close>, \<open>Transient_Recovery\<close> (\<^verbatim>\<open>repair_loop.py\<close>, \<^verbatim>\<open>transient_recovery.py\<close>): repairs inside a mutation envelope with exact
    retests, and scheduled retries, both on the shared ledger; the verifier and the operation to retry are function arguments.
  \<^item> \<open>CI_Waiting\<close> (\<^verbatim>\<open>ci_waiting.py\<close>): durable waits, polls with every outcome, history, and the fake provider; another provider
    is an argument with a state of its own. Registrations and polls are split between their read, the provider's answer and their
    write, and a machine interleaves these parts and crashes (an interpretation of \<open>inductive_invariant\<close>).
  \<^item> \<open>Continuation_Packet\<close>, \<open>Project_Store\<close>, \<open>Continuation_Lease\<close>, \<open>Send_Intent\<close> (\<^verbatim>\<open>continuation_packet.py\<close>, \<^verbatim>\<open>continuation_lease.py\<close>,
    \<^verbatim>\<open>send_intent.py\<close> and the tables of \<^verbatim>\<open>project_memory_v2_contract.py\<close>): packets as documents, with building and validation; the
    store with its writer transactions, project revision and audit log; the seven lease operations, which refine an
    abstract lease (locale \<open>lease_contract\<close>, interpreted on the step relation of the code); the send intents from
    \<open>prepare\<close> to \<open>ack\<close>, with the browser as an argument and the fake browser as its instance.
  \<^item> \<open>Binding_Lifecycle\<close> (\<^verbatim>\<open>binding_lifecycle.py\<close>): transitions of execution bindings, the check of their invariants, reconciliation.
  \<^item> \<open>Local_Execution\<close>, \<open>Execution_Policy\<close>, \<open>Process_Runner\<close>, \<open>Candidate_Bridge\<close>, \<open>Execution_Worker\<close> (\<^verbatim>\<open>local_execution_contract.py\<close>, \<^verbatim>\<open>execution_policy.py\<close>,
    \<^verbatim>\<open>stateless_process_runner.py\<close>, \<^verbatim>\<open>candidate_execution_bridge.py\<close>, \<^verbatim>\<open>local_execution_worker.py\<close>): requests, evidence and results with their
    constructors, digests and documents (locale \<open>document_codec\<close>, interpreted on all three); approval tokens, paths and the
    evaluator; quoting, redaction and one run over a record of what the operating system answers; the bridge that runs a
    request in a candidate and makes it eligible; the outbox, the worker and its recovery.
  \<^item> \<open>Output_Hardening\<close>, \<open>Same_Chat\<close> (\<^verbatim>\<open>output_cancellation_hardening.py\<close>, \<^verbatim>\<open>same_chat_local_execution.py\<close>): the redactor over a matcher for the
    regular expressions it uses (locale \<open>token_rule\<close>, interpreted on its two GitHub rules), stream chunks, externalised evidence and cancellation
    receipts; the envelope that returns a result to its chat, the durable loop budget (an interpretation of \<open>bounded_grants\<close>) and the coordinator.

  \<^bold>\<open>How the parts interact.\<close> The cursor and the fences of \<open>Stop_Fence\<close> are the one state they share: the orchestrator, project
  runs and the UNTIL_STOPPED controller move the cursor only by a compare-and-swap on its revision, which STOP and
  resume advance as well; leases and send intents ask the same guard inside their transactions. Retries and repairs share
  one ledger. A lease is claimed for a packet, an intent is bound to lease, packet and conversation.
  The bridge asks the policy, hands its decision to the runner, and the runner revalidates it before it starts a process.

  \<^bold>\<open>What is shown.\<close> Bounds: physical sends never exceed the proofs that reopen them and CI continuations the openings
  of their wait plus the polls that overlapped, in every interleaving; retries, repairs and retried operations stay within their budgets over
  ledger calls one after another. Safety: after a STOP no boundary lets an effect through
  until a resume, a fenced epoch never returns, no send touches the browser; a task is launched exactly under the conditions of its scope,
  across a milestone boundary the first unaccepted one, and, under UNTIL_STOPPED, only as the next legal task of the exactly approved plan; a lease excludes every other
  owner until it expires and a stale owner is refused; a repair is accepted only on an exact pass; CI continues the
  work only on the awaited run. Invariants: confirmed intents carry evidence of their own identity, a project has one approved
  plan and its cursor runs it, reconciled bindings have one active generation. Refinement: leases implement the abstract lease, commits are linearizable.
  Equivalence: the milestone loop of the UNTIL_STOPPED tick is the local choice of one milestone. Termination: \<open>validate_graph\<close> and the model checker
  return, with their verdicts characterised. Liveness: an allowed send is confirmed. Round trip: packets and requests through their
  documents, output chunks through the accumulator, rows of the outbox back to the requests submitted. A request is allowed exactly under the
  specification of the policy, a process is started only under a decision that still holds, a mutation of the project runs inside its
  candidate, a leased execution has one owner, a completed one is final; redacted text has no GitHub token, captured evidence stays verifiable, results returned to a chat stay within the
  loop budget across restarts; different argument lists give different command lines. Errors: the ways in which the code does not keep what it says, each as a theorem or a lemma about the model.

  \<^bold>\<open>Bounds and fuel.\<close> The depth-first search of \<open>validate_graph\<close> takes one more than the number of tasks as fuel, which is proved to be
  enough for every order of the set it iterates; the model checker explores a tree whose weight decreases. Substitution of secrets takes the
  length of the text as fuel, enough because no pattern matches the empty text, the monitoring loop runs over the list of its observations. Everything else is structural recursion or a fold. Revisions and epochs are unbounded integers: SQLite would fail at \<open>2^63\<close>.

  \<^bold>\<open>Parameters.\<close> SHA-256, the text of a float, \<open>fromisoformat\<close>, the clock, random identifiers, the answers of \<open>git\<close>, the verifier of
  repairs, the retried operation, the CI provider, the browser, parsing and resolving of paths, decoding of bytes and the operating system are arguments of the definitions that use them. Floats
  are exact rationals, so rounding inside a backoff is not modelled; the conversion of an integer to a float in requests rounds to 53 bits and overflows as in Python.

  \<^bold>\<open>Not modelled.\<close> Creation and migration of tables; locking errors of SQLite and crashes between two commits of one call;
  texts beyond Latin-1; the interpreter's recursion limit; reading a packet from JSON bytes; \<open>state_snapshot\<close> of
  the UNTIL_STOPPED controller.

  \<^bold>\<open>Atomicity.\<close> A transaction of the code that begins with BEGIN IMMEDIATE, or a single guarded UPDATE, is one step, and so are these calls, which
  are not one transaction in the code: the calls of the budget ledger, which read counters and write them back (two processes at once can both be granted the last
  attempt); \<open>create_repair_request\<close>, which commits after the evaluation, the consumption and the inserts; \<open>execute_exact_retest\<close>, where the record may
  change while the verifier runs; the STOP transaction, which reads the cursor before it takes the write lock (the fence row closes the boundary all the same);
  \<open>start\<close> of the UNTIL_STOPPED controller, which commits twice. Manual overrides of the ledger are modelled as an operation but are no steps of the bounded runs, since
  they reset the counters. Ticks of the orchestrator and of the UNTIL_STOPPED controller, approvals, CI registrations and CI polls are split at
  their reads and writes.

  Outside the core chosen here, and not modelled, are project execution and launch,
  the project memory as a whole, PowerShell sessions, tool adapters and the shared artifact store, machine inventory and UI automation, the milestone
  subsystems (\<^verbatim>\<open>m*.py\<close>), the engineering loop, observability and learning, the qualification harnesses, the composition root, the
  previous generation (\<^verbatim>\<open>bdb_bridge\<close>), the user interfaces and the browser extensions.
\<close>

end
